(* ===== verification/Prelude.thy ===== *)
theory Prelude
  imports Main "HOL-Library.Word"
begin

text \<open>
  Shared vocabulary of the ENDAP development: names for the C integer types, the
  collections of simplification rules that the component theories extend, and the generic
  facts on lists, tables and words that several components use.

  Unsigned C integers are \<^typ>\<open>'a word\<close> values; a signed 32-bit integer is the same 32-bit
  word read through \<^term>\<open>sint\<close>.
\<close>

unbundle bit_operations_syntax

type_synonym u8 = "8 word"
type_synonym u16 = "16 word"
type_synonym u32 = "32 word"
type_synonym u64 = "64 word"
type_synonym i32 = "32 word"
type_synonym bytes = "8 word list"

named_theorems ring_simps
named_theorems frame_simps
named_theorems table_simps

section \<open>C strings and memory\<close>

text \<open>A C string is the bytes of its buffer up to the first NUL (all of them when there is none).\<close>

definition c_str :: "bytes \<Rightarrow> bytes" where
  "c_str buf = takeWhile (\<lambda>b. b \<noteq> 0) buf"

text \<open>The bytes of a HOL string literal.\<close>

definition str_bytes :: "string \<Rightarrow> bytes" where
  "str_bytes s = map (\<lambda>c. of_nat (of_char c)) s"

text \<open>
  \<open>strncpy(dst, src, n)\<close> over a destination of \<open>n\<close> bytes: the string, cut at \<open>n\<close>
  and padded with NULs.
\<close>

definition c_strncpy :: "bytes \<Rightarrow> nat \<Rightarrow> bytes" where
  "c_strncpy src n = take n (c_str src @ replicate n 0)"

lemma length_c_strncpy [simp]: "length (c_strncpy src n) = n"
  by (simp add: c_strncpy_def)

lemma c_str_snoc: "c_str (xs @ [0]) = c_str xs"
  by (induction xs) (simp_all add: c_str_def)

lemma c_str_prefix: "c_str (take n (xs @ replicate n 0) @ 0 # ys) = take n xs" if "\<forall>b \<in> set xs. b \<noteq> 0"
proof (cases "length xs \<le> n")
  case True
  have "takeWhile (\<lambda>b. b \<noteq> 0) (replicate m 0 @ 0 # ys) = []" for m by (cases m) simp_all
  with True show ?thesis using that by (simp add: c_str_def takeWhile_append2 min_def)
next
  case False
  then have "c_str (take n xs @ 0 # ys) = take n xs"
    using that by (subst c_str_def, subst takeWhile_append2) (auto dest: in_set_takeD)
  with False show ?thesis by simp
qed

lemma c_str_strncpy: "c_str (c_strncpy src n @ 0 # ys) = take n (c_str src)"
  unfolding c_strncpy_def by (rule c_str_prefix) (auto simp: c_str_def dest: set_takeWhileD)

text \<open>\<open>snprintf(dst, n, "%s", src)\<close> into a zeroed destination of \<open>n\<close> bytes.\<close>

definition c_snprintf :: "nat \<Rightarrow> bytes \<Rightarrow> bytes" where
  "c_snprintf n src = c_strncpy src (n - 1) @ [0]"

lemma c_str_snprintf [simp]: "c_str (c_snprintf n src) = take (n - 1) (c_str src)"
  by (simp add: c_snprintf_def c_str_strncpy)

lemma length_c_snprintf [simp]: "0 < n \<Longrightarrow> length (c_snprintf n src) = n"
  by (simp add: c_snprintf_def)

lemma c_str_id: "\<forall>b \<in> set xs. b \<noteq> 0 \<Longrightarrow> c_str xs = xs"
  by (simp add: c_str_def takeWhile_eq_all_conv)

lemma c_str_no_nul [simp]: "0 \<notin> set (c_str xs)"
  by (auto simp: c_str_def dest: set_takeWhileD)

section \<open>Decimal numbers\<close>

text \<open>Decimal numbers as \<open>printf\<close> writes them.\<close>

fun c_udec :: "nat \<Rightarrow> bytes" where
  "c_udec n = (if n < 10 then [of_nat (48 + n)] else c_udec (n div 10) @ [of_nat (48 + n mod 10)])"

declare c_udec.simps [simp del]

lemma length_c_udec: "n < 10 ^ k \<Longrightarrow> 0 < k \<Longrightarrow> length (c_udec n) \<le> k"
proof (induction k arbitrary: n)
  case (Suc k)
  show ?case
  proof (cases "n < 10")
    case False
    have "n div 10 < 10 ^ k" using Suc.prems(1) by (simp add: less_mult_imp_div_less mult.commute)
    moreover have "0 < k" using False Suc.prems(1) by (cases k) simp_all
    ultimately have "length (c_udec (n div 10)) \<le> k" by (rule Suc.IH)
    then show ?thesis using False by (subst c_udec.simps) simp
  qed (subst c_udec.simps, simp)
qed simp

section \<open>Little-endian integers\<close>

definition le16 :: "u16 \<Rightarrow> bytes" where
  "le16 x = [ucast x, ucast (drop_bit 8 x)]"

definition le32 :: "u32 \<Rightarrow> bytes" where
  "le32 x = [ucast x, ucast (drop_bit 8 x), ucast (drop_bit 16 x), ucast (drop_bit 24 x)]"

definition of_le16 :: "bytes \<Rightarrow> u16" where
  "of_le16 bs = ucast (bs ! 0) OR push_bit 8 (ucast (bs ! 1))"

definition of_le32 :: "bytes \<Rightarrow> u32" where
  "of_le32 bs = ucast (bs ! 0) OR push_bit 8 (ucast (bs ! 1)) OR
     push_bit 16 (ucast (bs ! 2)) OR push_bit 24 (ucast (bs ! 3))"

lemma length_le16 [simp]: "length (le16 x) = 2"
  by (simp add: le16_def)

lemma length_le32 [simp]: "length (le32 x) = 4"
  by (simp add: le32_def)

lemma of_le16_le16 [simp]: "of_le16 (le16 x) = x"
  unfolding of_le16_def le16_def
  by (rule bit_word_eqI) (auto simp: bit_simps)

lemma of_le32_le32 [simp]: "of_le32 (le32 x) = x"
proof (rule bit_word_eqI)
  fix n assume "n < LENGTH(32)"
  then consider "n < 8" | "8 \<le> n \<and> n < 16" | "16 \<le> n \<and> n < 24" | "24 \<le> n \<and> n < 32"
    by fastforce
  then show "bit (of_le32 (le32 x)) n = bit x n"
    by cases (auto simp: of_le32_def le32_def bit_simps)
qed

lemma of_le32_append [simp]: "of_le32 (le32 x @ ys) = x"
proof -
  have "of_le32 (le32 x @ ys) = of_le32 (le32 x)" by (simp add: of_le32_def le32_def)
  then show ?thesis by simp
qed

lemma of_le16_append [simp]: "of_le16 (le16 x @ ys) = x"
proof -
  have "of_le16 (le16 x @ ys) = of_le16 (le16 x)" by (simp add: of_le16_def le16_def)
  then show ?thesis by simp
qed

section \<open>Exclusive or\<close>

lemma xor_cancel_right: "a XOR c = b XOR c \<longleftrightarrow> a = (b :: 'a::len word)"
proof
  assume "a XOR c = b XOR c"
  then have "(a XOR c) XOR c = (b XOR c) XOR c" by simp
  then show "a = b" by (simp add: xor.assoc)
qed simp

lemma xor_cancel_left: "c XOR a = c XOR b \<longleftrightarrow> a = (b :: 'a::len word)"
  using xor_cancel_right [of a c b] by (simp add: xor.commute)

section \<open>The FNV-1a checksum\<close>

text \<open>
  \<open>node_registry_crc32\<close>, \<open>failsafe_crc32\<close>, \<open>snapshot_crc32\<close> and \<open>pve_crc32\<close> have this body.
\<close>

definition fnv1a_step :: "u32 \<Rightarrow> u8 \<Rightarrow> u32" where
  "fnv1a_step crc b = (crc XOR ucast b) * 16777619"

definition fnv1a :: "bytes \<Rightarrow> u32" where
  "fnv1a data = foldl fnv1a_step 2166136261 data"

text \<open>Multiplication by the odd FNV prime is invertible, so a step loses no information.\<close>

lemma fnv_prime_cancel: "(x :: u32) * 16777619 = y * 16777619 \<longleftrightarrow> x = y"
proof
  assume "x * 16777619 = y * 16777619"
  then have "x * 16777619 * 899433627 = y * 16777619 * 899433627" by simp
  moreover have "(16777619 :: u32) * 899433627 = 1" by simp
  ultimately show "x = y" by (simp only: mult.assoc mult_1_right)
qed simp

lemma fnv1a_step_inject: "fnv1a_step c b = fnv1a_step d b \<longleftrightarrow> c = d"
  by (simp add: fnv1a_step_def fnv_prime_cancel xor_cancel_right)

lemma ucast_u8_u32_inject: "(ucast (a :: u8) :: u32) = ucast b \<longleftrightarrow> a = b"
proof
  assume "(ucast a :: u32) = ucast b"
  then have "(ucast (ucast a :: u32) :: u8) = ucast (ucast b :: u32)" by simp
  moreover have "(ucast (ucast x :: u32) :: u8) = x" for x :: u8
    by (rule bit_word_eqI) (simp add: bit_simps)
  ultimately show "a = b" by simp
qed simp

lemma fnv1a_step_inject_data: "fnv1a_step c a = fnv1a_step c b \<longleftrightarrow> a = b"
  by (simp add: fnv1a_step_def fnv_prime_cancel xor_cancel_left ucast_u8_u32_inject)

lemma foldl_fnv1a_inject: "foldl fnv1a_step c bs = foldl fnv1a_step d bs \<longleftrightarrow> c = d"
  by (induction bs arbitrary: c d) (simp_all add: fnv1a_step_inject)

text \<open>The checksum detects the change of any single byte.\<close>

lemma fnv1a_detects_byte:
  assumes "i < length bs" "bs ! i \<noteq> b"
  shows "fnv1a (bs[i := b]) \<noteq> fnv1a bs"
proof -
  have split: "bs = take i bs @ bs ! i # drop (Suc i) bs" using assms(1) by (rule id_take_nth_drop)
  have upd: "bs[i := b] = take i bs @ b # drop (Suc i) bs" using assms(1) by (rule upd_conv_take_nth_drop)
  have "fnv1a (take i bs @ b # drop (Suc i) bs) \<noteq> fnv1a (take i bs @ bs ! i # drop (Suc i) bs)"
    using assms(2) by (simp add: fnv1a_def foldl_fnv1a_inject fnv1a_step_inject_data)
  with split upd show ?thesis by metis
qed

section \<open>The CRC-32 checksum\<close>

text \<open>
  The reflected CRC-32 with the polynomial 0xEDB88320, bit by bit: \<open>device_profile_crc32\<close>,
  \<open>sensor_profile_crc32\<close> and \<open>io_binding_crc32\<close> have this body.
\<close>

definition crc32_bit :: "u32 \<Rightarrow> u32" where
  "crc32_bit crc = (if crc AND 1 \<noteq> 0 then drop_bit 1 crc XOR 0xEDB88320 else drop_bit 1 crc)"

definition crc32_step :: "u32 \<Rightarrow> u8 \<Rightarrow> u32" where
  "crc32_step crc b = (crc32_bit ^^ 8) (crc XOR ucast b)"

definition crc32 :: "bytes \<Rightarrow> u32" where
  "crc32 data = NOT (foldl crc32_step 0xFFFFFFFF data)"

text \<open>The top bit of the polynomial is set, so a step of the shift register loses no information.\<close>

lemma crc32_bit_top: "bit (crc32_bit c) 31 = bit c 0"
proof -
  have "bit (drop_bit 1 c) 31 = False" using bit_imp_le_length [of c 32] by (auto simp: bit_drop_bit_eq)
  moreover have "bit (0xEDB88320 :: u32) 31" by simp
  ultimately show ?thesis by (simp add: crc32_bit_def and_one_eq odd_iff_mod_2_eq_one [symmetric] bit_0 bit_xor_iff)
qed

lemma crc32_bit_inject: "crc32_bit a = crc32_bit b \<longleftrightarrow> a = b"
proof
  assume eq: "crc32_bit a = crc32_bit b"
  then have z: "bit a 0 = bit b 0" using crc32_bit_top by metis
  then have "drop_bit 1 a = drop_bit 1 b"
    using eq by (simp add: crc32_bit_def and_one_eq odd_iff_mod_2_eq_one [symmetric] bit_0 xor_cancel_right split: if_splits)
  then have "bit a (Suc n) = bit b (Suc n)" for n by (metis bit_drop_bit_eq comp_apply plus_1_eq_Suc)
  with z have "bit a n = bit b n" for n by (cases n) auto
  then show "a = b" by (simp add: bit_eq_iff)
qed simp

lemma crc32_step_inject: "crc32_step c b = crc32_step d b \<longleftrightarrow> c = d"
proof -
  have "inj (crc32_bit ^^ 8)" by (rule inj_fn) (simp add: inj_def crc32_bit_inject)
  then show ?thesis by (simp add: crc32_step_def inj_eq xor_cancel_right)
qed

lemma crc32_step_inject_data: "crc32_step c a = crc32_step c b \<longleftrightarrow> a = b"
proof -
  have "inj (crc32_bit ^^ 8)" by (rule inj_fn) (simp add: inj_def crc32_bit_inject)
  then show ?thesis by (simp add: crc32_step_def inj_eq xor_cancel_left ucast_u8_u32_inject)
qed

lemma foldl_crc32_inject: "foldl crc32_step c bs = foldl crc32_step d bs \<longleftrightarrow> c = d"
  by (induction bs arbitrary: c d) (simp_all add: crc32_step_inject)

text \<open>The checksum detects the change of any single byte.\<close>

lemma crc32_detects_byte:
  assumes "i < length bs" "bs ! i \<noteq> b"
  shows "crc32 (bs[i := b]) \<noteq> crc32 bs"
proof -
  have split: "bs = take i bs @ bs ! i # drop (Suc i) bs" using assms(1) by (rule id_take_nth_drop)
  have upd: "bs[i := b] = take i bs @ b # drop (Suc i) bs" using assms(1) by (rule upd_conv_take_nth_drop)
  have "crc32 (take i bs @ b # drop (Suc i) bs) \<noteq> crc32 (take i bs @ bs ! i # drop (Suc i) bs)"
    using assms(2) by (simp add: crc32_def foldl_crc32_inject crc32_step_inject_data)
  with split upd show ?thesis by metis
qed

section \<open>First match in a table\<close>

text \<open>
  The scan every table of the firmware uses: the index of the first entry that satisfies a
  test, or nothing.
\<close>

fun find_index :: "('a \<Rightarrow> bool) \<Rightarrow> 'a list \<Rightarrow> nat option" where
  "find_index P [] = None"
| "find_index P (x # xs) = (if P x then Some 0 else map_option Suc (find_index P xs))"

lemma find_index_None [table_simps]: "find_index P xs = None \<longleftrightarrow> (\<forall>x \<in> set xs. \<not> P x)"
  by (induction xs) auto

lemma find_index_replicate [simp]: "\<not> P x \<Longrightarrow> find_index P (replicate n x) = None"
  by (simp add: find_index_None)

lemma find_index_Some:
  "find_index P xs = Some i \<longleftrightarrow> i < length xs \<and> P (xs ! i) \<and> (\<forall>j < i. \<not> P (xs ! j))"
proof (induction xs arbitrary: i)
  case Nil
  then show ?case by simp
next
  case (Cons x xs)
  show ?case
  proof (cases i)
    case 0
    then show ?thesis by auto
  next
    case (Suc k)
    then show ?thesis
      using Cons.IH [of k] by (auto simp: less_Suc_eq_0_disj)
  qed
qed

lemma find_index_SomeD:
  "find_index P xs = Some i \<Longrightarrow> i < length xs \<and> P (xs ! i)"
  by (simp add: find_index_Some)

lemma find_index_lt: "find_index P xs = Some i \<Longrightarrow> i < length xs"
  by (simp add: find_index_Some)

lemma find_index_sat: "find_index P xs = Some i \<Longrightarrow> P (xs ! i)"
  by (simp add: find_index_Some)

lemma find_index_isSome: "(\<exists>i. find_index P xs = Some i) \<longleftrightarrow> (\<exists>x \<in> set xs. P x)"
  by (metis find_index_None not_None_eq)

text \<open>Overwriting the entry a scan found with one that satisfies the test again.\<close>

lemma find_index_update_same:
  assumes "find_index P xs = Some i" and "P y"
  shows "find_index P (xs[i := y]) = Some i"
proof -
  from assms(1) have i: "i < length xs" and before: "\<forall>j < i. \<not> P (xs ! j)"
    by (auto simp: find_index_Some)
  with assms(2) show ?thesis
    by (auto simp: find_index_Some nth_list_update)
qed

text \<open>A scan for another entry does not see an overwrite that it does not match before or after.\<close>

lemma find_index_update_other:
  assumes "\<not> P y" and "i < length xs \<Longrightarrow> \<not> P (xs ! i)"
  shows "find_index P (xs[i := y]) = find_index P xs"
proof (cases "i < length xs")
  case False
  then show ?thesis by (simp add: list_update_beyond)
next
  case True
  show ?thesis
  proof (cases "find_index P xs")
    case None
    with assms(1) have "find_index P (xs[i := y]) = None"
      by (auto simp: find_index_None dest!: set_update_subset_insert [THEN subsetD])
    with None show ?thesis by simp
  next
    case (Some k)
    with assms True have "find_index P (xs[i := y]) = Some k"
      by (auto simp: find_index_Some nth_list_update)
    with Some show ?thesis by simp
  qed
qed

lemma find_index_update_same_test:
  "i < length xs \<Longrightarrow> P y = P (xs ! i) \<Longrightarrow> find_index P (xs[i := y]) = find_index P xs"
proof (induction xs arbitrary: i)
  case (Cons x xs)
  then show ?case by (cases i) auto
qed simp

text \<open>Keys that are pairwise distinct wherever they are in use.\<close>

definition keys_distinct :: "('a \<Rightarrow> bool) \<Rightarrow> ('a \<Rightarrow> 'k) \<Rightarrow> 'a list \<Rightarrow> bool" where
  "keys_distinct used key xs \<longleftrightarrow>
     (\<forall>i < length xs. \<forall>j < length xs.
        used (xs ! i) \<and> used (xs ! j) \<and> key (xs ! i) = key (xs ! j) \<longrightarrow> i = j)"

lemma keys_distinctD:
  "keys_distinct used key xs \<Longrightarrow> i < length xs \<Longrightarrow> j < length xs \<Longrightarrow>
   used (xs ! i) \<Longrightarrow> used (xs ! j) \<Longrightarrow> key (xs ! i) = key (xs ! j) \<Longrightarrow> i = j"
  by (auto simp: keys_distinct_def)

lemma keys_distinct_replicate: "\<not> used x \<Longrightarrow> keys_distinct used key (replicate n x)"
  by (simp add: keys_distinct_def)

lemma keys_distinct_update:
  assumes "keys_distinct used key xs" and "i < length xs"
    and "\<And>j. j < length xs \<Longrightarrow> j \<noteq> i \<Longrightarrow> used y \<Longrightarrow> used (xs ! j) \<Longrightarrow> key (xs ! j) \<noteq> key y"
  shows "keys_distinct used key (xs[i := y])"
  using assms unfolding keys_distinct_def
  by (metis length_list_update nth_list_update_eq nth_list_update_neq)

lemma keys_distinct_map:
  assumes "keys_distinct used key xs"
    and "\<And>x. used (f x) \<Longrightarrow> used x" and "\<And>x. used (f x) \<Longrightarrow> key (f x) = key x"
  shows "keys_distinct used key (map f xs)"
  using assms unfolding keys_distinct_def by (metis length_map nth_map)

lemma keys_distinct_Nil [simp]: "keys_distinct used key []"
  by (simp add: keys_distinct_def)

lemma keys_distinct_Cons:
  "keys_distinct used key (x # xs) \<longleftrightarrow>
     (used x \<longrightarrow> (\<forall>y \<in> set xs. used y \<longrightarrow> key y \<noteq> key x)) \<and> keys_distinct used key xs" (is "?l \<longleftrightarrow> ?r")
proof
  assume l: ?l
  have "i = j" if "i < length xs" "j < length xs" "used (xs ! i)" "used (xs ! j)" "key (xs ! i) = key (xs ! j)" for i j
    using keys_distinctD [OF l, of "Suc i" "Suc j"] that by simp
  moreover have "key y \<noteq> key x" if "used x" "y \<in> set xs" "used y" for y
    using keys_distinctD [OF l, of "Suc i" 0 for i] that by (fastforce simp: in_set_conv_nth)
  ultimately show ?r by (simp add: keys_distinct_def)
next
  assume r: ?r
  have other: "key (xs ! k) \<noteq> key x" if "k < length xs" "used x" "used (xs ! k)" for k using r that by simp
  have "i = j" if "i < Suc (length xs)" "j < Suc (length xs)" "used ((x # xs) ! i)" "used ((x # xs) ! j)"
      "key ((x # xs) ! i) = key ((x # xs) ! j)" for i j
  proof (cases "i = 0 \<or> j = 0")
    case True
    then show ?thesis using that other [of "i - 1"] other [of "j - 1"]
      by (cases i; cases j) auto
  next
    case False
    then obtain i' j' where "i = Suc i'" "j = Suc j'" by (metis not0_implies_Suc)
    with that r keys_distinctD [of used key xs i' j'] show ?thesis by simp
  qed
  then show ?l by (auto simp: keys_distinct_def)
qed

text \<open>Dropping entries and adding free ones keeps the keys distinct.\<close>

lemma keys_distinct_filter: "keys_distinct used key xs \<Longrightarrow> keys_distinct used key (filter P xs)"
  by (induction xs) (auto simp: keys_distinct_Cons)

lemma keys_distinct_free: "\<not> used x \<Longrightarrow> keys_distinct used key (xs @ replicate n x) \<longleftrightarrow> keys_distinct used key xs"
  by (induction xs) (auto simp: keys_distinct_Cons keys_distinct_replicate)

section \<open>Words\<close>

lemma unat_eq_unat_iff [simp]: "unat x = unat y \<longleftrightarrow> x = y"
  by (auto dest: unsigned_word_eqI)

lemma unat_u8_lt [simp]: "unat (x :: u8) < 256"
proof -
  have "unat x < 2 ^ LENGTH(8)" by (rule unsigned_less)
  then show ?thesis by simp
qed

lemma unat_u16_lt [simp]: "unat (x :: u16) < 65536"
proof -
  have "unat x < 2 ^ LENGTH(16)" by (rule unsigned_less)
  then show ?thesis by simp
qed

lemma unat_of_nat_u8 [simp]: "n < 256 \<Longrightarrow> unat (of_nat n :: u8) = n"
  by (simp add: unat_of_nat)

lemma unat_of_nat_u16 [simp]: "n < 65536 \<Longrightarrow> unat (of_nat n :: u16) = n"
  by (simp add: unat_of_nat)

lemma unat_of_nat_u32 [simp]: "n < 4294967296 \<Longrightarrow> unat (of_nat n :: u32) = n"
  by (simp add: unat_of_nat)

lemma of_nat_u16_inject: "i < 65536 \<Longrightarrow> j < 65536 \<Longrightarrow> (of_nat i :: u16) = of_nat j \<longleftrightarrow> i = j"
  by (metis unat_of_nat_u16)

section \<open>Lists\<close>

lemma replicate_update_same [simp]: "(replicate n x)[i := x] = replicate n x"
  by (cases "i < n") (simp_all add: list_update_same_conv list_update_beyond)

lemma all_update: "\<forall>x \<in> set xs. P x \<Longrightarrow> P y \<Longrightarrow> \<forall>x \<in> set (xs[i := y]). P x"
  by (auto dest!: set_update_subset_insert [THEN subsetD])

lemma map_of_rev_distinct: "distinct (map fst xs) \<Longrightarrow> map_of (rev xs) = map_of xs"
  by (rule map_of_inject_set [THEN iffD2]) (simp_all add: rev_map [symmetric])

lemma take_take_append: "take n (take n xs @ ys) = take n (xs @ ys)"
  by (cases "length xs \<le> n") (simp_all add: min_def)

text \<open>Reading one of several records of the same size.\<close>

lemma take_drop_concat:
  "\<forall>x \<in> set xs. length x = n \<Longrightarrow> i < length xs \<Longrightarrow> take n (drop (n * i) (concat xs @ ys)) = xs ! i"
proof (induction xs arbitrary: i)
  case (Cons x xs)
  then show ?case by (cases i) simp_all
qed simp

lemma length_concat_same: "\<forall>x \<in> set xs. length x = n \<Longrightarrow> length (concat xs) = n * length xs"
  by (induction xs) simp_all

text \<open>A reflexive and transitive relation that every step of a loop respects relates its start to its result.\<close>

lemma fold_preorder:
  assumes "\<And>s. R s s" "\<And>s t u. R s t \<Longrightarrow> R t u \<Longrightarrow> R s u" "\<And>i s. R s (f i s)"
  shows "R s (fold f xs s)"
proof (induction xs arbitrary: s)
  case (Cons x xs)
  show ?case using assms(2) [OF assms(3) Cons.IH] by simp
qed (simp add: assms(1))

end
