(* ===== verification/Ring.thy ===== *)
theory Ring
  imports Prelude
begin

text \<open>
  The ring buffers of the firmware (\<open>event_bus.c\<close>, \<open>event_set.c\<close>, \<open>io_command.c\<close>, the
  receive buffer of \<open>rs485.c\<close>) share one discipline: a producer index \<open>head\<close>, a consumer
  index \<open>tail\<close>, empty when they are equal, full when the successor of \<open>head\<close> is \<open>tail\<close>, so a
  buffer of \<open>n\<close> cells holds \<open>n - 1\<close> elements. This theory has the abstraction of such a
  buffer to the list of its pending elements, the facts on index arithmetic, and the
  interface \<open>bounded_fifo\<close> that the queues of the firmware implement and their clients
  rely on.
\<close>

section \<open>Pending elements of a ring\<close>

definition ring_len :: "nat \<Rightarrow> nat \<Rightarrow> nat \<Rightarrow> nat" where
  "ring_len n h t = (h + n - t) mod n"

definition ring_items :: "'a list \<Rightarrow> nat \<Rightarrow> nat \<Rightarrow> 'a list" where
  "ring_items buf h t =
     map (\<lambda>i. buf ! ((t + i) mod length buf)) [0..<ring_len (length buf) h t]"

lemma length_ring_items [simp]: "length (ring_items buf h t) = ring_len (length buf) h t"
  by (simp add: ring_items_def)

lemma nth_ring_items:
  "i < ring_len (length buf) h t \<Longrightarrow> ring_items buf h t ! i = buf ! ((t + i) mod length buf)"
  by (simp add: ring_items_def)

lemma ring_len_less: "0 < n \<Longrightarrow> ring_len n h t < n"
  by (simp add: ring_len_def)

lemma ring_len_0: "h < n \<Longrightarrow> t < n \<Longrightarrow> ring_len n h t = 0 \<longleftrightarrow> h = t"
  by (cases "t \<le> h") (auto simp: ring_len_def mod_if)

lemma ring_len_cases:
  "h < n \<Longrightarrow> t < n \<Longrightarrow> ring_len n h t = (if t \<le> h then h - t else h + n - t)"
  by (auto simp: ring_len_def mod_if)

lemma ring_succ_cases: "h < n \<Longrightarrow> Suc h mod n = (if Suc h = n then 0 else Suc h)"
  by (auto simp: mod_if)

lemma ring_full: "h < n \<Longrightarrow> t < n \<Longrightarrow> Suc h mod n = t \<longleftrightarrow> ring_len n h t = n - 1"
  by (auto simp: ring_len_cases ring_succ_cases)

lemma ring_len_push:
  assumes "h < n" "t < n" "Suc h mod n \<noteq> t"
  shows "ring_len n (Suc h mod n) t = Suc (ring_len n h t)"
  using assms by (auto simp: ring_len_cases ring_succ_cases)

lemma ring_len_pop:
  assumes "h < n" "t < n" "h \<noteq> t"
  shows "ring_len n h t = Suc (ring_len n h (Suc t mod n))"
  using assms by (auto simp: ring_len_cases ring_succ_cases)

lemma ring_index_len:
  assumes "h < n" "t < n"
  shows "(t + ring_len n h t) mod n = h"
  using assms by (auto simp: ring_len_cases)

lemma ring_index_lt_len:
  assumes "h < n" "t < n" "i < ring_len n h t"
  shows "(t + i) mod n \<noteq> h"
proof
  assume *: "(t + i) mod n = h"
  have i: "i < n" using assms ring_len_less [of n h t] by simp
  show False
  proof (cases "t + i < n")
    case True
    with * assms show False by (auto simp: ring_len_cases split: if_splits)
  next
    case False
    with i assms(2) have "(t + i) mod n = t + i - n" by (simp add: mod_if)
    with * False assms show False by (auto simp: ring_len_cases split: if_splits)
  qed
qed

text \<open>Writing the cell at \<open>head\<close> and advancing \<open>head\<close> appends the element.\<close>

lemma ring_items_push [ring_simps]:
  assumes "h < length buf" "t < length buf" "Suc h mod length buf \<noteq> t"
  shows "ring_items (buf[h := x]) (Suc h mod length buf) t = ring_items buf h t @ [x]"
proof (rule nth_equalityI)
  show "length (ring_items (buf[h := x]) (Suc h mod length buf) t)
      = length (ring_items buf h t @ [x])"
    using assms by (simp add: ring_len_push)
next
  fix i
  assume "i < length (ring_items (buf[h := x]) (Suc h mod length buf) t)"
  then have i: "i \<le> ring_len (length buf) h t"
    using assms by (simp add: ring_len_push)
  show "ring_items (buf[h := x]) (Suc h mod length buf) t ! i = (ring_items buf h t @ [x]) ! i"
  proof (cases "i = ring_len (length buf) h t")
    case True
    with assms show ?thesis
      by (simp add: nth_ring_items ring_len_push nth_append ring_index_len)
  next
    case False
    with i have "i < ring_len (length buf) h t" by simp
    with assms show ?thesis
      using ring_index_lt_len [of h "length buf" t i]
      by (simp add: nth_ring_items ring_len_push nth_append)
  qed
qed

text \<open>Reading the cell at \<open>tail\<close> and advancing \<open>tail\<close> removes the oldest element.\<close>

lemma ring_items_pop [ring_simps]:
  assumes "h < length buf" "t < length buf" "h \<noteq> t"
  shows "ring_items buf h t = buf ! t # ring_items buf h (Suc t mod length buf)"
proof (rule nth_equalityI)
  show "length (ring_items buf h t)
      = length (buf ! t # ring_items buf h (Suc t mod length buf))"
    using assms by (simp add: ring_len_pop [of h "length buf" t])
next
  fix i
  assume "i < length (ring_items buf h t)"
  then have i: "i < Suc (ring_len (length buf) h (Suc t mod length buf))"
    using assms by (simp add: ring_len_pop [of h "length buf" t])
  then show "ring_items buf h t ! i = (buf ! t # ring_items buf h (Suc t mod length buf)) ! i"
    using assms
    by (cases i) (simp_all add: nth_ring_items ring_len_pop [of h "length buf" t] mod_simps)
qed

lemma ring_items_empty [ring_simps]:
  "h < length buf \<Longrightarrow> t < length buf \<Longrightarrow> ring_items buf h t = [] \<longleftrightarrow> h = t"
  by (metis length_0_conv length_ring_items ring_len_0)

section \<open>The interface of a bounded FIFO\<close>

text \<open>
  What a queue of the firmware promises: under its invariant, \<open>push\<close> appends unless the
  queue holds \<open>cap\<close> elements, in which case it refuses and changes nothing; \<open>pop\<close> returns the
  oldest element, or nothing exactly when the queue is empty.
\<close>

locale bounded_fifo =
  fixes push :: "'a \<Rightarrow> 'q \<Rightarrow> bool \<times> 'q"
    and pop :: "'q \<Rightarrow> ('a \<times> 'q) option"
    and items :: "'q \<Rightarrow> 'a list"
    and inv :: "'q \<Rightarrow> bool"
    and cap :: nat
  assumes push_ok: "inv q \<Longrightarrow> length (items q) < cap \<Longrightarrow>
      fst (push x q) \<and> inv (snd (push x q)) \<and> items (snd (push x q)) = items q @ [x]"
    and push_full: "inv q \<Longrightarrow> length (items q) \<ge> cap \<Longrightarrow> push x q = (False, q)"
    and pop_empty: "inv q \<Longrightarrow> pop q = None \<longleftrightarrow> items q = []"
    and pop_some: "inv q \<Longrightarrow> pop q = Some (x, q') \<Longrightarrow> inv q' \<and> items q = x # items q'"
    and bounded: "inv q \<Longrightarrow> length (items q) \<le> cap"
begin

lemma inv_push: "inv q \<Longrightarrow> inv (snd (push x q))"
  by (metis linorder_not_less push_full push_ok snd_conv)

lemma push_accepts_iff: "inv q \<Longrightarrow> fst (push x q) \<longleftrightarrow> length (items q) < cap"
  by (metis fst_conv linorder_not_less push_full push_ok)

lemma items_push:
  "inv q \<Longrightarrow> items (snd (push x q)) = (if length (items q) < cap then items q @ [x] else items q)"
  by (simp add: push_full push_ok)

text \<open>A burst of pushes keeps the first elements that fit, in order, and drops the rest.\<close>

lemma push_burst:
  "inv q \<Longrightarrow>
   inv (fold (\<lambda>x q. snd (push x q)) xs q) \<and>
   items (fold (\<lambda>x q. snd (push x q)) xs q) = items q @ take (cap - length (items q)) xs"
proof (induction xs arbitrary: q)
  case Nil
  then show ?case by simp
next
  case (Cons x xs)
  have inv': "inv (snd (push x q))" using Cons.prems by (rule inv_push)
  show ?case
  proof (cases "length (items q) < cap")
    case True
    then have "cap - length (items q) = Suc (cap - Suc (length (items q)))" by simp
    with True Cons.IH [OF inv'] Cons.prems show ?thesis
      by (simp add: items_push)
  next
    case False
    with Cons.IH [OF inv'] Cons.prems show ?thesis
      by (simp add: items_push)
  qed
qed

text \<open>Popping until the queue is empty, at most \<open>k\<close> times.\<close>

primrec drain :: "nat \<Rightarrow> 'q \<Rightarrow> 'a list \<times> 'q" where
  "drain 0 q = ([], q)"
| "drain (Suc k) q =
     (case pop q of None \<Rightarrow> ([], q)
      | Some (x, q') \<Rightarrow> (let (xs, q'') = drain k q' in (x # xs, q'')))"

lemma drain_take:
  "inv q \<Longrightarrow> fst (drain k q) = take k (items q) \<and> inv (snd (drain k q)) \<and>
     items (snd (drain k q)) = drop k (items q)"
proof (induction k arbitrary: q)
  case 0
  then show ?case by simp
next
  case (Suc k)
  show ?case
  proof (cases "pop q")
    case None
    with Suc.prems have "items q = []" using pop_empty by blast
    with None Suc.prems show ?thesis by simp
  next
    case (Some r)
    then obtain x q' where r: "pop q = Some (x, q')" by (cases r) auto
    with Suc.prems have q': "inv q'" and it: "items q = x # items q'"
      using pop_some by blast+
    from Suc.IH [OF q'] r it show ?thesis
      by (auto simp: case_prod_unfold)
  qed
qed

text \<open>First in, first out: what was pushed into an empty queue and fits comes out in order.\<close>

lemma fifo_order:
  assumes "inv q" "items q = []" "length xs \<le> cap"
  shows "fst (drain cap (fold (\<lambda>x q. snd (push x q)) xs q)) = xs"
proof -
  from push_burst [OF assms(1), of xs] assms(2,3)
  have "inv (fold (\<lambda>x q. snd (push x q)) xs q)"
    and "items (fold (\<lambda>x q. snd (push x q)) xs q) = xs" by simp_all
  with drain_take [of _ cap] assms(3) show ?thesis by simp
qed

end

end
