(* ===== verification/Event_Bus.thy ===== *)
theory Event_Bus
  imports Ring
begin

text \<open>
  The event bus (\<open>runtime/event_bus/event_bus.c\<close>): a ring of 64 events between producers and
  the budgeted dispatcher, and a routing table of at most eight handlers per event type.
  A handler is the number that stands for its function pointer, \<^const>\<open>None\<close> for a null
  pointer; what calling it does is the parameter \<open>call\<close>, which may change the bus as well as
  the rest of the system \<open>'c\<close>.
\<close>

section \<open>Model\<close>

record endap_event_t =
  ev_type :: u8
  ev_source :: u16
  ev_data :: i32

type_synonym event_handler_t = "nat option"

record event_route_t =
  rt_handlers :: "event_handler_t list"
  rt_count :: u8

record event_bus =
  eb_queue :: "endap_event_t list"
  eb_head :: u8
  eb_tail :: u8
  eb_routes :: "event_route_t list"

definition EVENT_BUS_MAX_EVENTS :: nat where "EVENT_BUS_MAX_EVENTS = 64"
definition EVENT_BUS_MAX_HANDLERS :: nat where "EVENT_BUS_MAX_HANDLERS = 8"
definition EVENT_TYPE_MAX :: nat where "EVENT_TYPE_MAX = 5"
definition EVENT_MASK :: u8 where "EVENT_MASK = 63"

definition EVENT_INPUT_CHANGE :: u8 where "EVENT_INPUT_CHANGE = 0"
definition EVENT_STATE_CHANGE :: u8 where "EVENT_STATE_CHANGE = 1"
definition EVENT_TIMER :: u8 where "EVENT_TIMER = 2"
definition EVENT_PVE_ALARM_HIGH :: u8 where "EVENT_PVE_ALARM_HIGH = 3"
definition EVENT_PVE_ALARM_LOW :: u8 where "EVENT_PVE_ALARM_LOW = 4"

lemmas event_bus_consts =
  EVENT_BUS_MAX_EVENTS_def EVENT_BUS_MAX_HANDLERS_def EVENT_TYPE_MAX_def

definition empty_route :: event_route_t where
  "empty_route = \<lparr>rt_handlers = replicate EVENT_BUS_MAX_HANDLERS None, rt_count = 0\<rparr>"

definition event_bus_init :: "event_bus \<Rightarrow> event_bus" where
  "event_bus_init b =
     b\<lparr>eb_head := 0, eb_tail := 0, eb_routes := replicate EVENT_TYPE_MAX empty_route\<rparr>"

definition event_bus_publish :: "endap_event_t \<Rightarrow> event_bus \<Rightarrow> event_bus" where
  "event_bus_publish ev b =
     (let next = (eb_head b + 1) AND EVENT_MASK in
      if next = eb_tail b then b
      else b\<lparr>eb_queue := (eb_queue b)[unat (eb_head b) := ev], eb_head := next\<rparr>)"

definition event_bus_subscribe :: "nat \<Rightarrow> event_handler_t \<Rightarrow> event_bus \<Rightarrow> event_bus" where
  "event_bus_subscribe type handler b =
     (if type \<ge> EVENT_TYPE_MAX then b
      else let r = eb_routes b ! type in
        if unat (rt_count r) \<ge> EVENT_BUS_MAX_HANDLERS then b
        else b\<lparr>eb_routes := (eb_routes b)[type :=
               r\<lparr>rt_handlers := (rt_handlers r)[unat (rt_count r) := handler],
                 rt_count := rt_count r + 1\<rparr>]\<rparr>)"

text \<open>The critical section of the dispatcher: take the oldest event.\<close>

definition event_bus_take :: "event_bus \<Rightarrow> (endap_event_t \<times> event_bus) option" where
  "event_bus_take b =
     (if eb_tail b = eb_head b then None
      else Some (eb_queue b ! unat (eb_tail b),
                 b\<lparr>eb_tail := (eb_tail b + 1) AND EVENT_MASK\<rparr>))"

text \<open>The loop over the handlers of one route, from index \<open>h\<close>; \<open>n\<close> are left.\<close>

primrec run_handlers ::
  "(nat \<Rightarrow> endap_event_t \<Rightarrow> event_bus \<times> 'c \<Rightarrow> event_bus \<times> 'c) \<Rightarrow> endap_event_t \<Rightarrow> nat \<Rightarrow> nat \<Rightarrow>
   event_bus \<times> 'c \<Rightarrow> event_bus \<times> 'c" where
  "run_handlers call ev 0 h s = s"
| "run_handlers call ev (Suc n) h s =
     (case rt_handlers (eb_routes (fst s) ! unat (ev_type ev)) ! h of
        None \<Rightarrow> run_handlers call ev n (Suc h) s
      | Some f \<Rightarrow> run_handlers call ev n (Suc h) (call f ev s))"

definition deliver ::
  "(nat \<Rightarrow> endap_event_t \<Rightarrow> event_bus \<times> 'c \<Rightarrow> event_bus \<times> 'c) \<Rightarrow> endap_event_t \<Rightarrow>
   event_bus \<times> 'c \<Rightarrow> event_bus \<times> 'c" where
  "deliver call ev s =
     (if unat (ev_type ev) < EVENT_TYPE_MAX
      then run_handlers call ev (unat (rt_count (eb_routes (fst s) ! unat (ev_type ev)))) 0 s
      else s)"

primrec dispatch_loop ::
  "(nat \<Rightarrow> endap_event_t \<Rightarrow> event_bus \<times> 'c \<Rightarrow> event_bus \<times> 'c) \<Rightarrow> nat \<Rightarrow>
   event_bus \<times> 'c \<Rightarrow> event_bus \<times> 'c" where
  "dispatch_loop call 0 s = s"
| "dispatch_loop call (Suc k) s =
     (case event_bus_take (fst s) of
        None \<Rightarrow> s
      | Some (ev, b) \<Rightarrow> dispatch_loop call k (deliver call ev (b, snd s)))"

definition event_bus_dispatch_budgeted ::
  "(nat \<Rightarrow> endap_event_t \<Rightarrow> event_bus \<times> 'c \<Rightarrow> event_bus \<times> 'c) \<Rightarrow> u8 \<Rightarrow>
   event_bus \<times> 'c \<Rightarrow> event_bus \<times> 'c" where
  "event_bus_dispatch_budgeted call max_events s =
     (if max_events = 0 then s else dispatch_loop call (unat max_events) s)"

definition event_bus_dispatch ::
  "(nat \<Rightarrow> endap_event_t \<Rightarrow> event_bus \<times> 'c \<Rightarrow> event_bus \<times> 'c) \<Rightarrow>
   event_bus \<times> 'c \<Rightarrow> event_bus \<times> 'c" where
  "event_bus_dispatch call s =
     event_bus_dispatch_budgeted call (of_nat (EVENT_BUS_MAX_EVENTS - 1)) s"

section \<open>Invariant and abstraction\<close>

definition route_ok :: "event_route_t \<Rightarrow> bool" where
  "route_ok r \<longleftrightarrow> length (rt_handlers r) = EVENT_BUS_MAX_HANDLERS \<and>
     unat (rt_count r) \<le> EVENT_BUS_MAX_HANDLERS"

definition event_bus_inv :: "event_bus \<Rightarrow> bool" where
  "event_bus_inv b \<longleftrightarrow> length (eb_queue b) = EVENT_BUS_MAX_EVENTS \<and>
     unat (eb_head b) < EVENT_BUS_MAX_EVENTS \<and> unat (eb_tail b) < EVENT_BUS_MAX_EVENTS \<and>
     length (eb_routes b) = EVENT_TYPE_MAX \<and> list_all route_ok (eb_routes b)"

definition event_bus_items :: "event_bus \<Rightarrow> endap_event_t list" where
  "event_bus_items b = ring_items (eb_queue b) (unat (eb_head b)) (unat (eb_tail b))"

text \<open>The handlers subscribed to an event type, in subscription order.\<close>

definition subscribers :: "event_bus \<Rightarrow> nat \<Rightarrow> nat list" where
  "subscribers b type = (let r = eb_routes b ! type in
     List.map_filter id (take (unat (rt_count r)) (rt_handlers r)))"

lemma unat_event_mask_succ: "unat ((x + 1) AND EVENT_MASK) = Suc (unat x) mod 64"
proof -
  have "(x + 1) AND EVENT_MASK = take_bit 6 (x + 1)"
    by (simp add: EVENT_MASK_def take_bit_eq_mask mask_eq_exp_minus_1)
  then have "unat ((x + 1) AND EVENT_MASK) = take_bit 6 (unat (x + 1))"
    by (simp add: unsigned_take_bit_eq)
  also have "\<dots> = (Suc (unat x) mod 256) mod 64"
    by (simp add: take_bit_eq_mod unat_word_ariths)
  also have "\<dots> = Suc (unat x) mod 64"
    by (simp add: mod_mod_cancel)
  finally show ?thesis .
qed

lemma event_mask_eq_iff: "(x + 1) AND EVENT_MASK = y \<longleftrightarrow> Suc (unat x) mod 64 = unat y"
  by (metis unat_event_mask_succ unat_eq_unat_iff)

lemmas event_bus_defs = event_bus_inv_def event_bus_items_def event_bus_consts

lemma event_bus_init_inv:
  "length (eb_queue b) = EVENT_BUS_MAX_EVENTS \<Longrightarrow>
   event_bus_inv (event_bus_init b) \<and> event_bus_items (event_bus_init b) = []"
  by (simp add: event_bus_init_def event_bus_defs ring_items_def ring_len_def empty_route_def
      route_ok_def list_all_iff)

lemma publish_inv: "event_bus_inv b \<Longrightarrow> event_bus_inv (event_bus_publish ev b)"
  by (auto simp: event_bus_publish_def event_bus_defs Let_def unat_event_mask_succ)

lemma publish_routes [simp]: "eb_routes (event_bus_publish ev b) = eb_routes b"
  by (simp add: event_bus_publish_def Let_def)

lemma publish_items:
  assumes "event_bus_inv b"
  shows "event_bus_items (event_bus_publish ev b) =
    (if length (event_bus_items b) < 63 then event_bus_items b @ [ev] else event_bus_items b)"
proof -
  have hd: "unat (eb_head b) < 64" and tl: "unat (eb_tail b) < 64"
    and len: "length (eb_queue b) = 64"
    using assms by (auto simp: event_bus_defs)
  have full: "Suc (unat (eb_head b)) mod 64 = unat (eb_tail b) \<longleftrightarrow>
      length (event_bus_items b) = 63"
    using ring_full [OF hd tl] by (simp add: event_bus_items_def len)
  have bound: "length (event_bus_items b) < 64"
    using ring_len_less [of 64] by (simp add: event_bus_items_def len)
  show ?thesis
  proof (cases "Suc (unat (eb_head b)) mod 64 = unat (eb_tail b)")
    case True
    then have "event_bus_publish ev b = b"
      by (simp add: event_bus_publish_def event_mask_eq_iff)
    moreover have "length (event_bus_items b) = 63" using True full by blast
    ultimately show ?thesis by simp
  next
    case False
    then have "event_bus_items (event_bus_publish ev b) = event_bus_items b @ [ev]"
      using ring_items_push [of "unat (eb_head b)" "eb_queue b" "unat (eb_tail b)" ev] hd tl len
      by (simp add: event_bus_publish_def event_mask_eq_iff event_bus_items_def
          unat_event_mask_succ Let_def)
    moreover have "length (event_bus_items b) < 63"
    proof -
      have "length (event_bus_items b) \<noteq> 63" using False full by blast
      with bound show ?thesis by linarith
    qed
    ultimately show ?thesis by simp
  qed
qed

lemma publish_full:
  assumes "event_bus_inv b" "length (event_bus_items b) \<ge> 63"
  shows "event_bus_publish ev b = b"
proof -
  have hd: "unat (eb_head b) < 64" and tl: "unat (eb_tail b) < 64"
    and len: "length (eb_queue b) = 64"
    using assms by (auto simp: event_bus_defs)
  have "ring_len 64 (unat (eb_head b)) (unat (eb_tail b)) = 63"
    using assms(2) ring_len_less [of 64 "unat (eb_head b)" "unat (eb_tail b)"] len
    by (simp add: event_bus_items_def)
  then have "Suc (unat (eb_head b)) mod 64 = unat (eb_tail b)"
    using ring_full [OF hd tl] by simp
  then show ?thesis by (simp add: event_bus_publish_def event_mask_eq_iff)
qed

lemma take_none: "event_bus_inv b \<Longrightarrow> event_bus_take b = None \<longleftrightarrow> event_bus_items b = []"
  by (auto simp: event_bus_take_def event_bus_defs ring_items_empty)

lemma take_some:
  assumes "event_bus_inv b" "event_bus_take b = Some (ev, b')"
  shows "event_bus_inv b' \<and> event_bus_items b = ev # event_bus_items b' \<and> eb_routes b' = eb_routes b"
proof -
  have ne: "eb_tail b \<noteq> eb_head b" and ev: "ev = eb_queue b ! unat (eb_tail b)"
    and b': "b' = b\<lparr>eb_tail := (eb_tail b + 1) AND EVENT_MASK\<rparr>"
    using assms(2) by (auto simp: event_bus_take_def split: if_splits)
  have ne': "unat (eb_head b) \<noteq> unat (eb_tail b)" using ne by simp
  show ?thesis
    using assms(1) ring_items_pop [of "unat (eb_head b)" "eb_queue b" "unat (eb_tail b)"] ne'
    by (auto simp: b' ev event_bus_defs unat_event_mask_succ)
qed

text \<open>The bus implements the bounded FIFO interface, with room for 63 events.\<close>

interpretation bus_queue: bounded_fifo
  "\<lambda>ev b. (length (event_bus_items b) < 63, event_bus_publish ev b)"
  event_bus_take event_bus_items event_bus_inv 63
proof unfold_locales
  fix b ev
  assume "event_bus_inv b" "length (event_bus_items b) \<ge> 63"
  then show "(length (event_bus_items b) < 63, event_bus_publish ev b) = (False, b)"
    using publish_full by simp
next
  fix b
  assume "event_bus_inv b"
  then show "length (event_bus_items b) \<le> 63"
    using ring_len_less [of 64 "unat (eb_head b)" "unat (eb_tail b)"]
    by (simp add: event_bus_defs)
qed (auto simp: publish_items publish_inv take_none dest: take_some)

section \<open>Delivery\<close>

text \<open>Handlers that leave the bus alone: what they do is an action on the rest of the system.\<close>

definition bus_neutral ::
  "(nat \<Rightarrow> endap_event_t \<Rightarrow> event_bus \<times> 'c \<Rightarrow> event_bus \<times> 'c) \<Rightarrow> bool" where
  "bus_neutral call \<longleftrightarrow> (\<forall>f ev b c. fst (call f ev (b, c)) = b)"

text \<open>Reference semantics: one event runs the subscribers of its type in order.\<close>

definition deliver_spec ::
  "(nat \<Rightarrow> endap_event_t \<Rightarrow> event_bus \<times> 'c \<Rightarrow> event_bus \<times> 'c) \<Rightarrow> event_bus \<Rightarrow> endap_event_t \<Rightarrow>
   'c \<Rightarrow> 'c" where
  "deliver_spec call b ev c =
     (if unat (ev_type ev) < EVENT_TYPE_MAX
      then fold (\<lambda>f c. snd (call f ev (b, c))) (subscribers b (unat (ev_type ev))) c else c)"

lemma bus_neutral_pair: "bus_neutral call \<Longrightarrow> call f ev (b, c) = (b, snd (call f ev (b, c)))"
  by (metis bus_neutral_def prod.collapse)

lemma run_handlers_neutral:
  assumes "bus_neutral call" "h + n \<le> length (rt_handlers (eb_routes b ! unat (ev_type ev)))"
  shows "run_handlers call ev n h (b, c) =
    (b, fold (\<lambda>f c. snd (call f ev (b, c)))
        (List.map_filter id (take n (drop h (rt_handlers (eb_routes b ! unat (ev_type ev)))))) c)"
  using assms(2)
proof (induction n arbitrary: h c)
  case 0
  then show ?case by (simp add: List.map_filter_def)
next
  case (Suc n)
  let ?hs = "rt_handlers (eb_routes b ! unat (ev_type ev))"
  have cons: "drop h ?hs = ?hs ! h # drop (Suc h) ?hs"
    using Suc.prems by (simp add: Cons_nth_drop_Suc)
  show ?case
  proof (cases "?hs ! h")
    case None
    with Suc.IH [of "Suc h" c] Suc.prems cons show ?thesis
      by (simp add: List.map_filter_def)
  next
    case (Some f)
    with Suc.IH [of "Suc h" "snd (call f ev (b, c))"] Suc.prems cons show ?thesis
      by (simp add: List.map_filter_def bus_neutral_pair [OF assms(1), of f ev b c, symmetric])
  qed
qed

lemma deliver_neutral:
  assumes "bus_neutral call" "event_bus_inv b"
  shows "deliver call ev (b, c) = (b, deliver_spec call b ev c)"
proof (cases "unat (ev_type ev) < EVENT_TYPE_MAX")
  case True
  with assms(2) have "route_ok (eb_routes b ! unat (ev_type ev))"
    by (simp add: event_bus_inv_def list_all_length)
  with True assms(1) show ?thesis
    using run_handlers_neutral [OF assms(1), of 0 "unat (rt_count (eb_routes b ! unat (ev_type ev)))"]
    by (simp add: deliver_def deliver_spec_def subscribers_def route_ok_def Let_def)
next
  case False
  then show ?thesis by (simp add: deliver_def deliver_spec_def)
qed

lemma deliver_spec_routes:
  assumes "eb_routes b' = eb_routes b" and "\<And>f ev c. snd (call f ev (b', c)) = snd (call f ev (b, c))"
  shows "deliver_spec call b' = deliver_spec call b"
  using assms by (simp add: fun_eq_iff deliver_spec_def subscribers_def)

text \<open>Handlers whose effect on the rest of the system does not depend on the queue indices.\<close>

definition bus_blind ::
  "(nat \<Rightarrow> endap_event_t \<Rightarrow> event_bus \<times> 'c \<Rightarrow> event_bus \<times> 'c) \<Rightarrow> bool" where
  "bus_blind call \<longleftrightarrow> bus_neutral call \<and> (\<forall>f ev b b' c. snd (call f ev (b, c)) = snd (call f ev (b', c)))"

lemma dispatch_loop_spec:
  assumes "bus_blind call" "event_bus_inv b"
  shows "event_bus_inv (fst (dispatch_loop call k (b, c))) \<and>
    event_bus_items (fst (dispatch_loop call k (b, c))) = drop k (event_bus_items b) \<and>
    eb_routes (fst (dispatch_loop call k (b, c))) = eb_routes b \<and>
    snd (dispatch_loop call k (b, c)) = fold (deliver_spec call b) (take k (event_bus_items b)) c"
  using assms(2)
proof (induction k arbitrary: b c)
  case 0
  then show ?case by simp
next
  case (Suc k)
  show ?case
  proof (cases "event_bus_take b")
    case None
    moreover from None Suc.prems have "event_bus_items b = []" using take_none by blast
    ultimately show ?thesis using Suc.prems by simp
  next
    case (Some r)
    then obtain ev b' where r: "event_bus_take b = Some (ev, b')" by (cases r) auto
    with Suc.prems have b': "event_bus_inv b'" "event_bus_items b = ev # event_bus_items b'"
      "eb_routes b' = eb_routes b" using take_some by blast+
    have neutral: "bus_neutral call" using assms(1) by (simp add: bus_blind_def)
    have same: "deliver_spec call b' = deliver_spec call b"
      using assms(1) b'(3) by (intro deliver_spec_routes) (auto simp: bus_blind_def)
    from Suc.IH [OF b'(1)] r b' same deliver_neutral [OF neutral b'(1), of ev c] show ?thesis
      by simp
  qed
qed

lemma dispatch_budgeted_loop:
  "event_bus_dispatch_budgeted call n s = dispatch_loop call (unat n) s"
  by (auto simp: event_bus_dispatch_budgeted_def)

section \<open>Subscription\<close>

lemma subscribe_inv: "event_bus_inv b \<Longrightarrow> event_bus_inv (event_bus_subscribe type f b)"
proof -
  assume inv: "event_bus_inv b"
  show ?thesis
  proof (cases "type < EVENT_TYPE_MAX \<and> unat (rt_count (eb_routes b ! type)) < EVENT_BUS_MAX_HANDLERS")
    case True
    with inv have ok: "route_ok (eb_routes b ! type)"
      by (simp add: event_bus_inv_def list_all_length)
    have "unat (rt_count (eb_routes b ! type) + 1) = Suc (unat (rt_count (eb_routes b ! type)))"
      using True by (simp add: unat_word_ariths EVENT_BUS_MAX_HANDLERS_def)
    with inv True ok show ?thesis
      by (auto simp: event_bus_subscribe_def event_bus_inv_def Let_def route_ok_def
          list_all_length nth_list_update)
  next
    case False
    with inv show ?thesis by (auto simp: event_bus_subscribe_def Let_def)
  qed
qed

lemma subscribe_items [simp]:
  "event_bus_items (event_bus_subscribe type f b) = event_bus_items b"
  by (simp add: event_bus_subscribe_def event_bus_items_def Let_def)

text \<open>A subscription is appended to its route while the route has room.\<close>

lemma subscribe_subscribers:
  assumes "event_bus_inv b" "type < EVENT_TYPE_MAX"
    "unat (rt_count (eb_routes b ! type)) < EVENT_BUS_MAX_HANDLERS"
  shows "subscribers (event_bus_subscribe type (Some f) b) type = subscribers b type @ [f]"
proof -
  let ?r = "eb_routes b ! type"
  have ok: "length (rt_handlers ?r) = EVENT_BUS_MAX_HANDLERS"
    using assms by (simp add: event_bus_inv_def list_all_length route_ok_def)
  have cnt: "unat (rt_count ?r + 1) = Suc (unat (rt_count ?r))"
    using assms(3) by (simp add: unat_word_ariths EVENT_BUS_MAX_HANDLERS_def)
  have len: "length (eb_routes b) = EVENT_TYPE_MAX" using assms(1) by (simp add: event_bus_inv_def)
  have "take (Suc (unat (rt_count ?r))) ((rt_handlers ?r)[unat (rt_count ?r) := Some f])
      = take (unat (rt_count ?r)) (rt_handlers ?r) @ [Some f]"
    using assms(3) ok by (simp add: take_Suc_conv_app_nth)
  with assms ok cnt len show ?thesis
    by (simp add: subscribers_def event_bus_subscribe_def Let_def List.map_filter_def)
qed

section \<open>Properties\<close>

text \<open>
  Publishing on a well-formed bus appends the event to the pending events when fewer than
  63 are pending, and otherwise drops it and leaves the bus unchanged; either way the bus
  stays well formed.
\<close>

theorem event_bus_publish_refines:
  assumes "event_bus_inv b"
  shows "event_bus_inv (event_bus_publish ev b) \<and>
    (length (event_bus_items b) < 63 \<longrightarrow>
      event_bus_items (event_bus_publish ev b) = event_bus_items b @ [ev]) \<and>
    (length (event_bus_items b) \<ge> 63 \<longrightarrow> event_bus_publish ev b = b)"
  using assms publish_inv publish_items publish_full by auto

definition empty_bus :: event_bus where
  "empty_bus = event_bus_init \<lparr>eb_queue = replicate 64 \<lparr>ev_type = 0, ev_source = 0, ev_data = 0\<rparr>,
     eb_head = 0, eb_tail = 0, eb_routes = []\<rparr>"

lemma empty_bus_inv: "event_bus_inv empty_bus"
  using event_bus_init_inv by (simp add: empty_bus_def EVENT_BUS_MAX_EVENTS_def)

lemma empty_bus_items: "event_bus_items empty_bus = []"
  using event_bus_init_inv by (simp add: empty_bus_def EVENT_BUS_MAX_EVENTS_def)

text \<open>The first publication on an initialised bus is pending afterwards.\<close>

theorem event_bus_publish_refines_witness:
  "event_bus_items (event_bus_publish \<lparr>ev_type = 1, ev_source = 7, ev_data = 3\<rparr> empty_bus)
     = [\<lparr>ev_type = 1, ev_source = 7, ev_data = 3\<rparr>]"
  using event_bus_publish_refines [OF empty_bus_inv, of "\<lparr>ev_type = 1, ev_source = 7, ev_data = 3\<rparr>"]
  by (simp add: empty_bus_items)



end
