(* ===== verification/Platform.thy ===== *)
theory Platform
  imports Prelude
begin

text \<open>
  The ESP-IDF services the firmware calls (timer, UART, GPIO, non-volatile storage, random
  numbers) and the SHA-256 digest of mbedTLS. They are
  not part of the repository, so they are a parameter: a record of functions over an abstract
  world \<open>'w\<close>, passed to every definition that calls one of them; the world is threaded through
  in call order. Nothing is assumed about them except where a theorem names a hypothesis;
  \<open>sim_platform\<close> is a concrete instance on which the hypotheses are shown to hold.

  A \<open>nvs_get_blob\<close> with a null buffer, which asks for the length, is \<open>nvs_blob_size\<close>.
\<close>

datatype esp_err_t = ESP_OK | ESP_ERR_NO_MEM | ESP_ERR_INVALID_ARG | ESP_ERR_NOT_FOUND | ESP_ERR_OTHER

datatype nvs_open_mode_t = NVS_READONLY | NVS_READWRITE

text \<open>A pin is an output, or an input with its pull-up and pull-down resistors on or off.\<close>

datatype gpio_mode_t = GPIO_MODE_OUTPUT | GPIO_MODE_INPUT bool bool

text \<open>The number of a pin that is not connected.\<close>

definition GPIO_NUM_NC :: int where "GPIO_NUM_NC = - 1"

record 'w platform =
  esp_timer_get_time :: "'w \<Rightarrow> u64 \<times> 'w"
  nvs_open :: "string \<Rightarrow> nvs_open_mode_t \<Rightarrow> 'w \<Rightarrow> esp_err_t \<times> nat \<times> 'w"
  nvs_blob_size :: "nat \<Rightarrow> string \<Rightarrow> 'w \<Rightarrow> esp_err_t \<times> nat \<times> 'w"
  nvs_get_blob :: "nat \<Rightarrow> string \<Rightarrow> nat \<Rightarrow> 'w \<Rightarrow> esp_err_t \<times> bytes \<times> 'w"
  nvs_set_blob :: "nat \<Rightarrow> string \<Rightarrow> bytes \<Rightarrow> 'w \<Rightarrow> esp_err_t \<times> 'w"
  nvs_get_u8 :: "nat \<Rightarrow> string \<Rightarrow> 'w \<Rightarrow> esp_err_t \<times> u8 \<times> 'w"
  nvs_set_u8 :: "nat \<Rightarrow> string \<Rightarrow> u8 \<Rightarrow> 'w \<Rightarrow> esp_err_t \<times> 'w"
  nvs_erase_key :: "nat \<Rightarrow> string \<Rightarrow> 'w \<Rightarrow> esp_err_t \<times> 'w"
  nvs_commit :: "nat \<Rightarrow> 'w \<Rightarrow> esp_err_t \<times> 'w"
  nvs_close :: "nat \<Rightarrow> 'w \<Rightarrow> 'w"
  uart_write_bytes :: "int \<Rightarrow> bytes \<Rightarrow> 'w \<Rightarrow> int \<times> 'w"
  uart_wait_tx_done :: "int \<Rightarrow> u32 \<Rightarrow> 'w \<Rightarrow> esp_err_t \<times> 'w"
  uart_get_buffered_data_len :: "int \<Rightarrow> 'w \<Rightarrow> esp_err_t \<times> nat \<times> 'w"
  uart_read_bytes :: "int \<Rightarrow> nat \<Rightarrow> 'w \<Rightarrow> int \<times> bytes \<times> 'w"
  uart_param_config :: "int \<Rightarrow> int \<Rightarrow> 'w \<Rightarrow> esp_err_t \<times> 'w"
  uart_set_pin :: "int \<Rightarrow> int \<Rightarrow> int \<Rightarrow> 'w \<Rightarrow> esp_err_t \<times> 'w"
  uart_driver_install :: "int \<Rightarrow> nat \<Rightarrow> 'w \<Rightarrow> esp_err_t \<times> 'w"
  uart_set_mode :: "int \<Rightarrow> 'w \<Rightarrow> esp_err_t \<times> 'w"
  uart_driver_delete :: "int \<Rightarrow> 'w \<Rightarrow> 'w"
  uart_flush_input :: "int \<Rightarrow> 'w \<Rightarrow> 'w"
  gpio_config :: "u64 \<Rightarrow> gpio_mode_t \<Rightarrow> 'w \<Rightarrow> esp_err_t \<times> 'w"
  adc_oneshot_new_unit :: "'w \<Rightarrow> esp_err_t \<times> 'w"
  adc_oneshot_io_to_channel :: "int \<Rightarrow> 'w \<Rightarrow> esp_err_t \<times> int \<times> int \<times> 'w"
  adc_oneshot_config_channel :: "int \<Rightarrow> 'w \<Rightarrow> esp_err_t \<times> 'w"
  adc_oneshot_read :: "int \<Rightarrow> 'w \<Rightarrow> esp_err_t \<times> i32 \<times> 'w"
  gpio_set_level :: "int \<Rightarrow> nat \<Rightarrow> 'w \<Rightarrow> 'w"
  gpio_get_level :: "int \<Rightarrow> 'w \<Rightarrow> int \<times> 'w"
  esp_read_mac :: "'w \<Rightarrow> esp_err_t \<times> bytes \<times> 'w"
  esp_fill_random :: "nat \<Rightarrow> 'w \<Rightarrow> bytes \<times> 'w"
  mbedtls_sha256 :: "bytes \<Rightarrow> bytes"

text \<open>
  \<open>endap_nvs_commit\<close> (\<open>endap_nvs.h\<close>) is \<open>nvs_commit\<close> between two trace messages.
\<close>

definition endap_nvs_commit :: "'w platform \<Rightarrow> nat \<Rightarrow> 'w \<Rightarrow> esp_err_t \<times> 'w" where
  "endap_nvs_commit P h w = nvs_commit P h w"

section \<open>Documented behaviour of the storage\<close>

text \<open>
  \<open>nvs_holds P ns key bs w\<close>: opened for reading, the namespace has the blob \<open>bs\<close> under the key.
  \<open>nvs_durable P\<close>: a blob that is set and committed without an error is held after the close.
\<close>

definition nvs_holds :: "'w platform \<Rightarrow> string \<Rightarrow> string \<Rightarrow> bytes \<Rightarrow> 'w \<Rightarrow> bool" where
  "nvs_holds P ns key bs w \<longleftrightarrow>
     (\<exists>h w1 w2 w3. nvs_open P ns NVS_READONLY w = (ESP_OK, h, w1) \<and>
        nvs_blob_size P h key w1 = (ESP_OK, length bs, w2) \<and>
        nvs_get_blob P h key (length bs) w2 = (ESP_OK, bs, w3))"

definition nvs_durable :: "'w platform \<Rightarrow> bool" where
  "nvs_durable P \<longleftrightarrow> (\<forall>ns key bs w h w1 w2 w3.
     nvs_open P ns NVS_READWRITE w = (ESP_OK, h, w1) \<and>
     nvs_set_blob P h key bs w1 = (ESP_OK, w2) \<and>
     nvs_commit P h w2 = (ESP_OK, w3) \<longrightarrow> nvs_holds P ns key bs (nvs_close P h w3))"

text \<open>\<open>nvs_accepts P ns key bs w\<close>: writing the blob and committing it succeeds.\<close>

definition nvs_accepts :: "'w platform \<Rightarrow> string \<Rightarrow> string \<Rightarrow> bytes \<Rightarrow> 'w \<Rightarrow> bool" where
  "nvs_accepts P ns key bs w \<longleftrightarrow>
     (\<exists>h w1 w2 w3. nvs_open P ns NVS_READWRITE w = (ESP_OK, h, w1) \<and>
        nvs_set_blob P h key bs w1 = (ESP_OK, w2) \<and> nvs_commit P h w2 = (ESP_OK, w3))"

text \<open>
  \<open>entropy_law P\<close>: \<open>esp_fill_random\<close> fills the whole buffer and a SHA-256 digest has 32 bytes.
\<close>

definition entropy_law :: "'w platform \<Rightarrow> bool" where
  "entropy_law P \<longleftrightarrow> (\<forall>n w. length (fst (esp_fill_random P n w)) = n) \<and> (\<forall>bs. length (mbedtls_sha256 P bs) = 32)"

text \<open>
  \<open>nvs_undisturbed P\<close>: reading the time, the MAC address and random numbers leaves the storage alone.
\<close>

definition nvs_undisturbed :: "'w platform \<Rightarrow> bool" where
  "nvs_undisturbed P \<longleftrightarrow> (\<forall>ns key bs w n. nvs_holds P ns key bs w \<longrightarrow>
     nvs_holds P ns key bs (snd (esp_timer_get_time P w)) \<and> nvs_holds P ns key bs (snd (snd (esp_read_mac P w))) \<and>
     nvs_holds P ns key bs (snd (esp_fill_random P n w)))"

text \<open>
  \<open>nvs_read_law P\<close>: a blob that the namespace holds is read whole into every buffer that is large enough,
  also after a byte of the same namespace was read.
\<close>

definition nvs_read_law :: "'w platform \<Rightarrow> bool" where
  "nvs_read_law P \<longleftrightarrow> (\<forall>ns key bs w h w1 n key'.
     nvs_holds P ns key bs w \<and> length bs \<le> n \<and> nvs_open P ns NVS_READONLY w = (ESP_OK, h, w1) \<longrightarrow>
     (\<exists>w2. nvs_get_blob P h key n w1 = (ESP_OK, bs, w2)) \<and>
     (\<exists>w2. nvs_get_blob P h key n (snd (snd (nvs_get_u8 P h key' w1))) = (ESP_OK, bs, w2)))"

section \<open>A simulated platform\<close>

record sim_world =
  sim_now :: u64
  sim_step :: u64
  sim_open :: "string list"
  sim_nvs :: "string \<Rightarrow> string \<Rightarrow> bytes option"
  sim_nvs_ok :: bool
  sim_rx :: bytes
  sim_tx :: "bytes list"
  sim_gpio :: "int \<Rightarrow> nat"
  sim_mac :: bytes
  sim_adc :: "int \<Rightarrow> i32"
  sim_seed :: nat

definition sim_platform :: "sim_world platform" where
  "sim_platform = \<lparr>
     esp_timer_get_time = (\<lambda>w. (sim_now w, w\<lparr>sim_now := sim_now w + sim_step w\<rparr>)),
     nvs_open = (\<lambda>ns m w. if sim_nvs_ok w
        then (ESP_OK, length (sim_open w), w\<lparr>sim_open := sim_open w @ [ns]\<rparr>)
        else (ESP_ERR_OTHER, 0, w)),
     nvs_blob_size = (\<lambda>h k w. case sim_nvs w (sim_open w ! h) k of
        None \<Rightarrow> (ESP_ERR_OTHER, 0, w) | Some bs \<Rightarrow> (ESP_OK, length bs, w)),
     nvs_get_blob = (\<lambda>h k n w. case sim_nvs w (sim_open w ! h) k of
        None \<Rightarrow> (ESP_ERR_OTHER, [], w)
      | Some bs \<Rightarrow> if length bs \<le> n then (ESP_OK, bs, w) else (ESP_ERR_OTHER, [], w)),
     nvs_set_blob = (\<lambda>h k bs w. (ESP_OK,
        w\<lparr>sim_nvs := (sim_nvs w)(sim_open w ! h := (sim_nvs w (sim_open w ! h))(k := Some bs))\<rparr>)),
     nvs_get_u8 = (\<lambda>h k w. case sim_nvs w (sim_open w ! h) k of
        Some [v] \<Rightarrow> (ESP_OK, v, w) | _ \<Rightarrow> (ESP_ERR_OTHER, 0, w)),
     nvs_set_u8 = (\<lambda>h k v w. (ESP_OK,
        w\<lparr>sim_nvs := (sim_nvs w)(sim_open w ! h := (sim_nvs w (sim_open w ! h))(k := Some [v]))\<rparr>)),
     nvs_erase_key = (\<lambda>h k w. (ESP_OK,
        w\<lparr>sim_nvs := (sim_nvs w)(sim_open w ! h := (sim_nvs w (sim_open w ! h))(k := None))\<rparr>)),
     nvs_commit = (\<lambda>h w. (ESP_OK, w)),
     nvs_close = (\<lambda>h w. w),
     uart_write_bytes = (\<lambda>u bs w. (int (length bs), w\<lparr>sim_tx := sim_tx w @ [bs]\<rparr>)),
     uart_wait_tx_done = (\<lambda>u t w. (ESP_OK, w)),
     uart_get_buffered_data_len = (\<lambda>u w. (ESP_OK, length (sim_rx w), w)),
     uart_read_bytes = (\<lambda>u n w. (int (length (take n (sim_rx w))), take n (sim_rx w),
        w\<lparr>sim_rx := drop n (sim_rx w)\<rparr>)),
     uart_param_config = (\<lambda>u b w. (ESP_OK, w)),
     uart_set_pin = (\<lambda>u t r w. (ESP_OK, w)),
     uart_driver_install = (\<lambda>u n w. (ESP_OK, w)),
     uart_set_mode = (\<lambda>u w. (ESP_OK, w)),
     uart_driver_delete = (\<lambda>u w. w),
     uart_flush_input = (\<lambda>u w. w\<lparr>sim_rx := []\<rparr>),
     gpio_config = (\<lambda>m c w. (ESP_OK, w)),
     adc_oneshot_new_unit = (\<lambda>w. (ESP_OK, w)),
     adc_oneshot_io_to_channel = (\<lambda>g w. (ESP_OK, 0, g, w)),
     adc_oneshot_config_channel = (\<lambda>c w. (ESP_OK, w)),
     adc_oneshot_read = (\<lambda>c w. (ESP_OK, sim_adc w c, w)),
     gpio_set_level = (\<lambda>p v w. w\<lparr>sim_gpio := (sim_gpio w)(p := v)\<rparr>),
     gpio_get_level = (\<lambda>p w. (int (sim_gpio w p), w)),
     esp_read_mac = (\<lambda>w. (ESP_OK, sim_mac w, w)),
     esp_fill_random = (\<lambda>n w. (map (\<lambda>i. of_nat (i + sim_seed w)) [0..<n], w\<lparr>sim_seed := Suc (sim_seed w)\<rparr>)),
     mbedtls_sha256 = (\<lambda>bs. concat (replicate 8 (le32 (fnv1a bs)))) \<rparr>"

definition sim_init :: sim_world where
  "sim_init = \<lparr>sim_now = 1000000, sim_step = 0, sim_open = [], sim_nvs = (\<lambda>_ _. None),
     sim_nvs_ok = True, sim_rx = [], sim_tx = [], sim_gpio = (\<lambda>_. 0),
     sim_mac = [0, 0, 0, 0, 0, 0], sim_adc = (\<lambda>_. 0), sim_seed = 0\<rparr>"

lemma sim_ops [simp]:
  "esp_timer_get_time sim_platform w = (sim_now w, w\<lparr>sim_now := sim_now w + sim_step w\<rparr>)"
  "nvs_open sim_platform ns m w = (if sim_nvs_ok w
     then (ESP_OK, length (sim_open w), w\<lparr>sim_open := sim_open w @ [ns]\<rparr>) else (ESP_ERR_OTHER, 0, w))"
  "nvs_blob_size sim_platform h k w = (case sim_nvs w (sim_open w ! h) k of
     None \<Rightarrow> (ESP_ERR_OTHER, 0, w) | Some bs \<Rightarrow> (ESP_OK, length bs, w))"
  "nvs_get_blob sim_platform h k n w = (case sim_nvs w (sim_open w ! h) k of
     None \<Rightarrow> (ESP_ERR_OTHER, [], w)
   | Some bs \<Rightarrow> if length bs \<le> n then (ESP_OK, bs, w) else (ESP_ERR_OTHER, [], w))"
  "nvs_set_blob sim_platform h k bs w = (ESP_OK,
     w\<lparr>sim_nvs := (sim_nvs w)(sim_open w ! h := (sim_nvs w (sim_open w ! h))(k := Some bs))\<rparr>)"
  "nvs_get_u8 sim_platform h k w = (case sim_nvs w (sim_open w ! h) k of
     Some [v] \<Rightarrow> (ESP_OK, v, w) | _ \<Rightarrow> (ESP_ERR_OTHER, 0, w))"
  "nvs_set_u8 sim_platform h k b w = (ESP_OK,
     w\<lparr>sim_nvs := (sim_nvs w)(sim_open w ! h := (sim_nvs w (sim_open w ! h))(k := Some [b]))\<rparr>)"
  "nvs_erase_key sim_platform h k w = (ESP_OK,
     w\<lparr>sim_nvs := (sim_nvs w)(sim_open w ! h := (sim_nvs w (sim_open w ! h))(k := None))\<rparr>)"
  "nvs_commit sim_platform h w = (ESP_OK, w)" "nvs_close sim_platform h w = w"
  "uart_write_bytes sim_platform u bs w = (int (length bs), w\<lparr>sim_tx := sim_tx w @ [bs]\<rparr>)"
  "uart_wait_tx_done sim_platform u t w = (ESP_OK, w)"
  "uart_get_buffered_data_len sim_platform u w = (ESP_OK, length (sim_rx w), w)"
  "uart_read_bytes sim_platform u n w = (int (length (take n (sim_rx w))), take n (sim_rx w),
     w\<lparr>sim_rx := drop n (sim_rx w)\<rparr>)"
  "gpio_set_level sim_platform p v w = w\<lparr>sim_gpio := (sim_gpio w)(p := v)\<rparr>"
  "gpio_get_level sim_platform p w = (int (sim_gpio w p), w)"
  "esp_read_mac sim_platform w = (ESP_OK, sim_mac w, w)"
  "adc_oneshot_read sim_platform c w = (ESP_OK, sim_adc w c, w)"
  "esp_fill_random sim_platform n w = (map (\<lambda>i. of_nat (i + sim_seed w)) [0..<n], w\<lparr>sim_seed := Suc (sim_seed w)\<rparr>)"
  "mbedtls_sha256 sim_platform bs = concat (replicate 8 (le32 (fnv1a bs)))"
  by (simp_all add: sim_platform_def)

lemmas sim_simps = sim_init_def

lemma sim_accepts: "sim_nvs_ok w \<Longrightarrow> nvs_accepts sim_platform ns key bs w"
  by (simp add: nvs_accepts_def)

lemma sim_durable: "nvs_durable sim_platform"
proof -
  have "(xs @ [x, y]) ! Suc (length xs) = y" for xs :: "string list" and x y
    by (simp add: nth_append)
  then show ?thesis
    by (auto simp: nvs_durable_def nvs_holds_def split: if_splits)
qed

lemma sim_undisturbed: "nvs_undisturbed sim_platform"
  by (simp add: nvs_undisturbed_def nvs_holds_def split: option.split)

lemma sim_reads: "nvs_read_law sim_platform"
  by (auto simp: nvs_read_law_def nvs_holds_def split: if_splits option.splits list.splits)

lemma sim_entropy: "entropy_law sim_platform"
  by (simp add: entropy_law_def length_concat sum_list_replicate)

end
