(* ===== verification/State_Store.thy ===== *)
theory State_Store
  imports Event_Bus Platform "HOL-Library.Signed_Division"
begin

text \<open>
  The state store (\<open>data/state/state.c\<close>): 256 integer variables with dirty flags, the single
  official write path \<open>state_set_int\<close> and its side effects. A write that changes a value marks
  the snapshot dirty (\<open>snapshot_mark_dirty\<close> of \<open>snapshot.c\<close>), publishes an event on the bus and
  calls the output hook \<open>state_output_changed\<close> of \<open>io_driver.c\<close>, which marks the output channel
  pending and requests a WebSocket broadcast. The static variables these functions share are
  the fields of the record \<open>system\<close>; the world of the platform is one of them.

  The locale \<open>state_interface\<close> is what the clients of the store rely on.
\<close>

section \<open>Model\<close>

definition STATE_MAX_ENTRIES :: nat where "STATE_MAX_ENTRIES = 256"

record state_entry_t =
  se_id :: u16
  se_value :: i32

record state_store =
  st_values :: "i32 list"
  st_dirty :: "bool list"

record snapshot_ctl =
  sn_dirty :: bool
  sn_last_change :: int
  sn_crc :: u32

datatype device_channel_backend_t =
  DEVICE_CHANNEL_BACKEND_GPIO | DEVICE_CHANNEL_BACKEND_MCP23X17
  | DEVICE_CHANNEL_BACKEND_ADC_NATIVE | DEVICE_CHANNEL_BACKEND_ADC_EXTERNAL

record output_channel_t =
  oc_id :: u16
  oc_gpio :: int
  oc_active_low :: bool

record input_channel_t =
  ic_id :: u16
  ic_gpio :: int
  ic_active_low :: bool
  ic_debounce_samples :: u8
  ic_last_sample :: u8
  ic_stable_value :: u8
  ic_stable_count :: u8
  ic_raw_edges :: u32
  ic_stable_edges :: u32
  ic_reported_raw_edges :: u32
  ic_reported_stable_edges :: u32
  ic_recent_raw_edges :: u32
  ic_recent_stable_edges :: u32
  ic_recent_noise_edges :: u32
  ic_backend :: device_channel_backend_t
  ic_endpoint_index :: int
  ic_last_adc_raw :: i32
  ic_adc_settle_count :: u8

text \<open>
  The static variables of \<open>io_driver.c\<close>; a channel table is the list of its entries in use.
\<close>

record io_driver =
  io_output_table :: "output_channel_t list"
  io_input_table :: "input_channel_t list"
  io_pending_mask :: u32
  io_local_mask :: u32
  io_last_diag_report_us :: u64
  io_adc1_initialized :: bool

record 'w system =
  sys_state :: state_store
  sys_bus :: event_bus
  sys_snapshot :: snapshot_ctl
  sys_io :: io_driver
  sys_ws_broadcast_pending :: bool
  sys_world :: 'w

text \<open>The clock in milliseconds, \<open>esp_timer_get_time() / 1000\<close> on \<open>int64_t\<close>.\<close>

definition timer_ms :: "'w platform \<Rightarrow> 'w \<Rightarrow> int \<times> 'w" where
  "timer_ms P w = (let (t, w') = esp_timer_get_time P w in (sint t sdiv 1000, w'))"

definition snapshot_mark_dirty :: "'w platform \<Rightarrow> 'w system \<Rightarrow> 'w system" where
  "snapshot_mark_dirty P s =
     (let (now, w) = timer_ms P (sys_world s) in
      s\<lparr>sys_snapshot := (sys_snapshot s)\<lparr>sn_dirty := True, sn_last_change := now\<rparr>, sys_world := w\<rparr>)"

definition http_server_notify_state_change :: "'w system \<Rightarrow> 'w system" where
  "http_server_notify_state_change s = s\<lparr>sys_ws_broadcast_pending := True\<rparr>"

definition io_driver_is_known_state :: "io_driver \<Rightarrow> u16 \<Rightarrow> bool" where
  "io_driver_is_known_state io sid \<longleftrightarrow>
     list_ex (\<lambda>c. oc_id c = sid) (io_output_table io) \<or>
     list_ex (\<lambda>c. ic_id c = sid) (io_input_table io)"

definition state_output_changed :: "u16 \<Rightarrow> i32 \<Rightarrow> 'w system \<Rightarrow> 'w system" where
  "state_output_changed sid value s =
     (let io = sys_io s;
          io' = (case find_index (\<lambda>c. oc_id c = sid) (io_output_table io) of
                   None \<Rightarrow> io
                 | Some i \<Rightarrow> io\<lparr>io_pending_mask := io_pending_mask io OR push_bit i 1\<rparr>);
          s' = s\<lparr>sys_io := io'\<rparr>
      in if io_driver_is_known_state io' sid then http_server_notify_state_change s' else s')"

definition state_valid_id :: "u16 \<Rightarrow> bool" where
  "state_valid_id sid \<longleftrightarrow> unat sid < STATE_MAX_ENTRIES"

definition state_init :: "state_store" where
  "state_init = \<lparr>st_values = replicate STATE_MAX_ENTRIES 0,
     st_dirty = replicate STATE_MAX_ENTRIES False\<rparr>"

definition state_set_int :: "'w platform \<Rightarrow> u16 \<Rightarrow> i32 \<Rightarrow> 'w system \<Rightarrow> bool \<times> 'w system" where
  "state_set_int P sid value s =
     (if \<not> state_valid_id sid then (False, s)
      else if st_values (sys_state s) ! unat sid \<noteq> value then
        (let st = sys_state s;
             s = s\<lparr>sys_state := st\<lparr>st_values := (st_values st)[unat sid := value],
                                   st_dirty := (st_dirty st)[unat sid := True]\<rparr>\<rparr>;
             s = snapshot_mark_dirty P s;
             ev = \<lparr>ev_type = EVENT_STATE_CHANGE, ev_source = sid, ev_data = value\<rparr>;
             s = s\<lparr>sys_bus := event_bus_publish ev (sys_bus s)\<rparr>;
             s = state_output_changed sid value s
         in (True, s))
      else (True, s))"

definition state_get_int :: "state_store \<Rightarrow> u16 \<Rightarrow> i32 option" where
  "state_get_int st sid = (if \<not> state_valid_id sid then None else Some (st_values st ! unat sid))"

definition state_set_bool :: "'w platform \<Rightarrow> u16 \<Rightarrow> bool \<Rightarrow> 'w system \<Rightarrow> bool \<times> 'w system" where
  "state_set_bool P sid value s = state_set_int P sid (if value then 1 else 0) s"

definition state_get_bool :: "state_store \<Rightarrow> u16 \<Rightarrow> bool option" where
  "state_get_bool st sid = map_option (\<lambda>v. v \<noteq> 0) (state_get_int st sid)"

definition state_is_dirty :: "state_store \<Rightarrow> u16 \<Rightarrow> bool" where
  "state_is_dirty st sid = (if \<not> state_valid_id sid then False else st_dirty st ! unat sid)"

definition state_clear_dirty :: "u16 \<Rightarrow> state_store \<Rightarrow> state_store" where
  "state_clear_dirty sid st = (if \<not> state_valid_id sid then st
     else st\<lparr>st_dirty := (st_dirty st)[unat sid := False]\<rparr>)"

text \<open>
  The export loop from variable \<open>sid\<close>; \<open>n\<close> are left, \<open>out\<close> is what is already written (\<open>count\<close>
  entries).
\<close>

primrec export_entries_from ::
  "state_store \<Rightarrow> nat \<Rightarrow> nat \<Rightarrow> nat \<Rightarrow> state_entry_t list \<Rightarrow> state_entry_t list" where
  "export_entries_from st limit 0 sid out = out"
| "export_entries_from st limit (Suc n) sid out =
     (let val = st_values st ! sid in
      if val = 0 \<and> \<not> st_dirty st ! sid then export_entries_from st limit n (Suc sid) out
      else if length out \<ge> limit then out
      else export_entries_from st limit n (Suc sid) (out @ [\<lparr>se_id = of_nat sid, se_value = val\<rparr>]))"

definition state_export_entries :: "state_store \<Rightarrow> u16 \<Rightarrow> state_entry_t list" where
  "state_export_entries st limit =
     (if limit = 0 then [] else export_entries_from st (unat limit) STATE_MAX_ENTRIES 0 [])"

definition state_export_snapshot :: "state_store \<Rightarrow> u16 \<Rightarrow> i32 list" where
  "state_export_snapshot st max_entries =
     (if max_entries = 0 then []
      else take (min (unat max_entries) STATE_MAX_ENTRIES) (st_values st))"

text \<open>The buffer is absent when the pointer is null.\<close>

definition state_import_snapshot :: "i32 list option \<Rightarrow> u16 \<Rightarrow> state_store \<Rightarrow> state_store" where
  "state_import_snapshot buffer entries st =
     (case buffer of None \<Rightarrow> st
      | Some buf \<Rightarrow>
        let count = min (unat entries) STATE_MAX_ENTRIES in
        \<lparr>st_values = take count buf @ drop count (st_values st),
         st_dirty = replicate STATE_MAX_ENTRIES False\<rparr>)"

section \<open>Well-formedness\<close>

definition state_ok :: "state_store \<Rightarrow> bool" where
  "state_ok st \<longleftrightarrow> length (st_values st) = STATE_MAX_ENTRIES \<and>
     length (st_dirty st) = STATE_MAX_ENTRIES"

definition system_ok :: "'w system \<Rightarrow> bool" where
  "system_ok s \<longleftrightarrow> state_ok (sys_state s) \<and> event_bus_inv (sys_bus s)"

lemma state_init_ok: "state_ok state_init"
  by (simp add: state_ok_def state_init_def)

text \<open>What the callbacks leave alone.\<close>

lemma mark_dirty_frame [simp]:
  "sys_state (snapshot_mark_dirty P s) = sys_state s"
  "sys_bus (snapshot_mark_dirty P s) = sys_bus s"
  "sys_io (snapshot_mark_dirty P s) = sys_io s"
  "sys_ws_broadcast_pending (snapshot_mark_dirty P s) = sys_ws_broadcast_pending s"
  "sn_dirty (sys_snapshot (snapshot_mark_dirty P s))"
  by (simp_all add: snapshot_mark_dirty_def case_prod_unfold Let_def)

lemma output_changed_frame [simp]:
  "sys_state (state_output_changed sid v s) = sys_state s"
  "sys_bus (state_output_changed sid v s) = sys_bus s"
  "sys_snapshot (state_output_changed sid v s) = sys_snapshot s"
  "sys_world (state_output_changed sid v s) = sys_world s"
  by (simp_all add: state_output_changed_def http_server_notify_state_change_def Let_def)

lemma output_changed_tables [simp]:
  "io_output_table (sys_io (state_output_changed sid v s)) = io_output_table (sys_io s)"
  "io_input_table (sys_io (state_output_changed sid v s)) = io_input_table (sys_io s)"
  by (simp_all add: state_output_changed_def http_server_notify_state_change_def Let_def
      split: option.splits)

lemma set_int_ok: "system_ok s \<Longrightarrow> system_ok (snd (state_set_int P sid v s))"
  by (simp add: state_set_int_def system_ok_def state_ok_def Let_def publish_inv)

lemma set_int_ret [simp]: "fst (state_set_int P sid v s) \<longleftrightarrow> state_valid_id sid"
  by (simp add: state_set_int_def Let_def)

lemma set_int_invalid [simp]: "\<not> state_valid_id sid \<Longrightarrow> state_set_int P sid v s = (False, s)"
  by (simp add: state_set_int_def)

lemma set_int_unchanged:
  "state_get_int (sys_state s) sid = Some v \<Longrightarrow> state_set_int P sid v s = (True, s)"
  by (auto simp: state_set_int_def state_get_int_def split: if_splits)

lemma set_int_values:
  "state_valid_id sid \<Longrightarrow>
   st_values (sys_state (snd (state_set_int P sid v s))) = (st_values (sys_state s))[unat sid := v]"
  by (auto simp: state_set_int_def Let_def)

lemma set_int_get:
  assumes "system_ok s"
  shows "state_get_int (sys_state (snd (state_set_int P sid v s))) =
    (if state_valid_id sid then (state_get_int (sys_state s))(sid \<mapsto> v) else state_get_int (sys_state s))"
  using assms
  by (auto simp: fun_eq_iff state_get_int_def set_int_values system_ok_def state_ok_def
      state_valid_id_def nth_list_update)

text \<open>Reading the clock does not touch the storage.\<close>

definition timer_keeps_nvs :: "'w platform \<Rightarrow> bool" where
  "timer_keeps_nvs P \<longleftrightarrow> (\<forall>ns key bs w. nvs_holds P ns key bs w \<longrightarrow>
     nvs_holds P ns key bs (snd (esp_timer_get_time P w)))"

lemma sim_timer_keeps_nvs: "timer_keeps_nvs sim_platform"
  by (simp add: timer_keeps_nvs_def nvs_holds_def split: option.split)

lemma timer_ms_keeps:
  "timer_keeps_nvs P \<Longrightarrow> nvs_holds P ns key bs w \<Longrightarrow> nvs_holds P ns key bs (snd (timer_ms P w))"
  by (simp add: timer_ms_def timer_keeps_nvs_def case_prod_unfold Let_def)

lemma set_int_keeps:
  "timer_keeps_nvs P \<Longrightarrow> nvs_holds P ns key bs (sys_world s) \<Longrightarrow>
   nvs_holds P ns key bs (sys_world (snd (state_set_int P sid v s)))"
  by (simp add: state_set_int_def snapshot_mark_dirty_def Let_def case_prod_unfold timer_ms_keeps)

lemma undisturbed_timer: "nvs_undisturbed P \<Longrightarrow> timer_keeps_nvs P"
  by (simp add: nvs_undisturbed_def timer_keeps_nvs_def)

section \<open>The interface of the store\<close>

text \<open>
  A store of values under keys that checks the key: a write to a valid key succeeds and is read
  back, a write to an invalid key is refused without effect.
\<close>

locale state_interface =
  fixes set :: "'k \<Rightarrow> 'v \<Rightarrow> 's \<Rightarrow> bool \<times> 's"
    and get :: "'s \<Rightarrow> 'k \<Rightarrow> 'v option"
    and valid :: "'k \<Rightarrow> bool"
    and ok :: "'s \<Rightarrow> bool"
  assumes set_ok: "ok s \<Longrightarrow> ok (snd (set k v s))"
    and set_ret: "fst (set k v s) \<longleftrightarrow> valid k"
    and get_set: "ok s \<Longrightarrow> get (snd (set k v s)) = (if valid k then (get s)(k \<mapsto> v) else get s)"
begin

text \<open>A sequence of writes has the effect of its last write to each key.\<close>

definition write_all :: "('k \<times> 'v) list \<Rightarrow> 's \<Rightarrow> 's" where
  "write_all ws s = fold (\<lambda>(k, v) s. snd (set k v s)) ws s"

lemma write_all_ok: "ok s \<Longrightarrow> ok (write_all ws s)"
  unfolding write_all_def by (induction ws arbitrary: s) (auto simp: set_ok)

lemma write_all_get:
  "ok s \<Longrightarrow> get (write_all ws s) = get s ++ map_of (rev (List.filter (\<lambda>(k, v). valid k) ws))"
proof (induction ws rule: rev_induct)
  case Nil
  then show ?case by (simp add: write_all_def)
next
  case (snoc w ws)
  obtain k v where w: "w = (k, v)" by (cases w)
  have "ok (write_all ws s)" using snoc.prems by (rule write_all_ok)
  from get_set [OF this, of k v] snoc w show ?case
    by (auto simp: write_all_def map_add_def fun_eq_iff)
qed

lemma write_all_twice: "ok s \<Longrightarrow> get (write_all (ws @ ws) s) = get (write_all ws s)"
  by (simp add: write_all_get map_add_def fun_eq_iff split: option.splits)

end

interpretation store: state_interface
  "state_set_int P" "\<lambda>s. state_get_int (sys_state s)" state_valid_id system_ok
  by unfold_locales (simp_all add: set_int_ok set_int_get)

section \<open>A concrete system\<close>

text \<open>
  The system after the initialisation calls on the simulated platform, with one output
  channel (id 100 on GPIO 26) and one input channel (id 10 on GPIO 32).
\<close>

definition demo_input :: input_channel_t where
  "demo_input = \<lparr>ic_id = 10, ic_gpio = 32, ic_active_low = False, ic_debounce_samples = 8,
     ic_last_sample = 0, ic_stable_value = 0, ic_stable_count = 8, ic_raw_edges = 0,
     ic_stable_edges = 0, ic_reported_raw_edges = 0, ic_reported_stable_edges = 0,
     ic_recent_raw_edges = 0, ic_recent_stable_edges = 0, ic_recent_noise_edges = 0,
     ic_backend = DEVICE_CHANNEL_BACKEND_GPIO, ic_endpoint_index = 0, ic_last_adc_raw = 0,
     ic_adc_settle_count = 0\<rparr>"

definition boot_system :: "sim_world system" where
  "boot_system = \<lparr>sys_state = state_init, sys_bus = empty_bus,
     sys_snapshot = \<lparr>sn_dirty = False, sn_last_change = 0, sn_crc = 0\<rparr>,
     sys_io = \<lparr>io_output_table = [\<lparr>oc_id = 100, oc_gpio = 26, oc_active_low = False\<rparr>],
       io_input_table = [demo_input], io_pending_mask = 0, io_local_mask = 1,
       io_last_diag_report_us = 0, io_adc1_initialized = False\<rparr>,
     sys_ws_broadcast_pending = False, sys_world = sim_init\<rparr>"

lemma boot_system_ok: "system_ok boot_system"
  by (simp add: system_ok_def boot_system_def state_init_ok empty_bus_inv)

lemma boot_system_state [simp]: "sys_state boot_system = state_init"
  by (simp add: boot_system_def)

section \<open>Properties\<close>

text \<open>
  C12: a write of a new value to a valid variable is read back, leaves every other variable
  alone, sets the dirty flag of the variable and the pending flag of the snapshot, publishes
  one state-change event (unless the queue is full), marks the first output channel of that
  variable pending, and requests a broadcast exactly when the variable belongs to a channel. A write of the current value changes
  nothing and an out-of-range id is refused without effect.
\<close>

theorem state_set_int_effects:
  assumes "system_ok s"
  shows "(\<not> state_valid_id sid \<longrightarrow> state_set_int P sid v s = (False, s)) \<and>
    (state_get_int (sys_state s) sid = Some v \<longrightarrow> state_set_int P sid v s = (True, s)) \<and>
    (state_valid_id sid \<and> state_get_int (sys_state s) sid \<noteq> Some v \<longrightarrow>
      (let s' = snd (state_set_int P sid v s) in
        fst (state_set_int P sid v s) \<and> system_ok s' \<and>
        state_get_int (sys_state s') = (state_get_int (sys_state s))(sid \<mapsto> v) \<and>
        state_is_dirty (sys_state s') sid \<and> sn_dirty (sys_snapshot s') \<and>
        (length (event_bus_items (sys_bus s)) < 63 \<longrightarrow> event_bus_items (sys_bus s') =
          event_bus_items (sys_bus s) @ [\<lparr>ev_type = 1, ev_source = sid, ev_data = v\<rparr>]) \<and>
        (\<forall>i. find_index (\<lambda>c. oc_id c = sid) (io_output_table (sys_io s)) = Some i \<longrightarrow>
          io_pending_mask (sys_io s') = io_pending_mask (sys_io s) OR push_bit i 1) \<and>
        (sys_ws_broadcast_pending s' \<longleftrightarrow>
          sys_ws_broadcast_pending s \<or> io_driver_is_known_state (sys_io s) sid)))"
proof (intro conjI impI)
  assume a: "state_valid_id sid \<and> state_get_int (sys_state s) sid \<noteq> Some v"
  then have ne: "st_values (sys_state s) ! unat sid \<noteq> v" by (auto simp: state_get_int_def)
  have dirty: "st_dirty (sys_state (snd (state_set_int P sid v s))) = (st_dirty (sys_state s))[unat sid := True]"
    and bus: "sys_bus (snd (state_set_int P sid v s)) =
        event_bus_publish \<lparr>ev_type = 1, ev_source = sid, ev_data = v\<rparr> (sys_bus s)"
    and snap: "sn_dirty (sys_snapshot (snd (state_set_int P sid v s)))"
    using a ne by (simp_all add: state_set_int_def Let_def EVENT_STATE_CHANGE_def)
  have hook: "(\<forall>i. find_index (\<lambda>c. oc_id c = sid) (io_output_table (sys_io s)) = Some i \<longrightarrow>
          io_pending_mask (sys_io (snd (state_set_int P sid v s))) = io_pending_mask (sys_io s) OR push_bit i 1) \<and>
      (sys_ws_broadcast_pending (snd (state_set_int P sid v s)) \<longleftrightarrow>
          sys_ws_broadcast_pending s \<or> io_driver_is_known_state (sys_io s) sid)"
    using a ne by (auto simp: state_set_int_def Let_def state_output_changed_def
        http_server_notify_state_change_def io_driver_is_known_state_def split: option.splits)
  have len: "unat sid < length (st_dirty (sys_state s))"
    using assms a by (simp add: system_ok_def state_ok_def state_valid_id_def)
  have inv: "event_bus_inv (sys_bus s)" using assms by (simp add: system_ok_def)
  show "let s' = snd (state_set_int P sid v s) in
        fst (state_set_int P sid v s) \<and> system_ok s' \<and>
        state_get_int (sys_state s') = (state_get_int (sys_state s))(sid \<mapsto> v) \<and>
        state_is_dirty (sys_state s') sid \<and> sn_dirty (sys_snapshot s') \<and>
        (length (event_bus_items (sys_bus s)) < 63 \<longrightarrow> event_bus_items (sys_bus s') =
          event_bus_items (sys_bus s) @ [\<lparr>ev_type = 1, ev_source = sid, ev_data = v\<rparr>]) \<and>
        (\<forall>i. find_index (\<lambda>c. oc_id c = sid) (io_output_table (sys_io s)) = Some i \<longrightarrow>
          io_pending_mask (sys_io s') = io_pending_mask (sys_io s) OR push_bit i 1) \<and>
        (sys_ws_broadcast_pending s' \<longleftrightarrow>
          sys_ws_broadcast_pending s \<or> io_driver_is_known_state (sys_io s) sid)"
    using set_int_ok [OF assms, of P sid v] set_int_get [OF assms, of P sid v] a hook snap dirty bus len inv
    by (simp add: Let_def state_is_dirty_def publish_items)
qed (simp_all add: set_int_unchanged)

text \<open>Switching output 100 on after boot.\<close>

theorem state_set_int_effects_witness:
  "state_get_int (sys_state (snd (state_set_int sim_platform 100 1 boot_system))) 100 = Some 1 \<and>
   event_bus_items (sys_bus (snd (state_set_int sim_platform 100 1 boot_system))) =
     [\<lparr>ev_type = 1, ev_source = 100, ev_data = 1\<rparr>] \<and>
   io_pending_mask (sys_io (snd (state_set_int sim_platform 100 1 boot_system))) = 1"
  using state_set_int_effects [OF boot_system_ok, of 100 sim_platform 1]
  by (simp add: state_get_int_def state_valid_id_def boot_system_def state_init_def
      STATE_MAX_ENTRIES_def empty_bus_items Let_def)

end
