(* ===== verification/Snapshot.thy ===== *)
theory Snapshot
  imports State_Store
begin

text \<open>
  Persistence of the state store (\<open>runtime/snapshot/snapshot.c\<close>). A snapshot is modelled as the
  bytes in the buffer: a 12-byte header (magic, version, count, checksum) and 8 bytes per
  entry, little-endian as on the target. The two padding bytes of an entry come from the stack
  and are the parameter \<open>pad\<close>. \<open>snapshot_restore\<close> returns \<^const>\<open>None\<close> where the code reads
  beyond the buffer.
\<close>

section \<open>Model\<close>

definition SNAPSHOT_DEBOUNCE_MS :: int where "SNAPSHOT_DEBOUNCE_MS = 5000"
definition SNAPSHOT_NAMESPACE :: string where "SNAPSHOT_NAMESPACE = ''snapshot''"
definition SNAPSHOT_KEY_STATE :: string where "SNAPSHOT_KEY_STATE = ''state_v1''"
definition SNAPSHOT_MAGIC :: u32 where "SNAPSHOT_MAGIC = 0x534E4150"
definition SNAPSHOT_VERSION :: u16 where "SNAPSHOT_VERSION = 1"
definition SNAPSHOT_BUFFER_SIZE :: nat where "SNAPSHOT_BUFFER_SIZE = 2060"

record snapshot_header_t =
  sh_magic :: u32
  sh_version :: u16
  sh_count :: u16
  sh_crc :: u32

text \<open>An optional storage back end; each of its two functions may be missing.\<close>

record 'w snapshot_storage_if_t =
  ss_write :: "(bytes \<Rightarrow> 'w \<Rightarrow> bool \<times> 'w) option"
  ss_read :: "(nat \<Rightarrow> 'w \<Rightarrow> bytes option \<times> 'w) option"

definition header_bytes :: "snapshot_header_t \<Rightarrow> bytes" where
  "header_bytes h = le32 (sh_magic h) @ le16 (sh_version h) @ le16 (sh_count h) @ le32 (sh_crc h)"

definition header_of :: "bytes \<Rightarrow> snapshot_header_t" where
  "header_of bs = \<lparr>sh_magic = of_le32 bs, sh_version = of_le16 (drop 4 bs),
     sh_count = of_le16 (drop 6 bs), sh_crc = of_le32 (drop 8 bs)\<rparr>"

definition entry_bytes :: "u8 \<times> u8 \<Rightarrow> state_entry_t \<Rightarrow> bytes" where
  "entry_bytes p e = le16 (se_id e) @ [fst p, snd p] @ le32 (se_value e)"

definition entry_of :: "bytes \<Rightarrow> state_entry_t" where
  "entry_of bs = \<lparr>se_id = of_le16 bs, se_value = of_le32 (drop 4 bs)\<rparr>"

definition snapshot_crc32 :: "bytes \<Rightarrow> u32" where
  "snapshot_crc32 data = fnv1a data"

fun snapshot_backend_write ::
  "'w platform \<Rightarrow> 'w snapshot_storage_if_t option \<Rightarrow> bytes \<Rightarrow> 'w \<Rightarrow> bool \<times> 'w" where
  "snapshot_backend_write P storage buffer w =
     (case Option.bind storage ss_write of
        Some write \<Rightarrow> write buffer w
      | None \<Rightarrow>
        (case nvs_open P SNAPSHOT_NAMESPACE NVS_READWRITE w of (r, nvs, w) \<Rightarrow>
         if r \<noteq> ESP_OK then (False, w)
         else (case nvs_set_blob P nvs SNAPSHOT_KEY_STATE buffer w of (r, w) \<Rightarrow>
           if r \<noteq> ESP_OK then (False, nvs_close P nvs w)
           else (case endap_nvs_commit P nvs w of (_, w) \<Rightarrow> (True, nvs_close P nvs w)))))"

fun snapshot_backend_read ::
  "'w platform \<Rightarrow> 'w snapshot_storage_if_t option \<Rightarrow> nat \<Rightarrow> 'w \<Rightarrow> (bytes \<times> nat) option \<times> 'w" where
  "snapshot_backend_read P storage max_len w =
     (case Option.bind storage ss_read of
        Some read \<Rightarrow> (case read max_len w of (b, w) \<Rightarrow> (map_option (\<lambda>bs. (bs, max_len)) b, w))
      | None \<Rightarrow>
        (case nvs_open P SNAPSHOT_NAMESPACE NVS_READONLY w of (r, nvs, w) \<Rightarrow>
         if r \<noteq> ESP_OK then (None, w)
         else (case nvs_blob_size P nvs SNAPSHOT_KEY_STATE w of (r, len, w) \<Rightarrow>
           if r \<noteq> ESP_OK \<or> len = 0 \<or> len > max_len then (None, nvs_close P nvs w)
           else (case nvs_get_blob P nvs SNAPSHOT_KEY_STATE len w of (r, bs, w) \<Rightarrow>
             if r \<noteq> ESP_OK then (None, nvs_close P nvs w)
             else (Some (bs, len), nvs_close P nvs w)))))"

text \<open>The result is the written prefix of the buffer, empty when the function returns 0.\<close>

definition snapshot_export ::
  "(nat \<Rightarrow> u8 \<times> u8) \<Rightarrow> u16 \<Rightarrow> 'w system \<Rightarrow> bytes \<times> 'w system" where
  "snapshot_export pad max_len s =
     (let entries = state_export_entries (sys_state s) (of_nat STATE_MAX_ENTRIES);
          count = of_nat (length entries) :: u16;
          payload_len = count * 8;
          total_len = 12 + payload_len
      in if total_len > max_len then ([], s)
         else let payload = concat (map (\<lambda>(i, e). entry_bytes (pad i) e) (enumerate 0 entries));
                  crc = snapshot_crc32 (take (unat payload_len) payload)
              in (header_bytes \<lparr>sh_magic = SNAPSHOT_MAGIC, sh_version = SNAPSHOT_VERSION,
                    sh_count = count, sh_crc = crc\<rparr> @ payload,
                  s\<lparr>sys_snapshot := (sys_snapshot s)\<lparr>sn_crc := crc\<rparr>\<rparr>))"

text \<open>The loop over the entries in the buffer; \<^const>\<open>None\<close> when an entry lies beyond its end.\<close>

primrec restore_entries ::
  "'w platform \<Rightarrow> nat \<Rightarrow> bytes \<Rightarrow> 'w system \<Rightarrow> 'w system option" where
  "restore_entries P 0 bs s = Some s"
| "restore_entries P (Suc n) bs s =
     (if length bs < 8 then None
      else let e = entry_of bs;
               s = snd (state_set_int P (se_id e) (se_value e) s);
               s = s\<lparr>sys_state := state_clear_dirty (se_id e) (sys_state s)\<rparr>
           in restore_entries P n (drop 8 bs) s)"

definition snapshot_restore ::
  "'w platform \<Rightarrow> bytes \<Rightarrow> u16 \<Rightarrow> 'w system \<Rightarrow> 'w system option" where
  "snapshot_restore P buffer len s =
     (let header = header_of buffer in
      if unat len < 12 then Some s
      else if sh_magic header \<noteq> SNAPSHOT_MAGIC \<or> sh_version header \<noteq> SNAPSHOT_VERSION then Some s
      else let payload_len = sh_count header * 8 in
        if 12 + payload_len \<noteq> len then Some s
        else let crc = snapshot_crc32 (take (unat payload_len) (drop 12 buffer)) in
          if crc \<noteq> sh_crc header then Some s
          else map_option (\<lambda>s. s\<lparr>sys_snapshot := \<lparr>sn_dirty = False, sn_last_change = 0,
                                   sn_crc = sh_crc header\<rparr>\<rparr>)
                 (restore_entries P (unat (sh_count header)) (drop 12 buffer) s))"

definition snapshot_save ::
  "'w platform \<Rightarrow> 'w snapshot_storage_if_t option \<Rightarrow> (nat \<Rightarrow> u8 \<times> u8) \<Rightarrow> 'w system \<Rightarrow> 'w system" where
  "snapshot_save P storage pad s =
     (let (buffer, s) = snapshot_export pad (of_nat SNAPSHOT_BUFFER_SIZE) s;
          entries = state_export_entries (sys_state s) (of_nat STATE_MAX_ENTRIES)
      in if buffer = [] then s
         else let (ok, w) = snapshot_backend_write P storage buffer (sys_world s);
                  s = s\<lparr>sys_world := w\<rparr>
              in if \<not> ok then s
                 else s\<lparr>sys_state := fold (\<lambda>e. state_clear_dirty (se_id e)) entries (sys_state s),
                        sys_snapshot := (sys_snapshot s)\<lparr>sn_dirty := False\<rparr>\<rparr>)"

definition snapshot_init ::
  "'w platform \<Rightarrow> 'w snapshot_storage_if_t option \<Rightarrow> 'w system \<Rightarrow> 'w system option" where
  "snapshot_init P storage s =
     (let s = s\<lparr>sys_snapshot := \<lparr>sn_dirty = False, sn_last_change = 0, sn_crc = 0\<rparr>\<rparr>;
          (r, w) = snapshot_backend_read P storage SNAPSHOT_BUFFER_SIZE (sys_world s);
          s = s\<lparr>sys_world := w\<rparr>
      in case r of None \<Rightarrow> Some s
         | Some (buffer, len) \<Rightarrow> snapshot_restore P buffer (of_nat len) s)"

definition snapshot_process ::
  "'w platform \<Rightarrow> 'w snapshot_storage_if_t option \<Rightarrow> (nat \<Rightarrow> u8 \<times> u8) \<Rightarrow> 'w system \<Rightarrow> 'w system" where
  "snapshot_process P storage pad s =
     (if \<not> sn_dirty (sys_snapshot s) then s
      else let (now, w) = timer_ms P (sys_world s);
               s = s\<lparr>sys_world := w\<rparr>
           in if now - sn_last_change (sys_snapshot s) \<ge> SNAPSHOT_DEBOUNCE_MS
              then snapshot_save P storage pad s else s)"

section \<open>Exported entries\<close>

text \<open>The variables worth saving: those that are not 0 or have their dirty flag set.\<close>

definition worth_saving :: "state_store \<Rightarrow> nat \<Rightarrow> bool" where
  "worth_saving st i \<longleftrightarrow> st_values st ! i \<noteq> 0 \<or> st_dirty st ! i"

definition entry_at :: "state_store \<Rightarrow> nat \<Rightarrow> state_entry_t" where
  "entry_at st i = \<lparr>se_id = of_nat i, se_value = st_values st ! i\<rparr>"

lemma export_entries_from_eq:
  "length out \<le> limit \<Longrightarrow> export_entries_from st limit n i out =
     take limit (out @ map (entry_at st) (List.filter (worth_saving st) [i..<i + n]))"
proof (induction n arbitrary: i out)
  case 0
  then show ?case by simp
next
  case (Suc n)
  have range: "[i..<i + Suc n] = i # [Suc i..<Suc i + n]" by (simp add: upt_conv_Cons)
  show ?case
    using Suc.IH [of out "Suc i"] Suc.IH [of "out @ [entry_at st i]" "Suc i"] Suc.prems
    unfolding range by (auto simp: Let_def worth_saving_def entry_at_def)
qed

definition saved_entries :: "state_store \<Rightarrow> state_entry_t list" where
  "saved_entries st = map (entry_at st) (List.filter (worth_saving st) [0..<256])"

lemma saved_entries_length: "length (saved_entries st) \<le> 256"
  unfolding saved_entries_def using length_filter_le [of "worth_saving st" "[0..<256]"] by simp

lemma state_export_entries_eq [simp]:
  "state_export_entries st (of_nat STATE_MAX_ENTRIES) = saved_entries st"
proof -
  have "unat (of_nat STATE_MAX_ENTRIES :: u16) = 256" by (simp add: STATE_MAX_ENTRIES_def)
  then show ?thesis
    using export_entries_from_eq [of "[]" 256 st 256 0] saved_entries_length [of st]
    by (simp add: state_export_entries_def STATE_MAX_ENTRIES_def saved_entries_def)
qed

section \<open>Layout\<close>

lemma length_header_bytes [simp]: "length (header_bytes h) = 12"
  by (simp add: header_bytes_def)

lemma length_entry_bytes [simp]: "length (entry_bytes p e) = 8"
  by (simp add: entry_bytes_def)

lemma header_of_bytes [simp]: "header_of (header_bytes h @ ys) = h"
  by (simp add: header_of_def header_bytes_def)

lemma entry_of_bytes [simp]: "entry_of (entry_bytes p e @ ys) = e"
  by (simp add: entry_of_def entry_bytes_def)

text \<open>The payload of a list of entries numbered from \<open>i\<close>.\<close>

definition payload_from :: "(nat \<Rightarrow> u8 \<times> u8) \<Rightarrow> nat \<Rightarrow> state_entry_t list \<Rightarrow> bytes" where
  "payload_from pad i es = concat (map (\<lambda>(i, e). entry_bytes (pad i) e) (enumerate i es))"

lemma payload_from_simps [simp]:
  "payload_from pad i [] = []"
  "payload_from pad i (e # es) = entry_bytes (pad i) e @ payload_from pad (Suc i) es"
  by (simp_all add: payload_from_def)

lemma length_payload [simp]: "length (payload_from pad i es) = 8 * length es"
  by (induction es arbitrary: i) simp_all

section \<open>Restoring what was exported\<close>

text \<open>Restoring one entry: the official write, then the dirty flag is cleared.\<close>

definition restore_one :: "'w platform \<Rightarrow> u16 \<Rightarrow> i32 \<Rightarrow> 'w system \<Rightarrow> bool \<times> 'w system" where
  "restore_one P sid v s =
     (let (r, s) = state_set_int P sid v s
      in (r, s\<lparr>sys_state := state_clear_dirty sid (sys_state s)\<rparr>))"

lemma clear_dirty_get [simp]: "state_get_int (state_clear_dirty sid st) = state_get_int st"
  by (simp add: fun_eq_iff state_clear_dirty_def state_get_int_def)

lemma get_dirty_update: "state_get_int (st\<lparr>st_dirty := d\<rparr>) = state_get_int st"
  by (simp add: fun_eq_iff state_get_int_def)

lemma clear_dirty_ok [simp]: "state_ok (state_clear_dirty sid st) \<longleftrightarrow> state_ok st"
  by (simp add: state_clear_dirty_def state_ok_def)

lemma restore_one_ok: "system_ok s \<Longrightarrow> system_ok (snd (restore_one P sid v s))"
  using set_int_ok [of s P sid v] by (simp add: restore_one_def case_prod_unfold Let_def system_ok_def)

interpretation restored: state_interface
  "restore_one P" "\<lambda>s. state_get_int (sys_state s)" state_valid_id system_ok
  by unfold_locales
    (erule restore_one_ok, simp_all add: restore_one_def case_prod_unfold Let_def set_int_get)

lemma restore_entries_payload:
  "restore_entries P (length es) (payload_from pad i es @ ys) s =
     Some (restored.write_all P (map (\<lambda>e. (se_id e, se_value e)) es) s)"
  by (induction es arbitrary: i s)
    (simp_all add: restored.write_all_def restore_one_def case_prod_unfold Let_def)

lemma restore_entries_short:
  "length bs < 8 * n \<Longrightarrow> restore_entries P n bs s = None"
  by (induction n arbitrary: bs s) (auto simp: Let_def)

lemma restore_one_dirty:
  "st_dirty (sys_state s) = replicate 256 False \<Longrightarrow>
   st_dirty (sys_state (snd (restore_one P sid v s))) = replicate 256 False"
  by (auto simp: restore_one_def case_prod_unfold Let_def state_clear_dirty_def state_set_int_def)

lemma restored_dirty:
  "st_dirty (sys_state s) = replicate 256 False \<Longrightarrow>
   st_dirty (sys_state (restored.write_all P ws s)) = replicate 256 False"
  unfolding restored.write_all_def
  by (induction ws arbitrary: s) (auto simp: restore_one_dirty)

text \<open>What the exported entries say of each variable.\<close>

definition saved_pairs :: "state_store \<Rightarrow> (u16 \<times> i32) list" where
  "saved_pairs st = map (\<lambda>e. (se_id e, se_value e)) (saved_entries st)"

lemma saved_pairs_eq:
  "saved_pairs st = map (\<lambda>i. (of_nat i, st_values st ! i)) (List.filter (worth_saving st) [0..<256])"
  by (simp add: saved_pairs_def saved_entries_def entry_at_def)

lemma saved_pairs_keys: "distinct (map fst (saved_pairs st))"
  by (auto simp: saved_pairs_eq distinct_map inj_on_def of_nat_u16_inject)

lemma saved_pairs_lookup:
  assumes "i < 256"
  shows "map_of (saved_pairs st) (of_nat i) =
    (if worth_saving st i then Some (st_values st ! i) else None)"
proof (cases "worth_saving st i")
  case True
  with assms have "(of_nat i, st_values st ! i) \<in> set (saved_pairs st)"
    by (auto simp: saved_pairs_eq)
  with True show ?thesis using saved_pairs_keys by (simp add: map_of_eq_Some_iff)
next
  case False
  with assms have "of_nat i \<notin> fst ` set (saved_pairs st)"
    by (auto simp: saved_pairs_eq of_nat_u16_inject)
  with False show ?thesis by (simp add: map_of_eq_None_iff)
qed

lemma saved_pairs_valid: "List.filter (\<lambda>(k, v). state_valid_id k) (saved_pairs st) = saved_pairs st"
  by (auto simp: saved_pairs_eq filter_id_conv state_valid_id_def STATE_MAX_ENTRIES_def)

lemma restored_saved_values:
  assumes "system_ok s" "system_ok s0" "st_values (sys_state s0) = replicate 256 0"
  shows "st_values (sys_state (restored.write_all P (saved_pairs (sys_state s)) s0)) =
    st_values (sys_state s)"
proof (rule nth_equalityI)
  let ?r = "restored.write_all P (saved_pairs (sys_state s)) s0"
  have ok: "system_ok ?r" using assms(2) by (rule restored.write_all_ok)
  with assms(1) show "length (st_values (sys_state ?r)) = length (st_values (sys_state s))"
    by (simp add: system_ok_def state_ok_def)
  fix i assume "i < length (st_values (sys_state ?r))"
  with ok have i: "i < 256" by (simp add: system_ok_def state_ok_def STATE_MAX_ENTRIES_def)
  have "state_get_int (sys_state ?r) (of_nat i) =
      (state_get_int (sys_state s0) ++ map_of (saved_pairs (sys_state s))) (of_nat i)"
    using restored.write_all_get [OF assms(2), of P "saved_pairs (sys_state s)"]
    by (simp add: saved_pairs_valid map_of_rev_distinct saved_pairs_keys)
  also have "\<dots> = Some (st_values (sys_state s) ! i)"
    using i assms(3)
    by (simp add: map_add_def saved_pairs_lookup state_get_int_def state_valid_id_def
        STATE_MAX_ENTRIES_def worth_saving_def)
  finally show "st_values (sys_state ?r) ! i = st_values (sys_state s) ! i"
    using i by (simp add: state_get_int_def state_valid_id_def STATE_MAX_ENTRIES_def)
qed

text \<open>The export of a store, spelled out.\<close>

definition snapshot_image :: "(nat \<Rightarrow> u8 \<times> u8) \<Rightarrow> state_store \<Rightarrow> bytes" where
  "snapshot_image pad st =
     header_bytes \<lparr>sh_magic = SNAPSHOT_MAGIC, sh_version = SNAPSHOT_VERSION,
       sh_count = of_nat (length (saved_entries st)),
       sh_crc = fnv1a (payload_from pad 0 (saved_entries st))\<rparr> @
     payload_from pad 0 (saved_entries st)"

lemma saved_count_words:
  fixes st :: state_store
  defines "n \<equiv> length (saved_entries st)"
  shows "unat ((of_nat n :: u16) * 8) = 8 * n" and "unat (12 + (of_nat n :: u16) * 8) = 12 + 8 * n"
  using saved_entries_length [of st] by (simp_all add: n_def unat_word_ariths)

lemma snapshot_export_eq:
  "snapshot_export pad (of_nat SNAPSHOT_BUFFER_SIZE) s =
     (snapshot_image pad (sys_state s),
      s\<lparr>sys_snapshot := (sys_snapshot s)\<lparr>sn_crc := fnv1a (payload_from pad 0 (saved_entries (sys_state s)))\<rparr>\<rparr>)"
proof -
  have "unat (of_nat SNAPSHOT_BUFFER_SIZE :: u16) = 2060" by (simp add: SNAPSHOT_BUFFER_SIZE_def)
  then show ?thesis
    using saved_entries_length [of "sys_state s"] saved_count_words [of "sys_state s"]
    by (simp add: snapshot_export_def Let_def word_less_nat_alt snapshot_crc32_def snapshot_image_def
        payload_from_def [symmetric])
qed

lemma length_snapshot_image: "length (snapshot_image pad st) = 12 + 8 * length (saved_entries st)"
  by (simp add: snapshot_image_def)

lemma restore_image:
  "snapshot_restore P (snapshot_image pad st) (of_nat (length (snapshot_image pad st))) s0 =
     Some ((restored.write_all P (saved_pairs st) s0)
       \<lparr>sys_snapshot := \<lparr>sn_dirty = False, sn_last_change = 0,
          sn_crc = fnv1a (payload_from pad 0 (saved_entries st))\<rparr>\<rparr>)"
proof -
  have len: "unat (of_nat (length (snapshot_image pad st)) :: u16) = 12 + 8 * length (saved_entries st)"
    using saved_count_words(2) [of st] by (simp add: length_snapshot_image mult.commute)
  have "(of_nat (length (snapshot_image pad st)) :: u16) = 12 + of_nat (length (saved_entries st)) * 8"
    by (simp add: length_snapshot_image)
  with len show ?thesis
    using saved_count_words [of st] saved_entries_length [of st]
      restore_entries_payload [of P "saved_entries st" pad 0 "[]" s0]
    by (simp add: snapshot_restore_def snapshot_image_def Let_def snapshot_crc32_def saved_pairs_def)
qed

section \<open>Properties\<close>

text \<open>
  Exporting a store and restoring the bytes into a freshly initialised one gives back every
  value, with no dirty flag left and no save pending.
\<close>

theorem snapshot_round_trip:
  assumes "system_ok s" "system_ok s0" "sys_state s0 = state_init"
  shows "let (buffer, s1) = snapshot_export pad (of_nat SNAPSHOT_BUFFER_SIZE) s in
    \<exists>s'. snapshot_restore P buffer (of_nat (length buffer)) s0 = Some s' \<and>
      sys_state s' = (sys_state s)\<lparr>st_dirty := replicate 256 False\<rparr> \<and>
      \<not> sn_dirty (sys_snapshot s') \<and> sn_crc (sys_snapshot s') = sn_crc (sys_snapshot s1)"
proof -
  let ?r = "restored.write_all P (saved_pairs (sys_state s)) s0"
  have "st_values (sys_state s0) = replicate 256 0" "st_dirty (sys_state s0) = replicate 256 False"
    using assms(3) by (simp_all add: state_init_def STATE_MAX_ENTRIES_def)
  then have "st_values (sys_state ?r) = st_values (sys_state s)"
    and "st_dirty (sys_state ?r) = replicate 256 False"
    using restored_saved_values [OF assms(1,2)] restored_dirty [of s0 P] by blast+
  then have "sys_state ?r = (sys_state s)\<lparr>st_dirty := replicate 256 False\<rparr>" by simp
  then show ?thesis by (simp add: snapshot_export_eq restore_image)
qed

text \<open>Output 100 on, saved and restored after a reboot.\<close>

theorem snapshot_round_trip_witness:
  "\<exists>s'. snapshot_restore sim_platform
      (snapshot_image (\<lambda>_. (0, 0)) (sys_state (snd (state_set_int sim_platform 100 1 boot_system))))
      (of_nat (length (snapshot_image (\<lambda>_. (0, 0))
         (sys_state (snd (state_set_int sim_platform 100 1 boot_system)))))) boot_system = Some s' \<and>
    state_get_int (sys_state s') 100 = Some 1"
proof -
  let ?s = "snd (state_set_int sim_platform 100 1 boot_system)"
  have ok: "system_ok ?s" using boot_system_ok by (rule set_int_ok)
  have "state_get_int (sys_state ?s) 100 = Some 1"
    using set_int_get [OF boot_system_ok] by (simp add: state_valid_id_def STATE_MAX_ENTRIES_def)
  then show ?thesis
    using snapshot_round_trip [OF ok boot_system_ok, of "\<lambda>_. (0, 0)" sim_platform]
    by (auto simp: snapshot_export_eq get_dirty_update)
qed

text \<open>
  A snapshot in which one payload byte has changed is rejected: restoring it leaves the
  system as it was.
\<close>

theorem snapshot_corruption_rejected:
  assumes "12 \<le> i" "i < length (snapshot_image pad st)" "snapshot_image pad st ! i \<noteq> b"
  shows "snapshot_restore P ((snapshot_image pad st)[i := b]) (of_nat (length (snapshot_image pad st))) s0
    = Some s0"
proof -
  let ?p = "payload_from pad 0 (saved_entries st)"
  let ?h = "\<lparr>sh_magic = SNAPSHOT_MAGIC, sh_version = SNAPSHOT_VERSION,
       sh_count = of_nat (length (saved_entries st)), sh_crc = fnv1a ?p\<rparr>"
  have i: "i - 12 < length ?p" using assms(1,2) by (simp add: length_snapshot_image)
  have upd: "(snapshot_image pad st)[i := b] = header_bytes ?h @ ?p[i - 12 := b]"
    using assms(1) by (simp add: snapshot_image_def list_update_append)
  have "?p ! (i - 12) \<noteq> b" using assms(1,3) by (simp add: snapshot_image_def nth_append)
  then have "fnv1a (?p[i - 12 := b]) \<noteq> fnv1a ?p" using i by (rule_tac fnv1a_detects_byte)
  moreover have "take (8 * length (saved_entries st)) (?p[i - 12 := b]) = ?p[i - 12 := b]" by simp
  ultimately show ?thesis
    using saved_count_words(1) [of st] by (simp add: snapshot_restore_def upd Let_def snapshot_crc32_def)
qed

text \<open>One variable at 7; the first payload byte changes from 0 to 1.\<close>

definition one_var_store :: state_store where
  "one_var_store = \<lparr>st_values = 7 # replicate 255 0, st_dirty = replicate 256 False\<rparr>"

lemma one_var_image:
  "\<exists>es. saved_entries one_var_store = \<lparr>se_id = 0, se_value = 7\<rparr> # es"
proof -
  have "[0..<256] = 0 # [1..<256::nat]" by (simp add: upt_conv_Cons)
  then show ?thesis
    by (simp add: saved_entries_def worth_saving_def one_var_store_def entry_at_def)
qed

theorem snapshot_corruption_rejected_witness:
  "snapshot_restore sim_platform ((snapshot_image (\<lambda>_. (0, 0)) one_var_store)[12 := 1])
     (of_nat (length (snapshot_image (\<lambda>_. (0, 0)) one_var_store))) boot_system = Some boot_system"
proof (rule snapshot_corruption_rejected)
  show "12 < length (snapshot_image (\<lambda>_. (0, 0)) one_var_store)"
    using one_var_image by (auto simp: length_snapshot_image)
  have "snapshot_image (\<lambda>_. (0, 0)) one_var_store ! 12 = 0"
    using one_var_image
    by (auto simp: snapshot_image_def nth_append entry_bytes_def le16_def)
  then show "snapshot_image (\<lambda>_. (0, 0)) one_var_store ! 12 \<noteq> 1" by simp
qed simp

lemma snapshot_image_nonempty [simp]: "snapshot_image pad st \<noteq> []"
  using length_snapshot_image [of pad st] by (auto simp del: length_greater_0_conv)

lemma snapshot_save_world:
  assumes "nvs_durable P"
    and "nvs_accepts P SNAPSHOT_NAMESPACE SNAPSHOT_KEY_STATE (snapshot_image pad (sys_state s)) (sys_world s)"
  shows "nvs_holds P SNAPSHOT_NAMESPACE SNAPSHOT_KEY_STATE (snapshot_image pad (sys_state s))
    (sys_world (snapshot_save P None pad s))"
proof -
  obtain h w1 w2 w3 where steps:
    "nvs_open P SNAPSHOT_NAMESPACE NVS_READWRITE (sys_world s) = (ESP_OK, h, w1)"
    "nvs_set_blob P h SNAPSHOT_KEY_STATE (snapshot_image pad (sys_state s)) w1 = (ESP_OK, w2)"
    "nvs_commit P h w2 = (ESP_OK, w3)"
    using assms(2) by (auto simp: nvs_accepts_def)
  then have "sys_world (snapshot_save P None pad s) = nvs_close P h w3"
    by (simp add: snapshot_save_def snapshot_export_eq Let_def endap_nvs_commit_def)
  with steps assms(1) show ?thesis unfolding nvs_durable_def by metis
qed

text \<open>
  C11: a saved state survives a reboot. When storage accepts the snapshot and keeps what it
  commits, initialising the snapshot module of a freshly booted system on the same storage
  gives back every value of the saved store.
\<close>

theorem snapshot_survives_reboot:
  assumes "system_ok s" "system_ok s0" "sys_state s0 = state_init"
    and "nvs_durable P"
    and "nvs_accepts P SNAPSHOT_NAMESPACE SNAPSHOT_KEY_STATE (snapshot_image pad (sys_state s)) (sys_world s)"
    and "sys_world s0 = sys_world (snapshot_save P None pad s)"
  shows "\<exists>s'. snapshot_init P None s0 = Some s' \<and>
    st_values (sys_state s') = st_values (sys_state s) \<and> \<not> sn_dirty (sys_snapshot s')"
proof -
  let ?img = "snapshot_image pad (sys_state s)"
  obtain h w1 w2 w3 where rd:
    "nvs_open P SNAPSHOT_NAMESPACE NVS_READONLY (sys_world s0) = (ESP_OK, h, w1)"
    "nvs_blob_size P h SNAPSHOT_KEY_STATE w1 = (ESP_OK, length ?img, w2)"
    "nvs_get_blob P h SNAPSHOT_KEY_STATE (length ?img) w2 = (ESP_OK, ?img, w3)"
    using snapshot_save_world [OF assms(4,5)] assms(6) by (auto simp: nvs_holds_def)
  let ?s1 = "s0\<lparr>sys_snapshot := \<lparr>sn_dirty = False, sn_last_change = 0, sn_crc = 0\<rparr>,
      sys_world := nvs_close P h w3\<rparr>"
  have "length ?img \<le> SNAPSHOT_BUFFER_SIZE"
    using saved_entries_length [of "sys_state s"]
    by (simp add: length_snapshot_image SNAPSHOT_BUFFER_SIZE_def)
  with rd have "snapshot_init P None s0 = snapshot_restore P ?img (of_nat (length ?img)) ?s1"
    by (simp add: snapshot_init_def Let_def)
  moreover have "system_ok ?s1" "st_values (sys_state ?s1) = replicate 256 0"
    using assms(2,3) by (simp_all add: system_ok_def state_init_def STATE_MAX_ENTRIES_def)
  ultimately show ?thesis
    using restored_saved_values [OF assms(1), of ?s1 P] by (simp add: restore_image)
qed

text \<open>Output 100 on, saved, rebooted.\<close>

theorem snapshot_survives_reboot_witness:
  "\<exists>s'. snapshot_init sim_platform None (boot_system\<lparr>sys_world := sys_world (snapshot_save sim_platform None
      (\<lambda>_. (0, 0)) (snd (state_set_int sim_platform 100 1 boot_system)))\<rparr>) = Some s' \<and>
    st_values (sys_state s') ! 100 = 1"
proof -
  let ?s = "snd (state_set_int sim_platform 100 1 boot_system)"
  let ?boot = "boot_system\<lparr>sys_world := sys_world (snapshot_save sim_platform None (\<lambda>_. (0, 0)) ?s)\<rparr>"
  have ok: "system_ok ?s" using boot_system_ok by (rule set_int_ok)
  have ok': "system_ok ?boot" using boot_system_ok by (simp add: system_ok_def)
  have st: "sys_state ?boot = state_init" by simp
  have w: "sys_world ?boot = sys_world (snapshot_save sim_platform None (\<lambda>_. (0, 0)) ?s)" by simp
  have "sim_nvs_ok (sys_world ?s)"
    by (simp add: state_set_int_def Let_def snapshot_mark_dirty_def timer_ms_def case_prod_unfold
        sim_simps boot_system_def)
  then have acc: "nvs_accepts sim_platform SNAPSHOT_NAMESPACE SNAPSHOT_KEY_STATE
      (snapshot_image (\<lambda>_. (0, 0)) (sys_state ?s)) (sys_world ?s)" by (rule sim_accepts)
  have "st_values (sys_state ?s) ! 100 = 1"
    by (simp add: set_int_values state_valid_id_def STATE_MAX_ENTRIES_def state_init_def)
  with snapshot_survives_reboot [OF ok ok' st sim_durable acc w] show ?thesis by auto
qed

text \<open>
  The length check of the restore works modulo \<open>2^16\<close> and the entry count is not covered
  by the checksum: a header whose count is 8192 too large passes every check, and the restore
  loop then reads entries beyond the end of the buffer.
\<close>

theorem snapshot_count_wraps:
  "snapshot_restore P
     (header_bytes \<lparr>sh_magic = SNAPSHOT_MAGIC, sh_version = SNAPSHOT_VERSION,
        sh_count = of_nat (length (saved_entries st)) + 8192,
        sh_crc = fnv1a (payload_from pad 0 (saved_entries st))\<rparr> @ payload_from pad 0 (saved_entries st))
     (of_nat (length (snapshot_image pad st))) s0 = None"
proof -
  let ?n = "length (saved_entries st)"
  let ?c = "of_nat ?n :: u16"
  have n: "?n \<le> 256" by (rule saved_entries_length)
  have wrap: "(65536 :: u16) = 0" by simp
  have cnt: "unat (?c + 8192) = ?n + 8192" using n by (simp add: unat_word_ariths)
  have len: "(of_nat (length (snapshot_image pad st)) :: u16) = 12 + ?c * 8"
    by (simp add: length_snapshot_image)
  have "length (payload_from pad 0 (saved_entries st)) < 8 * (?n + 8192)" by simp
  then have "restore_entries P (?n + 8192) (payload_from pad 0 (saved_entries st)) s0 = None"
    by (rule restore_entries_short)
  then show ?thesis
    using saved_count_words [of st]
    by (simp add: snapshot_restore_def Let_def snapshot_crc32_def len wrap cnt)
qed

end
