(* ===== verification/Command_Queues.thy ===== *)
theory Command_Queues
  imports State_Store
begin

text \<open>
  The two command queues in front of the state store: \<open>io_command.c\<close> (commands of the network
  services, popped one by one by the scheduler) and \<open>event_set.c\<close> (set requests, drained in one
  go). Both are rings of 32 cells and implement \<open>bounded_fifo\<close> with room for 31 commands; the
  drain loop of \<open>event_set.c\<close> is a \<open>partial_function\<close>, so that a loop that never ends is \<^const>\<open>None\<close>.
\<close>

section \<open>io\_command.c\<close>

definition IO_CMD_QUEUE_SIZE :: nat where "IO_CMD_QUEUE_SIZE = 32"

record io_cmd_t =
  cmd_id :: u16
  cmd_value :: i32

record io_command_queue =
  ioq_queue :: "io_cmd_t list"
  ioq_head :: u8
  ioq_tail :: u8

definition io_command_init :: "io_command_queue \<Rightarrow> io_command_queue" where
  "io_command_init q = q\<lparr>ioq_head := 0, ioq_tail := 0\<rparr>"

definition io_command_push :: "u16 \<Rightarrow> i32 \<Rightarrow> io_command_queue \<Rightarrow> bool \<times> io_command_queue" where
  "io_command_push sid value q =
     (let next = (ioq_head q + 1) mod 32 in
      if next \<noteq> ioq_tail q
      then (True, q\<lparr>ioq_queue := (ioq_queue q)[unat (ioq_head q) := \<lparr>cmd_id = sid, cmd_value = value\<rparr>],
                    ioq_head := next\<rparr>)
      else (False, q))"

definition io_command_pop :: "io_command_queue \<Rightarrow> (io_cmd_t \<times> io_command_queue) option" where
  "io_command_pop q =
     (if ioq_tail q \<noteq> ioq_head q
      then Some (ioq_queue q ! unat (ioq_tail q), q\<lparr>ioq_tail := (ioq_tail q + 1) mod 32\<rparr>)
      else None)"

section \<open>event\_set.c\<close>

definition EVENT_QUEUE_SIZE :: nat where "EVENT_QUEUE_SIZE = 32"

record event_set_t =
  es_id :: u16
  es_value :: i32

record event_set_queue =
  esq_queue :: "event_set_t list"
  esq_head :: u16
  esq_tail :: u16

definition event_enqueue_set :: "u16 \<Rightarrow> i32 \<Rightarrow> event_set_queue \<Rightarrow> bool \<times> event_set_queue" where
  "event_enqueue_set sid value q =
     (let next = (esq_head q + 1) mod 32 in
      if next = esq_tail q then (False, q)
      else (True, q\<lparr>esq_queue := (esq_queue q)[unat (esq_head q) := \<lparr>es_id = sid, es_value = value\<rparr>],
                    esq_head := next\<rparr>))"

text \<open>One turn of the drain loop takes the oldest request.\<close>

definition event_set_take :: "event_set_queue \<Rightarrow> (event_set_t \<times> event_set_queue) option" where
  "event_set_take q =
     (if esq_tail q = esq_head q then None
      else Some (esq_queue q ! unat (esq_tail q), q\<lparr>esq_tail := (esq_tail q + 1) mod 32\<rparr>))"

partial_function (option) event_process_set_queue ::
  "'w platform \<Rightarrow> event_set_queue \<Rightarrow> 'w system \<Rightarrow> (event_set_queue \<times> 'w system) option" where
  "event_process_set_queue P q s =
     (case event_set_take q of
        None \<Rightarrow> Some (q, s)
      | Some (ev, q') \<Rightarrow>
          event_process_set_queue P q' (snd (state_set_int P (es_id ev) (es_value ev) s)))"

section \<open>Both queues are bounded FIFOs\<close>

lemma unat_mod32_succ_u8: "unat (((x :: u8) + 1) mod 32) = Suc (unat x) mod 32"
  by (simp add: unat_mod_distrib unat_word_ariths mod_mod_cancel)

lemma unat_mod32_succ_u16: "unat (((x :: u16) + 1) mod 32) = Suc (unat x) mod 32"
  by (simp add: unat_mod_distrib unat_word_ariths mod_mod_cancel)

definition ioq_inv :: "io_command_queue \<Rightarrow> bool" where
  "ioq_inv q \<longleftrightarrow> length (ioq_queue q) = 32 \<and> unat (ioq_head q) < 32 \<and> unat (ioq_tail q) < 32"

definition ioq_items :: "io_command_queue \<Rightarrow> io_cmd_t list" where
  "ioq_items q = ring_items (ioq_queue q) (unat (ioq_head q)) (unat (ioq_tail q))"

definition esq_inv :: "event_set_queue \<Rightarrow> bool" where
  "esq_inv q \<longleftrightarrow> length (esq_queue q) = 32 \<and> unat (esq_head q) < 32 \<and> unat (esq_tail q) < 32"

definition esq_items :: "event_set_queue \<Rightarrow> event_set_t list" where
  "esq_items q = ring_items (esq_queue q) (unat (esq_head q)) (unat (esq_tail q))"

text \<open>
  The laws of a ring of 32 cells, stated on the raw indices, for both queues at once.
\<close>

lemma ring32_push:
  assumes "length buf = 32" "h < 32" "t < 32" "ring_len 32 h t < 31"
  shows "Suc h mod 32 \<noteq> t \<and> ring_items (buf[h := x]) (Suc h mod 32) t = ring_items buf h t @ [x]"
  using assms ring_full [of h 32 t] ring_items_push [of h buf t x] by auto

lemma ring32_full: "h < 32 \<Longrightarrow> t < 32 \<Longrightarrow> ring_len 32 h t \<ge> 31 \<Longrightarrow> Suc h mod 32 = t"
  using ring_full [of h 32 t] ring_len_less [of 32 h t] by simp

lemma ring32_pop:
  assumes "length buf = 32" "h < 32" "t < 32" "h \<noteq> t"
  shows "ring_items buf h t = buf ! t # ring_items buf h (Suc t mod 32)"
  using assms ring_items_pop [of h buf t] by simp

lemma succ8_eq_iff: "((x :: u8) + 1) mod 32 = y \<longleftrightarrow> Suc (unat x) mod 32 = unat y"
  by (metis unat_mod32_succ_u8 unat_eq_unat_iff)

lemma succ16_eq_iff: "((x :: u16) + 1) mod 32 = y \<longleftrightarrow> Suc (unat x) mod 32 = unat y"
  by (metis unat_mod32_succ_u16 unat_eq_unat_iff)

lemmas ioq_defs = ioq_inv_def ioq_items_def
lemmas esq_defs = esq_inv_def esq_items_def

interpretation io_commands: bounded_fifo
  "\<lambda>c. io_command_push (cmd_id c) (cmd_value c)" io_command_pop ioq_items ioq_inv 31
proof unfold_locales
  fix q and c :: io_cmd_t
  assume "ioq_inv q" "length (ioq_items q) < 31"
  then show "fst (io_command_push (cmd_id c) (cmd_value c) q) \<and>
      ioq_inv (snd (io_command_push (cmd_id c) (cmd_value c) q)) \<and>
      ioq_items (snd (io_command_push (cmd_id c) (cmd_value c) q)) = ioq_items q @ [c]"
    using ring32_push [of "ioq_queue q" "unat (ioq_head q)" "unat (ioq_tail q)" c]
    by (cases c) (simp add: io_command_push_def ioq_defs Let_def succ8_eq_iff unat_mod32_succ_u8)
next
  fix q and c :: io_cmd_t
  assume "ioq_inv q" "31 \<le> length (ioq_items q)"
  then show "io_command_push (cmd_id c) (cmd_value c) q = (False, q)"
    using ring32_full [of "unat (ioq_head q)" "unat (ioq_tail q)"]
    by (simp add: io_command_push_def ioq_defs Let_def succ8_eq_iff)
next
  fix q
  assume "ioq_inv q"
  then show "io_command_pop q = None \<longleftrightarrow> ioq_items q = []"
    by (auto simp: io_command_pop_def ioq_defs ring_items_empty)
next
  fix q q' and c :: io_cmd_t
  assume inv: "ioq_inv q" and pop: "io_command_pop q = Some (c, q')"
  from pop have "unat (ioq_head q) \<noteq> unat (ioq_tail q)"
    by (auto simp: io_command_pop_def split: if_splits)
  with inv pop show "ioq_inv q' \<and> ioq_items q = c # ioq_items q'"
    using ring32_pop [of "ioq_queue q" "unat (ioq_head q)" "unat (ioq_tail q)"]
    by (auto simp: io_command_pop_def ioq_defs unat_mod32_succ_u8 split: if_splits)
next
  fix q
  assume "ioq_inv q"
  then show "length (ioq_items q) \<le> 31"
    using ring_len_less [of 32 "unat (ioq_head q)" "unat (ioq_tail q)"] by (simp add: ioq_defs)
qed

interpretation set_requests: bounded_fifo
  "\<lambda>c. event_enqueue_set (es_id c) (es_value c)" event_set_take esq_items esq_inv 31
proof unfold_locales
  fix q and c :: event_set_t
  assume "esq_inv q" "length (esq_items q) < 31"
  then show "fst (event_enqueue_set (es_id c) (es_value c) q) \<and>
      esq_inv (snd (event_enqueue_set (es_id c) (es_value c) q)) \<and>
      esq_items (snd (event_enqueue_set (es_id c) (es_value c) q)) = esq_items q @ [c]"
    using ring32_push [of "esq_queue q" "unat (esq_head q)" "unat (esq_tail q)" c]
    by (cases c) (simp add: event_enqueue_set_def esq_defs Let_def succ16_eq_iff unat_mod32_succ_u16)
next
  fix q and c :: event_set_t
  assume "esq_inv q" "31 \<le> length (esq_items q)"
  then show "event_enqueue_set (es_id c) (es_value c) q = (False, q)"
    using ring32_full [of "unat (esq_head q)" "unat (esq_tail q)"]
    by (simp add: event_enqueue_set_def esq_defs Let_def succ16_eq_iff)
next
  fix q
  assume "esq_inv q"
  then show "event_set_take q = None \<longleftrightarrow> esq_items q = []"
    by (auto simp: event_set_take_def esq_defs ring_items_empty)
next
  fix q q' and c :: event_set_t
  assume inv: "esq_inv q" and pop: "event_set_take q = Some (c, q')"
  from pop have "unat (esq_head q) \<noteq> unat (esq_tail q)"
    by (auto simp: event_set_take_def split: if_splits)
  with inv pop show "esq_inv q' \<and> esq_items q = c # esq_items q'"
    using ring32_pop [of "esq_queue q" "unat (esq_head q)" "unat (esq_tail q)"]
    by (auto simp: event_set_take_def esq_defs unat_mod32_succ_u16 split: if_splits)
next
  fix q
  assume "esq_inv q"
  then show "length (esq_items q) \<le> 31"
    using ring_len_less [of 32 "unat (esq_head q)" "unat (esq_tail q)"] by (simp add: esq_defs)
qed

section \<open>Draining the set requests\<close>

definition esq_writes :: "event_set_queue \<Rightarrow> (u16 \<times> i32) list" where
  "esq_writes q = map (\<lambda>e. (es_id e, es_value e)) (esq_items q)"

lemma process_set_queue_drains:
  "esq_inv q \<Longrightarrow>
   \<exists>q'. event_process_set_queue P q s = Some (q', store.write_all P (esq_writes q) s) \<and>
        esq_inv q' \<and> esq_items q' = []"
proof (induction "length (esq_items q)" arbitrary: q s)
  case 0
  then have "event_set_take q = None" using set_requests.pop_empty by simp
  then show ?case
    using 0 by (subst event_process_set_queue.simps) (simp add: esq_writes_def store.write_all_def)
next
  case (Suc n)
  then obtain ev q' where take: "event_set_take q = Some (ev, q')"
    using set_requests.pop_empty [of q] by (cases "event_set_take q") auto
  then have q': "esq_inv q'" "esq_items q = ev # esq_items q'"
    using set_requests.pop_some Suc.prems by blast+
  moreover from q' Suc.hyps(2) have "n = length (esq_items q')" by simp
  ultimately show ?case
    using Suc.hyps(1) [of q' "snd (state_set_int P (es_id ev) (es_value ev) s)"] take
    by (subst event_process_set_queue.simps) (simp add: esq_writes_def store.write_all_def)
qed

section \<open>Properties\<close>

text \<open>
  C23: processing the set requests always returns, leaves the queue empty, and the store then has, for
  every variable, the value of the youngest queued request for it, or the old value when there
  was none.
\<close>

theorem process_set_queue_last_write_wins:
  assumes "esq_inv q" "system_ok s"
  shows "\<exists>q' s'. event_process_set_queue P q s = Some (q', s') \<and> esq_items q' = [] \<and>
    state_get_int (sys_state s') = state_get_int (sys_state s) ++
      map_of (rev (List.filter (\<lambda>(k, v). state_valid_id k) (esq_writes q)))"
  using process_set_queue_drains [OF assms(1), of P s] store.write_all_get [OF assms(2)] by metis

definition empty_set_queue :: event_set_queue where
  "empty_set_queue = \<lparr>esq_queue = replicate 32 \<lparr>es_id = 0, es_value = 0\<rparr>, esq_head = 0, esq_tail = 0\<rparr>"

lemma empty_set_queue_inv: "esq_inv empty_set_queue"
  by (simp add: esq_inv_def empty_set_queue_def)

lemma empty_set_queue_items: "esq_items empty_set_queue = []"
  by (simp add: esq_items_def empty_set_queue_def ring_items_def ring_len_def)

text \<open>Two requests for output 100: the later one is the value after processing.\<close>

theorem process_set_queue_last_write_wins_witness:
  "\<exists>q' s'. event_process_set_queue sim_platform
      (snd (event_enqueue_set 100 7 (snd (event_enqueue_set 100 1 empty_set_queue)))) boot_system
        = Some (q', s') \<and> state_get_int (sys_state s') 100 = Some 7"
proof -
  let ?one = "snd (event_enqueue_set 100 1 empty_set_queue)"
  let ?two = "snd (event_enqueue_set 100 7 ?one)"
  have one: "esq_inv ?one \<and> esq_items ?one = [\<lparr>es_id = 100, es_value = 1\<rparr>]"
    using set_requests.push_ok [OF empty_set_queue_inv, of "\<lparr>es_id = 100, es_value = 1\<rparr>"]
    by (simp add: empty_set_queue_items)
  then have two: "esq_inv ?two \<and>
      esq_items ?two = [\<lparr>es_id = 100, es_value = 1\<rparr>, \<lparr>es_id = 100, es_value = 7\<rparr>]"
    using set_requests.push_ok [of ?one "\<lparr>es_id = 100, es_value = 7\<rparr>"] by simp
  then obtain q' s' where "event_process_set_queue sim_platform ?two boot_system = Some (q', s')"
    and "state_get_int (sys_state s') = state_get_int (sys_state boot_system) ++
      map_of (rev (List.filter (\<lambda>(k, v). state_valid_id k) (esq_writes ?two)))"
    using process_set_queue_last_write_wins [OF _ boot_system_ok, of ?two sim_platform] by blast
  with two show ?thesis
    by (auto simp: esq_writes_def state_valid_id_def STATE_MAX_ENTRIES_def)
qed

end
