(* ===== verification/Parser.thy ===== *)
theory Parser
  imports Prelude
begin

text \<open>
  The byte-wise frame parser (\<open>comm/parser/parser.c\<close>): it collects the bytes between a start
  and an end delimiter, at most 192 of them.
\<close>

section \<open>Model\<close>

definition PARSER_MAX_FRAME :: nat where "PARSER_MAX_FRAME = 192"
definition START_BYTE :: u8 where "START_BYTE = 60"
definition END_BYTE :: u8 where "END_BYTE = 62"

record parser =
  pa_frame :: bytes
  pa_index :: u16
  pa_receiving :: bool
  pa_frame_ready :: bool

definition parser_init :: "parser \<Rightarrow> parser" where
  "parser_init p = p\<lparr>pa_index := 0, pa_receiving := False, pa_frame_ready := False\<rparr>"

definition parser_process_byte :: "u8 \<Rightarrow> parser \<Rightarrow> bool \<times> parser" where
  "parser_process_byte b p =
     (if b = START_BYTE then (False, p\<lparr>pa_receiving := True, pa_index := 0\<rparr>)
      else if \<not> pa_receiving p then (False, p)
      else if b = END_BYTE then (True, p\<lparr>pa_frame_ready := True, pa_receiving := False\<rparr>)
      else if unat (pa_index p) < PARSER_MAX_FRAME
      then (False, p\<lparr>pa_frame := (pa_frame p)[unat (pa_index p) := b], pa_index := pa_index p + 1\<rparr>)
      else (False, p))"

definition parser_frame_available :: "parser \<Rightarrow> bool" where
  "parser_frame_available p = pa_frame_ready p"

definition parser_get_frame :: "int \<Rightarrow> parser \<Rightarrow> bytes \<times> parser" where
  "parser_get_frame max_len p =
     (if \<not> pa_frame_ready p then ([], p)
      else let len = int (unat (pa_index p));
               len = (if len > max_len then max_len else len)
           in (take (nat len) (pa_frame p), p\<lparr>pa_frame_ready := False, pa_index := 0\<rparr>))"

text \<open>
  The loop of the callers: bytes go in until one completes a frame; the bytes that are left are
  returned with the parser.
\<close>

fun parser_feed :: "bytes \<Rightarrow> parser \<Rightarrow> bytes \<times> parser" where
  "parser_feed [] p = ([], p)"
| "parser_feed (b # bs) p =
     (case parser_process_byte b p of (done, p') \<Rightarrow> if done then (bs, p') else parser_feed bs p')"

section \<open>Invariant\<close>

definition parser_ok :: "parser \<Rightarrow> bool" where
  "parser_ok p \<longleftrightarrow> length (pa_frame p) = PARSER_MAX_FRAME \<and> unat (pa_index p) \<le> PARSER_MAX_FRAME"

lemma parser_index_succ: "unat (i :: u16) < PARSER_MAX_FRAME \<Longrightarrow> unat (i + 1) = Suc (unat i)"
  by (simp add: unat_word_ariths PARSER_MAX_FRAME_def)

lemma parser_process_ok: "parser_ok p \<Longrightarrow> parser_ok (snd (parser_process_byte b p))"
  by (auto simp: parser_process_byte_def parser_ok_def parser_index_succ)

lemma parser_feed_ok: "parser_ok p \<Longrightarrow> parser_ok (snd (parser_feed bs p))"
proof (induction bs arbitrary: p)
  case Nil
  then show ?case by simp
next
  case (Cons b bs)
  show ?case
    using Cons.IH parser_process_ok [OF Cons.prems, of b] by (auto simp: case_prod_unfold)
qed

lemma parser_get_frame_ok: "parser_ok p \<Longrightarrow> parser_ok (snd (parser_get_frame m p))"
  by (simp add: parser_get_frame_def parser_ok_def Let_def)

section \<open>Extraction of a frame\<close>

definition plain :: "bytes \<Rightarrow> bool" where
  "plain body \<longleftrightarrow> START_BYTE \<notin> set body \<and> END_BYTE \<notin> set body"

text \<open>What the parser holds while it receives.\<close>

definition received :: "parser \<Rightarrow> bytes" where
  "received p = take (unat (pa_index p)) (pa_frame p)"

lemma process_body_byte:
  assumes "parser_ok p" "pa_receiving p" "b \<noteq> START_BYTE" "b \<noteq> END_BYTE"
  shows "fst (parser_process_byte b p) = False \<and> pa_receiving (snd (parser_process_byte b p)) \<and>
    received (snd (parser_process_byte b p)) = take PARSER_MAX_FRAME (received p @ [b])"
proof (cases "unat (pa_index p) < PARSER_MAX_FRAME")
  case True
  with assms show ?thesis
    by (simp add: parser_process_byte_def received_def parser_index_succ parser_ok_def
        take_Suc_conv_app_nth)
next
  case False
  with assms show ?thesis
    by (simp add: parser_process_byte_def received_def parser_ok_def)
qed

lemma feed_body:
  assumes "parser_ok p" "pa_receiving p" "plain body"
  shows "\<exists>p'. parser_feed (body @ rest) p = parser_feed rest p' \<and> parser_ok p' \<and> pa_receiving p' \<and>
    received p' = take PARSER_MAX_FRAME (received p @ body)"
  using assms
proof (induction body arbitrary: p)
  case Nil
  then have "received p = take PARSER_MAX_FRAME (received p)"
    by (simp add: received_def parser_ok_def min_def)
  with Nil show ?case by auto
next
  case (Cons b body)
  let ?p = "snd (parser_process_byte b p)"
  have b: "b \<noteq> START_BYTE" "b \<noteq> END_BYTE" and body: "plain body" using Cons.prems(3) by (auto simp: plain_def)
  note step = process_body_byte [OF Cons.prems(1,2) b]
  have ok: "parser_ok ?p" using Cons.prems(1) by (rule parser_process_ok)
  have rec: "pa_receiving ?p" using step by simp
  obtain p' where p': "parser_feed (body @ rest) ?p = parser_feed rest p'" "parser_ok p'"
    "pa_receiving p'" "received p' = take PARSER_MAX_FRAME (received ?p @ body)"
    using Cons.IH [OF ok rec body] by blast
  have "received p' = take PARSER_MAX_FRAME (take PARSER_MAX_FRAME (received p @ [b]) @ body)"
    using p'(4) step by simp
  also have "\<dots> = take PARSER_MAX_FRAME (received p @ b # body)"
    unfolding take_take_append by simp
  finally show ?case
    using p'(1-3) step by (auto simp: case_prod_unfold)
qed

lemma feed_frame:
  assumes "parser_ok p" "plain body" "0 \<le> m"
  shows "\<exists>p'. parser_feed (START_BYTE # body @ END_BYTE # rest) p = (rest, p') \<and> parser_ok p' \<and>
    parser_frame_available p' \<and> \<not> pa_receiving p' \<and>
    fst (parser_get_frame m p') = take (nat m) (take PARSER_MAX_FRAME body)"
proof -
  let ?q = "p\<lparr>pa_receiving := True, pa_index := 0\<rparr>"
  have q: "parser_ok ?q" "pa_receiving ?q" "received ?q = []"
    using assms(1) by (simp_all add: parser_ok_def received_def)
  obtain p' where p': "parser_feed (body @ END_BYTE # rest) ?q = parser_feed (END_BYTE # rest) p'"
    "parser_ok p'" "pa_receiving p'" "received p' = take PARSER_MAX_FRAME body"
    using feed_body [OF q(1,2) assms(2)] q(3) by fastforce
  let ?r = "p'\<lparr>pa_frame_ready := True, pa_receiving := False\<rparr>"
  have ends: "parser_feed (END_BYTE # rest) p' = (rest, ?r)"
    using p'(3) by (simp add: parser_process_byte_def START_BYTE_def END_BYTE_def)
  have "parser_feed (START_BYTE # body @ END_BYTE # rest) p = parser_feed (body @ END_BYTE # rest) ?q"
    by (simp add: parser_process_byte_def)
  moreover have "fst (parser_get_frame m ?r) = take (nat m) (received p')"
  proof (cases "int (unat (pa_index p')) > m")
    case True
    then have "nat m \<le> unat (pa_index p')" by linarith
    with True show ?thesis
      by (simp add: parser_get_frame_def Let_def received_def min_absorb1 del: of_nat_unat)
  next
    case False
    then have "unat (pa_index p') \<le> nat m" by linarith
    with False show ?thesis
      by (simp add: parser_get_frame_def Let_def received_def min_absorb2 del: of_nat_unat)
  qed
  moreover have "parser_ok ?r" using p'(2) by (simp add: parser_ok_def)
  ultimately show ?thesis
    using p' ends by (auto simp: parser_frame_available_def simp del: parser_feed.simps)
qed

text \<open>
  From any state, the parser reads a delimited body without delimiters inside up to its end
  byte, leaves the following bytes unread, and hands over the body, cut at 192 bytes and at the
  size of the caller's buffer.
\<close>

theorem parser_extracts_frame:
  assumes "parser_ok p" "plain body" "0 \<le> m"
  shows "\<exists>p'. parser_feed (START_BYTE # body @ END_BYTE # rest) p = (rest, p') \<and> parser_ok p' \<and>
    parser_frame_available p' \<and>
    fst (parser_get_frame m p') = take (nat m) (take PARSER_MAX_FRAME body)"
  using feed_frame [OF assms, of rest] by blast

definition idle_parser :: parser where
  "idle_parser = \<lparr>pa_frame = replicate 192 0, pa_index = 0, pa_receiving = False, pa_frame_ready = False\<rparr>"

lemma idle_parser_ok: "parser_ok idle_parser"
  by (simp add: parser_ok_def idle_parser_def PARSER_MAX_FRAME_def)

text \<open>The frame \<open>AB\<close> followed by a stray byte.\<close>

theorem parser_extracts_frame_witness:
  "\<exists>p'. parser_feed [60, 65, 66, 62, 10] idle_parser = ([10], p') \<and> parser_frame_available p' \<and>
    fst (parser_get_frame 192 p') = [65, 66]"
  using parser_extracts_frame [OF idle_parser_ok, of "[65, 66]" 192 "[10]"]
  by (auto simp: plain_def START_BYTE_def END_BYTE_def PARSER_MAX_FRAME_def)

end
