(* ===== verification/Rs485_Frame.thy ===== *)
theory Rs485_Frame
  imports Parser
begin

text \<open>
  The frame format of the RS485 bus (\<open>rs485_engine.c\<close>): a raw frame of node, message id, type,
  length, payload and CRC16 (high byte first), sent as hexadecimal digits between \<open><\<close> and \<open>>\<close>.
\<close>

section \<open>Model\<close>

definition RS485_FRAME_MAX_PAYLOAD :: nat where "RS485_FRAME_MAX_PAYLOAD = 64"
definition RS485_FRAME_HEADER_SIZE :: nat where "RS485_FRAME_HEADER_SIZE = 5"
definition RS485_FRAME_CRC_SIZE :: nat where "RS485_FRAME_CRC_SIZE = 2"
definition RS485_FRAME_RAW_MAX :: nat where "RS485_FRAME_RAW_MAX = 71"
definition RS485_FRAME_WIRE_MAX :: nat where "RS485_FRAME_WIRE_MAX = 144"

lemmas frame_consts = RS485_FRAME_MAX_PAYLOAD_def RS485_FRAME_HEADER_SIZE_def RS485_FRAME_CRC_SIZE_def
  RS485_FRAME_RAW_MAX_def RS485_FRAME_WIRE_MAX_def

definition RS485_FRAME_TYPE_POLL :: u8 where "RS485_FRAME_TYPE_POLL = 1"
definition RS485_FRAME_TYPE_ACK :: u8 where "RS485_FRAME_TYPE_ACK = 2"
definition RS485_FRAME_TYPE_CLUSTER_HEARTBEAT :: u8 where "RS485_FRAME_TYPE_CLUSTER_HEARTBEAT = 16"
definition RS485_FRAME_TYPE_CLUSTER_FRAME :: u8 where "RS485_FRAME_TYPE_CLUSTER_FRAME = 17"

record rs485_frame_t =
  fr_node :: u8
  fr_msg_id :: u16
  fr_type :: u8
  fr_len :: u8
  fr_payload :: bytes

datatype rs485_engine_rx_result_t =
  RS485_ENGINE_RX_NONE | RS485_ENGINE_RX_FRAME | RS485_ENGINE_RX_CRC_ERROR
  | RS485_ENGINE_RX_FORMAT_ERROR

text \<open>One turn of the bit loop, and the loop over the bytes.\<close>

definition crc_bit :: "u16 \<Rightarrow> u16" where
  "crc_bit crc = (if crc AND 1 \<noteq> 0 then drop_bit 1 crc XOR 0xA001 else drop_bit 1 crc)"

definition crc_byte :: "u16 \<Rightarrow> u8 \<Rightarrow> u16" where
  "crc_byte crc b = (crc_bit ^^ 8) (crc XOR ucast b)"

definition rs485_crc16 :: "bytes \<Rightarrow> u16" where
  "rs485_crc16 data = foldl crc_byte 0xFFFF data"

definition nibble_to_hex :: "u8 \<Rightarrow> u8" where
  "nibble_to_hex value = (let v = value AND 0x0F in if v < 10 then 48 + v else 65 + (v - 10))"

definition c_toupper :: "u8 \<Rightarrow> u8" where
  "c_toupper b = (if 97 \<le> b \<and> b \<le> 122 then b - 32 else b)"

definition hex_to_nibble :: "u8 \<Rightarrow> int" where
  "hex_to_nibble value =
     (if value \<ge> 48 \<and> value \<le> 57 then uint value - 48
      else let v = c_toupper value in
        if v \<ge> 65 \<and> v \<le> 70 then 10 + (uint v - 65) else -1)"

text \<open>The result is the written prefix of the buffer, empty when the function returns 0.\<close>

definition encode_raw_frame :: "rs485_frame_t \<Rightarrow> nat \<Rightarrow> bytes" where
  "encode_raw_frame frame max_len =
     (if unat (fr_len frame) > RS485_FRAME_MAX_PAYLOAD then []
      else if RS485_FRAME_HEADER_SIZE + unat (fr_len frame) + RS485_FRAME_CRC_SIZE > max_len then []
      else let body = [fr_node frame, ucast (drop_bit 8 (fr_msg_id frame)), ucast (fr_msg_id frame AND 0xFF),
                       fr_type frame, fr_len frame] @ take (unat (fr_len frame)) (fr_payload frame);
               crc = rs485_crc16 body
           in body @ [ucast (drop_bit 8 crc), ucast (crc AND 0xFF)])"

definition hex_digits :: "bytes \<Rightarrow> bytes" where
  "hex_digits raw = concat (map (\<lambda>b. [nibble_to_hex (drop_bit 4 b), nibble_to_hex b]) raw)"

definition encode_wire_frame :: "rs485_frame_t \<Rightarrow> nat \<Rightarrow> bytes" where
  "encode_wire_frame frame max_len =
     (let raw = encode_raw_frame frame RS485_FRAME_RAW_MAX in
      if raw = [] then []
      else if length raw * 2 + 2 > max_len then []
      else START_BYTE # hex_digits raw @ [END_BYTE])"

text \<open>The loop that reads two digits per byte; \<^const>\<open>None\<close> at a character that is no digit.\<close>

fun decode_digits :: "bytes \<Rightarrow> bytes option" where
  "decode_digits (a # b # rest) =
     (let hi = hex_to_nibble a; lo = hex_to_nibble b in
      if hi < 0 \<or> lo < 0 then None
      else map_option (\<lambda>raw. word_of_int (push_bit 4 hi OR lo) # raw) (decode_digits rest))"
| "decode_digits _ = Some []"

text \<open>The part of the decoder after the digits; \<open>frame\<close> is the caller's frame, overwritten on success.\<close>

definition decode_raw_frame ::
  "bytes \<Rightarrow> rs485_frame_t \<Rightarrow> rs485_engine_rx_result_t \<times> rs485_frame_t" where
  "decode_raw_frame raw frame =
     (let payload_len = raw ! 4;
          expected_len = RS485_FRAME_HEADER_SIZE + unat payload_len + RS485_FRAME_CRC_SIZE
      in if expected_len \<noteq> length raw then (RS485_ENGINE_RX_FORMAT_ERROR, frame)
         else let expected_crc = push_bit 8 (ucast (raw ! (expected_len - 2))) OR ucast (raw ! (expected_len - 1));
                  actual_crc = rs485_crc16 (take (expected_len - RS485_FRAME_CRC_SIZE) raw)
              in if expected_crc \<noteq> actual_crc then (RS485_ENGINE_RX_CRC_ERROR, frame)
                 else (RS485_ENGINE_RX_FRAME,
                   \<lparr>fr_node = raw ! 0,
                    fr_msg_id = push_bit 8 (ucast (raw ! 1)) OR ucast (raw ! 2),
                    fr_type = raw ! 3,
                    fr_len = payload_len,
                    fr_payload = take (unat payload_len) (drop 5 raw) @
                      drop (unat payload_len) (fr_payload frame)\<rparr>))"

definition decode_wire_frame ::
  "bytes \<Rightarrow> rs485_frame_t \<Rightarrow> rs485_engine_rx_result_t \<times> rs485_frame_t" where
  "decode_wire_frame wire frame =
     (if length wire = 0 \<or> odd (length wire) then (RS485_ENGINE_RX_FORMAT_ERROR, frame)
      else let raw_len = length wire div 2 in
        if raw_len < RS485_FRAME_HEADER_SIZE + RS485_FRAME_CRC_SIZE \<or> raw_len > RS485_FRAME_RAW_MAX
        then (RS485_ENGINE_RX_FORMAT_ERROR, frame)
        else case decode_digits wire of
          None \<Rightarrow> (RS485_ENGINE_RX_FORMAT_ERROR, frame)
        | Some raw \<Rightarrow> decode_raw_frame raw frame)"

section \<open>Digits\<close>

lemma nibble_take_bit: "(b :: u8) AND 15 = take_bit 4 b"
  by (simp add: take_bit_eq_mask mask_eq_exp_minus_1)

text \<open>The digit of each of the sixteen nibbles.\<close>

definition hex_digit :: "nat \<Rightarrow> u8" where
  "hex_digit k = (if k < 10 then 48 + of_nat k else 55 + of_nat k)"

lemma nibble_to_hex_digit: "nibble_to_hex b = hex_digit (unat b mod 16)"
proof -
  have v: "unat (take_bit 4 b) = unat b mod 16"
    unfolding unsigned_take_bit_eq by (simp add: take_bit_eq_mod)
  have "(of_nat (unat x) :: u8) = x" for x :: u8 by simp
  with v have "take_bit 4 b = of_nat (unat b mod 16)" by metis
  with v show ?thesis
    by (simp add: nibble_to_hex_def nibble_take_bit hex_digit_def word_less_nat_alt Let_def)
qed

lemma unat_hex_digit: "k < 16 \<Longrightarrow> unat (hex_digit k) = (if k < 10 then 48 + k else 55 + k)"
  by (simp add: hex_digit_def unat_word_ariths)

lemma hex_to_nibble_unat:
  "hex_to_nibble v =
     (if 48 \<le> unat v \<and> unat v \<le> 57 then int (unat v) - 48
      else if 65 \<le> unat v \<and> unat v \<le> 70 then int (unat v) - 55
      else if 97 \<le> unat v \<and> unat v \<le> 102 then int (unat v) - 87 else -1)"
proof -
  have "97 \<le> unat v \<Longrightarrow> unat (v - 32) = unat v - 32"
    by (subst unat_sub) (simp_all add: word_le_nat_alt)
  then show ?thesis
    unfolding hex_to_nibble_def c_toupper_def Let_def word_le_nat_alt
    by (auto simp: uint_nat simp del: of_nat_unat)
qed

lemma hex_digit_value: "k < 16 \<Longrightarrow> hex_to_nibble (hex_digit k) = int k"
  by (simp add: hex_to_nibble_unat unat_hex_digit del: of_nat_unat)

lemma hex_digit_plain: "k < 16 \<Longrightarrow> hex_digit k \<noteq> START_BYTE \<and> hex_digit k \<noteq> END_BYTE"
  using unat_hex_digit [of k] by (auto simp: START_BYTE_def END_BYTE_def split: if_splits)

lemma decode_hex_byte:
  "word_of_int (push_bit 4 (int (unat (b :: u8) div 16)) OR int (unat b mod 16)) = b"
proof -
  have "push_bit 4 (int (unat b div 16)) OR int (unat b mod 16)
      = int (push_bit 4 (drop_bit 4 (unat b)) OR take_bit 4 (unat b))"
    by (simp add: of_nat_or_eq of_nat_push_bit drop_bit_eq_div take_bit_eq_mod)
  also have "push_bit 4 (drop_bit 4 (unat b)) OR take_bit 4 (unat b) = unat b"
    by (rule bit_eqI) (auto simp: bit_simps)
  finally show ?thesis by simp
qed

lemma unat_high_nibble: "unat (drop_bit 4 (b :: u8)) = unat b div 16"
  by (simp add: drop_bit_eq_div unat_div_distrib)

lemma high_nibble_lt: "unat (b :: u8) div 16 < 16"
  by (rule less_mult_imp_div_less) simp

lemma hex_digits_simps [simp]:
  "hex_digits [] = []"
  "hex_digits (b # raw) = hex_digit (unat b div 16) # hex_digit (unat b mod 16) # hex_digits raw"
proof -
  note high_nibble_lt [of b]
  then show "hex_digits (b # raw) = hex_digit (unat b div 16) # hex_digit (unat b mod 16) # hex_digits raw"
    by (simp add: hex_digits_def nibble_to_hex_digit unat_high_nibble)
qed (simp add: hex_digits_def)

lemma length_hex_digits [simp]: "length (hex_digits raw) = 2 * length raw"
  by (induction raw) simp_all

lemma decode_hex_digits [simp]: "decode_digits (hex_digits raw) = Some raw"
proof (induction raw)
  case (Cons b raw)
  have "unat b div 16 < 16" "unat b mod 16 < 16" by (simp_all add: high_nibble_lt)
  with Cons decode_hex_byte [of b] show ?case by (simp add: hex_digit_value Let_def)
qed simp

lemma hex_digits_plain: "plain (hex_digits raw)"
proof (induction raw)
  case (Cons b raw)
  have "unat b div 16 < 16" "unat b mod 16 < 16" by (simp_all add: high_nibble_lt)
  with Cons show ?case
    using hex_digit_plain [of "unat b div 16"] hex_digit_plain [of "unat b mod 16"]
    by (auto simp: plain_def)
qed (simp add: plain_def)

section \<open>Encoding and decoding\<close>

text \<open>The bytes the checksum covers.\<close>

definition frame_body :: "rs485_frame_t \<Rightarrow> bytes" where
  "frame_body f = [fr_node f, ucast (drop_bit 8 (fr_msg_id f)), ucast (fr_msg_id f AND 0xFF),
     fr_type f, fr_len f] @ take (unat (fr_len f)) (fr_payload f)"

definition crc_bytes :: "u16 \<Rightarrow> bytes" where
  "crc_bytes crc = [ucast (drop_bit 8 crc), ucast (crc AND 0xFF)]"

definition frame_ok :: "rs485_frame_t \<Rightarrow> bool" where
  "frame_ok f \<longleftrightarrow> unat (fr_len f) \<le> RS485_FRAME_MAX_PAYLOAD \<and> length (fr_payload f) = RS485_FRAME_MAX_PAYLOAD"

text \<open>Two frames that say the same: the payload counts up to the length only.\<close>

definition same_frame :: "rs485_frame_t \<Rightarrow> rs485_frame_t \<Rightarrow> bool" where
  "same_frame f g \<longleftrightarrow> fr_node f = fr_node g \<and> fr_msg_id f = fr_msg_id g \<and> fr_type f = fr_type g \<and>
     fr_len f = fr_len g \<and> take (unat (fr_len f)) (fr_payload f) = take (unat (fr_len g)) (fr_payload g)"

lemma join_u16: "push_bit 8 (ucast (ucast (drop_bit 8 x) :: u8)) OR ucast (ucast (x AND 0xFF) :: u8) = (x :: u16)"
proof (rule bit_word_eqI)
  fix n assume "n < LENGTH(16)"
  moreover have "x AND 0xFF = take_bit 8 x" by (simp add: take_bit_eq_mask mask_eq_exp_minus_1)
  ultimately show "bit (push_bit 8 (ucast (ucast (drop_bit 8 x) :: u8)) OR
      ucast (ucast (x AND 0xFF) :: u8) :: u16) n = bit x n"
    by (auto simp: bit_simps)
qed

lemma frame_body_len [simp]: "frame_ok f \<Longrightarrow> length (frame_body f) = 5 + unat (fr_len f)"
  by (simp add: frame_body_def frame_ok_def min_def)

lemma length_crc_bytes [simp]: "length (crc_bytes c) = 2"
  by (simp add: crc_bytes_def)

lemma encode_raw_frame_eq:
  "frame_ok f \<Longrightarrow> encode_raw_frame f RS485_FRAME_RAW_MAX = frame_body f @ crc_bytes (rs485_crc16 (frame_body f))"
  by (simp add: encode_raw_frame_def frame_ok_def frame_consts frame_body_def crc_bytes_def Let_def)

lemma encode_raw_too_long:
  "unat (fr_len f) > RS485_FRAME_MAX_PAYLOAD \<Longrightarrow> encode_raw_frame f m = []"
  by (simp add: encode_raw_frame_def)

lemma encode_wire_frame_eq:
  assumes "frame_ok f"
  shows "encode_wire_frame f RS485_FRAME_WIRE_MAX =
    START_BYTE # hex_digits (frame_body f @ crc_bytes (rs485_crc16 (frame_body f))) @ [END_BYTE]"
proof -
  have "length (frame_body f) \<le> 69" using assms by (simp add: frame_ok_def frame_consts)
  with assms show ?thesis
    unfolding encode_wire_frame_def encode_raw_frame_eq [OF assms] Let_def
    by (simp add: RS485_FRAME_WIRE_MAX_def crc_bytes_def)
qed

text \<open>The decoder on a raw frame whose length byte is right.\<close>

lemma decode_raw_eq:
  assumes "length body = 5 + unat (body ! 4)" "length c = 2"
  shows "decode_raw_frame (body @ c) g =
    (if push_bit 8 (ucast (c ! 0)) OR ucast (c ! 1) = rs485_crc16 body
     then (RS485_ENGINE_RX_FRAME,
        \<lparr>fr_node = body ! 0, fr_msg_id = push_bit 8 (ucast (body ! 1)) OR ucast (body ! 2),
         fr_type = body ! 3, fr_len = body ! 4,
         fr_payload = drop 5 body @ drop (unat (body ! 4)) (fr_payload g)\<rparr>)
     else (RS485_ENGINE_RX_CRC_ERROR, g))"
  using assms by (simp add: decode_raw_frame_def nth_append frame_consts Let_def)

lemma decode_raw_body:
  assumes "frame_ok f"
  shows "decode_raw_frame (frame_body f @ crc_bytes (rs485_crc16 (frame_body f))) g =
    (RS485_ENGINE_RX_FRAME, f\<lparr>fr_payload := take (unat (fr_len f)) (fr_payload f) @
       drop (unat (fr_len f)) (fr_payload g)\<rparr>)"
proof -
  have "frame_body f ! 4 = fr_len f" by (simp add: frame_body_def)
  with assms have "decode_raw_frame (frame_body f @ crc_bytes (rs485_crc16 (frame_body f))) g =
    (RS485_ENGINE_RX_FRAME,
        \<lparr>fr_node = frame_body f ! 0,
         fr_msg_id = push_bit 8 (ucast (frame_body f ! 1)) OR ucast (frame_body f ! 2),
         fr_type = frame_body f ! 3, fr_len = frame_body f ! 4,
         fr_payload = drop 5 (frame_body f) @ drop (unat (frame_body f ! 4)) (fr_payload g)\<rparr>)"
    by (subst decode_raw_eq) (simp_all add: crc_bytes_def join_u16)
  then show ?thesis by (simp add: frame_body_def join_u16)
qed

section \<open>The checksum\<close>

lemma crc_bit_alt: "crc_bit x = (if bit x 0 then drop_bit 1 x XOR 0xA001 else drop_bit 1 x)"
  by (simp add: crc_bit_def and_one_eq bit_0 odd_iff_mod_2_eq_one)

lemma crc_bit_15: "bit (crc_bit x) 15 \<longleftrightarrow> bit x 0"
proof -
  have "\<not> bit x 16" using bit_imp_le_length [of x 16] by auto
  then show ?thesis by (simp add: crc_bit_alt bit_xor_iff bit_drop_bit_eq)
qed

lemma crc_bit_inject: "crc_bit x = crc_bit y \<longleftrightarrow> x = y"
proof
  assume eq: "crc_bit x = crc_bit y"
  then have b0: "bit x 0 \<longleftrightarrow> bit y 0" using crc_bit_15 by metis
  with eq have "drop_bit 1 x = drop_bit 1 y"
    by (simp add: crc_bit_alt xor_cancel_right split: if_splits)
  show "x = y"
  proof (rule bit_word_eqI)
    fix n assume "n < LENGTH(16)"
    show "bit x n = bit y n"
    proof (cases n)
      case 0
      with b0 show ?thesis by simp
    next
      case (Suc m)
      have "bit (drop_bit 1 x) m = bit (drop_bit 1 y) m" using \<open>drop_bit 1 x = drop_bit 1 y\<close> by simp
      with Suc show ?thesis by (simp add: bit_drop_bit_eq)
    qed
  qed
qed simp

lemma crc_bits_inject: "(crc_bit ^^ n) x = (crc_bit ^^ n) y \<longleftrightarrow> x = y"
  by (induction n) (simp_all add: crc_bit_inject)

lemma crc_byte_inject: "crc_byte c b = crc_byte d b \<longleftrightarrow> c = d"
  by (simp add: crc_byte_def crc_bits_inject xor_cancel_right)

lemma ucast_u8_u16_inject: "(ucast (a :: u8) :: u16) = ucast b \<longleftrightarrow> a = b"
proof
  assume "(ucast a :: u16) = ucast b"
  then have "(ucast (ucast a :: u16) :: u8) = ucast (ucast b :: u16)" by simp
  moreover have "(ucast (ucast x :: u16) :: u8) = x" for x :: u8
    by (rule bit_word_eqI) (simp add: bit_simps)
  ultimately show "a = b" by simp
qed simp

lemma crc_byte_inject_data: "crc_byte c a = crc_byte c b \<longleftrightarrow> a = b"
  by (simp add: crc_byte_def crc_bits_inject xor_cancel_left ucast_u8_u16_inject)

lemma foldl_crc_inject: "foldl crc_byte c bs = foldl crc_byte d bs \<longleftrightarrow> c = d"
  by (induction bs arbitrary: c d) (simp_all add: crc_byte_inject)

lemma crc16_detects_byte:
  assumes "i < length bs" "bs ! i \<noteq> b"
  shows "rs485_crc16 (bs[i := b]) \<noteq> rs485_crc16 bs"
proof -
  have split: "bs = take i bs @ bs ! i # drop (Suc i) bs" using assms(1) by (rule id_take_nth_drop)
  have upd: "bs[i := b] = take i bs @ b # drop (Suc i) bs" using assms(1) by (rule upd_conv_take_nth_drop)
  have "rs485_crc16 (take i bs @ b # drop (Suc i) bs) \<noteq> rs485_crc16 (take i bs @ bs ! i # drop (Suc i) bs)"
    using assms(2) by (simp add: rs485_crc16_def foldl_crc_inject crc_byte_inject_data)
  with split upd show ?thesis by metis
qed

section \<open>Corrupted frames\<close>

text \<open>Replacing one digit is an error or replaces one byte.\<close>

lemma decode_changed_digit:
  "i < 2 * length raw \<Longrightarrow> decode_digits ((hex_digits raw)[i := c]) = None \<or>
    (\<exists>b. decode_digits ((hex_digits raw)[i := c]) = Some (raw[i div 2 := b]))"
proof (induction raw arbitrary: i)
  case (Cons x raw)
  consider "i = 0" | "i = 1" | j where "i = Suc (Suc j)" by (metis One_nat_def not0_implies_Suc)
  then show ?case
  proof cases
    case 3
    with Cons.prems have "j < 2 * length raw" by simp
    from Cons.IH [OF this] show ?thesis
      using decode_hex_byte [of x] 3 by (auto simp: Let_def hex_digit_value high_nibble_lt)
  qed (auto simp: Let_def)
qed simp

lemma join_bytes_inject:
  "push_bit 8 (ucast (h :: u8)) OR ucast (l :: u8) = (push_bit 8 (ucast h') OR ucast l' :: u16) \<longleftrightarrow>
     h = h' \<and> l = l'"
proof -
  have lo: "ucast (push_bit 8 (ucast h) OR ucast l :: u16) = l" for h l :: u8
    by (rule bit_word_eqI) (simp add: bit_simps)
  have hi: "ucast (drop_bit 8 (push_bit 8 (ucast h) OR ucast l :: u16)) = h" for h l :: u8
    by (rule bit_word_eqI) (auto simp: bit_simps dest: bit_imp_le_length)
  show ?thesis by (metis lo hi)
qed

lemma decode_raw_changed_byte:
  assumes "frame_ok f" "k < length (frame_body f) + 2"
    and raw: "raw = frame_body f @ crc_bytes (rs485_crc16 (frame_body f))"
  shows "raw[k := b] = raw \<or>
    (\<exists>e \<in> {RS485_ENGINE_RX_CRC_ERROR, RS485_ENGINE_RX_FORMAT_ERROR}. decode_raw_frame (raw[k := b]) g = (e, g))"
proof (cases "raw ! k = b")
  case True
  then show ?thesis by auto
next
  case changed: False
  let ?body = "frame_body f" and ?crc = "crc_bytes (rs485_crc16 (frame_body f))"
  have len: "length ?body = 5 + unat (?body ! 4)" using assms(1) by (simp add: frame_body_def frame_ok_def min_def)
  have crc: "push_bit 8 (ucast (?crc ! 0)) OR ucast (?crc ! 1) = rs485_crc16 ?body"
    by (simp add: crc_bytes_def join_u16)
  consider "k = 4" | "k < length ?body" "k \<noteq> 4" | "length ?body \<le> k" by linarith
  then show ?thesis
  proof cases
    case 1
    with len have "raw[k := b] ! 4 = b" "length (raw[k := b]) = 7 + unat (?body ! 4)" by (simp_all add: raw)
    moreover have "unat b \<noteq> unat (?body ! 4)" using changed 1 len by (auto simp: raw nth_append)
    ultimately show ?thesis by (simp add: decode_raw_frame_def Let_def frame_consts)
  next
    case 2
    then have upd: "raw[k := b] = ?body[k := b] @ ?crc" by (simp add: raw list_update_append)
    have "rs485_crc16 (?body[k := b]) \<noteq> rs485_crc16 ?body"
      using 2 changed by (intro crc16_detects_byte) (simp_all add: raw nth_append)
    with crc 2 len show ?thesis unfolding upd by (subst decode_raw_eq) simp_all
  next
    case 3
    let ?j = "k - length ?body"
    have j: "?j = 0 \<or> ?j = 1" using assms(2) 3 by linarith
    have upd: "raw[k := b] = ?body @ ?crc[?j := b]" using 3 by (simp add: raw list_update_append)
    have "?crc ! ?j \<noteq> b" using changed 3 by (simp add: raw nth_append)
    with j have "push_bit 8 (ucast (?crc[?j := b] ! 0)) OR ucast (?crc[?j := b] ! 1) \<noteq>
        (push_bit 8 (ucast (?crc ! 0)) OR ucast (?crc ! 1) :: u16)"
      by (auto simp: join_bytes_inject)
    with crc len show ?thesis unfolding upd by (subst decode_raw_eq) simp_all
  qed
qed

section \<open>Properties\<close>

text \<open>
  C8: a frame sent on the bus arrives: whatever the parser did before, it extracts the encoded
  frame from the byte stream, leaves what follows unread, and decoding gives the same node, message id, type, length
  and payload. A frame whose length exceeds the payload buffer is not encoded at all.
\<close>

theorem rs485_frame_round_trip:
  assumes "parser_ok p"
  shows "(frame_ok f \<longrightarrow> (\<exists>p'. parser_feed (encode_wire_frame f RS485_FRAME_WIRE_MAX @ rest) p = (rest, p') \<and>
      parser_frame_available p' \<and>
      (let (r, f') = decode_wire_frame (fst (parser_get_frame (int RS485_FRAME_WIRE_MAX) p')) g
       in r = RS485_ENGINE_RX_FRAME \<and> same_frame f' f))) \<and>
    (RS485_FRAME_MAX_PAYLOAD < unat (fr_len f) \<longrightarrow> encode_wire_frame f RS485_FRAME_WIRE_MAX = [])"
proof (intro conjI impI)
  assume ok: "frame_ok f"
  let ?raw = "frame_body f @ crc_bytes (rs485_crc16 (frame_body f))"
  have len: "length ?raw = 7 + unat (fr_len f)" "unat (fr_len f) \<le> 64"
    using ok by (simp_all add: frame_ok_def frame_consts)
  obtain p' where p': "parser_feed (START_BYTE # hex_digits ?raw @ END_BYTE # rest) p = (rest, p')"
    "parser_frame_available p'" "fst (parser_get_frame 144 p') = take 144 (take PARSER_MAX_FRAME (hex_digits ?raw))"
    using feed_frame [OF assms hex_digits_plain [of ?raw], of 144 rest] by auto
  have enc: "encode_wire_frame f RS485_FRAME_WIRE_MAX @ rest = START_BYTE # hex_digits ?raw @ END_BYTE # rest"
    by (simp add: encode_wire_frame_eq [OF ok])
  have "length (hex_digits ?raw) = 2 * (7 + unat (fr_len f))" by (simp only: length_hex_digits len)
  with len p'(3) have got: "fst (parser_get_frame 144 p') = hex_digits ?raw"
    by (simp add: PARSER_MAX_FRAME_def del: hex_digits_simps length_hex_digits)
  have "decode_wire_frame (hex_digits ?raw) g = decode_raw_frame ?raw g"
    using len by (simp only: decode_wire_frame_def decode_hex_digits length_hex_digits) (simp add: frame_consts)
  with decode_raw_body [OF ok, of g] len ok
  have "let (r, f') = decode_wire_frame (hex_digits ?raw) g
       in r = RS485_ENGINE_RX_FRAME \<and> same_frame f' f"
    by (simp add: same_frame_def frame_ok_def frame_consts)
  with p' got show "\<exists>p'. parser_feed (encode_wire_frame f RS485_FRAME_WIRE_MAX @ rest) p = (rest, p') \<and>
      parser_frame_available p' \<and>
      (let (r, f') = decode_wire_frame (fst (parser_get_frame (int RS485_FRAME_WIRE_MAX) p')) g
       in r = RS485_ENGINE_RX_FRAME \<and> same_frame f' f)"
    unfolding enc by (intro exI [of _ p']) (simp add: RS485_FRAME_WIRE_MAX_def del: parser_feed.simps)
next
  assume "RS485_FRAME_MAX_PAYLOAD < unat (fr_len f)"
  then show "encode_wire_frame f RS485_FRAME_WIRE_MAX = []"
    by (simp add: encode_wire_frame_def encode_raw_too_long Let_def)
qed

definition demo_poll :: rs485_frame_t where
  "demo_poll = \<lparr>fr_node = 7, fr_msg_id = 0x0102, fr_type = RS485_FRAME_TYPE_POLL, fr_len = 0,
     fr_payload = replicate 64 0\<rparr>"

lemma demo_poll_ok: "frame_ok demo_poll"
  by (simp add: frame_ok_def demo_poll_def frame_consts)

text \<open>A poll of node 7 followed by a stray byte.\<close>

theorem rs485_frame_round_trip_witness:
  "\<exists>p'. parser_feed (encode_wire_frame demo_poll RS485_FRAME_WIRE_MAX @ [13]) idle_parser = ([13], p') \<and>
     (let (r, f') = decode_wire_frame (fst (parser_get_frame (int RS485_FRAME_WIRE_MAX) p')) demo_poll
      in r = RS485_ENGINE_RX_FRAME \<and> fr_node f' = 7)"
proof -
  from rs485_frame_round_trip [OF idle_parser_ok, of demo_poll "[13]" demo_poll] demo_poll_ok
  obtain p' where "parser_feed (encode_wire_frame demo_poll RS485_FRAME_WIRE_MAX @ [13]) idle_parser = ([13], p')"
    "let (r, f') = decode_wire_frame (fst (parser_get_frame (int RS485_FRAME_WIRE_MAX) p')) demo_poll
      in r = RS485_ENGINE_RX_FRAME \<and> same_frame f' demo_poll" by blast
  then show ?thesis by (auto simp: same_frame_def demo_poll_def)
qed

text \<open>
  C16: a change of one character of an encoded frame on the wire is never taken for another
  frame: the decoder either reports a format or checksum error and leaves the caller's frame
  alone, or it decodes exactly what it decodes from the unchanged frame.
\<close>

theorem rs485_frame_corruption_detected:
  assumes "frame_ok f" "wire = hex_digits (encode_raw_frame f RS485_FRAME_RAW_MAX)" "i < length wire"
  shows "decode_wire_frame (wire[i := c]) g = decode_wire_frame wire g \<or>
    (\<exists>e \<in> {RS485_ENGINE_RX_CRC_ERROR, RS485_ENGINE_RX_FORMAT_ERROR}. decode_wire_frame (wire[i := c]) g = (e, g))"
proof -
  let ?raw = "frame_body f @ crc_bytes (rs485_crc16 (frame_body f))"
  have wire: "wire = hex_digits ?raw" using assms(1,2) by (simp add: encode_raw_frame_eq)
  have len: "length ?raw = 7 + unat (fr_len f)" "unat (fr_len f) \<le> 64"
    using assms(1) by (simp_all add: frame_ok_def frame_consts)
  have wl: "length wire = 2 * (7 + unat (fr_len f))" by (simp only: wire length_hex_digits len)
  have dec: "decode_wire_frame v g = (case decode_digits v of
      None \<Rightarrow> (RS485_ENGINE_RX_FORMAT_ERROR, g) | Some raw \<Rightarrow> decode_raw_frame raw g)"
    if "length v = length wire" for v
    using that wl len by (simp add: decode_wire_frame_def frame_consts)
  have i: "i < 2 * length ?raw" using assms(3) wl len by simp
  then have k: "i div 2 < length (frame_body f) + 2" using assms(1) by simp
  from decode_changed_digit [OF i, of c] show ?thesis
  proof
    assume "decode_digits ((hex_digits ?raw)[i := c]) = None"
    then show ?thesis using dec [of "wire[i := c]"] by (simp add: wire)
  next
    assume "\<exists>b. decode_digits ((hex_digits ?raw)[i := c]) = Some (?raw[i div 2 := b])"
    then obtain b where b: "decode_digits ((hex_digits ?raw)[i := c]) = Some (?raw[i div 2 := b])" ..
    from decode_raw_changed_byte [OF assms(1) k refl, of b g] b show ?thesis
      using dec [of "wire[i := c]"] dec [of wire] by (auto simp: wire)
  qed
qed

text \<open>The first digit of the poll of node 7 read as 8.\<close>

theorem rs485_frame_corruption_detected_witness:
  "let wire = hex_digits (encode_raw_frame demo_poll RS485_FRAME_RAW_MAX) in
     decode_wire_frame (wire[0 := 56]) demo_poll = decode_wire_frame wire demo_poll \<or>
     (\<exists>e \<in> {RS485_ENGINE_RX_CRC_ERROR, RS485_ENGINE_RX_FORMAT_ERROR}.
        decode_wire_frame (wire[0 := 56]) demo_poll = (e, demo_poll))"
  unfolding Let_def
  by (rule rs485_frame_corruption_detected [OF demo_poll_ok refl])
    (simp add: encode_raw_frame_eq [OF demo_poll_ok] frame_body_len [OF demo_poll_ok])

end
