(* ===== verification/Rs485_Hal.thy ===== *)
theory Rs485_Hal
  imports Ring Platform
begin

text \<open>
  The RS485 hardware layer (\<open>hal/rs485/rs485.c\<close>): half-duplex transmission with a time window
  in which the transmitter owns the bus, and a receive ring of 256 bytes between the UART
  driver and the readers. The UART and GPIO calls are the platform's. The timeout of
  \<open>uart_wait_tx_done\<close> is passed in milliseconds; its conversion to ticks belongs to the platform.
\<close>

section \<open>Model\<close>

definition RX_BUFFER_SIZE :: nat where "RX_BUFFER_SIZE = 256"
definition UART_RX_DRIVER_BUFFER_SIZE :: nat where "UART_RX_DRIVER_BUFFER_SIZE = 1024"
definition UART_NUM_MAX :: int where "UART_NUM_MAX = 3"

record rs485_config_t =
  cfg_uart_num :: int
  cfg_tx_pin :: int
  cfg_rx_pin :: int
  cfg_de_pin :: int
  cfg_re_pin :: int
  cfg_baudrate :: int
  cfg_auto_direction :: bool
  cfg_tx_guard_us :: u32
  cfg_rx_recovery_us :: u32
  cfg_tx_done_timeout_ms :: u32

record rs485_hal_metrics_t =
  hm_initialized :: bool
  hm_auto_direction :: bool
  hm_tx_bytes :: u32
  hm_rx_bytes :: u32
  hm_rx_dropped_bytes :: u32
  hm_tx_errors :: u32
  hm_last_tx_ms :: u32
  hm_last_rx_ms :: u32
  hm_rx_poll_calls :: u32
  hm_rx_chunks :: u32
  hm_max_rx_chunk :: u32
  hm_last_rx_chunk :: u32
  hm_rx_reads_while_tx_window :: u32

record rs485_tx_state_t =
  tx_active :: bool
  tx_release_deadline_us :: u64
  tx_rx_release_deadline_us :: u64
  tx_pending_len :: u16

record rs485_hal =
  hal_cfg :: rs485_config_t
  hal_metrics :: rs485_hal_metrics_t
  hal_driver_installed :: bool
  hal_de_pin_configured :: bool
  hal_re_pin_configured :: bool
  hal_rx_buffer :: bytes
  hal_rx_head :: u16
  hal_rx_tail :: u16
  hal_tx :: rs485_tx_state_t

definition zero_hal_metrics :: rs485_hal_metrics_t where
  "zero_hal_metrics = \<lparr>hm_initialized = False, hm_auto_direction = False, hm_tx_bytes = 0,
     hm_rx_bytes = 0, hm_rx_dropped_bytes = 0, hm_tx_errors = 0, hm_last_tx_ms = 0, hm_last_rx_ms = 0,
     hm_rx_poll_calls = 0, hm_rx_chunks = 0, hm_max_rx_chunk = 0, hm_last_rx_chunk = 0,
     hm_rx_reads_while_tx_window = 0\<rparr>"

definition idle_tx :: rs485_tx_state_t where
  "idle_tx = \<lparr>tx_active = False, tx_release_deadline_us = 0, tx_rx_release_deadline_us = 0,
     tx_pending_len = 0\<rparr>"

definition rs485_has_valid_uart :: "rs485_config_t \<Rightarrow> bool" where
  "rs485_has_valid_uart c \<longleftrightarrow> cfg_uart_num c \<ge> 0 \<and> cfg_uart_num c < UART_NUM_MAX"

definition rs485_has_valid_data_pins :: "rs485_config_t \<Rightarrow> bool" where
  "rs485_has_valid_data_pins c \<longleftrightarrow> cfg_tx_pin c \<ge> 0 \<and> cfg_rx_pin c \<ge> 0"

definition rs485_uses_external_direction :: "rs485_hal \<Rightarrow> bool" where
  "rs485_uses_external_direction h \<longleftrightarrow> \<not> cfg_auto_direction (hal_cfg h) \<and>
     (cfg_de_pin (hal_cfg h) \<ge> 0 \<or> cfg_re_pin (hal_cfg h) \<ge> 0)"

definition rs485_apply_defaults :: "rs485_config_t \<Rightarrow> rs485_config_t" where
  "rs485_apply_defaults c =
     (let c = (if cfg_auto_direction c then c\<lparr>cfg_de_pin := -1, cfg_re_pin := -1\<rparr> else c);
          c = (if cfg_tx_guard_us c = 0
               then c\<lparr>cfg_tx_guard_us := if cfg_auto_direction c then 3000 else 100\<rparr> else c);
          c = (if cfg_rx_recovery_us c = 0
               then c\<lparr>cfg_rx_recovery_us := if cfg_auto_direction c then 2000 else 0\<rparr> else c)
      in if cfg_tx_done_timeout_ms c = 0 then c\<lparr>cfg_tx_done_timeout_ms := 20\<rparr> else c)"

definition rs485_estimate_tx_time_us :: "rs485_hal \<Rightarrow> u16 \<Rightarrow> u32" where
  "rs485_estimate_tx_time_us h len =
     (if cfg_baudrate (hal_cfg h) \<le> 0 \<or> len = 0 then 0
      else let baud = word_of_int (cfg_baudrate (hal_cfg h)) :: u64;
               bits = (ucast len :: u64) * 10;
               us = (bits * 1000000 + baud - 1) div baud;
               us = us + ucast (cfg_tx_guard_us (hal_cfg h));
               us = (if us > 0xFFFFFFFF then 0xFFFFFFFF else us)
           in ucast us)"

definition rs485_set_tx_mode :: "'w platform \<Rightarrow> rs485_hal \<Rightarrow> 'w \<Rightarrow> 'w" where
  "rs485_set_tx_mode P h w =
     (if \<not> rs485_uses_external_direction h then w
      else let w = (if hal_re_pin_configured h then gpio_set_level P (cfg_re_pin (hal_cfg h)) 1 w else w)
           in if hal_de_pin_configured h then gpio_set_level P (cfg_de_pin (hal_cfg h)) 1 w else w)"

definition rs485_set_rx_mode :: "'w platform \<Rightarrow> rs485_hal \<Rightarrow> 'w \<Rightarrow> 'w" where
  "rs485_set_rx_mode P h w =
     (if \<not> rs485_uses_external_direction h then w
      else let w = (if hal_de_pin_configured h then gpio_set_level P (cfg_de_pin (hal_cfg h)) 0 w else w)
           in if hal_re_pin_configured h then gpio_set_level P (cfg_re_pin (hal_cfg h)) 0 w else w)"

definition rs485_tx_busy :: "rs485_hal \<Rightarrow> bool" where
  "rs485_tx_busy h = tx_active (hal_tx h)"

definition rs485_tx_service :: "'w platform \<Rightarrow> rs485_hal \<times> 'w \<Rightarrow> rs485_hal \<times> 'w" where
  "rs485_tx_service P = (\<lambda>(h, w).
     if \<not> hm_initialized (hal_metrics h) \<or> \<not> tx_active (hal_tx h) then (h, w)
     else case esp_timer_get_time P w of (now, w) \<Rightarrow>
       if now < tx_release_deadline_us (hal_tx h) then (h, w)
       else case uart_wait_tx_done P (cfg_uart_num (hal_cfg h)) (cfg_tx_done_timeout_ms (hal_cfg h)) w of
         (done, w) \<Rightarrow>
           if done = ESP_OK then (h\<lparr>hal_tx := idle_tx\<rparr>, rs485_set_rx_mode P h w)
           else if now \<ge> tx_release_deadline_us (hal_tx h) + ucast (cfg_tx_done_timeout_ms (hal_cfg h)) * 1000
           then (h\<lparr>hal_metrics := (hal_metrics h)\<lparr>hm_tx_errors := hm_tx_errors (hal_metrics h) + 1\<rparr>,
                   hal_tx := idle_tx\<rparr>, rs485_set_rx_mode P h w)
           else (h, w))"

text \<open>The pin mask of the direction pins.\<close>

definition rs485_pin_mask :: "rs485_config_t \<Rightarrow> u64" where
  "rs485_pin_mask c =
     (if cfg_de_pin c \<ge> 0 then push_bit (nat (cfg_de_pin c)) 1 else 0) OR
     (if cfg_re_pin c \<ge> 0 then push_bit (nat (cfg_re_pin c)) 1 else 0)"

text \<open>The end of the initialisation, once the pins are configured.\<close>

definition rs485_init_finish :: "'w platform \<Rightarrow> rs485_hal \<times> 'w \<Rightarrow> rs485_hal \<times> 'w" where
  "rs485_init_finish P = (\<lambda>(h, w).
     let w = uart_flush_input P (cfg_uart_num (hal_cfg h)) w
     in (h\<lparr>hal_metrics := (hal_metrics h)\<lparr>hm_initialized := True\<rparr>\<rparr>, w))"

definition rs485_init_direction :: "'w platform \<Rightarrow> rs485_hal \<times> 'w \<Rightarrow> rs485_hal \<times> 'w" where
  "rs485_init_direction P = (\<lambda>(h, w).
     if rs485_uses_external_direction h then
       (case (if rs485_pin_mask (hal_cfg h) \<noteq> 0
              then gpio_config P (rs485_pin_mask (hal_cfg h)) GPIO_MODE_OUTPUT w else (ESP_OK, w)) of
         (err, w) \<Rightarrow>
          if err \<noteq> ESP_OK then (h\<lparr>hal_driver_installed := False\<rparr>, uart_driver_delete P (cfg_uart_num (hal_cfg h)) w)
          else let h = h\<lparr>hal_de_pin_configured := cfg_de_pin (hal_cfg h) \<ge> 0,
                         hal_re_pin_configured := cfg_re_pin (hal_cfg h) \<ge> 0\<rparr>
               in rs485_init_finish P (h, rs485_set_rx_mode P h w))
     else rs485_init_finish P (h\<lparr>hal_de_pin_configured := False, hal_re_pin_configured := False\<rparr>, w))"

text \<open>The configuration is absent when the pointer is null.\<close>

definition rs485_init :: "'w platform \<Rightarrow> rs485_config_t option \<Rightarrow> rs485_hal \<times> 'w \<Rightarrow> rs485_hal \<times> 'w" where
  "rs485_init P config = (\<lambda>(h, w).
     case config of None \<Rightarrow> (h, w)
     | Some c \<Rightarrow>
       if \<not> rs485_has_valid_uart c \<or> \<not> rs485_has_valid_data_pins c \<or> cfg_baudrate c \<le> 0 then (h, w)
       else if hal_driver_installed h then (h, w)
       else let c = rs485_apply_defaults c;
                h = h\<lparr>hal_cfg := c, hal_metrics := zero_hal_metrics\<lparr>hm_auto_direction := cfg_auto_direction c\<rparr>,
                      hal_rx_head := 0, hal_rx_tail := 0, hal_tx := idle_tx\<rparr>
            in case uart_param_config P (cfg_uart_num c) (cfg_baudrate c) w of (err, w) \<Rightarrow>
               if err \<noteq> ESP_OK then (h, w)
               else case uart_set_pin P (cfg_uart_num c) (cfg_tx_pin c) (cfg_rx_pin c) w of (err, w) \<Rightarrow>
               if err \<noteq> ESP_OK then (h, w)
               else case uart_driver_install P (cfg_uart_num c) UART_RX_DRIVER_BUFFER_SIZE w of (err, w) \<Rightarrow>
               if err \<noteq> ESP_OK then (h, w)
               else let h = h\<lparr>hal_driver_installed := True\<rparr>
                    in case uart_set_mode P (cfg_uart_num c) w of (err, w) \<Rightarrow>
                       if err \<noteq> ESP_OK
                       then (h\<lparr>hal_driver_installed := False\<rparr>, uart_driver_delete P (cfg_uart_num c) w)
                       else rs485_init_direction P (h, w))"

definition rs485_send_bytes :: "'w platform \<Rightarrow> bytes \<Rightarrow> rs485_hal \<times> 'w \<Rightarrow> rs485_hal \<times> 'w" where
  "rs485_send_bytes P data = (\<lambda>(h, w).
     if \<not> hm_initialized (hal_metrics h) \<or> data = [] then (h, w)
     else case rs485_tx_service P (h, w) of (h, w) \<Rightarrow>
       if tx_active (hal_tx h)
       then (h\<lparr>hal_metrics := (hal_metrics h)\<lparr>hm_tx_errors := hm_tx_errors (hal_metrics h) + 1\<rparr>\<rparr>, w)
       else let w = rs485_set_tx_mode P h w in
         case uart_write_bytes P (cfg_uart_num (hal_cfg h)) data w of (written, w) \<Rightarrow>
         if written < 0
         then (h\<lparr>hal_metrics := (hal_metrics h)\<lparr>hm_tx_errors := hm_tx_errors (hal_metrics h) + 1\<rparr>\<rparr>,
               rs485_set_rx_mode P h w)
         else case esp_timer_get_time P w of (now_us, w) \<Rightarrow>
           let len = word_of_int written :: u16;
               release = now_us + ucast (rs485_estimate_tx_time_us h len)
           in (h\<lparr>hal_tx := \<lparr>tx_active = True, tx_release_deadline_us = release,
                   tx_rx_release_deadline_us = release + ucast (cfg_rx_recovery_us (hal_cfg h)),
                   tx_pending_len = len\<rparr>,
                 hal_metrics := (hal_metrics h)\<lparr>
                   hm_tx_bytes := hm_tx_bytes (hal_metrics h) + word_of_int written,
                   hm_last_tx_ms := ucast (now_us div 1000)\<rparr>\<rparr>, w))"

text \<open>One received byte goes into the ring or is counted as dropped.\<close>

definition rx_push :: "u8 \<Rightarrow> rs485_hal \<Rightarrow> bool \<times> rs485_hal" where
  "rx_push b h =
     (let next = (hal_rx_head h + 1) mod 256 in
      if next \<noteq> hal_rx_tail h
      then (True, h\<lparr>hal_rx_buffer := (hal_rx_buffer h)[unat (hal_rx_head h) := b], hal_rx_head := next\<rparr>)
      else (False, h))"

definition rx_store :: "u8 \<Rightarrow> rs485_hal \<Rightarrow> rs485_hal" where
  "rx_store b h =
     (case rx_push b h of (True, h') \<Rightarrow> h'
      | (False, _) \<Rightarrow> h\<lparr>hal_metrics := (hal_metrics h)\<lparr>hm_rx_dropped_bytes := hm_rx_dropped_bytes (hal_metrics h) + 1\<rparr>\<rparr>)"

definition rs485_poll_rx :: "'w platform \<Rightarrow> rs485_hal \<times> 'w \<Rightarrow> rs485_hal \<times> 'w" where
  "rs485_poll_rx P = (\<lambda>(h, w).
     if \<not> hm_initialized (hal_metrics h) then (h, w)
     else let h = h\<lparr>hal_metrics := (hal_metrics h)\<lparr>hm_rx_poll_calls := hm_rx_poll_calls (hal_metrics h) + 1\<rparr>\<rparr>
       in case esp_timer_get_time P w of (now_us, w) \<Rightarrow>
       if \<not> cfg_auto_direction (hal_cfg h) \<and> tx_active (hal_tx h) then (h, w)
       else if cfg_auto_direction (hal_cfg h) \<and> now_us < tx_rx_release_deadline_us (hal_tx h)
       then (h\<lparr>hal_metrics := (hal_metrics h)\<lparr>
              hm_rx_reads_while_tx_window := hm_rx_reads_while_tx_window (hal_metrics h) + 1\<rparr>\<rparr>, w)
       else case uart_get_buffered_data_len P (cfg_uart_num (hal_cfg h)) w of (err, buffered_len, w) \<Rightarrow>
       if err \<noteq> ESP_OK \<or> buffered_len = 0 then (h, w)
       else case uart_read_bytes P (cfg_uart_num (hal_cfg h)) (min buffered_len 64) w of (len, data, w) \<Rightarrow>
       if len \<le> 0 then (h, w)
       else let m = hal_metrics h;
                h = h\<lparr>hal_metrics := m\<lparr>hm_rx_chunks := hm_rx_chunks m + 1, hm_last_rx_chunk := word_of_int len,
                      hm_max_rx_chunk := (if word_of_int len > hm_max_rx_chunk m then word_of_int len
                                          else hm_max_rx_chunk m)\<rparr>\<rparr>;
                h = fold rx_store (take (nat len) data) h;
                h = h\<lparr>hal_metrics := (hal_metrics h)\<lparr>hm_rx_bytes := hm_rx_bytes (hal_metrics h) + word_of_int len\<rparr>\<rparr>
            in case esp_timer_get_time P w of (t, w) \<Rightarrow>
               (h\<lparr>hal_metrics := (hal_metrics h)\<lparr>hm_last_rx_ms := ucast (t div 1000)\<rparr>\<rparr>, w))"

definition rs485_available :: "'w platform \<Rightarrow> rs485_hal \<times> 'w \<Rightarrow> bool \<times> rs485_hal \<times> 'w" where
  "rs485_available P hw =
     (case rs485_poll_rx P (rs485_tx_service P hw) of (h, w) \<Rightarrow> (hal_rx_head h \<noteq> hal_rx_tail h, h, w))"

definition rx_pop :: "rs485_hal \<Rightarrow> (u8 \<times> rs485_hal) option" where
  "rx_pop h =
     (if hal_rx_head h \<noteq> hal_rx_tail h
      then Some (hal_rx_buffer h ! unat (hal_rx_tail h), h\<lparr>hal_rx_tail := (hal_rx_tail h + 1) mod 256\<rparr>)
      else None)"

definition rs485_read_byte :: "rs485_hal \<Rightarrow> u8 \<times> rs485_hal" where
  "rs485_read_byte h = (case rx_pop h of None \<Rightarrow> (0, h) | Some r \<Rightarrow> r)"

text \<open>The copy loop: at most \<open>n\<close> bytes leave the ring.\<close>

primrec rx_drain :: "nat \<Rightarrow> rs485_hal \<Rightarrow> bytes \<times> rs485_hal" where
  "rx_drain 0 h = ([], h)"
| "rx_drain (Suc n) h =
     (case rx_pop h of None \<Rightarrow> ([], h)
      | Some (b, h') \<Rightarrow> (case rx_drain n h' of (bs, h'') \<Rightarrow> (b # bs, h'')))"

definition rs485_read_bytes :: "'w platform \<Rightarrow> u16 \<Rightarrow> rs485_hal \<times> 'w \<Rightarrow> bytes \<times> rs485_hal \<times> 'w" where
  "rs485_read_bytes P max_len hw =
     (if max_len = 0 then ([], hw)
      else case rs485_poll_rx P (rs485_tx_service P hw) of (h, w) \<Rightarrow>
        (case rx_drain (unat max_len) h of (bs, h) \<Rightarrow> (bs, h, w)))"

definition rs485_read_frame :: "'w platform \<Rightarrow> int \<Rightarrow> rs485_hal \<times> 'w \<Rightarrow> bytes \<times> rs485_hal \<times> 'w" where
  "rs485_read_frame P max_len hw =
     (if max_len \<le> 0 then ([], hw) else rs485_read_bytes P (word_of_int max_len) hw)"

section \<open>The receive ring\<close>

definition hal_inv :: "rs485_hal \<Rightarrow> bool" where
  "hal_inv h \<longleftrightarrow> length (hal_rx_buffer h) = 256 \<and> unat (hal_rx_head h) < 256 \<and> unat (hal_rx_tail h) < 256"

definition rx_items :: "rs485_hal \<Rightarrow> bytes" where
  "rx_items h = ring_items (hal_rx_buffer h) (unat (hal_rx_head h)) (unat (hal_rx_tail h))"

lemma unat_mod256_succ: "unat (((x :: u16) + 1) mod 256) = Suc (unat x) mod 256"
  by (simp add: unat_mod_distrib unat_word_ariths mod_mod_cancel)

lemma succ256_eq_iff: "((x :: u16) + 1) mod 256 = y \<longleftrightarrow> Suc (unat x) mod 256 = unat y"
  by (metis unat_mod256_succ unat_eq_unat_iff)

lemmas hal_ring_defs = hal_inv_def rx_items_def

interpretation rx_ring: bounded_fifo rx_push rx_pop rx_items hal_inv 255
proof unfold_locales
  fix h b
  assume "hal_inv h" "length (rx_items h) < 255"
  then show "fst (rx_push b h) \<and> hal_inv (snd (rx_push b h)) \<and>
      rx_items (snd (rx_push b h)) = rx_items h @ [b]"
    using ring_full [of "unat (hal_rx_head h)" 256 "unat (hal_rx_tail h)"]
      ring_items_push [of "unat (hal_rx_head h)" "hal_rx_buffer h" "unat (hal_rx_tail h)" b]
    by (auto simp: rx_push_def hal_ring_defs Let_def succ256_eq_iff unat_mod256_succ)
next
  fix h b
  assume "hal_inv h" "255 \<le> length (rx_items h)"
  then show "rx_push b h = (False, h)"
    using ring_full [of "unat (hal_rx_head h)" 256 "unat (hal_rx_tail h)"]
      ring_len_less [of 256 "unat (hal_rx_head h)" "unat (hal_rx_tail h)"]
    by (simp add: rx_push_def hal_ring_defs Let_def succ256_eq_iff)
next
  fix h
  assume "hal_inv h"
  then show "rx_pop h = None \<longleftrightarrow> rx_items h = []"
    by (auto simp: rx_pop_def hal_ring_defs ring_items_empty)
next
  fix h h' b
  assume inv: "hal_inv h" and pop: "rx_pop h = Some (b, h')"
  from pop have "unat (hal_rx_head h) \<noteq> unat (hal_rx_tail h)" by (auto simp: rx_pop_def split: if_splits)
  with inv pop show "hal_inv h' \<and> rx_items h = b # rx_items h'"
    using ring_items_pop [of "unat (hal_rx_head h)" "hal_rx_buffer h" "unat (hal_rx_tail h)"]
    by (auto simp: rx_pop_def hal_ring_defs unat_mod256_succ split: if_splits)
next
  fix h
  assume "hal_inv h"
  then show "length (rx_items h) \<le> 255"
    using ring_len_less [of 256 "unat (hal_rx_head h)" "unat (hal_rx_tail h)"] by (simp add: hal_ring_defs)
qed

lemma rx_drain_eq: "rx_drain n h = rx_ring.drain n h"
  by (induction n arbitrary: h) (auto split: option.splits)

lemma rx_store_spec:
  assumes "hal_inv h"
  shows "hal_inv (rx_store b h) \<and>
    rx_items (rx_store b h) = take 255 (rx_items h @ [b]) \<and>
    hm_rx_dropped_bytes (hal_metrics (rx_store b h)) =
      hm_rx_dropped_bytes (hal_metrics h) + of_nat (length (rx_items h @ [b]) - 255)"
proof (cases "length (rx_items h) < 255")
  case True
  then have push: "rx_push b h = (True, snd (rx_push b h))"
    using rx_ring.push_ok [OF assms True, of b] by (metis prod.collapse)
  have "hal_metrics (snd (rx_push b h)) = hal_metrics h" by (simp add: rx_push_def Let_def)
  moreover have "rx_store b h = snd (rx_push b h)" by (subst rx_store_def, subst push) simp
  ultimately show ?thesis using rx_ring.push_ok [OF assms True, of b] True by simp
next
  case False
  then have full: "rx_push b h = (False, h)" "length (rx_items h) = 255"
    using rx_ring.push_full [OF assms, of b] rx_ring.bounded [OF assms] by auto
  then show ?thesis using assms by (simp add: rx_store_def hal_inv_def rx_items_def)
qed

text \<open>A chunk from the UART is appended as far as there is room; the rest is counted as dropped.\<close>

lemma rx_store_chunk:
  "hal_inv h \<Longrightarrow> hal_inv (fold rx_store bs h) \<and>
    rx_items (fold rx_store bs h) = take 255 (rx_items h @ bs) \<and>
    hm_rx_dropped_bytes (hal_metrics (fold rx_store bs h)) =
      hm_rx_dropped_bytes (hal_metrics h) + of_nat (length (rx_items h @ bs) - 255)"
proof (induction bs arbitrary: h)
  case Nil
  then show ?case using rx_ring.bounded [OF Nil] by simp
next
  case (Cons b bs)
  have le: "length (rx_items h) \<le> 255" using Cons.prems by (rule rx_ring.bounded)
  have step: "hal_inv (rx_store b h)" "rx_items (rx_store b h) = take 255 (rx_items h @ [b])"
    "hm_rx_dropped_bytes (hal_metrics (rx_store b h)) =
      hm_rx_dropped_bytes (hal_metrics h) + of_nat (length (rx_items h @ [b]) - 255)"
    using rx_store_spec [OF Cons.prems] by blast+
  have items: "take 255 (rx_items (rx_store b h) @ bs) = take 255 (rx_items h @ b # bs)"
    unfolding step(2) take_take_append by simp
  have "length (rx_items h @ [b]) - 255 + (length (rx_items (rx_store b h) @ bs) - 255)
      = length (rx_items h @ b # bs) - 255"
    using le by (simp add: step(2))
  then have "of_nat (length (rx_items h @ [b]) - 255) + of_nat (length (rx_items (rx_store b h) @ bs) - 255)
      = (of_nat (length (rx_items h @ b # bs) - 255) :: u32)"
    by (metis of_nat_add)
  with Cons.IH [OF step(1)] step(3) items show ?case by (simp add: add.assoc)
qed

section \<open>Properties\<close>

text \<open>
  Bytes that arrive are kept in order up to the 255 the ring can hold, every byte that does
  not fit is counted as dropped, and a read returns the oldest bytes and leaves the younger
  ones.
\<close>

theorem rs485_rx_ring_fifo:
  assumes "hal_inv h"
  shows "hal_inv (fold rx_store bs h) \<and>
    fst (rx_drain n (fold rx_store bs h)) = take n (take 255 (rx_items h @ bs)) \<and>
    rx_items (snd (rx_drain n (fold rx_store bs h))) = drop n (take 255 (rx_items h @ bs)) \<and>
    hm_rx_dropped_bytes (hal_metrics (fold rx_store bs h)) =
      hm_rx_dropped_bytes (hal_metrics h) + of_nat (length (rx_items h @ bs) - 255)"
proof -
  note chunk = rx_store_chunk [OF assms, of bs]
  then have "hal_inv (fold rx_store bs h)" by blast
  from rx_ring.drain_take [OF this, of n] chunk show ?thesis by (simp add: rx_drain_eq)
qed

definition demo_cfg :: rs485_config_t where
  "demo_cfg = \<lparr>cfg_uart_num = 2, cfg_tx_pin = 17, cfg_rx_pin = 16, cfg_de_pin = -1, cfg_re_pin = -1,
     cfg_baudrate = 115200, cfg_auto_direction = True, cfg_tx_guard_us = 3000,
     cfg_rx_recovery_us = 2000, cfg_tx_done_timeout_ms = 20\<rparr>"

definition demo_hal :: rs485_hal where
  "demo_hal = \<lparr>hal_cfg = demo_cfg, hal_metrics = zero_hal_metrics\<lparr>hm_initialized := True\<rparr>,
     hal_driver_installed = True, hal_de_pin_configured = False, hal_re_pin_configured = False,
     hal_rx_buffer = replicate 256 0, hal_rx_head = 0, hal_rx_tail = 0, hal_tx = idle_tx\<rparr>"

lemma demo_hal_inv: "hal_inv demo_hal"
  by (simp add: hal_inv_def demo_hal_def)

lemma demo_hal_items: "rx_items demo_hal = []"
  by (simp add: rx_items_def demo_hal_def ring_items_def ring_len_def)

text \<open>Three bytes in, two read.\<close>

theorem rs485_rx_ring_fifo_witness:
  "fst (rx_drain 2 (fold rx_store [60, 65, 62] demo_hal)) = [60, 65]"
  using rs485_rx_ring_fifo [OF demo_hal_inv, of "[60, 65, 62]" 2] by (simp add: demo_hal_items)

lemma unat_ucast_16_64: "unat (ucast (x :: u16) :: u64) = unat x"
proof -
  have "unat x < 18446744073709551616" using unat_u16_lt [of x] by linarith
  then show ?thesis by (simp add: unsigned_ucast_eq take_bit_nat_eq_self)
qed

lemma unat_u32_lt: "unat (x :: u32) < 4294967296"
proof -
  have "unat x < 2 ^ LENGTH(32)" by (rule unsigned_less)
  then show ?thesis by simp
qed

lemma unat_ucast_32_64: "unat (ucast (x :: u32) :: u64) = unat x"
proof -
  have "unat x < 18446744073709551616" using unat_u32_lt [of x] by linarith
  then show ?thesis by (simp add: unsigned_ucast_eq take_bit_nat_eq_self)
qed

text \<open>
  The estimated transmission time is exact: ten bit times per byte, rounded up to whole
  microseconds, plus the guard time, saturated at the 32-bit maximum; no intermediate value
  wraps for any configured positive baud rate.
\<close>

theorem rs485_tx_time_exact:
  assumes "0 < cfg_baudrate (hal_cfg h)" "cfg_baudrate (hal_cfg h) < 2 ^ 31" "len \<noteq> 0"
  shows "unat (rs485_estimate_tx_time_us h len) =
    min (2 ^ 32 - 1) ((unat len * 10000000 + nat (cfg_baudrate (hal_cfg h)) - 1) div nat (cfg_baudrate (hal_cfg h))
      + unat (cfg_tx_guard_us (hal_cfg h)))"
proof -
  let ?b = "nat (cfg_baudrate (hal_cfg h))"
  let ?baud = "word_of_int (cfg_baudrate (hal_cfg h)) :: u64"
  define x where "x = (ucast len :: u64) * 10 * 1000000"
  let ?us = "(x + ?baud - 1) div ?baud + ucast (cfg_tx_guard_us (hal_cfg h))"
  have b: "0 < ?b" "?b < 2147483648" using assms(1,2) by simp_all
  have baud: "unat ?baud = ?b"
  proof -
    have "?baud = of_nat ?b" using assms(1) by (simp add: of_nat_nat)
    moreover have "unat (of_nat ?b :: u64) = ?b" unfolding unat_of_nat using b by simp
    ultimately show ?thesis by metis
  qed
  note unat_u16_lt [simp del]
  have l: "unat len < 65536" by (rule unat_u16_lt)
  have m: "unat x = unat len * 10000000"
    using l by (simp add: x_def unat_word_ariths unat_ucast_16_64)
  have a: "unat (x + ?baud) = unat len * 10000000 + ?b"
    using l b by (simp add: unat_word_ariths(1) m baud)
  have s: "unat (x + ?baud - 1) = unat len * 10000000 + ?b - 1"
    using a b by (subst unat_sub) (simp_all add: word_le_nat_alt)
  have d: "unat ((x + ?baud - 1) div ?baud) = (unat len * 10000000 + ?b - 1) div ?b"
    by (simp add: unat_div_distrib s baud)
  have "(unat len * 10000000 + ?b - 1) div ?b \<le> unat len * 10000000 + ?b - 1" by (rule div_le_dividend)
  then have "(unat len * 10000000 + ?b - 1) div ?b + unat (cfg_tx_guard_us (hal_cfg h)) < 18446744073709551616"
    using l b unat_u32_lt [of "cfg_tx_guard_us (hal_cfg h)"] by linarith
  then have us: "unat ?us = (unat len * 10000000 + ?b - 1) div ?b + unat (cfg_tx_guard_us (hal_cfg h))"
    by (simp add: unat_word_ariths(1) d unat_ucast_32_64)
  have sat: "unat (ucast (if x > 0xFFFFFFFF then 0xFFFFFFFF else x) :: u32) = min (2 ^ 32 - 1) (unat x)" for x :: u64
    by (simp add: word_less_nat_alt unsigned_ucast_eq take_bit_nat_eq_self min_def)
  have "rs485_estimate_tx_time_us h len = ucast (if ?us > 0xFFFFFFFF then 0xFFFFFFFF else ?us)"
    using assms(1,3) by (simp add: rs485_estimate_tx_time_us_def Let_def x_def)
  with sat [of ?us] us show ?thesis by simp
qed

text \<open>A 16-byte frame at 115200 baud: 1389 microseconds and the guard time.\<close>

theorem rs485_tx_time_exact_witness: "unat (rs485_estimate_tx_time_us demo_hal 16) = 4389"
  using rs485_tx_time_exact [of demo_hal 16] by (simp add: demo_hal_def demo_cfg_def)

text \<open>
  The transmitter keeps the bus until its release time and gives it back after it: before
  the deadline the service changes nothing; from the deadline on, once the UART reports the end
  of the transmission or the timeout has passed as well, the transmitter is idle, the bus is in
  receive mode and a new frame can be sent. The release also clears the receive deadline, so
  from that call on the receiver is read without waiting for the configured recovery time.
\<close>

theorem rs485_tx_release:
  assumes "hm_initialized (hal_metrics h)" "tx_active (hal_tx h)"
    and "esp_timer_get_time P w = (now, w1)"
    and "uart_wait_tx_done P (cfg_uart_num (hal_cfg h)) (cfg_tx_done_timeout_ms (hal_cfg h)) w1 = (done, w2)"
  shows "(now < tx_release_deadline_us (hal_tx h) \<longrightarrow> rs485_tx_service P (h, w) = (h, w1)) \<and>
    (now \<ge> tx_release_deadline_us (hal_tx h) \<and>
      (done = ESP_OK \<or>
       now \<ge> tx_release_deadline_us (hal_tx h) + ucast (cfg_tx_done_timeout_ms (hal_cfg h)) * 1000) \<longrightarrow>
     (let (h', w') = rs485_tx_service P (h, w) in
        \<not> rs485_tx_busy h' \<and> tx_rx_release_deadline_us (hal_tx h') = 0 \<and>
        rx_items h' = rx_items h \<and> w' = rs485_set_rx_mode P h w2))"
  using assms
  by (auto simp: rs485_tx_service_def rs485_tx_busy_def idle_tx_def rx_items_def Let_def not_less)

text \<open>A transmission whose deadline has passed on the simulated platform.\<close>

definition sending_hal :: rs485_hal where
  "sending_hal = demo_hal\<lparr>hal_tx := \<lparr>tx_active = True, tx_release_deadline_us = 1000,
     tx_rx_release_deadline_us = 3000000, tx_pending_len = 16\<rparr>\<rparr>"

theorem rs485_tx_release_witness:
  "\<not> rs485_tx_busy (fst (rs485_tx_service sim_platform (sending_hal, sim_init))) \<and>
   tx_rx_release_deadline_us (hal_tx (fst (rs485_tx_service sim_platform (sending_hal, sim_init)))) = 0"
  using rs485_tx_release [of sending_hal sim_platform sim_init 1000000 sim_init ESP_OK sim_init]
  by (simp add: sending_hal_def demo_hal_def sim_simps case_prod_unfold Let_def)

text \<open>Reading a short burst from the UART of the simulated platform.\<close>

lemma demo_read:
  assumes "bs \<noteq> []" "length bs \<le> 16"
  shows "\<exists>h w. rs485_read_bytes sim_platform 16 (demo_hal, sim_init\<lparr>sim_rx := bs\<rparr>) = (bs, h, w)"
proof -
  let ?w = "sim_init\<lparr>sim_rx := bs\<rparr>"
  obtain h w where poll: "rs485_poll_rx sim_platform (demo_hal, ?w) = (h, w)" by fastforce
  let ?m = "(hal_metrics demo_hal)\<lparr>hm_rx_poll_calls := 1, hm_rx_chunks := 1,
      hm_last_rx_chunk := of_nat (length bs), hm_max_rx_chunk := of_nat (length bs)\<rparr>"
  have pos: "(0 :: u32) < of_nat (length bs)"
  proof -
    have "unat (of_nat (length bs) :: u32) = length bs" using assms(2) by simp
    then show ?thesis using assms(1) by (simp add: word_less_nat_alt)
  qed
  have "rx_items h = rx_items (fold rx_store bs (demo_hal\<lparr>hal_metrics := ?m\<rparr>)) \<and>
      hal_inv h = hal_inv (fold rx_store bs (demo_hal\<lparr>hal_metrics := ?m\<rparr>))"
    using poll assms pos
    by (auto simp: rs485_poll_rx_def demo_hal_def demo_cfg_def zero_hal_metrics_def sim_simps idle_tx_def
        rx_items_def hal_inv_def min_def Let_def)
  moreover have "hal_inv (demo_hal\<lparr>hal_metrics := ?m\<rparr>)" "rx_items (demo_hal\<lparr>hal_metrics := ?m\<rparr>) = []"
    using demo_hal_inv demo_hal_items by (simp_all add: hal_inv_def rx_items_def)
  ultimately have h: "hal_inv h" "rx_items h = bs"
    using rx_store_chunk [of "demo_hal\<lparr>hal_metrics := ?m\<rparr>" bs] assms(2) by auto
  have "rs485_tx_service sim_platform (demo_hal, ?w) = (demo_hal, ?w)"
    by (simp add: rs485_tx_service_def demo_hal_def idle_tx_def)
  moreover have "fst (rx_drain 16 h) = bs"
    using rx_ring.drain_take [OF h(1), of 16] h(2) assms(2) by (simp add: rx_drain_eq)
  ultimately show ?thesis by (cases "rx_drain 16 h") (simp add: rs485_read_bytes_def poll)
qed

end
