(* ===== verification/Node_Identity.thy ===== *)
theory Node_Identity
  imports Platform
begin

text \<open>
  The node identity (\<open>cluster/node_identity/node_identity.c\<close>): a 32-bit id from the last four
  bytes of the MAC address, 0 when the address cannot be read.
\<close>

definition mac_to_id :: "bytes \<Rightarrow> u32" where
  "mac_to_id mac = 0 OR push_bit 24 (ucast (mac ! 2)) OR push_bit 16 (ucast (mac ! 3)) OR
     push_bit 8 (ucast (mac ! 4)) OR ucast (mac ! 5)"

definition node_identity_init :: "'w platform \<Rightarrow> 'w \<Rightarrow> u32 \<times> 'w" where
  "node_identity_init P w =
     (case esp_read_mac P w of (err, mac, w) \<Rightarrow>
        if err \<noteq> ESP_OK then (0, w) else (mac_to_id mac, w))"

definition node_identity_get :: "u32 \<Rightarrow> u32" where
  "node_identity_get node_id = node_id"

text \<open>Two addresses that differ in their last four bytes give different ids.\<close>

lemma mac_to_id_byte:
  "ucast (mac_to_id mac) = mac ! 5" "ucast (drop_bit 8 (mac_to_id mac)) = mac ! 4"
  "ucast (drop_bit 16 (mac_to_id mac)) = mac ! 3" "ucast (drop_bit 24 (mac_to_id mac)) = mac ! 2"
  unfolding mac_to_id_def
  by (rule bit_word_eqI, auto simp: bit_simps dest: bit_imp_le_length)+

lemma mac_to_id_inject:
  "mac_to_id a = mac_to_id b \<longleftrightarrow> a ! 2 = b ! 2 \<and> a ! 3 = b ! 3 \<and> a ! 4 = b ! 4 \<and> a ! 5 = b ! 5"
proof
  assume "mac_to_id a = mac_to_id b"
  then show "a ! 2 = b ! 2 \<and> a ! 3 = b ! 3 \<and> a ! 4 = b ! 4 \<and> a ! 5 = b ! 5"
    by (metis mac_to_id_byte)
qed (simp add: mac_to_id_def)

end
