(* ===== verification/Rs485_Engine.thy ===== *)
theory Rs485_Engine
  imports Rs485_Frame Rs485_Hal Node_Identity
begin

text \<open>
  The RS485 engine (\<open>runtime/rs485_engine/rs485_engine.c\<close>): it turns received bytes into frames,
  answers polls that address this node, keeps a liveness table of the 64 nodes of the bus and
  sends frames. Its state, the parser's, the hardware layer's and the node identity are the
  fields of one record, with the world of the platform. A callback for cluster frames is a
  number; what calling it does is the parameter \<open>call\<close>.
\<close>

section \<open>Model\<close>

definition RS485_ENGINE_MAX_NODES :: nat where "RS485_ENGINE_MAX_NODES = 64"
definition RS485_ENGINE_RX_BYTES_PER_CALL :: nat where "RS485_ENGINE_RX_BYTES_PER_CALL = 16"
definition RS485_ENGINE_TIMEOUT_US :: u64 where "RS485_ENGINE_TIMEOUT_US = 100000"
definition RS485_ENGINE_SELF_TEST_NODE_ID :: u8 where "RS485_ENGINE_SELF_TEST_NODE_ID = 1"
definition RS485_ENGINE_SELF_TEST_ACK_DELAY_US :: u64 where "RS485_ENGINE_SELF_TEST_ACK_DELAY_US = 500"

datatype node_state_t = NODE_STATE_UNKNOWN | NODE_STATE_ONLINE | NODE_STATE_OFFLINE

record node_entry_t =
  ne_state :: node_state_t
  ne_last_seen_us :: u64
  ne_retry :: u8

record rs485_engine_metrics_t =
  em_enabled :: bool
  em_self_test_enabled :: bool
  em_self_test_active :: bool
  em_tx_count :: u32
  em_tx_bytes :: u32
  em_rx_count :: u32
  em_rx_bytes :: u32
  em_crc_error_count :: u32
  em_format_error_count :: u32
  em_last_tx_ms :: u32
  em_last_rx_ms :: u32

record rs485_engine =
  en_nodes :: "node_entry_t list"
  en_metrics :: rs485_engine_metrics_t
  en_enabled :: bool
  en_self_test_enabled :: bool
  en_self_test_pending :: bool
  en_self_test_wire :: bytes
  en_self_test_ready_us :: u64
  en_local_node_id :: u8
  en_external_frame_cb :: "nat option"
  en_ack_pending :: bool
  en_pending_ack_frame :: rs485_frame_t

record 'w rs485_sys =
  rs_engine :: rs485_engine
  rs_parser :: parser
  rs_hal :: rs485_hal
  rs_node_id :: u32
  rs_world :: 'w

definition zero_engine_metrics :: rs485_engine_metrics_t where
  "zero_engine_metrics = \<lparr>em_enabled = False, em_self_test_enabled = False, em_self_test_active = False,
     em_tx_count = 0, em_tx_bytes = 0, em_rx_count = 0, em_rx_bytes = 0, em_crc_error_count = 0,
     em_format_error_count = 0, em_last_tx_ms = 0, em_last_rx_ms = 0\<rparr>"

definition zero_frame :: rs485_frame_t where
  "zero_frame = \<lparr>fr_node = 0, fr_msg_id = 0, fr_type = 0, fr_len = 0,
     fr_payload = replicate RS485_FRAME_MAX_PAYLOAD 0\<rparr>"

definition rs485_engine_compute_local_node_id :: "u32 \<Rightarrow> u8" where
  "rs485_engine_compute_local_node_id uid =
     (let node_id = ucast (uid mod 64 + 1) :: u8 in if node_id = 0 then 1 else node_id)"

definition rs485_engine_local_node_id :: "'w platform \<Rightarrow> 'w rs485_sys \<Rightarrow> u8 \<times> 'w rs485_sys" where
  "rs485_engine_local_node_id P s =
     (if en_local_node_id (rs_engine s) = 0
      then (case node_identity_init P (rs_world s) of (nid, w) \<Rightarrow>
        let node = rs485_engine_compute_local_node_id (node_identity_get nid)
        in (node, s\<lparr>rs_engine := (rs_engine s)\<lparr>en_local_node_id := node\<rparr>, rs_node_id := nid, rs_world := w\<rparr>))
      else (en_local_node_id (rs_engine s), s))"

definition rs485_engine_should_reply_to_poll ::
  "'w platform \<Rightarrow> rs485_frame_t \<Rightarrow> 'w rs485_sys \<Rightarrow> bool \<times> 'w rs485_sys" where
  "rs485_engine_should_reply_to_poll P frame s =
     (if fr_type frame \<noteq> RS485_FRAME_TYPE_POLL then (False, s)
      else if fr_len frame \<noteq> 0 then (False, s)
      else case rs485_engine_local_node_id P s of (node, s) \<Rightarrow> (fr_node frame = node, s))"

definition rs485_engine_feed_parser_bounded :: "bytes \<Rightarrow> 'w rs485_sys \<Rightarrow> 'w rs485_sys" where
  "rs485_engine_feed_parser_bounded bs s =
     s\<lparr>rs_parser := snd (parser_feed (take RS485_ENGINE_RX_BYTES_PER_CALL bs) (rs_parser s))\<rparr>"

definition rs485_engine_init :: "'w platform \<Rightarrow> 'w rs485_sys \<Rightarrow> 'w rs485_sys" where
  "rs485_engine_init P s =
     (case node_identity_init P (rs_world s) of (nid, w) \<Rightarrow>
      let en = rs_engine s in
      s\<lparr>rs_engine := en\<lparr>
          en_nodes := replicate RS485_ENGINE_MAX_NODES
            \<lparr>ne_state = NODE_STATE_UNKNOWN, ne_last_seen_us = 0, ne_retry = 0\<rparr>,
          en_metrics := zero_engine_metrics\<lparr>em_self_test_enabled := en_self_test_enabled en\<rparr>,
          en_local_node_id := rs485_engine_compute_local_node_id (node_identity_get nid),
          en_ack_pending := False, en_pending_ack_frame := zero_frame,
          en_self_test_pending := False, en_self_test_wire := [], en_self_test_ready_us := 0\<rparr>,
        rs_parser := parser_init (rs_parser s), rs_node_id := nid, rs_world := w\<rparr>)"

definition rs485_engine_enable :: "rs485_engine \<Rightarrow> rs485_engine" where
  "rs485_engine_enable en = en\<lparr>en_enabled := True, en_metrics := (en_metrics en)\<lparr>em_enabled := True\<rparr>\<rparr>"

definition rs485_engine_disable :: "rs485_engine \<Rightarrow> rs485_engine" where
  "rs485_engine_disable en = en\<lparr>en_enabled := False, en_ack_pending := False,
     en_metrics := (en_metrics en)\<lparr>em_enabled := False, em_self_test_active := False\<rparr>\<rparr>"

definition rs485_engine_set_self_test :: "bool \<Rightarrow> rs485_engine \<Rightarrow> rs485_engine" where
  "rs485_engine_set_self_test enabled en = en\<lparr>en_self_test_enabled := enabled,
     en_self_test_pending := False, en_self_test_wire := [], en_self_test_ready_us := 0,
     en_metrics := (en_metrics en)\<lparr>em_self_test_enabled := enabled, em_self_test_active := False\<rparr>\<rparr>"

definition rs485_engine_self_test_enabled :: "rs485_engine \<Rightarrow> bool" where
  "rs485_engine_self_test_enabled en = en_self_test_enabled en"

definition rs485_engine_register_external_frame_callback :: "nat option \<Rightarrow> rs485_engine \<Rightarrow> rs485_engine" where
  "rs485_engine_register_external_frame_callback cb en = en\<lparr>en_external_frame_cb := cb\<rparr>"

definition rs485_engine_node_state :: "rs485_engine \<Rightarrow> u8 \<Rightarrow> node_state_t" where
  "rs485_engine_node_state en node_id =
     (if unat (node_id - 1) \<ge> RS485_ENGINE_MAX_NODES then NODE_STATE_UNKNOWN
      else ne_state (en_nodes en ! unat (node_id - 1)))"

definition rs485_engine_node_online :: "rs485_engine \<Rightarrow> u8 \<Rightarrow> bool" where
  "rs485_engine_node_online en node_id =
     (if unat (node_id - 1) \<ge> RS485_ENGINE_MAX_NODES then False
      else ne_state (en_nodes en ! unat (node_id - 1)) = NODE_STATE_ONLINE)"

text \<open>A node was heard at time \<open>now\<close>.\<close>

definition mark_seen :: "u8 \<Rightarrow> u64 \<Rightarrow> rs485_engine \<Rightarrow> rs485_engine" where
  "mark_seen node_id now en = en\<lparr>en_nodes := (en_nodes en)[unat (node_id - 1) :=
     \<lparr>ne_state = NODE_STATE_ONLINE, ne_last_seen_us = now, ne_retry = 0\<rparr>]\<rparr>"

definition rs485_engine_on_ack :: "'w platform \<Rightarrow> u8 \<Rightarrow> 'w rs485_sys \<Rightarrow> 'w rs485_sys" where
  "rs485_engine_on_ack P node_id s =
     (if unat (node_id - 1) \<ge> RS485_ENGINE_MAX_NODES then s
      else case esp_timer_get_time P (rs_world s) of (now, w) \<Rightarrow>
        s\<lparr>rs_engine := mark_seen node_id now (rs_engine s), rs_world := w\<rparr>)"

definition rs485_engine_send :: "'w platform \<Rightarrow> rs485_frame_t \<Rightarrow> 'w rs485_sys \<Rightarrow> 'w rs485_sys" where
  "rs485_engine_send P frame s =
     (if \<not> en_enabled (rs_engine s) then s
      else case esp_timer_get_time P (rs_world s) of (t, w) \<Rightarrow>
        let now_ms = ucast (t div 1000) :: u32; s = s\<lparr>rs_world := w\<rparr>; en = rs_engine s; m = en_metrics en
        in if en_self_test_enabled en \<and> fr_type frame = RS485_FRAME_TYPE_POLL \<and>
              fr_node frame = RS485_ENGINE_SELF_TEST_NODE_ID
           then let ack = \<lparr>fr_node = fr_node frame, fr_msg_id = fr_msg_id frame, fr_type = RS485_FRAME_TYPE_ACK,
                      fr_len = 0, fr_payload = replicate RS485_FRAME_MAX_PAYLOAD 0\<rparr>;
                    wire = encode_wire_frame ack RS485_FRAME_WIRE_MAX
                in case esp_timer_get_time P (rs_world s) of (t, w) \<Rightarrow>
                   s\<lparr>rs_engine := en\<lparr>en_self_test_wire := wire,
                        en_self_test_ready_us := t + RS485_ENGINE_SELF_TEST_ACK_DELAY_US,
                        en_self_test_pending := wire \<noteq> [],
                        en_metrics := m\<lparr>em_tx_count := em_tx_count m + 1,
                          em_tx_bytes := em_tx_bytes m + of_nat (length wire),
                          em_last_tx_ms := now_ms, em_self_test_active := wire \<noteq> []\<rparr>\<rparr>,
                     rs_world := w\<rparr>
           else let wire = encode_wire_frame frame RS485_FRAME_WIRE_MAX
                in if wire = [] then s
                   else case rs485_send_bytes P wire (rs_hal s, rs_world s) of (h, w) \<Rightarrow>
                     s\<lparr>rs_engine := en\<lparr>en_metrics := m\<lparr>em_tx_count := em_tx_count m + 1,
                            em_tx_bytes := em_tx_bytes m + of_nat (length wire), em_last_tx_ms := now_ms\<rparr>\<rparr>,
                       rs_hal := h, rs_world := w\<rparr>)"

definition expire_node :: "u64 \<Rightarrow> node_entry_t \<Rightarrow> node_entry_t" where
  "expire_node now e =
     (if ne_state e \<noteq> NODE_STATE_ONLINE then e
      else if now - ne_last_seen_us e > RS485_ENGINE_TIMEOUT_US
      then e\<lparr>ne_state := NODE_STATE_OFFLINE\<rparr> else e)"

definition rs485_engine_tick_1ms :: "'w platform \<Rightarrow> 'w rs485_sys \<Rightarrow> 'w rs485_sys" where
  "rs485_engine_tick_1ms P s =
     (if \<not> en_enabled (rs_engine s) then s
      else let s = (if en_ack_pending (rs_engine s)
                    then rs485_engine_send P (en_pending_ack_frame (rs_engine s))
                           (s\<lparr>rs_engine := (rs_engine s)\<lparr>en_ack_pending := False\<rparr>\<rparr>)
                    else s)
           in case esp_timer_get_time P (rs_world s) of (now, w) \<Rightarrow>
              s\<lparr>rs_engine := (rs_engine s)\<lparr>en_nodes := map (expire_node now) (en_nodes (rs_engine s))\<rparr>,
                rs_world := w\<rparr>)"

text \<open>The first part of the receive function: feed the parser from the self test and from the bus.\<close>

definition receive_feed :: "'w platform \<Rightarrow> 'w rs485_sys \<Rightarrow> 'w rs485_sys" where
  "receive_feed P s =
     (let s = (if en_self_test_enabled (rs_engine s) \<and> en_self_test_pending (rs_engine s)
               then (case esp_timer_get_time P (rs_world s) of (now, w) \<Rightarrow>
                 let s = s\<lparr>rs_world := w\<rparr> in
                 if now \<ge> en_self_test_ready_us (rs_engine s)
                 then let s = rs485_engine_feed_parser_bounded (en_self_test_wire (rs_engine s)) s in
                   if parser_frame_available (rs_parser s)
                   then s\<lparr>rs_engine := (rs_engine s)\<lparr>en_self_test_pending := False, en_self_test_wire := [],
                            en_metrics := (en_metrics (rs_engine s))\<lparr>em_self_test_active := False\<rparr>\<rparr>\<rparr>
                   else s
                 else s)
               else s)
      in case rs485_read_bytes P (of_nat RS485_ENGINE_RX_BYTES_PER_CALL) (rs_hal s, rs_world s) of
           (chunk, h, w) \<Rightarrow>
           s\<lparr>rs_hal := h, rs_world := w, rs_parser := snd (parser_feed chunk (rs_parser s))\<rparr>)"

text \<open>The statistics after decoding.\<close>

definition count_result ::
  "'w platform \<Rightarrow> rs485_engine_rx_result_t \<Rightarrow> nat \<Rightarrow> 'w rs485_sys \<Rightarrow> 'w rs485_sys" where
  "count_result P r wire_len s =
     (let m = en_metrics (rs_engine s) in
      case r of
        RS485_ENGINE_RX_FRAME \<Rightarrow>
          (case esp_timer_get_time P (rs_world s) of (t, w) \<Rightarrow>
             s\<lparr>rs_engine := (rs_engine s)\<lparr>en_metrics := m\<lparr>em_rx_count := em_rx_count m + 1,
                  em_rx_bytes := em_rx_bytes m + of_nat wire_len, em_last_rx_ms := ucast (t div 1000)\<rparr>\<rparr>,
               rs_world := w\<rparr>)
      | RS485_ENGINE_RX_CRC_ERROR \<Rightarrow>
          s\<lparr>rs_engine := (rs_engine s)\<lparr>en_metrics := m\<lparr>em_crc_error_count := em_crc_error_count m + 1\<rparr>\<rparr>\<rparr>
      | RS485_ENGINE_RX_FORMAT_ERROR \<Rightarrow>
          s\<lparr>rs_engine := (rs_engine s)\<lparr>en_metrics := m\<lparr>em_format_error_count := em_format_error_count m + 1\<rparr>\<rparr>\<rparr>
      | RS485_ENGINE_RX_NONE \<Rightarrow> s)"

text \<open>A decoded frame is a poll to answer, a cluster frame for the callback, or the caller's.\<close>

definition handle_frame ::
  "(nat \<Rightarrow> rs485_frame_t \<Rightarrow> 'w rs485_sys \<Rightarrow> 'w rs485_sys) \<Rightarrow> 'w platform \<Rightarrow> rs485_frame_t \<Rightarrow>
   'w rs485_sys \<Rightarrow> rs485_engine_rx_result_t \<times> 'w rs485_sys" where
  "handle_frame call P frame s =
     (case rs485_engine_should_reply_to_poll P frame s of (reply, s) \<Rightarrow>
      if reply
      then (RS485_ENGINE_RX_NONE, s\<lparr>rs_engine := (rs_engine s)\<lparr>
              en_pending_ack_frame := (en_pending_ack_frame (rs_engine s))\<lparr>fr_node := fr_node frame,
                fr_msg_id := fr_msg_id frame, fr_type := RS485_FRAME_TYPE_ACK, fr_len := 0\<rparr>,
              en_ack_pending := True\<rparr>\<rparr>)
      else if fr_type frame = RS485_FRAME_TYPE_CLUSTER_HEARTBEAT \<or> fr_type frame = RS485_FRAME_TYPE_CLUSTER_FRAME
      then let s = (if fr_node frame \<noteq> 0 \<and> unat (fr_node frame - 1) < RS485_ENGINE_MAX_NODES
                    then (case esp_timer_get_time P (rs_world s) of (now, w) \<Rightarrow>
                      s\<lparr>rs_engine := mark_seen (fr_node frame) now (rs_engine s), rs_world := w\<rparr>)
                    else s)
           in (RS485_ENGINE_RX_NONE,
               case en_external_frame_cb (rs_engine s) of None \<Rightarrow> s | Some cb \<Rightarrow> call cb frame s)
      else (RS485_ENGINE_RX_FRAME, s))"

definition rs485_engine_receive ::
  "(nat \<Rightarrow> rs485_frame_t \<Rightarrow> 'w rs485_sys \<Rightarrow> 'w rs485_sys) \<Rightarrow> 'w platform \<Rightarrow> rs485_frame_t \<Rightarrow>
   'w rs485_sys \<Rightarrow> rs485_engine_rx_result_t \<times> rs485_frame_t \<times> 'w rs485_sys" where
  "rs485_engine_receive call P frame s =
     (let s = receive_feed P s in
      if \<not> parser_frame_available (rs_parser s) then (RS485_ENGINE_RX_NONE, frame, s)
      else case parser_get_frame (int RS485_FRAME_WIRE_MAX) (rs_parser s) of (wire, p) \<Rightarrow>
        let s = s\<lparr>rs_parser := p\<rparr> in
        if wire = []
        then (RS485_ENGINE_RX_FORMAT_ERROR, frame, count_result P RS485_ENGINE_RX_FORMAT_ERROR 0 s)
        else case decode_wire_frame wire frame of (r, frame) \<Rightarrow>
          let s = count_result P r (length wire) s in
          if r = RS485_ENGINE_RX_FRAME
          then (case handle_frame call P frame s of (r, s) \<Rightarrow> (r, frame, s))
          else (r, frame, s))"

definition rs485_engine_get_metrics :: "rs485_engine \<Rightarrow> rs485_engine_metrics_t \<times> rs485_engine" where
  "rs485_engine_get_metrics en =
     (let m = (en_metrics en)\<lparr>em_enabled := en_enabled en, em_self_test_enabled := en_self_test_enabled en,
                em_self_test_active := en_self_test_pending en\<rparr>
      in (m, en\<lparr>en_metrics := m\<rparr>))"

section \<open>Properties\<close>

lemma local_node_id_range:
  "0 < unat (rs485_engine_compute_local_node_id uid) \<and> unat (rs485_engine_compute_local_node_id uid) \<le> 64"
proof -
  have m: "unat (uid mod 64) < 64" by (simp add: unat_mod_distrib)
  then have "unat (uid mod 64 + 1) = unat (uid mod 64) + 1" by (simp add: unat_word_ariths)
  then have "unat (ucast (uid mod 64 + 1) :: u8) = unat (uid mod 64) + 1"
    using m by (simp add: unsigned_ucast_eq take_bit_nat_eq_self)
  with m show ?thesis by (auto simp: rs485_engine_compute_local_node_id_def Let_def)
qed

text \<open>
  Liveness supervision of the bus nodes. After a tick at time \<open>now\<close> every node that is
  still online was heard within the last 100 ms, a node that was online and silent for longer
  is offline, no node comes online by a tick, and the table keeps its size.
\<close>

theorem rs485_engine_tick_supervises:
  assumes "en_enabled (rs_engine s)" "\<not> en_ack_pending (rs_engine s)"
    and "esp_timer_get_time P (rs_world s) = (now, w)" "i < length (en_nodes (rs_engine s))"
  shows "let e = en_nodes (rs_engine s) ! i; e' = en_nodes (rs_engine (rs485_engine_tick_1ms P s)) ! i in
    (ne_state e' = NODE_STATE_ONLINE \<longleftrightarrow>
       ne_state e = NODE_STATE_ONLINE \<and> now - ne_last_seen_us e \<le> RS485_ENGINE_TIMEOUT_US) \<and>
    (ne_state e = NODE_STATE_ONLINE \<and> now - ne_last_seen_us e > RS485_ENGINE_TIMEOUT_US \<longrightarrow>
       ne_state e' = NODE_STATE_OFFLINE) \<and>
    (ne_state e \<noteq> NODE_STATE_ONLINE \<longrightarrow> e' = e) \<and>
    ne_last_seen_us e' = ne_last_seen_us e \<and>
    length (en_nodes (rs_engine (rs485_engine_tick_1ms P s))) = length (en_nodes (rs_engine s))"
  using assms by (auto simp: rs485_engine_tick_1ms_def expire_node_def Let_def not_less)

text \<open>The engine on the simulated platform, with node 3 heard 200 ms ago.\<close>

definition demo_engine :: rs485_engine where
  "demo_engine = \<lparr>en_nodes = (replicate 64 \<lparr>ne_state = NODE_STATE_UNKNOWN, ne_last_seen_us = 0, ne_retry = 0\<rparr>)
       [2 := \<lparr>ne_state = NODE_STATE_ONLINE, ne_last_seen_us = 800000, ne_retry = 0\<rparr>],
     en_metrics = zero_engine_metrics, en_enabled = True, en_self_test_enabled = False,
     en_self_test_pending = False, en_self_test_wire = [], en_self_test_ready_us = 0,
     en_local_node_id = 7, en_external_frame_cb = None, en_ack_pending = False,
     en_pending_ack_frame = zero_frame\<rparr>"

definition demo_rs485 :: "sim_world rs485_sys" where
  "demo_rs485 = \<lparr>rs_engine = demo_engine, rs_parser = idle_parser, rs_hal = demo_hal, rs_node_id = 6,
     rs_world = sim_init\<rparr>"

theorem rs485_engine_tick_supervises_witness:
  "rs485_engine_node_state (rs_engine (rs485_engine_tick_1ms sim_platform demo_rs485)) 3 = NODE_STATE_OFFLINE"
  using rs485_engine_tick_supervises [of demo_rs485 sim_platform 1000000 "sim_init" 2]
  by (simp add: demo_rs485_def demo_engine_def sim_simps Let_def rs485_engine_node_state_def
      RS485_ENGINE_MAX_NODES_def RS485_ENGINE_TIMEOUT_US_def)

section \<open>Receiving\<close>

lemma receive_feed_bus:
  assumes "\<not> en_self_test_pending (rs_engine s)"
    and "rs485_read_bytes P (of_nat RS485_ENGINE_RX_BYTES_PER_CALL) (rs_hal s, rs_world s) = (chunk, h, w)"
  shows "receive_feed P s =
    s\<lparr>rs_hal := h, rs_world := w, rs_parser := snd (parser_feed chunk (rs_parser s))\<rparr>"
  using assms by (simp add: receive_feed_def Let_def)

text \<open>
  Only the first frame of a chunk read from the bus is used. When the 16-byte chunk has
  bytes after the end of a frame, they have left the receive ring and do not reach the parser,
  which then waits for the next start byte: a second frame that begins in the same chunk is lost.
\<close>

theorem rs485_receive_discards_chunk_tail:
  assumes "\<not> en_self_test_pending (rs_engine s)" "parser_ok (rs_parser s)" "plain body"
    and "rs485_read_bytes P (of_nat RS485_ENGINE_RX_BYTES_PER_CALL) (rs_hal s, rs_world s)
      = (START_BYTE # body @ END_BYTE # rest, h, w)"
  shows "rs_hal (receive_feed P s) = h \<and> parser_frame_available (rs_parser (receive_feed P s)) \<and>
    \<not> pa_receiving (rs_parser (receive_feed P s)) \<and>
    fst (parser_get_frame 192 (rs_parser (receive_feed P s))) = take PARSER_MAX_FRAME body"
proof -
  obtain p' where "parser_feed (START_BYTE # body @ END_BYTE # rest) (rs_parser s) = (rest, p')"
    "parser_frame_available p'" "\<not> pa_receiving p'"
    "fst (parser_get_frame 192 p') = take PARSER_MAX_FRAME body"
    using feed_frame [OF assms(2,3), of 192 rest] by (auto simp: PARSER_MAX_FRAME_def)
  then show ?thesis by (simp add: receive_feed_bus [OF assms(1,4)] del: parser_feed.simps)
qed

text \<open>A chunk with the frame \<open>AB\<close> and the start of another one.\<close>

theorem rs485_receive_discards_chunk_tail_witness:
  "\<not> pa_receiving (rs_parser (receive_feed sim_platform
     (demo_rs485\<lparr>rs_world := sim_init\<lparr>sim_rx := [60, 65, 66, 62, 60, 67]\<rparr>\<rparr>)))"
proof -
  let ?s = "demo_rs485\<lparr>rs_world := sim_init\<lparr>sim_rx := [60, 65, 66, 62, 60, 67]\<rparr>\<rparr>"
  obtain h w where rd: "rs485_read_bytes sim_platform 16 (demo_hal, sim_init\<lparr>sim_rx := [60, 65, 66, 62, 60, 67]\<rparr>)
      = ([60, 65, 66, 62, 60, 67], h, w)"
    using demo_read [of "[60, 65, 66, 62, 60, 67]"] by auto
  show ?thesis
    using rs485_receive_discards_chunk_tail [of ?s "[65, 66]" sim_platform "[60, 67]" h w] rd
    by (simp add: demo_rs485_def demo_engine_def idle_parser_ok plain_def START_BYTE_def END_BYTE_def
        RS485_ENGINE_RX_BYTES_PER_CALL_def)
qed

text \<open>The state after a poll for this node was received: an acknowledgement is pending.\<close>

lemma receive_frame:
  assumes "\<not> en_self_test_pending (rs_engine s)" "parser_ok (rs_parser s)" "frame_ok f"
    and "rs485_read_bytes P (of_nat RS485_ENGINE_RX_BYTES_PER_CALL) (rs_hal s, rs_world s)
      = (encode_wire_frame f RS485_FRAME_WIRE_MAX, h, w)"
  shows "\<exists>p f'. same_frame f' f \<and> rs485_engine_receive call P g s =
    (let s1 = count_result P RS485_ENGINE_RX_FRAME (length (encode_wire_frame f RS485_FRAME_WIRE_MAX) - 2)
        (s\<lparr>rs_hal := h, rs_world := w, rs_parser := p\<rparr>)
     in case handle_frame call P f' s1 of (r, s2) \<Rightarrow> (r, f', s2))"
proof -
  let ?raw = "frame_body f @ crc_bytes (rs485_crc16 (frame_body f))"
  have enc: "encode_wire_frame f RS485_FRAME_WIRE_MAX = START_BYTE # hex_digits ?raw @ [END_BYTE]"
    using assms(3) by (rule encode_wire_frame_eq)
  have len: "length ?raw = 7 + unat (fr_len f)" "unat (fr_len f) \<le> 64"
    using assms(3) by (simp_all add: frame_ok_def frame_consts)
  have wl: "length (hex_digits ?raw) = 2 * (7 + unat (fr_len f))" by (simp only: length_hex_digits len)
  obtain p' where p': "parser_feed (START_BYTE # hex_digits ?raw @ [END_BYTE]) (rs_parser s) = ([], p')"
    "parser_frame_available p'"
    "fst (parser_get_frame 144 p') = take 144 (take PARSER_MAX_FRAME (hex_digits ?raw))"
    using feed_frame [OF assms(2) hex_digits_plain [of ?raw], of 144 "[]"] by auto
  have got: "fst (parser_get_frame 144 p') = hex_digits ?raw"
    unfolding p'(3) using len wl
    by (simp add: PARSER_MAX_FRAME_def del: hex_digits_simps length_hex_digits)
  have dec: "decode_wire_frame (hex_digits ?raw) g = decode_raw_frame ?raw g"
    using len by (simp only: decode_wire_frame_def decode_hex_digits length_hex_digits) (simp add: frame_consts)
  let ?f = "f\<lparr>fr_payload := take (unat (fr_len f)) (fr_payload f) @ drop (unat (fr_len f)) (fr_payload g)\<rparr>"
  have same: "same_frame ?f f" using len assms(3) by (simp add: same_frame_def frame_ok_def frame_consts)
  have feed: "receive_feed P s = s\<lparr>rs_hal := h, rs_world := w, rs_parser := p'\<rparr>"
    using receive_feed_bus [OF assms(1,4)] p'(1) by (simp add: enc del: parser_feed.simps hex_digits_simps)
  have ne: "hex_digits ?raw \<noteq> []" using wl by (metis add_is_0 list.size(3) mult_is_0 zero_neq_numeral)
  have "rs485_engine_receive call P g s =
    (let s1 = count_result P RS485_ENGINE_RX_FRAME (length (hex_digits ?raw))
        (s\<lparr>rs_hal := h, rs_world := w, rs_parser := snd (parser_get_frame 144 p')\<rparr>)
     in case handle_frame call P ?f s1 of (r, s2) \<Rightarrow> (r, ?f, s2))"
    unfolding rs485_engine_receive_def feed
    using p'(2) got ne decode_raw_body [OF assms(3), of g]
    by (simp add: RS485_FRAME_WIRE_MAX_def case_prod_unfold dec Let_def del: hex_digits_simps length_hex_digits)
  moreover have "length (encode_wire_frame f RS485_FRAME_WIRE_MAX) - 2 = length (hex_digits ?raw)"
    by (simp add: enc del: length_hex_digits)
  ultimately show ?thesis using same by metis
qed

lemma encode_empty_frame: "fr_len a = 0 \<Longrightarrow> encode_wire_frame a RS485_FRAME_WIRE_MAX \<noteq> []"
  by (simp add: encode_wire_frame_def encode_raw_frame_def frame_consts Let_def)

lemma count_result_frame [simp]:
  "rs_hal (count_result P r n s) = rs_hal s"
  "en_local_node_id (rs_engine (count_result P r n s)) = en_local_node_id (rs_engine s)"
  "en_enabled (rs_engine (count_result P r n s)) = en_enabled (rs_engine s)"
  "en_self_test_enabled (rs_engine (count_result P r n s)) = en_self_test_enabled (rs_engine s)"
  by (simp_all add: count_result_def Let_def case_prod_unfold split: rs485_engine_rx_result_t.splits)

lemma tick_sends_ack:
  assumes "en_enabled (rs_engine s)" "\<not> en_self_test_enabled (rs_engine s)" "en_ack_pending (rs_engine s)"
    and "fr_len (en_pending_ack_frame (rs_engine s)) = 0"
  shows "\<not> en_ack_pending (rs_engine (rs485_engine_tick_1ms P s)) \<and>
    (\<exists>w. rs_hal (rs485_engine_tick_1ms P s) =
      fst (rs485_send_bytes P (encode_wire_frame (en_pending_ack_frame (rs_engine s)) RS485_FRAME_WIRE_MAX)
             (rs_hal s, w)))"
  using assms encode_empty_frame [OF assms(4)]
  by (auto simp: rs485_engine_tick_1ms_def rs485_engine_send_def Let_def case_prod_unfold)

lemma handle_poll:
  assumes "en_local_node_id (rs_engine s) \<noteq> 0"
    and "fr_type f = RS485_FRAME_TYPE_POLL" "fr_len f = 0" "fr_node f = en_local_node_id (rs_engine s)"
  shows "handle_frame call P f s = (RS485_ENGINE_RX_NONE, s\<lparr>rs_engine := (rs_engine s)\<lparr>
     en_pending_ack_frame := (en_pending_ack_frame (rs_engine s))\<lparr>fr_node := fr_node f,
       fr_msg_id := fr_msg_id f, fr_type := RS485_FRAME_TYPE_ACK, fr_len := 0\<rparr>, en_ack_pending := True\<rparr>\<rparr>)"
  using assms
  by (simp add: handle_frame_def rs485_engine_should_reply_to_poll_def rs485_engine_local_node_id_def)



end
