(* ===== verification/Rs485_Master.thy ===== *)
theory Rs485_Master
  imports Rs485_Engine
begin

text \<open>
  The RS485 master (\<open>runtime/rs485_master/rs485_master.c\<close>): a polling state machine over 64
  nodes. One call of \<open>rs485_master_process_one\<close> receives, then handles a frame, a timeout or the
  next transmission. The event pointer of the callers is never null, so the event is a result.
\<close>

section \<open>Model\<close>

definition RS485_MAX_NODES :: nat where "RS485_MAX_NODES = 64"
definition RS485_MAX_RETRY :: u8 where "RS485_MAX_RETRY = 3"
definition RESPONSE_TIMEOUT_US :: u64 where "RESPONSE_TIMEOUT_US = 6000"
definition RETRY_BACKOFF_US :: u64 where "RETRY_BACKOFF_US = 2000"
definition IDLE_POLL_INTERVAL_US :: u64 where "IDLE_POLL_INTERVAL_US = 4000"
definition SELF_TEST_POLL_US :: u64 where "SELF_TEST_POLL_US = 1000"

record node_status_t =
  ns_id :: u8
  ns_online :: u8
  ns_retry_count :: u8
  ns_last_seen_ms :: u32

record rs485_master_profile_acc_t =
  pf_samples :: u32
  pf_rx_sum_us :: u32
  pf_rx_max_us :: u32
  pf_frame_events :: u32
  pf_frame_sum_us :: u32
  pf_frame_max_us :: u32
  pf_timeout_events :: u32
  pf_timeout_sum_us :: u32
  pf_timeout_max_us :: u32
  pf_tx_events :: u32
  pf_tx_sum_us :: u32
  pf_tx_max_us :: u32
  pf_total_sum_us :: u32
  pf_total_max_us :: u32
  pf_ack_events :: u32
  pf_ignored_events :: u32
  pf_retry_events :: u32
  pf_crc_events :: u32

record rs485_master_metrics_t =
  mm_enabled :: bool
  mm_waiting_response :: bool
  mm_retry_pending :: bool
  mm_self_test_enabled :: bool
  mm_awaiting_node :: u8
  mm_online_nodes :: u8
  mm_tx_count :: u32
  mm_ack_count :: u32
  mm_retry_count :: u32
  mm_timeout_count :: u32
  mm_crc_error_count :: u32
  mm_rx_ignored_count :: u32
  mm_last_tx_ms :: u32
  mm_last_ack_ms :: u32
  mm_last_timeout_ms :: u32

datatype rs485_master_event_type_t =
  RS485_MASTER_EVENT_NONE | RS485_MASTER_EVENT_TX | RS485_MASTER_EVENT_ACK | RS485_MASTER_EVENT_RETRY
  | RS485_MASTER_EVENT_TIMEOUT | RS485_MASTER_EVENT_CRC_ERROR | RS485_MASTER_EVENT_RX_IGNORED

record rs485_master_event_t =
  me_type :: rs485_master_event_type_t
  me_node_id :: u8
  me_msg_id :: u16
  me_latency_us :: u32

record rs485_master =
  ma_nodes :: "node_status_t list"
  ma_current_node :: u8
  ma_awaiting_node :: u8
  ma_waiting_response :: bool
  ma_retry_pending :: bool
  ma_metrics :: rs485_master_metrics_t
  ma_profile :: rs485_master_profile_acc_t
  ma_current_msg_id :: u16
  ma_msg_id_counter :: u16
  ma_request_start_us :: u64
  ma_next_poll_due_us :: u64

definition zero_profile :: rs485_master_profile_acc_t where
  "zero_profile = \<lparr>pf_samples = 0, pf_rx_sum_us = 0, pf_rx_max_us = 0, pf_frame_events = 0,
     pf_frame_sum_us = 0, pf_frame_max_us = 0, pf_timeout_events = 0, pf_timeout_sum_us = 0,
     pf_timeout_max_us = 0, pf_tx_events = 0, pf_tx_sum_us = 0, pf_tx_max_us = 0, pf_total_sum_us = 0,
     pf_total_max_us = 0, pf_ack_events = 0, pf_ignored_events = 0, pf_retry_events = 0, pf_crc_events = 0\<rparr>"

definition zero_master_metrics :: rs485_master_metrics_t where
  "zero_master_metrics = \<lparr>mm_enabled = False, mm_waiting_response = False, mm_retry_pending = False,
     mm_self_test_enabled = False, mm_awaiting_node = 0, mm_online_nodes = 0, mm_tx_count = 0,
     mm_ack_count = 0, mm_retry_count = 0, mm_timeout_count = 0, mm_crc_error_count = 0,
     mm_rx_ignored_count = 0, mm_last_tx_ms = 0, mm_last_ack_ms = 0, mm_last_timeout_ms = 0\<rparr>"

definition no_event :: rs485_master_event_t where
  "no_event = \<lparr>me_type = RS485_MASTER_EVENT_NONE, me_node_id = 0, me_msg_id = 0, me_latency_us = 0\<rparr>"

definition profile_delta_us :: "u64 \<Rightarrow> u64 \<Rightarrow> u32" where
  "profile_delta_us start end_us = ucast (if end_us \<ge> start then end_us - start else 0)"

definition max_u32 :: "u32 \<Rightarrow> u32 \<Rightarrow> u32" where
  "max_u32 dt m = (if dt > m then dt else m)"

definition rs485_master_now_us :: "'w platform \<Rightarrow> 'w rs485_sys \<Rightarrow> u64 \<times> 'w rs485_sys" where
  "rs485_master_now_us P s = (case esp_timer_get_time P (rs_world s) of (t, w) \<Rightarrow> (t, s\<lparr>rs_world := w\<rparr>))"

text \<open>The four users of \<open>profile_accumulate\<close>.\<close>

definition profile_rx :: "u32 \<Rightarrow> rs485_master \<Rightarrow> rs485_master" where
  "profile_rx dt m = m\<lparr>ma_profile := (ma_profile m)\<lparr>pf_rx_sum_us := pf_rx_sum_us (ma_profile m) + dt,
     pf_rx_max_us := max_u32 dt (pf_rx_max_us (ma_profile m))\<rparr>\<rparr>"

definition profile_frame :: "u32 \<Rightarrow> rs485_master \<Rightarrow> rs485_master" where
  "profile_frame dt m = m\<lparr>ma_profile := (ma_profile m)\<lparr>pf_frame_events := pf_frame_events (ma_profile m) + 1,
     pf_frame_sum_us := pf_frame_sum_us (ma_profile m) + dt,
     pf_frame_max_us := max_u32 dt (pf_frame_max_us (ma_profile m))\<rparr>\<rparr>"

definition profile_timeout :: "u32 \<Rightarrow> rs485_master \<Rightarrow> rs485_master" where
  "profile_timeout dt m = m\<lparr>ma_profile := (ma_profile m)\<lparr>pf_timeout_events := pf_timeout_events (ma_profile m) + 1,
     pf_timeout_sum_us := pf_timeout_sum_us (ma_profile m) + dt,
     pf_timeout_max_us := max_u32 dt (pf_timeout_max_us (ma_profile m))\<rparr>\<rparr>"

definition profile_tx :: "u32 \<Rightarrow> rs485_master \<Rightarrow> rs485_master" where
  "profile_tx dt m = m\<lparr>ma_profile := (ma_profile m)\<lparr>pf_tx_events := pf_tx_events (ma_profile m) + 1,
     pf_tx_sum_us := pf_tx_sum_us (ma_profile m) + dt,
     pf_tx_max_us := max_u32 dt (pf_tx_max_us (ma_profile m))\<rparr>\<rparr>"

definition rs485_master_profile_finish ::
  "'w platform \<Rightarrow> u64 \<Rightarrow> rs485_master \<times> 'w rs485_sys \<Rightarrow> rs485_master \<times> 'w rs485_sys" where
  "rs485_master_profile_finish P total_start = (\<lambda>(m, s).
     case rs485_master_now_us P s of (t, s) \<Rightarrow>
       let dt = profile_delta_us total_start t; p = ma_profile m
       in (m\<lparr>ma_profile := p\<lparr>pf_samples := pf_samples p + 1, pf_total_sum_us := pf_total_sum_us p + dt,
              pf_total_max_us := max_u32 dt (pf_total_max_us p)\<rparr>\<rparr>, s))"

definition next_msg_id :: "rs485_master \<Rightarrow> u16 \<times> rs485_master" where
  "next_msg_id m =
     (let c = ma_msg_id_counter m + 1
      in (ma_msg_id_counter m, m\<lparr>ma_msg_id_counter := if c = 0 then 1 else c\<rparr>))"

definition rs485_master_idle_interval_us :: "'w rs485_sys \<Rightarrow> u64" where
  "rs485_master_idle_interval_us s =
     (if rs485_engine_self_test_enabled (rs_engine s) then SELF_TEST_POLL_US else IDLE_POLL_INTERVAL_US)"

definition rs485_master_schedule_next_poll :: "u64 \<Rightarrow> u64 \<Rightarrow> rs485_master \<Rightarrow> rs485_master" where
  "rs485_master_schedule_next_poll now_us delay_us m = m\<lparr>ma_next_poll_due_us := now_us + delay_us\<rparr>"

definition rs485_master_init :: "'w platform \<Rightarrow> rs485_master \<times> 'w rs485_sys \<Rightarrow> rs485_master \<times> 'w rs485_sys" where
  "rs485_master_init P = (\<lambda>(m, s).
     let s = rs485_engine_init P s;
         s = s\<lparr>rs_engine := rs485_engine_enable (rs_engine s)\<rparr>;
         m = \<lparr>ma_nodes = map (\<lambda>i. \<lparr>ns_id = of_nat (i + 1), ns_online = 0, ns_retry_count = 0, ns_last_seen_ms = 0\<rparr>)
                [0..<RS485_MAX_NODES],
              ma_current_node = 0, ma_awaiting_node = 0, ma_waiting_response = False, ma_retry_pending = False,
              ma_metrics = zero_master_metrics\<lparr>mm_enabled := True,
                mm_self_test_enabled := rs485_engine_self_test_enabled (rs_engine s)\<rparr>,
              ma_profile = zero_profile, ma_current_msg_id = 0, ma_msg_id_counter = 1,
              ma_request_start_us = 0, ma_next_poll_due_us = 0\<rparr>
     in case rs485_master_now_us P s of (t, s) \<Rightarrow>
        (rs485_master_schedule_next_poll t (rs485_master_idle_interval_us s) m, s))"

definition rs485_master_on_ack ::
  "'w platform \<Rightarrow> u8 \<Rightarrow> u16 \<Rightarrow> rs485_master \<times> 'w rs485_sys \<Rightarrow> u32 option \<times> rs485_master \<times> 'w rs485_sys" where
  "rs485_master_on_ack P node_id msg_id = (\<lambda>(m, s).
     if \<not> ma_waiting_response m then (None, m, s)
     else if node_id \<noteq> ma_awaiting_node m then (None, m, s)
     else if msg_id \<noteq> ma_current_msg_id m then (None, m, s)
     else if unat (node_id - 1) \<ge> RS485_MAX_NODES then (None, m, s)
     else case rs485_master_now_us P s of (now, s) \<Rightarrow>
       let latency_us = profile_delta_us (ma_request_start_us m) now;
           s = rs485_engine_on_ack P node_id s;
           seen = ucast (now div 1000) :: u32;
           m = m\<lparr>ma_waiting_response := False, ma_retry_pending := False, ma_awaiting_node := 0,
                 ma_request_start_us := 0,
                 ma_nodes := (ma_nodes m)[unat (node_id - 1) := (ma_nodes m ! unat (node_id - 1))
                   \<lparr>ns_online := 1, ns_retry_count := 0, ns_last_seen_ms := seen\<rparr>],
                 ma_metrics := (ma_metrics m)\<lparr>mm_ack_count := mm_ack_count (ma_metrics m) + 1,
                   mm_last_ack_ms := seen\<rparr>\<rparr>
       in (Some latency_us, rs485_master_schedule_next_poll now (rs485_master_idle_interval_us s) m, s))"

definition rs485_master_node_online :: "rs485_master \<Rightarrow> u8 \<Rightarrow> u8" where
  "rs485_master_node_online m node_id =
     (if unat (node_id - 1) \<ge> RS485_MAX_NODES then 0 else ns_online (ma_nodes m ! unat (node_id - 1)))"

definition rs485_master_node_last_seen :: "rs485_master \<Rightarrow> u8 \<Rightarrow> u32" where
  "rs485_master_node_last_seen m node_id =
     (if unat (node_id - 1) \<ge> RS485_MAX_NODES then 0 else ns_last_seen_ms (ma_nodes m ! unat (node_id - 1)))"

definition rs485_master_online_count :: "rs485_master \<Rightarrow> u8" where
  "rs485_master_online_count m =
     fold (\<lambda>n c. if ns_online n \<noteq> 0 then c + 1 else c) (ma_nodes m) 0"

definition rs485_master_get_metrics ::
  "rs485_master \<times> 'w rs485_sys \<Rightarrow> rs485_master_metrics_t \<times> rs485_master" where
  "rs485_master_get_metrics = (\<lambda>(m, s).
     let mm = (ma_metrics m)\<lparr>mm_enabled := True, mm_waiting_response := ma_waiting_response m,
                mm_retry_pending := ma_retry_pending m, mm_awaiting_node := ma_awaiting_node m,
                mm_online_nodes := rs485_master_online_count m,
                mm_self_test_enabled := rs485_engine_self_test_enabled (rs_engine s)\<rparr>
     in (mm, m\<lparr>ma_metrics := mm\<rparr>))"

record rs485_master_profile_metrics_t =
  pm_samples :: u32
  pm_rx_avg_us :: u32
  pm_rx_max_us :: u32
  pm_frame_events :: u32
  pm_frame_avg_us :: u32
  pm_frame_max_us :: u32
  pm_timeout_events :: u32
  pm_timeout_avg_us :: u32
  pm_timeout_max_us :: u32
  pm_tx_events :: u32
  pm_tx_avg_us :: u32
  pm_tx_max_us :: u32
  pm_total_avg_us :: u32
  pm_total_max_us :: u32
  pm_ack_events :: u32
  pm_ignored_events :: u32
  pm_retry_events :: u32
  pm_crc_events :: u32

definition rs485_master_profile_snapshot ::
  "bool \<Rightarrow> rs485_master \<Rightarrow> rs485_master_profile_metrics_t \<times> rs485_master" where
  "rs485_master_profile_snapshot reset m =
     (let p = ma_profile m; avg = (\<lambda>sum n. if n \<noteq> 0 then sum div n else 0)
      in (\<lparr>pm_samples = pf_samples p, pm_rx_avg_us = avg (pf_rx_sum_us p) (pf_samples p),
           pm_rx_max_us = pf_rx_max_us p, pm_frame_events = pf_frame_events p,
           pm_frame_avg_us = avg (pf_frame_sum_us p) (pf_frame_events p), pm_frame_max_us = pf_frame_max_us p,
           pm_timeout_events = pf_timeout_events p,
           pm_timeout_avg_us = avg (pf_timeout_sum_us p) (pf_timeout_events p),
           pm_timeout_max_us = pf_timeout_max_us p, pm_tx_events = pf_tx_events p,
           pm_tx_avg_us = avg (pf_tx_sum_us p) (pf_tx_events p), pm_tx_max_us = pf_tx_max_us p,
           pm_total_avg_us = avg (pf_total_sum_us p) (pf_samples p), pm_total_max_us = pf_total_max_us p,
           pm_ack_events = pf_ack_events p, pm_ignored_events = pf_ignored_events p,
           pm_retry_events = pf_retry_events p, pm_crc_events = pf_crc_events p\<rparr>,
          if reset then m\<lparr>ma_profile := zero_profile\<rparr> else m))"

definition rs485_master_has_work :: "'w platform \<Rightarrow> rs485_master \<times> 'w rs485_sys \<Rightarrow> bool \<times> 'w rs485_sys" where
  "rs485_master_has_work P = (\<lambda>(m, s).
     case rs485_master_now_us P s of (now, s) \<Rightarrow>
       (if ma_waiting_response m then True
        else if ma_retry_pending m then True
        else now \<ge> ma_next_poll_due_us m, s))"

text \<open>A received frame: an acknowledgement that is awaited, or something to ignore.\<close>

definition process_frame ::
  "'w platform \<Rightarrow> rs485_frame_t \<Rightarrow> rs485_master \<times> 'w rs485_sys \<Rightarrow>
   rs485_master_event_t \<times> rs485_master \<times> 'w rs485_sys" where
  "process_frame P f = (\<lambda>(m, s).
     let ignored = (\<lambda>m. (\<lparr>me_type = RS485_MASTER_EVENT_RX_IGNORED, me_node_id = fr_node f,
                          me_msg_id = fr_msg_id f, me_latency_us = 0\<rparr>,
           m\<lparr>ma_metrics := (ma_metrics m)\<lparr>mm_rx_ignored_count := mm_rx_ignored_count (ma_metrics m) + 1\<rparr>,
             ma_profile := (ma_profile m)\<lparr>pf_ignored_events := pf_ignored_events (ma_profile m) + 1\<rparr>\<rparr>))
     in case rs485_master_now_us P s of (t0, s) \<Rightarrow>
        case (if fr_type f = RS485_FRAME_TYPE_ACK \<and> fr_len f = 0
              then (case rs485_master_on_ack P (fr_node f) (fr_msg_id f) (m, s) of
                 (Some latency, m, s) \<Rightarrow>
                   (\<lparr>me_type = RS485_MASTER_EVENT_ACK, me_node_id = fr_node f, me_msg_id = fr_msg_id f,
                     me_latency_us = latency\<rparr>,
                    m\<lparr>ma_profile := (ma_profile m)\<lparr>pf_ack_events := pf_ack_events (ma_profile m) + 1\<rparr>\<rparr>, s)
               | (None, m, s) \<Rightarrow> (case ignored m of (e, m) \<Rightarrow> (e, m, s)))
              else (case ignored m of (e, m) \<Rightarrow> (e, m, s))) of
          (e, m, s) \<Rightarrow>
          case rs485_master_now_us P s of (t1, s) \<Rightarrow> (e, profile_frame (profile_delta_us t0 t1) m, s))"

text \<open>The end of a timeout that is reported or not: statistics over the time since \<open>t0\<close>.\<close>

definition timeout_done :: "'w platform \<Rightarrow> u64 \<Rightarrow> rs485_master \<times> 'w rs485_sys \<Rightarrow> rs485_master \<times> 'w rs485_sys" where
  "timeout_done P t0 = (\<lambda>(m, s).
     case rs485_master_now_us P s of (t1, s) \<Rightarrow> (profile_timeout (profile_delta_us t0 t1) m, s))"

text \<open>The response to a request did not come in time.\<close>

definition process_timeout ::
  "'w platform \<Rightarrow> u64 \<Rightarrow> rs485_master \<times> 'w rs485_sys \<Rightarrow>
   bool \<times> rs485_master_event_t \<times> rs485_master \<times> 'w rs485_sys" where
  "process_timeout P now = (\<lambda>(m, s).
     case rs485_master_now_us P s of (t0, s) \<Rightarrow>
     if ma_awaiting_node m = 0 \<or> unat (ma_awaiting_node m) > RS485_MAX_NODES
     then let m = rs485_master_schedule_next_poll now (rs485_master_idle_interval_us s)
                (m\<lparr>ma_waiting_response := False, ma_retry_pending := False, ma_current_msg_id := 0,
                   ma_request_start_us := 0\<rparr>)
          in (False, no_event, timeout_done P t0 (m, s))
     else let idx = unat (ma_awaiting_node m - 1);
              node = (ma_nodes m ! idx)\<lparr>ns_retry_count := ns_retry_count (ma_nodes m ! idx) + 1\<rparr>;
              m = m\<lparr>ma_nodes := (ma_nodes m)[idx := node], ma_waiting_response := False,
                    ma_request_start_us := 0\<rparr>;
              mm = ma_metrics m; ms = ucast (now div 1000) :: u32
          in if ns_retry_count node < RS485_MAX_RETRY
             then let m = rs485_master_schedule_next_poll now RETRY_BACKOFF_US
                        (m\<lparr>ma_retry_pending := True,
                           ma_metrics := mm\<lparr>mm_retry_count := mm_retry_count mm + 1, mm_last_timeout_ms := ms\<rparr>,
                           ma_profile := (ma_profile m)\<lparr>pf_retry_events := pf_retry_events (ma_profile m) + 1\<rparr>\<rparr>)
                  in (True, \<lparr>me_type = RS485_MASTER_EVENT_RETRY, me_node_id = ma_awaiting_node m,
                        me_msg_id = ma_current_msg_id m, me_latency_us = 0\<rparr>, timeout_done P t0 (m, s))
             else let e = \<lparr>me_type = RS485_MASTER_EVENT_TIMEOUT, me_node_id = ma_awaiting_node m,
                        me_msg_id = ma_current_msg_id m, me_latency_us = 0\<rparr>;
                      m = rs485_master_schedule_next_poll now (rs485_master_idle_interval_us s)
                        (m\<lparr>ma_nodes := (ma_nodes m)[idx := node\<lparr>ns_online := 0, ns_retry_count := 0\<rparr>],
                           ma_metrics := mm\<lparr>mm_timeout_count := mm_timeout_count mm + 1, mm_last_timeout_ms := ms\<rparr>,
                           ma_profile := (ma_profile m)\<lparr>pf_retry_events := pf_retry_events (ma_profile m) + 1\<rparr>,
                           ma_awaiting_node := 0, ma_retry_pending := False, ma_current_msg_id := 0\<rparr>)
                  in (True, e, timeout_done P t0 (m, s)))"

text \<open>Which node is polled next, and with which message id.\<close>

definition choose_request :: "bool \<Rightarrow> rs485_master \<Rightarrow> u8 \<times> u16 \<times> rs485_master" where
  "choose_request self_test m =
     (if ma_retry_pending m
      then (ma_awaiting_node m, ma_current_msg_id m, m\<lparr>ma_retry_pending := False\<rparr>)
      else let node_id = (if self_test then RS485_ENGINE_SELF_TEST_NODE_ID else ma_current_node m + 1)
           in case next_msg_id m of (msg_id, m) \<Rightarrow>
              let m = m\<lparr>ma_current_msg_id := msg_id\<rparr>;
                  c = ma_current_node m + 1;
                  m = (if self_test then m
                       else m\<lparr>ma_current_node := if unat c \<ge> RS485_MAX_NODES then 0 else c\<rparr>)
              in (node_id, msg_id, m))"

definition process_send ::
  "'w platform \<Rightarrow> u64 \<Rightarrow> rs485_master \<times> 'w rs485_sys \<Rightarrow>
   rs485_master_event_t \<times> rs485_master \<times> 'w rs485_sys" where
  "process_send P now = (\<lambda>(m, s).
     case rs485_master_now_us P s of (t0, s) \<Rightarrow>
     case choose_request (rs485_engine_self_test_enabled (rs_engine s)) m of (node_id, msg_id, m) \<Rightarrow>
       let m = m\<lparr>ma_waiting_response := True, ma_awaiting_node := node_id, ma_request_start_us := now\<rparr>;
           s = rs485_engine_send P \<lparr>fr_node = node_id, fr_msg_id = msg_id, fr_type = RS485_FRAME_TYPE_POLL,
                 fr_len = 0, fr_payload = replicate RS485_FRAME_MAX_PAYLOAD 0\<rparr> s;
           m = rs485_master_schedule_next_poll now RESPONSE_TIMEOUT_US
                 (m\<lparr>ma_metrics := (ma_metrics m)\<lparr>mm_tx_count := mm_tx_count (ma_metrics m) + 1,
                    mm_last_tx_ms := ucast (now div 1000)\<rparr>\<rparr>)
       in case rs485_master_now_us P s of (t1, s) \<Rightarrow>
          (\<lparr>me_type = RS485_MASTER_EVENT_TX, me_node_id = node_id, me_msg_id = msg_id, me_latency_us = 0\<rparr>,
           profile_tx (profile_delta_us t0 t1) m, s))"

definition rs485_master_process_one ::
  "(nat \<Rightarrow> rs485_frame_t \<Rightarrow> 'w rs485_sys \<Rightarrow> 'w rs485_sys) \<Rightarrow> 'w platform \<Rightarrow>
   rs485_master \<times> 'w rs485_sys \<Rightarrow> bool \<times> rs485_master_event_t \<times> rs485_master \<times> 'w rs485_sys" where
  "rs485_master_process_one call P = (\<lambda>(m, s).
     case rs485_master_now_us P s of (total_start, s) \<Rightarrow>
     case rs485_master_now_us P s of (t0, s) \<Rightarrow>
     case rs485_engine_receive call P zero_frame s of (rx_result, rx_frame, s) \<Rightarrow>
     case rs485_master_now_us P s of (t1, s) \<Rightarrow>
     let m = profile_rx (profile_delta_us t0 t1) m in
     if rx_result = RS485_ENGINE_RX_CRC_ERROR
     then (True, no_event\<lparr>me_type := RS485_MASTER_EVENT_CRC_ERROR\<rparr>,
           rs485_master_profile_finish P total_start
             (m\<lparr>ma_metrics := (ma_metrics m)\<lparr>mm_crc_error_count := mm_crc_error_count (ma_metrics m) + 1\<rparr>,
                ma_profile := (ma_profile m)\<lparr>pf_crc_events := pf_crc_events (ma_profile m) + 1\<rparr>\<rparr>, s))
     else if rx_result = RS485_ENGINE_RX_FRAME
     then (case process_frame P rx_frame (m, s) of (e, ms) \<Rightarrow>
             (True, e, rs485_master_profile_finish P total_start ms))
     else case rs485_master_now_us P s of (now, s) \<Rightarrow>
       if ma_waiting_response m
       then if now - ma_request_start_us m \<le> RESPONSE_TIMEOUT_US
            then (False, no_event, rs485_master_profile_finish P total_start (m, s))
            else (case process_timeout P now (m, s) of (r, e, ms) \<Rightarrow>
                    (r, e, rs485_master_profile_finish P total_start ms))
       else if now < ma_next_poll_due_us m
       then (False, no_event, rs485_master_profile_finish P total_start (m, s))
       else (case process_send P now (m, s) of (e, ms) \<Rightarrow>
               (True, e, rs485_master_profile_finish P total_start ms)))"

section \<open>The abstract polling automaton\<close>

text \<open>
  What the master promises: it is idle, waits for the answer to a request, or backs off before
  sending the request again; the number counts the attempts that failed.
\<close>

datatype master_phase = Idle | Waiting u8 u16 nat | Backoff u8 u16 nat

inductive master_step :: "master_phase \<Rightarrow> rs485_master_event_type_t \<Rightarrow> master_phase \<Rightarrow> bool" where
  quiet: "master_step p RS485_MASTER_EVENT_NONE p"
| crc: "master_step p RS485_MASTER_EVENT_CRC_ERROR p"
| ignored: "master_step p RS485_MASTER_EVENT_RX_IGNORED p"
| poll: "n \<noteq> 0 \<Longrightarrow> unat n \<le> 64 \<Longrightarrow> msg \<noteq> 0 \<Longrightarrow> master_step Idle RS485_MASTER_EVENT_TX (Waiting n msg 0)"
| acked: "master_step (Waiting n msg k) RS485_MASTER_EVENT_ACK Idle"
| again: "k < 2 \<Longrightarrow> master_step (Waiting n msg k) RS485_MASTER_EVENT_RETRY (Backoff n msg (Suc k))"
| give_up: "master_step (Waiting n msg 2) RS485_MASTER_EVENT_TIMEOUT Idle"
| resend: "master_step (Backoff n msg k) RS485_MASTER_EVENT_TX (Waiting n msg k)"

inductive_cases master_step_Idle: "master_step Idle e p"
inductive_cases master_step_Waiting: "master_step (Waiting n msg k) e p"
inductive_cases master_step_Backoff: "master_step (Backoff n msg k) e p"

definition retries :: "rs485_master \<Rightarrow> u8 \<Rightarrow> nat" where
  "retries m n = unat (ns_retry_count (ma_nodes m ! unat (n - 1)))"

definition master_phase_of :: "rs485_master \<Rightarrow> master_phase" where
  "master_phase_of m =
     (if ma_waiting_response m then Waiting (ma_awaiting_node m) (ma_current_msg_id m) (retries m (ma_awaiting_node m))
      else if ma_retry_pending m then Backoff (ma_awaiting_node m) (ma_current_msg_id m) (retries m (ma_awaiting_node m))
      else Idle)"

definition valid_node :: "u8 \<Rightarrow> bool" where
  "valid_node n \<longleftrightarrow> n \<noteq> 0 \<and> unat n \<le> 64"

definition master_inv :: "rs485_master \<Rightarrow> bool" where
  "master_inv m \<longleftrightarrow> length (ma_nodes m) = 64 \<and> unat (ma_current_node m) < 64 \<and> ma_msg_id_counter m \<noteq> 0 \<and>
     \<not> (ma_waiting_response m \<and> ma_retry_pending m) \<and>
     (ma_waiting_response m \<or> ma_retry_pending m \<longrightarrow>
        valid_node (ma_awaiting_node m) \<and> ma_current_msg_id m \<noteq> 0 \<and> retries m (ma_awaiting_node m) < 3) \<and>
     (\<forall>i < 64. ns_retry_count (ma_nodes m ! i) \<noteq> 0 \<longrightarrow>
        (ma_waiting_response m \<or> ma_retry_pending m) \<and> i = unat (ma_awaiting_node m - 1))"

lemma valid_node_index: "valid_node n \<Longrightarrow> unat (n - 1) < 64"
  by (auto simp: valid_node_def unat_minus_one)

text \<open>Statistics and deadlines belong neither to the phase nor to the invariant.\<close>

lemma master_frame [simp]:
  "master_phase_of (m\<lparr>ma_profile := x\<rparr>) = master_phase_of m"
  "master_phase_of (m\<lparr>ma_metrics := y\<rparr>) = master_phase_of m"
  "master_phase_of (m\<lparr>ma_request_start_us := t\<rparr>) = master_phase_of m"
  "master_phase_of (m\<lparr>ma_next_poll_due_us := t\<rparr>) = master_phase_of m"
  "master_inv (m\<lparr>ma_profile := x\<rparr>) = master_inv m"
  "master_inv (m\<lparr>ma_metrics := y\<rparr>) = master_inv m"
  "master_inv (m\<lparr>ma_request_start_us := t\<rparr>) = master_inv m"
  "master_inv (m\<lparr>ma_next_poll_due_us := t\<rparr>) = master_inv m"
  by (simp_all add: master_phase_of_def master_inv_def retries_def)

lemmas profile_defs = profile_rx_def profile_frame_def profile_timeout_def profile_tx_def
  rs485_master_schedule_next_poll_def

lemma finish_frame [simp]:
  "master_phase_of (fst (rs485_master_profile_finish P t ms)) = master_phase_of (fst ms)"
  "master_inv (fst (rs485_master_profile_finish P t ms)) = master_inv (fst ms)"
  by (simp_all add: rs485_master_profile_finish_def case_prod_unfold Let_def)

lemma timeout_done_frame [simp]:
  "master_phase_of (fst (timeout_done P t ms)) = master_phase_of (fst ms)"
  "master_inv (fst (timeout_done P t ms)) = master_inv (fst ms)"
  by (simp_all add: timeout_done_def case_prod_unfold Let_def profile_defs)

lemma next_msg_id_nonzero:
  "ma_msg_id_counter m \<noteq> 0 \<Longrightarrow> fst (next_msg_id m) \<noteq> 0 \<and> ma_msg_id_counter (snd (next_msg_id m)) \<noteq> 0"
  by (simp add: next_msg_id_def Let_def)

section \<open>Each branch is an abstract step\<close>

text \<open>The invariant of a state in which the outstanding request has just been resolved.\<close>

lemma inv_resolved:
  assumes "master_inv m" "ma_waiting_response m"
    and "\<not> ma_waiting_response m'" "\<not> ma_retry_pending m'"
    and "ma_nodes m' = (ma_nodes m)[unat (ma_awaiting_node m - 1) := x]" "ns_retry_count x = 0"
    and "ma_current_node m' = ma_current_node m" "ma_msg_id_counter m' = ma_msg_id_counter m"
  shows "master_inv m' \<and> master_phase_of m' = Idle"
proof -
  have zero: "ns_retry_count (ma_nodes m' ! i) = 0" if "i < 64" for i
    using that assms(1,2,6) unfolding assms(5) master_inv_def
    by (cases "i = unat (ma_awaiting_node m - 1)") (auto simp: nth_list_update)
  have "length (ma_nodes m') = 64 \<and> unat (ma_current_node m') < 64 \<and> ma_msg_id_counter m' \<noteq> 0"
    using assms(1) by (simp add: master_inv_def assms(5,7,8))
  with zero assms(3,4) show ?thesis by (simp add: master_inv_def master_phase_of_def)
qed

lemma waiting_facts:
  assumes "master_inv m" "ma_waiting_response m"
  shows "valid_node (ma_awaiting_node m)" "unat (ma_awaiting_node m - 1) < 64" "\<not> ma_retry_pending m"
    "ma_current_msg_id m \<noteq> 0" "unat (ns_retry_count (ma_nodes m ! unat (ma_awaiting_node m - 1))) < 3"
    "master_phase_of m = Waiting (ma_awaiting_node m) (ma_current_msg_id m)
       (unat (ns_retry_count (ma_nodes m ! unat (ma_awaiting_node m - 1))))"
proof -
  show v: "valid_node (ma_awaiting_node m)" and "\<not> ma_retry_pending m" "ma_current_msg_id m \<noteq> 0"
    "unat (ns_retry_count (ma_nodes m ! unat (ma_awaiting_node m - 1))) < 3"
    using assms by (simp_all add: master_inv_def retries_def)
  from v show "unat (ma_awaiting_node m - 1) < 64" by (rule valid_node_index)
  show "master_phase_of m = Waiting (ma_awaiting_node m) (ma_current_msg_id m)
       (unat (ns_retry_count (ma_nodes m ! unat (ma_awaiting_node m - 1))))"
    using assms(2) by (simp add: master_phase_of_def retries_def)
qed

text \<open>The same for a request that is to be sent again.\<close>

lemma inv_backoff:
  assumes "master_inv m" "ma_waiting_response m"
    and "\<not> ma_waiting_response m'" "ma_retry_pending m'"
    and "ma_nodes m' = (ma_nodes m)[unat (ma_awaiting_node m - 1) := x]" "unat (ns_retry_count x) < 3"
    and "ma_current_node m' = ma_current_node m" "ma_msg_id_counter m' = ma_msg_id_counter m"
    and "ma_awaiting_node m' = ma_awaiting_node m" "ma_current_msg_id m' = ma_current_msg_id m"
  shows "master_inv m' \<and>
    master_phase_of m' = Backoff (ma_awaiting_node m) (ma_current_msg_id m) (unat (ns_retry_count x))"
proof -
  note w = waiting_facts [OF assms(1,2)]
  have len: "length (ma_nodes m) = 64" using assms(1) by (simp add: master_inv_def)
  have at: "ma_nodes m' ! unat (ma_awaiting_node m - 1) = x" using w(2) len by (simp add: assms(5))
  have zero: "ns_retry_count (ma_nodes m' ! i) = 0" if "i < 64" "i \<noteq> unat (ma_awaiting_node m - 1)" for i
    using that assms(1,2) unfolding assms(5) master_inv_def by auto
  have "retries m' (ma_awaiting_node m') = unat (ns_retry_count x)"
    unfolding retries_def assms(9) at ..
  moreover have "length (ma_nodes m') = 64 \<and> unat (ma_current_node m') < 64 \<and> ma_msg_id_counter m' \<noteq> 0"
    using assms(1) by (simp add: master_inv_def assms(5,7,8))
  ultimately show ?thesis
    using assms(3,4,6) w(1,4) zero unfolding master_inv_def master_phase_of_def assms(9,10) by auto
qed

lemma on_ack_rejected:
  "\<not> (ma_waiting_response m \<and> n = ma_awaiting_node m \<and> msg = ma_current_msg_id m) \<Longrightarrow>
   rs485_master_on_ack P n msg (m, s) = (None, m, s)"
  by (auto simp: rs485_master_on_ack_def)

lemma on_ack_accepted:
  assumes "master_inv m" "ma_waiting_response m"
  shows "\<exists>l m' s'. rs485_master_on_ack P (ma_awaiting_node m) (ma_current_msg_id m) (m, s) = (Some l, m', s') \<and>
    master_inv m' \<and> master_phase_of m' = Idle"
proof -
  obtain now s1 where now: "rs485_master_now_us P s = (now, s1)" by fastforce
  let ?s = "rs485_engine_on_ack P (ma_awaiting_node m) s1"
  let ?x = "(ma_nodes m ! unat (ma_awaiting_node m - 1))
      \<lparr>ns_online := 1, ns_retry_count := 0, ns_last_seen_ms := ucast (now div 1000)\<rparr>"
  let ?m = "rs485_master_schedule_next_poll now (rs485_master_idle_interval_us ?s)
      (m\<lparr>ma_waiting_response := False, ma_retry_pending := False, ma_awaiting_node := 0, ma_request_start_us := 0,
         ma_nodes := (ma_nodes m)[unat (ma_awaiting_node m - 1) := ?x],
         ma_metrics := (ma_metrics m)\<lparr>mm_ack_count := mm_ack_count (ma_metrics m) + 1,
           mm_last_ack_ms := ucast (now div 1000)\<rparr>\<rparr>)"
  have "rs485_master_on_ack P (ma_awaiting_node m) (ma_current_msg_id m) (m, s) =
      (Some (profile_delta_us (ma_request_start_us m) now), ?m, ?s)"
    using waiting_facts(2) [OF assms] assms(2)
    by (simp add: rs485_master_on_ack_def now RS485_MAX_NODES_def Let_def)
  moreover have "master_inv ?m \<and> master_phase_of ?m = Idle"
    using assms by (rule inv_resolved [where x = ?x]) (simp_all add: rs485_master_schedule_next_poll_def)
  ultimately show ?thesis by blast
qed

lemma process_frame_step:
  assumes "master_inv m"
  shows "case process_frame P f (m, s) of (e, m', s') \<Rightarrow>
    master_inv m' \<and> master_step (master_phase_of m) (me_type e) (master_phase_of m')"
proof -
  obtain t0 s0 where t0: "rs485_master_now_us P s = (t0, s0)" by fastforce
  show ?thesis
  proof (cases "ma_waiting_response m \<and> fr_node f = ma_awaiting_node m \<and> fr_msg_id f = ma_current_msg_id m")
    case False
    with assms t0 show ?thesis
      by (simp add: process_frame_def Let_def on_ack_rejected case_prod_unfold profile_defs master_step.ignored)
  next
    case True
    with assms obtain l m1 s1 where
      "rs485_master_on_ack P (fr_node f) (fr_msg_id f) (m, s0) = (Some l, m1, s1)"
      "master_inv m1" "master_phase_of m1 = Idle" using on_ack_accepted by metis
    moreover have "master_step (master_phase_of m) RS485_MASTER_EVENT_ACK Idle"
      using True waiting_facts(6) [OF assms] by (simp add: master_step.acked)
    ultimately show ?thesis using assms t0
      by (simp add: process_frame_def Let_def case_prod_unfold profile_defs master_step.ignored)
  qed
qed

lemma process_timeout_step:
  assumes "master_inv m" "ma_waiting_response m"
  shows "case process_timeout P now (m, s) of (r, e, m', s') \<Rightarrow>
    r \<and> me_node_id e = ma_awaiting_node m \<and> me_type e \<in> {RS485_MASTER_EVENT_RETRY, RS485_MASTER_EVENT_TIMEOUT} \<and>
    master_inv m' \<and> master_step (master_phase_of m) (me_type e) (master_phase_of m')"
proof -
  let ?n = "ma_awaiting_node m"
  let ?i = "unat (?n - 1)"
  let ?x = "ma_nodes m ! ?i"
  let ?k = "ns_retry_count ?x"
  let ?node = "?x\<lparr>ns_retry_count := ?k + 1\<rparr>"
  note w = waiting_facts [OF assms]
  have succ: "unat (?k + 1) = Suc (unat ?k)" using w(5) by (simp add: unat_word_ariths)
  have guard: "\<not> (?n = 0 \<or> unat ?n > RS485_MAX_NODES)" using w(1) by (simp add: valid_node_def RS485_MAX_NODES_def)
  obtain t0 s0 where t0: "rs485_master_now_us P s = (t0, s0)" by fastforce
  show ?thesis
  proof (cases "?k + 1 < RS485_MAX_RETRY")
    case True
    then have k: "unat ?k < 2" by (simp add: word_less_nat_alt succ RS485_MAX_RETRY_def)
    let ?m = "fst (snd (snd (process_timeout P now (m, s))))"
    have ev: "fst (process_timeout P now (m, s)) \<and>
        fst (snd (process_timeout P now (m, s))) = \<lparr>me_type = RS485_MASTER_EVENT_RETRY, me_node_id = ?n,
          me_msg_id = ma_current_msg_id m, me_latency_us = 0\<rparr>"
      using True guard by (simp add: process_timeout_def t0 Let_def rs485_master_schedule_next_poll_def)
    have "master_inv ?m \<and> master_phase_of ?m = Backoff ?n (ma_current_msg_id m) (unat (ns_retry_count ?node))"
      using assms by (rule inv_backoff)
        (use True guard succ k in \<open>simp_all add: process_timeout_def t0 Let_def profile_defs timeout_done_def case_prod_unfold\<close>)
    with ev master_step.again [OF k, of ?n "ma_current_msg_id m"] w(6) succ show ?thesis
      by (simp add: case_prod_unfold)
  next
    case False
    then have k: "unat ?k = 2" using w(5) by (simp add: word_less_nat_alt succ RS485_MAX_RETRY_def)
    let ?off = "?node\<lparr>ns_online := 0, ns_retry_count := 0\<rparr>"
    let ?m = "fst (snd (snd (process_timeout P now (m, s))))"
    have ev: "fst (process_timeout P now (m, s)) \<and>
        fst (snd (process_timeout P now (m, s))) = \<lparr>me_type = RS485_MASTER_EVENT_TIMEOUT, me_node_id = ?n,
          me_msg_id = ma_current_msg_id m, me_latency_us = 0\<rparr>"
      using False guard by (simp add: process_timeout_def t0 Let_def)
    have "master_inv ?m \<and> master_phase_of ?m = Idle"
      using assms by (rule inv_resolved [where x = ?off])
        (use False guard in \<open>simp_all add: process_timeout_def t0 Let_def profile_defs timeout_done_def case_prod_unfold\<close>)
    with ev master_step.give_up [of ?n "ma_current_msg_id m"] w(6) k show ?thesis
      by (simp add: case_prod_unfold)
  qed
qed

lemma inv_polled:
  assumes "master_inv m" "\<not> ma_waiting_response m" "\<not> ma_retry_pending m"
    and "ma_waiting_response m'" "\<not> ma_retry_pending m'" "ma_nodes m' = ma_nodes m"
    and "valid_node (ma_awaiting_node m')" "ma_current_msg_id m' \<noteq> 0"
    and "unat (ma_current_node m') < 64" "ma_msg_id_counter m' \<noteq> 0"
  shows "master_inv m' \<and> master_phase_of m' = Waiting (ma_awaiting_node m') (ma_current_msg_id m') 0"
proof -
  have zero: "ns_retry_count (ma_nodes m ! i) = 0" if "i < 64" for i
    using that assms(1-3) by (simp add: master_inv_def)
  have "unat (ma_awaiting_node m' - 1) < 64" using assms(7) by (rule valid_node_index)
  then have "retries m' (ma_awaiting_node m') = 0" by (simp add: retries_def assms(6) zero)
  with assms(4-10) zero assms(1) show ?thesis by (simp add: master_inv_def master_phase_of_def)
qed

lemma inv_resent:
  assumes "master_inv m" "ma_retry_pending m"
    and "ma_waiting_response m'" "\<not> ma_retry_pending m'" "ma_nodes m' = ma_nodes m"
    and "ma_awaiting_node m' = ma_awaiting_node m" "ma_current_msg_id m' = ma_current_msg_id m"
    and "ma_current_node m' = ma_current_node m" "ma_msg_id_counter m' = ma_msg_id_counter m"
  shows "master_inv m' \<and> master_step (master_phase_of m) RS485_MASTER_EVENT_TX (master_phase_of m')"
proof -
  have "retries m' (ma_awaiting_node m') = retries m (ma_awaiting_node m)" by (simp add: retries_def assms(5,6))
  moreover have "\<not> ma_waiting_response m" using assms(1,2) by (simp add: master_inv_def)
  ultimately show ?thesis
    using assms by (simp add: master_inv_def master_phase_of_def master_step.resend)
qed

lemma succ_node: "unat (c :: u8) < 64 \<Longrightarrow> unat (c + 1) = Suc (unat c) \<and> valid_node (c + 1)"
proof -
  assume "unat c < 64"
  then have "unat (c + 1) = Suc (unat c)" by (simp add: unat_word_ariths)
  moreover from this have "c + 1 \<noteq> 0" by (metis nat.distinct(1) unat_0)
  ultimately show ?thesis using \<open>unat c < 64\<close> by (simp add: valid_node_def)
qed

lemma process_send_step:
  assumes "master_inv m" "\<not> ma_waiting_response m"
  shows "case process_send P now (m, s) of (e, m', s') \<Rightarrow>
    me_type e = RS485_MASTER_EVENT_TX \<and> ma_request_start_us m' = now \<and>
    me_node_id e = ma_awaiting_node m' \<and> me_msg_id e = ma_current_msg_id m' \<and>
    master_inv m' \<and> master_step (master_phase_of m) RS485_MASTER_EVENT_TX (master_phase_of m')"
proof -
  obtain t0 s0 where t0: "rs485_master_now_us P s = (t0, s0)" by fastforce
  let ?m = "fst (snd (process_send P now (m, s)))"
  have ev: "me_type (fst (process_send P now (m, s))) = RS485_MASTER_EVENT_TX \<and> ma_request_start_us ?m = now \<and>
      me_node_id (fst (process_send P now (m, s))) = ma_awaiting_node ?m \<and>
      me_msg_id (fst (process_send P now (m, s))) = ma_current_msg_id ?m"
    by (simp add: process_send_def t0 case_prod_unfold Let_def profile_defs choose_request_def next_msg_id_def)
  have "master_inv ?m \<and> master_step (master_phase_of m) RS485_MASTER_EVENT_TX (master_phase_of ?m)"
  proof (cases "ma_retry_pending m")
    case True
    with assms(1) show ?thesis
      by (rule inv_resent)
        (use True in \<open>simp_all add: process_send_def t0 case_prod_unfold Let_def profile_defs choose_request_def\<close>)
  next
    case False
    have cur: "unat (ma_current_node m) < 64" and cnt: "ma_msg_id_counter m \<noteq> 0"
      using assms(1) by (simp_all add: master_inv_def)
    have "valid_node RS485_ENGINE_SELF_TEST_NODE_ID"
      by (simp add: valid_node_def RS485_ENGINE_SELF_TEST_NODE_ID_def)
    with cur cnt False succ_node [OF cur] have f:
      "ma_waiting_response ?m" "\<not> ma_retry_pending ?m" "ma_nodes ?m = ma_nodes m"
      "valid_node (ma_awaiting_node ?m)" "ma_current_msg_id ?m \<noteq> 0" "unat (ma_current_node ?m) < 64"
      "ma_msg_id_counter ?m \<noteq> 0"
      by (simp_all add: process_send_def t0 case_prod_unfold Let_def profile_defs choose_request_def
          next_msg_id_def RS485_MAX_NODES_def)
    have "master_inv ?m \<and> master_phase_of ?m = Waiting (ma_awaiting_node ?m) (ma_current_msg_id ?m) 0"
      using assms False f by (rule inv_polled)
    moreover have "master_phase_of m = Idle" using assms(2) False by (simp add: master_phase_of_def)
    ultimately show ?thesis using f(4,5) by (simp add: valid_node_def master_step.poll)
  qed
  with ev show ?thesis by (simp add: case_prod_unfold)
qed

lemma master_init_inv: "master_inv (fst (rs485_master_init P (m, s))) \<and> master_phase_of (fst (rs485_master_init P (m, s))) = Idle"
  by (simp add: rs485_master_init_def Let_def case_prod_unfold profile_defs master_inv_def master_phase_of_def
      RS485_MAX_NODES_def)

lemma process_one_step:
  assumes "master_inv m"
  shows "case rs485_master_process_one call P (m, s) of (r, e, m', s') \<Rightarrow>
    master_inv m' \<and> master_step (master_phase_of m) (me_type e) (master_phase_of m')"
proof -
  obtain ts s1 where a: "rs485_master_now_us P s = (ts, s1)" by fastforce
  obtain t0 s2 where b: "rs485_master_now_us P s1 = (t0, s2)" by fastforce
  obtain r f s3 where c: "rs485_engine_receive call P zero_frame s2 = (r, f, s3)"
    by (cases "rs485_engine_receive call P zero_frame s2") auto
  obtain t1 s4 where d: "rs485_master_now_us P s3 = (t1, s4)" by fastforce
  obtain now s5 where e: "rs485_master_now_us P s4 = (now, s5)" by fastforce
  let ?m = "profile_rx (profile_delta_us t0 t1) m"
  have m: "master_inv ?m" "master_phase_of ?m = master_phase_of m" "ma_waiting_response ?m = ma_waiting_response m"
    "ma_next_poll_due_us ?m = ma_next_poll_due_us m" "ma_request_start_us ?m = ma_request_start_us m"
    using assms by (simp_all add: profile_rx_def)
  consider "r = RS485_ENGINE_RX_CRC_ERROR" | "r = RS485_ENGINE_RX_FRAME"
    | "r \<noteq> RS485_ENGINE_RX_CRC_ERROR" "r \<noteq> RS485_ENGINE_RX_FRAME" by blast
  then show ?thesis
  proof cases
    case 1
    with m show ?thesis
      by (simp add: rs485_master_process_one_def a b c d Let_def case_prod_unfold no_event_def master_step.crc)
  next
    case 2
    with process_frame_step [OF m(1), where P = P and f = f and s = s4] m(2) show ?thesis
      by (simp add: rs485_master_process_one_def a b c d Let_def case_prod_unfold)
  next
    case 3
    show ?thesis
    proof (cases "ma_waiting_response m")
      case True
      with 3 m process_timeout_step [OF m(1), where P = P and now = now and s = s5] show ?thesis
        by (simp add: rs485_master_process_one_def a b c d e Let_def case_prod_unfold no_event_def master_step.quiet)
    next
      case False
      with 3 m process_send_step [OF m(1), where P = P and now = now and s = s5] show ?thesis
        by (simp add: rs485_master_process_one_def a b c d e Let_def case_prod_unfold no_event_def master_step.quiet)
    qed
  qed
qed

section \<open>The life of one request\<close>

text \<open>
  The events of one request: it starts with a transmission from the idle phase and goes on until
  the master is idle again. Between two calls the rest of the bus state may change in any way.
\<close>

inductive master_request ::
  "(nat \<Rightarrow> rs485_frame_t \<Rightarrow> 'w rs485_sys \<Rightarrow> 'w rs485_sys) \<Rightarrow> 'w platform \<Rightarrow>
   rs485_master_event_type_t list \<Rightarrow> rs485_master \<Rightarrow> bool"
  for call P where
  first: "master_inv m \<Longrightarrow> master_phase_of m = Idle \<Longrightarrow>
    rs485_master_process_one call P (m, s) = (r, e, m', s') \<Longrightarrow> me_type e = RS485_MASTER_EVENT_TX \<Longrightarrow>
    master_request call P [RS485_MASTER_EVENT_TX] m'"
| continue: "master_request call P tr m \<Longrightarrow> master_phase_of m \<noteq> Idle \<Longrightarrow>
    rs485_master_process_one call P (m, s) = (r, e, m', s') \<Longrightarrow> master_request call P (tr @ [me_type e]) m'"

definition transmissions :: "rs485_master_event_type_t list \<Rightarrow> nat" where
  "transmissions tr = length (List.filter (\<lambda>e. e = RS485_MASTER_EVENT_TX) tr)"

definition attempts_ok :: "rs485_master_event_type_t list \<Rightarrow> master_phase \<Rightarrow> bool" where
  "attempts_ok tr p \<longleftrightarrow> (case p of
     Idle \<Rightarrow> transmissions tr \<le> 3 \<and> (last tr = RS485_MASTER_EVENT_TIMEOUT \<longrightarrow> transmissions tr = 3)
   | Waiting n msg k \<Rightarrow> k < 3 \<and> transmissions tr = Suc k
   | Backoff n msg k \<Rightarrow> k < 3 \<and> transmissions tr = k)"

lemma attempts_step:
  assumes "attempts_ok tr p" "p \<noteq> Idle" "master_step p e q"
  shows "attempts_ok (tr @ [e]) q"
proof (cases p)
  case Idle
  with assms(2) show ?thesis by simp
next
  case (Waiting n msg k)
  with assms(1,3) show ?thesis
    by (auto elim!: master_step_Waiting simp: attempts_ok_def transmissions_def)
next
  case (Backoff n msg k)
  with assms(1,3) show ?thesis
    by (auto elim!: master_step_Backoff simp: attempts_ok_def transmissions_def)
qed

lemma master_request_attempts:
  "master_request call P tr m \<Longrightarrow> master_inv m \<and> attempts_ok tr (master_phase_of m)"
proof (induction rule: master_request.induct)
  case (first m s r e m' s')
  with process_one_step [OF first(1), of call P s]
  have "master_inv m'" "master_step Idle RS485_MASTER_EVENT_TX (master_phase_of m')" by simp_all
  then show ?case by (auto elim!: master_step_Idle simp: attempts_ok_def transmissions_def)
next
  case (continue tr m s r e m' s')
  with process_one_step [of m call P s]
  have "master_inv m'" "master_step (master_phase_of m) (me_type e) (master_phase_of m')" by simp_all
  with attempts_step continue show ?case by blast
qed

section \<open>Properties\<close>

text \<open>
  C3: the master refines the polling automaton. From the initialised state, which is idle, each
  call of the processing function keeps the invariant (a request outstanding has a node in 1 to
  64 and a message id that is not 0, fewer than three failed attempts, and only its node has a
  retry count) and makes exactly one step of the automaton, labelled with the event it reports.
\<close>

theorem rs485_master_refines_automaton:
  "(master_inv (fst (rs485_master_init P (m, s))) \<and> master_phase_of (fst (rs485_master_init P (m, s))) = Idle) \<and>
   (master_inv m \<longrightarrow> (case rs485_master_process_one call P (m, s) of (r, e, m', s') \<Rightarrow>
      master_inv m' \<and> master_step (master_phase_of m) (me_type e) (master_phase_of m')))"
  using master_init_inv [of P m s] process_one_step [of m call P s] by simp

text \<open>The static variables before the initialisation, and the master after it.\<close>

definition zero_master :: rs485_master where
  "zero_master = \<lparr>ma_nodes = replicate 64 \<lparr>ns_id = 0, ns_online = 0, ns_retry_count = 0, ns_last_seen_ms = 0\<rparr>,
     ma_current_node = 0, ma_awaiting_node = 0, ma_waiting_response = False, ma_retry_pending = False,
     ma_metrics = zero_master_metrics, ma_profile = zero_profile, ma_current_msg_id = 0,
     ma_msg_id_counter = 1, ma_request_start_us = 0, ma_next_poll_due_us = 0\<rparr>"

definition demo_master :: rs485_master where
  "demo_master = fst (rs485_master_init sim_platform (zero_master, demo_rs485))"

text \<open>The first call after the initialisation, on a silent bus.\<close>

theorem rs485_master_refines_automaton_witness:
  "case rs485_master_process_one (\<lambda>_ _ s. s) sim_platform (demo_master, demo_rs485) of
   (r, e, m', s') \<Rightarrow> master_inv m' \<and> master_step Idle (me_type e) (master_phase_of m')"
  using rs485_master_refines_automaton [of sim_platform zero_master demo_rs485]
    rs485_master_refines_automaton [of sim_platform demo_master demo_rs485 "\<lambda>_ _ s. s"]
  by (simp add: demo_master_def)

text \<open>
  C18: a request is transmitted at most three times, whatever the other parts of the bus do
  between two calls, and the master reports a timeout only after the third transmission.
\<close>

theorem rs485_request_at_most_three_times:
  assumes "master_request call P tr m"
  shows "transmissions tr \<le> 3 \<and>
    (master_phase_of m = Idle \<and> last tr = RS485_MASTER_EVENT_TIMEOUT \<longrightarrow> transmissions tr = 3)"
  using master_request_attempts [OF assms]
  by (cases "master_phase_of m") (auto simp: attempts_ok_def)

lemma demo_silent_receive:
  assumes "sim_rx w = []"
  shows "\<exists>s. rs485_engine_receive call sim_platform g (demo_rs485\<lparr>rs_world := w\<rparr>) = (RS485_ENGINE_RX_NONE, g, s) \<and>
    sim_now (rs_world s) = sim_now w + sim_step w \<and> sim_step (rs_world s) = sim_step w"
proof -
  have "rs485_tx_service sim_platform (demo_hal, w) = (demo_hal, w)"
    by (simp add: rs485_tx_service_def demo_hal_def idle_tx_def)
  moreover obtain h where "rs485_poll_rx sim_platform (demo_hal, w) = (h, w\<lparr>sim_now := sim_now w + sim_step w\<rparr>)"
    "hal_rx_head h = 0" "hal_rx_tail h = 0"
    using assms by (simp add: rs485_poll_rx_def demo_hal_def demo_cfg_def zero_hal_metrics_def idle_tx_def Let_def)
  moreover have "rx_drain n h = ([], h)" if "hal_rx_head h = 0" "hal_rx_tail h = 0" for n h
    using that by (cases n) (simp_all add: rx_pop_def)
  ultimately have "\<exists>h. rs485_read_bytes sim_platform 16 (demo_hal, w) = ([], h, w\<lparr>sim_now := sim_now w + sim_step w\<rparr>)"
    by (simp add: rs485_read_bytes_def)
  then show ?thesis
    by (auto simp: rs485_engine_receive_def receive_feed_def demo_rs485_def demo_engine_def
        RS485_ENGINE_RX_BYTES_PER_CALL_def idle_parser_def parser_frame_available_def)
qed

text \<open>On a silent bus, 10 ms after the initialisation, the master sends its first poll.\<close>

theorem rs485_request_at_most_three_times_witness:
  "\<exists>tr m. master_request (\<lambda>_ _ s. s) sim_platform tr m \<and> tr = [RS485_MASTER_EVENT_TX] \<and> transmissions tr \<le> 3"
proof -
  let ?w = "sim_init\<lparr>sim_now := 1010000\<rparr>"
  let ?s = "demo_rs485\<lparr>rs_world := ?w\<rparr>"
  obtain s where rcv: "rs485_engine_receive (\<lambda>_ _ s. s) sim_platform zero_frame ?s = (RS485_ENGINE_RX_NONE, zero_frame, s)"
    "sim_now (rs_world s) = 1010000" "sim_step (rs_world s) = 0"
    using demo_silent_receive [of ?w "\<lambda>_ _ s. s" zero_frame] by (auto simp: sim_simps)
  have inv: "master_inv demo_master" "master_phase_of demo_master = Idle"
    using master_init_inv [of sim_platform zero_master demo_rs485] by (simp_all add: demo_master_def)
  have due: "\<not> ma_waiting_response demo_master" "ma_next_poll_due_us demo_master = 1004000"
    by (simp_all add: demo_master_def rs485_master_init_def Let_def case_prod_unfold profile_defs
        rs485_master_now_us_def rs485_engine_init_def node_identity_init_def demo_rs485_def sim_simps
        rs485_master_idle_interval_us_def rs485_engine_self_test_enabled_def demo_engine_def
        rs485_engine_enable_def IDLE_POLL_INTERVAL_US_def)
  let ?r = "rs485_master_process_one (\<lambda>_ _ s. s) sim_platform (demo_master, ?s)"
  have "me_type (fst (snd ?r)) = RS485_MASTER_EVENT_TX"
    using rcv due
    by (simp add: rs485_master_process_one_def rs485_master_now_us_def case_prod_unfold Let_def sim_simps
        profile_rx_def process_send_def)
  moreover obtain b e m' s' where "?r = (b, e, m', s')" by (cases ?r) auto
  ultimately have one: "?r = (b, e, m', s')" "me_type e = RS485_MASTER_EVENT_TX" by simp_all
  then have run: "master_request (\<lambda>_ _ s. s) sim_platform [RS485_MASTER_EVENT_TX] m'"
    using master_request.first inv by metis
  with rs485_request_at_most_three_times [OF run] show ?thesis by blast
qed

text \<open>The nodes of \<open>k\<close> successive new requests.\<close>

primrec poll_sequence :: "nat \<Rightarrow> rs485_master \<Rightarrow> u8 list" where
  "poll_sequence 0 m = []"
| "poll_sequence (Suc k) m =
     (case choose_request False m of (node, msg, m') \<Rightarrow> node # poll_sequence k m')"

lemma choose_request_new:
  assumes "\<not> ma_retry_pending m" "unat (ma_current_node m) < 64"
  shows "\<exists>msg m'. choose_request False m = (of_nat (Suc (unat (ma_current_node m))), msg, m') \<and>
    \<not> ma_retry_pending m' \<and> unat (ma_current_node m') = Suc (unat (ma_current_node m)) mod 64"
proof -
  have u: "unat (ma_current_node m + 1) = Suc (unat (ma_current_node m))"
    using succ_node [OF assms(2)] by blast
  have "of_nat (Suc (unat (ma_current_node m))) = ma_current_node m + 1"
    by (simp add: add.commute)
  with assms u show ?thesis
    by (auto simp: choose_request_def next_msg_id_def Let_def RS485_MAX_NODES_def mod_if)
qed

text \<open>
  Outside the self test, new requests go round-robin through the 64 nodes: starting after
  the current node \<open>c\<close>, the \<open>i\<close>-th new request polls node \<open>(c + i) mod 64 + 1\<close>, so 64 successive
  new requests poll every node exactly once.
\<close>

theorem rs485_master_round_robin:
  assumes "\<not> ma_retry_pending m" "unat (ma_current_node m) < 64"
  shows "poll_sequence k m = map (\<lambda>i. of_nat ((unat (ma_current_node m) + i) mod 64 + 1)) [0..<k]"
  using assms
proof (induction k arbitrary: m)
  case 0
  then show ?case by simp
next
  case (Suc k)
  from choose_request_new [OF Suc.prems] obtain msg m' where
    m': "choose_request False m = (of_nat (Suc (unat (ma_current_node m))), msg, m')"
    "\<not> ma_retry_pending m'" "unat (ma_current_node m') = Suc (unat (ma_current_node m)) mod 64" by blast
  have "unat (ma_current_node m') < 64" using m'(3) by simp
  from Suc.IH [OF m'(2) this] m' show ?case
    using Suc.prems(2) by (simp add: upt_conv_Cons map_Suc_upt [symmetric] comp_def mod_simps del: upt_Suc map_Suc_upt)
qed

theorem rs485_master_round_robin_witness:
  "poll_sequence 3 (zero_master\<lparr>ma_current_node := 62\<rparr>) = [63, 64, 1]"
  using rs485_master_round_robin [of "zero_master\<lparr>ma_current_node := 62\<rparr>" 3]
  by (simp add: zero_master_def upt_rec)

end
