(* ===== verification/Fieldbus.thy ===== *)
theory Fieldbus
  imports Rs485_Master
begin

text \<open>
  The fieldbus cycle (\<open>runtime/fieldbus/fieldbus.c\<close>) and its statistics
  (\<open>bus_health_monitor.c\<close>, \<open>latency_histogram.c\<close>). Whether the device profile enables the RS485
  transport, and whether the node is a gateway, are arguments of the initialisation. What the
  log functions print is their result.
\<close>

section \<open>Latency histogram\<close>

record latency_histogram =
  lh_lt100 :: u32
  lh_100_200 :: u32
  lh_200_500 :: u32
  lh_gt500 :: u32
  lh_sample_count :: u32

definition latency_histogram_init :: latency_histogram where
  "latency_histogram_init = \<lparr>lh_lt100 = 0, lh_100_200 = 0, lh_200_500 = 0, lh_gt500 = 0, lh_sample_count = 0\<rparr>"

definition latency_histogram_record :: "u32 \<Rightarrow> latency_histogram \<Rightarrow> latency_histogram" where
  "latency_histogram_record latency_us h =
     (let h = h\<lparr>lh_sample_count := lh_sample_count h + 1\<rparr> in
      if latency_us < 100 then h\<lparr>lh_lt100 := lh_lt100 h + 1\<rparr>
      else if latency_us < 200 then h\<lparr>lh_100_200 := lh_100_200 h + 1\<rparr>
      else if latency_us < 500 then h\<lparr>lh_200_500 := lh_200_500 h + 1\<rparr>
      else h\<lparr>lh_gt500 := lh_gt500 h + 1\<rparr>)"

text \<open>The four percentages that are logged; nothing without samples.\<close>

definition latency_histogram_log :: "latency_histogram \<Rightarrow> (u32 \<times> u32 \<times> u32 \<times> u32) option" where
  "latency_histogram_log h =
     (if lh_sample_count h = 0 then None
      else Some (lh_lt100 h * 100 div lh_sample_count h, lh_100_200 h * 100 div lh_sample_count h,
                 lh_200_500 h * 100 div lh_sample_count h, lh_gt500 h * 100 div lh_sample_count h))"

section \<open>Bus health\<close>

record bus_health_metrics_t =
  bh_crc_errors :: u32
  bh_timeouts :: u32
  bh_retries :: u32
  bh_avg_latency_us :: u32
  bh_max_latency_us :: u32

record bus_health =
  bh_metrics :: bus_health_metrics_t
  bh_latency_sum :: u64
  bh_latency_count :: u32

definition bus_health_init :: bus_health where
  "bus_health_init = \<lparr>bh_metrics = \<lparr>bh_crc_errors = 0, bh_timeouts = 0, bh_retries = 0, bh_avg_latency_us = 0,
     bh_max_latency_us = 0\<rparr>, bh_latency_sum = 0, bh_latency_count = 0\<rparr>"

definition bus_health_crc_error :: "bus_health \<Rightarrow> bus_health" where
  "bus_health_crc_error b = b\<lparr>bh_metrics := (bh_metrics b)\<lparr>bh_crc_errors := bh_crc_errors (bh_metrics b) + 1\<rparr>\<rparr>"

definition bus_health_timeout :: "bus_health \<Rightarrow> bus_health" where
  "bus_health_timeout b = b\<lparr>bh_metrics := (bh_metrics b)\<lparr>bh_timeouts := bh_timeouts (bh_metrics b) + 1\<rparr>\<rparr>"

definition bus_health_retry :: "bus_health \<Rightarrow> bus_health" where
  "bus_health_retry b = b\<lparr>bh_metrics := (bh_metrics b)\<lparr>bh_retries := bh_retries (bh_metrics b) + 1\<rparr>\<rparr>"

definition bus_health_latency :: "u32 \<Rightarrow> bus_health \<Rightarrow> bus_health" where
  "bus_health_latency latency b =
     (let b = b\<lparr>bh_latency_sum := bh_latency_sum b + ucast latency, bh_latency_count := bh_latency_count b + 1\<rparr>;
          b = (if latency > bh_max_latency_us (bh_metrics b)
               then b\<lparr>bh_metrics := (bh_metrics b)\<lparr>bh_max_latency_us := latency\<rparr>\<rparr> else b)
      in if bh_latency_count b \<noteq> 0
         then b\<lparr>bh_metrics := (bh_metrics b)\<lparr>bh_avg_latency_us :=
                  ucast (bh_latency_sum b div ucast (bh_latency_count b))\<rparr>\<rparr>
         else b)"

section \<open>The cycle\<close>

definition FIELDBUS_PROFILE_LOG_CYCLES :: u32 where "FIELDBUS_PROFILE_LOG_CYCLES = 2000"

record fieldbus_profile_acc_t =
  fp_cycles :: u32
  fp_engine_sum_us :: u32
  fp_engine_max_us :: u32
  fp_master_calls :: u32
  fp_master_sum_us :: u32
  fp_master_max_us :: u32
  fp_event_calls :: u32
  fp_event_sum_us :: u32
  fp_event_max_us :: u32
  fp_total_sum_us :: u32
  fp_total_max_us :: u32

record fieldbus_profile_snapshot_t =
  fs_cycles :: u32
  fs_engine_avg_us :: u32
  fs_engine_max_us :: u32
  fs_master_calls :: u32
  fs_master_avg_us :: u32
  fs_master_max_us :: u32
  fs_event_calls :: u32
  fs_event_avg_us :: u32
  fs_event_max_us :: u32
  fs_total_avg_us :: u32
  fs_total_max_us :: u32

record 'w fieldbus =
  fb_bus_last_activity :: u64
  fb_histogram_cycle :: u32
  fb_histogram_log_request :: bool
  fb_profile :: fieldbus_profile_acc_t
  fb_profile_log_request :: bool
  fb_rs485_runtime_enabled :: bool
  fb_rs485_master_enabled :: bool
  fb_histogram :: latency_histogram
  fb_health :: bus_health
  fb_master :: rs485_master
  fb_bus :: "'w rs485_sys"

definition zero_fieldbus_profile :: fieldbus_profile_acc_t where
  "zero_fieldbus_profile = \<lparr>fp_cycles = 0, fp_engine_sum_us = 0, fp_engine_max_us = 0, fp_master_calls = 0,
     fp_master_sum_us = 0, fp_master_max_us = 0, fp_event_calls = 0, fp_event_sum_us = 0, fp_event_max_us = 0,
     fp_total_sum_us = 0, fp_total_max_us = 0\<rparr>"

definition time_diff_us :: "u64 \<Rightarrow> u64 \<Rightarrow> u32" where
  "time_diff_us start end_us = ucast (if end_us \<ge> start then end_us - start else 0)"

definition fieldbus_profile_reset :: "'w fieldbus \<Rightarrow> 'w fieldbus" where
  "fieldbus_profile_reset fb = fb\<lparr>fb_profile := zero_fieldbus_profile\<rparr>"

definition fieldbus_profile_snapshot :: "bool \<Rightarrow> 'w fieldbus \<Rightarrow> fieldbus_profile_snapshot_t \<times> 'w fieldbus" where
  "fieldbus_profile_snapshot reset fb =
     (let p = fb_profile fb; avg = (\<lambda>sum n. if n \<noteq> 0 then sum div n else 0)
      in (\<lparr>fs_cycles = fp_cycles p, fs_engine_avg_us = avg (fp_engine_sum_us p) (fp_cycles p),
           fs_engine_max_us = fp_engine_max_us p, fs_master_calls = fp_master_calls p,
           fs_master_avg_us = avg (fp_master_sum_us p) (fp_master_calls p), fs_master_max_us = fp_master_max_us p,
           fs_event_calls = fp_event_calls p, fs_event_avg_us = avg (fp_event_sum_us p) (fp_event_calls p),
           fs_event_max_us = fp_event_max_us p, fs_total_avg_us = avg (fp_total_sum_us p) (fp_cycles p),
           fs_total_max_us = fp_total_max_us p\<rparr>,
          if reset then fieldbus_profile_reset fb else fb))"

text \<open>The role rule: only a gateway with the RS485 transport enabled polls the bus.\<close>

definition fieldbus_should_run_rs485_master :: "bool \<Rightarrow> bool \<Rightarrow> bool" where
  "fieldbus_should_run_rs485_master rs485_transport gateway =
     (if \<not> rs485_transport then False else if gateway then True else False)"

definition fb_now :: "'w platform \<Rightarrow> 'w fieldbus \<Rightarrow> u64 \<times> 'w fieldbus" where
  "fb_now P fb = (case rs485_master_now_us P (fb_bus fb) of (t, s) \<Rightarrow> (t, fb\<lparr>fb_bus := s\<rparr>))"

definition fieldbus_init :: "'w platform \<Rightarrow> bool \<Rightarrow> bool \<Rightarrow> 'w fieldbus \<Rightarrow> 'w fieldbus" where
  "fieldbus_init P rs485_transport gateway fb =
     (let fb = fb\<lparr>fb_rs485_runtime_enabled := False, fb_rs485_master_enabled := False, fb_histogram_cycle := 0,
                 fb_histogram_log_request := False, fb_profile_log_request := False,
                 fb_histogram := latency_histogram_init, fb_health := bus_health_init\<rparr>
      in case fb_now P fb of (t, fb) \<Rightarrow>
        let fb = fieldbus_profile_reset (fb\<lparr>fb_bus_last_activity := t\<rparr>) in
        if \<not> rs485_transport then fb
        else let fb = fb\<lparr>fb_rs485_runtime_enabled := True,
                       fb_rs485_master_enabled := fieldbus_should_run_rs485_master rs485_transport gateway\<rparr>
          in if fb_rs485_master_enabled fb
             then (case rs485_master_init P (fb_master fb, fb_bus fb) of (m, s) \<Rightarrow> fb\<lparr>fb_master := m, fb_bus := s\<rparr>)
             else let s = rs485_engine_init P (fb_bus fb)
                  in fb\<lparr>fb_bus := s\<lparr>rs_engine := rs485_engine_enable (rs_engine s)\<rparr>\<rparr>)"

definition bus_watchdog :: "u64 \<Rightarrow> 'w fieldbus \<Rightarrow> 'w fieldbus" where
  "bus_watchdog now fb =
     (if now - fb_bus_last_activity fb > 2000000 then fb\<lparr>fb_bus_last_activity := now\<rparr> else fb)"

definition fieldbus_handle_event :: "rs485_master_event_t \<Rightarrow> u64 \<Rightarrow> 'w fieldbus \<Rightarrow> 'w fieldbus" where
  "fieldbus_handle_event e now fb =
     (case me_type e of
        RS485_MASTER_EVENT_TX \<Rightarrow> fb\<lparr>fb_bus_last_activity := now\<rparr>
      | RS485_MASTER_EVENT_ACK \<Rightarrow> fb\<lparr>fb_bus_last_activity := now,
          fb_histogram := latency_histogram_record (me_latency_us e) (fb_histogram fb),
          fb_health := bus_health_latency (me_latency_us e) (fb_health fb)\<rparr>
      | RS485_MASTER_EVENT_RETRY \<Rightarrow> fb\<lparr>fb_bus_last_activity := now, fb_health := bus_health_retry (fb_health fb)\<rparr>
      | RS485_MASTER_EVENT_TIMEOUT \<Rightarrow> fb\<lparr>fb_bus_last_activity := now, fb_health := bus_health_timeout (fb_health fb)\<rparr>
      | RS485_MASTER_EVENT_CRC_ERROR \<Rightarrow> fb\<lparr>fb_bus_last_activity := now, fb_health := bus_health_crc_error (fb_health fb)\<rparr>
      | RS485_MASTER_EVENT_RX_IGNORED \<Rightarrow> fb
      | RS485_MASTER_EVENT_NONE \<Rightarrow> fb)"

definition fieldbus_handle_passive_rx :: "rs485_engine_rx_result_t \<Rightarrow> u64 \<Rightarrow> 'w fieldbus \<Rightarrow> 'w fieldbus" where
  "fieldbus_handle_passive_rx rx now fb =
     (case rx of
        RS485_ENGINE_RX_FRAME \<Rightarrow> fb\<lparr>fb_bus_last_activity := now\<rparr>
      | RS485_ENGINE_RX_CRC_ERROR \<Rightarrow> fb\<lparr>fb_bus_last_activity := now, fb_health := bus_health_crc_error (fb_health fb)\<rparr>
      | RS485_ENGINE_RX_FORMAT_ERROR \<Rightarrow> fb\<lparr>fb_bus_last_activity := now\<rparr>
      | RS485_ENGINE_RX_NONE \<Rightarrow> fb)"

text \<open>The users of \<open>profile_accumulate\<close> in the tick.\<close>

definition fb_profile_engine :: "u32 \<Rightarrow> 'w fieldbus \<Rightarrow> 'w fieldbus" where
  "fb_profile_engine dt fb = fb\<lparr>fb_profile := (fb_profile fb)\<lparr>fp_engine_sum_us := fp_engine_sum_us (fb_profile fb) + dt,
     fp_engine_max_us := max_u32 dt (fp_engine_max_us (fb_profile fb))\<rparr>\<rparr>"

definition fb_profile_master :: "u32 \<Rightarrow> 'w fieldbus \<Rightarrow> 'w fieldbus" where
  "fb_profile_master dt fb = fb\<lparr>fb_profile := (fb_profile fb)\<lparr>fp_master_calls := fp_master_calls (fb_profile fb) + 1,
     fp_master_sum_us := fp_master_sum_us (fb_profile fb) + dt,
     fp_master_max_us := max_u32 dt (fp_master_max_us (fb_profile fb))\<rparr>\<rparr>"

definition fb_profile_event :: "u32 \<Rightarrow> 'w fieldbus \<Rightarrow> 'w fieldbus" where
  "fb_profile_event dt fb = fb\<lparr>fb_profile := (fb_profile fb)\<lparr>fp_event_calls := fp_event_calls (fb_profile fb) + 1,
     fp_event_sum_us := fp_event_sum_us (fb_profile fb) + dt,
     fp_event_max_us := max_u32 dt (fp_event_max_us (fb_profile fb))\<rparr>\<rparr>"

definition fb_profile_total :: "u32 \<Rightarrow> 'w fieldbus \<Rightarrow> 'w fieldbus" where
  "fb_profile_total dt fb = fb\<lparr>fb_profile := (fb_profile fb)\<lparr>fp_cycles := fp_cycles (fb_profile fb) + 1,
     fp_total_sum_us := fp_total_sum_us (fb_profile fb) + dt,
     fp_total_max_us := max_u32 dt (fp_total_max_us (fb_profile fb))\<rparr>\<rparr>"

text \<open>The role-dependent part of the tick: master processing, or reception as a responder.\<close>

definition tick_master ::
  "(nat \<Rightarrow> rs485_frame_t \<Rightarrow> 'w rs485_sys \<Rightarrow> 'w rs485_sys) \<Rightarrow> 'w platform \<Rightarrow> 'w fieldbus \<Rightarrow> 'w fieldbus" where
  "tick_master call P fb =
     (case rs485_master_has_work P (fb_master fb, fb_bus fb) of (work, s) \<Rightarrow>
      let fb = fb\<lparr>fb_bus := s\<rparr> in
      if \<not> work then fb
      else case fb_now P fb of (t0, fb) \<Rightarrow>
        case rs485_master_process_one call P (fb_master fb, fb_bus fb) of (handled, e, m, s) \<Rightarrow>
        let fb = fb\<lparr>fb_master := m, fb_bus := s\<rparr> in
        case fb_now P fb of (t1, fb) \<Rightarrow>
        let fb = fb_profile_master (time_diff_us t0 t1) fb in
        if \<not> handled then fb
        else case fb_now P fb of (t0, fb) \<Rightarrow>
          case fb_now P fb of (now, fb) \<Rightarrow>
          let fb = fieldbus_handle_event e now fb in
          case fb_now P fb of (t1, fb) \<Rightarrow> fb_profile_event (time_diff_us t0 t1) fb)"

definition tick_passive ::
  "(nat \<Rightarrow> rs485_frame_t \<Rightarrow> 'w rs485_sys \<Rightarrow> 'w rs485_sys) \<Rightarrow> 'w platform \<Rightarrow> 'w fieldbus \<Rightarrow> 'w fieldbus" where
  "tick_passive call P fb =
     (case fb_now P fb of (t0, fb) \<Rightarrow>
      case rs485_engine_receive call P zero_frame (fb_bus fb) of (rx, f, s) \<Rightarrow>
      let fb = fb\<lparr>fb_bus := s\<rparr> in
      case fb_now P fb of (t1, fb) \<Rightarrow>
      let fb = fb_profile_master (time_diff_us t0 t1) fb in
      if rx = RS485_ENGINE_RX_NONE then fb
      else case fb_now P fb of (t0, fb) \<Rightarrow>
        case fb_now P fb of (now, fb) \<Rightarrow>
        let fb = fieldbus_handle_passive_rx rx now fb in
        case fb_now P fb of (t1, fb) \<Rightarrow> fb_profile_event (time_diff_us t0 t1) fb)"

definition tick_role ::
  "(nat \<Rightarrow> rs485_frame_t \<Rightarrow> 'w rs485_sys \<Rightarrow> 'w rs485_sys) \<Rightarrow> 'w platform \<Rightarrow> 'w fieldbus \<Rightarrow> 'w fieldbus" where
  "tick_role call P fb = (if fb_rs485_master_enabled fb then tick_master call P fb else tick_passive call P fb)"

definition tick_histogram_cycle :: "'w fieldbus \<Rightarrow> 'w fieldbus" where
  "tick_histogram_cycle fb =
     (let fb = fb\<lparr>fb_histogram_cycle := fb_histogram_cycle fb + 1\<rparr> in
      if fb_histogram_cycle fb \<ge> 10000
      then fb\<lparr>fb_histogram_cycle := 0, fb_histogram_log_request := True\<rparr> else fb)"

definition fieldbus_tick ::
  "(nat \<Rightarrow> rs485_frame_t \<Rightarrow> 'w rs485_sys \<Rightarrow> 'w rs485_sys) \<Rightarrow> 'w platform \<Rightarrow> 'w fieldbus \<Rightarrow> 'w fieldbus" where
  "fieldbus_tick call P fb =
     (case fb_now P fb of (total_start, fb) \<Rightarrow>
      if \<not> fb_rs485_runtime_enabled fb then fb
      else case fb_now P fb of (t0, fb) \<Rightarrow>
        let fb = fb\<lparr>fb_bus := rs485_engine_tick_1ms P (fb_bus fb)\<rparr> in
        case fb_now P fb of (t1, fb) \<Rightarrow>
        let fb = fb_profile_engine (time_diff_us t0 t1) fb;
            fb = tick_role call P fb;
            fb = tick_histogram_cycle fb
        in case fb_now P fb of (t, fb) \<Rightarrow>
          let fb = fb_profile_total (time_diff_us total_start t) fb;
              fb = (if fp_cycles (fb_profile fb) \<ge> FIELDBUS_PROFILE_LOG_CYCLES
                    then fb\<lparr>fb_profile_log_request := True\<rparr> else fb)
          in case fb_now P fb of (t, fb) \<Rightarrow> bus_watchdog t fb)"

text \<open>What is logged: the profiles when they were requested, and the histogram.\<close>

definition fieldbus_process_logs ::
  "'w fieldbus \<Rightarrow> (fieldbus_profile_snapshot_t \<times> rs485_master_profile_metrics_t option) option \<times>
     (u32 \<times> u32 \<times> u32 \<times> u32) option \<times> 'w fieldbus" where
  "fieldbus_process_logs fb =
     (if \<not> fb_rs485_runtime_enabled fb
      then (None, None, fb\<lparr>fb_histogram_log_request := False, fb_profile_log_request := False\<rparr>)
      else case (if fb_profile_log_request fb
             then (case fieldbus_profile_snapshot True (fb\<lparr>fb_profile_log_request := False\<rparr>) of (snap, fb) \<Rightarrow>
               if fb_rs485_master_enabled fb
               then (case rs485_master_profile_snapshot True (fb_master fb) of (mp, m) \<Rightarrow>
                       (Some (snap, Some mp), fb\<lparr>fb_master := m\<rparr>))
               else (Some (snap, None), fb))
             else (None, fb)) of (prof, fb) \<Rightarrow>
        if fb_histogram_log_request fb
        then (prof, latency_histogram_log (fb_histogram fb), fb\<lparr>fb_histogram_log_request := False\<rparr>)
        else (prof, None, fb))"

section \<open>Statistics\<close>

lemma unat_ucast_32_64_add:
  assumes "unat (x :: u64) + unat (y :: u32) < 2 ^ 64"
  shows "unat (x + ucast y) = unat x + unat y"
  using assms by (simp add: unat_word_ariths unat_ucast_32_64)

lemma hist_sum_record:
  "lh_lt100 h + lh_100_200 h + lh_200_500 h + lh_gt500 h = lh_sample_count h \<Longrightarrow>
   let h' = latency_histogram_record l h in
     lh_lt100 h' + lh_100_200 h' + lh_200_500 h' + lh_gt500 h' = lh_sample_count h'"
  by (simp add: latency_histogram_record_def Let_def ac_simps)

definition health_matches :: "u32 list \<Rightarrow> bus_health \<Rightarrow> bool" where
  "health_matches ls b \<longleftrightarrow> unat (bh_latency_sum b) = sum_list (map unat ls) \<and>
     unat (bh_latency_count b) = length ls \<and>
     bh_max_latency_us (bh_metrics b) = fold max ls 0 \<and>
     (ls \<noteq> [] \<longrightarrow> unat (bh_avg_latency_us (bh_metrics b)) = sum_list (map unat ls) div length ls)"

lemma sum_list_u32_bound: "sum_list (map unat (ls :: u32 list)) \<le> length ls * 4294967295"
proof (induction ls)
  case (Cons l ls)
  then show ?case using unat_u32_lt [of l] by simp
qed simp

lemma health_step:
  assumes "health_matches ls b" "Suc (length ls) < 2 ^ 32"
  shows "health_matches (ls @ [l]) (bus_health_latency l b)"
proof -
  let ?sum = "sum_list (map unat ls) + unat l"
  have bound: "?sum \<le> Suc (length ls) * 4294967295"
    using sum_list_u32_bound [of "ls @ [l]"] by simp
  have "Suc (length ls) * 4294967295 < 2 ^ 64" using assms(2) by simp
  with bound have s: "unat (bh_latency_sum b + ucast l) = ?sum"
    using assms(1) by (subst unat_ucast_32_64_add) (simp_all add: health_matches_def)
  have c: "unat (bh_latency_count b + 1) = Suc (length ls)"
    using assms by (simp add: health_matches_def unat_word_ariths)
  then have nz: "bh_latency_count b + 1 \<noteq> 0" by (metis nat.distinct(1) unat_0)
  have d: "unat ((bh_latency_sum b + ucast l) div ucast (bh_latency_count b + 1)) = ?sum div Suc (length ls)"
    by (simp add: unat_div_distrib s unat_ucast_32_64 c)
  have "?sum div Suc (length ls) \<le> 4294967295"
    using bound by (metis div_le_mono nonzero_mult_div_cancel_left nat.distinct(1))
  then have a: "unat (ucast ((bh_latency_sum b + ucast l) div ucast (bh_latency_count b + 1)) :: u32)
      = ?sum div Suc (length ls)"
    by (simp add: unsigned_ucast_eq d take_bit_nat_eq_self)
  have m: "bh_max_latency_us (bh_metrics (bus_health_latency l b)) = max l (bh_max_latency_us (bh_metrics b))"
    by (auto simp: bus_health_latency_def Let_def max_def)
  show ?thesis
    using assms(1) s c nz a m
    by (simp add: health_matches_def bus_health_latency_def Let_def)
qed

lemma health_fold:
  "health_matches ks b \<Longrightarrow> length ks + length ls < 2 ^ 32 \<Longrightarrow>
   health_matches (ks @ ls) (fold bus_health_latency ls b)"
proof (induction ls arbitrary: ks b)
  case (Cons l ls)
  then have "health_matches (ks @ [l]) (bus_health_latency l b)" by (intro health_step) simp_all
  from Cons.IH [OF this] Cons.prems(2) show ?case by simp
qed simp

section \<open>Properties\<close>

text \<open>
  The latency statistics are exact: after fewer than \<open>2^32\<close> latencies, the reported average
  is the sum of all of them divided by their number and the reported maximum is their maximum;
  no intermediate sum wraps.
\<close>

theorem bus_health_statistics_exact:
  assumes "ls \<noteq> []" "length ls < 2 ^ 32"
  shows "let m = bh_metrics (fold bus_health_latency ls bus_health_init) in
    unat (bh_avg_latency_us m) = sum_list (map unat ls) div length ls \<and>
    bh_max_latency_us m = fold max ls 0 \<and> bh_avg_latency_us m \<le> bh_max_latency_us m"
proof -
  have "health_matches [] bus_health_init" by (simp add: health_matches_def bus_health_init_def)
  then have h: "health_matches ls (fold bus_health_latency ls bus_health_init)"
    using health_fold [of "[]" bus_health_init ls] assms(2) by simp
  have "sum_list (map unat ls) \<le> length ls * unat (fold max ls 0)"
  proof -
    have ge: "c \<le> fold max xs c" for c and xs :: "u32 list"
      by (induction xs arbitrary: c) (auto intro: order_trans max.cobounded2)
    have "x \<in> set xs \<Longrightarrow> x \<le> fold max xs c" for x c and xs :: "u32 list"
    proof (induction xs arbitrary: c)
      case (Cons y xs)
      then show ?case using ge [of "max y c" xs] by (auto intro: order_trans)
    qed simp
    then have "\<forall>x \<in> set ls. unat x \<le> unat (fold max ls 0)" by (simp add: word_le_nat_alt)
    then have "sum_list (map unat ls) \<le> sum_list (map (\<lambda>_. unat (fold max ls 0)) ls)"
      by (intro sum_list_mono) simp
    then show ?thesis by (simp add: map_replicate_const sum_list_replicate)
  qed
  then have "sum_list (map unat ls) div length ls \<le> unat (fold max ls 0)"
    using assms(1) by (metis div_le_mono length_0_conv nonzero_mult_div_cancel_left)
  with h assms(1) show ?thesis by (simp add: health_matches_def Let_def word_le_nat_alt)
qed

theorem bus_health_statistics_exact_witness:
  "unat (bh_avg_latency_us (bh_metrics (fold bus_health_latency [100, 250, 200] bus_health_init))) = 183"
  using bus_health_statistics_exact [of "[100, 250, 200]"] by (simp add: Let_def)

text \<open>The logged percentage multiplies in 32 bits: 42949673 fast samples of 42949673 are shown as 0 percent.\<close>

lemma latency_percentage_wraps:
  "latency_histogram_log \<lparr>lh_lt100 = 42949673, lh_100_200 = 0, lh_200_500 = 0, lh_gt500 = 0,
     lh_sample_count = 42949673\<rparr> = Some (0, 0, 0, 0)"
proof -
  have "(42949673 * 100 :: u32) = 4" by simp
  moreover have "(4 :: u32) div 42949673 = 0" by (simp add: word_div_def)
  ultimately show ?thesis by (simp add: latency_histogram_log_def)
qed

text \<open>The master's invariant holds in every cycle of the bus.\<close>

definition fieldbus_inv :: "'w fieldbus \<Rightarrow> bool" where
  "fieldbus_inv fb \<longleftrightarrow> (fb_rs485_master_enabled fb \<longrightarrow> master_inv (fb_master fb)) \<and>
     (let h = fb_histogram fb in lh_lt100 h + lh_100_200 h + lh_200_500 h + lh_gt500 h = lh_sample_count h) \<and>
     unat (fb_histogram_cycle fb) < 10000"

lemma fb_now_inv [simp]: "fieldbus_inv (snd (fb_now P fb)) = fieldbus_inv fb"
  by (simp add: fb_now_def fieldbus_inv_def case_prod_unfold)

lemma fb_now_fields [simp]:
  "fb_rs485_master_enabled (snd (fb_now P fb)) = fb_rs485_master_enabled fb"
  "fb_rs485_runtime_enabled (snd (fb_now P fb)) = fb_rs485_runtime_enabled fb"
  "fb_master (snd (fb_now P fb)) = fb_master fb"
  "fb_histogram_cycle (snd (fb_now P fb)) = fb_histogram_cycle fb"
  by (simp_all add: fb_now_def case_prod_unfold)

lemma fb_profile_inv [simp]:
  "fieldbus_inv (fb_profile_engine dt fb) = fieldbus_inv fb"
  "fieldbus_inv (fb_profile_master dt fb) = fieldbus_inv fb"
  "fieldbus_inv (fb_profile_event dt fb) = fieldbus_inv fb"
  "fieldbus_inv (fb_profile_total dt fb) = fieldbus_inv fb"
  "fieldbus_inv (fb\<lparr>fb_bus := s\<rparr>) = fieldbus_inv fb"
  "fieldbus_inv (fb\<lparr>fb_profile_log_request := b\<rparr>) = fieldbus_inv fb"
  "fieldbus_inv (fb\<lparr>fb_histogram_log_request := b\<rparr>) = fieldbus_inv fb"
  by (simp_all add: fieldbus_inv_def fb_profile_engine_def fb_profile_master_def fb_profile_event_def
      fb_profile_total_def)

lemma bus_watchdog_inv [simp]: "fieldbus_inv (bus_watchdog t fb) = fieldbus_inv fb"
  by (simp add: bus_watchdog_def fieldbus_inv_def)

lemma handle_event_inv: "fieldbus_inv fb \<Longrightarrow> fieldbus_inv (fieldbus_handle_event e t fb)"
  using hist_sum_record [of "fb_histogram fb" "me_latency_us e"]
  by (auto simp: fieldbus_inv_def fieldbus_handle_event_def Let_def split: rs485_master_event_type_t.splits)

lemma handle_passive_inv: "fieldbus_inv fb \<Longrightarrow> fieldbus_inv (fieldbus_handle_passive_rx r t fb)"
  by (auto simp: fieldbus_inv_def fieldbus_handle_passive_rx_def Let_def split: rs485_engine_rx_result_t.splits)

lemma set_master_inv:
  "fieldbus_inv fb \<Longrightarrow> master_inv m \<Longrightarrow> fieldbus_inv (fb\<lparr>fb_master := m\<rparr>)"
  by (simp add: fieldbus_inv_def)

lemma tick_master_inv:
  assumes "fieldbus_inv fb" "fb_rs485_master_enabled fb"
  shows "fieldbus_inv (tick_master call P fb)"
proof -
  have m: "master_inv (fb_master fb)" using assms by (simp add: fieldbus_inv_def)
  let ?r = "\<lambda>s. rs485_master_process_one call P (fb_master fb, s)"
  have "master_inv (fst (snd (snd (?r s))))" for s
    using process_one_step [OF m, of call P s] by (simp add: case_prod_unfold)
  then have "fieldbus_inv (fb'\<lparr>fb_master := fst (snd (snd (?r s))), fb_bus := x\<rparr>)"
    if "fieldbus_inv fb'" for fb' s and x :: "'a rs485_sys"
    using set_master_inv [OF that, of "fst (snd (snd (?r s)))"] by simp
  then show ?thesis using assms
    by (simp add: tick_master_def case_prod_unfold Let_def handle_event_inv)
qed

lemma tick_passive_inv: "fieldbus_inv fb \<Longrightarrow> fieldbus_inv (tick_passive call P fb)"
  by (simp add: tick_passive_def case_prod_unfold Let_def handle_passive_inv)

lemma tick_role_inv: "fieldbus_inv fb \<Longrightarrow> fieldbus_inv (tick_role call P fb)"
  by (simp add: tick_role_def tick_master_inv tick_passive_inv)

lemma tick_histogram_cycle_inv: "fieldbus_inv fb \<Longrightarrow> fieldbus_inv (tick_histogram_cycle fb)"
  by (auto simp: fieldbus_inv_def tick_histogram_cycle_def Let_def word_le_nat_alt)

text \<open>
  C31: the bus cycle keeps its invariant, whatever the platform returns: the polling state of a
  master stays valid, the four latency classes always add up to the number of samples, and the
  cycle counter that requests the histogram log stays below 10000.
\<close>

theorem fieldbus_tick_inv:
  assumes "fieldbus_inv fb"
  shows "fieldbus_inv (fieldbus_tick call P fb)"
  using assms
  by (simp add: fieldbus_tick_def case_prod_unfold Let_def tick_role_inv tick_histogram_cycle_inv)

definition demo_fieldbus :: "sim_world fieldbus" where
  "demo_fieldbus = fieldbus_init sim_platform True True \<lparr>fb_bus_last_activity = 0, fb_histogram_cycle = 0,
     fb_histogram_log_request = False, fb_profile = zero_fieldbus_profile, fb_profile_log_request = False,
     fb_rs485_runtime_enabled = False, fb_rs485_master_enabled = False, fb_histogram = latency_histogram_init,
     fb_health = bus_health_init, fb_master = zero_master, fb_bus = demo_rs485\<rparr>"

lemma demo_fieldbus_inv: "fieldbus_inv demo_fieldbus"
  by (simp add: demo_fieldbus_def fieldbus_init_def fieldbus_inv_def Let_def case_prod_unfold
      fieldbus_should_run_rs485_master_def fieldbus_profile_reset_def master_init_inv latency_histogram_init_def
      fb_now_def)

text \<open>A gateway after its initialisation, for a hundred cycles.\<close>

theorem fieldbus_tick_inv_witness:
  "fieldbus_inv ((fieldbus_tick (\<lambda>_ _ s. s) sim_platform ^^ 100) demo_fieldbus)"
proof -
  have "fieldbus_inv ((fieldbus_tick (\<lambda>_ _ s. s) sim_platform ^^ n) demo_fieldbus)" for n
    by (induction n) (simp_all add: demo_fieldbus_inv fieldbus_tick_inv)
  then show ?thesis .
qed

end
