(* ===== verification/Ladder.thy ===== *)
theory Ladder
  imports State_Store
begin

text \<open>
  The ladder bytecode engine (\<open>runtime/ladder/ladder_engine.c\<close>): validation and storage of a
  program, and the scan that interprets it over the state store with timers, counters and a
  stack of or-blocks. The program counter only moves forward, so the interpreter is a total
  function. The timer and counter tables are the lists of their entries in use.
\<close>

section \<open>Model\<close>

definition LADDER_MAX_PROGRAM_SIZE :: nat where "LADDER_MAX_PROGRAM_SIZE = 2048"
definition MAX_TIMERS :: nat where "MAX_TIMERS = 16"
definition MAX_COUNTERS :: nat where "MAX_COUNTERS = 16"
definition MAX_STACK :: nat where "MAX_STACK = 16"

definition OP_LD :: u8 where "OP_LD = 0x01"
definition OP_LDN :: u8 where "OP_LDN = 0x02"
definition OP_AND :: u8 where "OP_AND = 0x03"
definition OP_ANDN :: u8 where "OP_ANDN = 0x04"
definition OP_OR :: u8 where "OP_OR = 0x05"
definition OP_ORN :: u8 where "OP_ORN = 0x06"
definition OP_ST :: u8 where "OP_ST = 0x10"
definition OP_SET :: u8 where "OP_SET = 0x11"
definition OP_RST :: u8 where "OP_RST = 0x12"
definition OP_OR_BLOCK_START :: u8 where "OP_OR_BLOCK_START = 0x20"
definition OP_OR_BLOCK_NEXT :: u8 where "OP_OR_BLOCK_NEXT = 0x21"
definition OP_OR_BLOCK_END :: u8 where "OP_OR_BLOCK_END = 0x22"
definition OP_TON :: u8 where "OP_TON = 0x30"
definition OP_TOF :: u8 where "OP_TOF = 0x31"
definition OP_CTU :: u8 where "OP_CTU = 0x32"
definition OP_CTD :: u8 where "OP_CTD = 0x33"
definition OP_EQU :: u8 where "OP_EQU = 0x40"
definition OP_GRT :: u8 where "OP_GRT = 0x41"
definition OP_LES :: u8 where "OP_LES = 0x42"
definition OP_ADD :: u8 where "OP_ADD = 0x50"
definition OP_SUB :: u8 where "OP_SUB = 0x51"
definition OP_MUL :: u8 where "OP_MUL = 0x52"
definition OP_DIV :: u8 where "OP_DIV = 0x53"

lemmas op_defs = OP_LD_def OP_LDN_def OP_AND_def OP_ANDN_def OP_OR_def OP_ORN_def OP_ST_def OP_SET_def
  OP_RST_def OP_OR_BLOCK_START_def OP_OR_BLOCK_NEXT_def OP_OR_BLOCK_END_def OP_TON_def OP_TOF_def
  OP_CTU_def OP_CTD_def OP_EQU_def OP_GRT_def OP_LES_def OP_ADD_def OP_SUB_def OP_MUL_def OP_DIV_def

record timer_state_t =
  tm_tag_id :: u16
  tm_active :: bool
  tm_last_acc :: bool
  tm_start_time_ms :: int

record counter_state_t =
  ct_tag_id :: u16
  ct_last_acc :: bool
  ct_current_count :: i32

record ladder =
  la_bytecode :: bytes
  la_bytecode_length :: nat
  la_has_program :: bool
  la_timers :: "timer_state_t list"
  la_counters :: "counter_state_t list"

definition be16 :: "u8 \<Rightarrow> u8 \<Rightarrow> u16" where
  "be16 hi lo = push_bit 8 (ucast hi) OR ucast lo"

definition new_timer :: "u16 \<Rightarrow> timer_state_t" where
  "new_timer tag = \<lparr>tm_tag_id = tag, tm_active = False, tm_last_acc = False, tm_start_time_ms = 0\<rparr>"

definition new_counter :: "u16 \<Rightarrow> counter_state_t" where
  "new_counter tag = \<lparr>ct_tag_id = tag, ct_last_acc = False, ct_current_count = 0\<rparr>"

text \<open>The index of the entry, or nothing when the table is full.\<close>

definition get_or_create_timer :: "u16 \<Rightarrow> timer_state_t list \<Rightarrow> nat option \<times> timer_state_t list" where
  "get_or_create_timer tag ts =
     (case find_index (\<lambda>t. tm_tag_id t = tag) ts of
        Some i \<Rightarrow> (Some i, ts)
      | None \<Rightarrow> if length ts < MAX_TIMERS then (Some (length ts), ts @ [new_timer tag]) else (None, ts))"

definition get_or_create_counter :: "u16 \<Rightarrow> counter_state_t list \<Rightarrow> nat option \<times> counter_state_t list" where
  "get_or_create_counter tag cs =
     (case find_index (\<lambda>c. ct_tag_id c = tag) cs of
        Some i \<Rightarrow> (Some i, cs)
      | None \<Rightarrow> if length cs < MAX_COUNTERS then (Some (length cs), cs @ [new_counter tag]) else (None, cs))"

definition reset_timer_or_counter :: "u16 \<Rightarrow> ladder \<Rightarrow> ladder" where
  "reset_timer_or_counter tag l =
     (let l = (case find_index (\<lambda>t. tm_tag_id t = tag) (la_timers l) of
                 None \<Rightarrow> l
               | Some i \<Rightarrow> l\<lparr>la_timers := (la_timers l)[i := (la_timers l ! i)
                   \<lparr>tm_active := False, tm_last_acc := False, tm_start_time_ms := 0\<rparr>]\<rparr>)
      in case find_index (\<lambda>c. ct_tag_id c = tag) (la_counters l) of
           None \<Rightarrow> l
         | Some i \<Rightarrow> l\<lparr>la_counters := (la_counters l)[i := (la_counters l ! i)
             \<lparr>ct_last_acc := False, ct_current_count := 0\<rparr>]\<rparr>)"

definition empty_ladder :: ladder where
  "empty_ladder = \<lparr>la_bytecode = replicate LADDER_MAX_PROGRAM_SIZE 0, la_bytecode_length = 0,
     la_has_program = False, la_timers = [], la_counters = []\<rparr>"

text \<open>The beginning of the bytecode buffer is overwritten.\<close>

definition store_bytecode :: "bytes \<Rightarrow> ladder \<Rightarrow> ladder" where
  "store_bytecode bs l = l\<lparr>la_bytecode := bs @ drop (length bs) (la_bytecode l),
     la_bytecode_length := length bs, la_has_program := True\<rparr>"

definition ladder_engine_init :: "'w platform \<Rightarrow> 'w \<Rightarrow> ladder \<times> 'w" where
  "ladder_engine_init P w =
     (case nvs_open P ''endap_ladder'' NVS_READONLY w of (err, h, w) \<Rightarrow>
      if err = ESP_OK then
        (case nvs_blob_size P h ''bytecode'' w of (err, required_size, w) \<Rightarrow>
         if err = ESP_OK \<and> required_size > 0 \<and> required_size \<le> LADDER_MAX_PROGRAM_SIZE then
           (case nvs_get_blob P h ''bytecode'' required_size w of (err, bs, w) \<Rightarrow>
            if err = ESP_OK then (store_bytecode bs empty_ladder, nvs_close P h w)
            else (empty_ladder, nvs_close P h w))
         else (empty_ladder, nvs_close P h w))
      else (empty_ladder, w))"

definition ladder_engine_clear :: "'w platform \<Rightarrow> 'w \<Rightarrow> ladder \<times> 'w" where
  "ladder_engine_clear P w =
     (case nvs_open P ''endap_ladder'' NVS_READWRITE w of (err, h, w) \<Rightarrow>
      if err = ESP_OK then
        (case nvs_erase_key P h ''bytecode'' w of (_, w) \<Rightarrow>
         case nvs_commit P h w of (_, w) \<Rightarrow> (empty_ladder, nvs_close P h w))
      else (empty_ladder, w))"

text \<open>
  The validation pass from position \<open>pc\<close> with the timer and counter tags met so far; the result
  is an error, or the tags of the whole program.
\<close>

definition add_tag :: "nat \<Rightarrow> u16 \<Rightarrow> u16 list \<Rightarrow> u16 list option" where
  "add_tag limit tag tags =
     (if tag \<in> set tags then Some tags else if length tags \<ge> limit then None else Some (tags @ [tag]))"

function ladder_validate ::
  "bytes \<Rightarrow> nat \<Rightarrow> u16 list \<Rightarrow> u16 list \<Rightarrow> esp_err_t + (u16 list \<times> u16 list)" where
  "ladder_validate buf pc tt ct =
     (if pc < length buf then
        let op = buf ! pc; pc' = pc + 1; len = length buf in
        if op = 0xFF then Inr (tt, ct)
        else if (op \<ge> OP_LD \<and> op \<le> OP_ORN) \<or> (op \<ge> OP_ST \<and> op \<le> OP_RST) then
          if pc' + 1 \<ge> len then Inl ESP_ERR_INVALID_ARG else ladder_validate buf (pc + 3) tt ct
        else if op \<ge> OP_OR_BLOCK_START \<and> op \<le> OP_OR_BLOCK_END then ladder_validate buf (pc + 1) tt ct
        else if op = OP_TON \<or> op = OP_TOF then
          if pc' + 1 \<ge> len \<or> pc' + 3 \<ge> len then Inl ESP_ERR_INVALID_ARG
          else (case add_tag MAX_TIMERS (be16 (buf ! pc') (buf ! (pc' + 1))) tt of
                  None \<Rightarrow> Inl ESP_ERR_NO_MEM | Some tt' \<Rightarrow> ladder_validate buf (pc + 5) tt' ct)
        else if op = OP_CTU \<or> op = OP_CTD then
          if pc' + 1 \<ge> len \<or> pc' + 3 \<ge> len then Inl ESP_ERR_INVALID_ARG
          else (case add_tag MAX_COUNTERS (be16 (buf ! pc') (buf ! (pc' + 1))) ct of
                  None \<Rightarrow> Inl ESP_ERR_NO_MEM | Some ct' \<Rightarrow> ladder_validate buf (pc + 5) tt ct')
        else if op \<ge> OP_EQU \<and> op \<le> OP_LES then
          if pc' + 1 \<ge> len then Inl ESP_ERR_INVALID_ARG else ladder_validate buf (pc + 3) tt ct
        else if op \<ge> OP_ADD \<and> op \<le> OP_DIV then
          if pc' + 6 \<ge> len then Inl ESP_ERR_INVALID_ARG
          else if buf ! (pc' + 2) \<noteq> 0 \<and> buf ! (pc' + 2) \<noteq> 1 then Inl ESP_ERR_INVALID_ARG
          else ladder_validate buf (pc + 8) tt ct
        else Inl ESP_ERR_INVALID_ARG
      else Inr (tt, ct))"
  by auto
termination by (relation "measure (\<lambda>(buf, pc, tt, ct). length buf - pc)") auto

declare ladder_validate.simps [simp del]

definition ladder_engine_load_program ::
  "'w platform \<Rightarrow> bytes \<Rightarrow> ladder \<times> 'w \<Rightarrow> esp_err_t \<times> ladder \<times> 'w" where
  "ladder_engine_load_program P buffer = (\<lambda>(l, w).
     if length buffer > LADDER_MAX_PROGRAM_SIZE then (ESP_ERR_NO_MEM, l, w)
     else if length buffer < 5 \<or> take 4 buffer \<noteq> [0x45, 0x4E, 0x44, 0x50] then (ESP_ERR_INVALID_ARG, l, w)
     else case ladder_validate buffer 5 [] [] of
       Inl err \<Rightarrow> (err, l, w)
     | Inr _ \<Rightarrow>
       (case ladder_engine_clear P w of (l, w) \<Rightarrow>
        let l = store_bytecode buffer l in
        case nvs_open P ''endap_ladder'' NVS_READWRITE w of (err, h, w) \<Rightarrow>
        if err = ESP_OK then
          (case nvs_set_blob P h ''bytecode'' (take (la_bytecode_length l) (la_bytecode l)) w of (_, w) \<Rightarrow>
           case nvs_commit P h w of (_, w) \<Rightarrow> (ESP_OK, l, nvs_close P h w))
        else (ESP_OK, l, w)))"

definition ladder_engine_get_program :: "nat \<Rightarrow> ladder \<Rightarrow> bytes" where
  "ladder_engine_get_program max_len l =
     (if \<not> la_has_program l \<or> max_len = 0 then []
      else take (if la_bytecode_length l < max_len then la_bytecode_length l else max_len) (la_bytecode l))"

section \<open>The scan\<close>

text \<open>The block functions: the new state of a timer or counter, and the output.\<close>

definition ton_scan :: "int \<Rightarrow> u16 \<Rightarrow> bool \<Rightarrow> timer_state_t \<Rightarrow> timer_state_t \<times> bool" where
  "ton_scan now_ms preset_ms acc t =
     (if acc then
        let t = (if \<not> tm_active t then t\<lparr>tm_active := True, tm_start_time_ms := now_ms\<rparr> else t)
        in (t, now_ms - tm_start_time_ms t \<ge> int (unat preset_ms))
      else (t\<lparr>tm_active := False\<rparr>, False))"

definition tof_scan :: "int \<Rightarrow> u16 \<Rightarrow> bool \<Rightarrow> timer_state_t \<Rightarrow> timer_state_t \<times> bool" where
  "tof_scan now_ms preset_ms acc t =
     (let (t, out) =
        (if acc then (t\<lparr>tm_active := False\<rparr>, True)
         else let t = (if tm_last_acc t \<and> \<not> acc then t\<lparr>tm_active := True, tm_start_time_ms := now_ms\<rparr> else t)
              in if tm_active t then
                   if now_ms - tm_start_time_ms t \<ge> int (unat preset_ms) then (t\<lparr>tm_active := False\<rparr>, False)
                   else (t, True)
                 else (t, False))
      in (t\<lparr>tm_last_acc := out\<rparr>, out))"

definition ctu_scan :: "u16 \<Rightarrow> bool \<Rightarrow> counter_state_t \<Rightarrow> counter_state_t \<times> bool" where
  "ctu_scan preset_cnt acc c =
     (let c = (if acc \<and> \<not> ct_last_acc c then c\<lparr>ct_current_count := ct_current_count c + 1\<rparr> else c);
          c = c\<lparr>ct_last_acc := acc\<rparr>
      in (c, sint (ct_current_count c) \<ge> int (unat preset_cnt)))"

definition ctd_scan :: "u16 \<Rightarrow> bool \<Rightarrow> counter_state_t \<Rightarrow> counter_state_t \<times> bool" where
  "ctd_scan preset_cnt acc c =
     (let c = (if ct_current_count c = 0 then c\<lparr>ct_current_count := ucast preset_cnt\<rparr> else c);
          c = (if acc \<and> \<not> ct_last_acc c \<and> sint (ct_current_count c) > 0
               then c\<lparr>ct_current_count := ct_current_count c - 1\<rparr> else c);
          c = c\<lparr>ct_last_acc := acc\<rparr>
      in (c, ct_current_count c = 0))"

text \<open>The arithmetic instructions in 64 bits, saturated to 32.\<close>

definition ladder_math :: "u8 \<Rightarrow> int \<Rightarrow> int \<Rightarrow> int" where
  "ladder_math opcode valA valB =
     (let res64 = (if opcode = OP_ADD then valA + valB
                   else if opcode = OP_SUB then valA - valB
                   else if opcode = OP_MUL then valA * valB
                   else if opcode = OP_DIV then (if valB = 0 then 0 else valA sdiv valB)
                   else 0);
          res64 = (if res64 > 2147483647 then 2147483647 else res64)
      in if res64 < -2147483648 then -2147483648 else res64)"

text \<open>
  The machine of one scan: accumulator, stack of or-blocks (top first: the saved accumulator and
  the disjunction so far), the engine and the system.
\<close>

record 'w ladder_machine =
  lm_acc :: bool
  lm_stack :: "(bool \<times> bool) list"
  lm_ladder :: ladder
  lm_sys :: "'w system"

definition read_int :: "'w system \<Rightarrow> u16 \<Rightarrow> i32" where
  "read_int s tag = (case state_get_int (sys_state s) tag of None \<Rightarrow> 0 | Some v \<Rightarrow> v)"

definition write_int :: "'w platform \<Rightarrow> u16 \<Rightarrow> i32 \<Rightarrow> 'w ladder_machine \<Rightarrow> 'w ladder_machine" where
  "write_int P tag v m = m\<lparr>lm_sys := snd (state_set_int P tag v (lm_sys m))\<rparr>"

definition write_out :: "'w platform \<Rightarrow> u16 \<Rightarrow> bool \<Rightarrow> 'w ladder_machine \<Rightarrow> 'w ladder_machine" where
  "write_out P tag out m = (write_int P tag (if out then 1 else 0) m)\<lparr>lm_acc := out\<rparr>"

definition exec_or_block :: "u8 \<Rightarrow> 'w ladder_machine \<Rightarrow> 'w ladder_machine" where
  "exec_or_block opcode m =
     (if opcode = OP_OR_BLOCK_START then
        if length (lm_stack m) < MAX_STACK then m\<lparr>lm_stack := (lm_acc m, False) # lm_stack m\<rparr> else m
      else case lm_stack m of
        [] \<Rightarrow> m
      | (logic, orv) # rest \<Rightarrow>
          if opcode = OP_OR_BLOCK_NEXT
          then m\<lparr>lm_stack := (logic, orv \<or> lm_acc m) # rest, lm_acc := logic\<rparr>
          else m\<lparr>lm_stack := rest, lm_acc := orv \<or> lm_acc m\<rparr>)"

definition exec_math :: "'w platform \<Rightarrow> u8 \<Rightarrow> u16 \<Rightarrow> u8 \<Rightarrow> u16 \<Rightarrow> u16 \<Rightarrow> 'w ladder_machine \<Rightarrow> 'w ladder_machine" where
  "exec_math P opcode tag_a flags_b operand_b dest m =
     (if lm_acc m then
        let valA = sint (read_int (lm_sys m) tag_a);
            valB = (if flags_b = 0 then sint (read_int (lm_sys m) operand_b)
                    else if flags_b = 1 then sint operand_b else 0)
        in write_int P dest (word_of_int (ladder_math opcode valA valB)) m
      else m)"

text \<open>
  The instructions with one operand. A timer or counter instruction has a preset as well; the
  result says how many operand bytes were used.
\<close>

definition exec_timer ::
  "'w platform \<Rightarrow> (timer_state_t \<Rightarrow> timer_state_t \<times> bool) \<Rightarrow> u16 \<Rightarrow> 'w ladder_machine \<Rightarrow> 'w ladder_machine" where
  "exec_timer P scan tag m =
     (case get_or_create_timer tag (la_timers (lm_ladder m)) of
        (None, ts) \<Rightarrow> m\<lparr>lm_ladder := (lm_ladder m)\<lparr>la_timers := ts\<rparr>\<rparr>
      | (Some i, ts) \<Rightarrow>
          (case scan (ts ! i) of (t, out) \<Rightarrow>
             write_out P tag out (m\<lparr>lm_ladder := (lm_ladder m)\<lparr>la_timers := ts[i := t]\<rparr>\<rparr>)))"

definition exec_counter ::
  "'w platform \<Rightarrow> (counter_state_t \<Rightarrow> counter_state_t \<times> bool) \<Rightarrow> u16 \<Rightarrow> 'w ladder_machine \<Rightarrow> 'w ladder_machine" where
  "exec_counter P scan tag m =
     (case get_or_create_counter tag (la_counters (lm_ladder m)) of
        (None, cs) \<Rightarrow> m\<lparr>lm_ladder := (lm_ladder m)\<lparr>la_counters := cs\<rparr>\<rparr>
      | (Some i, cs) \<Rightarrow>
          (case scan (cs ! i) of (c, out) \<Rightarrow>
             write_out P tag out (m\<lparr>lm_ladder := (lm_ladder m)\<lparr>la_counters := cs[i := c]\<rparr>\<rparr>)))"

definition exec_logic :: "'w platform \<Rightarrow> u8 \<Rightarrow> u16 \<Rightarrow> 'w ladder_machine \<Rightarrow> 'w ladder_machine" where
  "exec_logic P opcode tag m =
     (let val = sint (read_int (lm_sys m) tag); tag_val = (val > 0); acc = lm_acc m in
      if opcode = OP_LD then m\<lparr>lm_acc := tag_val\<rparr>
      else if opcode = OP_LDN then m\<lparr>lm_acc := \<not> tag_val\<rparr>
      else if opcode = OP_AND then m\<lparr>lm_acc := acc \<and> tag_val\<rparr>
      else if opcode = OP_ANDN then m\<lparr>lm_acc := acc \<and> \<not> tag_val\<rparr>
      else if opcode = OP_OR then m\<lparr>lm_acc := acc \<or> tag_val\<rparr>
      else if opcode = OP_ORN then m\<lparr>lm_acc := acc \<or> \<not> tag_val\<rparr>
      else if opcode = OP_ST then write_int P tag (if acc then 1 else 0) m
      else if opcode = OP_SET then (if acc then write_int P tag 1 m else m)
      else if opcode = OP_RST then
        (if acc then let m = write_int P tag 0 m in m\<lparr>lm_ladder := reset_timer_or_counter tag (lm_ladder m)\<rparr> else m)
      else if opcode = OP_EQU then m\<lparr>lm_acc := acc \<and> val = 0\<rparr>
      else if opcode = OP_GRT then m\<lparr>lm_acc := acc \<and> val > 0\<rparr>
      else if opcode = OP_LES then m\<lparr>lm_acc := acc \<and> val < 0\<rparr>
      else m)"

definition is_block_op :: "u8 \<Rightarrow> bool" where
  "is_block_op opcode \<longleftrightarrow> opcode = OP_TON \<or> opcode = OP_TOF \<or> opcode = OP_CTU \<or> opcode = OP_CTD"

definition exec_block :: "'w platform \<Rightarrow> int \<Rightarrow> u8 \<Rightarrow> u16 \<Rightarrow> u16 \<Rightarrow> 'w ladder_machine \<Rightarrow> 'w ladder_machine" where
  "exec_block P now_ms opcode tag preset m =
     (if opcode = OP_TON then exec_timer P (ton_scan now_ms preset (lm_acc m)) tag m
      else if opcode = OP_TOF then exec_timer P (tof_scan now_ms preset (lm_acc m)) tag m
      else if opcode = OP_CTU then exec_counter P (ctu_scan preset (lm_acc m)) tag m
      else exec_counter P (ctd_scan preset (lm_acc m)) tag m)"

text \<open>
  One turn of the interpreter loop at \<open>pc\<close>: the number of operand bytes used and the new
  machine, or nothing where the loop ends.
\<close>

definition ladder_step ::
  "'w platform \<Rightarrow> int \<Rightarrow> bytes \<Rightarrow> nat \<Rightarrow> 'w ladder_machine \<Rightarrow> (nat \<times> 'w ladder_machine) option" where
  "ladder_step P now_ms code pc m =
     (let opcode = code ! pc; pc = pc + 1; len = length code in
      if opcode = 0xFF then None
      else if opcode = OP_OR_BLOCK_START \<or> opcode = OP_OR_BLOCK_NEXT \<or> opcode = OP_OR_BLOCK_END
      then Some (0, exec_or_block opcode m)
      else if pc + 1 \<ge> len then None
      else if opcode \<ge> OP_ADD \<and> opcode \<le> OP_DIV then
        if pc + 2 + 4 \<ge> len then None
        else Some (7, exec_math P opcode (be16 (code ! pc) (code ! (pc + 1))) (code ! (pc + 2))
               (be16 (code ! (pc + 3)) (code ! (pc + 4))) (be16 (code ! (pc + 5)) (code ! (pc + 6))) m)
      else let tag = be16 (code ! pc) (code ! (pc + 1)) in
        if is_block_op opcode then
          if pc + 2 + 1 \<ge> len then Some (2, m)
          else Some (4, exec_block P now_ms opcode tag (be16 (code ! (pc + 2)) (code ! (pc + 3))) m)
        else Some (2, exec_logic P opcode tag m))"

function ladder_loop ::
  "'w platform \<Rightarrow> int \<Rightarrow> bytes \<Rightarrow> nat \<Rightarrow> 'w ladder_machine \<Rightarrow> 'w ladder_machine" where
  "ladder_loop P now_ms code pc m =
     (if pc < length code then
        (case ladder_step P now_ms code pc m of
           None \<Rightarrow> m
         | Some (k, m') \<Rightarrow> ladder_loop P now_ms code (pc + 1 + k) m')
      else m)"
  by auto
termination by (relation "measure (\<lambda>(P, now_ms, code, pc, m). length code - pc)") auto

declare ladder_loop.simps [simp del]

definition ladder_engine_run :: "'w platform \<Rightarrow> ladder \<times> 'w system \<Rightarrow> ladder \<times> 'w system" where
  "ladder_engine_run P = (\<lambda>(l, s).
     if \<not> la_has_program l \<or> la_bytecode_length l < 5 then (l, s)
     else case timer_ms P (sys_world s) of (now_ms, w) \<Rightarrow>
       let m = ladder_loop P now_ms (take (la_bytecode_length l) (la_bytecode l)) 5
                 \<lparr>lm_acc = False, lm_stack = [], lm_ladder = l, lm_sys = s\<lparr>sys_world := w\<rparr>\<rparr>
       in (lm_ladder m, lm_sys m))"

section \<open>The self test\<close>

definition SELF_TEST_INPUT :: u16 where "SELF_TEST_INPUT = 10"
definition SELF_TEST_OUTPUT :: u16 where "SELF_TEST_OUTPUT = 100"

definition test_prog :: bytes where
  "test_prog = [0x45, 0x4E, 0x44, 0x50, 0x01,
     OP_LD, ucast (drop_bit 8 SELF_TEST_INPUT), ucast SELF_TEST_INPUT,
     OP_ST, ucast (drop_bit 8 SELF_TEST_OUTPUT), ucast SELF_TEST_OUTPUT, 0xFF]"

definition self_test_restore ::
  "'w platform \<Rightarrow> bool \<Rightarrow> bytes \<Rightarrow> ladder \<times> 'w system \<Rightarrow> ladder \<times> 'w system" where
  "self_test_restore P saved_has_program saved = (\<lambda>(l, s).
     if saved_has_program \<and> length saved > 0 then (store_bytecode saved l, s)
     else case ladder_engine_clear P (sys_world s) of (l, w) \<Rightarrow> (l, s\<lparr>sys_world := w\<rparr>))"

text \<open>One scan and the read of the output; an unreadable output leaves the variable as it was.\<close>

definition self_test_scan :: "'w platform \<Rightarrow> i32 \<Rightarrow> ladder \<times> 'w system \<Rightarrow> i32 \<times> ladder \<times> 'w system" where
  "self_test_scan P out_val ls =
     (case ladder_engine_run P ls of (l, s) \<Rightarrow>
        (case state_get_int (sys_state s) SELF_TEST_OUTPUT of None \<Rightarrow> out_val | Some v \<Rightarrow> v, l, s))"

definition ladder_engine_run_self_test :: "'w platform \<Rightarrow> ladder \<times> 'w system \<Rightarrow> bool \<times> ladder \<times> 'w system" where
  "ladder_engine_run_self_test P = (\<lambda>(l, s).
     let restore = self_test_restore P (la_has_program l) (take (la_bytecode_length l) (la_bytecode l)) in
     case ladder_engine_load_program P test_prog (l, sys_world s) of (err, l, w) \<Rightarrow>
     let s = s\<lparr>sys_world := w\<rparr> in
     if err \<noteq> ESP_OK then (False, restore (l, s))
     else
       let s = snd (state_set_int P SELF_TEST_INPUT 0 s); s = snd (state_set_int P SELF_TEST_OUTPUT 1 s) in
       case self_test_scan P (- 1) (l, s) of (out_val, l, s) \<Rightarrow>
       if out_val \<noteq> 0 then (False, restore (l, s))
       else
         let s = snd (state_set_int P SELF_TEST_INPUT 1 s) in
         case self_test_scan P out_val (l, s) of (out_val, l, s) \<Rightarrow>
         if out_val \<noteq> 1 then (False, restore (l, s))
         else
           let s = snd (state_set_int P SELF_TEST_INPUT 0 s) in
           case self_test_scan P out_val (l, s) of (out_val, l, s) \<Rightarrow>
           (out_val = 0, restore (l, s)))"

section \<open>Programs as instruction lists\<close>

text \<open>
  The instruction set the compiler of the studio targets, its byte encoding and the meaning of
  one instruction. An accepted program is the encoding of such a list, and the scan executes it
  instruction by instruction.
\<close>

datatype instr =
    Contact u8 u16
  | Or_Block u8
  | Function_Block u8 u16 u16
  | Arith u8 u16 u8 u16 u16

definition hi8 :: "u16 \<Rightarrow> u8" where
  "hi8 x = ucast (drop_bit 8 x)"

definition be16_bytes :: "u16 \<Rightarrow> bytes" where
  "be16_bytes x = [hi8 x, ucast x]"

fun encode :: "instr \<Rightarrow> bytes" where
  "encode (Contact opc tag) = opc # be16_bytes tag"
| "encode (Or_Block opc) = [opc]"
| "encode (Function_Block opc tag preset) = opc # be16_bytes tag @ be16_bytes preset"
| "encode (Arith opc a flags b dest) = opc # be16_bytes a @ flags # be16_bytes b @ be16_bytes dest"

definition contact_ops :: "u8 set" where
  "contact_ops = {1, 2, 3, 4, 5, 6, 0x10, 0x11, 0x12, 0x40, 0x41, 0x42}"

fun instr_ok :: "instr \<Rightarrow> bool" where
  "instr_ok (Contact opc tag) \<longleftrightarrow> opc \<in> contact_ops"
| "instr_ok (Or_Block opc) \<longleftrightarrow> opc \<in> {0x20, 0x21, 0x22}"
| "instr_ok (Function_Block opc tag preset) \<longleftrightarrow> opc \<in> {0x30, 0x31, 0x32, 0x33}"
| "instr_ok (Arith opc a flags b dest) \<longleftrightarrow> opc \<in> {0x50, 0x51, 0x52, 0x53} \<and> flags \<in> {0, 1}"

fun exec_instr :: "'w platform \<Rightarrow> int \<Rightarrow> instr \<Rightarrow> 'w ladder_machine \<Rightarrow> 'w ladder_machine" where
  "exec_instr P now_ms (Contact opc tag) = exec_logic P opc tag"
| "exec_instr P now_ms (Or_Block opc) = exec_or_block opc"
| "exec_instr P now_ms (Function_Block opc tag preset) = exec_block P now_ms opc tag preset"
| "exec_instr P now_ms (Arith opc a flags b dest) = exec_math P opc a flags b dest"

fun timer_tag :: "instr \<Rightarrow> u16 list" where
  "timer_tag (Function_Block opc tag preset) = (if opc = 0x30 \<or> opc = 0x31 then [tag] else [])"
| "timer_tag _ = []"

fun counter_tag :: "instr \<Rightarrow> u16 list" where
  "counter_tag (Function_Block opc tag preset) = (if opc = 0x30 \<or> opc = 0x31 then [] else [tag])"
| "counter_tag _ = []"

definition timer_tags :: "instr list \<Rightarrow> u16 set" where
  "timer_tags prog = set (concat (map timer_tag prog))"

definition counter_tags :: "instr list \<Rightarrow> u16 set" where
  "counter_tags prog = set (concat (map counter_tag prog))"

definition program_ok :: "instr list \<Rightarrow> bool" where
  "program_ok prog \<longleftrightarrow> (\<forall>i \<in> set prog. instr_ok i) \<and>
     card (timer_tags prog) \<le> MAX_TIMERS \<and> card (counter_tags prog) \<le> MAX_COUNTERS"

text \<open>What follows the last instruction: nothing, or a terminator and arbitrary bytes.\<close>

definition program_end :: "bytes \<Rightarrow> bool" where
  "program_end rest \<longleftrightarrow> rest = [] \<or> hd rest = 0xFF"

lemma be16_be16_bytes [simp]: "be16 (hi8 x) (ucast x) = x"
  unfolding be16_def hi8_def by (rule bit_word_eqI) (auto simp: bit_simps)

lemma be16_bytes_be16 [simp]: "be16_bytes (be16 a b) = [a, b]"
proof -
  have "hi8 (be16 a b) = a"
    unfolding be16_def hi8_def by (rule bit_word_eqI) (auto simp: bit_simps dest: bit_imp_le_length)
  moreover have "(ucast (be16 a b) :: u8) = b"
    unfolding be16_def by (rule bit_word_eqI) (auto simp: bit_simps)
  ultimately show ?thesis by (simp add: be16_bytes_def)
qed

lemma drop_nth_Cons: "pc < length xs \<Longrightarrow> drop pc xs = xs ! pc # drop (Suc pc) xs"
  by (simp add: Cons_nth_drop_Suc)

lemma drop_append_nth:
  assumes "drop pc buf = xs @ rest" "k < length xs"
  shows "pc + k < length buf \<and> buf ! (pc + k) = xs ! k"
proof -
  have "length (drop pc buf) > k" using assms by simp
  then have "pc + k < length buf" by simp
  moreover from this have "buf ! (pc + k) = drop pc buf ! k" by simp
  ultimately show ?thesis using assms by (simp add: nth_append)
qed

lemma step_encode:
  assumes "instr_ok i" and "drop pc code = encode i @ rest"
  shows "pc < length code \<and>
    ladder_step P now code pc m = Some (length (encode i) - 1, exec_instr P now i m)"
proof -
  note at = drop_append_nth [OF assms(2)]
  note step = ladder_step_def Let_def be16_bytes_def
  show ?thesis
  proof (cases i)
    case (Contact opc tag)
    have "opc \<noteq> 0xFF \<and> opc \<noteq> OP_OR_BLOCK_START \<and> opc \<noteq> OP_OR_BLOCK_NEXT \<and> opc \<noteq> OP_OR_BLOCK_END \<and>
      \<not> (OP_ADD \<le> opc \<and> opc \<le> OP_DIV) \<and> \<not> is_block_op opc"
      using assms(1) Contact by (auto simp: contact_ops_def op_defs is_block_op_def word_le_nat_alt)
    with Contact at [of 0] at [of 1] at [of 2] show ?thesis by (simp add: step)
  next
    case (Or_Block opc)
    have "opc \<noteq> 0xFF \<and> (opc = OP_OR_BLOCK_START \<or> opc = OP_OR_BLOCK_NEXT \<or> opc = OP_OR_BLOCK_END)"
      using assms(1) Or_Block by (auto simp: op_defs)
    with Or_Block at [of 0] show ?thesis by (simp add: step)
  next
    case (Function_Block opc tag preset)
    have "opc \<noteq> 0xFF \<and> opc \<noteq> OP_OR_BLOCK_START \<and> opc \<noteq> OP_OR_BLOCK_NEXT \<and> opc \<noteq> OP_OR_BLOCK_END \<and>
      \<not> (OP_ADD \<le> opc \<and> opc \<le> OP_DIV) \<and> is_block_op opc"
      using assms(1) Function_Block by (auto simp: op_defs is_block_op_def)
    with Function_Block at [of 0] at [of 1] at [of 2] at [of 3] at [of 4] show ?thesis
      by (simp add: step numeral_eq_Suc)
  next
    case (Arith opc a flags b dest)
    have "opc \<noteq> 0xFF \<and> opc \<noteq> OP_OR_BLOCK_START \<and> opc \<noteq> OP_OR_BLOCK_NEXT \<and> opc \<noteq> OP_OR_BLOCK_END \<and>
      OP_ADD \<le> opc \<and> opc \<le> OP_DIV"
      using assms(1) Arith by (auto simp: op_defs)
    with Arith at [of 0] at [of 1] at [of 2] at [of 3] at [of 4] at [of 5] at [of 6] at [of 7] show ?thesis
      by (simp add: step numeral_eq_Suc)
  qed
qed

text \<open>The scan of an encoded program executes its instructions in order.\<close>

lemma loop_encoded:
  assumes "\<forall>i \<in> set prog. instr_ok i" "drop pc code = concat (map encode prog) @ rest" "program_end rest"
  shows "ladder_loop P now code pc m = fold (exec_instr P now) prog m"
  using assms
proof (induction prog arbitrary: pc m)
  case Nil
  show ?case
  proof (cases "pc < length code")
    case True
    with Nil have "rest \<noteq> []" by auto
    with Nil True have "code ! pc = 0xFF"
      by (simp add: program_end_def) (metis hd_drop_conv_nth)
    with True show ?thesis by (simp add: ladder_loop.simps [of P now code pc] ladder_step_def)
  qed (simp add: ladder_loop.simps)
next
  case (Cons i prog)
  let ?rest = "concat (map encode prog) @ rest"
  have d: "drop pc code = encode i @ ?rest" using Cons.prems(2) by simp
  have ok: "instr_ok i" using Cons.prems(1) by simp
  have len: "0 < length (encode i)" by (cases i) simp_all
  have "pc + 1 + (length (encode i) - 1) = length (encode i) + pc" using len by simp
  then have "drop (pc + 1 + (length (encode i) - 1)) code = drop (length (encode i)) (drop pc code)"
    by (simp only: drop_drop)
  then have "drop (pc + 1 + (length (encode i) - 1)) code = ?rest" using d by simp
  then have "ladder_loop P now code (pc + 1 + (length (encode i) - 1)) (exec_instr P now i m) =
      fold (exec_instr P now) prog (exec_instr P now i m)"
    using Cons.IH Cons.prems(1,3) by simp
  with step_encode [OF ok d, of P now m] show ?case
    by (simp add: ladder_loop.simps [of P now code pc m])
qed

section \<open>Validation\<close>

text \<open>The effect of one instruction on the tags the validation has met.\<close>

fun add_tags :: "nat \<Rightarrow> u16 list \<Rightarrow> u16 list \<Rightarrow> u16 list option" where
  "add_tags limit [] tags = Some tags"
| "add_tags limit (t # ts) tags = Option.bind (add_tag limit t tags) (add_tags limit ts)"

definition note_instr :: "instr \<Rightarrow> u16 list \<times> u16 list \<Rightarrow> (u16 list \<times> u16 list) option" where
  "note_instr i = (\<lambda>(tt, ct). case (add_tags MAX_TIMERS (timer_tag i) tt, add_tags MAX_COUNTERS (counter_tag i) ct) of
     (Some tt', Some ct') \<Rightarrow> Some (tt', ct') | _ \<Rightarrow> None)"

lemma u8_of_unat: "unat (x :: u8) = k \<Longrightarrow> x = of_nat k"
  by auto

lemma u8_range:
  fixes opc :: u8
  shows "1 \<le> opc \<Longrightarrow> opc \<le> 6 \<Longrightarrow> opc \<in> {1, 2, 3, 4, 5, 6}"
    and "0x10 \<le> opc \<Longrightarrow> opc \<le> 0x12 \<Longrightarrow> opc \<in> {0x10, 0x11, 0x12}"
    and "0x20 \<le> opc \<Longrightarrow> opc \<le> 0x22 \<Longrightarrow> opc \<in> {0x20, 0x21, 0x22}"
    and "0x40 \<le> opc \<Longrightarrow> opc \<le> 0x42 \<Longrightarrow> opc \<in> {0x40, 0x41, 0x42}"
    and "0x50 \<le> opc \<Longrightarrow> opc \<le> 0x53 \<Longrightarrow> opc \<in> {0x50, 0x51, 0x52, 0x53}"
proof -
  show "opc \<in> {1, 2, 3, 4, 5, 6}" if "1 \<le> opc" "opc \<le> 6"
  proof -
    from that have "unat opc \<in> {1, 2, 3, 4, 5, 6}" by (auto simp: word_le_nat_alt)
    then show ?thesis by (auto dest: u8_of_unat)
  qed
  show "opc \<in> {0x10, 0x11, 0x12}" if "0x10 \<le> opc" "opc \<le> 0x12"
  proof -
    from that have "unat opc \<in> {0x10, 0x11, 0x12}" by (auto simp: word_le_nat_alt)
    then show ?thesis by (auto dest: u8_of_unat)
  qed
  show "opc \<in> {0x20, 0x21, 0x22}" if "0x20 \<le> opc" "opc \<le> 0x22"
  proof -
    from that have "unat opc \<in> {0x20, 0x21, 0x22}" by (auto simp: word_le_nat_alt)
    then show ?thesis by (auto dest: u8_of_unat)
  qed
  show "opc \<in> {0x40, 0x41, 0x42}" if "0x40 \<le> opc" "opc \<le> 0x42"
  proof -
    from that have "unat opc \<in> {0x40, 0x41, 0x42}" by (auto simp: word_le_nat_alt)
    then show ?thesis by (auto dest: u8_of_unat)
  qed
  show "opc \<in> {0x50, 0x51, 0x52, 0x53}" if "0x50 \<le> opc" "opc \<le> 0x53"
  proof -
    from that have "unat opc \<in> {0x50, 0x51, 0x52, 0x53}" by (auto simp: word_le_nat_alt)
    then show ?thesis by (auto dest: u8_of_unat)
  qed
qed

text \<open>The bytes of an accepted instruction.\<close>

lemma validate_decode:
  assumes "ladder_validate buf pc tt ct = Inr r" "pc < length buf" "buf ! pc \<noteq> 0xFF"
  shows "\<exists>i rest. instr_ok i \<and> drop pc buf = encode i @ rest"
proof -
  let ?b = "\<lambda>k. buf ! (pc + k)"
  have two: "drop pc buf = encode (Contact (?b 0) (be16 (?b 1) (?b 2))) @ drop (pc + 3) buf"
    if "pc + 2 < length buf"
    using that by (simp add: drop_nth_Cons eval_nat_numeral)
  have four: "drop pc buf = encode (Function_Block (?b 0) (be16 (?b 1) (?b 2)) (be16 (?b 3) (?b 4))) @ drop (pc + 5) buf"
    if "pc + 4 < length buf"
    using that by (simp add: drop_nth_Cons eval_nat_numeral)
  have seven: "drop pc buf = encode (Arith (?b 0) (be16 (?b 1) (?b 2)) (?b 3) (be16 (?b 4) (?b 5)) (be16 (?b 6) (?b 7)))
      @ drop (pc + 8) buf"
    if "pc + 7 < length buf"
    using that by (simp add: drop_nth_Cons eval_nat_numeral)
  have none: "drop pc buf = encode (Or_Block (?b 0)) @ drop (pc + 1) buf"
    using assms(2) by (simp add: drop_nth_Cons)
  note v = assms(1) [unfolded ladder_validate.simps [of buf pc], unfolded Let_def if_P [OF assms(2)] if_not_P [OF assms(3)]]
  consider (contact) "?b 0 \<in> contact_ops" "pc + 2 < length buf" | (orb) "?b 0 \<in> {0x20, 0x21, 0x22}"
    | (block) "?b 0 \<in> {0x30, 0x31, 0x32, 0x33}" "pc + 4 < length buf"
    | (arith) "?b 0 \<in> {0x50, 0x51, 0x52, 0x53}" "pc + 7 < length buf" "?b 3 \<in> {0, 1}"
    using v u8_range [of "buf ! pc"]
    by (auto simp: op_defs contact_ops_def eval_nat_numeral split: if_splits)
  then show ?thesis
  proof cases
    case contact
    with two show ?thesis by (metis instr_ok.simps(1))
  next
    case orb
    with none show ?thesis by (metis instr_ok.simps(2))
  next
    case block
    with four show ?thesis by (metis instr_ok.simps(3))
  next
    case arith
    with seven show ?thesis by (metis instr_ok.simps(4))
  qed
qed

lemma validate_encode:
  assumes "instr_ok i" and "drop pc buf = encode i @ rest"
  shows "ladder_validate buf pc tt ct = (case note_instr i (tt, ct) of None \<Rightarrow> Inl ESP_ERR_NO_MEM
    | Some (tt', ct') \<Rightarrow> ladder_validate buf (pc + length (encode i)) tt' ct')"
proof -
  note at = drop_append_nth [OF assms(2)]
  note unf = ladder_validate.simps [of buf pc] Let_def be16_bytes_def note_instr_def
  show ?thesis
  proof (cases i)
    case (Contact opc tag)
    have "opc \<noteq> 0xFF \<and> (if (opc \<ge> OP_LD \<and> opc \<le> OP_ORN) \<or> (opc \<ge> OP_ST \<and> opc \<le> OP_RST) then True else
        \<not> (opc \<ge> OP_OR_BLOCK_START \<and> opc \<le> OP_OR_BLOCK_END) \<and> opc \<noteq> OP_TON \<and> opc \<noteq> OP_TOF \<and>
        opc \<noteq> OP_CTU \<and> opc \<noteq> OP_CTD \<and> opc \<ge> OP_EQU \<and> opc \<le> OP_LES)"
      using assms(1) Contact by (auto simp: contact_ops_def op_defs word_le_nat_alt)
    with Contact at [of 0] at [of 1] at [of 2] show ?thesis
      by (auto simp: unf numeral_eq_Suc split: if_splits)
  next
    case (Or_Block opc)
    have "opc \<noteq> 0xFF \<and> \<not> (opc \<ge> OP_LD \<and> opc \<le> OP_ORN) \<and> \<not> (opc \<ge> OP_ST \<and> opc \<le> OP_RST) \<and>
        opc \<ge> OP_OR_BLOCK_START \<and> opc \<le> OP_OR_BLOCK_END"
      using assms(1) Or_Block by (auto simp: op_defs word_le_nat_alt)
    with Or_Block at [of 0] show ?thesis by (auto simp: unf)
  next
    case (Function_Block opc tag preset)
    have no: "opc \<noteq> 0xFF" "\<not> ((opc \<ge> OP_LD \<and> opc \<le> OP_ORN) \<or> (opc \<ge> OP_ST \<and> opc \<le> OP_RST))"
        "\<not> (opc \<ge> OP_OR_BLOCK_START \<and> opc \<le> OP_OR_BLOCK_END)"
        "opc = 0x30 \<or> opc = 0x31 \<longleftrightarrow> opc = OP_TON \<or> opc = OP_TOF"
        "\<not> (opc = OP_TON \<or> opc = OP_TOF) \<longleftrightarrow> opc = OP_CTU \<or> opc = OP_CTD"
      using assms(1) Function_Block by (auto simp: op_defs word_le_nat_alt)
    have len: "pc < length buf" "\<not> (pc + 1 + 1 \<ge> length buf \<or> pc + 1 + 3 \<ge> length buf)"
      and b: "buf ! pc = opc" "buf ! (pc + 1) = hi8 tag" "buf ! (pc + 1 + 1) = ucast tag"
      using Function_Block at [of 0] at [of 1] at [of 2] at [of 4] by (simp_all add: be16_bytes_def)
    have "length (encode i) = 5" using Function_Block by (simp add: be16_bytes_def)
    then show ?thesis
      unfolding ladder_validate.simps [of buf pc] Let_def b if_P [OF len(1)] if_not_P [OF no(1)]
        if_not_P [OF no(2)] if_not_P [OF no(3)] if_not_P [OF len(2)]
      using no(4,5) Function_Block
      by (cases "opc = OP_TON \<or> opc = OP_TOF") (simp_all add: note_instr_def split: option.split)
  next
    case (Arith opc a flags b dest)
    have "opc \<noteq> 0xFF \<and> \<not> (opc \<ge> OP_LD \<and> opc \<le> OP_ORN) \<and> \<not> (opc \<ge> OP_ST \<and> opc \<le> OP_RST) \<and>
        \<not> (opc \<ge> OP_OR_BLOCK_START \<and> opc \<le> OP_OR_BLOCK_END) \<and> opc \<noteq> OP_TON \<and> opc \<noteq> OP_TOF \<and>
        opc \<noteq> OP_CTU \<and> opc \<noteq> OP_CTD \<and> \<not> (opc \<ge> OP_EQU \<and> opc \<le> OP_LES) \<and> opc \<ge> OP_ADD \<and> opc \<le> OP_DIV \<and>
        (flags = 0 \<or> flags = 1)"
      using assms(1) Arith by (auto simp: op_defs word_le_nat_alt)
    with Arith at [of 0] at [of 1] at [of 2] at [of 3] at [of 4] at [of 5] at [of 6] at [of 7] show ?thesis
      by (auto simp: unf numeral_eq_Suc)
  qed
qed

lemma add_tags_append:
  "add_tags limit (xs @ ys) tags = Option.bind (add_tags limit xs tags) (add_tags limit ys)"
  by (induction xs arbitrary: tags) (auto simp: fun_eq_iff split: Option.bind_split)

lemma add_tags_Some:
  "add_tags limit ts tags = Some tags' \<Longrightarrow> distinct tags \<Longrightarrow> length tags \<le> limit \<Longrightarrow>
   distinct tags' \<and> set tags' = set tags \<union> set ts \<and> length tags' \<le> limit"
proof (induction ts arbitrary: tags)
  case (Cons t ts)
  obtain tags1 where t: "add_tag limit t tags = Some tags1" "add_tags limit ts tags1 = Some tags'"
    using Cons.prems(1) by (auto simp: Option.bind_eq_Some_conv)
  then have "distinct tags1 \<and> length tags1 \<le> limit \<and> set tags1 = insert t (set tags)"
    using Cons.prems(2,3) by (auto simp: add_tag_def split: if_splits)
  with Cons.IH [OF t(2)] show ?case by auto
qed simp

lemma add_tags_None:
  "add_tags limit ts tags = None \<Longrightarrow> distinct tags \<Longrightarrow> card (set tags \<union> set ts) > limit"
proof (induction ts arbitrary: tags)
  case (Cons t ts)
  show ?case
  proof (cases "add_tag limit t tags")
    case None
    then have "t \<notin> set tags" "length tags \<ge> limit" by (auto simp: add_tag_def split: if_splits)
    with Cons.prems(2) have "card (insert t (set tags)) > limit" by (simp add: distinct_card)
    moreover have "card (insert t (set tags)) \<le> card (set tags \<union> set (t # ts))" by (intro card_mono) auto
    ultimately show ?thesis by linarith
  next
    case (Some tags1)
    then have "distinct tags1" "set tags1 = insert t (set tags)"
      using Cons.prems(2) by (auto simp: add_tag_def split: if_splits)
    with Some Cons.IH [of tags1] Cons.prems(1) show ?thesis by simp
  qed
qed simp

text \<open>The verdict of the validation on an encoded program.\<close>

definition note_program :: "instr list \<Rightarrow> u16 list \<times> u16 list \<Rightarrow> (u16 list \<times> u16 list) option" where
  "note_program prog = (\<lambda>(tt, ct).
     case (add_tags MAX_TIMERS (concat (map timer_tag prog)) tt, add_tags MAX_COUNTERS (concat (map counter_tag prog)) ct) of
       (Some tt', Some ct') \<Rightarrow> Some (tt', ct') | _ \<Rightarrow> None)"

lemma note_program_Cons:
  "note_program (i # prog) r = Option.bind (note_instr i r) (note_program prog)"
  by (cases r) (auto simp: note_program_def note_instr_def add_tags_append Option.bind_eq_None_conv
      split: option.split)

lemma validate_program:
  assumes "\<forall>i \<in> set prog. instr_ok i" "drop pc buf = concat (map encode prog) @ rest" "program_end rest"
  shows "ladder_validate buf pc tt ct =
    (case note_program prog (tt, ct) of None \<Rightarrow> Inl ESP_ERR_NO_MEM | Some r \<Rightarrow> Inr r)"
  using assms
proof (induction prog arbitrary: pc tt ct)
  case Nil
  have "buf ! pc = 0xFF" if "pc < length buf"
    using Nil that by (simp add: program_end_def) (metis hd_drop_conv_nth drop_eq_Nil linorder_not_less)
  then show ?case by (simp add: ladder_validate.simps [of buf pc] note_program_def)
next
  case (Cons i prog)
  let ?rest = "concat (map encode prog) @ rest"
  have d: "drop pc buf = encode i @ ?rest" using Cons.prems(2) by simp
  have "drop (pc + length (encode i)) buf = drop (length (encode i)) (drop pc buf)"
    by (simp add: add.commute)
  then have "drop (pc + length (encode i)) buf = ?rest" using d by simp
  then have "ladder_validate buf (pc + length (encode i)) tt' ct' =
      (case note_program prog (tt', ct') of None \<Rightarrow> Inl ESP_ERR_NO_MEM | Some r \<Rightarrow> Inr r)" for tt' ct'
    using Cons.IH Cons.prems(1,3) by simp
  moreover have "instr_ok i" using Cons.prems(1) by simp
  ultimately show ?case
    by (simp add: validate_encode [OF _ d] note_program_Cons split: option.split)
qed

text \<open>Every accepted byte string is an encoded program.\<close>

lemma validate_parse:
  "ladder_validate buf pc tt ct = Inr r \<Longrightarrow>
   \<exists>prog rest. (\<forall>i \<in> set prog. instr_ok i) \<and> drop pc buf = concat (map encode prog) @ rest \<and> program_end rest"
proof (induction "length buf - pc" arbitrary: pc tt ct rule: less_induct)
  case less
  show ?case
  proof (cases "pc < length buf \<and> buf ! pc \<noteq> 0xFF")
    case False
    then have "program_end (drop pc buf)"
      by (cases "pc < length buf") (simp_all add: program_end_def hd_drop_conv_nth)
    then show ?thesis by (intro exI [of _ "[]"] exI [of _ "drop pc buf"]) simp
  next
    case True
    then obtain i rest where i: "instr_ok i" "drop pc buf = encode i @ rest"
      using validate_decode less.prems by blast
    then obtain tt' ct' where v: "ladder_validate buf (pc + length (encode i)) tt' ct' = Inr r"
      using less.prems by (auto simp: validate_encode split: option.splits)
    have "0 < length (encode i)" by (cases i) simp_all
    with True have "length buf - (pc + length (encode i)) < length buf - pc"
      by (intro diff_less_mono2) simp_all
    from less.hyps [OF this v] obtain prog rest' where p: "\<forall>i \<in> set prog. instr_ok i"
        "drop (pc + length (encode i)) buf = concat (map encode prog) @ rest'" "program_end rest'" by blast
    have "drop (pc + length (encode i)) buf = rest" using i(2)
      by (metis add.commute append_eq_conv_conj drop_drop)
    with i p show ?thesis by (intro exI [of _ "i # prog"] exI [of _ rest']) simp
  qed
qed

lemma note_program_ok:
  "note_program prog ([], []) \<noteq> None \<longleftrightarrow> card (timer_tags prog) \<le> MAX_TIMERS \<and> card (counter_tags prog) \<le> MAX_COUNTERS"
  (is "?l \<longleftrightarrow> ?r")
proof
  assume ?l
  then obtain tt ct where "add_tags MAX_TIMERS (concat (map timer_tag prog)) [] = Some tt"
      "add_tags MAX_COUNTERS (concat (map counter_tag prog)) [] = Some ct"
    by (auto simp: note_program_def split: option.splits)
  from this [THEN add_tags_Some] show ?r
    by (metis distinct_card distinct.simps(1) le0 list.size(3) sup_bot_left set_empty timer_tags_def counter_tags_def)
next
  assume ?r
  then show ?l
    using add_tags_None [of MAX_TIMERS "concat (map timer_tag prog)" "[]"]
      add_tags_None [of MAX_COUNTERS "concat (map counter_tag prog)" "[]"]
    by (auto simp: note_program_def timer_tags_def counter_tags_def split: option.splits)
qed

section \<open>Loading and the tables\<close>

lemma clear_ladder [simp]: "fst (ladder_engine_clear P w) = empty_ladder"
  by (simp add: ladder_engine_clear_def case_prod_unfold)

definition loaded :: "bytes \<Rightarrow> ladder \<Rightarrow> bool" where
  "loaded buf l \<longleftrightarrow> la_has_program l \<and> la_bytecode_length l = length buf \<and>
     take (la_bytecode_length l) (la_bytecode l) = buf"

lemma loaded_store: "loaded bs (store_bytecode bs l)"
  by (simp add: loaded_def store_bytecode_def)

text \<open>The result of a load on every branch.\<close>

lemma load_program_cases:
  "fst (ladder_engine_load_program P buf (l, w)) =
     (if length buf > LADDER_MAX_PROGRAM_SIZE then ESP_ERR_NO_MEM
      else if length buf < 5 \<or> take 4 buf \<noteq> [0x45, 0x4E, 0x44, 0x50] then ESP_ERR_INVALID_ARG
      else case ladder_validate buf 5 [] [] of Inl err \<Rightarrow> err | Inr _ \<Rightarrow> ESP_OK)"
  "fst (snd (ladder_engine_load_program P buf (l, w))) =
     (if length buf > LADDER_MAX_PROGRAM_SIZE \<or> length buf < 5 \<or> take 4 buf \<noteq> [0x45, 0x4E, 0x44, 0x50] then l
      else case ladder_validate buf 5 [] [] of Inl err \<Rightarrow> l | Inr _ \<Rightarrow> store_bytecode buf empty_ladder)"
  using clear_ladder [of P w]
  by (auto simp: ladder_engine_load_program_def case_prod_unfold Let_def split: sum.split)

lemma validate_error: "ladder_validate buf pc tt ct \<noteq> Inl ESP_OK"
proof (induction buf pc tt ct rule: ladder_validate.induct)
  case (1 buf pc tt ct)
  then show ?case by (subst ladder_validate.simps) (simp add: Let_def split: option.split)
qed

text \<open>A table with room for a key set holds an entry for each key it is asked for.\<close>

definition table_get ::
  "('e \<Rightarrow> u16) \<Rightarrow> (u16 \<Rightarrow> 'e) \<Rightarrow> nat \<Rightarrow> u16 \<Rightarrow> 'e list \<Rightarrow> nat option \<times> 'e list" where
  "table_get key mk limit tag xs = (case find_index (\<lambda>x. key x = tag) xs of
     Some i \<Rightarrow> (Some i, xs)
   | None \<Rightarrow> if length xs < limit then (Some (length xs), xs @ [mk tag]) else (None, xs))"

lemma get_or_create_table:
  "get_or_create_timer = table_get tm_tag_id new_timer MAX_TIMERS"
  "get_or_create_counter = table_get ct_tag_id new_counter MAX_COUNTERS"
  by (simp_all add: fun_eq_iff table_get_def get_or_create_timer_def get_or_create_counter_def)

lemma table_get_room:
  assumes "distinct (map key xs)" "set (map key xs) \<subseteq> T" "tag \<in> T" "finite T" "card T \<le> limit"
    and "key (mk tag) = tag"
  obtains i ys where "table_get key mk limit tag xs = (Some i, ys)" "i < length ys" "key (ys ! i) = tag"
    "distinct (map key ys)" "set (map key ys) = insert tag (set (map key xs))"
proof (cases "find_index (\<lambda>x. key x = tag) xs")
  case (Some i)
  then have "i < length xs" "key (xs ! i) = tag" by (auto dest: find_index_SomeD)
  moreover from this have "tag \<in> set (map key xs)" by (metis nth_mem length_map nth_map)
  ultimately show thesis using Some assms(1) by (intro that [of i xs]) (auto simp: table_get_def)
next
  case None
  then have new: "tag \<notin> set (map key xs)" by (auto simp: find_index_None)
  then have "card (insert tag (set (map key xs))) = Suc (length xs)"
    using assms(1) by (metis List.finite_set card_insert_disjoint distinct_card length_map)
  moreover have "card (insert tag (set (map key xs))) \<le> card T"
    using assms(2,3,4) by (intro card_mono) auto
  ultimately have "length xs < limit" using assms(5) by linarith
  with None new assms(1,6) show thesis
    by (intro that [of "length xs" "xs @ [mk tag]"]) (auto simp: table_get_def)
qed

definition timer_ids :: "ladder \<Rightarrow> u16 list" where
  "timer_ids l = map tm_tag_id (la_timers l)"

definition counter_ids :: "ladder \<Rightarrow> u16 list" where
  "counter_ids l = map ct_tag_id (la_counters l)"

text \<open>
  The tables hold distinct tags of the program; with at most 16 of each there is always room.
\<close>

definition tables_ok :: "instr list \<Rightarrow> ladder \<Rightarrow> bool" where
  "tables_ok prog l \<longleftrightarrow> distinct (timer_ids l) \<and> set (timer_ids l) \<subseteq> timer_tags prog \<and>
     distinct (counter_ids l) \<and> set (counter_ids l) \<subseteq> counter_tags prog"

definition same_program :: "ladder \<Rightarrow> ladder \<Rightarrow> bool" where
  "same_program l l' \<longleftrightarrow> la_bytecode l' = la_bytecode l \<and> la_bytecode_length l' = la_bytecode_length l \<and>
     la_has_program l' = la_has_program l"

lemma write_int_frame [simp]:
  "lm_ladder (write_int P tag v m) = lm_ladder m" "lm_acc (write_int P tag v m) = lm_acc m"
  "lm_stack (write_int P tag v m) = lm_stack m"
  by (simp_all add: write_int_def)

lemma write_out_frame [simp]: "lm_ladder (write_out P tag v m) = lm_ladder m"
  by (simp add: write_out_def)

lemma scan_tag [simp]:
  "tm_tag_id (fst (ton_scan now pt acc t)) = tm_tag_id t" "tm_tag_id (fst (tof_scan now pt acc t)) = tm_tag_id t"
  "ct_tag_id (fst (ctu_scan pc acc c)) = ct_tag_id c" "ct_tag_id (fst (ctd_scan pc acc c)) = ct_tag_id c"
  by (simp_all add: ton_scan_def tof_scan_def ctu_scan_def ctd_scan_def Let_def)

lemma map_update_same: "i < length xs \<Longrightarrow> f y = f (xs ! i) \<Longrightarrow> map f (xs[i := y]) = map f xs"
  by (simp add: map_update) (metis length_map list_update_id nth_map)

lemma reset_frame [simp]:
  "timer_ids (reset_timer_or_counter tag l) = timer_ids l" "counter_ids (reset_timer_or_counter tag l) = counter_ids l"
  "same_program l (reset_timer_or_counter tag l)"
  by (simp_all add: reset_timer_or_counter_def timer_ids_def counter_ids_def same_program_def Let_def
      map_update_same find_index_lt split: option.split)

lemma same_program_refl [simp]: "same_program l l"
  by (simp add: same_program_def)

lemma same_program_trans: "same_program a b \<Longrightarrow> same_program b c \<Longrightarrow> same_program a c"
  by (simp add: same_program_def)

lemma exec_simple_frame:
  assumes "m' = exec_logic P opc tag m \<or> m' = exec_or_block opc m \<or> m' = exec_math P opc a flags b dest m"
  shows "timer_ids (lm_ladder m') = timer_ids (lm_ladder m) \<and> counter_ids (lm_ladder m') = counter_ids (lm_ladder m) \<and>
    same_program (lm_ladder m) (lm_ladder m')"
proof -
  have "timer_ids (lm_ladder (exec_logic P opc tag m)) = timer_ids (lm_ladder m) \<and>
      counter_ids (lm_ladder (exec_logic P opc tag m)) = counter_ids (lm_ladder m) \<and>
      same_program (lm_ladder m) (lm_ladder (exec_logic P opc tag m))"
    by (simp add: exec_logic_def Let_def)
  moreover have "lm_ladder (exec_or_block opc m) = lm_ladder m"
    by (auto simp: exec_or_block_def split: list.split)
  moreover have "lm_ladder (exec_math P opc a flags b dest m) = lm_ladder m"
    by (simp add: exec_math_def Let_def)
  ultimately show ?thesis using assms by auto
qed

lemma exec_timer_tables:
  assumes "distinct (timer_ids (lm_ladder m))" "set (timer_ids (lm_ladder m)) \<subseteq> T" "tag \<in> T" "finite T"
    "card T \<le> MAX_TIMERS" and scan: "\<And>t. tm_tag_id (fst (scan t)) = tm_tag_id t"
  shows "let l = lm_ladder m; l' = lm_ladder (exec_timer P scan tag m) in
    distinct (timer_ids l') \<and> set (timer_ids l') = insert tag (set (timer_ids l)) \<and>
    counter_ids l' = counter_ids l \<and> same_program l l'"
proof -
  obtain i ys where g: "table_get tm_tag_id new_timer MAX_TIMERS tag (la_timers (lm_ladder m)) = (Some i, ys)"
      "i < length ys" "tm_tag_id (ys ! i) = tag" "distinct (map tm_tag_id ys)"
      "set (map tm_tag_id ys) = insert tag (set (map tm_tag_id (la_timers (lm_ladder m))))"
    by (rule table_get_room [of tm_tag_id "la_timers (lm_ladder m)" T tag MAX_TIMERS new_timer])
      (use assms in \<open>auto simp: timer_ids_def new_timer_def\<close>)
  then show ?thesis
    by (simp add: exec_timer_def get_or_create_table(1) timer_ids_def counter_ids_def same_program_def
        case_prod_unfold Let_def map_update_same scan del: set_map list.set_map)
qed

lemma exec_counter_tables:
  assumes "distinct (counter_ids (lm_ladder m))" "set (counter_ids (lm_ladder m)) \<subseteq> T" "tag \<in> T" "finite T"
    "card T \<le> MAX_COUNTERS" and scan: "\<And>c. ct_tag_id (fst (scan c)) = ct_tag_id c"
  shows "let l = lm_ladder m; l' = lm_ladder (exec_counter P scan tag m) in
    distinct (counter_ids l') \<and> set (counter_ids l') = insert tag (set (counter_ids l)) \<and>
    timer_ids l' = timer_ids l \<and> same_program l l'"
proof -
  obtain i ys where g: "table_get ct_tag_id new_counter MAX_COUNTERS tag (la_counters (lm_ladder m)) = (Some i, ys)"
      "i < length ys" "ct_tag_id (ys ! i) = tag" "distinct (map ct_tag_id ys)"
      "set (map ct_tag_id ys) = insert tag (set (map ct_tag_id (la_counters (lm_ladder m))))"
    by (rule table_get_room [of ct_tag_id "la_counters (lm_ladder m)" T tag MAX_COUNTERS new_counter])
      (use assms in \<open>auto simp: counter_ids_def new_counter_def\<close>)
  then show ?thesis
    by (simp add: exec_counter_def get_or_create_table(2) timer_ids_def counter_ids_def same_program_def
        case_prod_unfold Let_def map_update_same scan del: set_map list.set_map)
qed

lemma exec_instr_tables:
  assumes "tables_ok prog (lm_ladder m)" "program_ok prog" "i \<in> set prog"
  shows "let l = lm_ladder m; l' = lm_ladder (exec_instr P now i m) in
    tables_ok prog l' \<and> same_program l l' \<and>
    set (timer_ids l') = set (timer_ids l) \<union> set (timer_tag i) \<and>
    set (counter_ids l') = set (counter_ids l) \<union> set (counter_tag i)"
proof (cases i)
  case (Function_Block opc tag preset)
  have fin: "finite (timer_tags prog)" "finite (counter_tags prog)"
    by (simp_all add: timer_tags_def counter_tags_def)
  have sub: "set (timer_tag i) \<subseteq> timer_tags prog" "set (counter_tag i) \<subseteq> counter_tags prog"
    using assms(3) by (auto simp: timer_tags_def counter_tags_def)
  have opc: "opc = 0x30 \<or> opc = 0x31 \<or> opc = 0x32 \<or> opc = 0x33"
    using assms(2,3) Function_Block by (auto simp: program_ok_def)
  note tm = exec_timer_tables [of m "timer_tags prog" tag, unfolded Let_def]
  note ct = exec_counter_tables [of m "counter_tags prog" tag, unfolded Let_def]
  show ?thesis
  proof (cases "opc = 0x30 \<or> opc = 0x31")
    case True
    with Function_Block sub have "tag \<in> timer_tags prog" by simp
    with True Function_Block tm fin assms(1,2) show ?thesis
      by (auto simp: tables_ok_def program_ok_def Let_def exec_block_def op_defs)
  next
    case False
    with Function_Block sub have "tag \<in> counter_tags prog" by simp
    with False opc Function_Block ct fin assms(1,2) show ?thesis
      by (auto simp: tables_ok_def program_ok_def Let_def exec_block_def op_defs)
  qed
next
  case (Contact opc tag)
  with exec_simple_frame [of "exec_logic P opc tag m" P opc tag m 0 0 0 0] assms(1) show ?thesis by (simp add: tables_ok_def Let_def)
next
  case (Or_Block opc)
  with exec_simple_frame [of "exec_or_block opc m" P opc 0 m 0 0 0 0] assms(1) show ?thesis by (simp add: tables_ok_def Let_def)
next
  case (Arith opc a flags b dest)
  with exec_simple_frame [of "exec_math P opc a flags b dest m" P opc 0 m a flags b dest] assms(1) show ?thesis by (simp add: tables_ok_def Let_def)
qed

lemma fold_tables:
  assumes "tables_ok prog (lm_ladder m)" "program_ok prog" "set is \<subseteq> set prog"
  shows "let l = lm_ladder m; l' = lm_ladder (fold (exec_instr P now) is m) in
    tables_ok prog l' \<and> same_program l l' \<and>
    set (timer_ids l') = set (timer_ids l) \<union> timer_tags is \<and>
    set (counter_ids l') = set (counter_ids l) \<union> counter_tags is"
  using assms
proof (induction "is" arbitrary: m)
  case Nil
  then show ?case by (simp add: timer_tags_def counter_tags_def)
next
  case (Cons i "is")
  have i: "i \<in> set prog" using Cons.prems(3) by simp
  note one = exec_instr_tables [OF Cons.prems(1,2) i, of P now, unfolded Let_def]
  from one Cons.IH [of "exec_instr P now i m"] Cons.prems show ?case
    by (auto simp: Let_def timer_tags_def counter_tags_def intro: same_program_trans)
qed

text \<open>One scan of a program, and the engine after the scans of a list of system states.\<close>

definition exec_program :: "'w platform \<Rightarrow> instr list \<Rightarrow> ladder \<times> 'w system \<Rightarrow> ladder \<times> 'w system" where
  "exec_program P prog = (\<lambda>(l, s).
     case timer_ms P (sys_world s) of (now_ms, w) \<Rightarrow>
       let m = fold (exec_instr P now_ms) prog
                 \<lparr>lm_acc = False, lm_stack = [], lm_ladder = l, lm_sys = s\<lparr>sys_world := w\<rparr>\<rparr>
       in (lm_ladder m, lm_sys m))"

definition scans :: "'w platform \<Rightarrow> ladder \<Rightarrow> 'w system list \<Rightarrow> ladder" where
  "scans P l ss = foldl (\<lambda>l s. fst (ladder_engine_run P (l, s))) l ss"

definition program_image :: "u8 \<Rightarrow> instr list \<Rightarrow> bytes \<Rightarrow> bytes" where
  "program_image version prog rest =
     [0x45, 0x4E, 0x44, 0x50, version] @ concat (map encode prog) @ rest"

lemma drop_image: "drop 5 (program_image v prog rest) = concat (map encode prog) @ rest"
  by (simp add: program_image_def)

lemma run_loaded:
  assumes "loaded (program_image v prog rest) l" "program_ok prog" "program_end rest"
  shows "ladder_engine_run P (l, s) = exec_program P prog (l, s)"
proof -
  have "ladder_loop P now (take (la_bytecode_length l) (la_bytecode l)) 5 m = fold (exec_instr P now) prog m" for now m
  proof -
    have "take (la_bytecode_length l) (la_bytecode l) = program_image v prog rest"
      using assms(1) unfolding loaded_def by blast
    then show ?thesis
      using assms(2) loop_encoded [OF _ drop_image assms(3), of prog P now v m] by (simp add: program_ok_def)
  qed
  moreover have "la_has_program l" "\<not> la_bytecode_length l < 5"
    using assms(1) by (auto simp: loaded_def program_image_def)
  ultimately show ?thesis by (simp add: ladder_engine_run_def exec_program_def)
qed

lemma exec_program_tables:
  assumes "tables_ok prog l" "program_ok prog"
  shows "let l' = fst (exec_program P prog (l, s)) in tables_ok prog l' \<and> same_program l l' \<and>
    set (timer_ids l') = timer_tags prog \<and> set (counter_ids l') = counter_tags prog"
proof -
  obtain now w where t: "timer_ms P (sys_world s) = (now, w)" by (cases "timer_ms P (sys_world s)")
  have "tables_ok prog (lm_ladder \<lparr>lm_acc = False, lm_stack = [], lm_ladder = l, lm_sys = s\<lparr>sys_world := w\<rparr>\<rparr>)"
    using assms(1) by simp
  from fold_tables [OF this assms(2) subset_refl, of P now] assms(1) t show ?thesis
    by (auto simp: exec_program_def Let_def tables_ok_def)
qed

lemma scans_keep:
  assumes "loaded (program_image v prog rest) l" "tables_ok prog l" "program_ok prog" "program_end rest"
  shows "loaded (program_image v prog rest) (scans P l ss) \<and> tables_ok prog (scans P l ss) \<and>
    (ss \<noteq> [] \<longrightarrow> set (timer_ids (scans P l ss)) = timer_tags prog \<and>
       set (counter_ids (scans P l ss)) = counter_tags prog)"
proof (induction ss rule: rev_induct)
  case Nil
  then show ?case using assms(1,2) by (simp add: scans_def)
next
  case (snoc s ss)
  from snoc have ok: "loaded (program_image v prog rest) (scans P l ss)" "tables_ok prog (scans P l ss)" by auto
  have "scans P l (ss @ [s]) = fst (exec_program P prog (scans P l ss, s))"
    using run_loaded [OF ok(1) assms(3,4), of P s] by (simp add: scans_def)
  with exec_program_tables [OF ok(2) assms(3), of P s] ok(1) show ?case
    by (auto simp: Let_def loaded_def same_program_def)
qed

lemma load_image:
  assumes "program_ok prog" "program_end rest" "length (program_image v prog rest) \<le> LADDER_MAX_PROGRAM_SIZE"
  shows "fst (ladder_engine_load_program P (program_image v prog rest) (l, w)) = ESP_OK \<and>
    fst (snd (ladder_engine_load_program P (program_image v prog rest) (l, w))) =
      store_bytecode (program_image v prog rest) empty_ladder"
proof -
  have "\<forall>i \<in> set prog. instr_ok i" using assms(1) by (simp add: program_ok_def)
  from validate_program [OF this drop_image assms(2)] note_program_ok [of prog] assms(1)
  obtain r where "ladder_validate (program_image v prog rest) 5 [] [] = Inr r"
    by (force simp: program_ok_def split: option.splits)
  moreover have "take 4 (program_image v prog rest) = [0x45, 0x4E, 0x44, 0x50]" "\<not> length (program_image v prog rest) < 5"
    by (simp_all add: program_image_def)
  ultimately show ?thesis using assms(3) by (simp add: load_program_cases)
qed

section \<open>Properties\<close>

text \<open>
  C17: the loader accepts exactly the programs: at most 2048 bytes that are the header, a version
  byte and the encoding of well-formed instructions with at most 16 timers and 16 counters, up
  to the end or a terminator.
\<close>

theorem ladder_load_accepts_programs:
  "fst (ladder_engine_load_program P buf (l, w)) = ESP_OK \<longleftrightarrow>
     length buf \<le> LADDER_MAX_PROGRAM_SIZE \<and>
     (\<exists>v prog rest. buf = program_image v prog rest \<and> program_ok prog \<and> program_end rest)"
  (is "?l \<longleftrightarrow> ?r")
proof
  assume ?r
  then obtain v prog rest where "buf = program_image v prog rest" "program_ok prog" "program_end rest" by blast
  with \<open>?r\<close> load_image [of prog rest v P l w] show ?l by simp
next
  assume ?l
  then obtain r where size: "length buf \<le> LADDER_MAX_PROGRAM_SIZE" "5 \<le> length buf"
      and hdr: "take 4 buf = [0x45, 0x4E, 0x44, 0x50]" and v: "ladder_validate buf 5 [] [] = Inr r"
    using validate_error [of buf 5 "[]" "[]"] by (auto simp: load_program_cases split: if_splits sum.splits)
  from validate_parse [OF v] obtain prog rest where p: "\<forall>i \<in> set prog. instr_ok i"
      "drop 5 buf = concat (map encode prog) @ rest" "program_end rest" by blast
  from validate_program [OF p] v have "note_program prog ([], []) \<noteq> None" by (auto split: option.splits)
  then have "card (timer_tags prog) \<le> MAX_TIMERS \<and> card (counter_tags prog) \<le> MAX_COUNTERS"
    by (rule note_program_ok [THEN iffD1])
  with p(1) have ok: "program_ok prog" by (simp add: program_ok_def)
  have "buf = take 4 buf @ buf ! 4 # drop 5 buf"
    using size(2) by (metis append_take_drop_id drop_nth_Cons eval_nat_numeral(3) less_le_trans lessI Suc_numeral add_One numeral_plus_one)
  with hdr p have "buf = program_image (buf ! 4) prog rest" by (simp add: program_image_def)
  with size(1) ok p(3) show ?r by blast
qed

text \<open>
  C4: after a successful load, and after any number of scans over any system states, a scan
  executes exactly the instructions of the program in order, none skipped or cut short; the
  timer and counter tables never overflow, and from the first scan on they hold exactly the
  timers and counters of the program.
\<close>

theorem ladder_scans_execute_program:
  assumes "program_ok prog" "program_end rest" "length (program_image v prog rest) \<le> LADDER_MAX_PROGRAM_SIZE"
  shows "let l' = fst (snd (ladder_engine_load_program P (program_image v prog rest) (l, w))); ln = scans P l' ss in
    ladder_engine_run P (ln, s) = exec_program P prog (ln, s) \<and>
    length (la_timers ln) \<le> 16 \<and> length (la_counters ln) \<le> 16 \<and>
    (ss \<noteq> [] \<longrightarrow> set (timer_ids ln) = timer_tags prog \<and> set (counter_ids ln) = counter_tags prog)"
proof -
  let ?l = "store_bytecode (program_image v prog rest) empty_ladder"
  have ld: "fst (snd (ladder_engine_load_program P (program_image v prog rest) (l, w))) = ?l"
    by (rule load_image [OF assms, THEN conjunct2])
  have "tables_ok prog ?l"
    by (simp add: tables_ok_def timer_ids_def counter_ids_def store_bytecode_def empty_ladder_def)
  from scans_keep [OF loaded_store this assms(1,2)]
  have keep: "loaded (program_image v prog rest) (scans P ?l ss)" "tables_ok prog (scans P ?l ss)"
      "ss \<noteq> [] \<longrightarrow> set (timer_ids (scans P ?l ss)) = timer_tags prog \<and>
         set (counter_ids (scans P ?l ss)) = counter_tags prog" by blast+
  have "length (la_timers (scans P ?l ss)) = card (set (timer_ids (scans P ?l ss)))"
    using keep(2) by (simp add: tables_ok_def timer_ids_def distinct_card del: set_map list.set_map)
  also have "\<dots> \<le> card (timer_tags prog)"
    using keep(2) by (intro card_mono) (auto simp: tables_ok_def timer_tags_def)
  finally have t: "length (la_timers (scans P ?l ss)) \<le> 16"
    using assms(1) by (simp add: program_ok_def MAX_TIMERS_def)
  have "length (la_counters (scans P ?l ss)) = card (set (counter_ids (scans P ?l ss)))"
    using keep(2) by (simp add: tables_ok_def counter_ids_def distinct_card del: set_map list.set_map)
  also have "\<dots> \<le> card (counter_tags prog)"
    using keep(2) by (intro card_mono) (auto simp: tables_ok_def counter_tags_def)
  finally have c: "length (la_counters (scans P ?l ss)) \<le> 16"
    using assms(1) by (simp add: program_ok_def MAX_COUNTERS_def)
  show ?thesis
    using run_loaded [OF keep(1) assms(1,2), of P s] keep(3) t c by (simp add: ld Let_def)
qed

text \<open>A program with a timer and a counter.\<close>

definition demo_program :: "instr list" where
  "demo_program = [Contact OP_LD 10, Function_Block OP_TON 20 500, Function_Block OP_CTU 30 3, Contact OP_ST 100]"

lemma demo_program_ok: "program_ok demo_program"
  by (simp add: program_ok_def demo_program_def contact_ops_def op_defs timer_tags_def counter_tags_def
      MAX_TIMERS_def MAX_COUNTERS_def)

lemma demo_image_length: "length (program_image 1 demo_program [0xFF]) = 22"
  by (simp add: program_image_def demo_program_def be16_bytes_def)

theorem ladder_scans_execute_program_witness:
  "set (timer_ids (scans sim_platform
     (fst (snd (ladder_engine_load_program sim_platform (program_image 1 demo_program [0xFF]) (empty_ladder, sim_init))))
     [boot_system])) = {20}"
proof -
  have "program_end [0xFF]" by (simp add: program_end_def)
  moreover have "length (program_image 1 demo_program [0xFF]) \<le> LADDER_MAX_PROGRAM_SIZE"
    by (simp add: demo_image_length LADDER_MAX_PROGRAM_SIZE_def)
  ultimately show ?thesis
    using ladder_scans_execute_program [OF demo_program_ok, of "[0xFF]" 1 sim_platform empty_ladder sim_init
        "[boot_system]" boot_system]
    by (simp add: Let_def) (simp add: timer_tags_def demo_program_def op_defs)
qed

text \<open>The outputs of a function block over a sequence of scans (time and input of each).\<close>

fun trace :: "('a \<Rightarrow> bool \<Rightarrow> 't \<Rightarrow> 't \<times> bool) \<Rightarrow> 't \<Rightarrow> ('a \<times> bool) list \<Rightarrow> bool list" where
  "trace f t [] = []"
| "trace f t ((now, acc) # xs) = snd (f now acc t) # trace f (fst (f now acc t)) xs"

lemma ton_on_trace:
  "tm_active t \<Longrightarrow> \<forall>x \<in> set xs. snd x \<Longrightarrow>
   trace (\<lambda>now. ton_scan now preset) t xs = map (\<lambda>x. fst x - tm_start_time_ms t \<ge> int (unat preset)) xs"
  by (induction xs) (auto simp: ton_scan_def Let_def)

text \<open>
  The on-delay timer. From a scan with the input off, which gives an off output, a run of
  scans with the input on gives an output that is on exactly when the preset has elapsed since
  the first of them, whatever the timer did before.
\<close>

theorem ladder_ton_delay:
  assumes "\<forall>x \<in> set xs. snd x"
  shows "trace (\<lambda>now. ton_scan now preset) t ((t0, False) # (t1, True) # xs) =
    False # map (\<lambda>x. fst x - t1 \<ge> int (unat preset)) ((t1, True) # xs)"
proof -
  let ?t = "t\<lparr>tm_active := True, tm_start_time_ms := t1\<rparr>"
  have "trace (\<lambda>now. ton_scan now preset) ?t xs = map (\<lambda>x. fst x - t1 \<ge> int (unat preset)) xs"
    using ton_on_trace [of ?t xs preset] assms by simp
  then show ?thesis by (simp add: ton_scan_def Let_def)
qed

theorem ladder_ton_delay_witness:
  "trace (\<lambda>now. ton_scan now 500) (new_timer 20) [(0, False), (10, True), (300, True), (510, True)] =
     [False, False, False, True]"
  using ladder_ton_delay [of "[(300, True), (510, True)]" 500 "new_timer 20" 0 10] by simp

lemma tof_off_trace:
  "tm_last_acc t \<Longrightarrow> 0 < preset \<Longrightarrow> \<forall>x \<in> set xs. \<not> snd x \<Longrightarrow>
   trace (\<lambda>now. tof_scan now preset) t xs = map (\<lambda>_. True) xs"
proof (induction xs arbitrary: t)
  case (Cons x xs)
  obtain now where x: "x = (now, False)" using Cons.prems(3) by (cases x) auto
  have pos: "uint preset \<noteq> 0" using Cons.prems(2) by (simp add: word_gt_0 uint_0_iff)
  have "fst (tof_scan now preset False t) = t\<lparr>tm_active := True, tm_start_time_ms := now, tm_last_acc := True\<rparr>"
    and "snd (tof_scan now preset False t)"
    using Cons.prems(1) pos by (simp_all add: tof_scan_def Let_def)
  with Cons.IH [of "fst (tof_scan now preset False t)"] Cons.prems x show ?case by simp
qed simp

text \<open>
  The off-delay timer never expires. \<open>last_acc\<close> records the output rather than the input, so
  every scan with the input off restarts the delay: once the input has been on, the output stays
  on in every later scan however long the input is off.
\<close>

theorem ladder_tof_never_expires:
  assumes "0 < preset" "\<forall>x \<in> set xs. \<not> snd x"
  shows "trace (\<lambda>now. tof_scan now preset) t ((t0, True) # xs) = map (\<lambda>_. True) ((t0, True) # xs)"
  using tof_off_trace [of "t\<lparr>tm_active := False, tm_last_acc := True\<rparr>" preset xs] assms
  by (simp add: tof_scan_def)

text \<open>An off-delay of one second is still on after 90 seconds.\<close>

theorem ladder_tof_never_expires_witness:
  "trace (\<lambda>now. tof_scan now 1000) (new_timer 20) [(0, True), (30000, False), (60000, False), (90000, False)] =
     [True, True, True, True]"
  using ladder_tof_never_expires [of 1000 "[(30000, False), (60000, False), (90000, False)]" "new_timer 20" 0]
  by simp

text \<open>
  A down counter with preset 1 or more is done for a single scan: the scan after the count has
  reached zero reloads the preset.
\<close>

lemma ctd_reloads:
  assumes "ct_current_count c = 0" "0 < preset" "\<not> acc \<or> ct_last_acc c"
  shows "\<not> snd (ctd_scan preset acc c)"
proof -
  have "(ucast preset :: u32) \<noteq> 0"
  proof
    assume "(ucast preset :: u32) = 0"
    then have "unat (ucast preset :: u32) = 0" by simp
    moreover have "unat (ucast preset :: u32) = unat preset"
      by (simp add: unsigned_ucast_eq take_bit_nat_eq_self_iff less_trans [OF unat_u16_lt])
    ultimately show False using assms(2) by (simp add: word_gt_0 unat_0_iff)
  qed
  with assms show ?thesis by (auto simp: ctd_scan_def Let_def)
qed

definition clamp32 :: "int \<Rightarrow> int" where
  "clamp32 z = max (- (2 ^ 31)) (min (2 ^ 31 - 1) z)"

lemma sint_clamp32: "sint (word_of_int (clamp32 z) :: i32) = clamp32 z"
  by (simp add: clamp32_def sint_sbintrunc' signed_take_bit_int_eq_self_iff max_def min_def)

text \<open>
  An arithmetic instruction on a powered rung writes the exact mathematical result,
  saturated to the 32-bit range, to its destination and changes no other variable; a division
  by zero gives 0.
\<close>

theorem ladder_arith_saturates:
  assumes "system_ok (lm_sys m)" "lm_acc m" "state_valid_id dest" "flags = 0 \<or> flags = 1"
  shows "let A = sint (read_int (lm_sys m) a);
             B = (if flags = 0 then sint (read_int (lm_sys m) b) else sint b);
             m' = (\<lambda>opc. exec_math P opc a flags b dest m);
             result = (\<lambda>opc z. \<exists>v. sint v = clamp32 z \<and>
               state_get_int (sys_state (lm_sys (m' opc))) = (state_get_int (sys_state (lm_sys m)))(dest \<mapsto> v))
         in result OP_ADD (A + B) \<and> result OP_SUB (A - B) \<and> result OP_MUL (A * B) \<and>
            result OP_DIV (if B = 0 then 0 else A sdiv B)"
proof -
  let ?A = "sint (read_int (lm_sys m) a)"
  let ?B = "if flags = 0 then sint (read_int (lm_sys m) b) else sint b"
  have "state_get_int (sys_state (lm_sys (exec_math P opc a flags b dest m))) =
      (state_get_int (sys_state (lm_sys m)))(dest \<mapsto> word_of_int (ladder_math opc ?A ?B))" for opc
    using assms by (auto simp: exec_math_def write_int_def set_int_get)
  moreover have "ladder_math OP_ADD x y = clamp32 (x + y)" "ladder_math OP_SUB x y = clamp32 (x - y)"
      "ladder_math OP_MUL x y = clamp32 (x * y)" "ladder_math OP_DIV x y = clamp32 (if y = 0 then 0 else x sdiv y)" for x y
    by (simp_all add: ladder_math_def op_defs clamp32_def Let_def max_def min_def)
  ultimately have "\<exists>v. sint v = clamp32 z \<and>
      state_get_int (sys_state (lm_sys (exec_math P opc a flags b dest m))) = (state_get_int (sys_state (lm_sys m)))(dest \<mapsto> v)"
    if "opc = OP_ADD \<and> z = ?A + ?B \<or> opc = OP_SUB \<and> z = ?A - ?B \<or> opc = OP_MUL \<and> z = ?A * ?B \<or>
      opc = OP_DIV \<and> z = (if ?B = 0 then 0 else ?A sdiv ?B)" for opc z
    using that sint_clamp32 [of z] by (intro exI [of _ "word_of_int (clamp32 z)"] conjI) (auto simp del: if_split)
  then show ?thesis unfolding Let_def by (intro conjI) simp_all
qed

text \<open>Multiplying \<open>-32768\<close> by the value \<open>100000\<close> of a variable saturates.\<close>

theorem ladder_arith_saturates_witness:
  "\<exists>v. sint v = - 2147483648 \<and>
    state_get_int (sys_state (lm_sys (exec_math sim_platform OP_MUL 50 1 0x8000 60
      \<lparr>lm_acc = True, lm_stack = [], lm_ladder = empty_ladder,
       lm_sys = snd (state_set_int sim_platform 50 100000 boot_system)\<rparr>))) 60 = Some v"
proof -
  let ?s = "snd (state_set_int sim_platform 50 100000 boot_system)"
  have valid: "state_valid_id 50" "state_valid_id 60" by (simp_all add: state_valid_id_def STATE_MAX_ENTRIES_def)
  have ok: "system_ok ?s" by (rule set_int_ok [OF boot_system_ok])
  have rd: "read_int ?s 50 = 100000"
    by (simp add: read_int_def set_int_get [OF boot_system_ok] valid)
  have "sint (0x8000 :: u16) = - 32768" "sint (100000 :: u32) = 100000" by simp_all
  moreover have "clamp32 (100000 * - 32768) = - 2147483648" by (simp add: clamp32_def)
  ultimately show ?thesis
    using ladder_arith_saturates [of "\<lparr>lm_acc = True, lm_stack = [], lm_ladder = empty_ladder, lm_sys = ?s\<rparr>" 60 1 50 "0x8000" sim_platform]
      ok valid rd by (auto simp: Let_def)
qed

section \<open>Persistence\<close>

lemma load_world:
  assumes "fst (ladder_engine_load_program P buf (l, w)) = ESP_OK" "nvs_durable P"
    "nvs_accepts P ''endap_ladder'' ''bytecode'' buf (snd (ladder_engine_clear P w))"
  shows "ladder_engine_load_program P buf (l, w) =
      (ESP_OK, store_bytecode buf empty_ladder, snd (snd (ladder_engine_load_program P buf (l, w)))) \<and>
    nvs_holds P ''endap_ladder'' ''bytecode'' buf (snd (snd (ladder_engine_load_program P buf (l, w)))) \<and>
    5 \<le> length buf \<and> length buf \<le> LADDER_MAX_PROGRAM_SIZE"
proof -
  obtain h w1 w2 w3 where st: "nvs_open P ''endap_ladder'' NVS_READWRITE (snd (ladder_engine_clear P w)) = (ESP_OK, h, w1)"
      "nvs_set_blob P h ''bytecode'' buf w1 = (ESP_OK, w2)" "nvs_commit P h w2 = (ESP_OK, w3)"
    using assms(3) by (auto simp: nvs_accepts_def)
  then have holds: "nvs_holds P ''endap_ladder'' ''bytecode'' buf (nvs_close P h w3)"
    using assms(2) unfolding nvs_durable_def by metis
  have size: "5 \<le> length buf" "length buf \<le> LADDER_MAX_PROGRAM_SIZE" "take 4 buf = [0x45, 0x4E, 0x44, 0x50]"
    and v: "\<exists>r. ladder_validate buf 5 [] [] = Inr r"
    using assms(1) validate_error [of buf 5 "[]" "[]"] by (auto simp: load_program_cases split: if_splits sum.splits)
  have "ladder_engine_clear P w = (empty_ladder, snd (ladder_engine_clear P w))"
    using clear_ladder [of P w] by (metis prod.collapse)
  moreover have "take (la_bytecode_length (store_bytecode buf empty_ladder)) (la_bytecode (store_bytecode buf empty_ladder)) = buf"
    by (simp add: store_bytecode_def)
  ultimately have "ladder_engine_load_program P buf (l, w) = (ESP_OK, store_bytecode buf empty_ladder, nvs_close P h w3)"
    using st size v by (auto simp: ladder_engine_load_program_def Let_def split: prod.split)
  with holds size show ?thesis by simp
qed

lemma init_holds:
  assumes "nvs_holds P ''endap_ladder'' ''bytecode'' buf w" "0 < length buf" "length buf \<le> LADDER_MAX_PROGRAM_SIZE"
  shows "fst (ladder_engine_init P w) = store_bytecode buf empty_ladder"
  using assms by (auto simp: nvs_holds_def ladder_engine_init_def)

text \<open>
  An accepted program survives a reboot. When storage accepts the program and keeps what it
  commits, the initialisation of the engine gives the very engine the load produced.
\<close>

theorem ladder_program_survives_reboot:
  assumes "fst (ladder_engine_load_program P buf (l, w)) = ESP_OK" "nvs_durable P"
    and "nvs_accepts P ''endap_ladder'' ''bytecode'' buf (snd (ladder_engine_clear P w))"
  shows "fst (ladder_engine_init P (snd (snd (ladder_engine_load_program P buf (l, w))))) =
      fst (snd (ladder_engine_load_program P buf (l, w))) \<and>
    ladder_engine_get_program LADDER_MAX_PROGRAM_SIZE
      (fst (ladder_engine_init P (snd (snd (ladder_engine_load_program P buf (l, w)))))) = buf"
proof -
  note ld = load_world [OF assms]
  have "fst (ladder_engine_init P (snd (snd (ladder_engine_load_program P buf (l, w))))) = store_bytecode buf empty_ladder"
    using ld by (intro init_holds) auto
  moreover have "fst (snd (ladder_engine_load_program P buf (l, w))) = store_bytecode buf empty_ladder"
    using ld by (metis fst_conv snd_conv)
  moreover have "ladder_engine_get_program LADDER_MAX_PROGRAM_SIZE (store_bytecode buf empty_ladder) = buf"
    using ld by (auto simp: ladder_engine_get_program_def store_bytecode_def LADDER_MAX_PROGRAM_SIZE_def)
  ultimately show ?thesis by simp
qed

lemma demo_image_loads:
  "fst (ladder_engine_load_program P (program_image 1 demo_program [0xFF]) (l, w)) = ESP_OK"
proof -
  have "program_end [0xFF]" by (simp add: program_end_def)
  moreover have "length (program_image 1 demo_program [0xFF]) \<le> LADDER_MAX_PROGRAM_SIZE"
    by (simp add: demo_image_length LADDER_MAX_PROGRAM_SIZE_def)
  ultimately show ?thesis by (rule load_image [OF demo_program_ok, THEN conjunct1])
qed

lemma sim_clear_accepts:
  "sim_nvs_ok w \<Longrightarrow> nvs_accepts sim_platform ns key bs (snd (ladder_engine_clear sim_platform w))"
  by (rule sim_accepts) (simp add: ladder_engine_clear_def)

theorem ladder_program_survives_reboot_witness:
  "ladder_engine_get_program LADDER_MAX_PROGRAM_SIZE (fst (ladder_engine_init sim_platform
     (snd (snd (ladder_engine_load_program sim_platform (program_image 1 demo_program [0xFF]) (empty_ladder, sim_init)))))) =
   program_image 1 demo_program [0xFF]"
  by (rule ladder_program_survives_reboot [OF demo_image_loads sim_durable sim_clear_accepts, THEN conjunct2])
    (simp add: sim_simps)

text \<open>The test program, and one of its scans.\<close>

definition self_test_program :: "instr list" where
  "self_test_program = [Contact OP_LD SELF_TEST_INPUT, Contact OP_ST SELF_TEST_OUTPUT]"

lemma test_prog_image: "test_prog = program_image 1 self_test_program [0xFF]"
  by (simp add: test_prog_def program_image_def self_test_program_def be16_bytes_def hi8_def)

lemma self_test_program_ok: "program_ok self_test_program" "program_end [0xFF]"
  by (simp_all add: program_ok_def self_test_program_def contact_ops_def op_defs timer_tags_def counter_tags_def program_end_def)

lemma test_prog_loads: "fst (ladder_engine_load_program P test_prog (l, w)) = ESP_OK"
  unfolding test_prog_image
  by (rule load_image [OF self_test_program_ok, THEN conjunct1])
    (simp add: test_prog_image [symmetric] test_prog_def LADDER_MAX_PROGRAM_SIZE_def)

lemma self_test_scan_result:
  assumes "loaded test_prog l" "system_ok s" "state_get_int (sys_state s) SELF_TEST_INPUT = Some v"
    "timer_keeps_nvs P" "nvs_holds P ns key bs (sys_world s)"
  shows "\<exists>s'. self_test_scan P out_val (l, s) = (if sint v > 0 then 1 else 0, l, s') \<and>
    system_ok s' \<and> nvs_holds P ns key bs (sys_world s')"
proof -
  obtain now w where t: "timer_ms P (sys_world s) = (now, w)" by (cases "timer_ms P (sys_world s)")
  let ?s = "s\<lparr>sys_world := w\<rparr>"
  let ?v = "if sint v > 0 then 1 else (0 :: i32)"
  let ?s' = "snd (state_set_int P SELF_TEST_OUTPUT ?v ?s)"
  have ok: "system_ok ?s" using assms(2) by (simp add: system_ok_def)
  have "nvs_holds P ns key bs (sys_world ?s)" using timer_ms_keeps [OF assms(4,5)] t by simp
  then have holds: "nvs_holds P ns key bs (sys_world ?s')" by (rule set_int_keeps [OF assms(4)])
  have "ladder_engine_run P (l, s) = exec_program P self_test_program (l, s)"
    using run_loaded [OF _ self_test_program_ok] assms(1) by (simp add: test_prog_image)
  then have run: "ladder_engine_run P (l, s) = (l, ?s')"
    using t assms(3) by (simp add: exec_program_def self_test_program_def exec_logic_def op_defs Let_def
        read_int_def write_int_def)
  have "state_valid_id SELF_TEST_OUTPUT"
    by (simp add: SELF_TEST_OUTPUT_def state_valid_id_def STATE_MAX_ENTRIES_def)
  with set_int_get [OF ok, of P SELF_TEST_OUTPUT ?v]
  have "state_get_int (sys_state ?s') SELF_TEST_OUTPUT = Some ?v" by simp
  with run holds set_int_ok [OF ok] show ?thesis by (simp add: self_test_scan_def)
qed

text \<open>A scan of the test after the input has been written.\<close>

lemma self_test_stage:
  assumes "loaded test_prog l" "system_ok s" "timer_keeps_nvs P" "nvs_holds P ns key bs (sys_world s)" "sint x = 0 \<or> sint x = 1"
    and "s1 = snd (state_set_int P SELF_TEST_INPUT x s) \<or>
      s1 = snd (state_set_int P SELF_TEST_OUTPUT y (snd (state_set_int P SELF_TEST_INPUT x s)))"
  obtains s2 where "self_test_scan P out_val (l, s1) = (x, l, s2)" "system_ok s2" "nvs_holds P ns key bs (sys_world s2)"
proof -
  let ?s = "snd (state_set_int P SELF_TEST_INPUT x s)"
  have valid: "state_valid_id SELF_TEST_INPUT" and ne: "SELF_TEST_INPUT \<noteq> SELF_TEST_OUTPUT"
    by (simp_all add: SELF_TEST_INPUT_def SELF_TEST_OUTPUT_def state_valid_id_def STATE_MAX_ENTRIES_def)
  have ok: "system_ok ?s" using assms(2) by (rule set_int_ok)
  have "state_get_int (sys_state ?s) SELF_TEST_INPUT = Some x" using set_int_get [OF assms(2)] valid by simp
  then have get: "state_get_int (sys_state s1) SELF_TEST_INPUT = Some x"
    using assms(6) set_int_get [OF ok] ne by auto
  have ok1: "system_ok s1" using assms(6) ok set_int_ok by auto
  have holds: "nvs_holds P ns key bs (sys_world s1)" using assms(6) set_int_keeps [OF assms(3)] assms(4) by auto
  have "(if sint x > 0 then 1 else 0) = x"
    using assms(5) by (auto intro: signed_word_eqI)
  with self_test_scan_result [OF assms(1) ok1 get assms(3) holds, of out_val] that show thesis by auto
qed

text \<open>
  C33: the self test passes on every well-formed system and puts the running program back in
  memory, but it has replaced the program in storage: after the next reboot the engine runs the
  test program. The timers and counters of the running program are lost as well.
\<close>

theorem ladder_self_test_replaces_stored_program:
  assumes "system_ok s" "loaded buf l" "buf \<noteq> []" "nvs_durable P" "timer_keeps_nvs P"
    and "nvs_accepts P ''endap_ladder'' ''bytecode'' test_prog (snd (ladder_engine_clear P (sys_world s)))"
  shows "\<exists>l' s'. ladder_engine_run_self_test P (l, s) = (True, l', s') \<and> loaded buf l' \<and>
    la_timers l' = [] \<and> la_counters l' = [] \<and>
    loaded test_prog (fst (ladder_engine_init P (sys_world s')))"
proof -
  let ?l = "store_bytecode test_prog empty_ladder"
  let ?H = "nvs_holds P ''endap_ladder'' ''bytecode'' test_prog"
  obtain w where ld: "ladder_engine_load_program P test_prog (l, sys_world s) = (ESP_OK, ?l, w)" "?H w"
      "5 \<le> length test_prog" "length test_prog \<le> LADDER_MAX_PROGRAM_SIZE"
    using load_world [OF test_prog_loads assms(4,6), of l] by metis
  have l: "loaded test_prog ?l" by (rule loaded_store)
  have ok: "system_ok (s\<lparr>sys_world := w\<rparr>)" using assms(1) by (simp add: system_ok_def)
  have h: "?H (sys_world (s\<lparr>sys_world := w\<rparr>))" using ld by simp
  let ?sa = "snd (state_set_int P SELF_TEST_OUTPUT 1 (snd (state_set_int P SELF_TEST_INPUT 0 (s\<lparr>sys_world := w\<rparr>))))"
  obtain s1 where s1: "self_test_scan P (- 1) (?l, ?sa) = (0, ?l, s1)" "system_ok s1" "?H (sys_world s1)"
    by (rule self_test_stage [OF l ok assms(5) h, of 0 ?sa 1 "- 1"]) auto
  obtain s2 where s2: "self_test_scan P 0 (?l, snd (state_set_int P SELF_TEST_INPUT 1 s1)) = (1, ?l, s2)"
      "system_ok s2" "?H (sys_world s2)"
    by (rule self_test_stage [OF l s1(2) assms(5) s1(3), of 1 "snd (state_set_int P SELF_TEST_INPUT 1 s1)" 0 0]) auto
  obtain s3 where s3: "self_test_scan P 1 (?l, snd (state_set_int P SELF_TEST_INPUT 0 s2)) = (0, ?l, s3)"
      "system_ok s3" "?H (sys_world s3)"
    by (rule self_test_stage [OF l s2(2) assms(5) s2(3), of 0 "snd (state_set_int P SELF_TEST_INPUT 0 s2)" 0 1]) auto
  have saved: "la_has_program l" "take (la_bytecode_length l) (la_bytecode l) = buf"
    using assms(2) unfolding loaded_def by blast+
  have "ladder_engine_run_self_test P (l, s) = (True, store_bytecode buf ?l, s3)"
    using assms(3) saved(2)
    by (auto simp: ladder_engine_run_self_test_def ld(1) s1(1) s2(1) s3(1) saved(1) Let_def self_test_restore_def)
  moreover have "fst (ladder_engine_init P (sys_world s3)) = ?l"
    using ld(3,4) by (intro init_holds [OF s3(3)]) auto
  ultimately show ?thesis
    using l loaded_store [of buf ?l] by (simp add: store_bytecode_def empty_ladder_def)
qed

theorem ladder_self_test_replaces_stored_program_witness:
  "\<exists>l' s'. ladder_engine_run_self_test sim_platform
      (store_bytecode (program_image 1 demo_program [0xFF]) empty_ladder, boot_system) = (True, l', s') \<and>
    loaded (program_image 1 demo_program [0xFF]) l' \<and>
    loaded test_prog (fst (ladder_engine_init sim_platform (sys_world s')))"
proof -
  have "program_image 1 demo_program [0xFF] \<noteq> []" using demo_image_length by auto
  moreover have "nvs_accepts sim_platform ''endap_ladder'' ''bytecode'' test_prog
      (snd (ladder_engine_clear sim_platform (sys_world boot_system)))"
    by (rule sim_clear_accepts) (simp add: boot_system_def sim_simps)
  ultimately show ?thesis
    using ladder_self_test_replaces_stored_program [OF boot_system_ok loaded_store [of "program_image 1 demo_program [0xFF]" empty_ladder]
        _ sim_durable sim_timer_keeps_nvs] by blast
qed

end
