(* ===== verification/Io_Image.thy ===== *)
theory Io_Image
  imports Prelude
begin

text \<open>
  The process image (\<open>io_image.c\<close>): two buffers of 256 values for the inputs and two for the
  outputs. The read and write pointers of each pair always point to different buffers, so one
  Boolean per pair says which buffer the read pointer points to.
\<close>

section \<open>Model\<close>

definition IO_MAX :: nat where "IO_MAX = 256"

record io_image =
  im_input_a :: "i32 list"
  im_input_b :: "i32 list"
  im_output_a :: "i32 list"
  im_output_b :: "i32 list"
  im_input_read_a :: bool
  im_output_read_a :: bool

definition io_image_init :: io_image where
  "io_image_init = \<lparr>im_input_a = replicate IO_MAX 0, im_input_b = replicate IO_MAX 0,
     im_output_a = replicate IO_MAX 0, im_output_b = replicate IO_MAX 0,
     im_input_read_a = True, im_output_read_a = True\<rparr>"

definition io_image_set_input :: "u16 \<Rightarrow> i32 \<Rightarrow> io_image \<Rightarrow> io_image" where
  "io_image_set_input sid value im =
     (if unat sid \<ge> IO_MAX then im
      else if im_input_read_a im
      then im\<lparr>im_input_b := (im_input_b im)[unat sid := value]\<rparr>
      else im\<lparr>im_input_a := (im_input_a im)[unat sid := value]\<rparr>)"

definition io_image_get_input :: "io_image \<Rightarrow> u16 \<Rightarrow> i32" where
  "io_image_get_input im sid =
     (if unat sid \<ge> IO_MAX then 0
      else (if im_input_read_a im then im_input_a im else im_input_b im) ! unat sid)"

definition io_image_set_output :: "u16 \<Rightarrow> i32 \<Rightarrow> io_image \<Rightarrow> io_image" where
  "io_image_set_output sid value im =
     (if unat sid \<ge> IO_MAX then im
      else if im_output_read_a im
      then im\<lparr>im_output_b := (im_output_b im)[unat sid := value]\<rparr>
      else im\<lparr>im_output_a := (im_output_a im)[unat sid := value]\<rparr>)"

definition io_image_get_output :: "io_image \<Rightarrow> u16 \<Rightarrow> i32" where
  "io_image_get_output im sid =
     (if unat sid \<ge> IO_MAX then 0
      else (if im_output_read_a im then im_output_a im else im_output_b im) ! unat sid)"

definition io_image_scan_inputs :: "io_image \<Rightarrow> io_image" where
  "io_image_scan_inputs im = im\<lparr>im_input_read_a := \<not> im_input_read_a im\<rparr>"

definition io_image_apply_outputs :: "io_image \<Rightarrow> io_image" where
  "io_image_apply_outputs im =
     (let im = im\<lparr>im_output_read_a := \<not> im_output_read_a im\<rparr> in
      if im_output_read_a im then im\<lparr>im_output_b := replicate IO_MAX 0\<rparr>
      else im\<lparr>im_output_a := replicate IO_MAX 0\<rparr>)"

section \<open>Properties\<close>

definition io_image_ok :: "io_image \<Rightarrow> bool" where
  "io_image_ok im \<longleftrightarrow> length (im_input_a im) = IO_MAX \<and> length (im_input_b im) = IO_MAX \<and>
     length (im_output_a im) = IO_MAX \<and> length (im_output_b im) = IO_MAX"

lemma io_image_init_ok: "io_image_ok io_image_init"
  by (simp add: io_image_ok_def io_image_init_def)

lemma io_image_ops_ok:
  assumes "io_image_ok im"
  shows "io_image_ok (io_image_set_input sid v im)" "io_image_ok (io_image_set_output sid v im)"
    "io_image_ok (io_image_scan_inputs im)" "io_image_ok (io_image_apply_outputs im)"
  using assms
  by (simp_all add: io_image_ok_def io_image_set_input_def io_image_set_output_def
      io_image_scan_inputs_def io_image_apply_outputs_def Let_def)

text \<open>
  The double buffer isolates a scan. A value written to an output is not visible before the
  buffers are swapped, it is visible after the swap, and a swap without a new write shows 0.
\<close>

theorem io_image_output_cycle:
  assumes "io_image_ok im" "unat sid < IO_MAX"
  shows "io_image_get_output (io_image_set_output sid v im) sid' = io_image_get_output im sid' \<and>
    io_image_get_output (io_image_apply_outputs (io_image_set_output sid v im)) sid = v \<and>
    io_image_get_output (io_image_apply_outputs
      (io_image_apply_outputs (io_image_set_output sid v im))) sid = 0"
  using assms
  by (auto simp: io_image_ok_def io_image_get_output_def io_image_set_output_def
      io_image_apply_outputs_def Let_def)

text \<open>Output 100 driven on for one cycle.\<close>

theorem io_image_output_cycle_witness:
  "io_image_get_output (io_image_apply_outputs (io_image_set_output 100 1 io_image_init)) 100 = 1 \<and>
   io_image_get_output (io_image_apply_outputs (io_image_apply_outputs
      (io_image_set_output 100 1 io_image_init))) 100 = 0"
  using io_image_output_cycle [OF io_image_init_ok, of 100 1] by (simp add: IO_MAX_def)

text \<open>
  The input buffers are swapped without being copied, so an input that is written once, as
  the driver does when a digital input changes, is visible after the first swap only: the
  second swap shows the value from before the write again, and the two values alternate from
  then on.
\<close>

theorem io_image_input_alternates:
  assumes "io_image_ok im" "unat sid < IO_MAX"
  shows "io_image_get_input ((io_image_scan_inputs ^^ (2 * n + 1)) (io_image_set_input sid v im)) sid = v \<and>
    io_image_get_input ((io_image_scan_inputs ^^ (2 * n)) (io_image_set_input sid v im)) sid =
      io_image_get_input im sid"
proof -
  have twice: "(io_image_scan_inputs ^^ (2 * n)) x = x" for x
    by (induction n) (simp_all add: io_image_scan_inputs_def)
  have "(io_image_scan_inputs ^^ (2 * n + 1)) x = io_image_scan_inputs x" for x
    using twice [of "io_image_scan_inputs x"] by (simp only: Suc_eq_plus1 [symmetric] funpow_Suc_right o_apply)
  with twice assms show ?thesis
    by (simp add: io_image_ok_def io_image_get_input_def io_image_set_input_def io_image_scan_inputs_def)
qed

text \<open>Input 10 goes on once; the image shows it on after one swap and off after two.\<close>

theorem io_image_input_alternates_witness:
  "io_image_get_input (io_image_scan_inputs (io_image_set_input 10 1 io_image_init)) 10 = 1 \<and>
   io_image_get_input ((io_image_scan_inputs ^^ 2) (io_image_set_input 10 1 io_image_init)) 10 = 0"
  using io_image_input_alternates [OF io_image_init_ok, of 10 0 1]
    io_image_input_alternates [OF io_image_init_ok, of 10 1 1]
  by (simp add: IO_MAX_def io_image_get_input_def io_image_init_def)

end
