(* ===== verification/Pve.thy ===== *)
theory Pve
  imports Event_Bus Platform "HOL-Library.Signed_Division"
begin

text \<open>
  The process variable engine (\<open>runtime/pve/pve.c\<close>): seven variables with a linear scaling of
  their raw value, alarms with hysteresis that publish events, a ring of the last 64 alarm
  transitions, and the persistent configuration. A character array is the list of its bytes;
  the two padding bytes of the persistent record are an argument.
\<close>

section \<open>Model\<close>

definition MAX_PVE_VARIABLES :: nat where "MAX_PVE_VARIABLES = 7"
definition ALARM_HISTORY_MAX :: nat where "ALARM_HISTORY_MAX = 64"
definition PVE_NAMESPACE :: string where "PVE_NAMESPACE = ''pve''"

definition PVE_SOURCE_ADC_NATIVE :: u8 where "PVE_SOURCE_ADC_NATIVE = 0"
definition PVE_SOURCE_VIRTUAL :: u8 where "PVE_SOURCE_VIRTUAL = 4"

definition PVE_ALARM_STATE_OK :: u8 where "PVE_ALARM_STATE_OK = 0"
definition PVE_ALARM_STATE_HIGH :: u8 where "PVE_ALARM_STATE_HIGH = 1"
definition PVE_ALARM_STATE_LOW :: u8 where "PVE_ALARM_STATE_LOW = 2"

lemmas alarm_state_defs = PVE_ALARM_STATE_OK_def PVE_ALARM_STATE_HIGH_def PVE_ALARM_STATE_LOW_def

record pve_runtime_t =
  rt_raw_value :: i32
  rt_scaled_value :: i32
  rt_alarm_state :: u8

record pve_config_t =
  cf_input_min :: i32
  cf_input_max :: i32
  cf_scaled_min :: i32
  cf_scaled_max :: i32
  cf_decimals :: u8
  cf_unit :: bytes

record pve_alarm_t =
  al_high_limit :: i32
  al_low_limit :: i32
  al_hysteresis :: i32
  al_enabled :: u8

record pve_variable_t =
  pv_source_type :: u8
  pv_source_id :: u32
  pv_name :: bytes
  pv_runtime :: pve_runtime_t
  pv_config :: pve_config_t
  pv_alarm :: pve_alarm_t

record pve_alarm_event_t =
  ae_timestamp :: u32
  ae_pve_id :: u16
  ae_state :: u8
  ae_scaled_value :: i32

text \<open>The static variables of \<open>pve.c\<close>, with the bus and the world that its operations use.\<close>

record 'w pve =
  pve_variables :: "pve_variable_t list"
  pve_history :: "pve_alarm_event_t list"
  pve_history_head :: u32
  pve_history_count :: u32
  pve_bus :: event_bus
  pve_world :: 'w

definition default_var ::
  "u8 \<Rightarrow> u32 \<Rightarrow> string \<Rightarrow> i32 \<times> i32 \<times> i32 \<times> i32 \<Rightarrow> u8 \<Rightarrow> string \<Rightarrow> i32 \<times> i32 \<times> i32 \<Rightarrow> pve_variable_t" where
  "default_var source_type source_id name = (\<lambda>(input_min, input_max, scaled_min, scaled_max) decimals unit_name
     (high_limit, low_limit, hysteresis).
     \<lparr>pv_source_type = source_type, pv_source_id = source_id, pv_name = c_strncpy (str_bytes name) 16,
      pv_runtime = \<lparr>rt_raw_value = 0, rt_scaled_value = 0, rt_alarm_state = PVE_ALARM_STATE_OK\<rparr>,
      pv_config = \<lparr>cf_input_min = input_min, cf_input_max = input_max, cf_scaled_min = scaled_min,
        cf_scaled_max = scaled_max, cf_decimals = decimals, cf_unit = c_strncpy (str_bytes unit_name) 8\<rparr>,
      pv_alarm = \<lparr>al_high_limit = high_limit, al_low_limit = low_limit, al_hysteresis = hysteresis, al_enabled = 0\<rparr>\<rparr>)"

definition default_variables :: "pve_variable_t list" where
  "default_variables =
     [default_var PVE_SOURCE_ADC_NATIVE 6 ''AIN1'' (0, 4095, 0, 1000) 1 ''bar'' (800, 200, 50),
      default_var PVE_SOURCE_ADC_NATIVE 7 ''AIN2'' (0, 4095, 0, 10000) 2 ''%'' (9000, 1000, 500),
      default_var PVE_SOURCE_VIRTUAL 14 ''TEMP_AHT'' (- 400, 800, - 400, 800) 1 ''C'' (500, 0, 20),
      default_var PVE_SOURCE_VIRTUAL 15 ''HUM_AHT'' (0, 1000, 0, 1000) 1 ''%'' (800, 200, 50),
      default_var PVE_SOURCE_VIRTUAL 16 ''TEMP_DS'' (- 550, 1250, - 550, 1250) 1 ''C'' (600, 50, 15),
      default_var PVE_SOURCE_VIRTUAL 17 ''TEMP_DHT'' (- 200, 600, - 200, 600) 1 ''C'' (500, 0, 20),
      default_var PVE_SOURCE_VIRTUAL 18 ''HUM_DHT'' (0, 1000, 0, 1000) 1 ''%'' (800, 200, 50)]"

definition pve_init_variables :: "'w pve \<Rightarrow> 'w pve" where
  "pve_init_variables p = p\<lparr>pve_variables := default_variables\<rparr>"

definition pve_get :: "'w pve \<Rightarrow> u32 \<Rightarrow> pve_variable_t option" where
  "pve_get p vid = (if unat vid \<ge> MAX_PVE_VARIABLES then None else Some (pve_variables p ! unat vid))"

definition pve_log_alarm_event :: "'w platform \<Rightarrow> u16 \<Rightarrow> u8 \<Rightarrow> i32 \<Rightarrow> 'w pve \<Rightarrow> 'w pve" where
  "pve_log_alarm_event P pve_id alarm_state scaled_value p =
     (case esp_timer_get_time P (pve_world p) of (t, w) \<Rightarrow>
      let ev = \<lparr>ae_timestamp = ucast (t div 1000000), ae_pve_id = pve_id, ae_state = alarm_state,
                ae_scaled_value = scaled_value\<rparr>;
          p = p\<lparr>pve_world := w, pve_history := (pve_history p)[unat (pve_history_head p) := ev],
                pve_history_head := (pve_history_head p + 1) mod of_nat ALARM_HISTORY_MAX\<rparr>
      in if unat (pve_history_count p) < ALARM_HISTORY_MAX
         then p\<lparr>pve_history_count := pve_history_count p + 1\<rparr> else p)"

text \<open>The null pointer for the buffer is \<open>None\<close>, otherwise its length.\<close>

definition pve_get_alarm_history :: "'w pve \<Rightarrow> u32 option \<Rightarrow> pve_alarm_event_t list" where
  "pve_get_alarm_history p out =
     (case out of None \<Rightarrow> []
      | Some max_len \<Rightarrow>
        if max_len = 0 then []
        else let copy_count = (if pve_history_count p < max_len then pve_history_count p else max_len);
                 start_idx = (pve_history_head p - pve_history_count p + of_nat ALARM_HISTORY_MAX) mod of_nat ALARM_HISTORY_MAX
             in map (\<lambda>i. pve_history p ! unat ((start_idx + of_nat i) mod of_nat ALARM_HISTORY_MAX)) [0..<unat copy_count])"

definition zero_alarm_event :: pve_alarm_event_t where
  "zero_alarm_event = \<lparr>ae_timestamp = 0, ae_pve_id = 0, ae_state = 0, ae_scaled_value = 0\<rparr>"

definition pve_clear_alarm_history :: "'w pve \<Rightarrow> 'w pve" where
  "pve_clear_alarm_history p = p\<lparr>pve_history_head := 0, pve_history_count := 0,
     pve_history := replicate ALARM_HISTORY_MAX zero_alarm_event\<rparr>"

text \<open>The differences are computed on 32 bits, the product and the quotient on 64.\<close>

definition pve_scale :: "i32 \<Rightarrow> i32 \<Rightarrow> i32 \<Rightarrow> i32 \<Rightarrow> i32 \<Rightarrow> i32" where
  "pve_scale raw input_min input_max scaled_min scaled_max =
     (if input_max = input_min then scaled_min
      else let is_inverted = (sint input_max < sint input_min) in
        if \<not> is_inverted \<and> sint raw \<le> sint input_min then scaled_min
        else if \<not> is_inverted \<and> sint raw \<ge> sint input_max then scaled_max
        else if is_inverted \<and> sint raw \<ge> sint input_min then scaled_min
        else if is_inverted \<and> sint raw \<le> sint input_max then scaled_max
        else let numerator = sint (raw - input_min) * sint (scaled_max - scaled_min);
                 denominator = sint (input_max - input_min);
                 result = (if (numerator < 0) \<noteq> (denominator < 0)
                           then (numerator - denominator sdiv 2) sdiv denominator
                           else (numerator + denominator sdiv 2) sdiv denominator)
             in word_of_int (sint scaled_min + result))"

definition next_alarm_state :: "pve_alarm_t \<Rightarrow> i32 \<Rightarrow> u8 \<Rightarrow> u8" where
  "next_alarm_state al scaled_value alarm_state =
     (if al_enabled al \<noteq> 0 then
        if alarm_state = PVE_ALARM_STATE_HIGH then
          if sint scaled_value \<le> sint (al_high_limit al - al_hysteresis al) then
            if sint scaled_value \<le> sint (al_low_limit al) then PVE_ALARM_STATE_LOW else PVE_ALARM_STATE_OK
          else alarm_state
        else if alarm_state = PVE_ALARM_STATE_LOW then
          if sint scaled_value \<ge> sint (al_low_limit al + al_hysteresis al) then
            if sint scaled_value \<ge> sint (al_high_limit al) then PVE_ALARM_STATE_HIGH else PVE_ALARM_STATE_OK
          else alarm_state
        else if sint scaled_value \<ge> sint (al_high_limit al) then PVE_ALARM_STATE_HIGH
        else if sint scaled_value \<le> sint (al_low_limit al) then PVE_ALARM_STATE_LOW
        else alarm_state
      else PVE_ALARM_STATE_OK)"

definition scaled_of :: "pve_config_t \<Rightarrow> i32 \<Rightarrow> i32" where
  "scaled_of cf raw = pve_scale raw (cf_input_min cf) (cf_input_max cf) (cf_scaled_min cf) (cf_scaled_max cf)"

text \<open>The variable is given by its index, as every caller passes an element of the table.\<close>

definition pve_update :: "'w platform \<Rightarrow> nat \<Rightarrow> i32 \<Rightarrow> 'w pve \<Rightarrow> 'w pve" where
  "pve_update P i raw_value p =
     (let var = pve_variables p ! i;
          scaled = scaled_of (pv_config var) raw_value;
          old = rt_alarm_state (pv_runtime var);
          next = next_alarm_state (pv_alarm var) scaled old;
          p = p\<lparr>pve_variables := (pve_variables p)[i := var\<lparr>pv_runtime :=
                \<lparr>rt_raw_value = raw_value, rt_scaled_value = scaled, rt_alarm_state = next\<rparr>\<rparr>]\<rparr>
      in if next \<noteq> old then
           let p = pve_log_alarm_event P (of_nat i) next scaled p in
           if next = PVE_ALARM_STATE_HIGH then
             p\<lparr>pve_bus := event_bus_publish \<lparr>ev_type = EVENT_PVE_ALARM_HIGH, ev_source = ucast (pv_source_id var),
                 ev_data = scaled\<rparr> (pve_bus p)\<rparr>
           else if next = PVE_ALARM_STATE_LOW then
             p\<lparr>pve_bus := event_bus_publish \<lparr>ev_type = EVENT_PVE_ALARM_LOW, ev_source = ucast (pv_source_id var),
                 ev_data = scaled\<rparr> (pve_bus p)\<rparr>
           else p
         else p)"

definition pve_clear_variable :: "nat \<Rightarrow> 'w pve \<Rightarrow> 'w pve" where
  "pve_clear_variable i p = p\<lparr>pve_variables := (pve_variables p)[i := (pve_variables p ! i)\<lparr>pv_runtime :=
     \<lparr>rt_raw_value = 0, rt_scaled_value = 0, rt_alarm_state = PVE_ALARM_STATE_OK\<rparr>\<rparr>]\<rparr>"

definition pve_bindings :: "(u16 \<times> nat) list" where
  "pve_bindings = [(12, 0), (13, 1), (14, 2), (15, 3), (16, 4)]"

definition pve_get_scaled_value :: "'w pve \<Rightarrow> u16 \<Rightarrow> i32 \<Rightarrow> i32" where
  "pve_get_scaled_value p state_id fallback =
     (case map_of pve_bindings state_id of
        Some pve_id \<Rightarrow> if pve_id < MAX_PVE_VARIABLES then rt_scaled_value (pv_runtime (pve_variables p ! pve_id)) else fallback
      | None \<Rightarrow> fallback)"

section \<open>Persistent configuration\<close>

definition pve_crc32 :: "bytes \<Rightarrow> u32" where
  "pve_crc32 data = fnv1a data"

text \<open>
  \<open>strncpy(dst, src, n - 1)\<close> over an array of \<open>n\<close> bytes: the last byte keeps its value.
\<close>

definition strncpy_field :: "nat \<Rightarrow> bytes \<Rightarrow> bytes \<Rightarrow> bytes" where
  "strncpy_field n src dst = c_strncpy src (n - 1) @ drop (n - 1) dst"

text \<open>The 56 bytes of \<open>pve_persisted_config_t\<close> that the checksum covers, and the whole record.\<close>

definition persisted_body :: "bytes \<Rightarrow> pve_variable_t \<Rightarrow> bytes" where
  "persisted_body pad v =
     (let cf = pv_config v; al = pv_alarm v in
      strncpy_field 16 (pv_name v) (replicate 16 0) @
      le32 (cf_input_min cf) @ le32 (cf_input_max cf) @ le32 (cf_scaled_min cf) @ le32 (cf_scaled_max cf) @
      [cf_decimals cf] @ strncpy_field 8 (cf_unit cf) (replicate 8 0) @ [al_enabled al] @ pad @
      le32 (al_high_limit al) @ le32 (al_low_limit al) @ le32 (al_hysteresis al))"

definition persisted_record :: "bytes \<Rightarrow> pve_variable_t \<Rightarrow> bytes" where
  "persisted_record pad v = persisted_body pad v @ le32 (pve_crc32 (persisted_body pad v))"

definition PVE_PERSISTED_SIZE :: nat where "PVE_PERSISTED_SIZE = 60"

definition pve_key :: "nat \<Rightarrow> string" where
  "pve_key i = ''pve_'' @ [''0123456'' ! i]"

fun save_blobs :: "'w platform \<Rightarrow> nat \<Rightarrow> bytes \<Rightarrow> pve_variable_t list \<Rightarrow> nat \<Rightarrow> 'w \<Rightarrow> 'w" where
  "save_blobs P h pad [] i w = w"
| "save_blobs P h pad (v # vs) i w =
     (case nvs_set_blob P h (pve_key i) (persisted_record pad v) w of (_, w) \<Rightarrow> save_blobs P h pad vs (Suc i) w)"

definition pve_save_config :: "'w platform \<Rightarrow> bytes \<Rightarrow> 'w pve \<Rightarrow> 'w pve" where
  "pve_save_config P pad p =
     (case nvs_open P PVE_NAMESPACE NVS_READWRITE (pve_world p) of (err, h, w) \<Rightarrow>
      if err \<noteq> ESP_OK then p\<lparr>pve_world := w\<rparr>
      else let w = save_blobs P h pad (pve_variables p) 0 w in
        case endap_nvs_commit P h w of (_, w) \<Rightarrow> p\<lparr>pve_world := nvs_close P h w\<rparr>)"

text \<open>The fields of a stored record, written over a variable.\<close>

definition apply_persisted :: "bytes \<Rightarrow> pve_variable_t \<Rightarrow> pve_variable_t" where
  "apply_persisted bs v = v
     \<lparr>pv_name := strncpy_field 16 (take 16 bs) (pv_name v),
      pv_config := \<lparr>cf_input_min = of_le32 (drop 16 bs), cf_input_max = of_le32 (drop 20 bs),
        cf_scaled_min = of_le32 (drop 24 bs), cf_scaled_max = of_le32 (drop 28 bs), cf_decimals = bs ! 32,
        cf_unit = strncpy_field 8 (take 8 (drop 33 bs)) (cf_unit (pv_config v))\<rparr>,
      pv_alarm := \<lparr>al_high_limit = of_le32 (drop 44 bs), al_low_limit = of_le32 (drop 48 bs),
        al_hysteresis = of_le32 (drop 52 bs), al_enabled = bs ! 41\<rparr>\<rparr>"

definition persisted_valid :: "bytes \<Rightarrow> bool" where
  "persisted_valid bs \<longleftrightarrow> pve_crc32 (take 56 bs) = of_le32 (drop 56 bs)"

text \<open>Variable \<open>i\<close> from its blob; the flags are \<open>loaded_any\<close> and \<open>any_failed\<close>.\<close>

definition load_one :: "'w platform \<Rightarrow> nat \<Rightarrow> nat \<Rightarrow> bool \<times> bool \<times> 'w pve \<Rightarrow> bool \<times> bool \<times> 'w pve" where
  "load_one P h i = (\<lambda>(loaded_any, any_failed, p).
     case nvs_get_blob P h (pve_key i) PVE_PERSISTED_SIZE (pve_world p) of (err, bs, w) \<Rightarrow>
     let p = p\<lparr>pve_world := w\<rparr> in
     if err = ESP_OK \<and> length bs = PVE_PERSISTED_SIZE \<and> persisted_valid bs
     then let p = p\<lparr>pve_variables := (pve_variables p)[i := apply_persisted bs (pve_variables p ! i)]\<rparr>
          in (True, any_failed, pve_update P i (rt_raw_value (pv_runtime (pve_variables p ! i))) p)
     else (loaded_any, True, p))"

definition pve_load_config :: "'w platform \<Rightarrow> 'w pve \<Rightarrow> 'w pve" where
  "pve_load_config P p =
     (case nvs_open P PVE_NAMESPACE NVS_READONLY (pve_world p) of (err, h, w) \<Rightarrow>
      let p = p\<lparr>pve_world := w\<rparr> in
      if err \<noteq> ESP_OK then pve_init_variables p
      else case fold (load_one P h) [0..<MAX_PVE_VARIABLES] (False, False, p) of (loaded_any, any_failed, p) \<Rightarrow>
        let p = p\<lparr>pve_world := nvs_close P h (pve_world p)\<rparr> in
        if any_failed \<or> \<not> loaded_any then pve_init_variables p else p)"

section \<open>Scaling\<close>

lemma sint_word_of_int_exact:
  "- (2 ^ 31) \<le> z \<Longrightarrow> z < 2 ^ 31 \<Longrightarrow> sint (word_of_int z :: i32) = z"
  by (simp add: sint_sbintrunc' signed_take_bit_int_eq_self_iff)

lemma sint_minus_exact:
  fixes a b :: i32
  assumes "- (2 ^ 31) \<le> sint a - sint b" "sint a - sint b < 2 ^ 31"
  shows "sint (a - b) = sint a - sint b"
proof -
  have "(word_of_int (sint a - sint b) :: i32) = a - b" by simp
  with sint_word_of_int_exact [OF assms] show ?thesis by metis
qed

text \<open>The quotient of the scaling: rounding to the nearest, halves away from zero.\<close>

definition round_div :: "int \<Rightarrow> int \<Rightarrow> int" where
  "round_div n d = (if (n < 0) \<noteq> (d < 0) then (n - d sdiv 2) sdiv d else (n + d sdiv 2) sdiv d)"

lemma round_div_abs:
  assumes "d \<noteq> 0"
  shows "round_div n d = sgn n * sgn d * ((\<bar>n\<bar> + \<bar>d\<bar> div 2) div \<bar>d\<bar>)"
proof -
  have half: "(\<bar>d\<bar> div 2) div \<bar>d\<bar> = 0" using assms by (auto intro: div_pos_pos_trivial)
  consider "n < 0" "d < 0" | "n < 0" "d > 0" | "n > 0" "d < 0" | "n > 0" "d > 0" | "n = 0"
    using assms by linarith
  then show ?thesis
  proof cases
    case 1
    then have "\<bar>n + - (- d div 2)\<bar> = - n + - d div 2" "sgn (n + - (- d div 2)) = - 1" by (auto simp: sgn_if)
    with 1 show ?thesis by (simp add: round_div_def signed_divide_int_def)
  next
    case 2
    then have "\<bar>n - d div 2\<bar> = - n + d div 2" "sgn (n - d div 2) = - 1" by (auto simp: sgn_if)
    with 2 show ?thesis by (simp add: round_div_def signed_divide_int_def)
  next
    case 3
    then have "\<bar>n + - d div 2\<bar> = n + - d div 2" "sgn (n + - d div 2) = 1" by (auto simp: sgn_if)
    with 3 show ?thesis by (simp add: round_div_def signed_divide_int_def)
  next
    case 4
    then have "\<bar>n + d div 2\<bar> = n + d div 2" "sgn (n + d div 2) = 1" by (auto simp: sgn_if)
    with 4 show ?thesis by (simp add: round_div_def signed_divide_int_def)
  next
    case 5
    with half assms show ?thesis by (auto simp: round_div_def signed_divide_int_def abs_if)
  qed
qed

lemma nearest_multiple:
  fixes N D q r h :: int
  assumes "q * D + r = N + h" "0 \<le> r" "r < D" "2 * h \<le> D" "D \<le> 2 * h + 1"
  shows "2 * \<bar>q * D - N\<bar> \<le> D"
proof -
  from assms(1) have "q * D - N = h - r" by linarith
  moreover have "2 * \<bar>h - r\<bar> \<le> D" using assms(2-5) by (cases "h \<le> r") simp_all
  ultimately show ?thesis by simp
qed

lemma round_div_nearest:
  assumes "d \<noteq> 0"
  shows "2 * \<bar>round_div n d * d - n\<bar> \<le> \<bar>d\<bar>"
proof -
  let ?q = "(\<bar>n\<bar> + \<bar>d\<bar> div 2) div \<bar>d\<bar>"
  have near: "2 * \<bar>?q * \<bar>d\<bar> - \<bar>n\<bar>\<bar> \<le> \<bar>d\<bar>"
    by (rule nearest_multiple [where r = "(\<bar>n\<bar> + \<bar>d\<bar> div 2) mod \<bar>d\<bar>" and h = "\<bar>d\<bar> div 2"])
      (use assms in simp_all)
  have sgnd: "sgn d * d = \<bar>d\<bar>" using abs_sgn [of d] by (metis mult.commute)
  have sgnn: "sgn n * \<bar>n\<bar> = n" by (rule sgn_mult_abs)
  have "round_div n d * d = sgn n * (?q * (sgn d * d))"
    unfolding round_div_abs [OF assms] by (simp only: ac_simps)
  then have "round_div n d * d - n = sgn n * (?q * \<bar>d\<bar>) - sgn n * \<bar>n\<bar>"
    by (simp only: sgnd sgnn)
  then have "round_div n d * d - n = sgn n * (?q * \<bar>d\<bar> - \<bar>n\<bar>)"
    by (simp only: right_diff_distrib)
  then have "\<bar>round_div n d * d - n\<bar> = \<bar>sgn n\<bar> * \<bar>?q * \<bar>d\<bar> - \<bar>n\<bar>\<bar>" by (simp only: abs_mult)
  also have "\<dots> \<le> \<bar>?q * \<bar>d\<bar> - \<bar>n\<bar>\<bar>" by (simp add: abs_sgn_eq)
  finally show ?thesis using near by linarith
qed

lemma int_div_less:
  fixes N D K :: int
  assumes "0 < D" "N < D * K"
  shows "N div D < K"
proof (rule ccontr)
  assume "\<not> N div D < K"
  then have "D * K \<le> D * (N div D)" using assms(1) by simp
  moreover have "D * (N div D) \<le> N" using assms(1) by (simp add: minus_mod_eq_mult_div [symmetric])
  ultimately show False using assms(2) by linarith
qed

lemma round_div_between:
  assumes "0 < x * d" "\<bar>x\<bar> < \<bar>d\<bar>"
  shows "min 0 k \<le> round_div (x * k) d \<and> round_div (x * k) d \<le> max 0 k"
proof -
  have d: "d \<noteq> 0" using assms(1) by auto
  let ?q = "(\<bar>x * k\<bar> + \<bar>d\<bar> div 2) div \<bar>d\<bar>"
  have "\<bar>x * k\<bar> \<le> \<bar>d\<bar> * \<bar>k\<bar>" using assms(2) by (simp add: abs_mult mult_right_mono)
  moreover have "\<bar>d\<bar> div 2 < \<bar>d\<bar>" using d by simp
  ultimately have "\<bar>x * k\<bar> + \<bar>d\<bar> div 2 < \<bar>d\<bar> * (\<bar>k\<bar> + 1)" by (simp add: distrib_left)
  then have "?q < \<bar>k\<bar> + 1" using d by (intro int_div_less) simp_all
  then have q: "0 \<le> ?q" "?q \<le> \<bar>k\<bar>" using d by (simp_all add: pos_imp_zdiv_nonneg_iff)
  have "sgn x * sgn d = 1" using assms(1) by (metis sgn_1_pos sgn_mult)
  then have "sgn (x * k) * sgn d = sgn k" by (simp add: sgn_mult ac_simps)
  then have r: "round_div (x * k) d = sgn k * ?q" by (simp add: round_div_abs [OF d])
  show ?thesis
  proof (cases k "0 :: int" rule: linorder_cases)
    case less
    with q show ?thesis unfolding r by simp
  next
    case equal
    then show ?thesis unfolding r by simp
  next
    case greater
    with q show ?thesis unfolding r by simp
  qed
qed

text \<open>The value of the scaling strictly inside the input range.\<close>

lemma pve_scale_inside:
  fixes raw lo hi smin smax :: i32
  assumes "\<bar>sint hi - sint lo\<bar> < 2 ^ 31" "\<bar>sint smax - sint smin\<bar> < 2 ^ 31"
    and "sint lo < sint raw \<and> sint raw < sint hi \<or> sint hi < sint raw \<and> sint raw < sint lo"
  shows "sint (pve_scale raw lo hi smin smax) =
      sint smin + round_div ((sint raw - sint lo) * (sint smax - sint smin)) (sint hi - sint lo) \<and>
    min (sint smin) (sint smax) \<le> sint (pve_scale raw lo hi smin smax) \<and>
    sint (pve_scale raw lo hi smin smax) \<le> max (sint smin) (sint smax)"
proof -
  let ?x = "sint raw - sint lo" and ?k = "sint smax - sint smin" and ?d = "sint hi - sint lo"
  have exact: "sint (raw - lo) = ?x" "sint (smax - smin) = ?k" "sint (hi - lo) = ?d"
    using assms by (auto intro!: sint_minus_exact)
  have "0 < ?x * ?d" "\<bar>?x\<bar> < \<bar>?d\<bar>" using assms(3) by (auto intro: mult_pos_pos mult_neg_neg)
  note btw = round_div_between [OF this, of ?k]
  let ?r = "sint smin + round_div (?x * ?k) ?d"
  have lim: "- (2 ^ 31) \<le> sint w" "sint w < 2 ^ 31" for w :: i32
    using sint_range_size [of w] by (simp_all add: word_size)
  have r: "min (sint smin) (sint smax) \<le> ?r" "?r \<le> max (sint smin) (sint smax)" using btw by linarith+
  then have "- (2 ^ 31) \<le> ?r" "?r < 2 ^ 31" using lim [of smin] lim [of smax] by linarith+
  then have "sint (word_of_int ?r :: i32) = ?r" by (rule sint_word_of_int_exact)
  moreover have "hi \<noteq> lo" using assms(3) by auto
  moreover have "pve_scale raw lo hi smin smax = word_of_int ?r" if "hi \<noteq> lo"
    using that assms(3) unfolding pve_scale_def Let_def round_div_def exact by auto
  ultimately show ?thesis using r by simp
qed

section \<open>The alarm history\<close>

text \<open>The last \<open>c\<close> elements of a ring whose next write goes to \<open>h\<close>, oldest first.\<close>

definition recent :: "'a list \<Rightarrow> nat \<Rightarrow> nat \<Rightarrow> 'a list" where
  "recent buf h c = map (\<lambda>i. buf ! ((h + length buf - c + i) mod length buf)) [0..<c]"

lemma recent_index:
  fixes h n c i :: nat
  assumes "h < n" "c \<le> n" "i < c"
  shows "(h + n - c + i) mod n = (if h + i < c then h + n - c + i else h + i - c)"
  using assms by (auto simp: mod_if)

lemma recent_push:
  assumes "h < length buf" "c \<le> length buf"
  shows "recent (buf[h := x]) (Suc h mod length buf) (min (length buf) (Suc c)) =
    drop (Suc c - length buf) (recent buf h c @ [x])"
proof (rule nth_equalityI)
  show "length (recent (buf[h := x]) (Suc h mod length buf) (min (length buf) (Suc c))) =
      length (drop (Suc c - length buf) (recent buf h c @ [x]))"
    using assms by (auto simp: recent_def min_def)
next
  fix i
  let ?n = "length buf"
  assume "i < length (recent (buf[h := x]) (Suc h mod ?n) (min ?n (Suc c)))"
  then have i: "i < min ?n (Suc c)" by (simp add: recent_def)
  have succ: "Suc h mod ?n = (if Suc h = ?n then 0 else Suc h)" "Suc h mod ?n < ?n"
    using assms(1) by (auto simp: mod_if)
  have old: "(recent buf h c @ [x]) ! j = (if j < c then buf ! ((h + ?n - c + j) mod ?n) else x)" if "j \<le> c" for j
    using that by (simp add: recent_def nth_append)
  have new: "recent (buf[h := x]) (Suc h mod ?n) (min ?n (Suc c)) ! i =
      (buf[h := x]) ! ((Suc h mod ?n + ?n - min ?n (Suc c) + i) mod ?n)"
    using i by (simp add: recent_def)
  have lhs: "(Suc h mod ?n + ?n - min ?n (Suc c) + i) mod ?n =
      (if Suc h mod ?n + i < min ?n (Suc c) then Suc h mod ?n + ?n - min ?n (Suc c) + i
       else Suc h mod ?n + i - min ?n (Suc c))"
    using recent_index [OF succ(2) _ i] by simp
  show "recent (buf[h := x]) (Suc h mod ?n) (min ?n (Suc c)) ! i =
      drop (Suc c - ?n) (recent buf h c @ [x]) ! i"
  proof (cases "c = ?n")
    case True
    then have "Suc 0 \<le> length (recent buf h c @ [x])" "Suc c - ?n = Suc 0" by simp_all
    then have "drop (Suc c - ?n) (recent buf h c @ [x]) ! i = (recent buf h c @ [x]) ! Suc i"
      by (simp only: nth_drop plus_1_eq_Suc One_nat_def add_Suc add_0)
    moreover have "(recent buf h c @ [x]) ! Suc i = (if Suc i < c then buf ! ((h + ?n - c + Suc i) mod ?n) else x)"
      using i True by (intro old) simp
    moreover have "Suc i < c \<Longrightarrow> (h + ?n - c + Suc i) mod ?n = (if h + Suc i < c then h + ?n - c + Suc i else h + Suc i - c)"
      using recent_index [OF assms(1,2), of "Suc i"] by simp
    moreover have "Suc (h + i) - ?n = i" if "Suc h = ?n" using that by linarith
    ultimately show ?thesis unfolding new lhs using True succ(1) i assms(1) by (auto simp: nth_list_update)
  next
    case False
    then have c: "c < ?n" using assms(2) by simp
    then have "drop (Suc c - ?n) (recent buf h c @ [x]) ! i = (recent buf h c @ [x]) ! i" by simp
    moreover have "(recent buf h c @ [x]) ! i = (if i < c then buf ! ((h + ?n - c + i) mod ?n) else x)"
      using i c by (intro old) simp
    moreover have "i < c \<Longrightarrow> (h + ?n - c + i) mod ?n = (if h + i < c then h + ?n - c + i else h + i - c)"
      using recent_index [OF assms, of i] by simp
    moreover have "?n + i - Suc c = h + i - c" if "Suc h = ?n" using that by linarith
    ultimately show ?thesis unfolding new lhs using c succ(1) i assms(1) by (auto simp: nth_list_update)
  qed
qed

definition pve_ok :: "'w pve \<Rightarrow> bool" where
  "pve_ok p \<longleftrightarrow> length (pve_variables p) = MAX_PVE_VARIABLES \<and> length (pve_history p) = ALARM_HISTORY_MAX \<and>
     unat (pve_history_head p) < ALARM_HISTORY_MAX \<and> unat (pve_history_count p) \<le> ALARM_HISTORY_MAX \<and>
     event_bus_inv (pve_bus p) \<and> (\<forall>v \<in> set (pve_variables p). rt_alarm_state (pv_runtime v) \<in> {0, 1, 2})"

definition alarm_log :: "'w pve \<Rightarrow> pve_alarm_event_t list" where
  "alarm_log p = recent (pve_history p) (unat (pve_history_head p)) (unat (pve_history_count p))"

lemma unat_mod64: "unat ((x :: u32) mod 64) = unat x mod 64"
  by (simp add: unat_mod)

lemma unat_small_add: "unat (x :: u32) < 1000 \<Longrightarrow> unat (x + 1) = Suc (unat x)"
  by (simp add: unat_word_ariths)

lemma alarm_history_log:
  assumes "pve_ok p"
  shows "pve_get_alarm_history p (Some m) = take (unat m) (alarm_log p)"
proof -
  let ?h = "pve_history_head p" and ?c = "pve_history_count p"
  have b: "unat ?h < 64" "unat ?c \<le> 64" "length (pve_history p) = 64"
    using assms by (simp_all add: pve_ok_def ALARM_HISTORY_MAX_def)
  have start: "unat ((?h - ?c + 64) mod 64) = (unat ?h + 64 - unat ?c) mod 64"
  proof -
    have "unat (64 - ?c) = 64 - unat ?c" using b(2) by (simp add: unat_sub word_le_nat_alt)
    then have "unat (?h + (64 - ?c)) = unat ?h + (64 - unat ?c)"
      using b by (simp add: unat_word_ariths(1))
    moreover have "?h + (64 - ?c) = ?h - ?c + 64" by simp
    ultimately have "unat (?h - ?c + 64) = unat ?h + (64 - unat ?c)" by metis
    then show ?thesis using b by (simp add: unat_mod64)
  qed
  have idx: "unat (((?h - ?c + 64) mod 64 + of_nat i) mod 64) = (unat ?h + 64 - unat ?c + i) mod 64" if "i < 64" for i
    using that start by (simp add: unat_mod64 unat_word_ariths mod_simps)
  have len: "unat (if ?c < m then ?c else m) = min (unat ?c) (unat m)"
    by (simp add: word_less_nat_alt min_def)
  show ?thesis
    using b by (auto simp: pve_get_alarm_history_def Let_def ALARM_HISTORY_MAX_def alarm_log_def recent_def
        len take_map take_upt min_def idx intro!: map_cong)
qed

lemma log_event_ok:
  assumes "pve_ok p"
  shows "\<exists>ev. ae_pve_id ev = i \<and> ae_state ev = st \<and> ae_scaled_value ev = v \<and>
    (let p' = pve_log_alarm_event P i st v p in
      alarm_log p' = drop (Suc (length (alarm_log p)) - 64) (alarm_log p @ [ev]) \<and> pve_ok p' \<and>
      pve_variables p' = pve_variables p \<and> pve_bus p' = pve_bus p)"
proof -
  let ?h = "pve_history_head p" and ?c = "pve_history_count p"
  obtain t w where t: "esp_timer_get_time P (pve_world p) = (t, w)" by (cases "esp_timer_get_time P (pve_world p)")
  let ?ev = "\<lparr>ae_timestamp = ucast (t div 1000000), ae_pve_id = i, ae_state = st, ae_scaled_value = v\<rparr>"
  have b: "unat ?h < 64" "unat ?c \<le> 64" "length (pve_history p) = 64"
    using assms by (simp_all add: pve_ok_def ALARM_HISTORY_MAX_def)
  have h: "unat ((?h + 1) mod 64) = Suc (unat ?h) mod 64"
    using b(1) by (simp add: unat_mod64 unat_small_add)
  have c: "unat (if unat ?c < 64 then ?c + 1 else ?c) = min 64 (Suc (unat ?c))"
    using b(2) by (auto simp: unat_small_add)
  have push: "recent ((pve_history p)[unat ?h := ?ev]) (Suc (unat ?h) mod 64) (min 64 (Suc (unat ?c))) =
      drop (Suc (unat ?c) - 64) (recent (pve_history p) (unat ?h) (unat ?c) @ [?ev])"
    using recent_push [of "unat ?h" "pve_history p" "unat ?c" ?ev] b by simp
  have len: "length (alarm_log p) = unat ?c" by (simp add: alarm_log_def recent_def)
  have "alarm_log (pve_log_alarm_event P i st v p) = drop (Suc (length (alarm_log p)) - 64) (alarm_log p @ [?ev])"
    unfolding len using push h c t
    by (simp add: pve_log_alarm_event_def alarm_log_def ALARM_HISTORY_MAX_def Let_def split: if_splits)
  moreover have "pve_ok (pve_log_alarm_event P i st v p)"
    using assms h c t by (auto simp: pve_log_alarm_event_def pve_ok_def ALARM_HISTORY_MAX_def Let_def unat_small_add)
  ultimately show ?thesis using t
    by (intro exI [of _ ?ev]) (simp add: pve_log_alarm_event_def Let_def)
qed

section \<open>Properties\<close>

text \<open>
  C39: the scaling is the straight line through the two calibration points, to the nearest unit:
  for a value clamped to the input range (in either direction) twice the error, times the input
  span, is at most the input span, and the result never leaves the scaled range. The two spans
  must be below \<open>2^31\<close>.
\<close>

theorem pve_scale_nearest:
  assumes "input_min \<noteq> input_max" "\<bar>sint input_max - sint input_min\<bar> < 2 ^ 31"
    "\<bar>sint scaled_max - sint scaled_min\<bar> < 2 ^ 31"
  shows "let lo = sint input_min; hi = sint input_max; smin = sint scaled_min; smax = sint scaled_max;
             x = max (min lo hi) (min (max lo hi) (sint raw));
             r = sint (pve_scale raw input_min input_max scaled_min scaled_max)
         in 2 * \<bar>(r - smin) * (hi - lo) - (x - lo) * (smax - smin)\<bar> \<le> \<bar>hi - lo\<bar> \<and>
            min smin smax \<le> r \<and> r \<le> max smin smax"
proof -
  let ?lo = "sint input_min" and ?hi = "sint input_max" and ?raw = "sint raw"
  let ?r = "pve_scale raw input_min input_max scaled_min scaled_max"
  have ne: "?lo \<noteq> ?hi" using assms(1) by (metis signed_word_eqI)
  consider (low) "?lo < ?hi \<and> ?raw \<le> ?lo \<or> ?hi < ?lo \<and> ?lo \<le> ?raw"
    | (high) "?lo < ?hi \<and> ?hi \<le> ?raw \<or> ?hi < ?lo \<and> ?raw \<le> ?hi"
    | (inside) "?lo < ?raw \<and> ?raw < ?hi \<or> ?hi < ?raw \<and> ?raw < ?lo"
    using ne by linarith
  then show ?thesis
  proof cases
    case low
    then have "?r = scaled_min" using assms(1) by (auto simp: pve_scale_def)
    moreover have "max (min ?lo ?hi) (min (max ?lo ?hi) ?raw) = ?lo" using low by auto
    ultimately show ?thesis by (simp add: Let_def)
  next
    case high
    then have "?r = scaled_max" using assms(1) by (auto simp: pve_scale_def)
    moreover have "max (min ?lo ?hi) (min (max ?lo ?hi) ?raw) = ?hi" using high by auto
    ultimately show ?thesis by (simp add: Let_def mult.commute)
  next
    case inside
    note v = pve_scale_inside [OF assms(2,3) inside]
    have "max (min ?lo ?hi) (min (max ?lo ?hi) ?raw) = ?raw" using inside by auto
    moreover have "2 * \<bar>round_div ((?raw - ?lo) * (sint scaled_max - sint scaled_min)) (?hi - ?lo) * (?hi - ?lo) -
        (?raw - ?lo) * (sint scaled_max - sint scaled_min)\<bar> \<le> \<bar>?hi - ?lo\<bar>"
      using ne by (intro round_div_nearest) simp
    ultimately show ?thesis using v by (simp add: Let_def)
  qed
qed

text \<open>The middle of an inverted input range.\<close>

theorem pve_scale_nearest_witness: "sint (pve_scale 5 10 0 0 100) = 50"
proof -
  have "sint (0 :: i32) = 0" "sint (10 :: i32) = 10" "sint (100 :: i32) = 100" "sint (5 :: i32) = 5"
    by simp_all
  moreover have "(10 :: i32) \<noteq> 0" by simp
  ultimately have near: "2 * \<bar>sint (pve_scale 5 10 0 0 100) * - 10 - - 500\<bar> \<le> 10"
    using pve_scale_nearest [of 10 0 100 0 5] by (simp only: Let_def) simp
  moreover have "z = 50" if "2 * \<bar>z * - 10 - - 500\<bar> \<le> 10" for z :: int
    using that by presburger
  ultimately show ?thesis by blast
qed

text \<open>The alarm decision is a comparator with hysteresis.\<close>

lemma next_alarm_state_spec:
  assumes "al_enabled al \<noteq> 0" "0 < sint (al_hysteresis al)"
    "sint (al_low_limit al) < sint (al_high_limit al) - sint (al_hysteresis al)" "st \<in> {0, 1, 2}"
  shows "(next_alarm_state al v st = PVE_ALARM_STATE_HIGH \<longleftrightarrow> sint (al_high_limit al) \<le> sint v \<or>
      st = PVE_ALARM_STATE_HIGH \<and> sint (al_high_limit al) - sint (al_hysteresis al) < sint v) \<and>
    (next_alarm_state al v st = PVE_ALARM_STATE_LOW \<longleftrightarrow> sint v \<le> sint (al_low_limit al) \<or>
      st = PVE_ALARM_STATE_LOW \<and> sint v < sint (al_low_limit al) + sint (al_hysteresis al)) \<and>
    next_alarm_state al v st \<in> {0, 1, 2}"
proof -
  have lim: "- (2 ^ 31) \<le> sint w" "sint w < 2 ^ 31" for w :: i32
    using sint_range_size [of w] by (simp_all add: word_size)
  have hi: "sint (al_high_limit al - al_hysteresis al) = sint (al_high_limit al) - sint (al_hysteresis al)"
    using assms(2,3) lim [of "al_low_limit al"] lim [of "al_high_limit al"] by (intro sint_minus_exact) linarith+
  have "- (2 ^ 31) \<le> sint (al_low_limit al) + sint (al_hysteresis al)" "sint (al_low_limit al) + sint (al_hysteresis al) < 2 ^ 31"
    using assms(2,3) lim [of "al_low_limit al"] lim [of "al_high_limit al"] by linarith+
  then have "sint (word_of_int (sint (al_low_limit al) + sint (al_hysteresis al)) :: i32) = sint (al_low_limit al) + sint (al_hysteresis al)"
    by (rule sint_word_of_int_exact)
  then have lo: "sint (al_low_limit al + al_hysteresis al) = sint (al_low_limit al) + sint (al_hysteresis al)"
    by (simp add: wi_hom_syms)
  consider "st = 0" | "st = 1" | "st = 2" using assms(4) by auto
  then show ?thesis
    by cases (use assms(1-3) in \<open>auto simp: next_alarm_state_def alarm_state_defs hi lo\<close>)
qed

text \<open>The variable after a new sample.\<close>

definition alarm_after :: "pve_variable_t \<Rightarrow> i32 \<Rightarrow> u8" where
  "alarm_after var raw = next_alarm_state (pv_alarm var) (scaled_of (pv_config var) raw) (rt_alarm_state (pv_runtime var))"

definition sampled :: "pve_variable_t \<Rightarrow> i32 \<Rightarrow> pve_variable_t" where
  "sampled var raw = var\<lparr>pv_runtime := \<lparr>rt_raw_value = raw, rt_scaled_value = scaled_of (pv_config var) raw,
     rt_alarm_state = alarm_after var raw\<rparr>\<rparr>"

lemma update_variables: "pve_variables (pve_update P i raw p) = (pve_variables p)[i := sampled (pve_variables p ! i) raw]"
  by (simp add: pve_update_def Let_def sampled_def alarm_after_def pve_log_alarm_event_def case_prod_unfold)

lemma alarm_after_range: "rt_alarm_state (pv_runtime var) \<in> {0, 1, 2} \<Longrightarrow> alarm_after var raw \<in> {0, 1, 2}"
  by (auto simp: alarm_after_def next_alarm_state_def alarm_state_defs)

lemma sampled_ok: "pve_ok p \<Longrightarrow> i < MAX_PVE_VARIABLES \<Longrightarrow> pve_ok (p\<lparr>pve_variables := (pve_variables p)[i := sampled (pve_variables p ! i) raw]\<rparr>)"
  using alarm_after_range [of "pve_variables p ! i" raw]
  by (auto simp: pve_ok_def sampled_def dest!: set_update_subset_insert [THEN subsetD])

lemma update_quiet:
  assumes "alarm_after (pve_variables p ! i) raw = rt_alarm_state (pv_runtime (pve_variables p ! i))"
  shows "pve_update P i raw p = p\<lparr>pve_variables := (pve_variables p)[i := sampled (pve_variables p ! i) raw]\<rparr>"
  using assms by (simp add: pve_update_def Let_def sampled_def alarm_after_def)

text \<open>A change of the alarm state is logged once and, unless it is a return to normal, published.\<close>

lemma update_alarm:
  fixes p :: "'w pve" and raw :: i32
  assumes ok: "pve_ok p" "i < MAX_PVE_VARIABLES"
    and change: "alarm_after (pve_variables p ! i) raw \<noteq> rt_alarm_state (pv_runtime (pve_variables p ! i))"
  shows "let var = pve_variables p ! i; st = alarm_after var raw; v = scaled_of (pv_config var) raw; p' = pve_update P i raw p in
    (\<exists>ev. ae_pve_id ev = of_nat i \<and> ae_state ev = st \<and> ae_scaled_value ev = v \<and>
       alarm_log p' = drop (Suc (length (alarm_log p)) - 64) (alarm_log p @ [ev])) \<and> pve_ok p' \<and>
    pve_bus p' = (if st = PVE_ALARM_STATE_OK then pve_bus p else event_bus_publish
      \<lparr>ev_type = if st = PVE_ALARM_STATE_HIGH then EVENT_PVE_ALARM_HIGH else EVENT_PVE_ALARM_LOW,
       ev_source = ucast (pv_source_id var), ev_data = v\<rparr> (pve_bus p))"
proof -
  let ?var = "pve_variables p ! i"
  let ?st = "alarm_after ?var raw" and ?v = "scaled_of (pv_config ?var) raw"
  let ?p = "p\<lparr>pve_variables := (pve_variables p)[i := sampled ?var raw]\<rparr>"
  let ?l = "pve_log_alarm_event P (of_nat i) ?st ?v ?p"
  have okp: "pve_ok ?p" using ok by (rule sampled_ok)
  have "?var \<in> set (pve_variables p)" using ok by (simp add: pve_ok_def)
  then have range: "?st \<in> {0, 1, 2}" using ok(1) by (intro alarm_after_range) (auto simp: pve_ok_def)
  obtain ev where ev: "ae_pve_id ev = of_nat i" "ae_state ev = ?st" "ae_scaled_value ev = ?v"
      "alarm_log ?l = drop (Suc (length (alarm_log ?p)) - 64) (alarm_log ?p @ [ev])" "pve_ok ?l"
      "pve_bus ?l = pve_bus ?p"
    using log_event_ok [OF okp, of "of_nat i" ?st ?v P] by (auto simp: Let_def)
  have log: "alarm_log (x\<lparr>pve_bus := b\<rparr>) = alarm_log x" "alarm_log ?p = alarm_log p" for x :: "'w pve" and b
    by (simp_all add: alarm_log_def)
  have upd: "pve_update P i raw p = (if ?st = PVE_ALARM_STATE_OK then ?l else ?l\<lparr>pve_bus := event_bus_publish
      \<lparr>ev_type = if ?st = PVE_ALARM_STATE_HIGH then EVENT_PVE_ALARM_HIGH else EVENT_PVE_ALARM_LOW,
       ev_source = ucast (pv_source_id ?var), ev_data = ?v\<rparr> (pve_bus p)\<rparr>)"
    using change range ev(6) unfolding pve_update_def Let_def
    by (auto simp: sampled_def alarm_after_def alarm_state_defs)
  have pick: "alarm_log (if c then x else x\<lparr>pve_bus := b\<rparr>) = alarm_log x"
      "pve_bus (if c then x else x\<lparr>pve_bus := b\<rparr>) = (if c then pve_bus x else b)"
      "pve_ok x \<Longrightarrow> event_bus_inv b \<Longrightarrow> pve_ok (if c then x else x\<lparr>pve_bus := b\<rparr>)" for x :: "'w pve" and b c
    by (simp_all add: alarm_log_def pve_ok_def)
  have "event_bus_inv (pve_bus p)" using ok(1) by (simp add: pve_ok_def)
  then have okr: "pve_ok (pve_update P i raw p)" unfolding upd using ev(5) by (intro pick(3) publish_inv)
  have logr: "alarm_log (pve_update P i raw p) = drop (Suc (length (alarm_log p)) - 64) (alarm_log p @ [ev])"
    unfolding upd pick(1) ev(4) log(2) by (rule refl)
  have "pve_bus ?l = pve_bus p" using ev(6) by simp
  then show ?thesis
    unfolding Let_def upd pick(2) using okr logr ev(1-3) unfolding upd by (simp only:) blast
qed

text \<open>
  Alarms with hysteresis. For an enabled alarm whose limits are more than a positive
  hysteresis apart, a sample gives the high alarm exactly when the scaled value reaches the high
  limit, or stays above the limit less the hysteresis while the alarm is high; the low alarm is
  symmetric. A sample that does not change the state leaves the history and the bus alone; a
  change is appended to the history of the last 64 changes and, unless it is a return to normal,
  published once.
\<close>

theorem pve_alarm_hysteresis:
  assumes "pve_ok p" "i < MAX_PVE_VARIABLES" "al = pv_alarm (pve_variables p ! i)" "al_enabled al \<noteq> 0"
    "0 < sint (al_hysteresis al)" "sint (al_low_limit al) < sint (al_high_limit al) - sint (al_hysteresis al)"
  shows "let var = pve_variables p ! i; st = rt_alarm_state (pv_runtime var); p' = pve_update P i raw p;
             v = scaled_of (pv_config var) raw; st' = rt_alarm_state (pv_runtime (pve_variables p' ! i)) in
    pve_ok p' \<and> rt_scaled_value (pv_runtime (pve_variables p' ! i)) = v \<and>
    (st' = PVE_ALARM_STATE_HIGH \<longleftrightarrow> sint (al_high_limit al) \<le> sint v \<or>
       st = PVE_ALARM_STATE_HIGH \<and> sint (al_high_limit al) - sint (al_hysteresis al) < sint v) \<and>
    (st' = PVE_ALARM_STATE_LOW \<longleftrightarrow> sint v \<le> sint (al_low_limit al) \<or>
       st = PVE_ALARM_STATE_LOW \<and> sint v < sint (al_low_limit al) + sint (al_hysteresis al)) \<and>
    (st' = st \<longrightarrow> alarm_log p' = alarm_log p \<and> pve_bus p' = pve_bus p) \<and>
    (st' \<noteq> st \<longrightarrow>
       (\<exists>ev. ae_pve_id ev = of_nat i \<and> ae_state ev = st' \<and> ae_scaled_value ev = v \<and>
          alarm_log p' = drop (Suc (length (alarm_log p)) - 64) (alarm_log p @ [ev])) \<and>
       pve_bus p' = (if st' = PVE_ALARM_STATE_OK then pve_bus p else event_bus_publish
         \<lparr>ev_type = if st' = PVE_ALARM_STATE_HIGH then EVENT_PVE_ALARM_HIGH else EVENT_PVE_ALARM_LOW,
          ev_source = ucast (pv_source_id var), ev_data = v\<rparr> (pve_bus p)))"
proof -
  let ?var = "pve_variables p ! i"
  have i: "i < length (pve_variables p)" using assms(1,2) by (simp add: pve_ok_def)
  then have "?var \<in> set (pve_variables p)" by simp
  then have st: "rt_alarm_state (pv_runtime ?var) \<in> {0, 1, 2}" using assms(1) unfolding pve_ok_def by blast
  have var': "pve_variables (pve_update P i raw p) ! i = sampled ?var raw" using i by (simp add: update_variables)
  have rt: "rt_alarm_state (pv_runtime (sampled ?var raw)) = alarm_after ?var raw"
      "rt_scaled_value (pv_runtime (sampled ?var raw)) = scaled_of (pv_config ?var) raw"
    by (simp_all add: sampled_def)
  note spec = next_alarm_state_spec [OF assms(4,5,6) st, of "scaled_of (pv_config ?var) raw", unfolded assms(3), folded alarm_after_def]
  show ?thesis
  proof (cases "alarm_after ?var raw = rt_alarm_state (pv_runtime ?var)")
    case True
    note q = update_quiet [OF True, of P]
    have "pve_ok (pve_update P i raw p)" unfolding q by (rule sampled_ok [OF assms(1,2)])
    moreover have "alarm_log (pve_update P i raw p) = alarm_log p" "pve_bus (pve_update P i raw p) = pve_bus p"
      unfolding q by (simp_all add: alarm_log_def)
    ultimately show ?thesis using spec True unfolding Let_def var' rt assms(3) by simp
  next
    case False
    show ?thesis using update_alarm [OF assms(1,2) False, of P] spec False unfolding Let_def var' rt assms(3) by simp
  qed
qed

text \<open>A process variable engine with the high alarm of the first input enabled.\<close>

definition demo_var :: pve_variable_t where
  "demo_var = (default_variables ! 0)\<lparr>pv_alarm := \<lparr>al_high_limit = 800, al_low_limit = 200, al_hysteresis = 50, al_enabled = 1\<rparr>\<rparr>"

definition demo_pve :: "sim_world pve" where
  "demo_pve = \<lparr>pve_variables = default_variables[0 := demo_var], pve_history = replicate 64 zero_alarm_event,
     pve_history_head = 0, pve_history_count = 0, pve_bus = empty_bus, pve_world = sim_init\<rparr>"

lemma demo_pve_ok: "pve_ok demo_pve"
  by (simp add: pve_ok_def demo_pve_def demo_var_def default_variables_def default_var_def MAX_PVE_VARIABLES_def
      ALARM_HISTORY_MAX_def empty_bus_inv alarm_state_defs)

text \<open>A full-scale sample raises the high alarm.\<close>

theorem pve_alarm_hysteresis_witness:
  "rt_alarm_state (pv_runtime (pve_variables (pve_update sim_platform 0 4095 demo_pve) ! 0)) = PVE_ALARM_STATE_HIGH"
proof -
  have var: "pve_variables demo_pve ! 0 = demo_var" by (simp add: demo_pve_def default_variables_def)
  have v: "scaled_of (pv_config demo_var) 4095 = 1000"
    by (simp add: scaled_of_def demo_var_def default_variables_def default_var_def pve_scale_def)
  show ?thesis
    using pve_alarm_hysteresis [OF demo_pve_ok, of 0 "pv_alarm demo_var" sim_platform 4095] var v
    by (simp add: MAX_PVE_VARIABLES_def Let_def demo_var_def)
qed

text \<open>
  The history keeps the alarms in time order: asked for \<open>m\<close> entries it gives
  the first \<open>m\<close> of the at most 64 kept events, the oldest first, and recording an event drops the
  oldest one only when 64 are kept.
\<close>

theorem pve_history_order:
  assumes "pve_ok p"
  shows "pve_get_alarm_history p (Some m) = take (unat m) (alarm_log p) \<and>
    (\<exists>ev. ae_pve_id ev = i \<and> ae_state ev = st \<and> ae_scaled_value ev = v \<and>
      pve_get_alarm_history (pve_log_alarm_event P i st v p) (Some 64) =
        drop (Suc (length (alarm_log p)) - 64) (pve_get_alarm_history p (Some 64) @ [ev]))"
proof -
  have len: "length (alarm_log q) \<le> 64" if "pve_ok q" for q :: "'a pve"
    using that by (simp add: alarm_log_def recent_def pve_ok_def ALARM_HISTORY_MAX_def)
  obtain ev where ev: "ae_pve_id ev = i" "ae_state ev = st" "ae_scaled_value ev = v"
      "alarm_log (pve_log_alarm_event P i st v p) = drop (Suc (length (alarm_log p)) - 64) (alarm_log p @ [ev])"
      "pve_ok (pve_log_alarm_event P i st v p)"
    using log_event_ok [OF assms, of i st v P] by (auto simp: Let_def)
  have all: "pve_get_alarm_history q (Some 64) = alarm_log q" if "pve_ok q" for q :: "'a pve"
    using alarm_history_log [OF that, of 64] len [OF that] by simp
  show ?thesis
    by (intro conjI exI [of _ ev] alarm_history_log [OF assms] ev(1-3)) (simp only: all [OF assms] all [OF ev(5)] ev(4))
qed

theorem pve_history_order_witness:
  "\<exists>ev. ae_state ev = 1 \<and> pve_get_alarm_history (pve_log_alarm_event sim_platform 0 1 900 demo_pve) (Some 64) = [ev]"
proof -
  have "alarm_log demo_pve = []" by (simp add: alarm_log_def recent_def demo_pve_def)
  with pve_history_order [OF demo_pve_ok, of 64 0 1 900 sim_platform] show ?thesis by auto
qed

text \<open>
  With hysteresis 0 the comparator has no dead band: a value that stays exactly at the high limit
  switches the alarm on and off with every sample.
\<close>

lemma zero_hysteresis_chatters:
  assumes "al_enabled al \<noteq> 0" "al_hysteresis al = 0" "v = al_high_limit al" "sint (al_low_limit al) < sint v"
  shows "next_alarm_state al v PVE_ALARM_STATE_OK = PVE_ALARM_STATE_HIGH \<and>
    next_alarm_state al v PVE_ALARM_STATE_HIGH = PVE_ALARM_STATE_OK"
  using assms by (simp add: next_alarm_state_def alarm_state_defs)

end
