(* ===== verification/Io_Driver.thy ===== *)
theory Io_Driver
  imports State_Store Io_Image Pve
begin

text \<open>
  The input and output driver (\<open>runtime/io_driver/io_driver.c\<close>): the channel tables built from
  the profile, debounced digital inputs, filtered analog inputs, and the outputs that follow the
  state store. The tables live in the record \<open>system\<close> of the state store, whose write path calls
  the hook of this driver; the process image and the process variables, which the driver writes
  as well, complete the record \<open>plant\<close>.

  The profile queries (\<open>io_binding_export_outputs\<close>, \<open>device_profile_find_output\<close> and so on), the
  startup policy and the ownership test \<open>cluster_io_is_local\<close> are arguments.
\<close>

section \<open>Model\<close>

definition INPUT_DEBOUNCE_SAMPLES :: u8 where "INPUT_DEBOUNCE_SAMPLES = 8"
definition INPUT_DIAG_PERIOD_US :: u64 where "INPUT_DIAG_PERIOD_US = 5000000"
definition IO_DRIVER_MAX_OUTPUTS :: nat where "IO_DRIVER_MAX_OUTPUTS = 16"
definition IO_DRIVER_MAX_INPUTS :: nat where "IO_DRIVER_MAX_INPUTS = 16"
definition ADC_DEADBAND_COUNTS :: int where "ADC_DEADBAND_COUNTS = 64"
definition ADC_SETTLE_SAMPLES :: u8 where "ADC_SETTLE_SAMPLES = 3"

definition ADC_UNIT_1 :: int where "ADC_UNIT_1 = 0"

record 'w plant =
  pl_sys :: "'w system"
  pl_image :: io_image
  pl_pve :: "'w pve"

definition set_channel :: "nat \<Rightarrow> input_channel_t \<Rightarrow> 'w plant \<Rightarrow> 'w plant" where
  "set_channel i ch pl = pl\<lparr>pl_sys := (pl_sys pl)\<lparr>sys_io := (sys_io (pl_sys pl))
     \<lparr>io_input_table := (io_input_table (sys_io (pl_sys pl)))[i := ch]\<rparr>\<rparr>\<rparr>"

definition set_world :: "'w \<Rightarrow> 'w plant \<Rightarrow> 'w plant" where
  "set_world w pl = pl\<lparr>pl_sys := (pl_sys pl)\<lparr>sys_world := w\<rparr>\<rparr>"

definition set_image_input :: "u16 \<Rightarrow> i32 \<Rightarrow> 'w plant \<Rightarrow> 'w plant" where
  "set_image_input sid v pl = pl\<lparr>pl_image := io_image_set_input sid v (pl_image pl)\<rparr>"

definition write_state :: "'w platform \<Rightarrow> u16 \<Rightarrow> i32 \<Rightarrow> 'w plant \<Rightarrow> 'w plant" where
  "write_state P sid v pl = pl\<lparr>pl_sys := snd (state_set_int P sid v (pl_sys pl))\<rparr>"

text \<open>\<open>pve_update\<close> on the bus and the world of the system.\<close>

definition feed_pve :: "'w platform \<Rightarrow> nat \<Rightarrow> i32 \<Rightarrow> 'w plant \<Rightarrow> 'w plant" where
  "feed_pve P k raw pl =
     (let pv = pve_update P k raw ((pl_pve pl)\<lparr>pve_bus := sys_bus (pl_sys pl), pve_world := sys_world (pl_sys pl)\<rparr>)
      in pl\<lparr>pl_pve := pv, pl_sys := (pl_sys pl)\<lparr>sys_bus := pve_bus pv, sys_world := pve_world pv\<rparr>\<rparr>)"

definition feed_analog :: "'w platform \<Rightarrow> int \<Rightarrow> i32 \<Rightarrow> 'w plant \<Rightarrow> 'w plant" where
  "feed_analog P gpio raw pl =
     (if gpio = 34 then feed_pve P 0 raw pl else if gpio = 35 then feed_pve P 1 raw pl else pl)"

definition io_driver_clamp_debounce_samples :: "u8 \<Rightarrow> u8" where
  "io_driver_clamp_debounce_samples configured =
     (if configured < INPUT_DEBOUNCE_SAMPLES then INPUT_DEBOUNCE_SAMPLES
      else if configured > 32 then 32 else configured)"

definition io_driver_output_gpio_level :: "output_channel_t \<Rightarrow> bool \<Rightarrow> nat" where
  "io_driver_output_gpio_level ch logical_on =
     (if oc_active_low ch then (if logical_on then 0 else 1) else (if logical_on then 1 else 0))"

definition io_driver_state_shadow_assign :: "u16 \<Rightarrow> i32 \<Rightarrow> i32 list \<Rightarrow> i32 list" where
  "io_driver_state_shadow_assign sid value shadow =
     (if unat sid \<ge> STATE_MAX_ENTRIES then shadow else shadow[unat sid := value])"

subsection \<open>Loading the profile\<close>

record output_binding =
  ob_id :: u16
  ob_gpio :: int

record input_binding =
  ib_id :: u16
  ib_gpio :: int
  ib_backend :: device_channel_backend_t
  ib_endpoint_index :: int

text \<open>The profile entry of an output is its id and polarity, of an input its debounce setting as well.\<close>

fun load_outputs :: "(u16 \<Rightarrow> (u16 \<times> bool) option) \<Rightarrow> output_binding list \<Rightarrow> output_channel_t list \<Rightarrow> output_channel_t list" where
  "load_outputs find_output [] out = out"
| "load_outputs find_output (b # bs) out =
     (if length out < IO_DRIVER_MAX_OUTPUTS then
        case find_output (ob_id b) of
          None \<Rightarrow> load_outputs find_output bs out
        | Some (cid, active_low) \<Rightarrow>
            load_outputs find_output bs (out @ [\<lparr>oc_id = cid, oc_gpio = ob_gpio b, oc_active_low = active_low\<rparr>])
      else out)"

definition new_input :: "u16 \<Rightarrow> bool \<Rightarrow> u8 \<Rightarrow> input_binding \<Rightarrow> input_channel_t" where
  "new_input cid active_low debounce b =
     \<lparr>ic_id = cid, ic_gpio = ib_gpio b, ic_active_low = active_low,
      ic_debounce_samples = io_driver_clamp_debounce_samples debounce,
      ic_last_sample = 0, ic_stable_value = 0, ic_stable_count = 0, ic_raw_edges = 0, ic_stable_edges = 0,
      ic_reported_raw_edges = 0, ic_reported_stable_edges = 0, ic_recent_raw_edges = 0,
      ic_recent_stable_edges = 0, ic_recent_noise_edges = 0, ic_backend = ib_backend b,
      ic_endpoint_index = ib_endpoint_index b, ic_last_adc_raw = 0, ic_adc_settle_count = 0\<rparr>"

fun load_inputs ::
  "(u16 \<Rightarrow> (u16 \<times> bool \<times> u8) option) \<Rightarrow> input_binding list \<Rightarrow> input_channel_t list \<Rightarrow> input_channel_t list" where
  "load_inputs find_input [] inp = inp"
| "load_inputs find_input (b # bs) inp =
     (if length inp < IO_DRIVER_MAX_INPUTS then
        case find_input (ib_id b) of
          None \<Rightarrow> load_inputs find_input bs inp
        | Some (cid, active_low, debounce) \<Rightarrow>
            load_inputs find_input bs (inp @ [new_input cid active_low debounce b])
      else inp)"

definition io_driver_load_profile ::
  "output_binding list \<Rightarrow> input_binding list \<Rightarrow> (u16 \<Rightarrow> (u16 \<times> bool) option) \<Rightarrow>
   (u16 \<Rightarrow> (u16 \<times> bool \<times> u8) option) \<Rightarrow> io_driver \<Rightarrow> io_driver" where
  "io_driver_load_profile outs ins find_output find_input io =
     io\<lparr>io_output_table := load_outputs find_output outs [], io_input_table := load_inputs find_input ins []\<rparr>"

subsection \<open>Initialisation\<close>

text \<open>
  The loops thread the shadow copy of the state (and the number of analog channels) with the
  plant. \<open>startup_value\<close> is \<open>failsafe_startup_value\<close>, absent when it fails.
\<close>

definition init_output ::
  "'w platform \<Rightarrow> (u16 \<Rightarrow> i32 \<Rightarrow> i32 option) \<Rightarrow> nat \<Rightarrow> i32 list \<times> 'w plant \<Rightarrow> i32 list \<times> 'w plant" where
  "init_output P startup_value i = (\<lambda>(shadow, pl).
     let ch = io_output_table (sys_io (pl_sys pl)) ! i in
     if oc_gpio ch = GPIO_NUM_NC then
       (io_driver_state_shadow_assign (oc_id ch) 0 shadow,
        pl\<lparr>pl_image := io_image_set_output (oc_id ch) 0 (pl_image pl)\<rparr>)
     else case gpio_config P (push_bit (nat (oc_gpio ch)) 1) GPIO_MODE_OUTPUT (sys_world (pl_sys pl)) of (_, w) \<Rightarrow>
       let restored_value = (case state_get_int (sys_state (pl_sys pl)) (oc_id ch) of None \<Rightarrow> 0 | Some v \<Rightarrow> v);
           boot_value = (case startup_value (oc_id ch) restored_value of None \<Rightarrow> 0 | Some v \<Rightarrow> v);
           w = gpio_set_level P (oc_gpio ch) (io_driver_output_gpio_level ch (boot_value \<noteq> 0)) w;
           pl = set_world w pl;
           io = sys_io (pl_sys pl)
       in (io_driver_state_shadow_assign (oc_id ch) boot_value shadow,
           pl\<lparr>pl_sys := (pl_sys pl)\<lparr>sys_io := io\<lparr>io_local_mask := io_local_mask io OR push_bit i 1\<rparr>\<rparr>\<rparr>))"

definition logical_level :: "bool \<Rightarrow> int \<Rightarrow> u8" where
  "logical_level active_low level = (if (if active_low then level = 0 else level \<noteq> 0) then 1 else 0)"

definition init_digital :: "'w platform \<Rightarrow> nat \<Rightarrow> nat \<times> i32 list \<times> 'w plant \<Rightarrow> nat \<times> i32 list \<times> 'w plant" where
  "init_digital P i = (\<lambda>(analog, shadow, pl).
     let ch = io_input_table (sys_io (pl_sys pl)) ! i in
     if ic_gpio ch = GPIO_NUM_NC then
       let ch = ch\<lparr>ic_last_sample := 0, ic_stable_value := 0, ic_stable_count := ic_debounce_samples ch\<rparr> in
       (analog, io_driver_state_shadow_assign (ic_id ch) 0 shadow, set_image_input (ic_id ch) 0 (set_channel i ch pl))
     else case gpio_config P (push_bit (nat (ic_gpio ch)) 1) (GPIO_MODE_INPUT (ic_active_low ch) (\<not> ic_active_low ch))
            (sys_world (pl_sys pl)) of (_, w) \<Rightarrow>
       case gpio_get_level P (ic_gpio ch) w of (level, w) \<Rightarrow>
       let logical = logical_level (ic_active_low ch) level;
           ch = ch\<lparr>ic_last_sample := logical, ic_stable_value := logical, ic_stable_count := ic_debounce_samples ch\<rparr>
       in (analog, io_driver_state_shadow_assign (ic_id ch) (ucast logical) shadow,
           set_image_input (ic_id ch) (ucast logical) (set_channel i ch (set_world w pl))))"

definition init_adc_unit :: "'w platform \<Rightarrow> 'w plant \<Rightarrow> 'w plant" where
  "init_adc_unit P pl =
     (if io_adc1_initialized (sys_io (pl_sys pl)) then pl
      else case adc_oneshot_new_unit P (sys_world (pl_sys pl)) of (err, w) \<Rightarrow>
        let pl = set_world w pl in
        if err = ESP_OK then pl\<lparr>pl_sys := (pl_sys pl)\<lparr>sys_io := (sys_io (pl_sys pl))\<lparr>io_adc1_initialized := True\<rparr>\<rparr>\<rparr>
        else pl)"

definition init_adc_channel :: "'w platform \<Rightarrow> nat \<Rightarrow> 'w plant \<Rightarrow> 'w plant" where
  "init_adc_channel P i pl =
     (let ch = io_input_table (sys_io (pl_sys pl)) ! i in
      if \<not> io_adc1_initialized (sys_io (pl_sys pl)) then pl
      else case adc_oneshot_io_to_channel P (ic_gpio ch) (sys_world (pl_sys pl)) of (err, adc_unit, channel, w) \<Rightarrow>
        if err = ESP_OK \<and> adc_unit = ADC_UNIT_1 then
          case adc_oneshot_config_channel P channel w of (_, w) \<Rightarrow>
            set_channel i (ch\<lparr>ic_endpoint_index := channel\<rparr>) (set_world w pl)
        else set_world w pl)"

definition init_analog :: "'w platform \<Rightarrow> nat \<Rightarrow> nat \<times> i32 list \<times> 'w plant \<Rightarrow> nat \<times> i32 list \<times> 'w plant" where
  "init_analog P i = (\<lambda>(analog, shadow, pl).
     let pl = init_adc_channel P i (init_adc_unit P pl);
         ch = (io_input_table (sys_io (pl_sys pl)) ! i)
           \<lparr>ic_last_adc_raw := 0, ic_stable_value := 0, ic_stable_count := of_nat (analog mod 10)\<rparr>;
         (ch, pl) =
           (if io_adc1_initialized (sys_io (pl_sys pl)) then
              case adc_oneshot_read P (ic_endpoint_index ch) (sys_world (pl_sys pl)) of (err, raw, w) \<Rightarrow>
                (if err = ESP_OK then ch\<lparr>ic_last_adc_raw := raw, ic_stable_value := ucast raw\<rparr> else ch, set_world w pl)
            else (ch, pl));
         pl = set_image_input (ic_id ch) (ic_last_adc_raw ch) (set_channel i ch pl)
     in (Suc analog, io_driver_state_shadow_assign (ic_id ch) (ic_last_adc_raw ch) shadow,
         feed_analog P (ic_gpio ch) (ic_last_adc_raw ch) pl))"

definition init_input :: "'w platform \<Rightarrow> nat \<Rightarrow> nat \<times> i32 list \<times> 'w plant \<Rightarrow> nat \<times> i32 list \<times> 'w plant" where
  "init_input P i st =
     (if ic_backend (io_input_table (sys_io (pl_sys (snd (snd st)))) ! i) = DEVICE_CHANNEL_BACKEND_ADC_NATIVE
      then init_analog P i st else init_digital P i st)"

definition io_driver_init ::
  "'w platform \<Rightarrow> output_binding list \<Rightarrow> input_binding list \<Rightarrow> (u16 \<Rightarrow> (u16 \<times> bool) option) \<Rightarrow>
   (u16 \<Rightarrow> (u16 \<times> bool \<times> u8) option) \<Rightarrow> (u16 \<Rightarrow> i32 \<Rightarrow> i32 option) \<Rightarrow> 'w plant \<Rightarrow> 'w plant" where
  "io_driver_init P outs ins find_output find_input startup_value pl =
     (let io = (io_driver_load_profile outs ins find_output find_input (sys_io (pl_sys pl)))
            \<lparr>io_pending_mask := 0, io_local_mask := 0, io_last_diag_report_us := 0\<rparr>;
          pl = pl\<lparr>pl_sys := (pl_sys pl)\<lparr>sys_io := io\<rparr>\<rparr>;
          shadow = state_export_snapshot (sys_state (pl_sys pl)) (of_nat STATE_MAX_ENTRIES);
          (shadow, pl) = fold (init_output P startup_value) [0..<length (io_output_table io)] (shadow, pl);
          (analog, shadow, pl) = fold (init_input P) [0..<length (io_input_table io)] (0, shadow, pl)
      in pl\<lparr>pl_sys := (pl_sys pl)\<lparr>sys_state := state_import_snapshot (Some shadow) (of_nat STATE_MAX_ENTRIES) (sys_state (pl_sys pl))\<rparr>\<rparr>)"

subsection \<open>Input scan\<close>

text \<open>One sample of a digital channel: the channel and whether a new stable value is to be published.\<close>

definition debounce :: "u8 \<Rightarrow> input_channel_t \<Rightarrow> bool \<times> input_channel_t" where
  "debounce logical ch =
     (let ch = (if logical \<noteq> ic_last_sample ch
                then ch\<lparr>ic_last_sample := logical, ic_stable_count := 1, ic_raw_edges := ic_raw_edges ch + 1\<rparr>
                else if ic_stable_count ch < ic_debounce_samples ch then ch\<lparr>ic_stable_count := ic_stable_count ch + 1\<rparr>
                else ch)
      in if ic_stable_count ch \<ge> ic_debounce_samples ch \<and> ic_stable_value ch \<noteq> logical
         then (True, ch\<lparr>ic_stable_value := logical, ic_stable_edges := ic_stable_edges ch + 1\<rparr>)
         else (False, ch))"

definition scan_digital :: "'w platform \<Rightarrow> nat \<Rightarrow> 'w plant \<Rightarrow> 'w plant" where
  "scan_digital P i pl =
     (let ch = io_input_table (sys_io (pl_sys pl)) ! i in
      case gpio_get_level P (ic_gpio ch) (sys_world (pl_sys pl)) of (level, w) \<Rightarrow>
      let logical = logical_level (ic_active_low ch) level in
      case debounce logical ch of (changed, ch) \<Rightarrow>
      let pl = set_channel i ch (set_world w pl) in
      if changed then
        let pl = write_state P (ic_id ch) (ucast logical) (set_image_input (ic_id ch) (ucast logical) pl)
        in pl\<lparr>pl_sys := http_server_notify_state_change (pl_sys pl)\<rparr>
      else pl)"

text \<open>One converted sample of an analog channel: the channel and whether the state is to be written.\<close>

definition adc_filter :: "i32 \<Rightarrow> input_channel_t \<Rightarrow> bool \<times> input_channel_t" where
  "adc_filter raw ch =
     (let diff = raw - ic_last_adc_raw ch;
          diff = (if sint diff < 0 then - diff else diff)
      in if sint diff \<ge> ADC_DEADBAND_COUNTS then
           let ch = ch\<lparr>ic_adc_settle_count := ic_adc_settle_count ch + 1\<rparr> in
           if ic_adc_settle_count ch \<ge> ADC_SETTLE_SAMPLES
           then (True, ch\<lparr>ic_last_adc_raw := raw, ic_adc_settle_count := 0\<rparr>)
           else (False, ch)
         else (False, ch\<lparr>ic_adc_settle_count := 0\<rparr>))"

definition scan_analog :: "'w platform \<Rightarrow> nat \<Rightarrow> 'w plant \<Rightarrow> 'w plant" where
  "scan_analog P i pl =
     (let ch = io_input_table (sys_io (pl_sys pl)) ! i;
          ch = ch\<lparr>ic_stable_count := ic_stable_count ch + 1\<rparr>
      in if unat (ic_stable_count ch) < 10 then set_channel i ch pl
         else let ch = ch\<lparr>ic_stable_count := 0\<rparr>; pl = set_channel i ch pl in
           if \<not> io_adc1_initialized (sys_io (pl_sys pl)) then pl
           else case adc_oneshot_read P (ic_endpoint_index ch) (sys_world (pl_sys pl)) of (err, raw, w) \<Rightarrow>
             let pl = set_world w pl in
             if err \<noteq> ESP_OK then pl
             else case adc_filter raw ch of (settled, ch) \<Rightarrow>
               let pl = set_channel i ch pl;
                   pl = (if settled then write_state P (ic_id ch) raw pl else pl);
                   pl = set_image_input (ic_id ch) raw pl
               in feed_analog P (ic_gpio ch) raw pl)"

definition scan_input :: "'w platform \<Rightarrow> nat \<Rightarrow> 'w plant \<Rightarrow> 'w plant" where
  "scan_input P i pl =
     (if ic_backend (io_input_table (sys_io (pl_sys pl)) ! i) = DEVICE_CHANNEL_BACKEND_ADC_NATIVE
      then scan_analog P i pl else scan_digital P i pl)"

definition io_driver_scan_inputs :: "'w platform \<Rightarrow> 'w plant \<Rightarrow> 'w plant" where
  "io_driver_scan_inputs P pl = fold (scan_input P) [0..<length (io_input_table (sys_io (pl_sys pl)))] pl"

subsection \<open>Diagnosis\<close>

definition sat_minus :: "u32 \<Rightarrow> u32 \<Rightarrow> u32" where
  "sat_minus a b = (if a > b then a - b else 0)"

definition diag_input :: "input_channel_t \<Rightarrow> input_channel_t" where
  "diag_input ch =
     (let raw = ic_raw_edges ch; stable = ic_stable_edges ch;
          delta_raw = raw - ic_reported_raw_edges ch; delta_stable = stable - ic_reported_stable_edges ch
      in ch\<lparr>ic_recent_raw_edges := delta_raw, ic_recent_stable_edges := delta_stable,
            ic_recent_noise_edges := sat_minus delta_raw delta_stable,
            ic_reported_raw_edges := raw, ic_reported_stable_edges := stable\<rparr>)"

definition io_driver_process :: "'w platform \<Rightarrow> 'w plant \<Rightarrow> 'w plant" where
  "io_driver_process P pl =
     (case esp_timer_get_time P (sys_world (pl_sys pl)) of (now_us, w) \<Rightarrow>
      let pl = set_world w pl; io = sys_io (pl_sys pl) in
      if now_us - io_last_diag_report_us io < INPUT_DIAG_PERIOD_US then pl
      else pl\<lparr>pl_sys := (pl_sys pl)\<lparr>sys_io := io\<lparr>io_last_diag_report_us := now_us,
             io_input_table := map diag_input (io_input_table io)\<rparr>\<rparr>\<rparr>)"

record io_driver_input_diag_t =
  dg_id :: u16
  dg_level :: u8
  dg_raw_edges :: u32
  dg_stable_edges :: u32
  dg_noise_edges :: u32
  dg_recent_raw_edges :: u32
  dg_recent_stable_edges :: u32
  dg_recent_noise_edges :: u32

definition diag_view :: "input_channel_t \<Rightarrow> io_driver_input_diag_t" where
  "diag_view ch = \<lparr>dg_id = ic_id ch, dg_level = ic_stable_value ch, dg_raw_edges = ic_raw_edges ch,
     dg_stable_edges = ic_stable_edges ch, dg_noise_edges = sat_minus (ic_raw_edges ch) (ic_stable_edges ch),
     dg_recent_raw_edges = ic_recent_raw_edges ch, dg_recent_stable_edges = ic_recent_stable_edges ch,
     dg_recent_noise_edges = ic_recent_noise_edges ch\<rparr>"

text \<open>The number returned and what is written; the buffer is absent when its pointer is null.\<close>

definition io_driver_get_input_diag :: "bool \<Rightarrow> int \<Rightarrow> io_driver \<Rightarrow> int \<times> io_driver_input_diag_t list" where
  "io_driver_get_input_diag out max_inputs io =
     (let count = min (int (length (io_input_table io))) max_inputs in
      if \<not> out \<or> max_inputs \<le> 0 then (int (length (io_input_table io)), [])
      else (count, map diag_view (take (nat count) (io_input_table io))))"

subsection \<open>Outputs\<close>

text \<open>The ownership pass over channel \<open>i\<close>; \<open>todo\<close> collects the channels to write.\<close>

definition sync_owner :: "(u16 \<Rightarrow> bool) \<Rightarrow> nat \<Rightarrow> u32 \<times> io_driver \<Rightarrow> u32 \<times> io_driver" where
  "sync_owner cluster_io_is_local i = (\<lambda>(todo, io).
     let bt = push_bit i (1 :: u32);
         was_local = (io_local_mask io AND bt \<noteq> 0);
         is_local = cluster_io_is_local (oc_id (io_output_table io ! i))
     in if is_local = was_local then (todo, io)
        else (todo OR bt,
              io\<lparr>io_local_mask := (if is_local then io_local_mask io OR bt else io_local_mask io AND NOT bt),
                 io_pending_mask := io_pending_mask io OR bt\<rparr>))"

text \<open>The level a channel is driven to: nothing when the channel has no pin or no state.\<close>

definition drive_level :: "(u16 \<Rightarrow> bool) \<Rightarrow> state_store \<Rightarrow> output_channel_t \<Rightarrow> nat option" where
  "drive_level cluster_io_is_local st ch =
     (if oc_gpio ch = GPIO_NUM_NC \<or> oc_gpio ch < 0 then None
      else if \<not> cluster_io_is_local (oc_id ch) then Some (io_driver_output_gpio_level ch False)
      else map_option (\<lambda>v. io_driver_output_gpio_level ch (v \<noteq> 0)) (state_get_int st (oc_id ch)))"

definition apply_output :: "'w platform \<Rightarrow> (u16 \<Rightarrow> bool) \<Rightarrow> u32 \<Rightarrow> nat \<Rightarrow> 'w system \<Rightarrow> 'w system" where
  "apply_output P cluster_io_is_local todo i s =
     (let bt = push_bit i (1 :: u32); io = sys_io s; ch = io_output_table io ! i in
      if todo AND bt = 0 then s
      else s\<lparr>sys_world := (case drive_level cluster_io_is_local (sys_state s) ch of
               None \<Rightarrow> sys_world s | Some level \<Rightarrow> gpio_set_level P (oc_gpio ch) level (sys_world s)),
             sys_io := io\<lparr>io_pending_mask := io_pending_mask io AND NOT bt\<rparr>\<rparr>)"

definition io_driver_update :: "'w platform \<Rightarrow> (u16 \<Rightarrow> bool) \<Rightarrow> 'w system \<Rightarrow> 'w system" where
  "io_driver_update P cluster_io_is_local s =
     (let n = length (io_output_table (sys_io s)) in
      if n = 0 then s
      else case fold (sync_owner cluster_io_is_local) [0..<n] (io_pending_mask (sys_io s), sys_io s) of (todo, io) \<Rightarrow>
        let s = s\<lparr>sys_io := io\<rparr> in
        if todo = 0 then s else fold (apply_output P cluster_io_is_local todo) [0..<n] s)"

definition io_driver_get_output_physical_level :: "'w platform \<Rightarrow> u16 \<Rightarrow> 'w system \<Rightarrow> i32 option \<times> 'w system" where
  "io_driver_get_output_physical_level P sid s =
     (case find_index (\<lambda>c. oc_id c = sid) (io_output_table (sys_io s)) of
        None \<Rightarrow> (None, s)
      | Some i \<Rightarrow>
        let ch = io_output_table (sys_io s) ! i in
        if oc_gpio ch = GPIO_NUM_NC \<or> oc_gpio ch < 0
        then (Some (case state_get_int (sys_state s) sid of None \<Rightarrow> 0 | Some v \<Rightarrow> v), s)
        else case gpio_get_level P (oc_gpio ch) (sys_world s) of (level, w) \<Rightarrow>
          (Some (ucast (logical_level (oc_active_low ch) level)), s\<lparr>sys_world := w\<rparr>))"

section \<open>Debouncing\<close>

text \<open>The channel after a sequence of samples, and the reference: the most recent run of \<open>n\<close> equal samples.\<close>

definition samples :: "input_channel_t \<Rightarrow> u8 list \<Rightarrow> input_channel_t" where
  "samples ch xs = foldl (\<lambda>ch x. snd (debounce x ch)) ch xs"

fun run_length :: "'a list \<Rightarrow> nat" where
  "run_length [] = 0"
| "run_length (z # zs) = Suc (length (takeWhile (\<lambda>y. y = z) zs))"

text \<open>Newest sample first; a history without such a run gives its oldest sample.\<close>

fun latest_run :: "nat \<Rightarrow> 'a list \<Rightarrow> 'a" where
  "latest_run n [z] = z"
| "latest_run n (z # zs) = (if n \<le> run_length (z # zs) then z else latest_run n zs)"

lemma run_length_Cons:
  "zs \<noteq> [] \<Longrightarrow> run_length (x # zs) = (if x = hd zs then Suc (run_length zs) else 1)"
  by (cases zs) auto

lemma latest_run_Cons:
  "zs \<noteq> [] \<Longrightarrow> latest_run n (x # zs) = (if n \<le> run_length (x # zs) then x else latest_run n zs)"
  by (cases zs) auto

definition debounce_inv :: "nat \<Rightarrow> u8 list \<Rightarrow> input_channel_t \<Rightarrow> bool" where
  "debounce_inv n zs ch \<longleftrightarrow> zs \<noteq> [] \<and> unat (ic_debounce_samples ch) = n \<and> ic_last_sample ch = hd zs \<and>
     unat (ic_stable_count ch) = min n (run_length zs) \<and> ic_stable_value ch = latest_run n zs"

lemma debounce_step:
  assumes "debounce_inv n zs ch" "0 < n"
  shows "debounce_inv n (x # zs) (snd (debounce x ch)) \<and>
    (fst (debounce x ch) \<longleftrightarrow> latest_run n (x # zs) \<noteq> latest_run n zs)"
proof -
  have inv: "zs \<noteq> []" "unat (ic_debounce_samples ch) = n" "ic_last_sample ch = hd zs"
      "unat (ic_stable_count ch) = min n (run_length zs)" "ic_stable_value ch = latest_run n zs"
    using assms(1) by (auto simp: debounce_inv_def)
  let ?ch = "if x \<noteq> ic_last_sample ch
      then ch\<lparr>ic_last_sample := x, ic_stable_count := 1, ic_raw_edges := ic_raw_edges ch + 1\<rparr>
      else if ic_stable_count ch < ic_debounce_samples ch then ch\<lparr>ic_stable_count := ic_stable_count ch + 1\<rparr> else ch"
  have n: "n < 256" using inv(2) unat_u8_lt [of "ic_debounce_samples ch"] by simp
  have "unat (ic_stable_count ch + 1) = Suc (unat (ic_stable_count ch))" if "ic_stable_count ch < ic_debounce_samples ch"
    using that n inv(2) by (simp add: word_less_nat_alt unat_word_ariths)
  then have count: "unat (ic_stable_count ?ch) = min n (run_length (x # zs))"
    using inv assms(2) by (auto simp: run_length_Cons word_less_nat_alt simp del: run_length.simps)
  have rest: "ic_last_sample ?ch = x" "ic_debounce_samples ?ch = ic_debounce_samples ch" "ic_stable_value ?ch = ic_stable_value ch"
    using inv(3) by auto
  have full: "ic_stable_count ?ch \<ge> ic_debounce_samples ?ch \<longleftrightarrow> n \<le> run_length (x # zs)"
    unfolding word_le_nat_alt count rest(2) inv(2) by auto
  have "debounce x ch = (if n \<le> run_length (x # zs) \<and> ic_stable_value ch \<noteq> x
      then (True, ?ch\<lparr>ic_stable_value := x, ic_stable_edges := ic_stable_edges ?ch + 1\<rparr>) else (False, ?ch))"
    unfolding debounce_def Let_def full rest(3) by (rule refl)
  then show ?thesis
    using count rest inv by (auto simp: debounce_inv_def latest_run_Cons simp del: run_length.simps latest_run.simps)
qed

lemma latest_run_mem: "zs \<noteq> [] \<Longrightarrow> latest_run n zs \<in> set zs"
  by (induction n zs rule: latest_run.induct) auto

lemma latest_run_replicate: "0 < n \<Longrightarrow> latest_run n (replicate n v) = v"
  using latest_run_mem [of "replicate n v" n] by auto

lemma run_length_replicate: "run_length (replicate n v) = n"
  by (cases n) (simp_all add: takeWhile_replicate)

definition settled_input :: "nat \<Rightarrow> u8 \<Rightarrow> input_channel_t \<Rightarrow> bool" where
  "settled_input n v ch \<longleftrightarrow> 0 < n \<and> unat (ic_debounce_samples ch) = n \<and> ic_stable_count ch = ic_debounce_samples ch \<and>
     ic_last_sample ch = v \<and> ic_stable_value ch = v"

lemma samples_inv:
  assumes "settled_input n v ch"
  shows "debounce_inv n (rev xs @ replicate n v) (samples ch xs)"
proof (induction xs rule: rev_induct)
  case Nil
  from assms show ?case
    by (simp add: debounce_inv_def settled_input_def samples_def run_length_replicate latest_run_replicate hd_replicate)
next
  case (snoc x xs)
  have "0 < n" using assms by (simp add: settled_input_def)
  from debounce_step [OF snoc.IH this, of x] show ?case by (simp add: samples_def)
qed

section \<open>Outputs\<close>

lemma and_bit_iff [simp]: "(w :: u32) AND 2 ^ i = 0 \<longleftrightarrow> \<not> bit w i"
  by (simp add: and_exp_eq_0_iff_not_bit)

lemma bit_or_push: "i < 32 \<Longrightarrow> bit ((w :: u32) OR 2 ^ i) j \<longleftrightarrow> bit w j \<or> j = i"
  by (auto simp: bit_simps)

lemma bit_andnot_push: "bit ((w :: u32) AND NOT (2 ^ i)) j \<longleftrightarrow> bit w j \<and> j \<noteq> i"
  by (auto simp: bit_simps dest: bit_imp_le_length)

definition owner_changed :: "(u16 \<Rightarrow> bool) \<Rightarrow> io_driver \<Rightarrow> nat \<Rightarrow> bool" where
  "owner_changed is_local io i \<longleftrightarrow> is_local (oc_id (io_output_table io ! i)) \<noteq> bit (io_local_mask io) i"

text \<open>The channels to write: a pending change of state, or of the owner.\<close>

definition output_due :: "(u16 \<Rightarrow> bool) \<Rightarrow> io_driver \<Rightarrow> nat \<Rightarrow> bool" where
  "output_due is_local io i \<longleftrightarrow> bit (io_pending_mask io) i \<or> owner_changed is_local io i"

lemma sync_owner_fold:
  assumes "n \<le> 32" "fold (sync_owner is_local) [0..<n] (io_pending_mask io, io) = (todo, io')"
  shows "(\<forall>j. bit todo j \<longleftrightarrow> bit (io_pending_mask io) j \<or> j < n \<and> owner_changed is_local io j) \<and>
    (\<forall>j. bit (io_local_mask io') j \<longleftrightarrow>
       (if j < n then is_local (oc_id (io_output_table io ! j)) else bit (io_local_mask io) j)) \<and>
    io_pending_mask io' = todo \<and> io_output_table io' = io_output_table io"
  using assms
proof (induction n arbitrary: todo io')
  case 0
  then show ?case by auto
next
  case (Suc n)
  obtain t0 io0 where f: "fold (sync_owner is_local) [0..<n] (io_pending_mask io, io) = (t0, io0)"
    by (cases "fold (sync_owner is_local) [0..<n] (io_pending_mask io, io)")
  have IH: "bit t0 j \<longleftrightarrow> bit (io_pending_mask io) j \<or> j < n \<and> owner_changed is_local io j"
      "bit (io_local_mask io0) j \<longleftrightarrow> (if j < n then is_local (oc_id (io_output_table io ! j)) else bit (io_local_mask io) j)"
      "io_pending_mask io0 = t0" "io_output_table io0 = io_output_table io" for j
    using Suc.IH [OF _ f] Suc.prems(1) by auto
  have step: "(todo, io') = sync_owner is_local n (t0, io0)" using Suc.prems(2) f by simp
  have n: "n < 32" using Suc.prems(1) by simp
  show ?case
  proof (cases "owner_changed is_local io n")
    case False
    then have "todo = t0" "io' = io0" using step IH by (auto simp: sync_owner_def Let_def owner_changed_def)
    with IH False show ?thesis by (auto simp: less_Suc_eq owner_changed_def)
  next
    case True
    then have "todo = t0 OR 2 ^ n" and "io' = io0\<lparr>io_local_mask :=
        (if is_local (oc_id (io_output_table io ! n)) then io_local_mask io0 OR 2 ^ n else io_local_mask io0 AND NOT (2 ^ n)),
        io_pending_mask := io_pending_mask io0 OR 2 ^ n\<rparr>"
      using step IH by (auto simp: sync_owner_def Let_def owner_changed_def)
    with IH True show ?thesis
      by (auto simp: bit_or_push [OF n] bit_andnot_push less_Suc_eq owner_changed_def)
  qed
qed

text \<open>The writes of the second pass.\<close>

definition drive :: "'w platform \<Rightarrow> (u16 \<Rightarrow> bool) \<Rightarrow> state_store \<Rightarrow> output_channel_t \<Rightarrow> 'w \<Rightarrow> 'w" where
  "drive P is_local st ch w =
     (case drive_level is_local st ch of None \<Rightarrow> w | Some level \<Rightarrow> gpio_set_level P (oc_gpio ch) level w)"

lemma apply_output_due:
  assumes "bit todo i"
  shows "sys_world (apply_output P is_local todo i s) = drive P is_local (sys_state s) (io_output_table (sys_io s) ! i) (sys_world s)"
    and "io_pending_mask (sys_io (apply_output P is_local todo i s)) = io_pending_mask (sys_io s) AND NOT (2 ^ i)"
    and "sys_state (apply_output P is_local todo i s) = sys_state s"
    and "io_output_table (sys_io (apply_output P is_local todo i s)) = io_output_table (sys_io s)"
    and "io_local_mask (sys_io (apply_output P is_local todo i s)) = io_local_mask (sys_io s)"
  using assms by (simp_all add: apply_output_def Let_def drive_def)

lemma apply_output_fold:
  fixes s :: "'w system"
  shows "let s' = fold (apply_output P is_local todo) [0..<n] s; tab = io_output_table (sys_io s) in
    sys_world s' = fold (drive P is_local (sys_state s)) (map ((!) tab) (filter (bit todo) [0..<n])) (sys_world s) \<and>
    (\<forall>j. bit (io_pending_mask (sys_io s')) j \<longleftrightarrow> bit (io_pending_mask (sys_io s)) j \<and> \<not> (j < n \<and> bit todo j)) \<and>
    sys_state s' = sys_state s \<and> io_output_table (sys_io s') = tab \<and>
    io_local_mask (sys_io s') = io_local_mask (sys_io s)"
proof (induction n)
  case 0
  then show ?case by simp
next
  case (Suc n)
  let ?s = "fold (apply_output P is_local todo) [0..<n] s"
  have step: "fold (apply_output P is_local todo) [0..<Suc n] s = apply_output P is_local todo n ?s" by simp
  show ?case
  proof (cases "bit todo n")
    case False
    then have "apply_output P is_local todo n ?s = ?s" by (simp add: apply_output_def Let_def)
    with Suc False show ?thesis unfolding step by (auto simp: Let_def less_Suc_eq)
  next
    case True
    have "bit (io_pending_mask (sys_io ?s) AND NOT (2 ^ n)) j \<longleftrightarrow> bit (io_pending_mask (sys_io s)) j \<and> \<not> (j < Suc n \<and> bit todo j)" for j
      using Suc True by (auto simp: Let_def bit_andnot_push less_Suc_eq)
    with Suc True show ?thesis unfolding step Let_def apply_output_due [OF True] by simp
  qed
qed

section \<open>Well-formedness\<close>

text \<open>
  The plant is well formed: the store has its 256 cells, the bus and the image satisfy their
  invariants, the process variables and their history are in range.
\<close>

definition plant_ok :: "'w plant \<Rightarrow> bool" where
  "plant_ok pl \<longleftrightarrow> system_ok (pl_sys pl) \<and> io_image_ok (pl_image pl) \<and>
     pve_ok ((pl_pve pl)\<lparr>pve_bus := sys_bus (pl_sys pl), pve_world := sys_world (pl_sys pl)\<rparr>)"

lemma pve_ok_frame: "pve_ok (p\<lparr>pve_bus := b, pve_world := w\<rparr>) \<longleftrightarrow> pve_ok (p\<lparr>pve_bus := empty_bus\<rparr>) \<and> event_bus_inv b"
  by (auto simp: pve_ok_def empty_bus_inv)

lemma plant_ok_parts:
  "plant_ok pl \<longleftrightarrow> system_ok (pl_sys pl) \<and> io_image_ok (pl_image pl) \<and> pve_ok ((pl_pve pl)\<lparr>pve_bus := empty_bus\<rparr>)"
  by (auto simp: plant_ok_def pve_ok_frame system_ok_def)

lemma plant_ok_set:
  assumes "plant_ok pl"
  shows "plant_ok (set_channel i ch pl)" "plant_ok (set_world w pl)" "plant_ok (set_image_input sid v pl)"
    "plant_ok (write_state P sid v pl)" "plant_ok (pl\<lparr>pl_sys := http_server_notify_state_change (pl_sys pl)\<rparr>)"
    "plant_ok (pl\<lparr>pl_sys := (pl_sys pl)\<lparr>sys_io := io\<rparr>\<rparr>)"
  using assms set_int_ok [of "pl_sys pl" P sid v] io_image_ops_ok [of "pl_image pl"]
  by (simp_all add: plant_ok_parts set_channel_def set_world_def set_image_input_def write_state_def
      system_ok_def http_server_notify_state_change_def)

lemma pve_update_ok:
  assumes "pve_ok p" "i < MAX_PVE_VARIABLES"
  shows "pve_ok (pve_update P i raw p)"
proof (cases "alarm_after (pve_variables p ! i) raw = rt_alarm_state (pv_runtime (pve_variables p ! i))")
  case True
  from sampled_ok [OF assms, of raw] show ?thesis unfolding update_quiet [OF True] .
next
  case False
  from update_alarm [OF assms False, of P] show ?thesis by (simp add: Let_def)
qed

lemma feed_analog_ok:
  assumes "plant_ok pl"
  shows "plant_ok (feed_analog P gpio raw pl)"
proof -
  have "plant_ok (feed_pve P k raw pl)" if "k < MAX_PVE_VARIABLES" for k
  proof -
    let ?p = "(pl_pve pl)\<lparr>pve_bus := sys_bus (pl_sys pl), pve_world := sys_world (pl_sys pl)\<rparr>"
    have "pve_ok ?p" using assms by (simp add: plant_ok_def)
    then have "pve_ok (pve_update P k raw ?p)" using that by (rule pve_update_ok)
    moreover from this have "event_bus_inv (pve_bus (pve_update P k raw ?p))" by (simp add: pve_ok_def)
    ultimately show ?thesis using assms by (simp add: plant_ok_def feed_pve_def system_ok_def Let_def)
  qed
  then show ?thesis using assms by (simp add: feed_analog_def MAX_PVE_VARIABLES_def)
qed

lemma scan_input_ok:
  assumes "plant_ok pl"
  shows "plant_ok (scan_input P i pl)"
  unfolding scan_input_def scan_digital_def scan_analog_def Let_def
  using assms by (auto intro!: plant_ok_set feed_analog_ok split: prod.split)

lemma update_effects:
  assumes "n = length (io_output_table (sys_io s))" "n \<le> IO_DRIVER_MAX_OUTPUTS"
  shows "let s' = io_driver_update P is_local s; io = sys_io s in
    sys_world s' = fold (drive P is_local (sys_state s))
      (map ((!) (io_output_table io)) (filter (output_due is_local io) [0..<n])) (sys_world s) \<and>
    (\<forall>i < n. (bit (io_local_mask (sys_io s')) i \<longleftrightarrow> is_local (oc_id (io_output_table io ! i))) \<and>
       \<not> bit (io_pending_mask (sys_io s')) i) \<and>
    sys_state s' = sys_state s \<and> io_output_table (sys_io s') = io_output_table io"
proof (cases "n = 0")
  case True
  with assms(1) show ?thesis by (simp add: io_driver_update_def)
next
  case False
  obtain todo io' where f: "fold (sync_owner is_local) [0..<n] (io_pending_mask (sys_io s), sys_io s) = (todo, io')"
    by (cases "fold (sync_owner is_local) [0..<n] (io_pending_mask (sys_io s), sys_io s)")
  have "n \<le> 32" using assms(2) by (simp add: IO_DRIVER_MAX_OUTPUTS_def)
  note sync = sync_owner_fold [OF this f]
  have due: "filter (bit todo) [0..<n] = filter (output_due is_local (sys_io s)) [0..<n]"
    using sync by (intro filter_cong) (auto simp: output_due_def)
  let ?s = "s\<lparr>sys_io := io'\<rparr>"
  have upd: "io_driver_update P is_local s = (if todo = 0 then ?s else fold (apply_output P is_local todo) [0..<n] ?s)"
    using False assms(1) f by (simp add: io_driver_update_def)
  have zero: "fold (apply_output P is_local todo) [0..<n] ?s = ?s" if "todo = 0"
  proof -
    have "apply_output P is_local 0 i = id" for i by (simp add: apply_output_def fun_eq_iff Let_def)
    then show ?thesis using that by (induction n) simp_all
  qed
  have "io_driver_update P is_local s = fold (apply_output P is_local todo) [0..<n] ?s"
    unfolding upd using zero by simp
  then show ?thesis
    using apply_output_fold [where P = P and is_local = is_local and todo = todo and n = n and s = ?s] sync due
    by (auto simp: Let_def)
qed

section \<open>Properties\<close>

text \<open>
  C37: the debounced input is the value of the most recent run of \<open>n\<close> equal samples, where \<open>n\<close> is
  the configured number of samples and the channel starts settled on \<open>v\<close>: a disturbance shorter
  than \<open>n\<close> samples is never seen. A sample is published exactly when that value changes.
\<close>

theorem input_debounce_reference:
  assumes "settled_input n v ch"
  shows "ic_stable_value (samples ch xs) = latest_run n (rev xs @ replicate n v) \<and>
    (fst (debounce x (samples ch xs)) \<longleftrightarrow>
      latest_run n (rev (xs @ [x]) @ replicate n v) \<noteq> latest_run n (rev xs @ replicate n v))"
proof -
  note inv = samples_inv [OF assms, of xs]
  have "0 < n" using assms by (simp add: settled_input_def)
  from debounce_step [OF inv this, of x] inv show ?thesis by (simp add: debounce_inv_def)
qed

text \<open>Seven high samples are not enough for a setting of eight, the eighth switches.\<close>

theorem input_debounce_reference_witness:
  "ic_stable_value (samples demo_input (replicate 7 1)) = 0 \<and> fst (debounce 1 (samples demo_input (replicate 7 1)))"
proof -
  have "settled_input 8 0 demo_input" by (simp add: settled_input_def demo_input_def)
  moreover have "latest_run 8 (rev (replicate 7 (1 :: u8)) @ replicate 8 0) = 0"
      "latest_run 8 (rev (replicate 7 (1 :: u8) @ [1]) @ replicate 8 0) = 1"
    by (simp_all add: eval_nat_numeral)
  ultimately show ?thesis using input_debounce_reference [of 8 0 demo_input "replicate 7 1" 1] by simp
qed

text \<open>
  An update of the outputs writes, in table order, exactly the channels whose state has
  changed since the last update or whose owner has changed: a local output follows its state
  (inverted for an active-low channel), an output owned by another node is switched off, a
  channel without a pin is skipped. Afterwards the recorded owners are the actual ones and no
  write is pending; the state is not changed.
\<close>

theorem io_driver_update_drives_outputs:
  assumes "n = length (io_output_table (sys_io s))" "n \<le> IO_DRIVER_MAX_OUTPUTS"
  shows "let s' = io_driver_update P is_local s; io = sys_io s in
    sys_world s' = fold (drive P is_local (sys_state s))
      (map ((!) (io_output_table io)) (filter (output_due is_local io) [0..<n])) (sys_world s) \<and>
    (\<forall>i < n. (bit (io_local_mask (sys_io s')) i \<longleftrightarrow> is_local (oc_id (io_output_table io ! i))) \<and>
       \<not> bit (io_pending_mask (sys_io s')) i) \<and>
    sys_state s' = sys_state s \<and> io_output_table (sys_io s') = io_output_table io"
  by (rule update_effects [OF assms])

text \<open>Switching the output on after boot drives its pin high.\<close>

theorem io_driver_update_drives_outputs_witness:
  "sim_gpio (sys_world (io_driver_update sim_platform (\<lambda>_. True) (snd (state_set_int sim_platform 100 1 boot_system)))) 26 = 1"
proof -
  let ?s = "snd (state_set_int sim_platform 100 1 boot_system)"
  have valid: "state_valid_id 100" by (simp add: state_valid_id_def STATE_MAX_ENTRIES_def)
  have st: "state_get_int (sys_state ?s) 100 = Some 1" using set_int_get [OF boot_system_ok] valid by simp
  have io: "sys_io ?s = (sys_io boot_system)\<lparr>io_pending_mask := 1\<rparr>"
    using valid by (simp add: state_set_int_def Let_def state_output_changed_def http_server_notify_state_change_def
        snapshot_mark_dirty_def timer_ms_def boot_system_def state_init_def STATE_MAX_ENTRIES_def sim_simps)
  have tab: "io_output_table (sys_io ?s) = [\<lparr>oc_id = 100, oc_gpio = 26, oc_active_low = False\<rparr>]"
    unfolding io by (simp add: boot_system_def)
  have due: "output_due (\<lambda>_. True) (sys_io ?s) 0" unfolding io by (simp add: output_due_def)
  show ?thesis
    using io_driver_update_drives_outputs [of 1 ?s sim_platform "\<lambda>_. True"] tab due st
    by (simp add: IO_DRIVER_MAX_OUTPUTS_def Let_def drive_def drive_level_def GPIO_NUM_NC_def io_driver_output_gpio_level_def)
qed


definition demo_plant :: "sim_world plant" where
  "demo_plant = \<lparr>pl_sys = boot_system, pl_image = io_image_init, pl_pve = demo_pve\<rparr>"

lemma demo_plant_ok: "plant_ok demo_plant"
proof -
  have "pve_ok (demo_pve\<lparr>pve_bus := empty_bus\<rparr>)" using demo_pve_ok by (simp add: pve_ok_def empty_bus_inv)
  then show ?thesis by (simp add: plant_ok_parts demo_plant_def boot_system_ok io_image_init_ok)
qed


end
