(* ===== verification/Cluster_Manager.thy ===== *)
theory Cluster_Manager
  imports Platform
begin

text \<open>
  Cluster membership (\<open>cluster/cluster_manager.c\<close>, \<open>cluster/cluster_events.c\<close>): a table of ten
  nodes fed by heartbeats, the liveness of a node by the age of its last heartbeat, and the
  election of the master as the least node that is online. A slot is free when its node id is 0.
  Critical sections make each operation atomic. An operation returns the events it publishes, in
  order; the publication itself is \<open>cluster_publish_event\<close>, where a handler is a number that the
  parameter \<open>call\<close> interprets.
\<close>

section \<open>Model\<close>

definition MAX_NODES :: nat where "MAX_NODES = 10"
definition HEARTBEAT_TIMEOUT_MS :: u32 where "HEARTBEAT_TIMEOUT_MS = 3000"
definition SUSPECT_TIMEOUT_MS :: u32 where "SUSPECT_TIMEOUT_MS = 6000"
definition CLUSTER_MANAGER_TICK_MS :: u32 where "CLUSTER_MANAGER_TICK_MS = 1000"
definition CLUSTER_MANAGER_MAX_PENDING_EVENTS :: nat where "CLUSTER_MANAGER_MAX_PENDING_EVENTS = MAX_NODES"
definition MAX_SUBSCRIBERS :: nat where "MAX_SUBSCRIBERS = 8"

datatype cluster_node_state_t = CLUSTER_NODE_ONLINE | CLUSTER_NODE_SUSPECT | CLUSTER_NODE_OFFLINE

record cluster_node_t =
  cn_node_id :: u32
  cn_last_seen_ms :: u32
  cn_rssi :: u8
  cn_state :: cluster_node_state_t

datatype cluster_event_type_t =
  EVENT_NODE_ONLINE | EVENT_NODE_SUSPECT | EVENT_NODE_OFFLINE | EVENT_NODE_DISCOVERED
  | EVENT_NODE_REBOOTED | EVENT_NODE_CONFIGURED | EVENT_NODE_PROFILE_CHANGED

record cluster_event_t =
  ce_node_id :: u32
  ce_type :: cluster_event_type_t

record 'w cluster =
  cl_nodes :: "cluster_node_t list"
  cl_started :: bool
  cl_self_node_id :: u32
  cl_last_run_ms :: u32
  cl_world :: 'w

subsection \<open>Events\<close>

definition cluster_events_subscribe :: "nat \<Rightarrow> nat option list \<Rightarrow> nat option list" where
  "cluster_events_subscribe h subs =
     (case find_index (\<lambda>x. x = None) subs of None \<Rightarrow> subs | Some i \<Rightarrow> subs[i := Some h])"

definition cluster_publish_event ::
  "(nat \<Rightarrow> cluster_event_t \<Rightarrow> 's \<Rightarrow> 's) \<Rightarrow> nat option list \<Rightarrow> cluster_event_t \<Rightarrow> 's \<Rightarrow> 's" where
  "cluster_publish_event call subs evt s =
     fold (\<lambda>sub s. case sub of None \<Rightarrow> s | Some h \<Rightarrow> call h evt s) subs s"

definition cluster_manager_publish_events ::
  "(nat \<Rightarrow> cluster_event_t \<Rightarrow> 's \<Rightarrow> 's) \<Rightarrow> nat option list \<Rightarrow> cluster_event_t list \<Rightarrow> 's \<Rightarrow> 's" where
  "cluster_manager_publish_events call subs evts s = fold (cluster_publish_event call subs) evts s"

subsection \<open>Nodes\<close>

definition cm_now_ms :: "'w platform \<Rightarrow> 'w cluster \<Rightarrow> u32 \<times> 'w cluster" where
  "cm_now_ms P c = (case esp_timer_get_time P (cl_world c) of (t, w) \<Rightarrow> (ucast (t div 1000), c\<lparr>cl_world := w\<rparr>))"

definition cluster_manager_state_from_age :: "u32 \<Rightarrow> cluster_node_state_t" where
  "cluster_manager_state_from_age age_ms =
     (if age_ms > SUSPECT_TIMEOUT_MS then CLUSTER_NODE_OFFLINE
      else if age_ms > HEARTBEAT_TIMEOUT_MS then CLUSTER_NODE_SUSPECT
      else CLUSTER_NODE_ONLINE)"

definition zero_node :: cluster_node_t where
  "zero_node = \<lparr>cn_node_id = 0, cn_last_seen_ms = 0, cn_rssi = 0, cn_state = CLUSTER_NODE_ONLINE\<rparr>"

definition find_node :: "u32 \<Rightarrow> cluster_node_t list \<Rightarrow> nat option" where
  "find_node node_id nodes = find_index (\<lambda>n. cn_node_id n = node_id) nodes"

definition allocate_node :: "cluster_node_t list \<Rightarrow> nat option" where
  "allocate_node nodes = find_index (\<lambda>n. cn_node_id n = 0) nodes"

definition get_or_create_node :: "u32 \<Rightarrow> cluster_node_t list \<Rightarrow> nat option \<times> cluster_node_t list" where
  "get_or_create_node node_id nodes =
     (case find_node node_id nodes of
        Some i \<Rightarrow> (Some i, nodes)
      | None \<Rightarrow>
        (case allocate_node nodes of
           None \<Rightarrow> (None, nodes)
         | Some i \<Rightarrow> (Some i, nodes[i := zero_node\<lparr>cn_node_id := node_id, cn_state := CLUSTER_NODE_OFFLINE\<rparr>])))"

definition elect_step :: "cluster_node_t \<Rightarrow> u32 \<Rightarrow> u32" where
  "elect_step n m =
     (if cn_node_id n = 0 then m
      else if cn_state n \<noteq> CLUSTER_NODE_ONLINE then m
      else if m = 0 \<or> cn_node_id n < m then cn_node_id n
      else m)"

definition cluster_manager_get_master_from_snapshot :: "cluster_node_t list \<Rightarrow> u32" where
  "cluster_manager_get_master_from_snapshot snapshot = fold elect_step snapshot 0"

definition cluster_get_master_node :: "'w cluster \<Rightarrow> u32" where
  "cluster_get_master_node c = cluster_manager_get_master_from_snapshot (cl_nodes c)"

text \<open>One node of the refresh; the events so far are threaded.\<close>

definition state_event :: "cluster_node_state_t \<Rightarrow> cluster_event_type_t" where
  "state_event st =
     (if st = CLUSTER_NODE_ONLINE then EVENT_NODE_ONLINE
      else if st = CLUSTER_NODE_SUSPECT then EVENT_NODE_SUSPECT else EVENT_NODE_OFFLINE)"

definition refresh_node ::
  "u32 \<Rightarrow> u32 \<Rightarrow> nat \<Rightarrow> cluster_node_t \<Rightarrow> cluster_event_t list \<Rightarrow> cluster_node_t \<times> cluster_event_t list" where
  "refresh_node self_node_id now max_events node evts =
     (if cn_node_id node = 0 \<or> cn_last_seen_ms node = 0 then (node, evts)
      else if cn_node_id node = self_node_id
      then (node\<lparr>cn_last_seen_ms := now, cn_state := CLUSTER_NODE_ONLINE\<rparr>, evts)
      else let st = cluster_manager_state_from_age (now - cn_last_seen_ms node) in
        (node\<lparr>cn_state := st\<rparr>,
         if cn_state node \<noteq> st \<and> length evts < max_events
         then evts @ [\<lparr>ce_node_id = cn_node_id node, ce_type = state_event st\<rparr>] else evts))"

fun refresh_nodes ::
  "u32 \<Rightarrow> u32 \<Rightarrow> nat \<Rightarrow> cluster_node_t list \<Rightarrow> cluster_event_t list \<Rightarrow> cluster_node_t list \<times> cluster_event_t list" where
  "refresh_nodes self_node_id now max_events [] evts = ([], evts)"
| "refresh_nodes self_node_id now max_events (n # ns) evts =
     (case refresh_node self_node_id now max_events n evts of (n', evts) \<Rightarrow>
      case refresh_nodes self_node_id now max_events ns evts of (ns', evts) \<Rightarrow> (n' # ns', evts))"

definition cluster_manager_refresh_nodes_locked ::
  "'w platform \<Rightarrow> nat \<Rightarrow> 'w cluster \<Rightarrow> cluster_event_t list \<times> 'w cluster" where
  "cluster_manager_refresh_nodes_locked P max_events c =
     (case cm_now_ms P c of (now, c) \<Rightarrow>
      case refresh_nodes (cl_self_node_id c) now max_events (cl_nodes c) [] of (ns, evts) \<Rightarrow>
      (evts, c\<lparr>cl_nodes := ns\<rparr>))"

subsection \<open>Operations\<close>

text \<open>A heartbeat is given by its node id, the only field that is used.\<close>

definition cluster_manager_update_node :: "'w platform \<Rightarrow> u32 \<Rightarrow> 'w cluster \<Rightarrow> cluster_event_t list \<times> 'w cluster" where
  "cluster_manager_update_node P hb_id c =
     (case get_or_create_node hb_id (cl_nodes c) of
        (None, _) \<Rightarrow> ([], c)
      | (Some i, ns) \<Rightarrow>
        let node = ns ! i;
            old_state = cn_state node;
            known_before = (cn_last_seen_ms node \<noteq> 0);
            log_new_node = (old_state = CLUSTER_NODE_OFFLINE \<and> \<not> known_before)
        in case cm_now_ms P c of (now, c) \<Rightarrow>
          ((if hb_id \<noteq> cl_self_node_id c \<and> old_state \<noteq> CLUSTER_NODE_ONLINE
            then [\<lparr>ce_node_id = hb_id, ce_type = EVENT_NODE_ONLINE\<rparr>] else []) @
           (if log_new_node then [\<lparr>ce_node_id = hb_id, ce_type = EVENT_NODE_DISCOVERED\<rparr>] else []),
           c\<lparr>cl_nodes := ns[i := node\<lparr>cn_last_seen_ms := now, cn_state := CLUSTER_NODE_ONLINE\<rparr>]\<rparr>))"

definition cluster_manager_remove_node :: "u32 \<Rightarrow> 'w cluster \<Rightarrow> 'w cluster" where
  "cluster_manager_remove_node node_id c =
     (case find_node node_id (cl_nodes c) of
        None \<Rightarrow> c
      | Some i \<Rightarrow>
        if cn_node_id (cl_nodes c ! i) \<noteq> 0 \<and> cn_node_id (cl_nodes c ! i) \<noteq> cl_self_node_id c
        then c\<lparr>cl_nodes := (cl_nodes c)[i := zero_node]\<rparr> else c)"

definition cluster_manager_start :: "'w platform \<Rightarrow> u32 \<Rightarrow> 'w cluster \<Rightarrow> 'w cluster" where
  "cluster_manager_start P self_id c =
     (if cl_started c then c
      else let c = c\<lparr>cl_self_node_id := self_id\<rparr> in
        case get_or_create_node self_id (replicate MAX_NODES zero_node) of
          (None, ns) \<Rightarrow> c\<lparr>cl_nodes := ns, cl_started := True, cl_last_run_ms := 0\<rparr>
        | (Some i, ns) \<Rightarrow>
          (case cm_now_ms P c of (now, c) \<Rightarrow>
             c\<lparr>cl_nodes := ns[i := (ns ! i)\<lparr>cn_last_seen_ms := now, cn_state := CLUSTER_NODE_ONLINE\<rparr>],
               cl_started := True, cl_last_run_ms := 0\<rparr>))"

definition cluster_manager_process :: "'w platform \<Rightarrow> 'w cluster \<Rightarrow> cluster_event_t list \<times> 'w cluster" where
  "cluster_manager_process P c =
     (if \<not> cl_started c then ([], c)
      else case cm_now_ms P c of (now, c) \<Rightarrow>
        if cl_last_run_ms c \<noteq> 0 \<and> now - cl_last_run_ms c < CLUSTER_MANAGER_TICK_MS then ([], c)
        else cluster_manager_refresh_nodes_locked P CLUSTER_MANAGER_MAX_PENDING_EVENTS (c\<lparr>cl_last_run_ms := now\<rparr>))"

record cluster_metrics_t =
  mt_active :: u32
  mt_total_nodes :: u32
  mt_online :: u32
  mt_suspect :: u32
  mt_offline :: u32
  mt_avg_health :: u32
  mt_self_node :: u32
  mt_master_node :: u32

definition cluster_get_metrics :: "'w cluster \<Rightarrow> cluster_metrics_t" where
  "cluster_get_metrics c =
     (let used = filter (\<lambda>n. cn_node_id n \<noteq> 0) (cl_nodes c);
          count = (\<lambda>st. of_nat (length (filter (\<lambda>n. cn_state n = st) used)));
          total = of_nat (length used)
      in \<lparr>mt_active = (if cl_started c then 1 else 0), mt_total_nodes = total,
          mt_online = count CLUSTER_NODE_ONLINE, mt_suspect = count CLUSTER_NODE_SUSPECT,
          mt_offline = count CLUSTER_NODE_OFFLINE,
          mt_avg_health = (if total > 0 then (100 * total) div total else 0),
          mt_self_node = cl_self_node_id c, mt_master_node = cluster_get_master_node c\<rparr>)"

text \<open>The nodes written to the buffer; nothing for a null pointer or a size that is not positive.\<close>

definition cluster_manager_export_nodes :: "bool \<Rightarrow> int \<Rightarrow> 'w cluster \<Rightarrow> cluster_node_t list" where
  "cluster_manager_export_nodes out_nodes max_nodes c =
     (if \<not> out_nodes \<or> max_nodes \<le> 0 then []
      else take (nat max_nodes) (filter (\<lambda>n. cn_node_id n \<noteq> 0) (cl_nodes c)))"

section \<open>Election\<close>

definition online_ids :: "cluster_node_t list \<Rightarrow> u32 set" where
  "online_ids ns = {cn_node_id n | n. n \<in> set ns \<and> cn_node_id n \<noteq> 0 \<and> cn_state n = CLUSTER_NODE_ONLINE}"

lemma online_ids_Cons:
  "online_ids (n # ns) = (if cn_node_id n \<noteq> 0 \<and> cn_state n = CLUSTER_NODE_ONLINE then insert (cn_node_id n) (online_ids ns)
     else online_ids ns)"
  by (auto simp: online_ids_def)

lemma finite_online_ids [simp]: "finite (online_ids ns)"
  by (rule finite_subset [of _ "cn_node_id ` set ns"]) (auto simp: online_ids_def)

lemma elect_step_fold:
  "fold elect_step ns m = (if m = 0 then (if online_ids ns = {} then 0 else Min (online_ids ns))
     else Min (insert m (online_ids ns)))"
proof (induction ns arbitrary: m)
  case Nil
  then show ?case by (simp add: online_ids_def)
next
  case (Cons n ns)
  show ?case
  proof (cases "cn_node_id n \<noteq> 0 \<and> cn_state n = CLUSTER_NODE_ONLINE")
    case False
    then show ?thesis using Cons by (auto simp: elect_step_def online_ids_Cons)
  next
    case True
    have comb: "Min (insert a (insert b A)) = Min (insert (min a b) A)" if "finite A" for a b :: u32 and A
      using that by (cases "A = {}") (simp_all add: min.assoc)
    have "elect_step n m = (if m = 0 then cn_node_id n else min m (cn_node_id n))"
      using True by (auto simp: elect_step_def min_def)
    moreover have "min m (cn_node_id n) \<noteq> 0" if "m \<noteq> 0" using True that by (simp add: min_def)
    ultimately show ?thesis using Cons True comb [of "online_ids ns" m "cn_node_id n"]
      by (simp add: online_ids_Cons)
  qed
qed

section \<open>Invariant\<close>

abbreviation used_node :: "cluster_node_t \<Rightarrow> bool" where
  "used_node n \<equiv> cn_node_id n \<noteq> 0"

definition nodes_ok :: "cluster_node_t list \<Rightarrow> bool" where
  "nodes_ok ns \<longleftrightarrow> length ns = MAX_NODES \<and> keys_distinct used_node cn_node_id ns"

definition cluster_inv :: "'w cluster \<Rightarrow> bool" where
  "cluster_inv c \<longleftrightarrow> nodes_ok (cl_nodes c) \<and> cl_self_node_id c \<noteq> 0 \<and> cl_self_node_id c \<in> online_ids (cl_nodes c)"

lemma online_ids_nth:
  "x \<in> online_ids ns \<longleftrightarrow> (\<exists>i < length ns. cn_node_id (ns ! i) = x \<and> x \<noteq> 0 \<and> cn_state (ns ! i) = CLUSTER_NODE_ONLINE)"
  by (auto simp: online_ids_def in_set_conv_nth)

lemma get_or_create_ok:
  assumes "nodes_ok ns" "get_or_create_node nid ns = (Some i, ns')"
  shows "nodes_ok ns' \<and> i < length ns' \<and> cn_node_id (ns' ! i) = nid \<and>
    (\<forall>j < length ns. j \<noteq> i \<longrightarrow> ns' ! j = ns ! j) \<and> (cn_node_id (ns ! i) = nid \<or> cn_node_id (ns ! i) = 0)"
proof (cases "find_node nid ns")
  case (Some k)
  with assms show ?thesis by (auto simp: get_or_create_node_def find_node_def dest: find_index_SomeD)
next
  case None
  then obtain k where k: "allocate_node ns = Some k" "i = k"
      "ns' = ns[k := zero_node\<lparr>cn_node_id := nid, cn_state := CLUSTER_NODE_OFFLINE\<rparr>]"
    using assms(2) by (auto simp: get_or_create_node_def split: option.splits)
  have idx: "k < length ns" "cn_node_id (ns ! k) = 0"
    using k(1) by (auto simp: allocate_node_def dest: find_index_SomeD)
  have "cn_node_id (ns ! j) \<noteq> nid" if "j < length ns" for j
    using None that by (auto simp: find_node_def find_index_None)
  then have "nodes_ok ns'" using assms(1) idx unfolding k(3) nodes_ok_def
    by (auto intro!: keys_distinct_update)
  with idx show ?thesis unfolding k(2,3) by simp
qed

lemma nodes_ok_update:
  assumes "nodes_ok ns" "i < length ns" "cn_node_id n = cn_node_id (ns ! i) \<or> cn_node_id n = 0"
  shows "nodes_ok (ns[i := n])"
proof -
  have "keys_distinct used_node cn_node_id (ns[i := n])"
    using assms by (intro keys_distinct_update) (auto simp: nodes_ok_def dest: keys_distinctD)
  with assms(1) show ?thesis by (simp add: nodes_ok_def)
qed

lemma cm_now_fields [simp]:
  "cl_nodes (snd (cm_now_ms P c)) = cl_nodes c" "cl_self_node_id (snd (cm_now_ms P c)) = cl_self_node_id c"
  "cl_started (snd (cm_now_ms P c)) = cl_started c" "cl_last_run_ms (snd (cm_now_ms P c)) = cl_last_run_ms c"
  by (simp_all add: cm_now_ms_def case_prod_unfold)

lemma update_node_inv:
  assumes "cluster_inv c"
  shows "cluster_inv (snd (cluster_manager_update_node P hb_id c))"
proof (cases "fst (get_or_create_node hb_id (cl_nodes c))")
  case None
  then show ?thesis using assms by (simp add: cluster_manager_update_node_def case_prod_unfold)
next
  case (Some i)
  obtain ns where g: "get_or_create_node hb_id (cl_nodes c) = (Some i, ns)" using Some by (metis prod.collapse)
  have ok: "nodes_ok (cl_nodes c)" using assms by (simp add: cluster_inv_def)
  note new = get_or_create_ok [OF ok g]
  let ?n = "(ns ! i)\<lparr>cn_last_seen_ms := fst (cm_now_ms P c), cn_state := CLUSTER_NODE_ONLINE\<rparr>"
  have c': "cl_nodes (snd (cluster_manager_update_node P hb_id c)) = ns[i := ?n]"
      "cl_self_node_id (snd (cluster_manager_update_node P hb_id c)) = cl_self_node_id c"
    by (simp_all add: cluster_manager_update_node_def g case_prod_unfold Let_def)
  have len: "length ns = length (cl_nodes c)" using new ok by (simp add: nodes_ok_def)
  obtain k where k: "k < length (cl_nodes c)" "cn_node_id (cl_nodes c ! k) = cl_self_node_id c"
      "cn_state (cl_nodes c ! k) = CLUSTER_NODE_ONLINE" "cl_self_node_id c \<noteq> 0"
    using assms by (auto simp: cluster_inv_def online_ids_nth)
  have self: "cn_node_id ((ns[i := ?n]) ! k) = cl_self_node_id c \<and> cn_state ((ns[i := ?n]) ! k) = CLUSTER_NODE_ONLINE"
    using k new len by (cases "k = i") auto
  have "cl_self_node_id c \<in> online_ids (ns[i := ?n])"
    unfolding online_ids_nth using k(1,4) self len by auto
  moreover have "nodes_ok (ns[i := ?n])" using new by (intro nodes_ok_update) auto
  ultimately show ?thesis using k(4) unfolding cluster_inv_def c' by simp
qed

lemma remove_node_inv: "cluster_inv c \<Longrightarrow> cluster_inv (cluster_manager_remove_node nid c)"
proof -
  assume inv: "cluster_inv c"
  show ?thesis
  proof (cases "find_node nid (cl_nodes c)")
    case None
    with inv show ?thesis by (simp add: cluster_manager_remove_node_def)
  next
    case (Some i)
    then have i: "i < length (cl_nodes c)" by (auto simp: find_node_def dest: find_index_SomeD)
    have ok: "nodes_ok ((cl_nodes c)[i := zero_node])"
      using inv i by (intro nodes_ok_update) (auto simp: cluster_inv_def zero_node_def)
    have "cl_self_node_id c \<in> online_ids ((cl_nodes c)[i := zero_node])" if "cn_node_id (cl_nodes c ! i) \<noteq> cl_self_node_id c"
      using inv that unfolding cluster_inv_def online_ids_nth by (metis length_list_update nth_list_update_neq)
    with inv ok Some show ?thesis by (simp add: cluster_manager_remove_node_def cluster_inv_def)
  qed
qed

section \<open>Refresh\<close>

text \<open>A node after a refresh at time \<open>now\<close>, and whether its state changed.\<close>

definition refreshed :: "u32 \<Rightarrow> u32 \<Rightarrow> cluster_node_t \<Rightarrow> cluster_node_t" where
  "refreshed self now n =
     (if cn_node_id n = 0 \<or> cn_last_seen_ms n = 0 then n
      else if cn_node_id n = self then n\<lparr>cn_last_seen_ms := now, cn_state := CLUSTER_NODE_ONLINE\<rparr>
      else n\<lparr>cn_state := cluster_manager_state_from_age (now - cn_last_seen_ms n)\<rparr>)"

definition state_changed :: "u32 \<Rightarrow> u32 \<Rightarrow> cluster_node_t \<Rightarrow> bool" where
  "state_changed self now n \<longleftrightarrow> cn_node_id n \<noteq> self \<and> cn_state (refreshed self now n) \<noteq> cn_state n"

definition change_event :: "u32 \<Rightarrow> u32 \<Rightarrow> cluster_node_t \<Rightarrow> cluster_event_t" where
  "change_event self now n = \<lparr>ce_node_id = cn_node_id n, ce_type = state_event (cn_state (refreshed self now n))\<rparr>"

lemma refresh_nodes_eq:
  "length evts + length ns \<le> limit \<Longrightarrow> refresh_nodes self now limit ns evts =
     (map (refreshed self now) ns, evts @ map (change_event self now) (filter (state_changed self now) ns))"
proof (induction ns arbitrary: evts)
  case (Cons n ns)
  have "refresh_node self now limit n evts =
      (refreshed self now n, evts @ (if state_changed self now n then [change_event self now n] else []))"
    using Cons.prems by (auto simp: refresh_node_def refreshed_def state_changed_def change_event_def Let_def)
  then show ?case using Cons.IH [of "evts @ (if state_changed self now n then [change_event self now n] else [])"] Cons.prems
    by (simp split: prod.split)
qed simp

lemma refreshed_inv:
  assumes "nodes_ok ns" "self \<in> online_ids ns"
  shows "nodes_ok (map (refreshed self now) ns) \<and> self \<in> online_ids (map (refreshed self now) ns)"
proof -
  have "cn_node_id (refreshed self now n) = cn_node_id n" for n by (simp add: refreshed_def)
  then have "keys_distinct used_node cn_node_id (map (refreshed self now) ns)"
    using assms(1) by (intro keys_distinct_map) (auto simp: nodes_ok_def)
  moreover have "self \<in> online_ids (map (refreshed self now) ns)"
    using assms(2) by (force simp: online_ids_nth refreshed_def)
  ultimately show ?thesis using assms(1) by (simp add: nodes_ok_def)
qed

lemma process_inv:
  assumes "cluster_inv c"
  shows "cluster_inv (snd (cluster_manager_process P c))"
proof -
  have len: "length (cl_nodes c) \<le> CLUSTER_MANAGER_MAX_PENDING_EVENTS"
    using assms by (simp add: cluster_inv_def nodes_ok_def CLUSTER_MANAGER_MAX_PENDING_EVENTS_def)
  have "cluster_inv (snd (cluster_manager_refresh_nodes_locked P CLUSTER_MANAGER_MAX_PENDING_EVENTS d))"
    if "cl_nodes d = cl_nodes c" "cl_self_node_id d = cl_self_node_id c" for d
    using assms len that refreshed_inv [of "cl_nodes c" "cl_self_node_id c"]
    by (simp add: cluster_manager_refresh_nodes_locked_def case_prod_unfold cluster_inv_def refresh_nodes_eq)
  then show ?thesis using assms
    by (simp add: cluster_manager_process_def case_prod_unfold cluster_inv_def)
qed

lemma start_inv:
  assumes "\<not> cl_started c" "self_id \<noteq> 0"
  shows "cluster_inv (cluster_manager_start P self_id c)"
proof -
  have "find_node self_id (replicate MAX_NODES zero_node) = None" "allocate_node (replicate MAX_NODES zero_node) = Some 0"
    using assms(2) by (auto simp: find_node_def allocate_node_def find_index_None find_index_Some MAX_NODES_def zero_node_def)
  then have g: "get_or_create_node self_id (replicate MAX_NODES zero_node) =
      (Some 0, (replicate MAX_NODES zero_node)[0 := zero_node\<lparr>cn_node_id := self_id, cn_state := CLUSTER_NODE_OFFLINE\<rparr>])"
    by (simp add: get_or_create_node_def)
  have ok: "nodes_ok (replicate MAX_NODES zero_node)"
    by (simp add: nodes_ok_def keys_distinct_replicate zero_node_def)
  note new = get_or_create_ok [OF ok g]
  let ?ns = "(replicate MAX_NODES zero_node)[0 := zero_node\<lparr>cn_node_id := self_id, cn_state := CLUSTER_NODE_OFFLINE\<rparr>]"
  let ?n = "(?ns ! 0)\<lparr>cn_last_seen_ms := fst (cm_now_ms P (c\<lparr>cl_self_node_id := self_id\<rparr>)), cn_state := CLUSTER_NODE_ONLINE\<rparr>"
  have ok': "nodes_ok ?ns" using new by blast
  have "nodes_ok (?ns[0 := ?n])" by (rule nodes_ok_update [OF ok']) (simp_all add: MAX_NODES_def)
  moreover have "self_id \<in> online_ids (?ns[0 := ?n])"
    unfolding online_ids_nth using assms(2) by (intro exI [of _ 0]) (simp add: MAX_NODES_def)
  ultimately show ?thesis using assms by (simp add: cluster_manager_start_def g case_prod_unfold cluster_inv_def Let_def)
qed

section \<open>Properties\<close>

text \<open>
  C36: membership is well formed in every state: starting the manager, heartbeats of any node,
  removals and the periodic check keep the table at ten slots with pairwise distinct nodes, and
  the node itself is always a member and online.
\<close>

theorem cluster_membership_invariant:
  assumes "cluster_inv c" "self_id \<noteq> 0" "\<not> cl_started c0"
  shows "cluster_inv (cluster_manager_start P self_id c0) \<and>
    cluster_inv (snd (cluster_manager_update_node P hb_id c)) \<and>
    cluster_inv (cluster_manager_remove_node node_id c) \<and>
    cluster_inv (snd (cluster_manager_process P c))"
  using start_inv [OF assms(3,2)] update_node_inv [OF assms(1)] remove_node_inv [OF assms(1)] process_inv [OF assms(1)]
  by blast

definition stopped_cluster :: "sim_world cluster" where
  "stopped_cluster = \<lparr>cl_nodes = [], cl_started = False, cl_self_node_id = 0, cl_last_run_ms = 0, cl_world = sim_init\<rparr>"

text \<open>Node 7 with a second node 3.\<close>

definition demo_cluster :: "sim_world cluster" where
  "demo_cluster = snd (cluster_manager_update_node sim_platform 3 (cluster_manager_start sim_platform 7 stopped_cluster))"

lemma demo_cluster_inv: "cluster_inv demo_cluster"
  unfolding demo_cluster_def by (intro update_node_inv start_inv) (simp_all add: stopped_cluster_def)

lemma empty_table: "replicate MAX_NODES zero_node = zero_node # zero_node # replicate 8 zero_node"
proof -
  have ten: "MAX_NODES = Suc (Suc 8)" by (simp add: MAX_NODES_def)
  show ?thesis unfolding ten replicate_Suc ..
qed

lemma demo_cluster_fields:
  "cl_nodes demo_cluster = [\<lparr>cn_node_id = 7, cn_last_seen_ms = 1000, cn_rssi = 0, cn_state = CLUSTER_NODE_ONLINE\<rparr>,
     \<lparr>cn_node_id = 3, cn_last_seen_ms = 1000, cn_rssi = 0, cn_state = CLUSTER_NODE_ONLINE\<rparr>] @ replicate 8 zero_node"
  "cl_self_node_id demo_cluster = 7" "cl_started demo_cluster" "cl_last_run_ms demo_cluster = 0"
  "cl_world demo_cluster = sim_init"
proof -
  have none: "find_index (\<lambda>n. cn_node_id n = k) (replicate m zero_node) = None" if "k \<noteq> 0" for k m
    using that by (auto simp: find_index_None zero_node_def)
  have z: "cn_node_id zero_node = 0" "cn_rssi zero_node = 0" by (simp_all add: zero_node_def)
  show "cl_nodes demo_cluster = [\<lparr>cn_node_id = 7, cn_last_seen_ms = 1000, cn_rssi = 0, cn_state = CLUSTER_NODE_ONLINE\<rparr>,
     \<lparr>cn_node_id = 3, cn_last_seen_ms = 1000, cn_rssi = 0, cn_state = CLUSTER_NODE_ONLINE\<rparr>] @ replicate 8 zero_node"
    "cl_self_node_id demo_cluster = 7" "cl_started demo_cluster" "cl_last_run_ms demo_cluster = 0"
    "cl_world demo_cluster = sim_init"
    by (simp_all add: demo_cluster_def stopped_cluster_def cluster_manager_start_def cluster_manager_update_node_def
        get_or_create_node_def find_node_def allocate_node_def empty_table cm_now_ms_def sim_simps Let_def none z)
qed

theorem cluster_membership_invariant_witness:
  "cluster_inv (snd (cluster_manager_update_node sim_platform 9 demo_cluster))"
  using cluster_membership_invariant [OF demo_cluster_inv, of 7 stopped_cluster sim_platform 9 9]
  by (simp add: stopped_cluster_def)

text \<open>
  The election. The master is the least of the online members; it exists, it is never
  greater than the node itself, and the node is the master exactly when no online member is
  smaller. Two nodes that see the same members online elect the same master.
\<close>

theorem cluster_master_least_online:
  assumes "cluster_inv c"
  shows "cluster_get_master_node c = Min (online_ids (cl_nodes c)) \<and>
    cluster_get_master_node c \<noteq> 0 \<and> cluster_get_master_node c \<le> cl_self_node_id c \<and>
    (cluster_get_master_node c = cl_self_node_id c \<longleftrightarrow> (\<forall>x \<in> online_ids (cl_nodes c). cl_self_node_id c \<le> x)) \<and>
    (online_ids (cl_nodes d) = online_ids (cl_nodes c) \<longrightarrow> cluster_get_master_node d = cluster_get_master_node c)"
proof -
  let ?S = "online_ids (cl_nodes c)"
  have self: "cl_self_node_id c \<in> ?S" using assms by (simp add: cluster_inv_def)
  have m: "cluster_get_master_node e = Min (online_ids (cl_nodes e))" if "online_ids (cl_nodes e) \<noteq> {}" for e :: "'x cluster"
    using that by (simp add: cluster_get_master_node_def cluster_manager_get_master_from_snapshot_def elect_step_fold)
  have "Min ?S \<in> ?S" using self by (intro Min_in) auto
  moreover have "x \<noteq> 0" if "x \<in> ?S" for x using that by (auto simp: online_ids_def)
  moreover have "Min ?S \<le> x" if "x \<in> ?S" for x using that by simp
  ultimately show ?thesis using m [of c] m [of d] self by (metis empty_iff order_antisym)
qed

theorem cluster_master_least_online_witness: "cluster_get_master_node demo_cluster = 3"
proof -
  have "online_ids (cl_nodes demo_cluster) = {3, 7}"
    by (simp add: demo_cluster_fields online_ids_Cons) (auto simp: online_ids_def zero_node_def)
  with cluster_master_least_online [OF demo_cluster_inv, of demo_cluster] show ?thesis by simp
qed

text \<open>
  The periodic check. When a second has passed since the last run, every other known member
  is online, suspect or offline exactly as its last heartbeat is at most 3 s, at most 6 s or more
  than 6 s old, the node itself stays online, and each change of state is reported by one event,
  in table order; no change goes unreported.
\<close>

theorem cluster_process_reports_changes:
  assumes "cluster_inv c" "cl_started c" "cm_now_ms P c = (t, c1)" "cl_last_run_ms c = 0 \<or> t - cl_last_run_ms c \<ge> 1000"
    and "cm_now_ms P (c1\<lparr>cl_last_run_ms := t\<rparr>) = (now, c2)"
  shows "case cluster_manager_process P c of (evts, c') \<Rightarrow>
    evts = map (change_event (cl_self_node_id c) now) (filter (state_changed (cl_self_node_id c) now) (cl_nodes c)) \<and>
    cl_nodes c' = map (refreshed (cl_self_node_id c) now) (cl_nodes c) \<and>
    (\<forall>n \<in> set (cl_nodes c). cn_node_id n \<noteq> 0 \<and> cn_last_seen_ms n \<noteq> 0 \<and> cn_node_id n \<noteq> cl_self_node_id c \<longrightarrow>
       (cn_state (refreshed (cl_self_node_id c) now n) = CLUSTER_NODE_ONLINE \<longleftrightarrow> unat (now - cn_last_seen_ms n) \<le> 3000) \<and>
       (cn_state (refreshed (cl_self_node_id c) now n) = CLUSTER_NODE_OFFLINE \<longleftrightarrow> 6000 < unat (now - cn_last_seen_ms n)))"
proof -
  have self: "cl_nodes c1 = cl_nodes c" "cl_self_node_id c1 = cl_self_node_id c" "cl_last_run_ms c1 = cl_last_run_ms c"
    using cm_now_fields [of P c] assms(3) by simp_all
  have c2: "cl_nodes c2 = cl_nodes c" "cl_self_node_id c2 = cl_self_node_id c"
    using cm_now_fields [of P "c1\<lparr>cl_last_run_ms := t\<rparr>"] assms(5) self by simp_all
  have len: "length (cl_nodes c) \<le> CLUSTER_MANAGER_MAX_PENDING_EVENTS"
    using assms(1) by (simp add: cluster_inv_def nodes_ok_def CLUSTER_MANAGER_MAX_PENDING_EVENTS_def)
  have run: "\<not> (cl_last_run_ms c1 \<noteq> 0 \<and> t - cl_last_run_ms c1 < CLUSTER_MANAGER_TICK_MS)"
    using assms(4) self by (auto simp: CLUSTER_MANAGER_TICK_MS_def)
  have age: "(cn_state (refreshed (cl_self_node_id c) now n) = CLUSTER_NODE_ONLINE \<longleftrightarrow> unat (now - cn_last_seen_ms n) \<le> 3000) \<and>
      (cn_state (refreshed (cl_self_node_id c) now n) = CLUSTER_NODE_OFFLINE \<longleftrightarrow> 6000 < unat (now - cn_last_seen_ms n))"
    if "cn_node_id n \<noteq> 0 \<and> cn_last_seen_ms n \<noteq> 0 \<and> cn_node_id n \<noteq> cl_self_node_id c" for n
    using that by (auto simp: refreshed_def cluster_manager_state_from_age_def SUSPECT_TIMEOUT_MS_def
        HEARTBEAT_TIMEOUT_MS_def word_less_nat_alt)
  have "cluster_manager_process P c =
      cluster_manager_refresh_nodes_locked P CLUSTER_MANAGER_MAX_PENDING_EVENTS (c1\<lparr>cl_last_run_ms := t\<rparr>)"
    unfolding cluster_manager_process_def assms(3) prod.case if_not_P [OF run] using assms(2) by simp
  then show ?thesis
    using assms(5) len c2 age by (simp add: cluster_manager_refresh_nodes_locked_def refresh_nodes_eq)
qed

text \<open>Seven seconds after its heartbeat node 3 is reported offline.\<close>

theorem cluster_process_reports_changes_witness:
  "fst (cluster_manager_process sim_platform (demo_cluster\<lparr>cl_world := (cl_world demo_cluster)\<lparr>sim_now := 8000000\<rparr>\<rparr>)) =
     [\<lparr>ce_node_id = 3, ce_type = EVENT_NODE_OFFLINE\<rparr>]"
proof -
  let ?c = "demo_cluster\<lparr>cl_world := (cl_world demo_cluster)\<lparr>sim_now := 8000000\<rparr>\<rparr>"
  note self = demo_cluster_fields(2-)
  have inv: "cluster_inv ?c" using demo_cluster_inv by (simp add: cluster_inv_def)
  have now: "cm_now_ms sim_platform ?c = (8000, ?c)" for x
    using self by (simp add: cm_now_ms_def sim_simps)
  have now': "cm_now_ms sim_platform (?c\<lparr>cl_last_run_ms := 8000\<rparr>) = (8000, ?c\<lparr>cl_last_run_ms := 8000\<rparr>)"
    using self by (simp add: cm_now_ms_def sim_simps)
  have "fst (cluster_manager_process sim_platform ?c) =
      map (change_event 7 8000) (filter (state_changed 7 8000) (cl_nodes demo_cluster))"
    using cluster_process_reports_changes [OF inv _ now _ now'] self by (simp add: case_prod_unfold)
  then show ?thesis
    unfolding demo_cluster_fields(1) by (simp add: state_changed_def change_event_def refreshed_def cluster_manager_state_from_age_def
        SUSPECT_TIMEOUT_MS_def HEARTBEAT_TIMEOUT_MS_def state_event_def zero_node_def)
qed

end
