(* ===== verification/Keyed_Table.thy ===== *)
theory Keyed_Table
  imports Prelude
begin

text \<open>
  The interface of the fixed-size tables of the cluster components: entries that are in use carry
  a key, one scan looks a key up, another one finds a free entry. The laws state what both scans
  return; the lemmas give the table the meaning of a finite map. A key that is not \<open>valid\<close> (node
  id 0) may be found in a free entry.
\<close>

definition slot :: "('k \<Rightarrow> 'e list \<Rightarrow> nat option) \<Rightarrow> ('e list \<Rightarrow> nat option) \<Rightarrow> 'k \<Rightarrow> 'e list \<Rightarrow> nat option" where
  "slot seek alloc k xs = (case seek k xs of Some i \<Rightarrow> Some i | None \<Rightarrow> alloc xs)"

definition lookup :: "('k \<Rightarrow> 'e list \<Rightarrow> nat option) \<Rightarrow> 'k \<Rightarrow> 'e list \<Rightarrow> 'e option" where
  "lookup seek k xs = map_option ((!) xs) (seek k xs)"

locale keyed_table =
  fixes used :: "'e \<Rightarrow> bool" and key :: "'e \<Rightarrow> 'k" and valid :: "'k \<Rightarrow> bool"
    and seek :: "'k \<Rightarrow> 'e list \<Rightarrow> nat option" and alloc :: "'e list \<Rightarrow> nat option"
  assumes find_Some: "seek k xs = Some i \<Longrightarrow> i < length xs \<and> key (xs ! i) = k"
    and find_valid: "valid k \<Longrightarrow> seek k xs = Some i \<Longrightarrow> used (xs ! i)"
    and find_None: "seek k xs = None \<Longrightarrow> e \<in> set xs \<Longrightarrow> used e \<Longrightarrow> key e \<noteq> k"
    and alloc_Some: "alloc xs = Some i \<Longrightarrow> i < length xs \<and> \<not> used (xs ! i)"
    and alloc_None: "alloc xs = None \<Longrightarrow> e \<in> set xs \<Longrightarrow> used e"
begin

lemma lookup_iff:
  assumes "keys_distinct used key xs" "valid k"
  shows "lookup seek k xs = Some e \<longleftrightarrow> e \<in> set xs \<and> used e \<and> key e = k"
proof (cases "seek k xs")
  case None
  then show ?thesis using find_None [OF None] by (auto simp: lookup_def)
next
  case (Some i)
  then have i: "i < length xs" "key (xs ! i) = k" "used (xs ! i)"
    using find_Some find_valid [OF assms(2)] by auto
  have "xs ! j = xs ! i" if "j < length xs" "used (xs ! j)" "key (xs ! j) = k" for j
    using keys_distinctD [OF assms(1) that(1) i(1) that(2) i(3)] that(3) i(2) by simp
  then have "e \<in> set xs \<and> used e \<and> key e = k \<longleftrightarrow> e = xs ! i" using i by (metis in_set_conv_nth)
  then show ?thesis using Some by (auto simp: lookup_def)
qed

lemma lookup_None_iff:
  assumes "valid k"
  shows "lookup seek k xs = None \<longleftrightarrow> (\<forall>e \<in> set xs. used e \<longrightarrow> key e \<noteq> k)"
proof (cases "seek k xs")
  case None
  then show ?thesis using find_None [OF None] by (auto simp: lookup_def)
next
  case (Some i)
  then have "xs ! i \<in> set xs" "used (xs ! i)" "key (xs ! i) = k"
    using find_Some find_valid [OF assms] by auto
  then show ?thesis using Some by (auto simp: lookup_def)
qed

lemma slot_Some:
  assumes "slot seek alloc k xs = Some i"
  shows "i < length xs \<and> (seek k xs = Some i \<or> seek k xs = None \<and> \<not> used (xs ! i))"
  using assms find_Some alloc_Some by (auto simp: slot_def split: option.splits)

lemma slot_None_iff:
  assumes "valid k"
  shows "slot seek alloc k xs = None \<longleftrightarrow> lookup seek k xs = None \<and> (\<forall>e \<in> set xs. used e)"
proof (cases "seek k xs")
  case None
  show ?thesis
  proof (cases "alloc xs")
    case None
    then show ?thesis using \<open>seek k xs = None\<close> alloc_None [OF None] by (simp add: slot_def lookup_def)
  next
    case (Some i)
    then have "xs ! i \<in> set xs" "\<not> used (xs ! i)" using alloc_Some [OF Some] by auto
    then show ?thesis using \<open>seek k xs = None\<close> Some by (auto simp: slot_def lookup_def)
  qed
qed (simp add: slot_def lookup_def)

lemma slot_not_used:
  assumes "keys_distinct used key xs" "slot seek alloc k xs = Some i" "j < length xs" "j \<noteq> i" "used (xs ! j)"
  shows "key (xs ! j) \<noteq> k \<or> \<not> valid k"
proof (rule ccontr)
  assume "\<not> (key (xs ! j) \<noteq> k \<or> \<not> valid k)"
  then have j: "key (xs ! j) = k" "valid k" by auto
  from slot_Some [OF assms(2)] show False
  proof
    assume i: "i < length xs" and "seek k xs = Some i \<or> seek k xs = None \<and> \<not> used (xs ! i)"
    then show False
      using j assms(3,5) find_None [of k xs "xs ! j"] find_Some [of k xs i] find_valid [OF j(2), of xs i]
        keys_distinctD [OF assms(1) assms(3) i assms(5)] assms(4) by auto
  qed
qed

lemma store_distinct:
  assumes "keys_distinct used key xs" "slot seek alloc k xs = Some i" "key e = k" "used e \<Longrightarrow> valid k"
  shows "keys_distinct used key (xs[i := e])"
  using slot_Some [OF assms(2)] slot_not_used [OF assms(1,2)] assms(1,3,4)
  by (auto intro!: keys_distinct_update)

lemma lookup_store:
  assumes "keys_distinct used key xs" "slot seek alloc k xs = Some i" "key e = k" "used e" "valid k" "valid k'"
  shows "lookup seek k' (xs[i := e]) = (if k' = k then Some e else lookup seek k' xs)"
proof -
  have i: "i < length xs" and old: "seek k xs = Some i \<or> \<not> used (xs ! i)" using slot_Some [OF assms(2)] by auto
  have d: "keys_distinct used key (xs[i := e])" by (rule store_distinct [OF assms(1,2,3,5)])
  have mem: "e \<in> set (xs[i := e])" using i by (rule set_update_memI)
  show ?thesis
  proof (cases "k' = k")
    case True
    then show ?thesis using lookup_iff [OF d assms(6), of e] mem assms(3,4) by simp
  next
    case False
    have "used (xs ! i) \<Longrightarrow> key (xs ! i) = k" using old find_Some by blast
    then have "x \<in> set (xs[i := e]) \<and> used x \<and> key x = k' \<longleftrightarrow> x \<in> set xs \<and> used x \<and> key x = k'" for x
      using False assms(3) i by (auto simp: in_set_conv_nth nth_list_update) metis+
    then show ?thesis
      using False lookup_iff [OF d assms(6)] lookup_iff [OF assms(1,6)] by (metis not_None_eq)
  qed
qed

lemma lookup_free:
  assumes "keys_distinct used key xs" "seek k xs = Some i" "\<not> used e" "valid k" "valid k'"
  shows "keys_distinct used key (xs[i := e]) \<and>
    lookup seek k' (xs[i := e]) = (if k' = k then None else lookup seek k' xs)"
proof -
  have i: "i < length xs" "key (xs ! i) = k" "used (xs ! i)"
    using find_Some [OF assms(2)] find_valid [OF assms(4,2)] by auto
  have d: "keys_distinct used key (xs[i := e])" using assms(1,3) i by (auto intro: keys_distinct_update)
  have "x \<in> set (xs[i := e]) \<and> used x \<and> key x = k' \<longleftrightarrow> k' \<noteq> k \<and> x \<in> set xs \<and> used x \<and> key x = k'" for x
    using assms(1,3) i keys_distinctD [OF assms(1)]
    by (auto simp: in_set_conv_nth nth_list_update) metis+
  then have "lookup seek k' (xs[i := e]) = Some x \<longleftrightarrow> k' \<noteq> k \<and> lookup seek k' xs = Some x" for x
    using lookup_iff [OF d assms(5)] lookup_iff [OF assms(1,5)] by simp
  with d show ?thesis by (metis not_None_eq)
qed

lemma lookup_map:
  assumes "keys_distinct used key xs" "valid k" "\<And>e. used (f e) \<longleftrightarrow> used e" "\<And>e. used e \<Longrightarrow> key (f e) = key e"
  shows "lookup seek k (map f xs) = map_option f (lookup seek k xs)"
proof (cases "lookup seek k xs")
  case None
  then have "lookup seek k (map f xs) = None" using assms(3,4) unfolding lookup_None_iff [OF assms(2)] by auto
  with None show ?thesis by simp
next
  case (Some e)
  have "keys_distinct used key (map f xs)" using assms by (intro keys_distinct_map) auto
  then have "lookup seek k (map f xs) = Some (f e)"
    using Some assms(3,4) unfolding lookup_iff [OF assms(1,2)] lookup_iff [OF \<open>keys_distinct used key (map f xs)\<close> assms(2)] by auto
  with Some show ?thesis by simp
qed

end

end
