(* ===== verification/Nvs_Blob.thy ===== *)
theory Nvs_Blob
  imports Platform
begin

text \<open>
  Reading and writing one blob of the non-volatile storage, as the components do it: open the
  namespace, set and commit (or measure and read), close on every path after a successful open.
\<close>

definition nvs_store :: "'w platform \<Rightarrow> string \<Rightarrow> string \<Rightarrow> bytes \<Rightarrow> 'w \<Rightarrow> bool \<times> 'w" where
  "nvs_store P ns key blob w =
     (case nvs_open P ns NVS_READWRITE w of (err, h, w) \<Rightarrow>
      if err \<noteq> ESP_OK then (False, w)
      else case nvs_set_blob P h key blob w of (err, w) \<Rightarrow>
        if err \<noteq> ESP_OK then (False, nvs_close P h w)
        else case endap_nvs_commit P h w of (err, w) \<Rightarrow> (err = ESP_OK, nvs_close P h w))"

text \<open>The stored length decides whether the blob is read at all; it is returned with the contents.\<close>

definition nvs_fetch :: "'w platform \<Rightarrow> string \<Rightarrow> string \<Rightarrow> (nat \<Rightarrow> bool) \<Rightarrow> 'w \<Rightarrow> (nat \<times> bytes) option \<times> 'w" where
  "nvs_fetch P ns key fits w =
     (case nvs_open P ns NVS_READONLY w of (err, h, w) \<Rightarrow>
      if err \<noteq> ESP_OK then (None, w)
      else case nvs_blob_size P h key w of (err, len, w) \<Rightarrow>
        if err \<noteq> ESP_OK \<or> \<not> fits len then (None, nvs_close P h w)
        else case nvs_get_blob P h key len w of (err, bs, w) \<Rightarrow>
          (if err = ESP_OK then Some (len, bs) else None, nvs_close P h w))"

lemma nvs_store_holds:
  assumes "nvs_durable P" "nvs_store P ns key blob w = (True, w')"
  shows "nvs_holds P ns key blob w'"
proof -
  obtain err h w1 where o: "nvs_open P ns NVS_READWRITE w = (err, h, w1)" by (metis prod_cases3)
  obtain err' w2 where s: "nvs_set_blob P h key blob w1 = (err', w2)" by force
  obtain err'' w3 where c: "nvs_commit P h w2 = (err'', w3)" by force
  have "err = ESP_OK" "err' = ESP_OK" "err'' = ESP_OK" "w' = nvs_close P h w3"
    using assms(2) by (auto simp: nvs_store_def endap_nvs_commit_def o s c split: if_splits)
  then show ?thesis using assms(1) o s c unfolding nvs_durable_def by metis
qed

lemma nvs_store_accepts:
  assumes "nvs_accepts P ns key blob w"
  shows "fst (nvs_store P ns key blob w)"
  using assms by (auto simp: nvs_accepts_def nvs_store_def endap_nvs_commit_def)

lemma nvs_fetch_holds:
  assumes "nvs_holds P ns key bs w" "fits (length bs)"
  shows "fst (nvs_fetch P ns key fits w) = Some (length bs, bs)"
  using assms by (auto simp: nvs_holds_def nvs_fetch_def)

lemma nvs_fetch_fits:
  assumes "nvs_holds P ns key bs w" "\<not> fits (length bs)"
  shows "fst (nvs_fetch P ns key fits w) = None"
  using assms by (auto simp: nvs_holds_def nvs_fetch_def)

lemma sim_store: "sim_nvs_ok w \<Longrightarrow> \<exists>w'. nvs_store sim_platform ns key bs w = (True, w')"
  using nvs_store_accepts [OF sim_accepts, of w ns key bs] by (cases "nvs_store sim_platform ns key bs w") simp

end
