(* ===== verification/Node_Registry.thy ===== *)
theory Node_Registry
  imports Cluster_Manager Keyed_Table Nvs_Blob "HOL-Library.Multiset"
begin

text \<open>
  The administrative life cycle of the nodes of a cluster (\<open>cluster/node_registry.c\<close>): a node is
  discovered, adopted, configured and activated, and only an active node takes part in the
  exchange of outputs. The table has ten entries; a free one has node id 0. Every decision is
  written to the non-volatile storage before it is reported as done.

  A \<open>char\<close> array is the list of its bytes; a null pointer is \<^const>\<open>None\<close>. The functions take the
  cluster manager they ask for the members as an argument.
\<close>

section \<open>Model\<close>

definition NODE_REGISTRY_MAX_NODES :: nat where "NODE_REGISTRY_MAX_NODES = 10"
definition NODE_REGISTRY_PROFILE_LEN :: nat where "NODE_REGISTRY_PROFILE_LEN = 24"
definition NODE_REGISTRY_TEMPLATE_LEN :: nat where "NODE_REGISTRY_TEMPLATE_LEN = 24"
definition NODE_REGISTRY_NAMESPACE :: string where "NODE_REGISTRY_NAMESPACE = ''node_registry''"
definition NODE_REGISTRY_KEY :: string where "NODE_REGISTRY_KEY = ''nodes_v1''"
definition NODE_REGISTRY_MAGIC :: u32 where "NODE_REGISTRY_MAGIC = 0x4E524547"
definition NODE_REGISTRY_VERSION :: u16 where "NODE_REGISTRY_VERSION = 2"
definition NODE_REGISTRY_VERSION_V1 :: u16 where "NODE_REGISTRY_VERSION_V1 = 1"
definition NODE_REGISTRY_SYNC_MS :: u32 where "NODE_REGISTRY_SYNC_MS = 1000"

definition NODE_REGISTRY_TRANSPORT_NONE :: u8 where "NODE_REGISTRY_TRANSPORT_NONE = 0"
definition NODE_REGISTRY_TRANSPORT_WIFI_UDP :: u8 where "NODE_REGISTRY_TRANSPORT_WIFI_UDP = 1"
definition NODE_REGISTRY_TRANSPORT_ETHERNET_UDP :: u8 where "NODE_REGISTRY_TRANSPORT_ETHERNET_UDP = 2"
definition NODE_REGISTRY_TRANSPORT_RS485_CLUSTER :: u8 where "NODE_REGISTRY_TRANSPORT_RS485_CLUSTER = 3"
definition NODE_REGISTRY_TRANSPORT_WIFI_NOW :: u8 where "NODE_REGISTRY_TRANSPORT_WIFI_NOW = 4"

definition NODE_REGISTRY_OFFLINE_NONE :: u8 where "NODE_REGISTRY_OFFLINE_NONE = 0"
definition NODE_REGISTRY_OFFLINE_HEARTBEAT_TIMEOUT :: u8 where "NODE_REGISTRY_OFFLINE_HEARTBEAT_TIMEOUT = 1"
definition NODE_REGISTRY_OFFLINE_MISSING_ADDRESS :: u8 where "NODE_REGISTRY_OFFLINE_MISSING_ADDRESS = 2"
definition NODE_REGISTRY_OFFLINE_LINK_DEGRADED :: u8 where "NODE_REGISTRY_OFFLINE_LINK_DEGRADED = 3"

definition NODE_REGISTRY_RECOVERY_TRY_RECONNECT :: u8 where "NODE_REGISTRY_RECOVERY_TRY_RECONNECT = 1"
definition NODE_REGISTRY_RECOVERY_REENABLE_WIFI :: u8 where "NODE_REGISTRY_RECOVERY_REENABLE_WIFI = 2"
definition NODE_REGISTRY_RECOVERY_FORCE_MODE :: u8 where "NODE_REGISTRY_RECOVERY_FORCE_MODE = 4"
definition NODE_REGISTRY_RECOVERY_IDENTIFY :: u8 where "NODE_REGISTRY_RECOVERY_IDENTIFY = 8"

definition NODE_REGISTRY_STATE_DISCOVERED :: u8 where "NODE_REGISTRY_STATE_DISCOVERED = 0"
definition NODE_REGISTRY_STATE_ADOPTED :: u8 where "NODE_REGISTRY_STATE_ADOPTED = 1"
definition NODE_REGISTRY_STATE_CONFIGURED :: u8 where "NODE_REGISTRY_STATE_CONFIGURED = 2"
definition NODE_REGISTRY_STATE_ACTIVE :: u8 where "NODE_REGISTRY_STATE_ACTIVE = 3"

lemmas registry_states = NODE_REGISTRY_STATE_DISCOVERED_def NODE_REGISTRY_STATE_ADOPTED_def
  NODE_REGISTRY_STATE_CONFIGURED_def NODE_REGISTRY_STATE_ACTIVE_def

record node_registry_entry_t =
  ne_node_id :: u32
  ne_last_ip_addr :: u32
  ne_age_ms :: u32
  ne_last_seen_ms :: u32
  ne_health :: u8
  ne_cluster_state :: u8
  ne_registry_state :: u8
  ne_last_transport :: u8
  ne_offline_reason :: u8
  ne_recovery_capabilities :: u8
  ne_reserved0 :: u8
  ne_reserved1 :: u8
  ne_profile :: bytes
  ne_template_name :: bytes

record 'w registry =
  nr_entries :: "node_registry_entry_t list"
  nr_initialized :: bool
  nr_last_sync_ms :: u32
  nr_world :: 'w

definition zero_entry :: node_registry_entry_t where
  "zero_entry = \<lparr>ne_node_id = 0, ne_last_ip_addr = 0, ne_age_ms = 0, ne_last_seen_ms = 0, ne_health = 0,
     ne_cluster_state = 0, ne_registry_state = 0, ne_last_transport = 0, ne_offline_reason = 0,
     ne_recovery_capabilities = 0, ne_reserved0 = 0, ne_reserved1 = 0,
     ne_profile = replicate NODE_REGISTRY_PROFILE_LEN 0, ne_template_name = replicate NODE_REGISTRY_TEMPLATE_LEN 0\<rparr>"

text \<open>The values of \<open>cluster_node_state_t\<close> and \<open>cluster_transport_type_t\<close>.\<close>

definition cluster_state_code :: "cluster_node_state_t \<Rightarrow> u8" where
  "cluster_state_code st =
     (case st of CLUSTER_NODE_ONLINE \<Rightarrow> 0 | CLUSTER_NODE_SUSPECT \<Rightarrow> 1 | CLUSTER_NODE_OFFLINE \<Rightarrow> 2)"

definition CLUSTER_TRANSPORT_WIFI_UDP :: u8 where "CLUSTER_TRANSPORT_WIFI_UDP = 1"
definition CLUSTER_TRANSPORT_ETHERNET_UDP :: u8 where "CLUSTER_TRANSPORT_ETHERNET_UDP = 2"
definition CLUSTER_TRANSPORT_RS485 :: u8 where "CLUSTER_TRANSPORT_RS485 = 3"
definition CLUSTER_TRANSPORT_WIFI_NOW :: u8 where "CLUSTER_TRANSPORT_WIFI_NOW = 5"

subsection \<open>Entries\<close>

definition registry_now_ms :: "'w platform \<Rightarrow> 'w registry \<Rightarrow> u32 \<times> 'w registry" where
  "registry_now_ms P r = (case esp_timer_get_time P (nr_world r) of (t, w) \<Rightarrow> (ucast (t div 1000), r\<lparr>nr_world := w\<rparr>))"

definition node_registry_crc32 :: "bytes \<Rightarrow> u32" where
  "node_registry_crc32 data = fnv1a data"

definition node_registry_copy_text :: "nat \<Rightarrow> bytes option \<Rightarrow> bytes" where
  "node_registry_copy_text dst_size src = c_strncpy (case src of None \<Rightarrow> [] | Some s \<Rightarrow> s) (dst_size - 1) @ [0]"

definition node_registry_transport_from_cluster :: "u8 \<Rightarrow> u8" where
  "node_registry_transport_from_cluster transport =
     (if transport = CLUSTER_TRANSPORT_WIFI_UDP then NODE_REGISTRY_TRANSPORT_WIFI_UDP
      else if transport = CLUSTER_TRANSPORT_ETHERNET_UDP then NODE_REGISTRY_TRANSPORT_ETHERNET_UDP
      else if transport = CLUSTER_TRANSPORT_RS485 then NODE_REGISTRY_TRANSPORT_RS485_CLUSTER
      else if transport = CLUSTER_TRANSPORT_WIFI_NOW then NODE_REGISTRY_TRANSPORT_WIFI_NOW
      else NODE_REGISTRY_TRANSPORT_NONE)"

definition node_registry_compute_offline_reason :: "node_registry_entry_t \<Rightarrow> u8" where
  "node_registry_compute_offline_reason entry =
     (if ne_cluster_state entry = cluster_state_code CLUSTER_NODE_ONLINE then NODE_REGISTRY_OFFLINE_NONE
      else if ne_cluster_state entry = cluster_state_code CLUSTER_NODE_SUSPECT then NODE_REGISTRY_OFFLINE_LINK_DEGRADED
      else if ne_last_transport entry = NODE_REGISTRY_TRANSPORT_RS485_CLUSTER then NODE_REGISTRY_OFFLINE_HEARTBEAT_TIMEOUT
      else if ne_last_ip_addr entry = 0 then NODE_REGISTRY_OFFLINE_MISSING_ADDRESS
      else NODE_REGISTRY_OFFLINE_HEARTBEAT_TIMEOUT)"

definition node_registry_default_recovery_caps :: u8 where
  "node_registry_default_recovery_caps =
     NODE_REGISTRY_RECOVERY_TRY_RECONNECT OR NODE_REGISTRY_RECOVERY_REENABLE_WIFI OR
     NODE_REGISTRY_RECOVERY_FORCE_MODE OR NODE_REGISTRY_RECOVERY_IDENTIFY"

definition supported_profiles :: "bytes list" where
  "supported_profiles = map str_bytes [''gateway'', ''field-node'', ''relay-node'', ''sensor-node'', ''local-io-node'']"

definition node_registry_profile_is_supported :: "bytes option \<Rightarrow> bool" where
  "node_registry_profile_is_supported profile =
     (case profile of None \<Rightarrow> False | Some p \<Rightarrow> c_str p \<noteq> [] \<and> c_str p \<in> set supported_profiles)"

definition template_char :: "u8 \<Rightarrow> bool" where
  "template_char c \<longleftrightarrow> 48 \<le> c \<and> c \<le> 57 \<or> 65 \<le> c \<and> c \<le> 90 \<or> 97 \<le> c \<and> c \<le> 122 \<or>
     c = 45 \<or> c = 95 \<or> c = 46"

definition node_registry_template_is_valid :: "bytes option \<Rightarrow> bool" where
  "node_registry_template_is_valid template_name =
     (case template_name of None \<Rightarrow> True | Some t \<Rightarrow> list_all template_char (c_str t))"

definition node_registry_should_persist :: "node_registry_entry_t \<Rightarrow> bool" where
  "node_registry_should_persist entry \<longleftrightarrow> ne_node_id entry \<noteq> 0 \<and>
     (ne_registry_state entry \<noteq> NODE_REGISTRY_STATE_DISCOVERED \<or>
      ne_profile entry ! 0 \<noteq> 0 \<or> ne_template_name entry ! 0 \<noteq> 0)"

definition node_registry_find :: "u32 \<Rightarrow> node_registry_entry_t list \<Rightarrow> nat option" where
  "node_registry_find node_id es = find_index (\<lambda>e. ne_node_id e = node_id) es"

definition node_registry_allocate :: "node_registry_entry_t list \<Rightarrow> nat option" where
  "node_registry_allocate es = find_index (\<lambda>e. ne_node_id e = 0) es"

definition node_registry_reset_runtime :: "node_registry_entry_t \<Rightarrow> node_registry_entry_t" where
  "node_registry_reset_runtime entry =
     (if ne_node_id entry = 0 then entry
      else let e = entry\<lparr>ne_age_ms := 0, ne_last_seen_ms := 0, ne_health := 0,
          ne_cluster_state := cluster_state_code CLUSTER_NODE_OFFLINE\<rparr> in
        e\<lparr>ne_offline_reason := node_registry_compute_offline_reason e,
          ne_recovery_capabilities := node_registry_default_recovery_caps\<rparr>)"

definition node_registry_restore_entry :: "u32 \<Rightarrow> node_registry_entry_t \<Rightarrow> node_registry_entry_t list \<Rightarrow> node_registry_entry_t list" where
  "node_registry_restore_entry node_id previous es =
     (if node_id = 0 then es
      else case node_registry_find node_id es of None \<Rightarrow> es | Some i \<Rightarrow> es[i := previous])"

text \<open>The entry of a node, a fresh one when there is none: the index and the table.\<close>

definition registry_entry :: "u32 \<Rightarrow> node_registry_entry_t list \<Rightarrow> (nat \<times> node_registry_entry_t list) option" where
  "registry_entry node_id es =
     (case node_registry_find node_id es of
        Some i \<Rightarrow> Some (i, es)
      | None \<Rightarrow>
        (case node_registry_allocate es of
           None \<Rightarrow> None
         | Some i \<Rightarrow> Some (i, es[i := zero_entry\<lparr>ne_node_id := node_id, ne_registry_state := NODE_REGISTRY_STATE_DISCOVERED\<rparr>])))"

definition node_registry_seed_entry_from_cluster ::
  "'v cluster \<Rightarrow> u32 \<Rightarrow> node_registry_entry_t list \<Rightarrow> node_registry_entry_t list option" where
  "node_registry_seed_entry_from_cluster c node_id es =
     (if node_id = 0 then None
      else case List.find (\<lambda>n. cn_node_id n = node_id) (cluster_manager_export_nodes True (int MAX_NODES) c) of
        None \<Rightarrow> None
      | Some target \<Rightarrow>
        (case registry_entry node_id es of
           None \<Rightarrow> None
         | Some (i, es) \<Rightarrow>
           let e = (es ! i)\<lparr>ne_last_seen_ms := cn_last_seen_ms target, ne_cluster_state := cluster_state_code (cn_state target)\<rparr>
           in Some (es[i := e\<lparr>ne_offline_reason := node_registry_compute_offline_reason e,
                 ne_recovery_capabilities := node_registry_default_recovery_caps\<rparr>])))"

subsection \<open>The stored blob\<close>

text \<open>
  \<open>node_registry_blob_t\<close> has 8 bytes of header, ten entries of 72 bytes without padding and the
  checksum; a version 1 blob has entries of 64 bytes.
\<close>

definition ENTRY_SIZE :: nat where "ENTRY_SIZE = 72"
definition ENTRY_V1_SIZE :: nat where "ENTRY_V1_SIZE = 64"
definition BLOB_SIZE :: nat where "BLOB_SIZE = 732"
definition BLOB_V1_SIZE :: nat where "BLOB_V1_SIZE = 652"

record node_registry_blob_t =
  nb_magic :: u32
  nb_version :: u16
  nb_count :: u16
  nb_entries :: "node_registry_entry_t list"
  nb_crc :: u32

definition registry_entry_bytes :: "node_registry_entry_t \<Rightarrow> bytes" where
  "registry_entry_bytes e =
     le32 (ne_node_id e) @ le32 (ne_last_ip_addr e) @ le32 (ne_age_ms e) @ le32 (ne_last_seen_ms e) @
     [ne_health e, ne_cluster_state e, ne_registry_state e, ne_last_transport e, ne_offline_reason e,
      ne_recovery_capabilities e, ne_reserved0 e, ne_reserved1 e] @ ne_profile e @ ne_template_name e"

definition registry_entry_of :: "bytes \<Rightarrow> node_registry_entry_t" where
  "registry_entry_of bs =
     \<lparr>ne_node_id = of_le32 bs, ne_last_ip_addr = of_le32 (drop 4 bs), ne_age_ms = of_le32 (drop 8 bs),
      ne_last_seen_ms = of_le32 (drop 12 bs), ne_health = bs ! 16, ne_cluster_state = bs ! 17,
      ne_registry_state = bs ! 18, ne_last_transport = bs ! 19, ne_offline_reason = bs ! 20,
      ne_recovery_capabilities = bs ! 21, ne_reserved0 = bs ! 22, ne_reserved1 = bs ! 23,
      ne_profile = take NODE_REGISTRY_PROFILE_LEN (drop 24 bs),
      ne_template_name = take NODE_REGISTRY_TEMPLATE_LEN (drop 48 bs)\<rparr>"

text \<open>An entry of a version 1 blob, written over a zeroed entry.\<close>

definition registry_entry_of_v1 :: "bytes \<Rightarrow> node_registry_entry_t" where
  "registry_entry_of_v1 bs = zero_entry
     \<lparr>ne_node_id := of_le32 bs, ne_last_ip_addr := of_le32 (drop 4 bs), ne_age_ms := of_le32 (drop 8 bs),
      ne_last_seen_ms := 0, ne_health := bs ! 12, ne_cluster_state := bs ! 13, ne_registry_state := bs ! 14,
      ne_last_transport := NODE_REGISTRY_TRANSPORT_NONE, ne_offline_reason := NODE_REGISTRY_OFFLINE_NONE,
      ne_recovery_capabilities := node_registry_default_recovery_caps,
      ne_profile := node_registry_copy_text NODE_REGISTRY_PROFILE_LEN (Some (take 24 (drop 16 bs))),
      ne_template_name := node_registry_copy_text NODE_REGISTRY_TEMPLATE_LEN (Some (take 24 (drop 40 bs)))\<rparr>"

definition entries_bytes :: "node_registry_entry_t list \<Rightarrow> bytes" where
  "entries_bytes es = concat (map registry_entry_bytes es)"

definition blob_bytes :: "node_registry_blob_t \<Rightarrow> bytes" where
  "blob_bytes blob = le32 (nb_magic blob) @ le16 (nb_version blob) @ le16 (nb_count blob) @
     entries_bytes (nb_entries blob) @ le32 (nb_crc blob)"

definition blob_of :: "bytes \<Rightarrow> node_registry_blob_t" where
  "blob_of bs = \<lparr>nb_magic = of_le32 bs, nb_version = of_le16 (drop 4 bs), nb_count = of_le16 (drop 6 bs),
     nb_entries = map (\<lambda>i. registry_entry_of (drop (8 + i * ENTRY_SIZE) bs)) [0..<NODE_REGISTRY_MAX_NODES],
     nb_crc = of_le32 (drop 728 bs)\<rparr>"

definition node_registry_build_blob :: "node_registry_entry_t list \<Rightarrow> node_registry_blob_t" where
  "node_registry_build_blob es =
     (let kept = take NODE_REGISTRY_MAX_NODES (map node_registry_reset_runtime (filter node_registry_should_persist es))
      in \<lparr>nb_magic = NODE_REGISTRY_MAGIC, nb_version = NODE_REGISTRY_VERSION, nb_count = of_nat (length kept),
          nb_entries = kept @ replicate (NODE_REGISTRY_MAX_NODES - length kept) zero_entry,
          nb_crc = node_registry_crc32 (entries_bytes kept)\<rparr>)"

definition node_registry_save_blob :: "'w platform \<Rightarrow> node_registry_blob_t \<Rightarrow> 'w \<Rightarrow> bool \<times> 'w" where
  "node_registry_save_blob P blob w = nvs_store P NODE_REGISTRY_NAMESPACE NODE_REGISTRY_KEY (blob_bytes blob) w"

definition load_current :: "bytes \<Rightarrow> node_registry_blob_t option" where
  "load_current bs =
     (let blob = blob_of bs in
      if nb_magic blob \<noteq> NODE_REGISTRY_MAGIC \<or> nb_version blob \<noteq> NODE_REGISTRY_VERSION then None
      else if unat (nb_count blob) > NODE_REGISTRY_MAX_NODES then None
      else if nb_crc blob = node_registry_crc32 (take (unat (nb_count blob) * ENTRY_SIZE) (drop 8 bs)) then Some blob
      else None)"

definition load_legacy :: "bytes \<Rightarrow> node_registry_blob_t option" where
  "load_legacy bs =
     (let count = of_le16 (drop 6 bs) in
      if of_le32 bs \<noteq> NODE_REGISTRY_MAGIC \<or> of_le16 (drop 4 bs) \<noteq> NODE_REGISTRY_VERSION_V1 then None
      else if unat count > NODE_REGISTRY_MAX_NODES then None
      else if of_le32 (drop 648 bs) \<noteq> node_registry_crc32 (take (unat count * ENTRY_V1_SIZE) (drop 8 bs)) then None
      else let es = map (\<lambda>i. registry_entry_of_v1 (drop (8 + i * ENTRY_V1_SIZE) bs)) [0..<unat count] in
        Some \<lparr>nb_magic = NODE_REGISTRY_MAGIC, nb_version = NODE_REGISTRY_VERSION, nb_count = count,
          nb_entries = es @ replicate (NODE_REGISTRY_MAX_NODES - unat count) zero_entry,
          nb_crc = node_registry_crc32 (entries_bytes es)\<rparr>)"

definition node_registry_load_blob :: "'w platform \<Rightarrow> 'w \<Rightarrow> node_registry_blob_t option \<times> 'w" where
  "node_registry_load_blob P w =
     (case nvs_fetch P NODE_REGISTRY_NAMESPACE NODE_REGISTRY_KEY (\<lambda>len. len = BLOB_SIZE \<or> len = BLOB_V1_SIZE) w of
        (None, w) \<Rightarrow> (None, w)
      | (Some (len, bs), w) \<Rightarrow> (if len = BLOB_SIZE then load_current bs else load_legacy bs, w))"

subsection \<open>Operations\<close>

definition node_registry_init :: "'w platform \<Rightarrow> 'w registry \<Rightarrow> 'w registry" where
  "node_registry_init P r =
     (case node_registry_load_blob P (nr_world r) of (loaded, w) \<Rightarrow>
      let es = (case loaded of
          None \<Rightarrow> []
        | Some blob \<Rightarrow> map node_registry_reset_runtime (take (unat (nb_count blob)) (nb_entries blob)))
      in r\<lparr>nr_entries := es @ replicate (NODE_REGISTRY_MAX_NODES - length es) zero_entry,
           nr_last_sync_ms := 0, nr_initialized := True, nr_world := w\<rparr>)"

definition health_of :: "cluster_node_state_t \<Rightarrow> u8" where
  "health_of st = (if st = CLUSTER_NODE_ONLINE then 100 else if st = CLUSTER_NODE_SUSPECT then 50 else 0)"

definition sync_member :: "u32 \<Rightarrow> cluster_node_t \<Rightarrow> node_registry_entry_t list \<Rightarrow> node_registry_entry_t list" where
  "sync_member self_node n es =
     (if cn_node_id n = 0 \<or> cn_node_id n = self_node then es
      else case registry_entry (cn_node_id n) es of
        None \<Rightarrow> es
      | Some (i, es) \<Rightarrow>
        let e = (es ! i)\<lparr>ne_last_seen_ms := cn_last_seen_ms n, ne_cluster_state := cluster_state_code (cn_state n),
            ne_health := health_of (cn_state n)\<rparr>
        in es[i := e\<lparr>ne_offline_reason := node_registry_compute_offline_reason e,
             ne_recovery_capabilities := node_registry_default_recovery_caps\<rparr>])"

definition sync_self :: "u32 \<Rightarrow> node_registry_entry_t list \<Rightarrow> node_registry_entry_t list" where
  "sync_self self_node es =
     (if self_node = 0 then es
      else case node_registry_find self_node es of
        None \<Rightarrow> es
      | Some i \<Rightarrow> es[i := (es ! i)\<lparr>ne_cluster_state := cluster_state_code CLUSTER_NODE_ONLINE, ne_health := 100,
          ne_offline_reason := NODE_REGISTRY_OFFLINE_NONE, ne_recovery_capabilities := node_registry_default_recovery_caps\<rparr>])"

definition node_registry_process :: "'w platform \<Rightarrow> 'v cluster \<Rightarrow> 'w registry \<Rightarrow> 'w registry" where
  "node_registry_process P c r =
     (if \<not> nr_initialized r then r
      else case registry_now_ms P r of (now_ms, r) \<Rightarrow>
        if now_ms - nr_last_sync_ms r < NODE_REGISTRY_SYNC_MS then r
        else let self_node = mt_self_node (cluster_get_metrics c);
                 es = map node_registry_reset_runtime (nr_entries r);
                 es = fold (sync_member self_node) (cluster_manager_export_nodes True (int MAX_NODES) c) es
          in r\<lparr>nr_last_sync_ms := now_ms, nr_entries := sync_self self_node es\<rparr>)"

definition exchange :: "nat \<Rightarrow> nat \<Rightarrow> node_registry_entry_t list \<Rightarrow> node_registry_entry_t list" where
  "exchange i j es = (if ne_node_id (es ! j) < ne_node_id (es ! i) then es[i := es ! j, j := es ! i] else es)"

definition export_sort :: "node_registry_entry_t list \<Rightarrow> node_registry_entry_t list" where
  "export_sort es = fold (\<lambda>i. fold (exchange i) [Suc i..<length es]) [0..<length es - 1] es"

definition node_registry_export :: "bool \<Rightarrow> int \<Rightarrow> 'w registry \<Rightarrow> node_registry_entry_t list" where
  "node_registry_export out_entries max_entries r =
     (if \<not> out_entries \<or> max_entries \<le> 0 then []
      else export_sort (take (nat max_entries) (filter (\<lambda>e. ne_node_id e \<noteq> 0) (nr_entries r))))"

definition node_registry_note_transport :: "u32 \<Rightarrow> u8 \<Rightarrow> u32 \<Rightarrow> 'w registry \<Rightarrow> bool \<times> 'w registry" where
  "node_registry_note_transport node_id transport source_ip r =
     (if node_id = 0 then (False, r)
      else case registry_entry node_id (nr_entries r) of
        None \<Rightarrow> (False, r)
      | Some (i, es) \<Rightarrow>
        let e = es ! i;
            e = (if source_ip \<noteq> 0 then e\<lparr>ne_last_ip_addr := source_ip\<rparr> else e);
            mapped = node_registry_transport_from_cluster transport;
            e = (if mapped \<noteq> NODE_REGISTRY_TRANSPORT_NONE then e\<lparr>ne_last_transport := mapped\<rparr> else e)
        in (True, r\<lparr>nr_entries := es[i := e\<lparr>ne_offline_reason := node_registry_compute_offline_reason e\<rparr>]\<rparr>))"

definition node_registry_get_state :: "u32 \<Rightarrow> 'w registry \<Rightarrow> u8" where
  "node_registry_get_state node_id r =
     (if node_id = 0 then NODE_REGISTRY_STATE_DISCOVERED
      else case node_registry_find node_id (nr_entries r) of
        None \<Rightarrow> NODE_REGISTRY_STATE_DISCOVERED
      | Some i \<Rightarrow> ne_registry_state (nr_entries r ! i))"

definition node_registry_is_known :: "u32 \<Rightarrow> 'w registry \<Rightarrow> bool" where
  "node_registry_is_known node_id r \<longleftrightarrow> node_id \<noteq> 0 \<and> node_registry_find node_id (nr_entries r) \<noteq> None"

definition node_registry_is_adopted :: "u32 \<Rightarrow> 'w registry \<Rightarrow> bool" where
  "node_registry_is_adopted node_id r \<longleftrightarrow> node_registry_get_state node_id r \<ge> NODE_REGISTRY_STATE_ADOPTED"

definition node_registry_is_operational :: "u32 \<Rightarrow> 'w registry \<Rightarrow> bool" where
  "node_registry_is_operational node_id r \<longleftrightarrow> node_registry_get_state node_id r \<ge> NODE_REGISTRY_STATE_ACTIVE"

text \<open>The common end of the decisions: the changed table is stored, or the entry is put back.\<close>

definition registry_commit ::
  "'w platform \<Rightarrow> u32 \<Rightarrow> node_registry_entry_t \<Rightarrow> node_registry_entry_t list \<Rightarrow> 'w registry \<Rightarrow> bool \<times> 'w registry" where
  "registry_commit P node_id previous es r =
     (case node_registry_save_blob P (node_registry_build_blob es) (nr_world r) of (ok, w) \<Rightarrow>
      if ok then (True, r\<lparr>nr_entries := es, nr_world := w\<rparr>)
      else (False, r\<lparr>nr_entries := node_registry_restore_entry node_id previous es, nr_world := w\<rparr>))"

definition known_or_seeded :: "'v cluster \<Rightarrow> u32 \<Rightarrow> node_registry_entry_t list \<Rightarrow> node_registry_entry_t list option" where
  "known_or_seeded c node_id es =
     (case node_registry_find node_id es of
        Some _ \<Rightarrow> Some es
      | None \<Rightarrow> node_registry_seed_entry_from_cluster c node_id es)"

definition node_registry_adopt :: "'w platform \<Rightarrow> 'v cluster \<Rightarrow> u32 \<Rightarrow> 'w registry \<Rightarrow> bool \<times> 'w registry" where
  "node_registry_adopt P c node_id r =
     (if node_id = 0 then (False, r)
      else case known_or_seeded c node_id (nr_entries r) of
        None \<Rightarrow> (False, r)
      | Some es \<Rightarrow>
        (case node_registry_find node_id es of
           None \<Rightarrow> (False, r\<lparr>nr_entries := es\<rparr>)
         | Some i \<Rightarrow>
           let e = (if ne_registry_state (es ! i) < NODE_REGISTRY_STATE_ADOPTED
                    then (es ! i)\<lparr>ne_registry_state := NODE_REGISTRY_STATE_ADOPTED\<rparr> else es ! i)
           in registry_commit P node_id (es ! i) (es[i := e]) r))"

definition node_registry_configure ::
  "'w platform \<Rightarrow> 'v cluster \<Rightarrow> u32 \<Rightarrow> bytes option \<Rightarrow> bytes option \<Rightarrow> 'w registry \<Rightarrow> bool \<times> 'w registry" where
  "node_registry_configure P c node_id profile template_name r =
     (if node_id = 0 \<or> \<not> node_registry_profile_is_supported profile \<or> \<not> node_registry_template_is_valid template_name
      then (False, r)
      else case known_or_seeded c node_id (nr_entries r) of
        None \<Rightarrow> (False, r)
      | Some es \<Rightarrow>
        (case node_registry_find node_id es of
           None \<Rightarrow> (False, r\<lparr>nr_entries := es\<rparr>)
         | Some i \<Rightarrow>
           let preserved = ne_registry_state (es ! i);
               e = (es ! i)\<lparr>ne_profile := node_registry_copy_text NODE_REGISTRY_PROFILE_LEN profile,
                 ne_template_name := node_registry_copy_text NODE_REGISTRY_TEMPLATE_LEN template_name,
                 ne_registry_state := (if preserved \<ge> NODE_REGISTRY_STATE_ACTIVE then NODE_REGISTRY_STATE_ACTIVE
                                       else NODE_REGISTRY_STATE_CONFIGURED)\<rparr>
           in registry_commit P node_id (es ! i) (es[i := e]) r))"

definition node_registry_activate :: "'w platform \<Rightarrow> 'v cluster \<Rightarrow> u32 \<Rightarrow> 'w registry \<Rightarrow> bool \<times> 'w registry" where
  "node_registry_activate P c node_id r =
     (if node_id = 0 then (False, r)
      else case known_or_seeded c node_id (nr_entries r) of
        None \<Rightarrow> (False, r)
      | Some es \<Rightarrow>
        (case node_registry_find node_id es of
           None \<Rightarrow> (False, r\<lparr>nr_entries := es\<rparr>)
         | Some i \<Rightarrow>
           if ne_registry_state (es ! i) \<ge> NODE_REGISTRY_STATE_ADOPTED
           then registry_commit P node_id (es ! i) (es[i := (es ! i)\<lparr>ne_registry_state := NODE_REGISTRY_STATE_ACTIVE\<rparr>]) r
           else (False, r\<lparr>nr_entries := es\<rparr>)))"

definition node_registry_revoke :: "'w platform \<Rightarrow> u32 \<Rightarrow> 'w registry \<Rightarrow> bool \<times> 'w registry" where
  "node_registry_revoke P node_id r =
     (if node_id = 0 then (False, r)
      else case node_registry_find node_id (nr_entries r) of
        None \<Rightarrow> (False, r)
      | Some i \<Rightarrow>
        let e = nr_entries r ! i
        in registry_commit P node_id e ((nr_entries r)[i := e\<lparr>ne_registry_state := NODE_REGISTRY_STATE_DISCOVERED,
             ne_profile := (ne_profile e)[0 := 0], ne_template_name := (ne_template_name e)[0 := 0]\<rparr>]) r)"

definition node_registry_replace :: "'w platform \<Rightarrow> u32 \<Rightarrow> u32 \<Rightarrow> 'w registry \<Rightarrow> bool \<times> 'w registry" where
  "node_registry_replace P old_id new_id r =
     (if old_id = 0 \<or> new_id = 0 \<or> old_id = new_id then (False, r)
      else case node_registry_find old_id (nr_entries r) of
        None \<Rightarrow> (False, r)
      | Some i \<Rightarrow>
        let es = nr_entries r; old_entry = es ! i in
        (case slot node_registry_find node_registry_allocate new_id es of
           None \<Rightarrow> (False, r)
         | Some j \<Rightarrow>
           let e = (es ! j)\<lparr>ne_node_id := new_id, ne_registry_state := ne_registry_state old_entry,
               ne_profile := node_registry_copy_text NODE_REGISTRY_PROFILE_LEN (Some (ne_profile old_entry)),
               ne_template_name := node_registry_copy_text NODE_REGISTRY_TEMPLATE_LEN (Some (ne_template_name old_entry))\<rparr>
           in registry_commit P old_id old_entry (es[j := e, i := old_entry\<lparr>ne_node_id := 0\<rparr>]) r))"

text \<open>Names for reports.\<close>

definition node_registry_state_name :: "u8 \<Rightarrow> string" where
  "node_registry_state_name st =
     (if st = NODE_REGISTRY_STATE_ADOPTED then ''adopted''
      else if st = NODE_REGISTRY_STATE_CONFIGURED then ''configured''
      else if st = NODE_REGISTRY_STATE_ACTIVE then ''active'' else ''discovered'')"

definition node_registry_cluster_state_name :: "u8 \<Rightarrow> string" where
  "node_registry_cluster_state_name cluster_state =
     (if cluster_state = cluster_state_code CLUSTER_NODE_ONLINE then ''online''
      else if cluster_state = cluster_state_code CLUSTER_NODE_SUSPECT then ''suspect'' else ''offline'')"

definition node_registry_transport_name :: "u8 \<Rightarrow> string" where
  "node_registry_transport_name transport =
     (if transport = NODE_REGISTRY_TRANSPORT_WIFI_UDP then ''wifi-udp''
      else if transport = NODE_REGISTRY_TRANSPORT_ETHERNET_UDP then ''ethernet-udp''
      else if transport = NODE_REGISTRY_TRANSPORT_RS485_CLUSTER then ''rs485-cluster''
      else if transport = NODE_REGISTRY_TRANSPORT_WIFI_NOW then ''wifi-now'' else ''none'')"

definition node_registry_offline_reason_name :: "u8 \<Rightarrow> string" where
  "node_registry_offline_reason_name reason =
     (if reason = NODE_REGISTRY_OFFLINE_HEARTBEAT_TIMEOUT then ''heartbeat-timeout''
      else if reason = NODE_REGISTRY_OFFLINE_MISSING_ADDRESS then ''missing-address''
      else if reason = NODE_REGISTRY_OFFLINE_LINK_DEGRADED then ''link-degraded'' else ''none'')"

section \<open>The table as a map\<close>

lemmas text_lengths [simp] = NODE_REGISTRY_PROFILE_LEN_def NODE_REGISTRY_TEMPLATE_LEN_def

interpretation registry_table: keyed_table "\<lambda>e. ne_node_id e \<noteq> 0" ne_node_id "\<lambda>k. k \<noteq> 0"
  node_registry_find node_registry_allocate
proof unfold_locales
  show "node_registry_find k xs = Some i \<Longrightarrow> i < length xs \<and> ne_node_id (xs ! i) = k" for k xs i
    by (auto simp: node_registry_find_def dest: find_index_SomeD)
  show "k \<noteq> 0 \<Longrightarrow> node_registry_find k xs = Some i \<Longrightarrow> ne_node_id (xs ! i) \<noteq> 0" for k xs i
    by (auto simp: node_registry_find_def dest: find_index_SomeD)
  show "node_registry_find k xs = None \<Longrightarrow> e \<in> set xs \<Longrightarrow> ne_node_id e \<noteq> 0 \<Longrightarrow> ne_node_id e \<noteq> k" for k xs e
    by (auto simp: node_registry_find_def find_index_None)
  show "node_registry_allocate xs = Some i \<Longrightarrow> i < length xs \<and> \<not> ne_node_id (xs ! i) \<noteq> 0" for xs i
    by (auto simp: node_registry_allocate_def dest: find_index_SomeD)
  show "node_registry_allocate xs = None \<Longrightarrow> e \<in> set xs \<Longrightarrow> ne_node_id e \<noteq> 0" for xs e
    by (auto simp: node_registry_allocate_def find_index_None)
qed

abbreviation used_entry :: "node_registry_entry_t \<Rightarrow> bool" where
  "used_entry e \<equiv> ne_node_id e \<noteq> 0"

text \<open>A text of the table fills its 24 bytes and ends with a NUL.\<close>

definition text_ok :: "bytes \<Rightarrow> bool" where
  "text_ok t \<longleftrightarrow> length t = 24 \<and> last t = 0"

definition entry_ok :: "node_registry_entry_t \<Rightarrow> bool" where
  "entry_ok e \<longleftrightarrow> text_ok (ne_profile e) \<and> text_ok (ne_template_name e)"

definition entries_ok :: "node_registry_entry_t list \<Rightarrow> bool" where
  "entries_ok es \<longleftrightarrow> length es = NODE_REGISTRY_MAX_NODES \<and> keys_distinct used_entry ne_node_id es \<and>
     (\<forall>e \<in> set es. entry_ok e)"

text \<open>
  What the registry says of a node: its state, its profile and its template. \<open>record_of\<close> gives the
  same for a table; a node without an entry is discovered and has no profile.
\<close>

definition blank :: "u8 \<times> bytes \<times> bytes" where
  "blank = (NODE_REGISTRY_STATE_DISCOVERED, [], [])"

definition entry_record :: "node_registry_entry_t \<Rightarrow> u8 \<times> bytes \<times> bytes" where
  "entry_record e = (ne_registry_state e, c_str (ne_profile e), c_str (ne_template_name e))"

definition record_of :: "node_registry_entry_t list \<Rightarrow> u32 \<Rightarrow> u8 \<times> bytes \<times> bytes" where
  "record_of es = (\<lambda>node_id. if node_id = 0 then blank
     else case lookup node_registry_find node_id es of None \<Rightarrow> blank | Some e \<Rightarrow> entry_record e)"

lemma get_state_record: "node_registry_get_state node_id r = fst (record_of (nr_entries r) node_id)"
  by (auto simp: node_registry_get_state_def record_of_def lookup_def blank_def entry_record_def split: option.split)

lemma entries_ok_store:
  assumes "entries_ok es" "slot node_registry_find node_registry_allocate k es = Some i" "ne_node_id e = k" "k \<noteq> 0" "entry_ok e"
  shows "entries_ok (es[i := e]) \<and> record_of (es[i := e]) = (record_of es)(k := entry_record e) \<and>
    node_registry_find k (es[i := e]) = Some i"
proof -
  have d: "keys_distinct used_entry ne_node_id es" using assms(1) by (simp add: entries_ok_def)
  have "keys_distinct used_entry ne_node_id (es[i := e])"
    using registry_table.store_distinct [OF d assms(2,3)] assms(4) by blast
  then have ok: "entries_ok (es[i := e])"
    using assms(1,5) all_update [of es entry_ok e i] by (simp add: entries_ok_def)
  have look: "lookup node_registry_find k' (es[i := e]) = (if k' = k then Some e else lookup node_registry_find k' es)"
    if "k' \<noteq> 0" for k'
    using registry_table.lookup_store [OF d assms(2,3) _ assms(4) that] assms(3,4) by simp
  have "record_of (es[i := e]) = (record_of es)(k := entry_record e)"
    using look assms(4) by (auto simp: record_of_def fun_eq_iff)
  moreover have "node_registry_find k (es[i := e]) = Some i"
  proof (cases "node_registry_find k es")
    case None
    then have "node_registry_find k (es[i := e]) \<noteq> None" using look [OF assms(4)] by (auto simp: lookup_def)
    then obtain j where j: "node_registry_find k (es[i := e]) = Some j" by blast
    then have "j < length (es[i := e])" "ne_node_id ((es[i := e]) ! j) = k" "i < length es"
      using registry_table.find_Some [OF j] registry_table.slot_Some [OF assms(2)] by auto
    moreover have "ne_node_id (es ! j) \<noteq> k" if "j < length es"
      using registry_table.find_None [OF None, of "es ! j"] that assms(4) by auto
    ultimately have "j = i" by (metis length_list_update nth_list_update_neq)
    with j show ?thesis by simp
  next
    case (Some j)
    then have "j = i" using assms(2) by (simp add: slot_def)
    with Some assms(3) show ?thesis by (simp add: node_registry_find_def find_index_update_same)
  qed
  ultimately show ?thesis using ok by blast
qed

lemma find_slot: "node_registry_find k es = Some i \<Longrightarrow> slot node_registry_find node_registry_allocate k es = Some i"
  by (simp add: slot_def)

lemma find_entry:
  assumes "node_registry_find k es = Some i" "entries_ok es"
  shows "i < length es" "ne_node_id (es ! i) = k" "entry_ok (es ! i)"
    "k \<noteq> 0 \<Longrightarrow> record_of es k = entry_record (es ! i)"
  using registry_table.find_Some [OF assms(1)] assms by (auto simp: entries_ok_def record_of_def lookup_def)

lemma text_ok_zeros [simp]: "text_ok (replicate 24 0)"
  by (simp add: text_ok_def)

lemma text_ok_copy [simp]: "text_ok (node_registry_copy_text 24 src)"
  by (simp add: text_ok_def node_registry_copy_text_def)

lemma text_ok_cut: "text_ok t \<Longrightarrow> text_ok (t[0 := 0])"
  using last_list_update [of t 0 0] by (cases "t = []") (auto simp: text_ok_def)

lemma zero_entry_ok [simp]: "entry_ok zero_entry"
  by (simp add: entry_ok_def zero_entry_def)

lemma c_str_zeros [simp]: "c_str (replicate n 0) = []"
  by (simp add: c_str_def)

lemma registry_entry_ok:
  assumes "entries_ok es" "node_id \<noteq> 0" "registry_entry node_id es = Some (i, es')"
  shows "entries_ok es' \<and> node_registry_find node_id es' = Some i \<and> record_of es' = record_of es"
proof (cases "node_registry_find node_id es")
  case (Some j)
  with assms show ?thesis by (simp add: registry_entry_def)
next
  case None
  let ?e = "zero_entry\<lparr>ne_node_id := node_id, ne_registry_state := NODE_REGISTRY_STATE_DISCOVERED\<rparr>"
  have s: "slot node_registry_find node_registry_allocate node_id es = Some i" "es' = es[i := ?e]"
    using assms(3) None by (auto simp: registry_entry_def slot_def split: option.splits)
  have e: "entry_ok ?e" "entry_record ?e = blank" by (simp_all add: entry_ok_def zero_entry_def entry_record_def blank_def)
  have "record_of es node_id = blank" using None by (simp add: record_of_def lookup_def)
  then have "(record_of es)(node_id := entry_record ?e) = record_of es" using e(2) by (simp add: fun_upd_idem)
  then show ?thesis using entries_ok_store [OF assms(1) s(1) _ assms(2) e(1)] s(2) by simp
qed

text \<open>Overwriting an entry without touching what is on record.\<close>

lemma keep_record:
  assumes "entries_ok es" "node_registry_find k es = Some i" "k \<noteq> 0" "ne_node_id e = k"
    and "ne_registry_state e = ne_registry_state (es ! i)" "ne_profile e = ne_profile (es ! i)"
      "ne_template_name e = ne_template_name (es ! i)"
  shows "entries_ok (es[i := e]) \<and> record_of (es[i := e]) = record_of es \<and> node_registry_find k (es[i := e]) = Some i"
proof -
  note f = find_entry [OF assms(2,1)]
  have "entry_ok e" "entry_record e = record_of es k"
    using f assms(3,5-7) by (simp_all add: entry_ok_def entry_record_def)
  then show ?thesis using entries_ok_store [OF assms(1) find_slot [OF assms(2)] assms(4,3)] by simp
qed

lemma known_or_seeded_ok:
  assumes "entries_ok es" "node_id \<noteq> 0" "known_or_seeded c node_id es = Some es'"
  shows "entries_ok es' \<and> record_of es' = record_of es \<and> (\<exists>i. node_registry_find node_id es' = Some i)"
proof (cases "node_registry_find node_id es")
  case (Some j)
  with assms show ?thesis by (simp add: known_or_seeded_def)
next
  case None
  obtain i es1 target where
      "List.find (\<lambda>n. cn_node_id n = node_id) (cluster_manager_export_nodes True (int MAX_NODES) c) = Some target"
    and s: "registry_entry node_id es = Some (i, es1)" and es': "es' = (let
      e = (es1 ! i)\<lparr>ne_last_seen_ms := cn_last_seen_ms target, ne_cluster_state := cluster_state_code (cn_state target)\<rparr>
      in es1[i := e\<lparr>ne_offline_reason := node_registry_compute_offline_reason e,
           ne_recovery_capabilities := node_registry_default_recovery_caps\<rparr>])"
    using assms(3) None
    by (auto simp: known_or_seeded_def node_registry_seed_entry_from_cluster_def Let_def split: option.splits prod.splits if_splits)
  note e = registry_entry_ok [OF assms(1,2) s]
  have "ne_node_id (es1 ! i) = node_id" using e find_entry by blast
  then have "entries_ok es' \<and> record_of es' = record_of es1 \<and> node_registry_find node_id es' = Some i"
    unfolding es' Let_def using e assms(2) by (intro keep_record) auto
  with e show ?thesis by auto
qed

text \<open>The end of a decision on node \<open>k\<close> whose new entry is \<open>e\<close>.\<close>

lemma registry_commit_ok:
  assumes "entries_ok es" "node_registry_find k es = Some i" "k \<noteq> 0" "ne_node_id e = k" "entry_ok e"
    "registry_commit P k (es ! i) (es[i := e]) r = (ok, r')"
  shows "entries_ok (nr_entries r') \<and>
    record_of (nr_entries r') = (if ok then (record_of es)(k := entry_record e) else record_of es)"
proof -
  note st = entries_ok_store [OF assms(1) find_slot [OF assms(2)] assms(4,3,5)]
  have "nr_entries r' = (if ok then es[i := e] else es)"
    using assms(3,6) st by (auto simp: registry_commit_def node_registry_restore_entry_def split: prod.splits if_splits)
  with st assms(1) show ?thesis by simp
qed

subsection \<open>The operations on record\<close>

lemma adopt_record:
  assumes "entries_ok (nr_entries r)" "node_registry_adopt P c node_id r = (ok, r')"
  shows "entries_ok (nr_entries r') \<and> record_of (nr_entries r') = (if ok then (record_of (nr_entries r))(node_id :=
      apfst (max NODE_REGISTRY_STATE_ADOPTED) (record_of (nr_entries r) node_id)) else record_of (nr_entries r))"
proof (cases "node_id = 0 \<or> known_or_seeded c node_id (nr_entries r) = None")
  case True
  with assms show ?thesis by (auto simp: node_registry_adopt_def split: if_splits)
next
  case False
  then obtain es where es: "known_or_seeded c node_id (nr_entries r) = Some es" and id: "node_id \<noteq> 0" by blast
  note k = known_or_seeded_ok [OF assms(1) id es]
  then obtain i where i: "node_registry_find node_id es = Some i" by blast
  let ?e = "if ne_registry_state (es ! i) < NODE_REGISTRY_STATE_ADOPTED
    then (es ! i)\<lparr>ne_registry_state := NODE_REGISTRY_STATE_ADOPTED\<rparr> else es ! i"
  note f = find_entry [OF i]
  have e: "ne_node_id ?e = node_id" "entry_ok ?e" using f k by (simp_all add: entry_ok_def)
  have rec: "entry_record ?e = apfst (max NODE_REGISTRY_STATE_ADOPTED) (record_of es node_id)"
    using f(4) [OF _ id] k by (auto simp: entry_record_def max_def)
  have "registry_commit P node_id (es ! i) (es[i := ?e]) r = (ok, r')"
    using assms(2) id es i by (simp add: node_registry_adopt_def Let_def)
  from registry_commit_ok [OF _ i id e this] k rec show ?thesis by simp
qed

lemma configure_record:
  assumes "entries_ok (nr_entries r)" "node_registry_configure P c node_id profile template_name r = (ok, r')"
  shows "entries_ok (nr_entries r') \<and> record_of (nr_entries r') = (if ok then (record_of (nr_entries r))(node_id :=
      (if node_registry_get_state node_id r \<ge> NODE_REGISTRY_STATE_ACTIVE then NODE_REGISTRY_STATE_ACTIVE
       else NODE_REGISTRY_STATE_CONFIGURED,
       c_str (node_registry_copy_text NODE_REGISTRY_PROFILE_LEN profile),
       c_str (node_registry_copy_text NODE_REGISTRY_TEMPLATE_LEN template_name))) else record_of (nr_entries r)) \<and>
    (ok \<longrightarrow> node_registry_profile_is_supported profile \<and> node_registry_template_is_valid template_name)"
proof (cases "node_id = 0 \<or> known_or_seeded c node_id (nr_entries r) = None \<or>
    \<not> node_registry_profile_is_supported profile \<or> \<not> node_registry_template_is_valid template_name")
  case True
  with assms show ?thesis by (auto simp: node_registry_configure_def split: if_splits)
next
  case False
  then obtain es where es: "known_or_seeded c node_id (nr_entries r) = Some es" and id: "node_id \<noteq> 0" by auto
  note k = known_or_seeded_ok [OF assms(1) id es]
  then obtain i where i: "node_registry_find node_id es = Some i" by blast
  let ?e = "(es ! i)\<lparr>ne_profile := node_registry_copy_text NODE_REGISTRY_PROFILE_LEN profile,
    ne_template_name := node_registry_copy_text NODE_REGISTRY_TEMPLATE_LEN template_name,
    ne_registry_state := (if ne_registry_state (es ! i) \<ge> NODE_REGISTRY_STATE_ACTIVE then NODE_REGISTRY_STATE_ACTIVE
      else NODE_REGISTRY_STATE_CONFIGURED)\<rparr>"
  note f = find_entry [OF i]
  have e: "ne_node_id ?e = node_id" "entry_ok ?e"
    using f k by (simp_all add: entry_ok_def)
  have "record_of es node_id = entry_record (es ! i)" using f(4) [OF _ id] k by simp
  then have st: "node_registry_get_state node_id r = ne_registry_state (es ! i)"
    using k by (simp add: get_state_record entry_record_def)
  have "registry_commit P node_id (es ! i) (es[i := ?e]) r = (ok, r')"
    using assms(2) False es i by (simp add: node_registry_configure_def Let_def)
  from registry_commit_ok [OF _ i id e this] k False st show ?thesis by (simp add: entry_record_def)
qed

lemma activate_record:
  assumes "entries_ok (nr_entries r)" "node_registry_activate P c node_id r = (ok, r')"
  shows "entries_ok (nr_entries r') \<and> record_of (nr_entries r') = (if ok then (record_of (nr_entries r))(node_id :=
      apfst (\<lambda>_. NODE_REGISTRY_STATE_ACTIVE) (record_of (nr_entries r) node_id)) else record_of (nr_entries r)) \<and>
    (ok \<longrightarrow> node_registry_is_adopted node_id r)"
proof (cases "node_id = 0 \<or> known_or_seeded c node_id (nr_entries r) = None")
  case True
  with assms show ?thesis by (auto simp: node_registry_activate_def split: if_splits)
next
  case False
  then obtain es where es: "known_or_seeded c node_id (nr_entries r) = Some es" and id: "node_id \<noteq> 0" by blast
  note k = known_or_seeded_ok [OF assms(1) id es]
  then obtain i where i: "node_registry_find node_id es = Some i" by blast
  let ?e = "(es ! i)\<lparr>ne_registry_state := NODE_REGISTRY_STATE_ACTIVE\<rparr>"
  note f = find_entry [OF i]
  have e: "ne_node_id ?e = node_id" "entry_ok ?e" using f k by (simp_all add: entry_ok_def)
  have r: "record_of es node_id = entry_record (es ! i)" using f(4) [OF _ id] k by simp
  show ?thesis
  proof (cases "ne_registry_state (es ! i) \<ge> NODE_REGISTRY_STATE_ADOPTED")
    case True
    then have "registry_commit P node_id (es ! i) (es[i := ?e]) r = (ok, r')"
      using assms(2) id es i by (simp add: node_registry_activate_def Let_def)
    from registry_commit_ok [OF _ i id e this] k r True show ?thesis
      by (simp add: entry_record_def node_registry_is_adopted_def get_state_record)
  next
    case False
    then show ?thesis using assms(2) id es i k by (auto simp: node_registry_activate_def)
  qed
qed

lemma revoke_record:
  assumes "entries_ok (nr_entries r)" "node_registry_revoke P node_id r = (ok, r')"
  shows "entries_ok (nr_entries r') \<and>
    record_of (nr_entries r') = (if ok then (record_of (nr_entries r))(node_id := blank) else record_of (nr_entries r))"
proof (cases "node_id = 0 \<or> node_registry_find node_id (nr_entries r) = None")
  case True
  with assms show ?thesis by (auto simp: node_registry_revoke_def split: if_splits)
next
  case False
  then obtain i where i: "node_registry_find node_id (nr_entries r) = Some i" and id: "node_id \<noteq> 0" by blast
  let ?o = "nr_entries r ! i"
  let ?e = "?o\<lparr>ne_registry_state := NODE_REGISTRY_STATE_DISCOVERED,
    ne_profile := (ne_profile ?o)[0 := 0], ne_template_name := (ne_template_name ?o)[0 := 0]\<rparr>"
  note f = find_entry [OF i assms(1)]
  have e: "ne_node_id ?e = node_id" "entry_ok ?e" using f by (simp_all add: entry_ok_def text_ok_cut)
  have cut: "c_str (xs[0 := 0]) = []" for xs by (cases xs) (simp_all add: c_str_def)
  have "registry_commit P node_id ?o ((nr_entries r)[i := ?e]) r = (ok, r')"
    using assms(2) id i by (simp add: node_registry_revoke_def Let_def)
  from registry_commit_ok [OF assms(1) i id e this] show ?thesis by (simp add: entry_record_def blank_def cut)
qed

lemma reset_runtime_fields [simp]:
  "ne_node_id (node_registry_reset_runtime e) = ne_node_id e"
  "ne_registry_state (node_registry_reset_runtime e) = ne_registry_state e"
  "ne_profile (node_registry_reset_runtime e) = ne_profile e"
  "ne_template_name (node_registry_reset_runtime e) = ne_template_name e"
  by (simp_all add: node_registry_reset_runtime_def Let_def)

lemma reset_all_record:
  assumes "entries_ok es"
  shows "entries_ok (map node_registry_reset_runtime es) \<and> record_of (map node_registry_reset_runtime es) = record_of es"
proof -
  have d: "keys_distinct used_entry ne_node_id es" using assms by (simp add: entries_ok_def)
  have "keys_distinct used_entry ne_node_id (map node_registry_reset_runtime es)"
    by (rule keys_distinct_map [OF d]) simp_all
  moreover have "lookup node_registry_find k (map node_registry_reset_runtime es) =
      map_option node_registry_reset_runtime (lookup node_registry_find k es)" if "k \<noteq> 0" for k
    by (rule registry_table.lookup_map [OF d that]) simp_all
  ultimately show ?thesis using assms
    by (auto simp: entries_ok_def entry_ok_def record_of_def entry_record_def fun_eq_iff split: option.split)
qed

lemma sync_member_record:
  assumes "entries_ok es"
  shows "entries_ok (sync_member self_node n es) \<and> record_of (sync_member self_node n es) = record_of es"
proof (cases "cn_node_id n = 0 \<or> cn_node_id n = self_node \<or> registry_entry (cn_node_id n) es = None")
  case True
  with assms show ?thesis by (auto simp: sync_member_def split: if_splits)
next
  case False
  then obtain i es' where s: "registry_entry (cn_node_id n) es = Some (i, es')" and id: "cn_node_id n \<noteq> 0" by auto
  note e = registry_entry_ok [OF assms id s]
  have "ne_node_id (es' ! i) = cn_node_id n" using e find_entry by blast
  then show ?thesis
    using e id False keep_record [of es' "cn_node_id n" i] by (simp add: sync_member_def s Let_def)
qed

lemma sync_members_record:
  assumes "entries_ok es"
  shows "entries_ok (fold (sync_member self_node) ns es) \<and> record_of (fold (sync_member self_node) ns es) = record_of es"
  using assms
proof (induction ns arbitrary: es)
  case (Cons n ns)
  then show ?case using sync_member_record [OF Cons.prems, of self_node n] Cons.IH [of "sync_member self_node n es"] by simp
qed simp

lemma sync_self_record:
  assumes "entries_ok es"
  shows "entries_ok (sync_self self_node es) \<and> record_of (sync_self self_node es) = record_of es"
proof (cases "self_node = 0 \<or> node_registry_find self_node es = None")
  case True
  with assms show ?thesis by (auto simp: sync_self_def split: if_splits)
next
  case False
  then obtain i where i: "node_registry_find self_node es = Some i" "self_node \<noteq> 0" by blast
  have "ne_node_id (es ! i) = self_node" using find_entry [OF i(1) assms] by simp
  then show ?thesis using keep_record [OF assms i] i(2) by (simp add: sync_self_def i(1))
qed

lemma process_record:
  assumes "entries_ok (nr_entries r)"
  shows "entries_ok (nr_entries (node_registry_process P c r)) \<and>
    record_of (nr_entries (node_registry_process P c r)) = record_of (nr_entries r)"
proof -
  have now: "nr_entries (snd (registry_now_ms P r)) = nr_entries r" by (simp add: registry_now_ms_def case_prod_unfold)
  show ?thesis
    using assms now reset_all_record [OF assms] sync_members_record sync_self_record
    by (simp add: node_registry_process_def case_prod_unfold Let_def)
qed

lemma note_transport_record:
  assumes "entries_ok (nr_entries r)" "node_registry_note_transport node_id transport source_ip r = (ok, r')"
  shows "entries_ok (nr_entries r') \<and> record_of (nr_entries r') = record_of (nr_entries r)"
proof (cases "node_id = 0 \<or> registry_entry node_id (nr_entries r) = None")
  case True
  with assms show ?thesis by (auto simp: node_registry_note_transport_def split: if_splits)
next
  case False
  then obtain i es where s: "registry_entry node_id (nr_entries r) = Some (i, es)" and id: "node_id \<noteq> 0" by auto
  note e = registry_entry_ok [OF assms(1) id s]
  obtain n where n: "nr_entries r' = es[i := n]" "ne_node_id n = ne_node_id (es ! i)" "ne_registry_state n = ne_registry_state (es ! i)"
      "ne_profile n = ne_profile (es ! i)" "ne_template_name n = ne_template_name (es ! i)"
    using assms(2) id s by (auto simp: node_registry_note_transport_def Let_def)
  have "ne_node_id n = node_id" using e find_entry n(2) by metis
  with n e id show ?thesis using keep_record [of es node_id i n] by simp
qed

lemma text_ok_copied:
  assumes "text_ok t"
  shows "c_str (node_registry_copy_text 24 (Some t)) = c_str t"
proof -
  have t: "t = butlast t @ [0]" "length (butlast t) = 23"
    using assms append_butlast_last_id [of t] by (cases "t = []"; simp add: text_ok_def)+
  have "c_str t = c_str (butlast t)" by (subst t(1)) (rule c_str_snoc)
  also have "length \<dots> \<le> 23" using t(2) unfolding c_str_def by (metis length_takeWhile_le)
  finally show ?thesis by (simp add: node_registry_copy_text_def c_str_strncpy)
qed

lemma replace_record:
  assumes "entries_ok (nr_entries r)" "old_id \<noteq> 0" "new_id \<noteq> 0" "old_id \<noteq> new_id"
    and "node_registry_find old_id (nr_entries r) \<noteq> None"
    and "slot node_registry_find node_registry_allocate new_id (nr_entries r) \<noteq> None"
    and "node_registry_replace P old_id new_id r = (ok, r')"
  shows "entries_ok (nr_entries r') \<and> record_of (nr_entries r') =
    (record_of (nr_entries r))(new_id := record_of (nr_entries r) old_id, old_id := blank)"
proof -
  let ?es = "nr_entries r"
  obtain i where i: "node_registry_find old_id ?es = Some i" using assms(5) by blast
  obtain j where j: "slot node_registry_find node_registry_allocate new_id ?es = Some j" using assms(6) by blast
  note f = find_entry [OF i assms(1)]
  let ?e = "(?es ! j)\<lparr>ne_node_id := new_id, ne_registry_state := ne_registry_state (?es ! i),
    ne_profile := node_registry_copy_text 24 (Some (ne_profile (?es ! i))),
    ne_template_name := node_registry_copy_text 24 (Some (ne_template_name (?es ! i)))\<rparr>"
  let ?o = "(?es ! i)\<lparr>ne_node_id := 0\<rparr>"
  have e: "ne_node_id ?e = new_id" "entry_ok ?e" by (simp_all add: entry_ok_def)
  have rec: "entry_record ?e = record_of ?es old_id"
    using f(3) f(4) [OF assms(2)] by (simp add: entry_record_def entry_ok_def text_ok_copied)
  note st = entries_ok_store [OF assms(1) j e(1) assms(3) e(2)]
  have "ne_node_id (?es ! j) \<noteq> old_id"
    using registry_table.slot_Some [OF j] registry_table.find_Some assms(2,4) by fastforce
  then have fi: "node_registry_find old_id (?es[j := ?e]) = Some i"
    using i assms(4) by (simp add: node_registry_find_def find_index_update_other)
  have d: "keys_distinct used_entry ne_node_id (?es[j := ?e])" using st by (simp add: entries_ok_def)
  note free = registry_table.lookup_free [OF d fi _ assms(2), of ?o]
  have "entry_ok ?o" using f(3) by (simp add: entry_ok_def)
  then have ok: "entries_ok (?es[j := ?e, i := ?o])"
    using st free [of old_id] assms(2) all_update [of "?es[j := ?e]" entry_ok ?o i] by (simp add: entries_ok_def)
  have look: "lookup node_registry_find k (?es[j := ?e, i := ?o]) =
      (if k = old_id then None else lookup node_registry_find k (?es[j := ?e]))" if "k \<noteq> 0" for k
    using free [of k] that by simp
  have "record_of (?es[j := ?e, i := ?o]) = (record_of (?es[j := ?e]))(old_id := blank)"
    using look by (auto simp: record_of_def fun_eq_iff)
  moreover have "node_registry_find old_id (?es[j := ?e, i := ?o]) = None"
    using look [OF assms(2)] by (simp add: lookup_def)
  then have "nr_entries r' = ?es[j := ?e, i := ?o]"
    using assms(2-4,7) i j
    by (auto simp: node_registry_replace_def registry_commit_def node_registry_restore_entry_def Let_def
        split: prod.splits if_splits)
  ultimately show ?thesis using ok st rec by simp
qed

section \<open>Storage\<close>

lemma length_entry_bytes_registry [simp]: "entry_ok e \<Longrightarrow> length (registry_entry_bytes e) = 72"
  by (simp add: registry_entry_bytes_def entry_ok_def text_ok_def)

lemma registry_entry_of_bytes: "entry_ok e \<Longrightarrow> registry_entry_of (registry_entry_bytes e @ ys) = e"
  by (simp add: registry_entry_of_def registry_entry_bytes_def entry_ok_def text_ok_def nth_append)

lemma entries_bytes_simps [simp]:
  "entries_bytes [] = []" "entries_bytes (e # es) = registry_entry_bytes e @ entries_bytes es"
  "entries_bytes (es @ fs) = entries_bytes es @ entries_bytes fs"
  by (simp_all add: entries_bytes_def)

lemma length_entries_bytes: "\<forall>e \<in> set es. entry_ok e \<Longrightarrow> length (entries_bytes es) = length es * 72"
  by (induction es) auto

lemma drop_entries:
  "\<forall>e \<in> set es. entry_ok e \<Longrightarrow> i < length es \<Longrightarrow>
   drop (i * 72) (entries_bytes es @ ys) = registry_entry_bytes (es ! i) @ entries_bytes (drop (Suc i) es) @ ys"
proof (induction es arbitrary: i)
  case (Cons e es)
  then show ?case by (cases i) simp_all
qed simp

lemma load_saved:
  assumes "\<forall>e \<in> set ks. entry_ok e" "length ks \<le> 10"
    and "blob = \<lparr>nb_magic = NODE_REGISTRY_MAGIC, nb_version = NODE_REGISTRY_VERSION, nb_count = of_nat (length ks),
      nb_entries = ks @ replicate (10 - length ks) zero_entry, nb_crc = node_registry_crc32 (entries_bytes ks)\<rparr>"
  shows "length (blob_bytes blob) = 732" "load_current (blob_bytes blob) = Some blob"
proof -
  let ?all = "ks @ replicate (10 - length ks) zero_entry"
  have ok: "\<forall>e \<in> set ?all. entry_ok e" and len: "length ?all = 10" using assms(1,2) by auto
  have bytes: "blob_bytes blob = le32 NODE_REGISTRY_MAGIC @ le16 NODE_REGISTRY_VERSION @ le16 (of_nat (length ks)) @
      entries_bytes ?all @ le32 (node_registry_crc32 (entries_bytes ks))" (is "_ = _ @ _ @ _ @ _ @ ?tail")
    by (simp add: blob_bytes_def assms(3))
  have eb: "length (entries_bytes ?all) = 720" using length_entries_bytes [OF ok] len by simp
  show "length (blob_bytes blob) = 732" unfolding bytes using eb by simp
  have cnt: "unat (of_nat (length ks) :: u16) = length ks" using assms(2) by simp
  have d8: "drop 8 (blob_bytes blob) = entries_bytes ?all @ ?tail"
    unfolding bytes by simp
  have es: "registry_entry_of (drop (8 + i * 72) (blob_bytes blob)) = ?all ! i" if "i < 10" for i
  proof -
    have "drop (8 + i * 72) (blob_bytes blob) = drop (i * 72) (drop 8 (blob_bytes blob))" by (simp add: add.commute)
    also have "\<dots> = registry_entry_bytes (?all ! i) @ entries_bytes (drop (Suc i) ?all) @ ?tail"
      unfolding d8 using drop_entries [OF ok, of i ?tail] len that by simp
    finally show ?thesis using registry_entry_of_bytes ok len that by (metis nth_mem)
  qed
  have "map (\<lambda>i. registry_entry_of (drop (8 + i * 72) (blob_bytes blob))) [0..<10] = ?all"
    using es len by (intro nth_equalityI) simp_all
  moreover have "drop 728 (blob_bytes blob) = ?tail"
  proof -
    have "drop 728 (blob_bytes blob) = drop 720 (drop 8 (blob_bytes blob))" by simp
    then show ?thesis unfolding d8 using eb by simp
  qed
  moreover have "of_le32 (blob_bytes blob) = NODE_REGISTRY_MAGIC" "of_le16 (drop 4 (blob_bytes blob)) = NODE_REGISTRY_VERSION"
      "of_le16 (drop 6 (blob_bytes blob)) = of_nat (length ks)"
    unfolding bytes by simp_all
  moreover have "of_le32 ?tail = node_registry_crc32 (entries_bytes ks)" by simp
  ultimately have b: "blob_of (blob_bytes blob) = blob"
    unfolding blob_of_def assms(3) by (simp add: ENTRY_SIZE_def NODE_REGISTRY_MAX_NODES_def)
  have "take (length ks * 72) (entries_bytes ?all @ ?tail) = entries_bytes ks"
    using length_entries_bytes [OF assms(1)] by simp
  then show "load_current (blob_bytes blob) = Some blob"
    unfolding load_current_def b d8 using cnt assms(2)
    by (simp add: assms(3) Let_def ENTRY_SIZE_def NODE_REGISTRY_MAX_NODES_def)
qed

lemma record_of_mem:
  assumes "entries_ok es" "e \<in> set es" "ne_node_id e = k" "k \<noteq> 0"
  shows "record_of es k = entry_record e"
  using assms registry_table.lookup_iff [of es k e] by (simp add: record_of_def entries_ok_def)

lemma record_of_absent: "\<forall>e \<in> set es. ne_node_id e \<noteq> k \<Longrightarrow> record_of es k = blank"
  using registry_table.lookup_None_iff [of k es] by (simp add: record_of_def)

lemma not_persisted_blank:
  assumes "entry_ok e" "ne_node_id e \<noteq> 0" "\<not> node_registry_should_persist e"
  shows "entry_record e = blank"
proof -
  have "c_str t = []" if "text_ok t" "t ! 0 = 0" for t
    using that by (cases t) (simp_all add: text_ok_def c_str_def)
  then show ?thesis using assms by (simp add: node_registry_should_persist_def entry_record_def blank_def entry_ok_def)
qed

text \<open>What a boot makes of the entries that were kept: the same records.\<close>

lemma record_restored:
  assumes "entries_ok es"
    and "rs = map node_registry_reset_runtime (map node_registry_reset_runtime (filter node_registry_should_persist es)) @
      replicate (10 - length (filter node_registry_should_persist es)) zero_entry"
  shows "entries_ok rs \<and> record_of rs = record_of es"
proof -
  let ?f = "filter node_registry_should_persist es"
  have d: "keys_distinct used_entry ne_node_id es" and ok: "\<forall>e \<in> set es. entry_ok e" and len: "length ?f \<le> 10"
    using assms(1) length_filter_le [of node_registry_should_persist es]
    by (auto simp: entries_ok_def NODE_REGISTRY_MAX_NODES_def)
  have z: "ne_node_id zero_entry = 0" by (simp add: zero_entry_def)
  have "keys_distinct used_entry ne_node_id (map node_registry_reset_runtime (map node_registry_reset_runtime ?f))"
    by (intro keys_distinct_map keys_distinct_filter d) simp_all
  then have rs: "entries_ok rs"
    unfolding entries_ok_def assms(2) using len ok z
    by (auto simp: keys_distinct_free NODE_REGISTRY_MAX_NODES_def entry_ok_def zero_entry_def)
  have "record_of rs k = record_of es k" if k: "k \<noteq> 0" for k
  proof (cases "\<exists>e \<in> set es. ne_node_id e = k")
    case False
    then have "\<forall>e \<in> set rs. ne_node_id e \<noteq> k" using k z by (auto simp: assms(2))
    with False show ?thesis by (simp add: record_of_absent)
  next
    case True
    then obtain e where e: "e \<in> set es" "ne_node_id e = k" by blast
    show ?thesis
    proof (cases "node_registry_should_persist e")
      case True
      let ?e = "node_registry_reset_runtime (node_registry_reset_runtime e)"
      have "?e \<in> set rs" using True e(1) by (simp add: assms(2))
      then have "record_of rs k = entry_record ?e" using rs e(2) k by (intro record_of_mem) auto
      then show ?thesis using record_of_mem [OF assms(1) e k] by (simp add: entry_record_def)
    next
      case False
      have "e' = e" if "e' \<in> set es" "ne_node_id e' = k" for e'
        using d e that k by (metis (mono_tags, lifting) in_set_conv_nth keys_distinctD)
      then have "\<forall>e' \<in> set rs. ne_node_id e' \<noteq> k" using False k z by (auto simp: assms(2))
      then show ?thesis using not_persisted_blank [of e] record_of_mem [OF assms(1) e k] ok e k False
        by (simp add: record_of_absent)
    qed
  qed
  then show ?thesis using rs by (auto simp: fun_eq_iff record_of_def)
qed

lemma init_restores:
  assumes "entries_ok es" "nvs_holds P NODE_REGISTRY_NAMESPACE NODE_REGISTRY_KEY (blob_bytes (node_registry_build_blob es)) (nr_world r)"
  shows "entries_ok (nr_entries (node_registry_init P r)) \<and> record_of (nr_entries (node_registry_init P r)) = record_of es"
proof -
  let ?ks = "map node_registry_reset_runtime (filter node_registry_should_persist es)"
  let ?blob = "node_registry_build_blob es"
  have len: "length ?ks \<le> 10" using assms(1) length_filter_le [of node_registry_should_persist es]
    by (simp add: entries_ok_def NODE_REGISTRY_MAX_NODES_def)
  have ok: "\<forall>e \<in> set ?ks. entry_ok e" using assms(1) by (auto simp: entries_ok_def entry_ok_def)
  have blob: "?blob = \<lparr>nb_magic = NODE_REGISTRY_MAGIC, nb_version = NODE_REGISTRY_VERSION, nb_count = of_nat (length ?ks),
      nb_entries = ?ks @ replicate (10 - length ?ks) zero_entry, nb_crc = node_registry_crc32 (entries_bytes ?ks)\<rparr>"
    unfolding node_registry_build_blob_def Let_def using len by (simp add: NODE_REGISTRY_MAX_NODES_def)
  note saved = load_saved [OF ok len blob]
  have "fst (node_registry_load_blob P (nr_world r)) = Some ?blob"
    using nvs_fetch_holds [OF assms(2), of "\<lambda>len. len = BLOB_SIZE \<or> len = BLOB_V1_SIZE"] saved
    by (auto simp: node_registry_load_blob_def BLOB_SIZE_def split: prod.splits)
  then have "nr_entries (node_registry_init P r) =
      map node_registry_reset_runtime ?ks @ replicate (10 - length (filter node_registry_should_persist es)) zero_entry"
    using len by (auto simp: node_registry_init_def Let_def blob NODE_REGISTRY_MAX_NODES_def split: prod.splits)
  from record_restored [OF assms(1) this] show ?thesis .
qed

section \<open>Export\<close>

lemma mset_exchange: "i < length es \<Longrightarrow> j < length es \<Longrightarrow> mset (exchange i j es) = mset es"
  using mset_swap [of j es i] by (simp add: exchange_def)

lemma length_exchange [simp]: "length (exchange i j es) = length es"
  by (simp add: exchange_def)

text \<open>One pass of the inner loop puts the least of the rest at position \<open>i\<close>.\<close>

lemma exchange_pass:
  assumes "i < m" "m \<le> length es"
  shows "mset (fold (exchange i) [Suc i..<m] es) = mset es \<and>
    (\<forall>k < i. fold (exchange i) [Suc i..<m] es ! k = es ! k) \<and>
    (\<forall>k. i < k \<and> k < m \<longrightarrow> ne_node_id (fold (exchange i) [Suc i..<m] es ! i) \<le> ne_node_id (fold (exchange i) [Suc i..<m] es ! k))"
  using assms
proof (induction m)
  case (Suc m)
  show ?case
  proof (cases "i < m")
    case False
    with Suc.prems have "m = i" by simp
    then show ?thesis by auto
  next
    case True
    let ?xs = "fold (exchange i) [Suc i..<m] es"
    have IH: "mset ?xs = mset es" "\<forall>k < i. ?xs ! k = es ! k" "\<forall>k. i < k \<and> k < m \<longrightarrow> ne_node_id (?xs ! i) \<le> ne_node_id (?xs ! k)"
      using Suc True by simp_all
    have len: "length ?xs = length es" using IH(1) by (metis size_mset)
    have step: "fold (exchange i) [Suc i..<Suc m] es = exchange i m ?xs" using True by simp
    have "mset (exchange i m ?xs) = mset es" using mset_exchange [of i ?xs m] IH(1) len Suc.prems True by simp
    moreover have "\<forall>k < i. exchange i m ?xs ! k = es ! k" using IH(2) True by (simp add: exchange_def)
    moreover have "ne_node_id (exchange i m ?xs ! i) \<le> ne_node_id (exchange i m ?xs ! k)" if "i < k" "k < Suc m" for k
      using IH(3) that len Suc.prems True by (cases "k = m") (auto simp: exchange_def nth_list_update intro: order_trans less_imp_le)
    ultimately show ?thesis unfolding step by blast
  qed
qed simp

lemma same_prefix_rest:
  assumes "mset ys = mset xs" "\<forall>k < m. ys ! k = xs ! k" "m \<le> k" "k < length xs"
  shows "\<exists>l. m \<le> l \<and> l < length xs \<and> ys ! k = xs ! l"
proof -
  have len: "length ys = length xs" by (rule mset_eq_length [OF assms(1)])
  have "take m ys = take m xs" using assms(2) len by (intro nth_equalityI) simp_all
  moreover have "mset (take m zs) + mset (drop m zs) = mset zs" for zs :: "'a list"
    by (simp flip: mset_append)
  ultimately have "mset (drop m ys) = mset (drop m xs)" using assms(1) by (metis add_left_imp_eq)
  then have same: "set (drop m ys) = set (drop m xs)" by (metis set_mset_mset)
  have "drop m ys ! (k - m) \<in> set (drop m ys)" using assms(3,4) len by (intro nth_mem) simp
  then have "ys ! k \<in> set (drop m xs)" using same assms(3,4) len by simp
  then obtain l where "l < length xs - m" "drop m xs ! l = ys ! k" by (auto simp: in_set_conv_nth)
  then show ?thesis by (intro exI [of _ "m + l"]) simp
qed

lemma export_sort_sorted:
  "mset (export_sort es) = mset es \<and> sorted (map ne_node_id (export_sort es))"
proof -
  let ?n = "length es"
  have inv: "mset (fold (\<lambda>i. fold (exchange i) [Suc i..<?n]) [0..<m] es) = mset es \<and>
      (\<forall>i k. i < m \<and> i < k \<and> k < ?n \<longrightarrow>
         ne_node_id (fold (\<lambda>i. fold (exchange i) [Suc i..<?n]) [0..<m] es ! i) \<le>
         ne_node_id (fold (\<lambda>i. fold (exchange i) [Suc i..<?n]) [0..<m] es ! k))" if "m \<le> ?n - 1" for m
    using that
  proof (induction m)
    case (Suc m)
    let ?xs = "fold (\<lambda>i. fold (exchange i) [Suc i..<?n]) [0..<m] es"
    let ?ys = "fold (exchange m) [Suc m..<?n] ?xs"
    have IH: "mset ?xs = mset es" "\<forall>i k. i < m \<and> i < k \<and> k < ?n \<longrightarrow> ne_node_id (?xs ! i) \<le> ne_node_id (?xs ! k)"
      using Suc by simp_all
    have len: "length ?xs = ?n" using IH(1) by (metis size_mset)
    have m: "m < ?n" using Suc.prems by simp
    have pass: "mset ?ys = mset ?xs" "\<forall>k < m. ?ys ! k = ?xs ! k"
        "\<forall>k. m < k \<and> k < ?n \<longrightarrow> ne_node_id (?ys ! m) \<le> ne_node_id (?ys ! k)"
      using exchange_pass [OF m, of ?xs] len by simp_all
    have rest: "\<exists>l. m \<le> l \<and> l < ?n \<and> ?ys ! k = ?xs ! l" if "m \<le> k" "k < ?n" for k
      using same_prefix_rest [OF pass(1,2) that(1)] len that(2) by simp
    have "ne_node_id (?ys ! i) \<le> ne_node_id (?ys ! k)" if b: "i < Suc m" "i < k" "k < ?n" for i k
    proof (cases "i = m")
      case False
      then have i: "i < m" "?ys ! i = ?xs ! i" using b(1) pass(2) by auto
      show ?thesis
      proof (cases "k < m")
        case True
        then show ?thesis using IH(2) i b pass(2) by simp
      next
        case False
        then obtain l where "m \<le> l" "l < ?n" "?ys ! k = ?xs ! l" using rest [of k] b(3) by auto
        then show ?thesis using IH(2) i by simp
      qed
    qed (use pass(3) b in simp)
    then show ?case using pass(1) IH(1) by simp
  qed simp
  have "mset (export_sort es) = mset es" "length (export_sort es) = ?n" 
    using inv [of "?n - 1"] by (simp_all add: export_sort_def) (metis size_mset)
  moreover have "sorted (map ne_node_id (export_sort es))"
    using inv [of "?n - 1"] calculation(2) by (auto simp: sorted_iff_nth_mono_less export_sort_def)
  ultimately show ?thesis by simp
qed

section \<open>Admission\<close>

text \<open>
  The abstract registry is a map from nodes to records. A decision is granted only where
  \<open>allowed\<close> holds and then changes the record of one node.
\<close>

datatype decision = Adopt u32 | Configure u32 "bytes option" "bytes option" | Activate u32 | Revoke u32

definition decide :: "decision \<Rightarrow> (u32 \<Rightarrow> u8 \<times> bytes \<times> bytes) \<Rightarrow> u32 \<Rightarrow> u8 \<times> bytes \<times> bytes" where
  "decide d m =
     (case d of
        Adopt k \<Rightarrow> m(k := apfst (max NODE_REGISTRY_STATE_ADOPTED) (m k))
      | Configure k profile template_name \<Rightarrow> m(k :=
          (if fst (m k) \<ge> NODE_REGISTRY_STATE_ACTIVE then NODE_REGISTRY_STATE_ACTIVE else NODE_REGISTRY_STATE_CONFIGURED,
           c_str (node_registry_copy_text NODE_REGISTRY_PROFILE_LEN profile),
           c_str (node_registry_copy_text NODE_REGISTRY_TEMPLATE_LEN template_name)))
      | Activate k \<Rightarrow> m(k := apfst (\<lambda>_. NODE_REGISTRY_STATE_ACTIVE) (m k))
      | Revoke k \<Rightarrow> m(k := blank))"

definition allowed :: "decision \<Rightarrow> (u32 \<Rightarrow> u8 \<times> bytes \<times> bytes) \<Rightarrow> bool" where
  "allowed d m =
     (case d of
        Configure k profile template_name \<Rightarrow>
          node_registry_profile_is_supported profile \<and> node_registry_template_is_valid template_name
      | Activate k \<Rightarrow> fst (m k) \<ge> NODE_REGISTRY_STATE_ADOPTED
      | _ \<Rightarrow> True)"

definition perform :: "'w platform \<Rightarrow> 'v cluster \<Rightarrow> decision \<Rightarrow> 'w registry \<Rightarrow> bool \<times> 'w registry" where
  "perform P c d r =
     (case d of
        Adopt k \<Rightarrow> node_registry_adopt P c k r
      | Configure k profile template_name \<Rightarrow> node_registry_configure P c k profile template_name r
      | Activate k \<Rightarrow> node_registry_activate P c k r
      | Revoke k \<Rightarrow> node_registry_revoke P k r)"

lemma perform_record:
  assumes "entries_ok (nr_entries r)" "perform P c d r = (ok, r')"
  shows "entries_ok (nr_entries r') \<and> record_of (nr_entries r') =
      (if ok then decide d (record_of (nr_entries r)) else record_of (nr_entries r)) \<and>
    (ok \<longrightarrow> allowed d (record_of (nr_entries r)))"
proof (cases d)
  case (Adopt k)
  then show ?thesis using adopt_record [OF assms(1), of P c k ok r'] assms(2) by (simp add: perform_def decide_def allowed_def)
next
  case (Configure k p t)
  then show ?thesis using configure_record [OF assms(1), of P c k p t ok r'] assms(2)
    by (simp add: perform_def decide_def allowed_def get_state_record)
next
  case (Activate k)
  then show ?thesis using activate_record [OF assms(1), of P c k ok r'] assms(2)
    by (simp add: perform_def decide_def allowed_def node_registry_is_adopted_def get_state_record)
next
  case (Revoke k)
  then show ?thesis using revoke_record [OF assms(1), of P k ok r'] assms(2) by (simp add: perform_def decide_def allowed_def)
qed

lemma commit_stored:
  assumes "nvs_durable P" "registry_commit P k previous es r = (True, r')"
  shows "nvs_holds P NODE_REGISTRY_NAMESPACE NODE_REGISTRY_KEY (blob_bytes (node_registry_build_blob (nr_entries r'))) (nr_world r')"
  using assms nvs_store_holds
  by (auto simp: registry_commit_def node_registry_save_blob_def split: prod.splits if_splits)

lemma perform_stored:
  assumes "nvs_durable P" "perform P c d r = (True, r')"
  shows "nvs_holds P NODE_REGISTRY_NAMESPACE NODE_REGISTRY_KEY (blob_bytes (node_registry_build_blob (nr_entries r'))) (nr_world r')"
proof -
  have "\<exists>k previous es. registry_commit P k previous es r = (True, r')"
    using assms(2)
    by (auto simp: perform_def node_registry_adopt_def node_registry_configure_def node_registry_activate_def
        node_registry_revoke_def Let_def split: decision.splits option.splits if_splits)
  with commit_stored [OF assms(1)] show ?thesis by blast
qed

section \<open>Properties\<close>


definition demo_registry :: "sim_world registry" where
  "demo_registry = \<lparr>nr_entries = zero_entry\<lparr>ne_node_id := 5, ne_registry_state := NODE_REGISTRY_STATE_ADOPTED\<rparr> # zero_entry # replicate 8 zero_entry,
     nr_initialized = True, nr_last_sync_ms = 0, nr_world = sim_init\<rparr>"

lemma demo_registry_ok: "entries_ok (nr_entries demo_registry)"
  by (auto simp: entries_ok_def demo_registry_def NODE_REGISTRY_MAX_NODES_def keys_distinct_Cons keys_distinct_replicate
      entry_ok_def zero_entry_def)

lemma commit_sim: "sim_nvs_ok (nr_world r) \<Longrightarrow> fst (registry_commit sim_platform k previous es r)"
  by (simp add: registry_commit_def node_registry_save_blob_def case_prod_unfold nvs_store_accepts sim_accepts)

lemma demo_activates: "fst (perform sim_platform c (Activate 5) demo_registry)"
proof -
  have "node_registry_find 5 (nr_entries demo_registry) = Some 0" by (simp add: node_registry_find_def demo_registry_def)
  then have "perform sim_platform c (Activate 5) demo_registry = registry_commit sim_platform 5 (nr_entries demo_registry ! 0)
      ((nr_entries demo_registry)[0 := (nr_entries demo_registry ! 0)\<lparr>ne_registry_state := NODE_REGISTRY_STATE_ACTIVE\<rparr>]) demo_registry"
    by (simp add: perform_def node_registry_activate_def known_or_seeded_def) (simp add: demo_registry_def)
  then show ?thesis using commit_sim [of demo_registry] by (simp add: demo_registry_def sim_init_def)
qed

lemma demo_record: "record_of (nr_entries demo_registry) 5 = (NODE_REGISTRY_STATE_ADOPTED, [], [])"
  by (simp add: record_of_def lookup_def node_registry_find_def demo_registry_def entry_record_def zero_entry_def)


text \<open>
  C24: an admission decision survives a reboot. Once an operation has reported success, on storage
  that keeps what is committed, the initialisation of the next boot restores the state, the
  profile and the template of every node.
\<close>

theorem registry_survives_reboot:
  assumes "entries_ok (nr_entries r)" "nvs_durable P" "perform P c d r = (True, r')"
  shows "record_of (nr_entries (node_registry_init P (boot\<lparr>nr_world := nr_world r'\<rparr>))) = record_of (nr_entries r') \<and>
    node_registry_is_operational node_id (node_registry_init P (boot\<lparr>nr_world := nr_world r'\<rparr>)) =
    node_registry_is_operational node_id r'"
proof -
  have ok: "entries_ok (nr_entries r')" using perform_record [OF assms(1,3)] by simp
  have "nvs_holds P NODE_REGISTRY_NAMESPACE NODE_REGISTRY_KEY (blob_bytes (node_registry_build_blob (nr_entries r')))
      (nr_world (boot\<lparr>nr_world := nr_world r'\<rparr>))"
    using perform_stored [OF assms(2,3)] by simp
  from init_restores [OF ok this] show ?thesis by (simp add: node_registry_is_operational_def get_state_record)
qed

theorem registry_survives_reboot_witness:
  "node_registry_is_operational 5 (node_registry_init sim_platform
     (demo_registry\<lparr>nr_world := nr_world (snd (node_registry_activate sim_platform demo_cluster 5 demo_registry))\<rparr>))"
proof -
  obtain r' where r': "perform sim_platform demo_cluster (Activate 5) demo_registry = (True, r')"
    using demo_activates [of demo_cluster] by (metis eq_fst_iff)
  then have "record_of (nr_entries r') 5 = (NODE_REGISTRY_STATE_ACTIVE, [], [])"
    using perform_record [OF demo_registry_ok r'] demo_record by (simp add: decide_def)
  with registry_survives_reboot [OF demo_registry_ok sim_durable r', of demo_registry 5] r' show ?thesis
    by (simp add: perform_def node_registry_is_operational_def get_state_record)
qed

text \<open>
  The replacement of a node is not undone. For a known node and a table with room the record
  moves from the old node to the new one whether the storage accepts the table or not: on a failed
  save the roll-back looks for the old id, which the replacement has already cleared, so the call
  reports failure and the table keeps the replacement.
\<close>

theorem registry_replace_not_rolled_back:
  assumes "entries_ok (nr_entries r)" "old_id \<noteq> 0" "new_id \<noteq> 0" "old_id \<noteq> new_id"
    and "node_registry_find old_id (nr_entries r) \<noteq> None"
    and "slot node_registry_find node_registry_allocate new_id (nr_entries r) \<noteq> None"
    and "node_registry_replace P old_id new_id r = (ok, r')"
  shows "record_of (nr_entries r') = (record_of (nr_entries r))(new_id := record_of (nr_entries r) old_id, old_id := blank)"
  using replace_record [OF assms] by blast

theorem registry_replace_not_rolled_back_witness:
  "case node_registry_replace sim_platform 5 6 (demo_registry\<lparr>nr_world := sim_init\<lparr>sim_nvs_ok := False\<rparr>\<rparr>) of
     (ok, r') \<Rightarrow> \<not> ok \<and> node_registry_is_adopted 6 r' \<and> \<not> node_registry_is_adopted 5 r'"
proof -
  let ?r = "demo_registry\<lparr>nr_world := sim_init\<lparr>sim_nvs_ok := False\<rparr>\<rparr>"
  obtain ok r' where r': "node_registry_replace sim_platform 5 6 ?r = (ok, r')" by force
  have f: "node_registry_find 5 (nr_entries ?r) = Some 0" "slot node_registry_find node_registry_allocate 6 (nr_entries ?r) = Some 1"
    by (simp_all add: node_registry_find_def node_registry_allocate_def slot_def demo_registry_def zero_entry_def)
  have "record_of (nr_entries r') = (record_of (nr_entries ?r))(6 := record_of (nr_entries ?r) 5, 5 := blank)"
    using registry_replace_not_rolled_back [OF _ _ _ _ _ _ r'] demo_registry_ok f by simp
  moreover have "\<not> ok"
    using r' f by (auto simp: node_registry_replace_def registry_commit_def node_registry_save_blob_def nvs_store_def Let_def
        split: if_splits prod.splits)
  ultimately show ?thesis using r' demo_record
    by (simp add: node_registry_is_adopted_def get_state_record blank_def registry_states)
qed

text \<open>
  The export lists the known nodes by ascending id, each exactly once, as long as the caller
  has room for ten.
\<close>

theorem registry_export_sorted:
  assumes "entries_ok (nr_entries r)" "max_entries \<ge> 10"
  shows "mset (node_registry_export True max_entries r) = mset (filter (\<lambda>e. ne_node_id e \<noteq> 0) (nr_entries r)) \<and>
    sorted (map ne_node_id (node_registry_export True max_entries r)) \<and>
    distinct (map ne_node_id (node_registry_export True max_entries r))"
proof -
  let ?u = "filter (\<lambda>e. ne_node_id e \<noteq> 0) (nr_entries r)"
  have "length ?u \<le> 10" using assms(1) length_filter_le [of "\<lambda>e. ne_node_id e \<noteq> 0" "nr_entries r"]
    by (simp add: entries_ok_def NODE_REGISTRY_MAX_NODES_def)
  then have e: "node_registry_export True max_entries r = export_sort ?u" using assms(2) by (simp add: node_registry_export_def)
  have "distinct (map ne_node_id (filter used_entry es))" if "keys_distinct used_entry ne_node_id es" for es
    using that by (induction es) (auto simp: keys_distinct_Cons)
  then have "distinct (map ne_node_id ?u)" using assms(1) by (simp add: entries_ok_def)
  then have "distinct (map ne_node_id (export_sort ?u))"
    using export_sort_sorted [of ?u] by (metis mset_eq_imp_distinct_iff mset_map)
  with e export_sort_sorted [of ?u] show ?thesis by simp
qed

theorem registry_export_sorted_witness: "sorted (map ne_node_id (node_registry_export True 10 demo_registry))"
  using registry_export_sorted [OF demo_registry_ok, of 10] by simp

end
