(* ===== verification/Failsafe.thy ===== *)
theory Failsafe
  imports State_Store Nvs_Blob
begin

text \<open>
  The safe state of the outputs (\<open>runtime/failsafe/failsafe.c\<close>): a policy per output says which
  value it takes at boot, on a loss of communication and on a fault, and whether commands are
  refused until somebody rearms the output. The policies live in a checksummed blob.

  The array \<open>entries\<close> with its \<open>entry_count\<close> is a list. Actions and recovery modes are the bytes that
  are stored; \<open>esp_reset_reason\<close> and the device profile (its outputs and the test whether an id is
  one of them) are arguments. \<open>failsafe_reason_t\<close> has one constructor for each value, with
  \<open>FAILSAFE_REASON_MAX\<close> for a value out of range.
\<close>

section \<open>Model\<close>

definition FAILSAFE_NAMESPACE :: string where "FAILSAFE_NAMESPACE = ''failsafe''"
definition FAILSAFE_KEY :: string where "FAILSAFE_KEY = ''policies''"
definition FAILSAFE_MAGIC :: u32 where "FAILSAFE_MAGIC = 0x46534146"
definition FAILSAFE_VERSION :: u16 where "FAILSAFE_VERSION = 2"
definition FAILSAFE_VERSION_V1 :: u16 where "FAILSAFE_VERSION_V1 = 1"
definition FAILSAFE_MAX_OUTPUTS :: nat where "FAILSAFE_MAX_OUTPUTS = 16"

definition FAILSAFE_ACTION_FORCE_OFF :: u8 where "FAILSAFE_ACTION_FORCE_OFF = 0"
definition FAILSAFE_ACTION_FORCE_ON :: u8 where "FAILSAFE_ACTION_FORCE_ON = 1"
definition FAILSAFE_ACTION_HOLD_LAST :: u8 where "FAILSAFE_ACTION_HOLD_LAST = 2"
definition FAILSAFE_ACTION_RESTORE_SNAPSHOT :: u8 where "FAILSAFE_ACTION_RESTORE_SNAPSHOT = 3"
definition FAILSAFE_ACTION_SAFE_VALUE :: u8 where "FAILSAFE_ACTION_SAFE_VALUE = 4"
definition FAILSAFE_ACTION_MAX :: u8 where "FAILSAFE_ACTION_MAX = 5"

definition FAILSAFE_RECOVERY_AUTO :: u8 where "FAILSAFE_RECOVERY_AUTO = 0"
definition FAILSAFE_RECOVERY_MANUAL :: u8 where "FAILSAFE_RECOVERY_MANUAL = 1"
definition FAILSAFE_RECOVERY_MAX :: u8 where "FAILSAFE_RECOVERY_MAX = 2"

lemmas failsafe_codes = FAILSAFE_ACTION_FORCE_OFF_def FAILSAFE_ACTION_FORCE_ON_def FAILSAFE_ACTION_HOLD_LAST_def
  FAILSAFE_ACTION_RESTORE_SNAPSHOT_def FAILSAFE_ACTION_SAFE_VALUE_def FAILSAFE_ACTION_MAX_def
  FAILSAFE_RECOVERY_AUTO_def FAILSAFE_RECOVERY_MANUAL_def FAILSAFE_RECOVERY_MAX_def

datatype failsafe_reason_t =
  FAILSAFE_REASON_NONE | FAILSAFE_REASON_BOOT | FAILSAFE_REASON_COMM_LOSS | FAILSAFE_REASON_RUNTIME_FAULT
  | FAILSAFE_REASON_WATCHDOG | FAILSAFE_REASON_NODE_OFFLINE | FAILSAFE_REASON_NODE_REVOKED
  | FAILSAFE_REASON_UNAUTHORIZED | FAILSAFE_REASON_CONFIG_INVALID | FAILSAFE_REASON_MANUAL_TEST
  | FAILSAFE_REASON_MAX

datatype esp_reset_reason_t = ESP_RST_TASK_WDT | ESP_RST_INT_WDT | ESP_RST_WDT | ESP_RST_PANIC | ESP_RST_OTHER

record failsafe_policy_storage_t =
  fp_output_id :: u16
  fp_enabled :: u8
  fp_boot_action :: u8
  fp_comm_loss_action :: u8
  fp_runtime_fault_action :: u8
  fp_recovery_mode :: u8
  fp_reserved :: u8
  fp_safe_value :: i32

record failsafe_runtime_entry_t =
  fe_policy :: failsafe_policy_storage_t
  fe_active :: bool
  fe_last_reason :: failsafe_reason_t
  fe_last_applied_value :: i32

record failsafe =
  fs_entries :: "failsafe_runtime_entry_t list"
  fs_boot_reason :: failsafe_reason_t

record failsafe_output_status_t =
  fo_output_id :: u16
  fo_enabled :: bool
  fo_boot_action :: u8
  fo_comm_loss_action :: u8
  fo_runtime_fault_action :: u8
  fo_safe_value :: i32
  fo_recovery_mode :: u8
  fo_manual_reset_required :: bool
  fo_failsafe_active :: bool
  fo_last_reason :: failsafe_reason_t
  fo_last_applied_value :: i32
  fo_startup_mode :: u8
  fo_comm_loss_mode :: u8
  fo_manual_rearm :: bool
  fo_active :: bool
  fo_applied_value :: i32
  fo_reason :: string

subsection \<open>Actions\<close>

definition failsafe_crc32 :: "bytes \<Rightarrow> u32" where
  "failsafe_crc32 data = fnv1a data"

definition failsafe_action_valid :: "u8 \<Rightarrow> bool" where
  "failsafe_action_valid action \<longleftrightarrow> action < FAILSAFE_ACTION_MAX"

definition failsafe_recovery_valid :: "u8 \<Rightarrow> bool" where
  "failsafe_recovery_valid recovery \<longleftrightarrow> recovery < FAILSAFE_RECOVERY_MAX"

definition failsafe_binary_value :: "i32 \<Rightarrow> i32" where
  "failsafe_binary_value v = (if v \<noteq> 0 then 1 else 0)"

definition failsafe_apply_action :: "u8 \<Rightarrow> i32 \<Rightarrow> i32 \<Rightarrow> i32 \<Rightarrow> i32" where
  "failsafe_apply_action action current_value snapshot_value safe_value =
     (if action = FAILSAFE_ACTION_FORCE_ON then 1
      else if action = FAILSAFE_ACTION_HOLD_LAST then failsafe_binary_value current_value
      else if action = FAILSAFE_ACTION_RESTORE_SNAPSHOT then failsafe_binary_value snapshot_value
      else if action = FAILSAFE_ACTION_SAFE_VALUE then failsafe_binary_value safe_value
      else 0)"

definition failsafe_action_for_reason :: "failsafe_runtime_entry_t \<Rightarrow> failsafe_reason_t \<Rightarrow> u8" where
  "failsafe_action_for_reason entry reason =
     (case reason of
        FAILSAFE_REASON_BOOT \<Rightarrow> fp_boot_action (fe_policy entry)
      | FAILSAFE_REASON_COMM_LOSS \<Rightarrow> fp_comm_loss_action (fe_policy entry)
      | FAILSAFE_REASON_NODE_OFFLINE \<Rightarrow> fp_comm_loss_action (fe_policy entry)
      | FAILSAFE_REASON_NODE_REVOKED \<Rightarrow> fp_comm_loss_action (fe_policy entry)
      | FAILSAFE_REASON_UNAUTHORIZED \<Rightarrow> fp_comm_loss_action (fe_policy entry)
      | FAILSAFE_REASON_RUNTIME_FAULT \<Rightarrow> fp_runtime_fault_action (fe_policy entry)
      | FAILSAFE_REASON_WATCHDOG \<Rightarrow> fp_runtime_fault_action (fe_policy entry)
      | FAILSAFE_REASON_CONFIG_INVALID \<Rightarrow> fp_runtime_fault_action (fe_policy entry)
      | FAILSAFE_REASON_MANUAL_TEST \<Rightarrow> fp_runtime_fault_action (fe_policy entry)
      | _ \<Rightarrow> FAILSAFE_ACTION_HOLD_LAST)"

definition failsafe_find :: "u16 \<Rightarrow> failsafe \<Rightarrow> nat option" where
  "failsafe_find output_id f = find_index (\<lambda>e. fp_output_id (fe_policy e) = output_id) (fs_entries f)"

definition failsafe_default_entry :: "u16 \<Rightarrow> failsafe_runtime_entry_t" where
  "failsafe_default_entry output_id =
     \<lparr>fe_policy = \<lparr>fp_output_id = output_id, fp_enabled = 1, fp_boot_action = FAILSAFE_ACTION_FORCE_OFF,
        fp_comm_loss_action = FAILSAFE_ACTION_FORCE_OFF, fp_runtime_fault_action = FAILSAFE_ACTION_FORCE_OFF,
        fp_recovery_mode = FAILSAFE_RECOVERY_AUTO, fp_reserved = 0, fp_safe_value = 0\<rparr>,
      fe_active = False, fe_last_reason = FAILSAFE_REASON_NONE, fe_last_applied_value = 0\<rparr>"

definition failsafe_detect_boot_reason :: "esp_reset_reason_t \<Rightarrow> failsafe_reason_t" where
  "failsafe_detect_boot_reason rst =
     (case rst of
        ESP_RST_TASK_WDT \<Rightarrow> FAILSAFE_REASON_WATCHDOG
      | ESP_RST_INT_WDT \<Rightarrow> FAILSAFE_REASON_WATCHDOG
      | ESP_RST_WDT \<Rightarrow> FAILSAFE_REASON_WATCHDOG
      | ESP_RST_PANIC \<Rightarrow> FAILSAFE_REASON_RUNTIME_FAULT
      | _ \<Rightarrow> FAILSAFE_REASON_BOOT)"

definition failsafe_reason_name :: "failsafe_reason_t \<Rightarrow> string" where
  "failsafe_reason_name reason =
     (case reason of
        FAILSAFE_REASON_BOOT \<Rightarrow> ''boot''
      | FAILSAFE_REASON_COMM_LOSS \<Rightarrow> ''comm_loss''
      | FAILSAFE_REASON_RUNTIME_FAULT \<Rightarrow> ''runtime_fault''
      | FAILSAFE_REASON_WATCHDOG \<Rightarrow> ''watchdog''
      | FAILSAFE_REASON_NODE_OFFLINE \<Rightarrow> ''node_offline''
      | FAILSAFE_REASON_NODE_REVOKED \<Rightarrow> ''node_revoked''
      | FAILSAFE_REASON_UNAUTHORIZED \<Rightarrow> ''unauthorized''
      | FAILSAFE_REASON_CONFIG_INVALID \<Rightarrow> ''config_invalid''
      | FAILSAFE_REASON_MANUAL_TEST \<Rightarrow> ''manual_test''
      | _ \<Rightarrow> ''none'')"

definition failsafe_reason_label :: "failsafe_reason_t \<Rightarrow> string" where
  "failsafe_reason_label reason =
     (case reason of
        FAILSAFE_REASON_BOOT \<Rightarrow> ''boot/reboot''
      | FAILSAFE_REASON_COMM_LOSS \<Rightarrow> ''perda de comunicacao''
      | FAILSAFE_REASON_RUNTIME_FAULT \<Rightarrow> ''falha de runtime''
      | FAILSAFE_REASON_WATCHDOG \<Rightarrow> ''watchdog/reset''
      | FAILSAFE_REASON_NODE_OFFLINE \<Rightarrow> ''no offline''
      | FAILSAFE_REASON_NODE_REVOKED \<Rightarrow> ''no revogado''
      | FAILSAFE_REASON_UNAUTHORIZED \<Rightarrow> ''comando nao autorizado''
      | FAILSAFE_REASON_CONFIG_INVALID \<Rightarrow> ''configuracao invalida''
      | FAILSAFE_REASON_MANUAL_TEST \<Rightarrow> ''teste manual''
      | _ \<Rightarrow> ''nenhum'')"

definition failsafe_action_from_code :: "string option \<Rightarrow> u8 option" where
  "failsafe_action_from_code code =
     (case code of
        None \<Rightarrow> None
      | Some t \<Rightarrow>
        if t = ''force_off'' \<or> t = ''off'' then Some FAILSAFE_ACTION_FORCE_OFF
        else if t = ''force_on'' \<or> t = ''on'' then Some FAILSAFE_ACTION_FORCE_ON
        else if t = ''hold'' \<or> t = ''hold_last'' then Some FAILSAFE_ACTION_HOLD_LAST
        else if t = ''restore_snapshot'' \<or> t = ''restore'' \<or> t = ''snapshot'' then Some FAILSAFE_ACTION_RESTORE_SNAPSHOT
        else if t = ''safe_value'' \<or> t = ''safe'' then Some FAILSAFE_ACTION_SAFE_VALUE
        else None)"

definition failsafe_action_to_code :: "u8 \<Rightarrow> string" where
  "failsafe_action_to_code action =
     (if action = FAILSAFE_ACTION_FORCE_ON then ''force_on''
      else if action = FAILSAFE_ACTION_HOLD_LAST then ''hold_last''
      else if action = FAILSAFE_ACTION_RESTORE_SNAPSHOT then ''restore_snapshot''
      else if action = FAILSAFE_ACTION_SAFE_VALUE then ''safe_value'' else ''force_off'')"

definition failsafe_action_to_label :: "u8 \<Rightarrow> string" where
  "failsafe_action_to_label action =
     (if action = FAILSAFE_ACTION_FORCE_ON then ''forcar ON''
      else if action = FAILSAFE_ACTION_HOLD_LAST then ''manter ultimo estado''
      else if action = FAILSAFE_ACTION_RESTORE_SNAPSHOT then ''restaurar snapshot''
      else if action = FAILSAFE_ACTION_SAFE_VALUE then ''valor seguro'' else ''forcar OFF'')"

definition failsafe_mode_from_code :: "string option \<Rightarrow> u8 option" where
  "failsafe_mode_from_code code = failsafe_action_from_code code"

definition failsafe_mode_to_code :: "u8 \<Rightarrow> string" where
  "failsafe_mode_to_code mode = failsafe_action_to_code mode"

definition failsafe_mode_to_label :: "u8 \<Rightarrow> string" where
  "failsafe_mode_to_label mode = failsafe_action_to_label mode"

definition failsafe_recovery_from_code :: "string option \<Rightarrow> u8 option" where
  "failsafe_recovery_from_code code =
     (case code of
        None \<Rightarrow> None
      | Some t \<Rightarrow>
        if t = ''auto'' \<or> t = ''automatic'' then Some FAILSAFE_RECOVERY_AUTO
        else if t = ''manual'' \<or> t = ''manual_rearm'' \<or> t = ''manual_reset'' then Some FAILSAFE_RECOVERY_MANUAL
        else None)"

definition failsafe_recovery_to_code :: "u8 \<Rightarrow> string" where
  "failsafe_recovery_to_code recovery = (if recovery = FAILSAFE_RECOVERY_MANUAL then ''manual'' else ''auto'')"

definition failsafe_recovery_to_label :: "u8 \<Rightarrow> string" where
  "failsafe_recovery_to_label recovery = (if recovery = FAILSAFE_RECOVERY_MANUAL then ''manual'' else ''automatica'')"

definition failsafe_fill_status :: "failsafe_runtime_entry_t \<Rightarrow> failsafe_output_status_t" where
  "failsafe_fill_status entry =
     (let p = fe_policy entry; manual = (fp_recovery_mode p = FAILSAFE_RECOVERY_MANUAL);
          applied = failsafe_binary_value (fe_last_applied_value entry)
      in \<lparr>fo_output_id = fp_output_id p, fo_enabled = (fp_enabled p \<noteq> 0), fo_boot_action = fp_boot_action p,
          fo_comm_loss_action = fp_comm_loss_action p, fo_runtime_fault_action = fp_runtime_fault_action p,
          fo_safe_value = failsafe_binary_value (fp_safe_value p), fo_recovery_mode = fp_recovery_mode p,
          fo_manual_reset_required = manual, fo_failsafe_active = fe_active entry,
          fo_last_reason = fe_last_reason entry, fo_last_applied_value = applied,
          fo_startup_mode = fp_boot_action p, fo_comm_loss_mode = fp_comm_loss_action p, fo_manual_rearm = manual,
          fo_active = fe_active entry, fo_applied_value = applied, fo_reason = failsafe_reason_name (fe_last_reason entry)\<rparr>)"

subsection \<open>Storage\<close>

text \<open>
  A policy takes 12 bytes in both versions of the blob, so both blobs have 204 bytes; in version 1
  two bytes of padding precede the safe value.
\<close>

definition FAILSAFE_BLOB_SIZE :: nat where "FAILSAFE_BLOB_SIZE = 204"
definition FAILSAFE_BLOB_V1_SIZE :: nat where "FAILSAFE_BLOB_V1_SIZE = 204"

definition policy_bytes :: "failsafe_policy_storage_t \<Rightarrow> bytes" where
  "policy_bytes p = le16 (fp_output_id p) @
     [fp_enabled p, fp_boot_action p, fp_comm_loss_action p, fp_runtime_fault_action p, fp_recovery_mode p, fp_reserved p] @
     le32 (fp_safe_value p)"

definition policy_of :: "bytes \<Rightarrow> failsafe_policy_storage_t" where
  "policy_of bs = \<lparr>fp_output_id = of_le16 bs, fp_enabled = bs ! 2, fp_boot_action = bs ! 3, fp_comm_loss_action = bs ! 4,
     fp_runtime_fault_action = bs ! 5, fp_recovery_mode = bs ! 6, fp_reserved = bs ! 7, fp_safe_value = of_le32 (drop 8 bs)\<rparr>"

definition failsafe_body :: "failsafe \<Rightarrow> bytes" where
  "failsafe_body f = le32 FAILSAFE_MAGIC @ le16 FAILSAFE_VERSION @ le16 (of_nat (length (fs_entries f))) @
     concat (map (\<lambda>e. policy_bytes (fe_policy e)) (fs_entries f)) @
     replicate ((FAILSAFE_MAX_OUTPUTS - length (fs_entries f)) * 12) 0"

definition failsafe_blob :: "failsafe \<Rightarrow> bytes" where
  "failsafe_blob f = failsafe_body f @ le32 (failsafe_crc32 (failsafe_body f))"

definition failsafe_save :: "'w platform \<Rightarrow> failsafe \<Rightarrow> 'w \<Rightarrow> bool \<times> 'w" where
  "failsafe_save P f w = nvs_store P FAILSAFE_NAMESPACE FAILSAFE_KEY (failsafe_blob f) w"

definition failsafe_apply_loaded_policy :: "(u16 \<Rightarrow> bool) \<Rightarrow> failsafe_policy_storage_t \<Rightarrow> failsafe \<Rightarrow> bool \<times> failsafe" where
  "failsafe_apply_loaded_policy is_valid_output p f =
     (if \<not> is_valid_output (fp_output_id p) then (False, f)
      else if \<not> failsafe_action_valid (fp_boot_action p) \<or> \<not> failsafe_action_valid (fp_comm_loss_action p) \<or>
              \<not> failsafe_action_valid (fp_runtime_fault_action p) \<or> \<not> failsafe_recovery_valid (fp_recovery_mode p)
      then (False, f)
      else case failsafe_find (fp_output_id p) f of
        None \<Rightarrow> (False, f)
      | Some i \<Rightarrow> (True, f\<lparr>fs_entries := (fs_entries f)[i :=
          \<lparr>fe_policy = p\<lparr>fp_enabled := (if fp_enabled p \<noteq> 0 then 1 else 0),
             fp_safe_value := failsafe_binary_value (fp_safe_value p)\<rparr>,
           fe_active = False, fe_last_reason = FAILSAFE_REASON_NONE, fe_last_applied_value = 0\<rparr>]\<rparr>))"

definition failsafe_v1_mode_to_action :: "u8 \<Rightarrow> u8 option" where
  "failsafe_v1_mode_to_action mode =
     (if mode = 0 then Some FAILSAFE_ACTION_HOLD_LAST
      else if mode = 1 then Some FAILSAFE_ACTION_FORCE_OFF
      else if mode = 2 then Some FAILSAFE_ACTION_FORCE_ON
      else if mode = 3 then Some FAILSAFE_ACTION_SAFE_VALUE
      else None)"

text \<open>A version 1 policy is given by its 12 bytes.\<close>

definition failsafe_apply_loaded_policy_v1 :: "(u16 \<Rightarrow> bool) \<Rightarrow> bytes \<Rightarrow> failsafe \<Rightarrow> bool \<times> failsafe" where
  "failsafe_apply_loaded_policy_v1 is_valid_output bs f =
     (case (failsafe_v1_mode_to_action (bs ! 2), failsafe_v1_mode_to_action (bs ! 3)) of
        (Some boot_action, Some comm_loss_action) \<Rightarrow>
          failsafe_apply_loaded_policy is_valid_output
            \<lparr>fp_output_id = of_le16 bs, fp_enabled = 1, fp_boot_action = boot_action, fp_comm_loss_action = comm_loss_action,
             fp_runtime_fault_action = FAILSAFE_ACTION_FORCE_OFF,
             fp_recovery_mode = (if bs ! 4 \<noteq> 0 then FAILSAFE_RECOVERY_MANUAL else FAILSAFE_RECOVERY_AUTO),
             fp_reserved = 0, fp_safe_value = failsafe_binary_value (of_le32 (drop 8 bs))\<rparr> f
      | _ \<Rightarrow> (False, f))"

text \<open>The loop over the policies of a blob; \<open>apply_one\<close> handles one of them.\<close>

definition apply_policies :: "(bytes \<Rightarrow> failsafe \<Rightarrow> bool \<times> failsafe) \<Rightarrow> bytes \<Rightarrow> nat \<Rightarrow> failsafe \<Rightarrow> bool \<times> failsafe" where
  "apply_policies apply_one bs n f =
     fold (\<lambda>i (loaded, f). case apply_one (drop (8 + i * 12) bs) f of (ok, f) \<Rightarrow> (ok \<or> loaded, f)) [0..<n] (False, f)"

definition load_blob :: "u16 \<Rightarrow> (bytes \<Rightarrow> failsafe \<Rightarrow> bool \<times> failsafe) \<Rightarrow> bytes \<Rightarrow> failsafe \<Rightarrow> bool \<times> failsafe" where
  "load_blob version apply_one bs f =
     (let n = unat (of_le16 (drop 6 bs)) in
      if of_le32 bs = FAILSAFE_MAGIC \<and> of_le16 (drop 4 bs) = version \<and> n \<le> FAILSAFE_MAX_OUTPUTS \<and>
         failsafe_crc32 (take 200 bs) = of_le32 (drop 200 bs)
      then apply_policies apply_one bs n f else (False, f))"

definition failsafe_load :: "'w platform \<Rightarrow> (u16 \<Rightarrow> bool) \<Rightarrow> failsafe \<Rightarrow> 'w \<Rightarrow> bool \<times> failsafe \<times> 'w" where
  "failsafe_load P is_valid_output f w =
     (case nvs_fetch P FAILSAFE_NAMESPACE FAILSAFE_KEY
        (\<lambda>len. len = FAILSAFE_BLOB_SIZE \<or> len = FAILSAFE_BLOB_V1_SIZE) w of
        (None, w) \<Rightarrow> (False, f, w)
      | (Some (len, bs), w) \<Rightarrow>
        (case (if len = FAILSAFE_BLOB_SIZE
               then load_blob FAILSAFE_VERSION (\<lambda>bs. failsafe_apply_loaded_policy is_valid_output (policy_of bs)) bs f
               else load_blob FAILSAFE_VERSION_V1 (failsafe_apply_loaded_policy_v1 is_valid_output) bs f) of
           (loaded, f) \<Rightarrow> (loaded, f, w)))"

definition failsafe_init ::
  "'w platform \<Rightarrow> esp_reset_reason_t \<Rightarrow> u16 list \<Rightarrow> (u16 \<Rightarrow> bool) \<Rightarrow> 'w \<Rightarrow> failsafe \<times> 'w" where
  "failsafe_init P rst output_ids is_valid_output w =
     (let f = \<lparr>fs_entries = map failsafe_default_entry (take FAILSAFE_MAX_OUTPUTS (filter (\<lambda>i. i \<noteq> 0) output_ids)),
            fs_boot_reason = failsafe_detect_boot_reason rst\<rparr>
      in case failsafe_load P is_valid_output f w of (loaded, f, w) \<Rightarrow>
         if loaded then (f, w) else (f, snd (failsafe_save P f w)))"

subsection \<open>Policies\<close>

definition failsafe_set_output_policy ::
  "'w platform \<Rightarrow> u16 \<Rightarrow> bool \<Rightarrow> u8 \<Rightarrow> u8 \<Rightarrow> u8 \<Rightarrow> i32 \<Rightarrow> u8 \<Rightarrow> failsafe \<Rightarrow> 'w \<Rightarrow> bool \<times> failsafe \<times> 'w" where
  "failsafe_set_output_policy P output_id enabled boot_action comm_loss_action runtime_fault_action safe_value recovery_mode f w =
     (case failsafe_find output_id f of
        None \<Rightarrow> (False, f, w)
      | Some i \<Rightarrow>
        if \<not> failsafe_action_valid boot_action \<or> \<not> failsafe_action_valid comm_loss_action \<or>
           \<not> failsafe_action_valid runtime_fault_action \<or> \<not> failsafe_recovery_valid recovery_mode
        then (False, f, w)
        else let entry = fs_entries f ! i;
                 next_policy = (fe_policy entry)\<lparr>fp_enabled := (if enabled then 1 else 0), fp_boot_action := boot_action,
                   fp_comm_loss_action := comm_loss_action, fp_runtime_fault_action := runtime_fault_action,
                   fp_safe_value := failsafe_binary_value safe_value, fp_recovery_mode := recovery_mode\<rparr>
             in if fe_policy entry = next_policy then (True, f, w)
                else let entry = entry\<lparr>fe_policy := next_policy\<rparr>;
                         entry = (if \<not> enabled then entry\<lparr>fe_active := False, fe_last_reason := FAILSAFE_REASON_NONE\<rparr> else entry);
                         f = f\<lparr>fs_entries := (fs_entries f)[i := entry]\<rparr>
                     in case failsafe_save P f w of (ok, w) \<Rightarrow> (ok, f, w))"

definition failsafe_get_output_policy :: "u16 \<Rightarrow> failsafe \<Rightarrow> failsafe_output_status_t option" where
  "failsafe_get_output_policy output_id f =
     map_option (\<lambda>i. failsafe_fill_status (fs_entries f ! i)) (failsafe_find output_id f)"

definition failsafe_set_policy ::
  "'w platform \<Rightarrow> u16 \<Rightarrow> u8 \<Rightarrow> u8 \<Rightarrow> i32 \<Rightarrow> bool \<Rightarrow> failsafe \<Rightarrow> 'w \<Rightarrow> bool \<times> failsafe \<times> 'w" where
  "failsafe_set_policy P output_id startup_mode comm_loss_mode safe_value manual_rearm f w =
     failsafe_set_output_policy P output_id True startup_mode comm_loss_mode
       (case failsafe_find output_id f of
          None \<Rightarrow> FAILSAFE_ACTION_FORCE_OFF
        | Some i \<Rightarrow> fp_runtime_fault_action (fe_policy (fs_entries f ! i)))
       safe_value (if manual_rearm then FAILSAFE_RECOVERY_MANUAL else FAILSAFE_RECOVERY_AUTO) f w"

definition failsafe_get_policy :: "u16 \<Rightarrow> failsafe \<Rightarrow> failsafe_output_status_t option" where
  "failsafe_get_policy output_id f = failsafe_get_output_policy output_id f"

text \<open>The statuses that are written and the number that is returned.\<close>

definition failsafe_export :: "bool \<Rightarrow> int \<Rightarrow> failsafe \<Rightarrow> failsafe_output_status_t list \<times> nat" where
  "failsafe_export out max_outputs f =
     (if \<not> out \<or> max_outputs \<le> 0 then ([], length (fs_entries f))
      else let n = min (length (fs_entries f)) (nat max_outputs) in
        (map failsafe_fill_status (take n (fs_entries f)), n))"

subsection \<open>The safe state\<close>

text \<open>The value at boot and its origin.\<close>

definition failsafe_startup_value :: "u16 \<Rightarrow> i32 \<Rightarrow> failsafe \<Rightarrow> (i32 \<times> string) option \<times> failsafe" where
  "failsafe_startup_value output_id restored_value f =
     (case failsafe_find output_id f of
        None \<Rightarrow> (None, f)
      | Some i \<Rightarrow>
        let entry = fs_entries f ! i in
        if fp_enabled (fe_policy entry) = 0
        then let v = failsafe_binary_value restored_value in
          (Some (v, ''snapshot''), f\<lparr>fs_entries := (fs_entries f)[i := entry\<lparr>fe_active := False,
             fe_last_reason := FAILSAFE_REASON_NONE, fe_last_applied_value := v\<rparr>]\<rparr>)
        else let action = failsafe_action_for_reason entry (fs_boot_reason f);
                 v = failsafe_binary_value (failsafe_apply_action action restored_value restored_value (fp_safe_value (fe_policy entry)))
          in (Some (v, failsafe_reason_name (fs_boot_reason f)),
              f\<lparr>fs_entries := (fs_entries f)[i := entry\<lparr>fe_last_applied_value := v, fe_last_reason := fs_boot_reason f,
                 fe_active := (fp_recovery_mode (fe_policy entry) = FAILSAFE_RECOVERY_MANUAL)\<rparr>]\<rparr>))"

text \<open>Whether a command is allowed, the effective value and the reason.\<close>

definition failsafe_guard_command :: "u16 \<Rightarrow> i32 \<Rightarrow> failsafe \<Rightarrow> bool \<times> (i32 \<times> string) option \<times> failsafe" where
  "failsafe_guard_command output_id requested_value f =
     (case failsafe_find output_id f of
        None \<Rightarrow> (False, None, f)
      | Some i \<Rightarrow>
        let entry = fs_entries f ! i; v = failsafe_binary_value requested_value in
        if fp_enabled (fe_policy entry) \<noteq> 0 \<and> fe_active entry \<and> fp_recovery_mode (fe_policy entry) = FAILSAFE_RECOVERY_MANUAL
        then (False, Some (v, failsafe_reason_name (fe_last_reason entry)), f)
        else (True, Some (v, ''command_allowed''),
              f\<lparr>fs_entries := (fs_entries f)[i := entry\<lparr>fe_last_applied_value := v\<rparr>]\<rparr>))"

definition failsafe_apply_for_reason :: "state_store \<Rightarrow> u16 \<Rightarrow> failsafe_reason_t \<Rightarrow> failsafe \<Rightarrow> i32 option \<times> failsafe" where
  "failsafe_apply_for_reason st output_id reason f =
     (case failsafe_find output_id f of
        None \<Rightarrow> (None, f)
      | Some i \<Rightarrow>
        let entry = fs_entries f ! i in
        if fp_enabled (fe_policy entry) = 0 \<or> reason = FAILSAFE_REASON_NONE \<or> reason = FAILSAFE_REASON_MAX then (None, f)
        else let current_value = (case state_get_int st output_id of None \<Rightarrow> 0 | Some v \<Rightarrow> v);
                 action = failsafe_action_for_reason entry reason;
                 v = failsafe_binary_value (failsafe_apply_action action current_value current_value (fp_safe_value (fe_policy entry)))
          in (Some v, f\<lparr>fs_entries := (fs_entries f)[i := entry\<lparr>fe_last_applied_value := v, fe_last_reason := reason,
                fe_active := (fp_recovery_mode (fe_policy entry) = FAILSAFE_RECOVERY_MANUAL)\<rparr>]\<rparr>))"

definition apply_reason_at ::
  "'w platform \<Rightarrow> failsafe_reason_t \<Rightarrow> nat \<Rightarrow> nat \<times> failsafe \<times> 'w system \<Rightarrow> nat \<times> failsafe \<times> 'w system" where
  "apply_reason_at P reason i = (\<lambda>(applied, f, s).
     let output_id = fp_output_id (fe_policy (fs_entries f ! i)) in
     case failsafe_apply_for_reason (sys_state s) output_id reason f of
       (None, f) \<Rightarrow> (applied, f, s)
     | (Some safe_value, f) \<Rightarrow> (Suc applied, f, snd (state_set_int P output_id safe_value s)))"

definition failsafe_apply_for_reason_all ::
  "'w platform \<Rightarrow> failsafe_reason_t \<Rightarrow> failsafe \<Rightarrow> 'w system \<Rightarrow> nat \<times> failsafe \<times> 'w system" where
  "failsafe_apply_for_reason_all P reason f s = fold (apply_reason_at P reason) [0..<length (fs_entries f)] (0, f, s)"

definition failsafe_clear_manual_reset :: "u16 \<Rightarrow> failsafe \<Rightarrow> bool \<times> failsafe" where
  "failsafe_clear_manual_reset output_id f =
     (case failsafe_find output_id f of
        None \<Rightarrow> (False, f)
      | Some i \<Rightarrow> (True, f\<lparr>fs_entries := (fs_entries f)[i := (fs_entries f ! i)\<lparr>fe_active := False,
          fe_last_reason := FAILSAFE_REASON_NONE\<rparr>]\<rparr>))"

definition failsafe_is_active :: "u16 \<Rightarrow> failsafe \<Rightarrow> bool" where
  "failsafe_is_active output_id f =
     (case failsafe_find output_id f of None \<Rightarrow> False | Some i \<Rightarrow> fe_active (fs_entries f ! i))"

definition failsafe_trigger_comm_loss :: "state_store \<Rightarrow> u16 \<Rightarrow> failsafe \<Rightarrow> i32 option \<times> failsafe" where
  "failsafe_trigger_comm_loss st output_id f = failsafe_apply_for_reason st output_id FAILSAFE_REASON_COMM_LOSS f"

definition failsafe_trigger_runtime_fault :: "state_store \<Rightarrow> u16 \<Rightarrow> failsafe \<Rightarrow> i32 option \<times> failsafe" where
  "failsafe_trigger_runtime_fault st output_id f = failsafe_apply_for_reason st output_id FAILSAFE_REASON_RUNTIME_FAULT f"

definition failsafe_trigger_manual_test :: "state_store \<Rightarrow> u16 \<Rightarrow> failsafe \<Rightarrow> i32 option \<times> failsafe" where
  "failsafe_trigger_manual_test st output_id f = failsafe_apply_for_reason st output_id FAILSAFE_REASON_MANUAL_TEST f"

definition failsafe_rearm :: "u16 \<Rightarrow> failsafe \<Rightarrow> bool \<times> failsafe" where
  "failsafe_rearm output_id f = failsafe_clear_manual_reset output_id f"

section \<open>Well-formedness\<close>

abbreviation out_id :: "failsafe_runtime_entry_t \<Rightarrow> u16" where
  "out_id e \<equiv> fp_output_id (fe_policy e)"

definition policy_ok :: "failsafe_policy_storage_t \<Rightarrow> bool" where
  "policy_ok p \<longleftrightarrow> failsafe_action_valid (fp_boot_action p) \<and> failsafe_action_valid (fp_comm_loss_action p) \<and>
     failsafe_action_valid (fp_runtime_fault_action p) \<and> failsafe_recovery_valid (fp_recovery_mode p) \<and>
     fp_enabled p \<in> {0, 1} \<and> fp_safe_value p \<in> {0, 1}"

definition failsafe_ok :: "failsafe \<Rightarrow> bool" where
  "failsafe_ok f \<longleftrightarrow> length (fs_entries f) \<le> FAILSAFE_MAX_OUTPUTS \<and> distinct (map out_id (fs_entries f)) \<and>
     (\<forall>e \<in> set (fs_entries f). policy_ok (fe_policy e))"

lemma find_at:
  assumes "distinct (map out_id es)" "i < length es"
  shows "find_index (\<lambda>e. out_id e = out_id (es ! i)) es = Some i"
proof -
  have "out_id (es ! j) \<noteq> out_id (es ! i)" if "j < i" for j
    using nth_eq_iff_index_eq [OF assms(1), of j i] that assms(2) by simp
  with assms(2) show ?thesis by (simp add: find_index_Some)
qed

text \<open>An entry overwritten by one for the same output.\<close>

lemma failsafe_ok_update:
  assumes "failsafe_ok f" "failsafe_find k f = Some i" "out_id e = k" "policy_ok (fe_policy e)"
  shows "failsafe_ok (f\<lparr>fs_entries := (fs_entries f)[i := e]\<rparr>)"
proof -
  have i: "i < length (fs_entries f)" "out_id (fs_entries f ! i) = k"
    using assms(2) by (auto simp: failsafe_find_def dest: find_index_SomeD)
  then have "map out_id ((fs_entries f)[i := e]) = map out_id (fs_entries f)"
    using assms(3) by (auto simp: list_eq_iff_nth_eq nth_list_update)
  then show ?thesis using assms(1,4) all_update [of "fs_entries f" "\<lambda>e. policy_ok (fe_policy e)" e i]
    by (simp add: failsafe_ok_def)
qed

lemma find_policy_ok:
  assumes "failsafe_ok f" "failsafe_find k f = Some i"
  shows "i < length (fs_entries f)" "out_id (fs_entries f ! i) = k" "policy_ok (fe_policy (fs_entries f ! i))"
proof -
  show "i < length (fs_entries f)" "out_id (fs_entries f ! i) = k"
    using assms(2) by (auto simp: failsafe_find_def dest: find_index_SomeD)
  then show "policy_ok (fe_policy (fs_entries f ! i))" using assms(1) by (simp add: failsafe_ok_def)
qed

lemma set_policy_ok:
  assumes "failsafe_ok f"
  shows "failsafe_ok (fst (snd (failsafe_set_output_policy P output_id enabled ba ca ra sv rm f w)))"
proof (cases "failsafe_find output_id f")
  case (Some i)
  note e = find_policy_ok [OF assms Some]
  show ?thesis
    using assms e failsafe_ok_update [OF assms Some]
    by (auto simp: failsafe_set_output_policy_def Some Let_def case_prod_unfold policy_ok_def failsafe_binary_value_def)
qed (simp add: failsafe_set_output_policy_def assms)

lemma guard_ok: "failsafe_ok f \<Longrightarrow> failsafe_ok (snd (snd (failsafe_guard_command output_id v f)))"
  using find_policy_ok [of f output_id] failsafe_ok_update [of f output_id]
  by (auto simp: failsafe_guard_command_def Let_def split: option.split)

lemma apply_reason_ok: "failsafe_ok f \<Longrightarrow> failsafe_ok (snd (failsafe_apply_for_reason st output_id reason f))"
  using find_policy_ok [of f output_id] failsafe_ok_update [of f output_id]
  by (auto simp: failsafe_apply_for_reason_def Let_def split: option.split)

lemma startup_ok: "failsafe_ok f \<Longrightarrow> failsafe_ok (snd (failsafe_startup_value output_id v f))"
  using find_policy_ok [of f output_id] failsafe_ok_update [of f output_id]
  by (auto simp: failsafe_startup_value_def Let_def split: option.split)

lemma clear_ok: "failsafe_ok f \<Longrightarrow> failsafe_ok (snd (failsafe_clear_manual_reset output_id f))"
  using find_policy_ok [of f output_id] failsafe_ok_update [of f output_id]
  by (auto simp: failsafe_clear_manual_reset_def split: option.split)

lemma loaded_policy_ok: "failsafe_ok f \<Longrightarrow> failsafe_ok (snd (failsafe_apply_loaded_policy is_valid p f))"
  using failsafe_ok_update [of f "fp_output_id p"]
  by (auto simp: failsafe_apply_loaded_policy_def policy_ok_def failsafe_binary_value_def split: option.split)

lemma load_blob_ok:
  assumes "\<And>bs f. failsafe_ok f \<Longrightarrow> failsafe_ok (snd (apply_one bs f))" "failsafe_ok f"
  shows "failsafe_ok (snd (load_blob version apply_one bs f))"
proof -
  have "failsafe_ok (snd (fold (\<lambda>i (loaded, f). case apply_one (drop (8 + i * 12) bs) f of (ok, f) \<Rightarrow> (ok \<or> loaded, f)) is x))"
    if "failsafe_ok (snd x)" for "is" x
    using that
  proof (induction "is" arbitrary: x)
    case (Cons i "is")
    obtain ok g where g: "apply_one (drop (8 + i * 12) bs) (snd x) = (ok, g)" by force
    then have "failsafe_ok g" using assms(1) [OF Cons.prems, of "drop (8 + i * 12) bs"] by simp
    then show ?case using Cons.IH g by (simp add: case_prod_unfold)
  qed simp
  then show ?thesis using assms(2) by (simp add: load_blob_def apply_policies_def Let_def)
qed

lemma load_ok:
  assumes "failsafe_ok f"
  shows "failsafe_ok (fst (snd (failsafe_load P is_valid f w)))"
proof -
  have v1: "failsafe_ok (snd (failsafe_apply_loaded_policy_v1 is_valid bs g))" if "failsafe_ok g" for bs g
    using that loaded_policy_ok by (simp add: failsafe_apply_loaded_policy_v1_def split: option.split)
  note l = load_blob_ok [where apply_one = "\<lambda>bs. failsafe_apply_loaded_policy is_valid (policy_of bs)", OF loaded_policy_ok assms]
    load_blob_ok [where apply_one = "failsafe_apply_loaded_policy_v1 is_valid", OF v1 assms]
  show ?thesis using l assms
    by (auto simp: failsafe_load_def case_prod_unfold split: option.split)
qed

lemma init_ok:
  assumes "distinct output_ids"
  shows "failsafe_ok (fst (failsafe_init P rst output_ids is_valid w))"
proof -
  let ?ids = "take FAILSAFE_MAX_OUTPUTS (filter (\<lambda>i. i \<noteq> 0) output_ids)"
  have "map out_id (map failsafe_default_entry ?ids) = ?ids" by (induction ?ids) (simp_all add: failsafe_default_entry_def o_def)
  then have "failsafe_ok \<lparr>fs_entries = map failsafe_default_entry ?ids, fs_boot_reason = failsafe_detect_boot_reason rst\<rparr>"
    using assms by (auto simp: failsafe_ok_def policy_ok_def failsafe_default_entry_def failsafe_action_valid_def
        failsafe_recovery_valid_def failsafe_codes simp del: map_map)
  from load_ok [OF this] show ?thesis by (auto simp: failsafe_init_def case_prod_unfold Let_def)
qed

section \<open>Tripping all outputs\<close>

abbreviation enabled_entry :: "failsafe_runtime_entry_t \<Rightarrow> bool" where
  "enabled_entry e \<equiv> fp_enabled (fe_policy e) \<noteq> 0"

abbreviation manual_entry :: "failsafe_runtime_entry_t \<Rightarrow> bool" where
  "manual_entry e \<equiv> fp_recovery_mode (fe_policy e) = FAILSAFE_RECOVERY_MANUAL"

text \<open>The value an output takes for a reason, and its entry afterwards.\<close>

definition safe_output :: "state_store \<Rightarrow> failsafe_reason_t \<Rightarrow> failsafe_runtime_entry_t \<Rightarrow> i32" where
  "safe_output st reason e =
     (let current = (case state_get_int st (out_id e) of None \<Rightarrow> 0 | Some v \<Rightarrow> v)
      in failsafe_apply_action (failsafe_action_for_reason e reason) current current (fp_safe_value (fe_policy e)))"

definition tripped :: "state_store \<Rightarrow> failsafe_reason_t \<Rightarrow> failsafe_runtime_entry_t \<Rightarrow> failsafe_runtime_entry_t" where
  "tripped st reason e =
     (if enabled_entry e
      then e\<lparr>fe_last_applied_value := safe_output st reason e, fe_last_reason := reason, fe_active := manual_entry e\<rparr>
      else e)"

lemma binary_action: "failsafe_binary_value (failsafe_apply_action a c d v) = failsafe_apply_action a c d v"
  by (simp add: failsafe_apply_action_def failsafe_binary_value_def)

lemma out_id_tripped [simp]: "out_id (tripped st reason e) = out_id e"
  by (simp add: tripped_def)

lemma apply_reason_nth:
  assumes "distinct (map out_id (fs_entries f))" "i < length (fs_entries f)"
    and "reason \<noteq> FAILSAFE_REASON_NONE" "reason \<noteq> FAILSAFE_REASON_MAX"
  shows "failsafe_apply_for_reason st (out_id (fs_entries f ! i)) reason f =
    (if enabled_entry (fs_entries f ! i) then Some (safe_output st reason (fs_entries f ! i)) else None,
     f\<lparr>fs_entries := (fs_entries f)[i := tripped st reason (fs_entries f ! i)]\<rparr>)"
  using find_at [OF assms(1,2)] assms(3,4)
  by (simp add: failsafe_apply_for_reason_def failsafe_find_def Let_def tripped_def safe_output_def binary_action)

definition trip_writes :: "state_store \<Rightarrow> failsafe_reason_t \<Rightarrow> failsafe_runtime_entry_t list \<Rightarrow> (u16 \<times> i32) list" where
  "trip_writes st reason es = map (\<lambda>e. (out_id e, safe_output st reason e)) (filter enabled_entry es)"

lemma apply_reason_all_steps:
  assumes "failsafe_ok f" "system_ok s" "reason \<noteq> FAILSAFE_REASON_NONE" "reason \<noteq> FAILSAFE_REASON_MAX"
    and "m \<le> length (fs_entries f)"
  shows "fold (apply_reason_at P reason) [0..<m] (0, f, s) =
    (length (filter enabled_entry (take m (fs_entries f))),
     f\<lparr>fs_entries := map (tripped (sys_state s) reason) (take m (fs_entries f)) @ drop m (fs_entries f)\<rparr>,
     store.write_all P (trip_writes (sys_state s) reason (take m (fs_entries f))) s)"
  using assms(5)
proof (induction m)
  case 0
  then show ?case by (simp add: trip_writes_def store.write_all_def)
next
  case (Suc m)
  let ?es = "fs_entries f"
  let ?t = "tripped (sys_state s) reason"
  let ?e = "?es ! m"
  let ?es' = "map ?t (take m ?es) @ drop m ?es"
  let ?s = "store.write_all P (trip_writes (sys_state s) reason (take m ?es)) s"
  have m: "m < length ?es" using Suc.prems by simp
  have d: "distinct (map out_id ?es)" using assms(1) by (simp add: failsafe_ok_def)
  have tk: "take (Suc m) ?es = take m ?es @ [?e]" using m by (rule take_Suc_conv_app_nth)
  have nth: "?es' ! m = ?e" using m by (simp add: nth_append)
  have upd: "?es'[m := ?t ?e] = map ?t (take (Suc m) ?es) @ drop (Suc m) ?es"
    using m unfolding tk by (simp add: list_update_append Cons_nth_drop_Suc [symmetric] del: Cons_nth_drop_Suc) 
  have "map out_id ?es' = map out_id (take m ?es) @ map out_id (drop m ?es)" by (simp add: o_def)
  then have d': "distinct (map out_id ?es')" using d by (metis append_take_drop_id map_append)
  have "out_id (?es ! j) \<noteq> out_id ?e" if "j < m" for j
    using nth_eq_iff_index_eq [OF d, of j m] m that by simp
  then have "out_id ?e \<notin> out_id ` set (take m ?es)" by (auto simp: in_set_conv_nth dest!: sym [of "out_id ?e"])
  then have "out_id ?e \<notin> dom (map_of (rev (filter (\<lambda>(k, v). state_valid_id k) (trip_writes (sys_state s) reason (take m ?es)))))"
    by (auto simp: trip_writes_def dest!: map_of_SomeD)
  then have "state_get_int (sys_state ?s) (out_id ?e) = state_get_int (sys_state s) (out_id ?e)"
    using store.write_all_get [OF assms(2), of P] by (simp add: map_add_dom_app_simps)
  then have so: "safe_output (sys_state ?s) reason ?e = safe_output (sys_state s) reason ?e"
      "tripped (sys_state ?s) reason ?e = ?t ?e"
    by (simp_all add: safe_output_def tripped_def)
  have ap: "failsafe_apply_for_reason (sys_state ?s) (out_id ?e) reason (f\<lparr>fs_entries := ?es'\<rparr>) =
      (if enabled_entry ?e then Some (safe_output (sys_state s) reason ?e) else None, f\<lparr>fs_entries := ?es'[m := ?t ?e]\<rparr>)"
    using apply_reason_nth [of "f\<lparr>fs_entries := ?es'\<rparr>" m reason "sys_state ?s"] d' m assms(3,4) nth so by simp
  have "fold (apply_reason_at P reason) [0..<Suc m] (0, f, s) =
      apply_reason_at P reason m (length (filter enabled_entry (take m ?es)), f\<lparr>fs_entries := ?es'\<rparr>, ?s)"
    using Suc by simp
  also have "\<dots> = (length (filter enabled_entry (take (Suc m) ?es)), f\<lparr>fs_entries := ?es'[m := ?t ?e]\<rparr>,
      store.write_all P (trip_writes (sys_state s) reason (take (Suc m) ?es)) s)"
    unfolding tk using nth ap by (simp add: apply_reason_at_def Let_def trip_writes_def store.write_all_def)
  finally show ?case unfolding upd .
qed

lemma trip_writes_get:
  assumes "distinct (map out_id es)" "system_ok s"
  shows "e \<in> set es \<Longrightarrow> enabled_entry e \<Longrightarrow> state_valid_id (out_id e) \<Longrightarrow>
      state_get_int (sys_state (store.write_all P (trip_writes st reason es) s)) (out_id e) = Some (safe_output st reason e)"
    and "k \<notin> out_id ` set (filter enabled_entry es) \<Longrightarrow>
      state_get_int (sys_state (store.write_all P (trip_writes st reason es) s)) k = state_get_int (sys_state s) k"
proof -
  let ?ws = "filter (\<lambda>(k, v). state_valid_id k) (trip_writes st reason es)"
  have d: "distinct (map fst (rev ?ws))"
    using assms(1) by (simp add: trip_writes_def o_def distinct_map_filter rev_map [symmetric])
  note get = store.write_all_get [OF assms(2), of P "trip_writes st reason es"]
  show "state_get_int (sys_state (store.write_all P (trip_writes st reason es) s)) (out_id e) = Some (safe_output st reason e)"
    if "e \<in> set es" "enabled_entry e" "state_valid_id (out_id e)" for e
  proof -
    have "(out_id e, safe_output st reason e) \<in> set (rev ?ws)" using that by (auto simp: trip_writes_def)
    with d have "map_of (rev ?ws) (out_id e) = Some (safe_output st reason e)" by (rule map_of_is_SomeI)
    then show ?thesis unfolding get by simp
  qed
  show "state_get_int (sys_state (store.write_all P (trip_writes st reason es) s)) k = state_get_int (sys_state s) k"
    if "k \<notin> out_id ` set (filter enabled_entry es)" for k
  proof -
    have "map_of (rev ?ws) k = None" using that by (auto simp: map_of_eq_None_iff trip_writes_def)
    then show ?thesis unfolding get by (simp add: map_add_def)
  qed
qed

lemma tripped_latched:
  assumes "distinct (map out_id (fs_entries f))" "f' = f\<lparr>fs_entries := map (tripped st reason) (fs_entries f)\<rparr>"
    and "e \<in> set (fs_entries f)" "enabled_entry e" "manual_entry e"
  shows "failsafe_is_active (out_id e) f' \<and> \<not> fst (failsafe_guard_command (out_id e) v f')"
proof -
  obtain i where i: "i < length (fs_entries f)" "e = fs_entries f ! i" using assms(3) by (metis in_set_conv_nth)
  have "failsafe_find (out_id e) f' = Some i"
    using find_at [of "map (tripped st reason) (fs_entries f)" i] assms(1) i by (simp add: assms(2) failsafe_find_def o_def)
  then show ?thesis using i assms(4,5)
    by (simp add: failsafe_is_active_def failsafe_guard_command_def assms(2) tripped_def Let_def)
qed

section \<open>Storage\<close>

lemma length_policy_bytes [simp]: "length (policy_bytes p) = 12"
  by (simp add: policy_bytes_def)

lemma policy_of_bytes [simp]: "policy_of (policy_bytes p @ ys) = p"
  by (simp add: policy_of_def policy_bytes_def nth_append)

lemma length_policies: "length (concat (map (\<lambda>e. policy_bytes (fe_policy e)) es)) = length es * 12"
  by (induction es) simp_all

lemma drop_policies:
  "i < length es \<Longrightarrow> \<exists>ys'. drop (i * 12) (concat (map (\<lambda>e. policy_bytes (fe_policy e)) es) @ ys) = policy_bytes (fe_policy (es ! i)) @ ys'"
proof (induction es arbitrary: i)
  case (Cons e es)
  then show ?case by (cases i) auto
qed simp

lemma length_body: "length (fs_entries f) \<le> 16 \<Longrightarrow> length (failsafe_body f) = 200"
  by (simp add: failsafe_body_def length_policies FAILSAFE_MAX_OUTPUTS_def)

lemma length_blob: "length (fs_entries f) \<le> 16 \<Longrightarrow> length (failsafe_blob f) = 204"
  by (simp add: failsafe_blob_def length_body)

lemma blob_policy:
  assumes "i < length (fs_entries f)"
  shows "policy_of (drop (8 + i * 12) (failsafe_blob f)) = fe_policy (fs_entries f ! i)"
proof -
  have eq: "drop (8 + i * 12) (failsafe_blob f) = drop (i * 12) (drop 8 (failsafe_blob f))" by (simp add: add.commute)
  obtain ys where "drop 8 (failsafe_blob f) = concat (map (\<lambda>e. policy_bytes (fe_policy e)) (fs_entries f)) @ ys"
    by (simp add: failsafe_blob_def failsafe_body_def)
  then show ?thesis unfolding eq using drop_policies [OF assms, of ys] by auto
qed

text \<open>An entry as it is after a boot that found its policy.\<close>

definition booted_entry :: "failsafe_policy_storage_t \<Rightarrow> failsafe_runtime_entry_t" where
  "booted_entry p = \<lparr>fe_policy = p, fe_active = False, fe_last_reason = FAILSAFE_REASON_NONE, fe_last_applied_value = 0\<rparr>"

lemma load_policy_nth:
  assumes "distinct (map out_id (fs_entries g))" "i < length (fs_entries g)" "out_id (fs_entries g ! i) = fp_output_id p"
    and "policy_ok p" "is_valid (fp_output_id p)"
  shows "failsafe_apply_loaded_policy is_valid p g = (True, g\<lparr>fs_entries := (fs_entries g)[i := booted_entry p]\<rparr>)"
proof -
  have "p\<lparr>fp_enabled := (if fp_enabled p \<noteq> 0 then 1 else 0), fp_safe_value := failsafe_binary_value (fp_safe_value p)\<rparr> = p"
    using assms(4) by (auto simp: policy_ok_def failsafe_binary_value_def)
  then show ?thesis
    using find_at [OF assms(1,2)] assms(3-5)
    by (simp add: failsafe_apply_loaded_policy_def failsafe_find_def policy_ok_def booted_entry_def)
qed

lemma load_policies:
  assumes "failsafe_ok f" "map out_id (fs_entries g) = map out_id (fs_entries f)"
    and "\<forall>e \<in> set (fs_entries f). is_valid (out_id e)" "m \<le> length (fs_entries f)"
  shows "apply_policies (\<lambda>bs. failsafe_apply_loaded_policy is_valid (policy_of bs)) (failsafe_blob f) m g =
    (0 < m, g\<lparr>fs_entries := map (\<lambda>e. booted_entry (fe_policy e)) (take m (fs_entries f)) @ drop m (fs_entries g)\<rparr>)"
  using assms(4)
proof (induction m)
  case 0
  then show ?case by (simp add: apply_policies_def)
next
  case (Suc m)
  let ?es = "fs_entries f"
  let ?b = "\<lambda>e. booted_entry (fe_policy e)"
  let ?gs = "map ?b (take m ?es) @ drop m (fs_entries g)"
  have m: "m < length ?es" "length (fs_entries g) = length ?es" using Suc.prems assms(2) by (auto dest: map_eq_imp_length_eq)
  have tk: "take (Suc m) ?es = take m ?es @ [?es ! m]" using m(1) by (rule take_Suc_conv_app_nth)
  have "map out_id ?gs = take m (map out_id ?es) @ drop m (map out_id (fs_entries g))"
    by (simp add: take_map drop_map booted_entry_def)
  then have ids: "map out_id ?gs = map out_id ?es" unfolding assms(2) by (simp only: append_take_drop_id)
  have upd: "?gs[m := ?b (?es ! m)] = map ?b (take (Suc m) ?es) @ drop (Suc m) (fs_entries g)"
    using m unfolding tk by (simp add: list_update_append Cons_nth_drop_Suc [symmetric] del: Cons_nth_drop_Suc)
  have len: "length ?gs = length ?es" using m by simp
  have "out_id (?gs ! m) = out_id (?es ! m)"
    using ids m(1) len by (metis nth_map)
  moreover have "distinct (map out_id ?gs)" using ids assms(1) by (simp only: failsafe_ok_def)
  ultimately have "failsafe_apply_loaded_policy is_valid (fe_policy (?es ! m)) (g\<lparr>fs_entries := ?gs\<rparr>) =
      (True, g\<lparr>fs_entries := ?gs[m := ?b (?es ! m)]\<rparr>)"
    using load_policy_nth [of "g\<lparr>fs_entries := ?gs\<rparr>" m "fe_policy (?es ! m)" is_valid] m(1) len assms(1,3)
    by (simp add: failsafe_ok_def)
  then show ?case
    using Suc blob_policy [OF m(1)] unfolding upd by (simp add: apply_policies_def)
qed

lemma load_saved_policies:
  assumes "failsafe_ok f" "map out_id (fs_entries g) = map out_id (fs_entries f)"
    and "\<forall>e \<in> set (fs_entries f). is_valid (out_id e)" "fs_entries f \<noteq> []"
    and "nvs_holds P FAILSAFE_NAMESPACE FAILSAFE_KEY (failsafe_blob f) w"
  shows "\<exists>w'. failsafe_load P is_valid g w = (True, g\<lparr>fs_entries := map (\<lambda>e. booted_entry (fe_policy e)) (fs_entries f)\<rparr>, w')"
proof -
  let ?n = "length (fs_entries f)"
  have n: "?n \<le> 16" using assms(1) by (simp add: failsafe_ok_def FAILSAFE_MAX_OUTPUTS_def)
  have lg: "length (fs_entries g) = ?n" using assms(2) by (rule map_eq_imp_length_eq)
  have cnt: "unat (of_nat ?n :: u16) = ?n" using n by simp
  have hdr: "of_le32 (failsafe_blob f) = FAILSAFE_MAGIC" "of_le16 (drop 4 (failsafe_blob f)) = FAILSAFE_VERSION"
      "of_le16 (drop 6 (failsafe_blob f)) = of_nat ?n"
    by (simp_all add: failsafe_blob_def failsafe_body_def)
  have crc: "take 200 (failsafe_blob f) = failsafe_body f" "of_le32 (drop 200 (failsafe_blob f)) = failsafe_crc32 (failsafe_body f)"
    using length_body [OF n] by (simp_all add: failsafe_blob_def)
  have load: "load_blob FAILSAFE_VERSION (\<lambda>bs. failsafe_apply_loaded_policy is_valid (policy_of bs)) (failsafe_blob f) g =
      (True, g\<lparr>fs_entries := map (\<lambda>e. booted_entry (fe_policy e)) (fs_entries f)\<rparr>)"
    unfolding load_blob_def hdr crc cnt Let_def
    using load_policies [OF assms(1-3), of ?n] lg n assms(4) by (simp add: FAILSAFE_MAX_OUTPUTS_def)
  obtain w' where "nvs_fetch P FAILSAFE_NAMESPACE FAILSAFE_KEY (\<lambda>len. len = FAILSAFE_BLOB_SIZE \<or> len = FAILSAFE_BLOB_V1_SIZE) w =
      (Some (204, failsafe_blob f), w')"
    using nvs_fetch_holds [OF assms(5), of "\<lambda>len. len = FAILSAFE_BLOB_SIZE \<or> len = FAILSAFE_BLOB_V1_SIZE"] length_blob [OF n]
    by (simp add: FAILSAFE_BLOB_SIZE_def) (metis prod.collapse)
  then show ?thesis using load by (simp add: failsafe_load_def FAILSAFE_BLOB_SIZE_def)
qed

section \<open>Properties\<close>

text \<open>
  C13: when the communication or the runtime fails, every enabled output takes the value its
  policy prescribes for that reason (off, on, its last value, its safe value), every other
  variable keeps its value, the number of affected outputs is reported, and an output with
  manual recovery is latched: commands for it are refused from then on.
\<close>

theorem failsafe_trips_outputs:
  assumes "failsafe_ok f" "system_ok s" "reason \<noteq> FAILSAFE_REASON_NONE" "reason \<noteq> FAILSAFE_REASON_MAX"
    and "failsafe_apply_for_reason_all P reason f s = (n, f', s')"
  shows "n = length (filter enabled_entry (fs_entries f)) \<and> system_ok s' \<and> failsafe_ok f' \<and>
    (\<forall>e \<in> set (fs_entries f). enabled_entry e \<and> state_valid_id (out_id e) \<longrightarrow>
       state_get_int (sys_state s') (out_id e) = Some (safe_output (sys_state s) reason e)) \<and>
    (\<forall>k. k \<notin> out_id ` set (filter enabled_entry (fs_entries f)) \<longrightarrow>
       state_get_int (sys_state s') k = state_get_int (sys_state s) k) \<and>
    (\<forall>e \<in> set (fs_entries f). enabled_entry e \<and> manual_entry e \<longrightarrow>
       failsafe_is_active (out_id e) f' \<and> \<not> fst (failsafe_guard_command (out_id e) v f'))"
proof -
  let ?es = "fs_entries f"
  let ?t = "tripped (sys_state s) reason"
  have run: "n = length (filter enabled_entry ?es)" "f' = f\<lparr>fs_entries := map ?t ?es\<rparr>"
      "s' = store.write_all P (trip_writes (sys_state s) reason ?es) s"
    using apply_reason_all_steps [OF assms(1-4) order_refl, of P] assms(5) by (simp_all add: failsafe_apply_for_reason_all_def)
  have d: "distinct (map out_id ?es)" using assms(1) by (simp add: failsafe_ok_def)
  have "map out_id (map ?t ?es) = map out_id ?es" by simp
  moreover have "fe_policy (?t e) = fe_policy e" for e by (simp add: tripped_def)
  ultimately have "failsafe_ok f'" using assms(1) by (auto simp: run(2) failsafe_ok_def simp del: map_map)
  moreover have "system_ok s'" unfolding run(3) by (rule store.write_all_ok [OF assms(2)])
  ultimately show ?thesis
    using run(1) trip_writes_get [OF d assms(2), where P = P] tripped_latched [OF d run(2)] unfolding run(3) by blast
qed

text \<open>The outputs 100 and 101; the second one recovers manually and holds its value on a loss of communication.\<close>

definition demo_failsafe :: failsafe where
  "demo_failsafe = \<lparr>fs_entries = [failsafe_default_entry 100,
     (failsafe_default_entry 101)\<lparr>fe_policy := (fe_policy (failsafe_default_entry 101))
        \<lparr>fp_comm_loss_action := FAILSAFE_ACTION_FORCE_ON, fp_recovery_mode := FAILSAFE_RECOVERY_MANUAL\<rparr>\<rparr>],
     fs_boot_reason = FAILSAFE_REASON_BOOT\<rparr>"

lemma demo_failsafe_ok: "failsafe_ok demo_failsafe"
  by (simp add: failsafe_ok_def demo_failsafe_def failsafe_default_entry_def policy_ok_def FAILSAFE_MAX_OUTPUTS_def
      failsafe_action_valid_def failsafe_recovery_valid_def failsafe_codes)

theorem failsafe_trips_outputs_witness:
  "case failsafe_apply_for_reason_all sim_platform FAILSAFE_REASON_COMM_LOSS demo_failsafe boot_system of
     (n, f', s') \<Rightarrow> n = 2 \<and> state_get_int (sys_state s') 101 = Some 1 \<and> \<not> fst (failsafe_guard_command 101 0 f')"
proof -
  obtain n f' s' where r: "failsafe_apply_for_reason_all sim_platform FAILSAFE_REASON_COMM_LOSS demo_failsafe boot_system = (n, f', s')"
    by (metis prod_cases3)
  note trip = failsafe_trips_outputs [OF demo_failsafe_ok boot_system_ok _ _ r, of 0]
  let ?e = "fs_entries demo_failsafe ! 1"
  have e: "?e \<in> set (fs_entries demo_failsafe)" "out_id ?e = 101" "enabled_entry ?e" "manual_entry ?e"
      "fp_comm_loss_action (fe_policy ?e) = FAILSAFE_ACTION_FORCE_ON"
    by (simp_all add: demo_failsafe_def failsafe_default_entry_def)
  have "state_valid_id 101" by (simp add: state_valid_id_def STATE_MAX_ENTRIES_def)
  moreover have "length (filter enabled_entry (fs_entries demo_failsafe)) = 2"
    by (simp add: demo_failsafe_def failsafe_default_entry_def)
  moreover have "safe_output (sys_state boot_system) FAILSAFE_REASON_COMM_LOSS ?e = 1"
    using e(5) by (simp add: safe_output_def failsafe_action_for_reason_def failsafe_apply_action_def)
  ultimately show ?thesis using trip e r by (simp, metis)
qed

text \<open>
  The policies survive a reboot. Once a save has succeeded, on storage that keeps what is
  committed, the initialisation of the next boot with the same outputs restores every policy;
  no latch is set and nothing is written.
\<close>

theorem failsafe_policies_survive_reboot:
  assumes "failsafe_ok f" "fs_entries f \<noteq> []" "failsafe_save P f w = (True, w')" "nvs_durable P"
    and "take 16 (filter (\<lambda>i. i \<noteq> 0) output_ids) = map out_id (fs_entries f)"
    and "\<forall>e \<in> set (fs_entries f). is_valid_output (out_id e)"
  shows "fst (failsafe_init P rst output_ids is_valid_output w') =
    \<lparr>fs_entries = map (\<lambda>e. booted_entry (fe_policy e)) (fs_entries f), fs_boot_reason = failsafe_detect_boot_reason rst\<rparr>"
proof -
  let ?g = "\<lparr>fs_entries = map failsafe_default_entry (map out_id (fs_entries f)), fs_boot_reason = failsafe_detect_boot_reason rst\<rparr>"
  have holds: "nvs_holds P FAILSAFE_NAMESPACE FAILSAFE_KEY (failsafe_blob f) w'"
    using nvs_store_holds [OF assms(4)] assms(3) by (simp add: failsafe_save_def)
  have "map out_id (fs_entries ?g) = map out_id (fs_entries f)" by (simp add: failsafe_default_entry_def o_def)
  from load_saved_policies [OF assms(1) this assms(6,2) holds] obtain w2 where
    "failsafe_load P is_valid_output ?g w' = (True, ?g\<lparr>fs_entries := map (\<lambda>e. booted_entry (fe_policy e)) (fs_entries f)\<rparr>, w2)" by blast
  then show ?thesis using assms(5) by (simp add: failsafe_init_def Let_def FAILSAFE_MAX_OUTPUTS_def)
qed

theorem failsafe_policies_survive_reboot_witness:
  "fp_comm_loss_action (fe_policy (fs_entries (fst (failsafe_init sim_platform ESP_RST_OTHER [100, 101] (\<lambda>_. True)
     (snd (failsafe_save sim_platform demo_failsafe sim_init)))) ! 1)) = FAILSAFE_ACTION_FORCE_ON"
proof -
  obtain w' where w': "failsafe_save sim_platform demo_failsafe sim_init = (True, w')"
    using sim_store [of sim_init FAILSAFE_NAMESPACE FAILSAFE_KEY "failsafe_blob demo_failsafe"] by (auto simp: failsafe_save_def sim_init_def)
  have ids: "take 16 (filter (\<lambda>i. i \<noteq> 0) [100, 101]) = map out_id (fs_entries demo_failsafe)"
    by (simp add: demo_failsafe_def failsafe_default_entry_def)
  have "fs_entries demo_failsafe \<noteq> []" by (simp add: demo_failsafe_def)
  from failsafe_policies_survive_reboot [OF demo_failsafe_ok this w' sim_durable ids, of "\<lambda>_. True" ESP_RST_OTHER]
  show ?thesis using w' by (simp add: demo_failsafe_def booted_entry_def)
qed

text \<open>
  Stored policies of version 1 are never migrated. Both versions of the blob have the same
  size, so a version 1 blob is read as version 2 and refused: loading it reports nothing loaded and
  changes no policy, whatever it contains.
\<close>

theorem failsafe_v1_policies_ignored:
  assumes "nvs_holds P FAILSAFE_NAMESPACE FAILSAFE_KEY bs w" "length bs = FAILSAFE_BLOB_V1_SIZE"
    and "of_le16 (drop 4 bs) = FAILSAFE_VERSION_V1"
  shows "fst (failsafe_load P is_valid_output f w) = False \<and> fst (snd (failsafe_load P is_valid_output f w)) = f"
proof -
  have "fst (nvs_fetch P FAILSAFE_NAMESPACE FAILSAFE_KEY (\<lambda>len. len = FAILSAFE_BLOB_SIZE \<or> len = FAILSAFE_BLOB_V1_SIZE) w) = Some (204, bs)"
    using nvs_fetch_holds [OF assms(1), of "\<lambda>len. len = FAILSAFE_BLOB_SIZE \<or> len = FAILSAFE_BLOB_V1_SIZE"] assms(2)
    by (simp add: FAILSAFE_BLOB_V1_SIZE_def)
  then show ?thesis using assms(3)
    by (auto simp: failsafe_load_def case_prod_unfold FAILSAFE_BLOB_SIZE_def load_blob_def FAILSAFE_VERSION_def
        FAILSAFE_VERSION_V1_def Let_def)
qed

text \<open>A version 1 blob with the outputs 100 and 101, with a correct checksum.\<close>

definition v1_body :: bytes where
  "v1_body = le32 FAILSAFE_MAGIC @ le16 FAILSAFE_VERSION_V1 @ le16 2 @
     le16 100 @ [2, 1, 0, 0, 0, 0] @ le32 0 @ le16 101 @ [1, 1, 1, 0, 0, 0] @ le32 0 @ replicate 168 0"

theorem failsafe_v1_policies_ignored_witness:
  "\<not> fst (failsafe_load sim_platform (\<lambda>_. True) demo_failsafe
     (snd (nvs_store sim_platform FAILSAFE_NAMESPACE FAILSAFE_KEY (v1_body @ le32 (failsafe_crc32 v1_body)) sim_init)))"
proof -
  let ?bs = "v1_body @ le32 (failsafe_crc32 v1_body)"
  obtain w' where w': "nvs_store sim_platform FAILSAFE_NAMESPACE FAILSAFE_KEY ?bs sim_init = (True, w')"
    using sim_store [of sim_init FAILSAFE_NAMESPACE FAILSAFE_KEY ?bs] by (auto simp: sim_init_def)
  have "length ?bs = FAILSAFE_BLOB_V1_SIZE" "of_le16 (drop 4 ?bs) = FAILSAFE_VERSION_V1"
    by (simp_all add: v1_body_def FAILSAFE_BLOB_V1_SIZE_def)
  from failsafe_v1_policies_ignored [OF nvs_store_holds [OF sim_durable w'] this] w' show ?thesis by simp
qed

text \<open>
  The latch of manual recovery. A command for an output is refused exactly when its policy is
  enabled, recovers manually and has tripped; a refused command changes nothing, an accepted one
  never sets the latch, and after a rearm the next command is accepted.
\<close>

theorem failsafe_manual_latch:
  assumes "failsafe_find k f = Some i"
  shows "(fst (failsafe_guard_command k v f) \<longleftrightarrow>
      \<not> (enabled_entry (fs_entries f ! i) \<and> failsafe_is_active k f \<and> manual_entry (fs_entries f ! i))) \<and>
    (\<not> fst (failsafe_guard_command k v f) \<longrightarrow> snd (snd (failsafe_guard_command k v f)) = f) \<and>
    (failsafe_is_active k (snd (snd (failsafe_guard_command k v f))) = failsafe_is_active k f) \<and>
    fst (failsafe_rearm k f) \<and> fst (failsafe_guard_command k v (snd (failsafe_rearm k f)))"
proof -
  have i: "i < length (fs_entries f)" "out_id (fs_entries f ! i) = k" using assms by (auto simp: failsafe_find_def dest: find_index_SomeD)
  have same: "failsafe_find k (f\<lparr>fs_entries := (fs_entries f)[i := e]\<rparr>) = Some i" if "out_id e = k" for e
    using assms that by (simp add: failsafe_find_def find_index_update_same)
  show ?thesis using i assms same
    by (auto simp: failsafe_guard_command_def failsafe_is_active_def failsafe_rearm_def failsafe_clear_manual_reset_def Let_def)
qed

theorem failsafe_manual_latch_witness: "fst (failsafe_guard_command 101 1 (snd (failsafe_rearm 101 demo_failsafe)))"
proof -
  have "failsafe_find 101 demo_failsafe = Some 1" by (simp add: failsafe_find_def demo_failsafe_def failsafe_default_entry_def)
  from failsafe_manual_latch [OF this, of 1] show ?thesis by blast
qed

end
