(* ===== verification/Protocol.thy ===== *)
theory Protocol
  imports Prelude
begin

text \<open>
  The messages the nodes of a cluster exchange (\<open>comm/protocol/protocol.c\<close>): a \<open>protocol_msg_t\<close> is
  sent as it lies in memory, 20 bytes with the type at 0 and the payload at 4. A sender clears
  the message first, so padding is zero. The two callbacks are functions on the state \<open>'s\<close> of
  their owners.
\<close>

definition PROTOCOL_MSG_CLUSTER_IO_UPDATE :: u8 where "PROTOCOL_MSG_CLUSTER_IO_UPDATE = 0x10"
definition PROTOCOL_MSG_OUTPUT_COMMAND :: u8 where "PROTOCOL_MSG_OUTPUT_COMMAND = 0x11"
definition PROTOCOL_MSG_SIZE :: nat where "PROTOCOL_MSG_SIZE = 20"

record protocol_cluster_io_update_t =
  iu_io_id :: u16
  iu_new_owner :: u32
  iu_original_owner :: u32

record protocol_output_command_t =
  cmd_target_node :: u32
  cmd_requester_node :: u32
  cmd_output_id :: u16
  cmd_value :: i32

record 's protocol =
  pr_io_update_cb :: "(protocol_cluster_io_update_t \<Rightarrow> 's \<Rightarrow> 's) option"
  pr_output_command_cb :: "(protocol_output_command_t \<Rightarrow> 's \<Rightarrow> 's) option"

definition io_update_frame :: "protocol_cluster_io_update_t \<Rightarrow> bytes" where
  "io_update_frame m = [PROTOCOL_MSG_CLUSTER_IO_UPDATE, 0, 0, 0] @ le16 (iu_io_id m) @ [0, 0] @
     le32 (iu_new_owner m) @ le32 (iu_original_owner m) @ [0, 0, 0, 0]"

definition output_command_frame :: "protocol_output_command_t \<Rightarrow> bytes" where
  "output_command_frame m = [PROTOCOL_MSG_OUTPUT_COMMAND, 0, 0, 0] @ le32 (cmd_target_node m) @ le32 (cmd_requester_node m) @
     le16 (cmd_output_id m) @ [0, 0] @ le32 (cmd_value m)"

definition io_update_of :: "bytes \<Rightarrow> protocol_cluster_io_update_t" where
  "io_update_of bs = \<lparr>iu_io_id = of_le16 (drop 4 bs), iu_new_owner = of_le32 (drop 8 bs), iu_original_owner = of_le32 (drop 12 bs)\<rparr>"

definition output_command_of :: "bytes \<Rightarrow> protocol_output_command_t" where
  "output_command_of bs = \<lparr>cmd_target_node = of_le32 (drop 4 bs), cmd_requester_node = of_le32 (drop 8 bs),
     cmd_output_id = of_le16 (drop 12 bs), cmd_value = of_le32 (drop 16 bs)\<rparr>"

definition protocol_register_io_update_callback :: "(protocol_cluster_io_update_t \<Rightarrow> 's \<Rightarrow> 's) \<Rightarrow> 's protocol \<Rightarrow> 's protocol" where
  "protocol_register_io_update_callback cb p = p\<lparr>pr_io_update_cb := Some cb\<rparr>"

definition protocol_register_output_command_callback :: "(protocol_output_command_t \<Rightarrow> 's \<Rightarrow> 's) \<Rightarrow> 's protocol \<Rightarrow> 's protocol" where
  "protocol_register_output_command_callback cb p = p\<lparr>pr_output_command_cb := Some cb\<rparr>"

definition protocol_process_frame :: "'s protocol \<Rightarrow> bytes \<Rightarrow> u16 \<Rightarrow> 's \<Rightarrow> 's" where
  "protocol_process_frame p data len s =
     (if unat len < PROTOCOL_MSG_SIZE then s
      else if data ! 0 = PROTOCOL_MSG_CLUSTER_IO_UPDATE
      then (case pr_io_update_cb p of None \<Rightarrow> s | Some cb \<Rightarrow> cb (io_update_of data) s)
      else if data ! 0 = PROTOCOL_MSG_OUTPUT_COMMAND
      then (case pr_output_command_cb p of None \<Rightarrow> s | Some cb \<Rightarrow> cb (output_command_of data) s)
      else s)"

lemma length_frames [simp]: "length (io_update_frame m) = 20" "length (output_command_frame c) = 20"
  by (simp_all add: io_update_frame_def output_command_frame_def)

lemma of_frames [simp]: "io_update_of (io_update_frame m) = m" "output_command_of (output_command_frame c) = c"
  by (simp_all add: io_update_frame_def io_update_of_def output_command_frame_def output_command_of_def)

text \<open>
  What a node sends is what its peers handle: a frame of either kind reaches exactly its
  callback with exactly its fields, and a frame shorter than a
  message is ignored.
\<close>

theorem protocol_frame_delivered:
  "protocol_process_frame p (io_update_frame m) 20 s = (case pr_io_update_cb p of None \<Rightarrow> s | Some cb \<Rightarrow> cb m s) \<and>
   protocol_process_frame p (output_command_frame c) 20 s = (case pr_output_command_cb p of None \<Rightarrow> s | Some cb \<Rightarrow> cb c s) \<and>
   protocol_process_frame p data 19 s = s"
proof -
  have "io_update_frame m ! 0 = PROTOCOL_MSG_CLUSTER_IO_UPDATE" "output_command_frame c ! 0 = PROTOCOL_MSG_OUTPUT_COMMAND"
      "PROTOCOL_MSG_OUTPUT_COMMAND \<noteq> PROTOCOL_MSG_CLUSTER_IO_UPDATE"
    by (simp_all add: io_update_frame_def output_command_frame_def PROTOCOL_MSG_CLUSTER_IO_UPDATE_def PROTOCOL_MSG_OUTPUT_COMMAND_def)
  then show ?thesis by (simp add: protocol_process_frame_def PROTOCOL_MSG_SIZE_def split: option.split)
qed

end
