(* ===== verification/Cluster_Io.thy ===== *)
theory Cluster_Io
  imports Node_Registry Failsafe Protocol
begin

text \<open>
  Ownership of the inputs and outputs in the cluster (\<open>cluster/cluster_io.c\<close>) and the handler of
  membership events (\<open>cluster/cluster_failover.c\<close>): a table of 256 entries says which node drives
  an output; when a node is lost the master takes its outputs over, when it returns they are handed
  back. Sending a frame to all peers is the parameter \<open>bcast\<close>, which changes the world \<open>'w\<close>; the
  registry and the cluster manager are arguments of the operations that ask them.
\<close>

section \<open>Model\<close>

definition MAX_IO :: nat where "MAX_IO = 256"

record cluster_io_entry_t =
  io_io_id :: u32
  io_owner :: u32
  io_original_owner :: u32
  io_valid :: bool

record 'w cluster_io =
  ci_table :: "cluster_io_entry_t list"
  ci_self_node :: u32
  ci_world :: 'w

type_synonym 'w broadcast = "bytes \<Rightarrow> 'w \<Rightarrow> bool \<times> 'w"

definition free_io :: cluster_io_entry_t where
  "free_io = \<lparr>io_io_id = 0, io_owner = 0, io_original_owner = 0, io_valid = False\<rparr>"

definition cluster_io_node_is_operational :: "'r registry \<Rightarrow> u32 \<Rightarrow> u32 \<Rightarrow> bool" where
  "cluster_io_node_is_operational reg self_node node_id \<longleftrightarrow>
     node_id = 0 \<or> node_id = self_node \<or> node_registry_is_operational node_id reg"

definition cluster_io_find :: "u32 \<Rightarrow> cluster_io_entry_t list \<Rightarrow> nat option" where
  "cluster_io_find io_id es = find_index (\<lambda>e. io_valid e \<and> io_io_id e = io_id) es"

definition cluster_io_free :: "cluster_io_entry_t list \<Rightarrow> nat option" where
  "cluster_io_free es = find_index (\<lambda>e. \<not> io_valid e) es"

definition cluster_io_allocate :: "u32 \<Rightarrow> u32 \<Rightarrow> cluster_io_entry_t list \<Rightarrow> (nat \<times> cluster_io_entry_t list) option" where
  "cluster_io_allocate self_node io_id es =
     (case cluster_io_find io_id es of
        Some i \<Rightarrow> Some (i, es)
      | None \<Rightarrow>
        (case cluster_io_free es of
           None \<Rightarrow> None
         | Some i \<Rightarrow> Some (i, es[i := \<lparr>io_io_id = io_id, io_owner = self_node, io_original_owner = self_node, io_valid = True\<rparr>])))"

definition cluster_io_copy_entry_by_index :: "int \<Rightarrow> 'w cluster_io \<Rightarrow> cluster_io_entry_t option" where
  "cluster_io_copy_entry_by_index index c =
     (if index < 0 \<or> index \<ge> int MAX_IO then None
      else if io_valid (ci_table c ! nat index) then Some (ci_table c ! nat index) else None)"

definition cluster_io_copy_entry_by_id :: "u32 \<Rightarrow> 'w cluster_io \<Rightarrow> cluster_io_entry_t option" where
  "cluster_io_copy_entry_by_id io_id c = map_option ((!) (ci_table c)) (cluster_io_find io_id (ci_table c))"

text \<open>The id is sent as a 16-bit number.\<close>

definition cluster_io_broadcast_update :: "'w broadcast \<Rightarrow> u32 \<Rightarrow> u32 \<Rightarrow> u32 \<Rightarrow> 'w cluster_io \<Rightarrow> 'w cluster_io" where
  "cluster_io_broadcast_update bcast io_id owner original_owner c =
     c\<lparr>ci_world := snd (bcast (io_update_frame \<lparr>iu_io_id = ucast io_id, iu_new_owner = owner, iu_original_owner = original_owner\<rparr>) (ci_world c))\<rparr>"

definition cluster_io_init :: "u32 \<Rightarrow> 'w cluster_io \<Rightarrow> 'w cluster_io" where
  "cluster_io_init node_id c = c\<lparr>ci_self_node := node_id, ci_table := replicate MAX_IO free_io\<rparr>"

text \<open>The entry of an id with its owners set; nothing happens when the table is full.\<close>

definition put_owner :: "u32 \<Rightarrow> u32 \<Rightarrow> u32 \<Rightarrow> 'w cluster_io \<Rightarrow> 'w cluster_io" where
  "put_owner io_id owner original_owner c =
     (case cluster_io_allocate (ci_self_node c) io_id (ci_table c) of
        None \<Rightarrow> c
      | Some (i, es) \<Rightarrow>
        c\<lparr>ci_table := es[i := \<lparr>io_io_id = io_id, io_owner = owner, io_original_owner = original_owner, io_valid = True\<rparr>]\<rparr>)"

definition cluster_io_register_local :: "u32 \<Rightarrow> 'w cluster_io \<Rightarrow> 'w cluster_io" where
  "cluster_io_register_local io_id c =
     (if io_id = 0 then c else put_owner io_id (ci_self_node c) (ci_self_node c) c)"

definition sync_entry :: "'w broadcast \<Rightarrow> nat \<Rightarrow> 'w cluster_io \<Rightarrow> 'w cluster_io" where
  "sync_entry bcast i c =
     (case cluster_io_copy_entry_by_index (int i) c of
        None \<Rightarrow> c
      | Some e \<Rightarrow> cluster_io_broadcast_update bcast (io_io_id e) (io_owner e) (io_original_owner e) c)"

definition cluster_io_sync_all :: "'w broadcast \<Rightarrow> 'w cluster_io \<Rightarrow> 'w cluster_io" where
  "cluster_io_sync_all bcast c = fold (sync_entry bcast) [0..<MAX_IO] c"

definition cluster_io_set_owner :: "u32 \<Rightarrow> u32 \<Rightarrow> u32 \<Rightarrow> 'w cluster_io \<Rightarrow> 'w cluster_io" where
  "cluster_io_set_owner io_id owner original_owner c = put_owner io_id owner original_owner c"

text \<open>One entry handed to a new owner, with its broadcast.\<close>

definition reassign :: "'w broadcast \<Rightarrow> nat \<Rightarrow> u32 \<Rightarrow> 'w cluster_io \<Rightarrow> 'w cluster_io" where
  "reassign bcast i owner c =
     (let e = (ci_table c ! i)\<lparr>io_owner := owner\<rparr>; c = c\<lparr>ci_table := (ci_table c)[i := e]\<rparr>
      in cluster_io_broadcast_update bcast (io_io_id e) (io_owner e) (io_original_owner e) c)"

definition takeover_entry :: "'w broadcast \<Rightarrow> u32 \<Rightarrow> nat \<Rightarrow> 'w cluster_io \<Rightarrow> 'w cluster_io" where
  "takeover_entry bcast failed_node i c =
     (let e = ci_table c ! i in
      if io_valid e \<and> io_owner e = failed_node then reassign bcast i (ci_self_node c) c else c)"

definition cluster_io_handle_node_offline :: "'w broadcast \<Rightarrow> 'v cluster \<Rightarrow> u32 \<Rightarrow> 'w cluster_io \<Rightarrow> 'w cluster_io" where
  "cluster_io_handle_node_offline bcast cm failed_node c =
     (if ci_self_node c \<noteq> cluster_get_master_node cm then c
      else fold (takeover_entry bcast failed_node) [0..<MAX_IO] c)"

definition failback_entry :: "'w broadcast \<Rightarrow> u32 \<Rightarrow> nat \<Rightarrow> 'w cluster_io \<Rightarrow> 'w cluster_io" where
  "failback_entry bcast node_id i c =
     (let e = ci_table c ! i in
      if io_valid e \<and> io_original_owner e = node_id \<and> io_owner e = ci_self_node c then reassign bcast i node_id c else c)"

definition cluster_io_handle_node_online :: "'w broadcast \<Rightarrow> u32 \<Rightarrow> 'w cluster_io \<Rightarrow> 'w cluster_io" where
  "cluster_io_handle_node_online bcast node_id c =
     cluster_io_sync_all bcast (fold (failback_entry bcast node_id) [0..<MAX_IO] c)"

definition sync_state_entry :: "'w broadcast \<Rightarrow> state_store \<Rightarrow> u32 \<Rightarrow> nat \<Rightarrow> 'w cluster_io \<Rightarrow> 'w cluster_io" where
  "sync_state_entry bcast st node_id i c =
     (let e = ci_table c ! i in
      if io_valid e \<and> io_owner e = node_id
      then case state_get_int st (ucast (io_io_id e)) of
          None \<Rightarrow> c
        | Some v \<Rightarrow> c\<lparr>ci_world := snd (bcast (output_command_frame \<lparr>cmd_target_node = node_id, cmd_requester_node = ci_self_node c,
            cmd_output_id = ucast (io_io_id e), cmd_value = v\<rparr>) (ci_world c))\<rparr>
      else c)"

definition cluster_io_sync_state_to_node :: "'w broadcast \<Rightarrow> state_store \<Rightarrow> u32 \<Rightarrow> 'w cluster_io \<Rightarrow> 'w cluster_io" where
  "cluster_io_sync_state_to_node bcast st node_id c =
     (if node_id = ci_self_node c then c else fold (sync_state_entry bcast st node_id) [0..<MAX_IO] c)"

definition cluster_io_handle_update :: "'r registry \<Rightarrow> protocol_cluster_io_update_t \<Rightarrow> 'w cluster_io \<Rightarrow> 'w cluster_io" where
  "cluster_io_handle_update reg msg c =
     (if \<not> cluster_io_node_is_operational reg (ci_self_node c) (iu_new_owner msg) \<or>
         \<not> cluster_io_node_is_operational reg (ci_self_node c) (iu_original_owner msg)
      then c
      else case cluster_io_allocate (ci_self_node c) (ucast (iu_io_id msg)) (ci_table c) of
        None \<Rightarrow> c
      | Some (i, es) \<Rightarrow>
        let e = es ! i; c = c\<lparr>ci_table := es\<rparr> in
        if io_valid e \<and> io_original_owner e = ci_self_node c \<and> iu_original_owner msg \<noteq> ci_self_node c then c
        else if io_owner e = iu_new_owner msg \<and> io_original_owner e = iu_original_owner msg then c
        else c\<lparr>ci_table := es[i := \<lparr>io_io_id = ucast (iu_io_id msg), io_owner = iu_new_owner msg,
               io_original_owner = iu_original_owner msg, io_valid = True\<rparr>]\<rparr>)"

definition cluster_io_is_local :: "u32 \<Rightarrow> 'w cluster_io \<Rightarrow> bool" where
  "cluster_io_is_local io_id c =
     (if ci_self_node c = 0 then True
      else case cluster_io_copy_entry_by_id io_id c of None \<Rightarrow> True | Some e \<Rightarrow> io_owner e = ci_self_node c)"

definition cluster_io_get_owner :: "u32 \<Rightarrow> 'w cluster_io \<Rightarrow> u32" where
  "cluster_io_get_owner io_id c =
     (case cluster_io_copy_entry_by_id io_id c of None \<Rightarrow> ci_self_node c | Some e \<Rightarrow> io_owner e)"

definition cluster_io_get_original_owner :: "u32 \<Rightarrow> 'w cluster_io \<Rightarrow> u32" where
  "cluster_io_get_original_owner io_id c =
     (case cluster_io_copy_entry_by_id io_id c of None \<Rightarrow> ci_self_node c | Some e \<Rightarrow> io_original_owner e)"

subsection \<open>Events of the membership\<close>

definition cluster_failover_node_is_registered_gateway :: "'r registry \<Rightarrow> u32 \<Rightarrow> bool" where
  "cluster_failover_node_is_registered_gateway reg node_id \<longleftrightarrow>
     list_ex (\<lambda>e. ne_node_id e = node_id \<and> c_str (ne_profile e) = str_bytes ''gateway'')
       (node_registry_export True (int NODE_REGISTRY_MAX_NODES) reg)"

text \<open>What the handler of the events works on.\<close>

record ('w, 'x) failover =
  fo_io :: "'x cluster_io"
  fo_failsafe :: failsafe
  fo_system :: "'w system"

definition cluster_failover_apply_local_failsafe_if_gateway_lost ::
  "'w platform \<Rightarrow> 'r registry \<Rightarrow> u32 \<Rightarrow> u32 \<Rightarrow> failsafe_reason_t \<Rightarrow> ('w, 'x) failover \<Rightarrow> ('w, 'x) failover" where
  "cluster_failover_apply_local_failsafe_if_gateway_lost P reg self_node node_id reason x =
     (if node_id = self_node then x
      else if \<not> cluster_failover_node_is_registered_gateway reg node_id then x
      else case failsafe_apply_for_reason_all P reason (fo_failsafe x) (fo_system x) of
        (applied, f, s) \<Rightarrow> x\<lparr>fo_failsafe := f, fo_system := s\<rparr>)"

definition cluster_failover_event_handler ::
  "'w platform \<Rightarrow> 'x broadcast \<Rightarrow> 'r registry \<Rightarrow> 'v cluster \<Rightarrow> u32 \<Rightarrow> cluster_event_t \<Rightarrow> ('w, 'x) failover \<Rightarrow> ('w, 'x) failover" where
  "cluster_failover_event_handler P bcast reg cm self_node evt x =
     (case ce_type evt of
        EVENT_NODE_OFFLINE \<Rightarrow>
          if ce_node_id evt = self_node then x
          else let x = cluster_failover_apply_local_failsafe_if_gateway_lost P reg self_node (ce_node_id evt) FAILSAFE_REASON_NODE_OFFLINE x
            in x\<lparr>fo_io := cluster_io_handle_node_offline bcast cm (ce_node_id evt) (fo_io x)\<rparr>
      | EVENT_NODE_ONLINE \<Rightarrow>
          if ce_node_id evt = self_node then x
          else let c = cluster_io_handle_node_online bcast (ce_node_id evt) (fo_io x)
            in x\<lparr>fo_io := cluster_io_sync_state_to_node bcast (sys_state (fo_system x)) (ce_node_id evt) c\<rparr>
      | EVENT_NODE_SUSPECT \<Rightarrow>
          cluster_failover_apply_local_failsafe_if_gateway_lost P reg self_node (ce_node_id evt) FAILSAFE_REASON_COMM_LOSS x
      | _ \<Rightarrow> x)"

record failover_ctl =
  fc_self_node :: u32
  fc_started :: bool

definition cluster_failover_init ::
  "u32 \<Rightarrow> nat \<Rightarrow> failover_ctl \<times> 'x cluster_io \<times> nat option list \<Rightarrow> failover_ctl \<times> 'x cluster_io \<times> nat option list" where
  "cluster_failover_init self_node_id handler = (\<lambda>(ctl, c, subs).
     if fc_started ctl then (ctl\<lparr>fc_self_node := self_node_id\<rparr>, c, subs)
     else (ctl\<lparr>fc_self_node := self_node_id, fc_started := True\<rparr>, cluster_io_init self_node_id c, cluster_events_subscribe handler subs))"

section \<open>The table\<close>

interpretation io_table: keyed_table io_valid io_io_id "\<lambda>_. True" cluster_io_find cluster_io_free
proof unfold_locales
  show "cluster_io_find k xs = Some i \<Longrightarrow> i < length xs \<and> io_io_id (xs ! i) = k" for k xs i
    by (auto simp: cluster_io_find_def dest: find_index_SomeD)
  show "cluster_io_find k xs = Some i \<Longrightarrow> io_valid (xs ! i)" for k xs i
    by (auto simp: cluster_io_find_def dest: find_index_SomeD)
  show "cluster_io_find k xs = None \<Longrightarrow> e \<in> set xs \<Longrightarrow> io_valid e \<Longrightarrow> io_io_id e \<noteq> k" for k xs e
    by (auto simp: cluster_io_find_def find_index_None)
  show "cluster_io_free xs = Some i \<Longrightarrow> i < length xs \<and> \<not> io_valid (xs ! i)" for xs i
    by (auto simp: cluster_io_free_def dest: find_index_SomeD)
  show "cluster_io_free xs = None \<Longrightarrow> e \<in> set xs \<Longrightarrow> io_valid e" for xs e
    by (auto simp: cluster_io_free_def find_index_None)
qed

definition io_table_ok :: "cluster_io_entry_t list \<Rightarrow> bool" where
  "io_table_ok es \<longleftrightarrow> length es = MAX_IO \<and> keys_distinct io_valid io_io_id es"

abbreviation own_entry :: "u32 \<Rightarrow> u32 \<Rightarrow> cluster_io_entry_t" where
  "own_entry self io_id \<equiv> \<lparr>io_io_id = io_id, io_owner = self, io_original_owner = self, io_valid = True\<rparr>"

abbreviation entry_for :: "u32 \<Rightarrow> cluster_io_entry_t list \<Rightarrow> cluster_io_entry_t option" where
  "entry_for io_id es \<equiv> lookup cluster_io_find io_id es"

lemma copy_by_id_lookup: "cluster_io_copy_entry_by_id io_id c = entry_for io_id (ci_table c)"
  by (simp add: cluster_io_copy_entry_by_id_def lookup_def)

lemma io_store:
  assumes "io_table_ok es" "slot cluster_io_find cluster_io_free k es = Some i" "io_io_id e = k" "io_valid e"
  shows "io_table_ok (es[i := e]) \<and> entry_for k' (es[i := e]) = (if k' = k then Some e else entry_for k' es)"
proof -
  have d: "keys_distinct io_valid io_io_id es" using assms(1) by (simp add: io_table_ok_def)
  from io_table.store_distinct [OF d assms(2,3)] io_table.lookup_store [OF d assms(2,3,4)] show ?thesis
    using assms(1) by (simp add: io_table_ok_def)
qed

text \<open>An allocation finds the entry of the id or makes a new one that belongs to the node itself.\<close>

lemma allocate_ok:
  assumes "io_table_ok es" "cluster_io_allocate self io_id es = Some (i, es')"
  shows "io_table_ok es' \<and> slot cluster_io_find cluster_io_free io_id es' = Some i \<and> i < length es' \<and>
    es' ! i = (case entry_for io_id es of Some e \<Rightarrow> e | None \<Rightarrow> own_entry self io_id) \<and>
    entry_for k es' = (if k = io_id then Some (es' ! i) else entry_for k es)"
proof (cases "cluster_io_find io_id es")
  case (Some j)
  then show ?thesis using assms io_table.find_Some [OF Some] by (auto simp: cluster_io_allocate_def slot_def lookup_def)
next
  case None
  then have s: "slot cluster_io_find cluster_io_free io_id es = Some i" "es' = es[i := own_entry self io_id]"
    using assms(2) by (auto simp: cluster_io_allocate_def slot_def split: option.splits)
  have i: "i < length es" using io_table.slot_Some [OF s(1)] by simp
  have st: "io_table_ok es'" "\<And>k. entry_for k es' = (if k = io_id then Some (own_entry self io_id) else entry_for k es)"
    using io_store [OF assms(1) s(1)] s(2) by auto
  obtain j where j: "cluster_io_find io_id es' = Some j" using st(2) [of io_id] by (auto simp: lookup_def)
  have "j = i"
  proof (rule ccontr)
    assume "j \<noteq> i"
    then have "io_valid (es ! j)" "io_io_id (es ! j) = io_id" "j < length es"
      using j io_table.find_Some [OF j] io_table.find_valid [OF _ j] s(2) by auto
    then show False using io_table.find_None [OF None, of "es ! j"] by auto
  qed
  with j st s(2) i None show ?thesis by (simp add: slot_def lookup_def)
qed

lemma put_owner_ok:
  assumes "io_table_ok (ci_table c)"
  shows "io_table_ok (ci_table (put_owner io_id owner orig c))"
proof (cases "cluster_io_allocate (ci_self_node c) io_id (ci_table c)")
  case (Some p)
  obtain i es where p: "p = (i, es)" by force
  note a = allocate_ok [OF assms Some [unfolded p]]
  then have "io_table_ok (es[i := \<lparr>io_io_id = io_id, io_owner = owner, io_original_owner = orig, io_valid = True\<rparr>])"
    using io_store [of es io_id i] by simp
  then show ?thesis by (simp add: put_owner_def Some p)
qed (simp add: put_owner_def assms)

lemma handle_update_ok:
  assumes "io_table_ok (ci_table c)"
  shows "io_table_ok (ci_table (cluster_io_handle_update reg msg c))"
proof (cases "cluster_io_allocate (ci_self_node c) (ucast (iu_io_id msg)) (ci_table c)")
  case (Some p)
  obtain i es where p: "p = (i, es)" by force
  note a = allocate_ok [OF assms Some [unfolded p]]
  then have "io_table_ok (es[i := \<lparr>io_io_id = ucast (iu_io_id msg), io_owner = iu_new_owner msg,
      io_original_owner = iu_original_owner msg, io_valid = True\<rparr>])"
    using io_store [of es "ucast (iu_io_id msg)" i] by simp
  with a assms show ?thesis by (simp add: cluster_io_handle_update_def Some p Let_def)
qed (simp add: cluster_io_handle_update_def assms)

section \<open>Sweeps over the table\<close>

text \<open>
  Takeover and failback go through the table, give the entries that satisfy a test to another
  node and broadcast each of them.
\<close>

definition given :: "(cluster_io_entry_t \<Rightarrow> bool) \<Rightarrow> u32 \<Rightarrow> cluster_io_entry_t \<Rightarrow> cluster_io_entry_t" where
  "given p owner e = (if p e then e\<lparr>io_owner := owner\<rparr> else e)"

definition announce :: "'w broadcast \<Rightarrow> cluster_io_entry_t \<Rightarrow> 'w \<Rightarrow> 'w" where
  "announce bcast e w = snd (bcast (io_update_frame
     \<lparr>iu_io_id = ucast (io_io_id e), iu_new_owner = io_owner e, iu_original_owner = io_original_owner e\<rparr>) w)"

lemma sweep:
  assumes "\<And>i d. ci_self_node d = ci_self_node c \<Longrightarrow> F i d = (if p (ci_table d ! i) then reassign bcast i owner d else d)"
    and "m \<le> length (ci_table c)"
  shows "fold F [0..<m] c =
    c\<lparr>ci_table := map (given p owner) (take m (ci_table c)) @ drop m (ci_table c),
      ci_world := fold (announce bcast) (map (given p owner) (filter p (take m (ci_table c)))) (ci_world c)\<rparr>"
  using assms(2)
proof (induction m)
  case (Suc m)
  let ?t = "ci_table c"
  have m: "m < length ?t" using Suc.prems by simp
  have tk: "take (Suc m) ?t = take m ?t @ [?t ! m]" using m by (rule take_Suc_conv_app_nth)
  let ?d = "c\<lparr>ci_table := map (given p owner) (take m ?t) @ drop m ?t,
    ci_world := fold (announce bcast) (map (given p owner) (filter p (take m ?t))) (ci_world c)\<rparr>"
  have nth: "ci_table ?d ! m = ?t ! m" using m by (simp add: nth_append)
  have upd: "(map (given p owner) (take m ?t) @ drop m ?t)[m := x] = map (given p owner) (take m ?t) @ x # drop (Suc m) ?t" for x
    using m by (simp add: list_update_append Cons_nth_drop_Suc [symmetric] del: Cons_nth_drop_Suc)
  have same: "map (given p owner) (take m ?t) @ drop m ?t = map (given p owner) (take m ?t) @ ?t ! m # drop (Suc m) ?t"
    using m by (simp add: Cons_nth_drop_Suc)
  have "fold F [0..<Suc m] c = F m ?d" using Suc by simp
  also have "\<dots> = (if p (?t ! m) then reassign bcast m owner ?d else ?d)" using assms(1) [of ?d m] nth by simp
  also have "\<dots> = c\<lparr>ci_table := map (given p owner) (take (Suc m) ?t) @ drop (Suc m) ?t,
      ci_world := fold (announce bcast) (map (given p owner) (filter p (take (Suc m) ?t))) (ci_world c)\<rparr>"
    unfolding tk using nth upd same
    by (simp add: reassign_def cluster_io_broadcast_update_def announce_def given_def Let_def)
  finally show ?case .
qed simp

lemma sync_table [simp]:
  "ci_table (cluster_io_sync_all bcast c) = ci_table c" "ci_self_node (cluster_io_sync_all bcast c) = ci_self_node c"
proof -
  have "ci_table (fold (sync_entry bcast) xs c) = ci_table c \<and> ci_self_node (fold (sync_entry bcast) xs c) = ci_self_node c" for xs
    by (induction xs arbitrary: c)
      (auto simp: sync_entry_def cluster_io_broadcast_update_def split: option.split)
  then show "ci_table (cluster_io_sync_all bcast c) = ci_table c" "ci_self_node (cluster_io_sync_all bcast c) = ci_self_node c"
    by (simp_all add: cluster_io_sync_all_def)
qed

lemma sync_state_table [simp]:
  "ci_table (cluster_io_sync_state_to_node bcast st n c) = ci_table c"
  "ci_self_node (cluster_io_sync_state_to_node bcast st n c) = ci_self_node c"
proof -
  have "ci_table (fold (sync_state_entry bcast st n) xs c) = ci_table c \<and> ci_self_node (fold (sync_state_entry bcast st n) xs c) = ci_self_node c" for xs
    by (induction xs arbitrary: c) (auto simp: sync_state_entry_def Let_def split: option.split)
  then show "ci_table (cluster_io_sync_state_to_node bcast st n c) = ci_table c"
    "ci_self_node (cluster_io_sync_state_to_node bcast st n c) = ci_self_node c"
    by (simp_all add: cluster_io_sync_state_to_node_def)
qed

lemma takeover_sweep:
  assumes "length (ci_table c) = MAX_IO"
  shows "fold (takeover_entry bcast n) [0..<MAX_IO] c =
    (let p = \<lambda>e. io_valid e \<and> io_owner e = n in
     c\<lparr>ci_table := map (given p (ci_self_node c)) (ci_table c),
       ci_world := fold (announce bcast) (map (given p (ci_self_node c)) (filter p (ci_table c))) (ci_world c)\<rparr>)"
  using sweep [of c "takeover_entry bcast n" "\<lambda>e. io_valid e \<and> io_owner e = n" bcast "ci_self_node c" MAX_IO] assms
  by (simp add: takeover_entry_def Let_def)

lemma failback_sweep:
  assumes "length (ci_table c) = MAX_IO"
  shows "ci_table (cluster_io_handle_node_online bcast n c) =
      map (given (\<lambda>e. io_valid e \<and> io_original_owner e = n \<and> io_owner e = ci_self_node c) n) (ci_table c) \<and>
    ci_self_node (cluster_io_handle_node_online bcast n c) = ci_self_node c"
  using sweep [of c "failback_entry bcast n" "\<lambda>e. io_valid e \<and> io_original_owner e = n \<and> io_owner e = ci_self_node c" bcast n MAX_IO] assms
  by (simp add: cluster_io_handle_node_online_def failback_entry_def Let_def)

lemma given_ok: "io_table_ok es \<Longrightarrow> io_table_ok (map (given p owner) es)"
  by (auto simp: io_table_ok_def given_def intro!: keys_distinct_map split: if_splits)

section \<open>The table of a running node\<close>

text \<open>
  The states a node reaches: it starts with an empty table, registers its own inputs and outputs,
  handles the updates of its peers and the events of the membership. \<open>cluster_io_set_owner\<close> is not
  among the steps: only the self test calls it, and the self test is not compiled in.
\<close>

inductive cluster_io_run :: "'w broadcast \<Rightarrow> u32 \<Rightarrow> 'w cluster_io \<Rightarrow> bool" for bcast self where
  run_init: "cluster_io_run bcast self (cluster_io_init self c)"
| run_register: "cluster_io_run bcast self c \<Longrightarrow> cluster_io_run bcast self (cluster_io_register_local io_id c)"
| run_update: "cluster_io_run bcast self c \<Longrightarrow> cluster_io_run bcast self (cluster_io_handle_update (reg :: 'w registry) msg c)"
| run_offline: "cluster_io_run bcast self c \<Longrightarrow> cluster_io_run bcast self (cluster_io_handle_node_offline bcast (cm :: 'w cluster) n c)"
| run_online: "cluster_io_run bcast self c \<Longrightarrow> cluster_io_run bcast self (cluster_io_handle_node_online bcast n c)"
| run_sync: "cluster_io_run bcast self c \<Longrightarrow> cluster_io_run bcast self (cluster_io_sync_all bcast c)"
| run_sync_state: "cluster_io_run bcast self c \<Longrightarrow> cluster_io_run bcast self (cluster_io_sync_state_to_node bcast st n c)"

definition all_own :: "u32 \<Rightarrow> cluster_io_entry_t list \<Rightarrow> bool" where
  "all_own self es \<longleftrightarrow> (\<forall>e \<in> set es. io_valid e \<longrightarrow> io_original_owner e = self)"

lemma allocate_own:
  "all_own self es \<Longrightarrow> cluster_io_allocate self io_id es = Some (i, es') \<Longrightarrow> all_own self es'"
  unfolding all_own_def
  by (auto simp: cluster_io_allocate_def split: option.splits dest!: set_update_subset_insert [THEN subsetD])

lemma put_owner_own: "all_own (ci_self_node c) (ci_table c) \<Longrightarrow>
  all_own (ci_self_node c) (ci_table (put_owner io_id owner (ci_self_node c) c))"
  using allocate_own [of "ci_self_node c" "ci_table c" io_id]
  by (auto simp: put_owner_def all_own_def split: option.splits dest!: set_update_subset_insert [THEN subsetD])

lemma handle_update_own:
  assumes "io_table_ok (ci_table c)" "all_own (ci_self_node c) (ci_table c)"
  shows "all_own (ci_self_node c) (ci_table (cluster_io_handle_update reg msg c))"
proof (cases "cluster_io_allocate (ci_self_node c) (ucast (iu_io_id msg)) (ci_table c)")
  case (Some p)
  obtain i es where p: "p = (i, es)" by force
  note a = allocate_own [OF assms(2) Some [unfolded p]] allocate_ok [OF assms(1) Some [unfolded p]]
  have "io_valid (es ! i)"
    using a(2) io_table.slot_Some [of "ucast (iu_io_id msg)" es i] io_table.find_valid [of "ucast (iu_io_id msg)" "ci_table c"]
    by (auto simp: lookup_def split: option.splits)
  moreover have "es ! i \<in> set es" using a(2) by (meson nth_mem)
  ultimately have "io_original_owner (es ! i) = ci_self_node c" using a(1) by (simp only: all_own_def)
  then show ?thesis using a assms(2) \<open>io_valid (es ! i)\<close> unfolding cluster_io_handle_update_def Some p
    by (auto simp: Let_def all_own_def dest!: set_update_subset_insert [THEN subsetD])
qed (simp add: cluster_io_handle_update_def assms(2))

lemma given_own: "all_own self es \<Longrightarrow> all_own self (map (given p owner) es)"
  by (auto simp: all_own_def given_def)

lemma put_owner_self [simp]: "ci_self_node (put_owner io_id owner orig c) = ci_self_node c"
  by (simp add: put_owner_def split: option.split prod.split)

lemma handle_update_self [simp]: "ci_self_node (cluster_io_handle_update reg msg c) = ci_self_node c"
  by (simp add: cluster_io_handle_update_def Let_def split: option.split prod.split)

lemma run_invariant:
  "cluster_io_run bcast self c \<Longrightarrow> ci_self_node c = self \<and> io_table_ok (ci_table c) \<and> all_own self (ci_table c)"
proof (induction rule: cluster_io_run.induct)
  case (run_init c)
  then show ?case
    by (simp add: cluster_io_init_def io_table_ok_def all_own_def free_io_def keys_distinct_replicate)
next
  case (run_register c io_id)
  then show ?case using put_owner_ok [of c io_id self self] put_owner_own [of c io_id self]
    by (simp add: cluster_io_register_local_def)
next
  case (run_update c reg msg)
  then show ?case using handle_update_ok [of c reg msg] handle_update_own [of c reg msg] by simp
next
  case (run_offline c cm n)
  then have "length (ci_table c) = MAX_IO" by (simp add: io_table_ok_def)
  from takeover_sweep [OF this, of bcast n] show ?case
    using run_offline.IH given_ok given_own by (auto simp: cluster_io_handle_node_offline_def Let_def)
next
  case (run_online c n)
  then show ?case using failback_sweep [of c bcast n] given_ok given_own by (simp add: io_table_ok_def)
qed simp_all

section \<open>Properties\<close>


text \<open>Node 7 with output 100 of its own and output 200 of node 9; its peers receive what is sent.\<close>

definition demo_bcast :: "bytes list broadcast" where
  "demo_bcast frame w = (True, w @ [frame])"

definition demo_io :: "bytes list cluster_io" where
  "demo_io = cluster_io_set_owner 200 9 9 (cluster_io_register_local 100 (cluster_io_init 7
     \<lparr>ci_table = [], ci_self_node = 0, ci_world = []\<rparr>))"

lemma demo_io_fields:
  "ci_table demo_io = own_entry 7 100 # \<lparr>io_io_id = 200, io_owner = 9, io_original_owner = 9, io_valid = True\<rparr> # replicate 254 free_io"
  "ci_self_node demo_io = 7" "ci_world demo_io = []"
proof -
  have n: "MAX_IO = Suc (Suc 254)" by (simp add: MAX_IO_def)
  have z: "\<not> io_valid free_io" by (simp add: free_io_def)
  show "ci_table demo_io = own_entry 7 100 # \<lparr>io_io_id = 200, io_owner = 9, io_original_owner = 9, io_valid = True\<rparr> # replicate 254 free_io"
    "ci_self_node demo_io = 7" "ci_world demo_io = []"
    unfolding demo_io_def cluster_io_init_def cluster_io_register_local_def cluster_io_set_owner_def put_owner_def n replicate_Suc
    by (simp_all add: cluster_io_allocate_def cluster_io_find_def cluster_io_free_def z)
qed

lemma demo_io_ok: "io_table_ok (ci_table demo_io)"
  by (simp add: demo_io_fields io_table_ok_def MAX_IO_def keys_distinct_Cons keys_distinct_replicate free_io_def)


text \<open>
  The outputs of other nodes are never tracked. In every state a node reaches through its
  own registrations, the updates of its peers and the events of the membership, every entry of its
  table names the node itself as original owner: the update of an unknown output first creates an
  own entry and is then refused as a conflict. So the return of a node hands nothing back, and an
  announced output of an active peer is taken for a local one.
\<close>

theorem cluster_io_remote_never_tracked:
  assumes "cluster_io_run bcast self c"
  shows "io_table_ok (ci_table c) \<and> (\<forall>e \<in> set (ci_table c). io_valid e \<longrightarrow> io_original_owner e = self) \<and>
    (n \<noteq> self \<longrightarrow> ci_table (cluster_io_handle_node_online bcast n c) = ci_table c) \<and>
    (entry_for (ucast (iu_io_id msg)) (ci_table c) = None \<and> iu_original_owner msg \<noteq> self \<longrightarrow>
       cluster_io_is_local (ucast (iu_io_id msg)) (cluster_io_handle_update reg msg c) \<and>
       cluster_io_get_owner (ucast (iu_io_id msg)) (cluster_io_handle_update reg msg c) = self)"
proof -
  let ?k = "ucast (iu_io_id msg) :: u32"
  let ?c' = "cluster_io_handle_update reg msg c"
  have inv: "ci_self_node c = self" "io_table_ok (ci_table c)" "all_own self (ci_table c)" using run_invariant [OF assms] by auto
  have "given (\<lambda>e. io_valid e \<and> io_original_owner e = n \<and> io_owner e = self) n e = e" if "e \<in> set (ci_table c)" "n \<noteq> self" for e
    using inv(3) that by (auto simp: given_def all_own_def)
  then have returned: "ci_table (cluster_io_handle_node_online bcast n c) = ci_table c" if "n \<noteq> self"
    using failback_sweep [of c bcast n] inv(1,2) that by (simp add: io_table_ok_def map_idI)
  have "entry_for ?k (ci_table ?c') \<in> {None, Some (own_entry self ?k)}"
    if new: "entry_for ?k (ci_table c) = None" "iu_original_owner msg \<noteq> self"
  proof (cases "cluster_io_allocate self ?k (ci_table c)")
    case None
    then show ?thesis using new inv(1) by (simp add: cluster_io_handle_update_def)
  next
    case (Some p)
    obtain i es where p: "p = (i, es)" by force
    note a = allocate_ok [OF inv(2) Some [unfolded p], of ?k]
    then have "es ! i = own_entry self ?k" using new(1) by simp
    then show ?thesis using a new inv(1) by (simp add: cluster_io_handle_update_def Some p Let_def)
  qed
  then have "cluster_io_is_local ?k ?c' \<and> cluster_io_get_owner ?k ?c' = self"
    if "entry_for ?k (ci_table c) = None" "iu_original_owner msg \<noteq> self"
    using that inv(1) by (auto simp: cluster_io_is_local_def cluster_io_get_owner_def copy_by_id_lookup)
  with returned inv(2,3) show ?thesis by (simp add: all_own_def)
qed

text \<open>Node 7 receives the announcement of output 200 of node 5.\<close>

theorem cluster_io_remote_never_tracked_witness:
  "cluster_io_is_local 200 (cluster_io_handle_update demo_registry
     \<lparr>iu_io_id = 200, iu_new_owner = 5, iu_original_owner = 5\<rparr> (cluster_io_init 7 \<lparr>ci_table = [], ci_self_node = 0, ci_world = sim_init\<rparr>))"
proof -
  let ?c = "cluster_io_init 7 \<lparr>ci_table = [], ci_self_node = 0, ci_world = sim_init\<rparr>"
  have "entry_for 200 (ci_table ?c) = None"
    by (simp add: cluster_io_init_def lookup_def cluster_io_find_def free_io_def)
  moreover have "cluster_io_run (\<lambda>f w. (True, w)) 7 ?c" by (rule run_init)
  ultimately show ?thesis
    using cluster_io_remote_never_tracked [of "\<lambda>f w. (True, w)" 7 ?c 9 "\<lparr>iu_io_id = 200, iu_new_owner = 5, iu_original_owner = 5\<rparr>" demo_registry]
    by simp
qed

end
