(* ===== verification/Output_Path.thy ===== *)
theory Output_Path
  imports Io_Driver Cluster_Io
begin

text \<open>
  From the state of the system to the pins: what the output pins show while writes to the state
  are pending, and that an update of the outputs brings every pin to the level of its state. The
  registered gateways of the failover are characterised by the records of the registry.
\<close>

section \<open>Pins\<close>

text \<open>
  What the code relies on of the GPIO driver and the timer, for an observation \<open>pin\<close> of the level
  of an output pin: setting a level sets that pin and no other, reading the clock sets none.
\<close>

definition pin_law :: "'w platform \<Rightarrow> (int \<Rightarrow> 'w \<Rightarrow> nat) \<Rightarrow> bool" where
  "pin_law P pin \<longleftrightarrow>
     (\<forall>p q v w. pin q (gpio_set_level P p v w) = (if q = p then v else pin q w)) \<and>
     (\<forall>q w. pin q (snd (esp_timer_get_time P w)) = pin q w)"

abbreviation has_pin :: "output_channel_t \<Rightarrow> bool" where
  "has_pin ch \<equiv> oc_gpio ch \<noteq> GPIO_NUM_NC \<and> \<not> oc_gpio ch < 0"

definition channels_ok :: "output_channel_t list \<Rightarrow> bool" where
  "channels_ok chs \<longleftrightarrow> length chs \<le> IO_DRIVER_MAX_OUTPUTS \<and> distinct (map oc_id chs) \<and> keys_distinct has_pin oc_gpio chs"

text \<open>
  Every channel that has no write pending shows the level of its state under the owner that was
  recorded at the last update.
\<close>

definition outputs_current :: "(int \<Rightarrow> 'w \<Rightarrow> nat) \<Rightarrow> 'w system \<Rightarrow> bool" where
  "outputs_current pin s \<longleftrightarrow> channels_ok (io_output_table (sys_io s)) \<and>
     (\<forall>i < length (io_output_table (sys_io s)). \<forall>l. \<not> bit (io_pending_mask (sys_io s)) i \<longrightarrow>
        drive_level (\<lambda>_. bit (io_local_mask (sys_io s)) i) (sys_state s) (io_output_table (sys_io s) ! i) = Some l \<longrightarrow>
        pin (oc_gpio (io_output_table (sys_io s) ! i)) (sys_world s) = l)"

lemma drive_level_pin: "drive_level is_local st ch = Some l \<Longrightarrow> has_pin ch"
  by (auto simp: drive_level_def split: if_splits)

lemma drive_level_cong: "is_local (oc_id ch) = b \<Longrightarrow> drive_level (\<lambda>_. b) st ch = drive_level is_local st ch"
  by (simp add: drive_level_def)

lemma drive_level_state:
  "state_get_int st' (oc_id ch) = state_get_int st (oc_id ch) \<Longrightarrow> drive_level is_local st' ch = drive_level is_local st ch"
  by (simp add: drive_level_def)

lemma drive_pin:
  assumes "pin_law P pin"
  shows "pin q (drive P is_local st ch w) = (case drive_level is_local st ch of Some l \<Rightarrow> if q = oc_gpio ch then l else pin q w | None \<Rightarrow> pin q w)"
  using assms by (simp add: drive_def pin_law_def split: option.split)

lemma fold_drive_other:
  assumes "pin_law P pin" "\<forall>ch \<in> set chs. has_pin ch \<longrightarrow> oc_gpio ch \<noteq> q"
  shows "pin q (fold (drive P is_local st) chs w) = pin q w"
  using assms(2)
proof (induction chs arbitrary: w)
  case (Cons ch chs)
  have "pin q (drive P is_local st ch w) = pin q w"
    using Cons.prems drive_level_pin [of is_local st ch] by (auto simp: drive_pin [OF assms(1)] split: option.split)
  then show ?case using Cons by simp
qed simp

lemma fold_drive_pin:
  assumes "pin_law P pin" "keys_distinct has_pin oc_gpio chs" "ch \<in> set chs" "drive_level is_local st ch = Some l"
  shows "pin (oc_gpio ch) (fold (drive P is_local st) chs w) = l"
  using assms(2,3)
proof (induction chs arbitrary: w)
  case (Cons c chs)
  show ?case
  proof (cases "ch \<in> set chs")
    case True
    then show ?thesis using Cons by (simp add: keys_distinct_Cons)
  next
    case False
    then have "c = ch" using Cons.prems(2) by simp
    have hp: "has_pin ch" by (rule drive_level_pin [OF assms(4)])
    have "\<forall>d \<in> set chs. has_pin d \<longrightarrow> oc_gpio d \<noteq> oc_gpio ch"
      using Cons.prems(1) hp unfolding \<open>c = ch\<close> keys_distinct_Cons by blast
    then show ?thesis
      using fold_drive_other [OF assms(1)] drive_pin [OF assms(1)] assms(4) unfolding \<open>c = ch\<close> by simp
  qed
qed simp

text \<open>Selecting entries of a table by index keeps their keys distinct.\<close>

lemma keys_distinct_select:
  assumes "keys_distinct used key xs" "distinct is" "\<forall>i \<in> set is. i < length xs"
  shows "keys_distinct used key (map ((!) xs) is)"
proof -
  have "a = b" if "a < length is" "b < length is" "used (xs ! (is ! a))" "used (xs ! (is ! b))" "key (xs ! (is ! a)) = key (xs ! (is ! b))" for a b
  proof -
    have "is ! a = is ! b" using keys_distinctD [OF assms(1), of "is ! a" "is ! b"] assms(3) that by simp
    then show ?thesis using assms(2) that(1,2) by (simp add: nth_eq_iff_index_eq)
  qed
  then show ?thesis by (auto simp: keys_distinct_def)
qed

lemma update_sets_pins:
  assumes "pin_law P pin" "outputs_current pin s" "i < length (io_output_table (sys_io s))"
    and "drive_level is_local (sys_state s) (io_output_table (sys_io s) ! i) = Some l"
  shows "pin (oc_gpio (io_output_table (sys_io s) ! i)) (sys_world (io_driver_update P is_local s)) = l"
proof -
  let ?t = "io_output_table (sys_io s)"
  let ?due = "filter (output_due is_local (sys_io s)) [0..<length ?t]"
  have n: "length ?t \<le> IO_DRIVER_MAX_OUTPUTS" and d: "keys_distinct has_pin oc_gpio ?t"
    using assms(2) by (simp_all add: outputs_current_def channels_ok_def)
  have w: "sys_world (io_driver_update P is_local s) = fold (drive P is_local (sys_state s)) (map ((!) ?t) ?due) (sys_world s)"
    using update_effects [OF refl n, of P is_local] by (simp add: Let_def)
  have dd: "keys_distinct has_pin oc_gpio (map ((!) ?t) ?due)" by (rule keys_distinct_select [OF d]) auto
  show ?thesis
  proof (cases "output_due is_local (sys_io s) i")
    case True
    then have "?t ! i \<in> set (map ((!) ?t) ?due)" using assms(3) by auto
    then show ?thesis unfolding w by (rule fold_drive_pin [OF assms(1) dd _ assms(4)])
  next
    case False
    have "\<forall>ch \<in> set (map ((!) ?t) ?due). has_pin ch \<longrightarrow> oc_gpio ch \<noteq> oc_gpio (?t ! i)"
      using keys_distinctD [OF d] assms(3) drive_level_pin [OF assms(4)] False by auto
    then have same: "pin (oc_gpio (?t ! i)) (sys_world (io_driver_update P is_local s)) = pin (oc_gpio (?t ! i)) (sys_world s)"
      unfolding w by (rule fold_drive_other [OF assms(1)])
    have "drive_level (\<lambda>_. bit (io_local_mask (sys_io s)) i) (sys_state s) (?t ! i) = Some l"
      using False assms(4) drive_level_cong [of is_local "?t ! i"] by (simp add: output_due_def owner_changed_def)
    then show ?thesis using assms(2,3) False same by (simp add: outputs_current_def output_due_def)
  qed
qed

section \<open>Writes\<close>

lemma bit_or_power: "i < 32 \<Longrightarrow> bit ((m :: u32) OR 2 ^ k) i \<longleftrightarrow> bit m i \<or> i = k"
  by (auto simp: bit_simps)

text \<open>A write to the state marks the channel of its variable.\<close>

lemma set_int_io:
  assumes "distinct (map oc_id (io_output_table (sys_io s)))" "length (io_output_table (sys_io s)) \<le> 32"
    and "i < length (io_output_table (sys_io s))"
    and "\<not> bit (io_pending_mask (sys_io (snd (state_set_int P sid v s)))) i"
  shows "\<not> bit (io_pending_mask (sys_io s)) i \<and>
    state_get_int (sys_state (snd (state_set_int P sid v s))) (oc_id (io_output_table (sys_io s) ! i)) =
    state_get_int (sys_state s) (oc_id (io_output_table (sys_io s) ! i))"
proof (cases "state_valid_id sid \<and> st_values (sys_state s) ! unat sid \<noteq> v")
  case False
  then show ?thesis using assms(4) by (auto simp: state_set_int_def)
next
  case True
  let ?t = "io_output_table (sys_io s)"
  have bit32: "bit (io_pending_mask (sys_io s) OR 2 ^ k) i \<longleftrightarrow> bit (io_pending_mask (sys_io s)) i \<or> i = k" for k
    using bit_or_power [of i] assms(2,3) by simp
  have st: "sys_state (snd (state_set_int P sid v s)) = (sys_state s)\<lparr>st_values := (st_values (sys_state s))[unat sid := v],
      st_dirty := (st_dirty (sys_state s))[unat sid := True]\<rparr>"
    using True by (simp add: state_set_int_def Let_def)
  have m: "io_pending_mask (sys_io (snd (state_set_int P sid v s))) = (case find_index (\<lambda>c. oc_id c = sid) ?t of
      None \<Rightarrow> io_pending_mask (sys_io s) | Some k \<Rightarrow> io_pending_mask (sys_io s) OR 2 ^ k)"
    using True by (simp add: state_set_int_def state_output_changed_def http_server_notify_state_change_def Let_def split: option.split)
  have "oc_id (?t ! i) \<noteq> sid"
  proof
    assume eq: "oc_id (?t ! i) = sid"
    moreover have "?t ! i \<in> set ?t" using assms(3) by simp
    ultimately obtain k where k: "find_index (\<lambda>c. oc_id c = sid) ?t = Some k"
      using find_index_isSome [of "\<lambda>c. oc_id c = sid" ?t] by blast
    then have "k < length ?t" "oc_id (?t ! k) = sid" by (auto dest: find_index_SomeD)
    then have "k = i" using eq assms(1,3) nth_eq_iff_index_eq [OF assms(1), of k i] by simp
    then show False using assms(4) bit32 [of i] unfolding m k by simp
  qed
  then have "unat sid \<noteq> unat (oc_id (?t ! i))" by simp
  then have "state_get_int (sys_state (snd (state_set_int P sid v s))) (oc_id (?t ! i)) = state_get_int (sys_state s) (oc_id (?t ! i))"
    unfolding st state_get_int_def by simp
  moreover have "\<not> bit (io_pending_mask (sys_io s)) i"
    using assms(4) bit32 unfolding m by (cases "find_index (\<lambda>c. oc_id c = sid) ?t") simp_all
  ultimately show ?thesis by blast
qed

lemma set_int_world:
  "pin_law P pin \<Longrightarrow> pin q (sys_world (snd (state_set_int P sid v s))) = pin q (sys_world s)"
  by (auto simp: pin_law_def state_set_int_def snapshot_mark_dirty_def timer_ms_def Let_def case_prod_unfold)

lemma set_int_tables [simp]:
  "io_output_table (sys_io (snd (state_set_int P sid v s))) = io_output_table (sys_io s)"
  "io_local_mask (sys_io (snd (state_set_int P sid v s))) = io_local_mask (sys_io s)"
  by (simp_all add: state_set_int_def state_output_changed_def http_server_notify_state_change_def Let_def split: option.split)

lemma outputs_current_set_int:
  assumes "pin_law P pin" "outputs_current pin s"
  shows "outputs_current pin (snd (state_set_int P sid v s))"
proof -
  let ?t = "io_output_table (sys_io s)"
  have ok: "channels_ok ?t" using assms(2) by (simp add: outputs_current_def)
  have cur: "\<forall>i < length ?t. \<forall>l. \<not> bit (io_pending_mask (sys_io s)) i \<longrightarrow>
      drive_level (\<lambda>_. bit (io_local_mask (sys_io s)) i) (sys_state s) (?t ! i) = Some l \<longrightarrow> pin (oc_gpio (?t ! i)) (sys_world s) = l"
    using assms(2) unfolding outputs_current_def by blast
  have "pin (oc_gpio (?t ! i)) (sys_world (snd (state_set_int P sid v s))) = l"
    if "i < length ?t" "\<not> bit (io_pending_mask (sys_io (snd (state_set_int P sid v s)))) i"
      "drive_level (\<lambda>_. bit (io_local_mask (sys_io s)) i) (sys_state (snd (state_set_int P sid v s))) (?t ! i) = Some l" for i l
  proof -
    have quiet: "\<not> bit (io_pending_mask (sys_io s)) i \<and>
        state_get_int (sys_state (snd (state_set_int P sid v s))) (oc_id (?t ! i)) = state_get_int (sys_state s) (oc_id (?t ! i))"
      using set_int_io [OF _ _ that(1,2)] ok by (simp add: channels_ok_def IO_DRIVER_MAX_OUTPUTS_def)
    then have "drive_level (\<lambda>_. bit (io_local_mask (sys_io s)) i) (sys_state s) (?t ! i) = Some l"
      using that(3) drive_level_state [OF quiet [THEN conjunct2]] by simp
    then show ?thesis unfolding set_int_world [OF assms(1)] using cur that(1) quiet by blast
  qed
  then show ?thesis using ok by (simp add: outputs_current_def)
qed

lemma outputs_current_write_all:
  assumes "pin_law P pin" "outputs_current pin s"
  shows "outputs_current pin (store.write_all P ws s) \<and> io_output_table (sys_io (store.write_all P ws s)) = io_output_table (sys_io s)"
  using assms(2)
proof (induction ws arbitrary: s)
  case (Cons kv ws)
  obtain k v where kv: "kv = (k, v)" by force
  have "outputs_current pin (snd (state_set_int P k v s))" by (rule outputs_current_set_int [OF assms(1) Cons.prems])
  from Cons.IH [OF this] show ?case by (simp add: store.write_all_def kv)
qed (simp add: store.write_all_def)

section \<open>Registered gateways\<close>

lemma registered_gateway_iff:
  assumes "entries_ok (nr_entries reg)" "node_id \<noteq> 0"
  shows "cluster_failover_node_is_registered_gateway reg node_id \<longleftrightarrow>
    fst (snd (record_of (nr_entries reg) node_id)) = str_bytes ''gateway''"
proof -
  let ?u = "filter (\<lambda>e. ne_node_id e \<noteq> 0) (nr_entries reg)"
  have "length ?u \<le> 10" using assms(1) length_filter_le [of "\<lambda>e. ne_node_id e \<noteq> 0" "nr_entries reg"]
    by (simp add: entries_ok_def NODE_REGISTRY_MAX_NODES_def)
  then have "node_registry_export True (int NODE_REGISTRY_MAX_NODES) reg = export_sort ?u"
    by (simp add: node_registry_export_def NODE_REGISTRY_MAX_NODES_def)
  moreover have "set (export_sort ?u) = set ?u" using export_sort_sorted [of ?u] by (metis set_mset_mset)
  ultimately have g: "cluster_failover_node_is_registered_gateway reg node_id \<longleftrightarrow>
      (\<exists>e \<in> set (nr_entries reg). ne_node_id e = node_id \<and> c_str (ne_profile e) = str_bytes ''gateway'')"
    using assms(2) by (auto simp: cluster_failover_node_is_registered_gateway_def list_ex_iff)
  show ?thesis
  proof (cases "\<exists>e \<in> set (nr_entries reg). ne_node_id e = node_id")
    case True
    then obtain e where e: "e \<in> set (nr_entries reg)" "ne_node_id e = node_id" by blast
    have "c_str (ne_profile e') = fst (snd (record_of (nr_entries reg) node_id))" if "e' \<in> set (nr_entries reg)" "ne_node_id e' = node_id" for e'
      using record_of_mem [OF assms(1) that assms(2)] by (simp add: entry_record_def)
    then show ?thesis unfolding g using e by metis
  next
    case False
    then have "record_of (nr_entries reg) node_id = blank" by (simp add: record_of_absent)
    then show ?thesis unfolding g using False by (auto simp: blank_def str_bytes_def)
  qed
qed

lemma gateway_loss:
  assumes "ce_type evt = EVENT_NODE_OFFLINE \<and> reason = FAILSAFE_REASON_NODE_OFFLINE \<or>
      ce_type evt = EVENT_NODE_SUSPECT \<and> reason = FAILSAFE_REASON_COMM_LOSS"
    and "ce_node_id evt \<noteq> self_node" "cluster_failover_node_is_registered_gateway reg (ce_node_id evt)"
    and "failsafe_ok (fo_failsafe x)" "system_ok (fo_system x)"
  shows "fo_system (cluster_failover_event_handler P bcast reg cm self_node evt x) =
      store.write_all P (trip_writes (sys_state (fo_system x)) reason (fs_entries (fo_failsafe x))) (fo_system x)"
proof -
  have "reason \<noteq> FAILSAFE_REASON_NONE" "reason \<noteq> FAILSAFE_REASON_MAX" using assms(1) by auto
  from apply_reason_all_steps [OF assms(4,5) this order_refl, of P]
  show ?thesis using assms(1-3)
    by (auto simp: cluster_failover_event_handler_def cluster_failover_apply_local_failsafe_if_gateway_lost_def
        failsafe_apply_for_reason_all_def Let_def)
qed

lemma sim_pin_law: "pin_law sim_platform (\<lambda>p w. sim_gpio w p)"
  by (simp add: pin_law_def)

end
