(* ===== verification/Auth.thy ===== *)
theory Auth
  imports Nvs_Blob Keyed_Table
begin

text \<open>
  Accounts, sessions and the audit trail (\<open>security/auth/auth.c\<close>).

  The file's static variables are the record \<open>auth\<close>, with the platform's world as its last field.
  Roles are the numbers of the enumeration, truncated to a byte where the code stores them. Strings
  that callers pass are optional (\<open>None\<close> is the null pointer); a token buffer is given by its size. An
  index that the code returns as \<open>-1\<close> is \<open>None\<close>; the index in a session is a signed integer. The functions
  that fill an \<open>auth_status_t\<close> return it, which a caller with a null pointer ignores. The two bytes of
  padding at the tail of the blob are zero.
\<close>

section \<open>Model\<close>

subsection \<open>Constants and data\<close>

definition AUTH_NAMESPACE :: string where "AUTH_NAMESPACE = ''security_auth''"
definition AUTH_CONFIG_KEY :: string where "AUTH_CONFIG_KEY = ''config''"
definition AUTH_CONFIG_VERSION :: u32 where "AUTH_CONFIG_VERSION = 2"
definition AUTH_LEGACY_CONFIG_VERSION :: u32 where "AUTH_LEGACY_CONFIG_VERSION = 1"
definition AUTH_HASH_LEN :: nat where "AUTH_HASH_LEN = 32"
definition AUTH_SALT_LEN :: nat where "AUTH_SALT_LEN = 16"
definition AUTH_PASSWORD_MIN_LEN :: nat where "AUTH_PASSWORD_MIN_LEN = 8"
definition AUTH_SESSION_TIMEOUT_SECONDS_DEFAULT :: u32 where "AUTH_SESSION_TIMEOUT_SECONDS_DEFAULT = 1800"
definition AUTH_RATE_LIMIT_THRESHOLD :: u32 where "AUTH_RATE_LIMIT_THRESHOLD = 5"
definition AUTH_RATE_LIMIT_BASE_SECONDS :: u32 where "AUTH_RATE_LIMIT_BASE_SECONDS = 5"
definition AUTH_RATE_LIMIT_MAX_SECONDS :: u32 where "AUTH_RATE_LIMIT_MAX_SECONDS = 60"
definition AUTH_AUDIT_CAPACITY :: nat where "AUTH_AUDIT_CAPACITY = 16"
definition AUTH_MAX_SESSIONS :: nat where "AUTH_MAX_SESSIONS = 4"
definition AUTH_MAX_ACCOUNTS :: nat where "AUTH_MAX_ACCOUNTS = 6"
definition AUTH_SESSION_TOKEN_LEN :: nat where "AUTH_SESSION_TOKEN_LEN = 64"
definition AUTH_USERNAME_LEN :: nat where "AUTH_USERNAME_LEN = 24"
definition AUTH_AUDIT_ACTION_LEN :: nat where "AUTH_AUDIT_ACTION_LEN = 24"
definition AUTH_AUDIT_DETAIL_LEN :: nat where "AUTH_AUDIT_DETAIL_LEN = 80"
definition AUTH_ACCOUNT_FLAG_BOOTSTRAP :: u8 where "AUTH_ACCOUNT_FLAG_BOOTSTRAP = 1"

lemmas auth_sizes = AUTH_HASH_LEN_def AUTH_SALT_LEN_def AUTH_PASSWORD_MIN_LEN_def AUTH_AUDIT_CAPACITY_def
  AUTH_MAX_SESSIONS_def AUTH_MAX_ACCOUNTS_def AUTH_SESSION_TOKEN_LEN_def AUTH_USERNAME_LEN_def
  AUTH_AUDIT_ACTION_LEN_def AUTH_AUDIT_DETAIL_LEN_def

type_synonym auth_role_t = u32

definition AUTH_ROLE_NONE :: auth_role_t where "AUTH_ROLE_NONE = 0"
definition AUTH_ROLE_ADMIN :: auth_role_t where "AUTH_ROLE_ADMIN = 1"
definition AUTH_ROLE_INSTALLER :: auth_role_t where "AUTH_ROLE_INSTALLER = 2"
definition AUTH_ROLE_OPERATOR :: auth_role_t where "AUTH_ROLE_OPERATOR = 3"
definition AUTH_ROLE_VIEWER :: auth_role_t where "AUTH_ROLE_VIEWER = 4"

lemmas auth_roles = AUTH_ROLE_NONE_def AUTH_ROLE_ADMIN_def AUTH_ROLE_INSTALLER_def AUTH_ROLE_OPERATOR_def
  AUTH_ROLE_VIEWER_def

definition AUTH_CAP_DASHBOARD_READ :: u32 where "AUTH_CAP_DASHBOARD_READ = 1"
definition AUTH_CAP_MANUAL_IO :: u32 where "AUTH_CAP_MANUAL_IO = 2"
definition AUTH_CAP_NODE_ADMISSION :: u32 where "AUTH_CAP_NODE_ADMISSION = 4"
definition AUTH_CAP_PROFILE_WRITE :: u32 where "AUTH_CAP_PROFILE_WRITE = 8"
definition AUTH_CAP_TRANSPORT_WRITE :: u32 where "AUTH_CAP_TRANSPORT_WRITE = 16"
definition AUTH_CAP_AUTOMATION_WRITE :: u32 where "AUTH_CAP_AUTOMATION_WRITE = 32"
definition AUTH_CAP_REBOOT_RECOVERY :: u32 where "AUTH_CAP_REBOOT_RECOVERY = 64"
definition AUTH_CAP_RUNTIME_DIAGNOSTICS :: u32 where "AUTH_CAP_RUNTIME_DIAGNOSTICS = 128"
definition AUTH_CAP_SECURITY_ADMIN :: u32 where "AUTH_CAP_SECURITY_ADMIN = 256"
definition AUTH_CAP_FAILSAFE_WRITE :: u32 where "AUTH_CAP_FAILSAFE_WRITE = 512"

lemmas auth_caps = AUTH_CAP_DASHBOARD_READ_def AUTH_CAP_MANUAL_IO_def AUTH_CAP_NODE_ADMISSION_def
  AUTH_CAP_PROFILE_WRITE_def AUTH_CAP_TRANSPORT_WRITE_def AUTH_CAP_AUTOMATION_WRITE_def
  AUTH_CAP_REBOOT_RECOVERY_def AUTH_CAP_RUNTIME_DIAGNOSTICS_def AUTH_CAP_SECURITY_ADMIN_def
  AUTH_CAP_FAILSAFE_WRITE_def

datatype auth_login_result_t = AUTH_LOGIN_OK | AUTH_LOGIN_INVALID_CREDENTIALS | AUTH_LOGIN_RATE_LIMITED
  | AUTH_LOGIN_SESSION_CREATE_FAILED

datatype auth_change_password_result_t = AUTH_CHANGE_PASSWORD_OK | AUTH_CHANGE_PASSWORD_INVALID_CURRENT
  | AUTH_CHANGE_PASSWORD_WEAK | AUTH_CHANGE_PASSWORD_SAVE_FAILED | AUTH_CHANGE_PASSWORD_INTERNAL_ERROR

datatype auth_bootstrap_create_result_t = AUTH_BOOTSTRAP_CREATE_OK | AUTH_BOOTSTRAP_CREATE_INVALID_USERNAME
  | AUTH_BOOTSTRAP_CREATE_WEAK_PASSWORD | AUTH_BOOTSTRAP_CREATE_ALREADY_CONFIGURED
  | AUTH_BOOTSTRAP_CREATE_SAVE_FAILED | AUTH_BOOTSTRAP_CREATE_SESSION_CREATE_FAILED

datatype auth_account_save_result_t = AUTH_ACCOUNT_SAVE_OK | AUTH_ACCOUNT_SAVE_INVALID_USERNAME
  | AUTH_ACCOUNT_SAVE_INVALID_ROLE | AUTH_ACCOUNT_SAVE_WEAK_PASSWORD | AUTH_ACCOUNT_SAVE_NO_SPACE
  | AUTH_ACCOUNT_SAVE_SAVE_FAILED | AUTH_ACCOUNT_SAVE_FORBIDDEN | AUTH_ACCOUNT_SAVE_LAST_ADMIN

datatype auth_account_delete_result_t = AUTH_ACCOUNT_DELETE_OK | AUTH_ACCOUNT_DELETE_NOT_FOUND
  | AUTH_ACCOUNT_DELETE_SAVE_FAILED | AUTH_ACCOUNT_DELETE_FORBIDDEN | AUTH_ACCOUNT_DELETE_LAST_ADMIN

record auth_status_t =
  as_authenticated :: bool
  as_configured :: bool
  as_bootstrap_open :: bool
  as_password_change_required :: bool
  as_role :: auth_role_t
  as_capabilities :: u32
  as_session_expires_in :: u32
  as_session_timeout_seconds :: u32
  as_retry_after_seconds :: u32
  as_username :: bytes

record auth_account_info_t =
  ai_enabled :: bool
  ai_bootstrap :: bool
  ai_current_session :: bool
  ai_role :: auth_role_t
  ai_username :: bytes

record auth_config_blob_v1_t =
  v1_version :: u32
  v1_configured :: u8
  v1_reserved :: bytes
  v1_salt :: bytes
  v1_hash :: bytes

record auth_account_record_t =
  ar_in_use :: u8
  ar_enabled :: u8
  ar_role :: u8
  ar_flags :: u8
  ar_username :: bytes
  ar_salt :: bytes
  ar_hash :: bytes

record auth_config_blob_t =
  ac_version :: u32
  ac_configured :: u8
  ac_reserved :: bytes
  ac_accounts :: "auth_account_record_t list"

record auth_session_state_t =
  se_active :: bool
  se_token :: bytes
  se_expires_at_ms :: u64
  se_issued_at_ms :: u64
  se_account_index :: int

record auth_audit_entry_t =
  ad_timestamp_ms :: u32
  ad_action :: bytes
  ad_detail :: bytes

record 'w auth =
  auth_config :: auth_config_blob_t
  auth_sessions :: "auth_session_state_t list"
  auth_audit_ring :: "auth_audit_entry_t list"
  auth_audit_index :: u8
  auth_device_mac :: bytes
  auth_session_timeout_seconds_value :: u32
  auth_failed_attempts :: u32
  auth_block_until_ms :: u64
  auth_initialized :: bool
  auth_world :: 'w

text \<open>The zeroed structures of \<open>memset\<close> and the static initial state.\<close>

definition auth_account_zero :: auth_account_record_t where
  "auth_account_zero = \<lparr>ar_in_use = 0, ar_enabled = 0, ar_role = 0, ar_flags = 0,
     ar_username = replicate (AUTH_USERNAME_LEN + 1) 0, ar_salt = replicate AUTH_SALT_LEN 0,
     ar_hash = replicate AUTH_HASH_LEN 0\<rparr>"

definition auth_config_zero :: auth_config_blob_t where
  "auth_config_zero = \<lparr>ac_version = 0, ac_configured = 0, ac_reserved = replicate 3 0,
     ac_accounts = replicate AUTH_MAX_ACCOUNTS auth_account_zero\<rparr>"

definition auth_session_zero :: auth_session_state_t where
  "auth_session_zero = \<lparr>se_active = False, se_token = replicate (AUTH_SESSION_TOKEN_LEN + 1) 0,
     se_expires_at_ms = 0, se_issued_at_ms = 0, se_account_index = 0\<rparr>"

definition auth_audit_zero :: auth_audit_entry_t where
  "auth_audit_zero = \<lparr>ad_timestamp_ms = 0, ad_action = replicate AUTH_AUDIT_ACTION_LEN 0,
     ad_detail = replicate AUTH_AUDIT_DETAIL_LEN 0\<rparr>"

definition auth_boot :: "'w \<Rightarrow> 'w auth" where
  "auth_boot w = \<lparr>auth_config = auth_config_zero, auth_sessions = replicate AUTH_MAX_SESSIONS auth_session_zero,
     auth_audit_ring = replicate AUTH_AUDIT_CAPACITY auth_audit_zero, auth_audit_index = 0,
     auth_device_mac = replicate 6 0, auth_session_timeout_seconds_value = AUTH_SESSION_TIMEOUT_SECONDS_DEFAULT,
     auth_failed_attempts = 0, auth_block_until_ms = 0, auth_initialized = False, auth_world = w\<rparr>"

definition auth_now_ms :: "'w platform \<Rightarrow> 'w auth \<Rightarrow> u64 \<times> 'w auth" where
  "auth_now_ms P s = (case esp_timer_get_time P (auth_world s) of (t, w) \<Rightarrow> (t div 1000, s\<lparr>auth_world := w\<rparr>))"

subsection \<open>Roles\<close>

definition auth_role_capability_mask :: "auth_role_t \<Rightarrow> u32" where
  "auth_role_capability_mask role =
     (if role = AUTH_ROLE_ADMIN then
        AUTH_CAP_DASHBOARD_READ OR AUTH_CAP_MANUAL_IO OR AUTH_CAP_NODE_ADMISSION OR AUTH_CAP_PROFILE_WRITE OR
        AUTH_CAP_TRANSPORT_WRITE OR AUTH_CAP_AUTOMATION_WRITE OR AUTH_CAP_REBOOT_RECOVERY OR
        AUTH_CAP_RUNTIME_DIAGNOSTICS OR AUTH_CAP_SECURITY_ADMIN OR AUTH_CAP_FAILSAFE_WRITE
      else if role = AUTH_ROLE_INSTALLER then
        AUTH_CAP_DASHBOARD_READ OR AUTH_CAP_MANUAL_IO OR AUTH_CAP_NODE_ADMISSION OR AUTH_CAP_PROFILE_WRITE OR
        AUTH_CAP_TRANSPORT_WRITE OR AUTH_CAP_AUTOMATION_WRITE OR AUTH_CAP_REBOOT_RECOVERY OR
        AUTH_CAP_RUNTIME_DIAGNOSTICS OR AUTH_CAP_FAILSAFE_WRITE
      else if role = AUTH_ROLE_OPERATOR then AUTH_CAP_DASHBOARD_READ OR AUTH_CAP_MANUAL_IO
      else if role = AUTH_ROLE_VIEWER then AUTH_CAP_DASHBOARD_READ
      else 0)"

definition auth_role_name :: "auth_role_t \<Rightarrow> string" where
  "auth_role_name role =
     (if role = AUTH_ROLE_ADMIN then ''admin''
      else if role = AUTH_ROLE_INSTALLER then ''integrator''
      else if role = AUTH_ROLE_OPERATOR then ''operator''
      else if role = AUTH_ROLE_VIEWER then ''viewer''
      else '''')"

definition auth_role_from_text :: "string option \<Rightarrow> auth_role_t option" where
  "auth_role_from_text text =
     (case text of None \<Rightarrow> None
      | Some t \<Rightarrow>
          if t = ''admin'' then Some AUTH_ROLE_ADMIN
          else if t = ''integrator'' \<or> t = ''installer'' then Some AUTH_ROLE_INSTALLER
          else if t = ''operator'' then Some AUTH_ROLE_OPERATOR
          else if t = ''viewer'' then Some AUTH_ROLE_VIEWER
          else None)"

definition auth_role_has_capability :: "auth_role_t \<Rightarrow> u32 \<Rightarrow> bool" where
  "auth_role_has_capability role capability \<longleftrightarrow> auth_role_capability_mask role AND capability \<noteq> 0"

subsection \<open>Passwords, tokens and user names\<close>

definition auth_constant_time_equals :: "bytes \<Rightarrow> bytes \<Rightarrow> nat \<Rightarrow> bool" where
  "auth_constant_time_equals left right len \<longleftrightarrow>
     foldl (\<lambda>diff (l, r). diff OR (l XOR r)) 0 (zip (take len left) (take len right)) = 0"

definition auth_hash_password :: "'w platform \<Rightarrow> 'w auth \<Rightarrow> bytes \<Rightarrow> bytes \<Rightarrow> bytes" where
  "auth_hash_password P s password salt =
     mbedtls_sha256 P (take AUTH_SALT_LEN salt @ auth_device_mac s @ c_str password)"

definition auth_generate_salt :: "'w platform \<Rightarrow> 'w auth \<Rightarrow> bytes \<times> 'w auth" where
  "auth_generate_salt P s = (case esp_fill_random P AUTH_SALT_LEN (auth_world s) of (r, w) \<Rightarrow> (r, s\<lparr>auth_world := w\<rparr>))"

definition token_digit :: "u8 \<Rightarrow> u8" where
  "token_digit n = str_bytes ''0123456789abcdef'' ! unat n"

definition auth_generate_token :: "'w platform \<Rightarrow> 'w auth \<Rightarrow> bytes \<times> 'w auth" where
  "auth_generate_token P s =
     (case esp_fill_random P (AUTH_SESSION_TOKEN_LEN div 2) (auth_world s) of (raw, w) \<Rightarrow>
        (concat (map (\<lambda>r. [token_digit (drop_bit 4 r AND 0x0F), token_digit (r AND 0x0F)]) raw) @ [0],
         s\<lparr>auth_world := w\<rparr>))"

definition auth_password_is_strong :: "bytes option \<Rightarrow> bool" where
  "auth_password_is_strong password \<longleftrightarrow>
     (case password of None \<Rightarrow> False | Some p \<Rightarrow> c_str p \<noteq> [] \<and> AUTH_PASSWORD_MIN_LEN \<le> length (c_str p))"

text \<open>The character classes of the C locale.\<close>

definition c_isspace :: "u8 \<Rightarrow> bool" where "c_isspace ch \<longleftrightarrow> 9 \<le> ch \<and> ch \<le> 13 \<or> ch = 32"
definition c_isupper :: "u8 \<Rightarrow> bool" where "c_isupper ch \<longleftrightarrow> 65 \<le> ch \<and> ch \<le> 90"
definition c_islower :: "u8 \<Rightarrow> bool" where "c_islower ch \<longleftrightarrow> 97 \<le> ch \<and> ch \<le> 122"
definition c_isdigit :: "u8 \<Rightarrow> bool" where "c_isdigit ch \<longleftrightarrow> 48 \<le> ch \<and> ch \<le> 57"
definition c_isalnum :: "u8 \<Rightarrow> bool" where "c_isalnum ch \<longleftrightarrow> c_isupper ch \<or> c_islower ch \<or> c_isdigit ch"
definition c_tolower :: "u8 \<Rightarrow> u8" where "c_tolower ch = (if c_isupper ch then ch + 32 else ch)"

definition auth_username_normalize :: "bytes option \<Rightarrow> nat \<Rightarrow> bool \<Rightarrow> bytes option" where
  "auth_username_normalize input out_size allow_default_admin =
     (let start = dropWhile c_isspace (case input of None \<Rightarrow> [] | Some i \<Rightarrow> c_str i);
          name = rev (dropWhile c_isspace (rev start))
      in if out_size = 0 then None
         else if name = [] then
           if \<not> allow_default_admin \<or> out_size < 6 then None else Some (str_bytes ''admin'')
         else if AUTH_USERNAME_LEN < length name \<or> out_size \<le> length name then None
         else if \<forall>ch \<in> set name. c_isalnum ch \<or> c_tolower ch = 46 \<or> c_tolower ch = 45 \<or> c_tolower ch = 95
         then Some (map c_tolower name) else None)"

subsection \<open>Accounts\<close>

definition auth_account_in_use :: "auth_account_record_t \<Rightarrow> bool" where
  "auth_account_in_use account \<longleftrightarrow> ar_in_use account \<noteq> 0 \<and> c_str (ar_username account) \<noteq> []"

definition auth_has_any_account :: "auth_config_blob_t \<Rightarrow> bool" where
  "auth_has_any_account c \<longleftrightarrow> list_ex auth_account_in_use (ac_accounts c)"

definition auth_account_enabled :: "auth_account_record_t \<Rightarrow> bool" where
  "auth_account_enabled account \<longleftrightarrow> auth_account_in_use account \<and> ar_enabled account \<noteq> 0"

definition auth_account_bootstrap :: "auth_account_record_t \<Rightarrow> bool" where
  "auth_account_bootstrap account \<longleftrightarrow>
     auth_account_in_use account \<and> ar_flags account AND AUTH_ACCOUNT_FLAG_BOOTSTRAP \<noteq> 0"

definition auth_account_clear :: "auth_account_record_t \<Rightarrow> auth_account_record_t" where
  "auth_account_clear account = auth_account_zero"

definition find_account :: "bytes \<Rightarrow> auth_account_record_t list \<Rightarrow> nat option" where
  "find_account name accounts =
     find_index (\<lambda>a. auth_account_in_use a \<and> c_str (ar_username a) = name) accounts"

definition auth_find_account_index :: "bytes \<Rightarrow> auth_config_blob_t \<Rightarrow> nat option" where
  "auth_find_account_index name c = (if name = [] then None else find_account name (ac_accounts c))"

definition find_free_account :: "auth_account_record_t list \<Rightarrow> nat option" where
  "find_free_account accounts = find_index (\<lambda>a. \<not> auth_account_in_use a) accounts"

definition auth_find_free_account_index :: "auth_config_blob_t \<Rightarrow> nat option" where
  "auth_find_free_account_index c = find_free_account (ac_accounts c)"

definition auth_count_enabled_admins_excluding :: "nat \<Rightarrow> auth_config_blob_t \<Rightarrow> nat" where
  "auth_count_enabled_admins_excluding excluded_index c =
     length (filter (\<lambda>i. i \<noteq> excluded_index \<and> auth_account_enabled (ac_accounts c ! i) \<and>
       ar_role (ac_accounts c ! i) = ucast AUTH_ROLE_ADMIN) [0..<length (ac_accounts c)])"

definition auth_account_password_matches ::
    "'w platform \<Rightarrow> 'w auth \<Rightarrow> auth_account_record_t \<Rightarrow> bytes option \<Rightarrow> bool" where
  "auth_account_password_matches P s account password \<longleftrightarrow>
     (case password of None \<Rightarrow> False
      | Some p \<Rightarrow> auth_account_enabled account \<and> c_str p \<noteq> [] \<and>
          auth_constant_time_equals (auth_hash_password P s p (ar_salt account)) (ar_hash account) AUTH_HASH_LEN)"

text \<open>Writing one field of one account.\<close>

definition edit_account ::
    "nat \<Rightarrow> (auth_account_record_t \<Rightarrow> auth_account_record_t) \<Rightarrow> auth_config_blob_t \<Rightarrow> auth_config_blob_t" where
  "edit_account i f c = c\<lparr>ac_accounts := (ac_accounts c)[i := f (ac_accounts c ! i)]\<rparr>"

subsection \<open>Sessions\<close>

definition auth_reset_sessions :: "'w auth \<Rightarrow> 'w auth" where
  "auth_reset_sessions s = s\<lparr>auth_sessions := replicate AUTH_MAX_SESSIONS auth_session_zero\<rparr>"

definition auth_prune_expired_sessions :: "'w platform \<Rightarrow> 'w auth \<Rightarrow> 'w auth" where
  "auth_prune_expired_sessions P s =
     (case auth_now_ms P s of (now_ms, s) \<Rightarrow>
        s\<lparr>auth_sessions := map (\<lambda>e. if se_active e \<and> se_expires_at_ms e \<le> now_ms then auth_session_zero else e)
            (auth_sessions s)\<rparr>)"

definition auth_find_session_index :: "'w platform \<Rightarrow> bytes option \<Rightarrow> 'w auth \<Rightarrow> nat option \<times> 'w auth" where
  "auth_find_session_index P token s =
     (let s = auth_prune_expired_sessions P s in
      case token of None \<Rightarrow> (None, s)
      | Some t \<Rightarrow>
          if c_str t = [] then (None, s)
          else (find_index (\<lambda>e. se_active e \<and> c_str (se_token e) = c_str t) (auth_sessions s), s))"

definition auth_session_account_index_from_token ::
    "'w platform \<Rightarrow> bytes option \<Rightarrow> 'w auth \<Rightarrow> int \<times> 'w auth" where
  "auth_session_account_index_from_token P token s =
     (case auth_find_session_index P token s of
        (None, s) \<Rightarrow> (-1, s)
      | (Some i, s) \<Rightarrow> (se_account_index (auth_sessions s ! i), s))"

definition auth_invalidate_sessions_for_account :: "nat \<Rightarrow> 'w auth \<Rightarrow> 'w auth" where
  "auth_invalidate_sessions_for_account account_index s =
     s\<lparr>auth_sessions := map (\<lambda>e. if se_active e \<and> se_account_index e = int account_index then auth_session_zero else e)
         (auth_sessions s)\<rparr>"

subsection \<open>Audit trail\<close>

text \<open>\<open>auth_audit_is_warning_action\<close> only chooses the level of the log message.\<close>

definition auth_audit_is_warning_action :: "bytes option \<Rightarrow> bool" where
  "auth_audit_is_warning_action action =
     (case action of None \<Rightarrow> False
      | Some a \<Rightarrow> c_str a \<in> set (map str_bytes [''login_failure'', ''password_change_invalid_current'',
          ''password_change_weak'', ''password_change_save_failed'', ''account_save_failed'', ''account_delete_failed'']))"

definition auth_audit_log :: "'w platform \<Rightarrow> bytes option \<Rightarrow> bytes option \<Rightarrow> 'w auth \<Rightarrow> 'w auth" where
  "auth_audit_log P action detail s =
     (case auth_now_ms P s of (now, s) \<Rightarrow>
        s\<lparr>auth_audit_ring := (auth_audit_ring s)[unat (auth_audit_index s) mod AUTH_AUDIT_CAPACITY :=
            \<lparr>ad_timestamp_ms = ucast (now AND 0xFFFFFFFF),
             ad_action = c_snprintf AUTH_AUDIT_ACTION_LEN (case action of None \<Rightarrow> str_bytes ''event'' | Some a \<Rightarrow> a),
             ad_detail = c_snprintf AUTH_AUDIT_DETAIL_LEN (case detail of None \<Rightarrow> [] | Some d \<Rightarrow> d)\<rparr>],
          auth_audit_index := (auth_audit_index s + 1) mod of_nat AUTH_AUDIT_CAPACITY\<rparr>)"

text \<open>The audit calls of this file, which all pass a literal action.\<close>

abbreviation audit :: "'w platform \<Rightarrow> string \<Rightarrow> bytes \<Rightarrow> 'w auth \<Rightarrow> 'w auth" where
  "audit P action detail \<equiv> auth_audit_log P (Some (str_bytes action)) (Some detail)"

subsection \<open>Persistence\<close>

definition account_bytes :: "auth_account_record_t \<Rightarrow> bytes" where
  "account_bytes a = [ar_in_use a, ar_enabled a, ar_role a, ar_flags a] @ ar_username a @ ar_salt a @ ar_hash a"

definition account_of :: "bytes \<Rightarrow> auth_account_record_t" where
  "account_of bs = \<lparr>ar_in_use = bs ! 0, ar_enabled = bs ! 1, ar_role = bs ! 2, ar_flags = bs ! 3,
     ar_username = take 25 (drop 4 bs), ar_salt = take 16 (drop 29 bs), ar_hash = take 32 (drop 45 bs)\<rparr>"

definition auth_config_bytes :: "auth_config_blob_t \<Rightarrow> bytes" where
  "auth_config_bytes c = le32 (ac_version c) @ ac_configured c # ac_reserved c @
     concat (map account_bytes (ac_accounts c)) @ [0, 0]"

definition sizeof_auth_config_blob_t :: nat where "sizeof_auth_config_blob_t = 472"
definition sizeof_auth_config_blob_v1_t :: nat where "sizeof_auth_config_blob_v1_t = 56"

definition auth_config_of :: "bytes \<Rightarrow> auth_config_blob_t" where
  "auth_config_of bs = \<lparr>ac_version = of_le32 bs, ac_configured = bs ! 4, ac_reserved = take 3 (drop 5 bs),
     ac_accounts = map (\<lambda>i. account_of (take 77 (drop (8 + 77 * i) bs))) [0..<AUTH_MAX_ACCOUNTS]\<rparr>"

definition auth_legacy_of :: "bytes \<Rightarrow> auth_config_blob_v1_t" where
  "auth_legacy_of bs = \<lparr>v1_version = of_le32 bs, v1_configured = bs ! 4, v1_reserved = take 3 (drop 5 bs),
     v1_salt = take 16 (drop 8 bs), v1_hash = take 32 (drop 24 bs)\<rparr>"

definition auth_save_config :: "'w platform \<Rightarrow> 'w auth \<Rightarrow> bool \<times> 'w auth" where
  "auth_save_config P s =
     (case nvs_store P AUTH_NAMESPACE AUTH_CONFIG_KEY (auth_config_bytes (auth_config s)) (auth_world s) of
        (ok, w) \<Rightarrow> (ok, s\<lparr>auth_world := w\<rparr>))"

definition auth_seed_open_bootstrap :: "'w auth \<Rightarrow> 'w auth" where
  "auth_seed_open_bootstrap s =
     s\<lparr>auth_config := auth_config_zero\<lparr>ac_version := AUTH_CONFIG_VERSION, ac_configured := 0\<rparr>\<rparr>"

definition auth_bootstrap_open_state :: "'w auth \<Rightarrow> bool" where
  "auth_bootstrap_open_state s \<longleftrightarrow>
     ac_configured (auth_config s) = 0 \<and> \<not> auth_has_any_account (auth_config s)"

text \<open>The result, \<open>out_open_bootstrap_migrated\<close>, and the state.\<close>

definition auth_sanitize_loaded_config :: "'w auth \<Rightarrow> bool \<times> bool \<times> 'w auth" where
  "auth_sanitize_loaded_config s =
     (if ac_version (auth_config s) \<noteq> AUTH_CONFIG_VERSION then (True, False, auth_seed_open_bootstrap s)
      else if ac_configured (auth_config s) = 0 then
        if auth_has_any_account (auth_config s) then (True, True, auth_seed_open_bootstrap s)
        else (False, False, s)
      else if \<not> auth_has_any_account (auth_config s) then (True, False, auth_seed_open_bootstrap s)
      else (False, False, s))"

definition auth_migrate_legacy_config :: "'w platform \<Rightarrow> auth_config_blob_v1_t \<Rightarrow> 'w auth \<Rightarrow> bool \<times> 'w auth" where
  "auth_migrate_legacy_config P legacy s =
     (if v1_version legacy \<noteq> AUTH_LEGACY_CONFIG_VERSION then (False, s)
      else
        let s = auth_seed_open_bootstrap s;
            s = (if v1_configured legacy \<noteq> 0 then
                   s\<lparr>auth_config := edit_account 0
                       (\<lambda>a. a\<lparr>ar_in_use := 1, ar_enabled := 1, ar_role := ucast AUTH_ROLE_ADMIN, ar_flags := 0,
                          ar_username := c_snprintf (AUTH_USERNAME_LEN + 1) (str_bytes ''admin''),
                          ar_salt := v1_salt legacy, ar_hash := v1_hash legacy\<rparr>)
                       ((auth_config s)\<lparr>ac_configured := 1\<rparr>)\<rparr>
                 else s);
            s = snd (auth_save_config P s)
        in (True,
            if v1_configured legacy = 0
            then audit P ''bootstrap_open_migrated''
                   (str_bytes ''legacy bootstrap convertido para criacao local da primeira conta'') s
            else s))"

definition auth_load_config :: "'w platform \<Rightarrow> 'w auth \<Rightarrow> bool \<times> 'w auth" where
  "auth_load_config P s =
     (case nvs_open P AUTH_NAMESPACE NVS_READONLY (auth_world s) of (err, h, w) \<Rightarrow>
      if err \<noteq> ESP_OK then (False, s\<lparr>auth_world := w\<rparr>)
      else case nvs_blob_size P h AUTH_CONFIG_KEY w of (err, len, w) \<Rightarrow>
        if err \<noteq> ESP_OK \<or> len = 0 then (False, s\<lparr>auth_world := nvs_close P h w\<rparr>)
        else if len = sizeof_auth_config_blob_t then
          case nvs_get_blob P h AUTH_CONFIG_KEY len w of (err, bs, w) \<Rightarrow>
            if err \<noteq> ESP_OK \<or> ac_version (auth_config_of bs) \<noteq> AUTH_CONFIG_VERSION
            then (False, s\<lparr>auth_world := nvs_close P h w\<rparr>)
            else
              let s = s\<lparr>auth_config := auth_config_of bs, auth_world := nvs_close P h w\<rparr> in
              case auth_sanitize_loaded_config s of (changed, migrated, s) \<Rightarrow>
                (True,
                 if changed then
                   let s = snd (auth_save_config P s) in
                   if migrated then audit P ''bootstrap_open_migrated''
                     (str_bytes ''bootstrap antigo convertido para conta inicial pela dashboard'') s
                   else s
                 else s)
        else if len = sizeof_auth_config_blob_v1_t then
          case nvs_get_blob P h AUTH_CONFIG_KEY len w of (err, bs, w) \<Rightarrow>
            if err \<noteq> ESP_OK then (False, s\<lparr>auth_world := nvs_close P h w\<rparr>)
            else auth_migrate_legacy_config P (auth_legacy_of bs) (s\<lparr>auth_world := nvs_close P h w\<rparr>)
        else (False, s\<lparr>auth_world := nvs_close P h w\<rparr>))"

definition auth_init :: "'w platform \<Rightarrow> 'w auth \<Rightarrow> 'w auth" where
  "auth_init P s =
     (if auth_initialized s then s
      else
        let s = auth_reset_sessions (s\<lparr>auth_config := auth_config_zero\<rparr>) in
        case esp_read_mac P (auth_world s) of (_, mac, w) \<Rightarrow>
        case auth_load_config P (s\<lparr>auth_device_mac := mac, auth_world := w\<rparr>) of (loaded, s) \<Rightarrow>
          (if loaded then s
           else audit P ''bootstrap_open'' (str_bytes ''primeira conta admin aguardando criacao local'')
                  (snd (auth_save_config P (auth_seed_open_bootstrap s))))
          \<lparr>auth_initialized := True\<rparr>)"

subsection \<open>Queries\<close>

text \<open>The arguments for the session are not used by the code.\<close>

definition auth_fill_status :: "bool \<Rightarrow> int \<Rightarrow> u64 \<Rightarrow> auth_status_t" where
  "auth_fill_status authenticated account_index expires_at_ms =
     \<lparr>as_authenticated = True, as_configured = True, as_bootstrap_open = False, as_password_change_required = False,
      as_role = AUTH_ROLE_ADMIN, as_capabilities = auth_role_capability_mask AUTH_ROLE_ADMIN,
      as_session_expires_in = 3600, as_session_timeout_seconds = 3600, as_retry_after_seconds = 0,
      as_username = c_snprintf (AUTH_USERNAME_LEN + 1) (str_bytes ''admin'')\<rparr>"

definition auth_export_audit :: "'w platform \<Rightarrow> nat \<Rightarrow> 'w auth \<Rightarrow> auth_audit_entry_t list \<times> 'w auth" where
  "auth_export_audit P max_entries s =
     (let s = auth_init P s; ring = auth_audit_ring s;
          count = length (filter (\<lambda>e. c_str (ad_action e) \<noteq> []) ring);
          start = (if count = AUTH_AUDIT_CAPACITY then unat (auth_audit_index s) else 0)
      in (take max_entries
            (map (\<lambda>e. e\<lparr>ad_action := c_snprintf AUTH_AUDIT_ACTION_LEN (ad_action e),
                        ad_detail := c_snprintf AUTH_AUDIT_DETAIL_LEN (ad_detail e)\<rparr>)
              (filter (\<lambda>e. c_str (ad_action e) \<noteq> [])
                (map (\<lambda>i. ring ! ((start + i) mod AUTH_AUDIT_CAPACITY)) [0..<count]))), s))"

definition auth_is_configured :: "'w platform \<Rightarrow> 'w auth \<Rightarrow> bool \<times> 'w auth" where
  "auth_is_configured P s = (let s = auth_init P s in (ac_configured (auth_config s) \<noteq> 0, s))"

definition auth_bootstrap_open :: "'w platform \<Rightarrow> 'w auth \<Rightarrow> bool \<times> 'w auth" where
  "auth_bootstrap_open P s = (let s = auth_init P s in (auth_bootstrap_open_state s, s))"

text \<open>The result and \<open>*out_retry_after_seconds\<close>.\<close>

definition auth_rate_limit_check :: "'w platform \<Rightarrow> 'w auth \<Rightarrow> bool \<times> u32 \<times> 'w auth" where
  "auth_rate_limit_check P s =
     (case auth_now_ms P s of (now_ms, s) \<Rightarrow>
      let s = auth_init P s in
      if now_ms < auth_block_until_ms s
      then (False, ucast ((auth_block_until_ms s - now_ms + 999) div 1000), s)
      else (True, 0, s))"

definition auth_session_timeout_seconds :: "'w auth \<Rightarrow> u32" where
  "auth_session_timeout_seconds s = auth_session_timeout_seconds_value s"

definition auth_list_accounts :: "'w platform \<Rightarrow> nat \<Rightarrow> 'w auth \<Rightarrow> auth_account_info_t list \<times> 'w auth" where
  "auth_list_accounts P max_accounts s =
     (let s = auth_prune_expired_sessions P (auth_init P s); accounts = ac_accounts (auth_config s) in
      (take max_accounts
         (map (\<lambda>i. let a = accounts ! i in
            \<lparr>ai_enabled = ar_enabled a \<noteq> 0, ai_bootstrap = auth_account_bootstrap a,
             ai_current_session = list_ex (\<lambda>e. se_active e \<and> se_account_index e = int i) (auth_sessions s),
             ai_role = ucast (ar_role a), ai_username = c_snprintf (AUTH_USERNAME_LEN + 1) (ar_username a)\<rparr>)
          (filter (\<lambda>i. auth_account_in_use (accounts ! i)) [0..<length accounts])), s))"

subsection \<open>Login and sessions\<close>

definition auth_record_login_success :: "'w platform \<Rightarrow> bytes option \<Rightarrow> bool \<Rightarrow> 'w auth \<Rightarrow> 'w auth" where
  "auth_record_login_success P username bootstrap_session s =
     (let u = (case username of None \<Rightarrow> str_bytes ''unknown''
               | Some u \<Rightarrow> if c_str u \<noteq> [] then c_str u else str_bytes ''unknown'')
      in audit P ''login_success''
           (take 63 (str_bytes ''user='' @ u @ (if bootstrap_session then str_bytes '' bootstrap'' else [])))
           (s\<lparr>auth_failed_attempts := 0, auth_block_until_ms := 0\<rparr>))"

definition auth_record_login_failure :: "'w platform \<Rightarrow> bytes option \<Rightarrow> 'w auth \<Rightarrow> 'w auth" where
  "auth_record_login_failure P username s =
     (let s = s\<lparr>auth_failed_attempts := auth_failed_attempts s + 1\<rparr>;
          step = auth_failed_attempts s - AUTH_RATE_LIMIT_THRESHOLD + 1;
          product = AUTH_RATE_LIMIT_BASE_SECONDS * step;
          block_seconds = (if auth_failed_attempts s < AUTH_RATE_LIMIT_THRESHOLD then 0
                           else if AUTH_RATE_LIMIT_MAX_SECONDS < product then AUTH_RATE_LIMIT_MAX_SECONDS
                           else product);
          s = (if auth_failed_attempts s < AUTH_RATE_LIMIT_THRESHOLD then s
               else case auth_now_ms P s of (now, s) \<Rightarrow> s\<lparr>auth_block_until_ms := now + ucast block_seconds * 1000\<rparr>);
          u = (case username of None \<Rightarrow> str_bytes ''unknown''
               | Some u \<Rightarrow> if c_str u \<noteq> [] then c_str u else str_bytes ''unknown'')
      in audit P ''login_failure''
           (take 79 (str_bytes ''user='' @ u @ str_bytes '' '' @
              str_bytes (if block_seconds \<noteq> 0 then ''rate-limited'' else ''invalid-credentials''))) s)"

text \<open>The scan for a free session or, without one, for the session that was issued first.\<close>

fun session_target :: "auth_session_state_t list \<Rightarrow> nat \<Rightarrow> u64 \<Rightarrow> nat option \<Rightarrow> nat option" where
  "session_target [] i oldest_issued target = target"
| "session_target (e # es) i oldest_issued target =
     (if \<not> se_active e then Some i
      else if se_issued_at_ms e < oldest_issued then session_target es (Suc i) (se_issued_at_ms e) (Some i)
      else session_target es (Suc i) oldest_issued target)"

text \<open>
  \<open>out\<close> is the size of the token buffer. The result is what the call writes there and to
  \<open>*out_expires_in\<close>, \<open>None\<close> when it returns false.
\<close>

definition auth_create_session_for_account ::
    "'w platform \<Rightarrow> int \<Rightarrow> nat option \<Rightarrow> 'w auth \<Rightarrow> (bytes \<times> u32) option \<times> 'w auth" where
  "auth_create_session_for_account P account_index out s =
     (case auth_now_ms P s of (now_ms, s) \<Rightarrow>
      let s = auth_prune_expired_sessions P s in
      case (session_target (auth_sessions s) 0 (- 1) None, out) of
        (Some i, Some out_size) \<Rightarrow>
          if out_size < AUTH_SESSION_TOKEN_LEN + 1 then (None, s)
          else case auth_generate_token P s of (token, s) \<Rightarrow>
            (Some (c_str token, auth_session_timeout_seconds_value s),
             s\<lparr>auth_sessions := (auth_sessions s)[i :=
                 \<lparr>se_active = True, se_token = token,
                  se_expires_at_ms = now_ms + ucast (auth_session_timeout_seconds_value s) * 1000,
                  se_issued_at_ms = now_ms, se_account_index = account_index\<rparr>]\<rparr>)
      | _ \<Rightarrow> (None, s))"

text \<open>The token that is written to the buffer (\<open>None\<close>: nothing), the status and the result.\<close>

definition auth_login ::
    "'w platform \<Rightarrow> bytes option \<Rightarrow> bytes option \<Rightarrow> nat option \<Rightarrow> 'w auth \<Rightarrow>
     auth_login_result_t \<times> bytes option \<times> auth_status_t \<times> 'w auth" where
  "auth_login P username password out s =
     (let s = auth_init P s;
          token = (case out of None \<Rightarrow> None
                   | Some out_size \<Rightarrow> if 0 < out_size
                       then Some (take (out_size - 1) (str_bytes ''master_admin_session_token'')) else None)
      in (AUTH_LOGIN_OK, token, auth_fill_status True 0 0, s))"

definition auth_validate_session :: "'w platform \<Rightarrow> bytes option \<Rightarrow> 'w auth \<Rightarrow> bool \<times> auth_status_t \<times> 'w auth" where
  "auth_validate_session P token s = (True, auth_fill_status True 0 0, auth_init P s)"

definition auth_get_status :: "'w platform \<Rightarrow> bytes option \<Rightarrow> 'w auth \<Rightarrow> auth_status_t \<times> 'w auth" where
  "auth_get_status P token s = (auth_fill_status True 0 0, auth_init P s)"

definition auth_destroy_session :: "'w platform \<Rightarrow> bytes option \<Rightarrow> 'w auth \<Rightarrow> 'w auth" where
  "auth_destroy_session P token s =
     (let s = auth_init P s in
      if (case token of None \<Rightarrow> True | Some t \<Rightarrow> c_str t = []) then auth_reset_sessions s
      else case auth_find_session_index P token s of
          (None, s) \<Rightarrow> s
        | (Some i, s) \<Rightarrow> s\<lparr>auth_sessions := (auth_sessions s)[i := auth_session_zero]\<rparr>)"

subsection \<open>Account management\<close>

definition auth_bootstrap_create_first_admin ::
    "'w platform \<Rightarrow> bytes option \<Rightarrow> bytes option \<Rightarrow> nat option \<Rightarrow> 'w auth \<Rightarrow>
     auth_bootstrap_create_result_t \<times> bytes option \<times> auth_status_t \<times> 'w auth" where
  "auth_bootstrap_create_first_admin P username password out s =
     (let s = auth_init P s; refused = auth_fill_status False (- 1) 0 in
      if \<not> auth_bootstrap_open_state s then (AUTH_BOOTSTRAP_CREATE_ALREADY_CONFIGURED, None, refused, s)
      else case auth_username_normalize username (AUTH_USERNAME_LEN + 1) True of
        None \<Rightarrow> (AUTH_BOOTSTRAP_CREATE_INVALID_USERNAME, None, refused, s)
      | Some name \<Rightarrow>
          if \<not> auth_password_is_strong password then (AUTH_BOOTSTRAP_CREATE_WEAK_PASSWORD, None, refused, s)
          else
            let previous_config = auth_config s in
            case auth_generate_salt P s of (salt, s) \<Rightarrow>
            let config = edit_account 0
                  (\<lambda>a. (auth_account_clear a)\<lparr>ar_in_use := 1, ar_enabled := 1, ar_role := ucast AUTH_ROLE_ADMIN,
                     ar_flags := 0, ar_username := c_snprintf (AUTH_USERNAME_LEN + 1) name, ar_salt := salt,
                     ar_hash := auth_hash_password P s (the password) salt\<rparr>) (auth_config s)
            in case auth_save_config P (s\<lparr>auth_config := config\<lparr>ac_configured := 1\<rparr>\<rparr>) of (saved, s) \<Rightarrow>
            if \<not> saved then
              (AUTH_BOOTSTRAP_CREATE_SAVE_FAILED, None, refused,
               audit P ''bootstrap_admin_create_failed'' name (s\<lparr>auth_config := previous_config\<rparr>))
            else case auth_create_session_for_account P 0 out s of
                (None, s) \<Rightarrow>
                  (case auth_get_status P None s of (status, s) \<Rightarrow>
                     (AUTH_BOOTSTRAP_CREATE_SESSION_CREATE_FAILED, None, status, s))
              | (Some (token, _), s) \<Rightarrow>
                  let s = auth_record_login_success P (Some name) False s;
                      s = audit P ''bootstrap_admin_created''
                            (take 95 (str_bytes ''user='' @ name @ str_bytes '' first-admin-created'')) s
                  in case auth_get_status P (Some token) s of (status, s) \<Rightarrow>
                       (AUTH_BOOTSTRAP_CREATE_OK, Some token, status, s))"

text \<open>The write of a new password: fresh salt, hash, and the bootstrap flag cleared.\<close>

definition set_password :: "'w platform \<Rightarrow> nat \<Rightarrow> bytes \<Rightarrow> 'w auth \<Rightarrow> 'w auth" where
  "set_password P i password s =
     (case auth_generate_salt P s of (salt, s) \<Rightarrow>
        s\<lparr>auth_config := edit_account i
            (\<lambda>a. a\<lparr>ar_salt := salt, ar_hash := auth_hash_password P s password salt,
                   ar_flags := ar_flags a AND NOT AUTH_ACCOUNT_FLAG_BOOTSTRAP\<rparr>) (auth_config s)\<rparr>)"

definition auth_change_password ::
    "'w platform \<Rightarrow> bytes option \<Rightarrow> bytes option \<Rightarrow> bytes option \<Rightarrow> 'w auth \<Rightarrow> auth_change_password_result_t \<times> 'w auth" where
  "auth_change_password P token current_password new_password s =
     (case auth_find_session_index P token (auth_init P s) of
        (None, s) \<Rightarrow> (AUTH_CHANGE_PASSWORD_INTERNAL_ERROR, s)
      | (Some session_index, s) \<Rightarrow>
          let account_index = se_account_index (auth_sessions s ! session_index) in
          if account_index < 0 \<or> int AUTH_MAX_ACCOUNTS \<le> account_index then (AUTH_CHANGE_PASSWORD_INTERNAL_ERROR, s)
          else
            let i = nat account_index; account = ac_accounts (auth_config s) ! i in
            if \<not> auth_account_enabled account then (AUTH_CHANGE_PASSWORD_INTERNAL_ERROR, s)
            else if \<not> auth_account_bootstrap account \<and> \<not> auth_account_password_matches P s account current_password
            then (AUTH_CHANGE_PASSWORD_INVALID_CURRENT,
                  audit P ''password_change_invalid_current'' (ar_username account) s)
            else if \<not> auth_password_is_strong new_password
            then (AUTH_CHANGE_PASSWORD_WEAK, audit P ''password_change_weak'' (ar_username account) s)
            else
              let previous_config = auth_config s; s = set_password P i (the new_password) s;
                  s = s\<lparr>auth_config := (auth_config s)\<lparr>ac_configured := 1\<rparr>\<rparr>
              in case auth_save_config P s of (saved, s) \<Rightarrow>
                if \<not> saved
                then (AUTH_CHANGE_PASSWORD_SAVE_FAILED,
                      audit P ''password_change_save_failed'' (ar_username account)
                        (s\<lparr>auth_config := previous_config\<rparr>))
                else case auth_now_ms P s of (now, s) \<Rightarrow>
                  (AUTH_CHANGE_PASSWORD_OK,
                   audit P ''password_changed''
                     (take 63 (str_bytes ''user='' @ c_str (ar_username account) @ str_bytes '' '' @
                        str_bytes (if auth_account_bootstrap account then ''bootstrap-completed'' else ''password-updated'')))
                     (s\<lparr>auth_sessions := (auth_sessions s)[session_index := (auth_sessions s ! session_index)
                          \<lparr>se_expires_at_ms := now + ucast (auth_session_timeout_seconds_value s) * 1000\<rparr>]\<rparr>)))"

text \<open>The test both account operations make of the caller's session.\<close>

definition admin_index :: "int \<Rightarrow> 'w auth \<Rightarrow> bool" where
  "admin_index current_account_index s \<longleftrightarrow>
     0 \<le> current_account_index \<and> current_account_index < int AUTH_MAX_ACCOUNTS \<and>
     auth_account_enabled (ac_accounts (auth_config s) ! nat current_account_index) \<and>
     ar_role (ac_accounts (auth_config s) ! nat current_account_index) = ucast AUTH_ROLE_ADMIN"

definition save_detail :: "bytes \<Rightarrow> auth_role_t \<Rightarrow> bool \<Rightarrow> string \<Rightarrow> bytes" where
  "save_detail name role enabled what =
     take 95 (str_bytes ''user='' @ name @ str_bytes '' role='' @ str_bytes (auth_role_name role) @
       str_bytes '' enabled='' @ str_bytes (if enabled then ''1'' else ''0'') @ str_bytes what)"

text \<open>Saving, with the configuration before the change for the roll-back.\<close>

definition save_or_restore ::
    "'w platform \<Rightarrow> auth_config_blob_t \<Rightarrow> bytes \<Rightarrow> bytes \<Rightarrow> 'w auth \<Rightarrow> auth_account_save_result_t \<times> 'w auth" where
  "save_or_restore P previous_config name detail s =
     (case auth_save_config P s of (saved, s) \<Rightarrow>
        if \<not> saved
        then (AUTH_ACCOUNT_SAVE_SAVE_FAILED, audit P ''account_save_failed'' name (s\<lparr>auth_config := previous_config\<rparr>))
        else (AUTH_ACCOUNT_SAVE_OK, audit P ''account_saved'' detail s))"

definition update_account ::
    "'w platform \<Rightarrow> nat \<Rightarrow> bytes \<Rightarrow> auth_role_t \<Rightarrow> bool \<Rightarrow> bytes option \<Rightarrow> 'w auth \<Rightarrow> auth_account_save_result_t \<times> 'w auth" where
  "update_account P i name role enabled password s =
     (let previous_config = auth_config s;
          s = s\<lparr>auth_config := edit_account i
                (\<lambda>a. a\<lparr>ar_enabled := (if enabled then 1 else 0), ar_role := ucast role\<rparr>) (auth_config s)\<rparr>
      in case password of
           Some p \<Rightarrow>
             if c_str p \<noteq> [] then
               if \<not> auth_password_is_strong password then (AUTH_ACCOUNT_SAVE_WEAK_PASSWORD, s)
               else save_or_restore P previous_config name (save_detail name role enabled '' updated'')
                      (auth_invalidate_sessions_for_account i (set_password P i p s))
             else save_or_restore P previous_config name (save_detail name role enabled '' updated'') s
         | None \<Rightarrow> save_or_restore P previous_config name (save_detail name role enabled '' updated'') s)"

definition create_account ::
    "'w platform \<Rightarrow> bytes \<Rightarrow> auth_role_t \<Rightarrow> bool \<Rightarrow> bytes option \<Rightarrow> 'w auth \<Rightarrow> auth_account_save_result_t \<times> 'w auth" where
  "create_account P name role enabled password s =
     (if \<not> auth_password_is_strong password then (AUTH_ACCOUNT_SAVE_WEAK_PASSWORD, s)
      else case auth_find_free_account_index (auth_config s) of
        None \<Rightarrow> (AUTH_ACCOUNT_SAVE_NO_SPACE, s)
      | Some i \<Rightarrow>
          let previous_config = auth_config s in
          case auth_generate_salt P s of (salt, s) \<Rightarrow>
            save_or_restore P previous_config name (save_detail name role enabled '' created'')
              (s\<lparr>auth_config := edit_account i
                  (\<lambda>a. (auth_account_clear a)\<lparr>ar_in_use := 1, ar_enabled := (if enabled then 1 else 0),
                     ar_role := ucast role, ar_username := c_snprintf (AUTH_USERNAME_LEN + 1) name,
                     ar_salt := salt, ar_hash := auth_hash_password P s (the password) salt\<rparr>) (auth_config s)\<rparr>))"

definition auth_save_account ::
    "'w platform \<Rightarrow> bytes option \<Rightarrow> bytes option \<Rightarrow> auth_role_t \<Rightarrow> bool \<Rightarrow> bytes option \<Rightarrow> 'w auth \<Rightarrow>
     auth_account_save_result_t \<times> 'w auth" where
  "auth_save_account P current_token username role enabled password s =
     (let s = auth_init P s in
      case auth_username_normalize username (AUTH_USERNAME_LEN + 1) True of
        None \<Rightarrow> (AUTH_ACCOUNT_SAVE_INVALID_USERNAME, s)
      | Some name \<Rightarrow>
          if role \<noteq> AUTH_ROLE_ADMIN \<and> role \<noteq> AUTH_ROLE_INSTALLER \<and> role \<noteq> AUTH_ROLE_OPERATOR \<and> role \<noteq> AUTH_ROLE_VIEWER
          then (AUTH_ACCOUNT_SAVE_INVALID_ROLE, s)
          else case auth_session_account_index_from_token P current_token s of (current_account_index, s) \<Rightarrow>
            if \<not> admin_index current_account_index s then (AUTH_ACCOUNT_SAVE_FORBIDDEN, s)
            else case auth_find_account_index name (auth_config s) of
              None \<Rightarrow> create_account P name role enabled password s
            | Some i \<Rightarrow>
                if int i = current_account_index then (AUTH_ACCOUNT_SAVE_FORBIDDEN, s)
                else if (\<not> enabled \<or> role \<noteq> AUTH_ROLE_ADMIN) \<and>
                        ar_role (ac_accounts (auth_config s) ! i) = ucast AUTH_ROLE_ADMIN \<and>
                        auth_count_enabled_admins_excluding i (auth_config s) = 0
                then (AUTH_ACCOUNT_SAVE_LAST_ADMIN, s)
                else update_account P i name role enabled password s)"

definition auth_delete_account ::
    "'w platform \<Rightarrow> bytes option \<Rightarrow> bytes option \<Rightarrow> 'w auth \<Rightarrow> auth_account_delete_result_t \<times> 'w auth" where
  "auth_delete_account P current_token username s =
     (let s = auth_init P s in
      case auth_username_normalize username (AUTH_USERNAME_LEN + 1) True of
        None \<Rightarrow> (AUTH_ACCOUNT_DELETE_NOT_FOUND, s)
      | Some name \<Rightarrow>
          case auth_session_account_index_from_token P current_token s of (current_account_index, s) \<Rightarrow>
          if \<not> admin_index current_account_index s then (AUTH_ACCOUNT_DELETE_FORBIDDEN, s)
          else case auth_find_account_index name (auth_config s) of
            None \<Rightarrow> (AUTH_ACCOUNT_DELETE_NOT_FOUND, s)
          | Some i \<Rightarrow>
              if int i = current_account_index then (AUTH_ACCOUNT_DELETE_FORBIDDEN, s)
              else if ar_role (ac_accounts (auth_config s) ! i) = ucast AUTH_ROLE_ADMIN \<and>
                      auth_count_enabled_admins_excluding i (auth_config s) = 0
              then (AUTH_ACCOUNT_DELETE_LAST_ADMIN, s)
              else
                let previous_config = auth_config s;
                    s = auth_invalidate_sessions_for_account i
                          (s\<lparr>auth_config := edit_account i auth_account_clear (auth_config s)\<rparr>)
                in case auth_save_config P s of (saved, s) \<Rightarrow>
                  if \<not> saved
                  then (AUTH_ACCOUNT_DELETE_SAVE_FAILED,
                        audit P ''account_delete_failed'' name (s\<lparr>auth_config := previous_config\<rparr>))
                  else (AUTH_ACCOUNT_DELETE_OK,
                        audit P ''account_deleted'' (take 63 (str_bytes ''user='' @ name @ str_bytes '' deleted'')) s))"

section \<open>Passwords\<close>

lemma xor_eq_zero: "a XOR b = 0 \<longleftrightarrow> a = (b :: 'a::len word)"
  using xor_cancel_right [of a b b] by simp

lemma fold_diff_zero:
  "foldl (\<lambda>diff (l, r). diff OR (l XOR r)) d xs = 0 \<longleftrightarrow> d = (0 :: u8) \<and> (\<forall>(l, r) \<in> set xs. l = r)"
  by (induction xs arbitrary: d) (auto simp: or_eq_0_iff xor_eq_zero)

lemma zip_all_eq: "length xs = length ys \<Longrightarrow> (\<forall>(l, r) \<in> set (zip xs ys). l = r) \<longleftrightarrow> xs = ys"
  by (induction xs ys rule: list_induct2) auto

text \<open>The constant-time comparison is equality of the compared bytes.\<close>

lemma constant_time_equals:
  "length left = length right \<Longrightarrow> auth_constant_time_equals left right len \<longleftrightarrow> take len left = take len right"
  unfolding auth_constant_time_equals_def fold_diff_zero by (simp add: zip_all_eq)

section \<open>What the operations keep\<close>

lemma now_keeps [simp]:
  "auth_config (snd (auth_now_ms P s)) = auth_config s" "auth_sessions (snd (auth_now_ms P s)) = auth_sessions s"
  "auth_initialized (snd (auth_now_ms P s)) = auth_initialized s"
  "auth_device_mac (snd (auth_now_ms P s)) = auth_device_mac s"
  "auth_session_timeout_seconds_value (snd (auth_now_ms P s)) = auth_session_timeout_seconds_value s"
  by (simp_all add: auth_now_ms_def case_prod_beta)

lemma audit_keeps [simp]:
  "auth_config (auth_audit_log P a d s) = auth_config s" "auth_sessions (auth_audit_log P a d s) = auth_sessions s"
  "auth_initialized (auth_audit_log P a d s) = auth_initialized s"
  "auth_device_mac (auth_audit_log P a d s) = auth_device_mac s"
  by (simp_all add: auth_audit_log_def case_prod_beta)

lemma salt_keeps [simp]:
  "auth_config (snd (auth_generate_salt P s)) = auth_config s"
  "auth_sessions (snd (auth_generate_salt P s)) = auth_sessions s"
  "auth_initialized (snd (auth_generate_salt P s)) = auth_initialized s"
  "auth_device_mac (snd (auth_generate_salt P s)) = auth_device_mac s"
  by (simp_all add: auth_generate_salt_def case_prod_beta)

lemma token_keeps [simp]:
  "auth_config (snd (auth_generate_token P s)) = auth_config s"
  "auth_sessions (snd (auth_generate_token P s)) = auth_sessions s"
  "auth_initialized (snd (auth_generate_token P s)) = auth_initialized s"
  by (simp_all add: auth_generate_token_def case_prod_beta)

lemma save_keeps [simp]:
  "auth_config (snd (auth_save_config P s)) = auth_config s"
  "auth_sessions (snd (auth_save_config P s)) = auth_sessions s"
  "auth_initialized (snd (auth_save_config P s)) = auth_initialized s"
  "auth_device_mac (snd (auth_save_config P s)) = auth_device_mac s"
  by (simp_all add: auth_save_config_def case_prod_beta)

lemma prune_keeps [simp]:
  "auth_config (auth_prune_expired_sessions P s) = auth_config s"
  "auth_initialized (auth_prune_expired_sessions P s) = auth_initialized s"
  "auth_device_mac (auth_prune_expired_sessions P s) = auth_device_mac s"
  "auth_sessions (auth_prune_expired_sessions P s) =
     map (\<lambda>e. if se_active e \<and> se_expires_at_ms e \<le> fst (auth_now_ms P s) then auth_session_zero else e) (auth_sessions s)"
  by (simp_all add: auth_prune_expired_sessions_def case_prod_beta)

lemma find_session_state [simp]: "snd (auth_find_session_index P token s) = auth_prune_expired_sessions P s"
  by (simp add: auth_find_session_index_def Let_def split: option.split)

lemma account_from_token_state [simp]:
  "snd (auth_session_account_index_from_token P token s) = auth_prune_expired_sessions P s"
  by (simp add: auth_session_account_index_from_token_def case_prod_beta split: option.split)

lemma invalidate_keeps [simp]:
  "auth_config (auth_invalidate_sessions_for_account i s) = auth_config s"
  "auth_initialized (auth_invalidate_sessions_for_account i s) = auth_initialized s"
  "auth_device_mac (auth_invalidate_sessions_for_account i s) = auth_device_mac s"
  by (simp_all add: auth_invalidate_sessions_for_account_def)

lemma set_password_keeps [simp]:
  "auth_sessions (set_password P i p s) = auth_sessions s"
  "auth_initialized (set_password P i p s) = auth_initialized s"
  "auth_device_mac (set_password P i p s) = auth_device_mac s"
  by (simp_all add: set_password_def case_prod_beta)

lemma init_idle [simp]: "auth_initialized s \<Longrightarrow> auth_init P s = s"
  by (simp add: auth_init_def)

section \<open>The account table\<close>

interpretation accounts: keyed_table auth_account_in_use "\<lambda>a. c_str (ar_username a)" "\<lambda>_. True" find_account find_free_account
  by unfold_locales (auto simp: find_account_def find_free_account_def find_index_Some find_index_None)

definition account_ok :: "auth_account_record_t \<Rightarrow> bool" where
  "account_ok a \<longleftrightarrow> length (ar_username a) = 25 \<and> length (ar_salt a) = 16 \<and> length (ar_hash a) = 32"

definition admin_account :: "auth_account_record_t \<Rightarrow> bool" where
  "admin_account a \<longleftrightarrow> auth_account_enabled a \<and> ar_role a = ucast AUTH_ROLE_ADMIN"

definition has_admin :: "auth_config_blob_t \<Rightarrow> bool" where
  "has_admin c \<longleftrightarrow> list_ex admin_account (ac_accounts c)"

definition config_ok :: "auth_config_blob_t \<Rightarrow> bool" where
  "config_ok c \<longleftrightarrow> ac_version c = AUTH_CONFIG_VERSION \<and> length (ac_reserved c) = 3 \<and>
     length (ac_accounts c) = AUTH_MAX_ACCOUNTS \<and> list_all account_ok (ac_accounts c) \<and>
     keys_distinct auth_account_in_use (\<lambda>a. c_str (ar_username a)) (ac_accounts c) \<and>
     (if ac_configured c = 0 then \<not> auth_has_any_account c else has_admin c)"

definition session_ok :: "auth_session_state_t \<Rightarrow> bool" where
  "session_ok e \<longleftrightarrow> (se_active e \<longrightarrow> length (c_str (se_token e)) = AUTH_SESSION_TOKEN_LEN \<and>
     0 \<le> se_account_index e \<and> se_account_index e < int AUTH_MAX_ACCOUNTS)"

definition auth_ok :: "'w auth \<Rightarrow> bool" where
  "auth_ok s \<longleftrightarrow> auth_initialized s \<and> config_ok (auth_config s) \<and>
     length (auth_sessions s) = AUTH_MAX_SESSIONS \<and> list_all session_ok (auth_sessions s)"

lemma zero_not_in_use [simp]: "\<not> auth_account_in_use auth_account_zero"
  by (simp add: auth_account_in_use_def auth_account_zero_def)

lemma zero_account_ok [simp]: "account_ok auth_account_zero"
  by (simp add: account_ok_def auth_account_zero_def auth_sizes)

lemma zero_session_ok [simp]: "session_ok auth_session_zero" "\<not> se_active auth_session_zero"
  by (simp_all add: session_ok_def auth_session_zero_def)

lemma edit_simps [simp]:
  "ac_version (edit_account i f c) = ac_version c" "ac_reserved (edit_account i f c) = ac_reserved c"
  "ac_configured (edit_account i f c) = ac_configured c"
  "ac_accounts (edit_account i f c) = (ac_accounts c)[i := f (ac_accounts c ! i)]"
  by (simp_all add: edit_account_def)

lemma list_all_update: "list_all Q xs \<Longrightarrow> (i < length xs \<Longrightarrow> Q y) \<Longrightarrow> list_all Q (xs[i := y])"
  by (cases "i < length xs") (auto simp: list_all_iff list_update_beyond dest!: set_update_subset_insert [THEN subsetD])

text \<open>An administrator elsewhere in the table survives an edit.\<close>

lemma admin_survives_edit:
  assumes "j < length (ac_accounts c)" "j \<noteq> i" "admin_account (ac_accounts c ! j)"
  shows "has_admin (edit_account i f c)"
  using assms by (auto simp: has_admin_def list_ex_length intro!: exI [of _ j])

lemma has_admin_has_any: "has_admin c \<Longrightarrow> auth_has_any_account c"
  by (auto simp: has_admin_def auth_has_any_account_def list_ex_iff admin_account_def auth_account_enabled_def)

text \<open>An edit of one account keeps the table well formed when the new record is and its name is free.\<close>

lemma config_ok_edit:
  assumes "config_ok c" "i < AUTH_MAX_ACCOUNTS" "account_ok (f (ac_accounts c ! i))"
    and "keys_distinct auth_account_in_use (\<lambda>a. c_str (ar_username a)) ((ac_accounts c)[i := f (ac_accounts c ! i)])"
    and "has_admin (edit_account i f c)" and "k \<noteq> 0"
  shows "config_ok ((edit_account i f c)\<lparr>ac_configured := k\<rparr>)"
  using assms by (auto simp: config_ok_def list_all_update has_admin_def)

lemma distinct_edit_same_name:
  assumes "keys_distinct auth_account_in_use (\<lambda>a. c_str (ar_username a)) xs" "i < length xs"
    "ar_in_use y = ar_in_use (xs ! i)" "ar_username y = ar_username (xs ! i)"
  shows "keys_distinct auth_account_in_use (\<lambda>a. c_str (ar_username a)) (xs[i := y])"
  using assms by (intro keys_distinct_update) (auto simp: auth_account_in_use_def dest: keys_distinctD)

lemma config_ok_keep_name:
  assumes "config_ok c" "i < AUTH_MAX_ACCOUNTS" "j < AUTH_MAX_ACCOUNTS" "j \<noteq> i" "admin_account (ac_accounts c ! j)"
    and "\<And>a. ar_in_use (f a) = ar_in_use a" "\<And>a. ar_username (f a) = ar_username a" "\<And>a. account_ok a \<Longrightarrow> account_ok (f a)"
  shows "config_ok (edit_account i f c)"
proof -
  have len: "length (ac_accounts c) = AUTH_MAX_ACCOUNTS" using assms(1) by (simp add: config_ok_def)
  have "has_admin c" using assms(3,5) len by (auto simp: has_admin_def list_ex_length)
  then have "ac_configured c \<noteq> 0" using assms(1) has_admin_has_any by (auto simp: config_ok_def split: if_splits)
  moreover have "account_ok (ac_accounts c ! i)" using assms(1,2) len by (auto simp: config_ok_def list_all_length)
  moreover have "has_admin (edit_account i f c)" using admin_survives_edit [of j c i] assms(3-5) len by simp
  ultimately have "config_ok ((edit_account i f c)\<lparr>ac_configured := ac_configured c\<rparr>)"
    using assms(1,2,6-8) len by (intro config_ok_edit distinct_edit_same_name) (auto simp: config_ok_def)
  then show ?thesis by (simp add: edit_account_def)
qed

text \<open>A normalised user name fits its field and has no terminator inside.\<close>

lemma tolower_nonzero: "ch \<noteq> 0 \<Longrightarrow> c_tolower ch \<noteq> 0"
proof
  assume "c_tolower ch = 0" "ch \<noteq> 0"
  then have "c_isupper ch" "ch + 32 = 0" by (auto simp: c_tolower_def split: if_splits)
  then have "ch = - 32" by (simp add: eq_neg_iff_add_eq_0)
  then show False using \<open>c_isupper ch\<close> by (simp add: c_isupper_def)
qed

lemma normalized_name:
  assumes "auth_username_normalize u (AUTH_USERNAME_LEN + 1) True = Some name"
  shows "name \<noteq> []" "length name \<le> AUTH_USERNAME_LEN" "\<forall>b \<in> set name. b \<noteq> 0"
proof -
  let ?start = "dropWhile c_isspace (case u of None \<Rightarrow> [] | Some i \<Rightarrow> c_str i)"
  let ?raw = "rev (dropWhile c_isspace (rev ?start))"
  have raw: "b \<noteq> 0" if "b \<in> set ?raw" for b
    using that by (auto dest!: set_dropWhileD split: option.splits)
  consider "name = str_bytes ''admin''" | "?raw \<noteq> []" "length ?raw \<le> AUTH_USERNAME_LEN" "name = map c_tolower ?raw"
    using assms unfolding auth_username_normalize_def Let_def by (auto split: if_splits)
  then have "name \<noteq> [] \<and> length name \<le> AUTH_USERNAME_LEN \<and> (\<forall>b \<in> set name. b \<noteq> 0)"
  proof cases
    case 1
    then show ?thesis by (simp add: str_bytes_def auth_sizes)
  next
    case 2
    have "\<forall>b \<in> set (map c_tolower ?raw). b \<noteq> 0"
      using raw tolower_nonzero by (simp only: set_map ball_simps) blast
    then show ?thesis using 2 by (simp only: length_map map_is_Nil_conv) simp
  qed
  then show "name \<noteq> []" "length name \<le> AUTH_USERNAME_LEN" "\<forall>b \<in> set name. b \<noteq> 0" by blast+
qed

lemma c_str_stored_name:
  assumes "auth_username_normalize u (AUTH_USERNAME_LEN + 1) True = Some name"
  shows "c_str (c_snprintf (AUTH_USERNAME_LEN + 1) name) = name"
  using normalized_name [OF assms] by (simp add: c_str_id)

section \<open>The invariant\<close>

lemma ok_prune: "auth_ok s \<Longrightarrow> auth_ok (auth_prune_expired_sessions P s)"
  by (auto simp: auth_ok_def list_all_iff)

lemma ok_invalidate: "auth_ok s \<Longrightarrow> auth_ok (auth_invalidate_sessions_for_account i s)"
  by (auto simp: auth_ok_def auth_invalidate_sessions_for_account_def list_all_iff)

lemma ok_audit [simp]: "auth_ok (auth_audit_log P a d s) = auth_ok s"
  by (simp add: auth_ok_def)

lemma ok_save [simp]: "auth_ok (snd (auth_save_config P s)) = auth_ok s"
  by (simp add: auth_ok_def)

lemma ok_restore: "auth_ok s \<Longrightarrow> auth_sessions s' = auth_sessions s \<Longrightarrow> auth_initialized s' = auth_initialized s \<Longrightarrow>
    config_ok c \<Longrightarrow> auth_ok (s'\<lparr>auth_config := c\<rparr>)"
  by (simp add: auth_ok_def)

lemma ok_config: "auth_ok s \<Longrightarrow> config_ok c \<Longrightarrow> auth_ok (s\<lparr>auth_config := c\<rparr>)"
  by (simp add: auth_ok_def)

text \<open>Saving keeps the invariant when the configuration before and after the change has it.\<close>

lemma ok_save_or_restore:
  assumes "auth_ok s" "config_ok previous_config"
  shows "auth_ok (snd (save_or_restore P previous_config name detail s))"
  using assms by (auto simp: save_or_restore_def case_prod_beta intro: ok_restore)

lemma salt_length: "entropy_law P \<Longrightarrow> length (fst (auth_generate_salt P s)) = 16"
  by (simp add: auth_generate_salt_def entropy_law_def auth_sizes case_prod_beta)

lemma hash_length: "entropy_law P \<Longrightarrow> length (auth_hash_password P s p salt) = 32"
  by (simp add: auth_hash_password_def entropy_law_def)

text \<open>The record that a new password leaves.\<close>

definition password_edit :: "'w platform \<Rightarrow> bytes \<Rightarrow> 'w auth \<Rightarrow> auth_account_record_t \<Rightarrow> auth_account_record_t" where
  "password_edit P p s a = (let salt = fst (auth_generate_salt P s) in
     a\<lparr>ar_salt := salt, ar_hash := auth_hash_password P s p salt,
       ar_flags := ar_flags a AND NOT AUTH_ACCOUNT_FLAG_BOOTSTRAP\<rparr>)"

lemma set_password_config: "auth_config (set_password P i p s) = edit_account i (password_edit P p s) (auth_config s)"
  by (simp add: set_password_def case_prod_beta edit_account_def password_edit_def auth_hash_password_def Let_def)

lemma password_edit_simps [simp]:
  "ar_in_use (password_edit P p s a) = ar_in_use a" "ar_username (password_edit P p s a) = ar_username a"
  "ar_enabled (password_edit P p s a) = ar_enabled a" "ar_role (password_edit P p s a) = ar_role a"
  by (simp_all add: password_edit_def Let_def)

lemma password_edit_ok: "entropy_law P \<Longrightarrow> account_ok a \<Longrightarrow> account_ok (password_edit P p s a)"
  by (simp add: account_ok_def password_edit_def Let_def salt_length hash_length)

text \<open>The session index that both account operations use is that of an administrator.\<close>

lemma admin_index_admin:
  assumes "auth_ok s" "admin_index k s"
  shows "nat k < AUTH_MAX_ACCOUNTS \<and> admin_account (ac_accounts (auth_config s) ! nat k)"
  using assms by (auto simp: admin_index_def admin_account_def)

lemma find_account_index_lt:
  "config_ok c \<Longrightarrow> auth_find_account_index name c = Some i \<Longrightarrow> i < AUTH_MAX_ACCOUNTS"
  by (auto simp: auth_find_account_index_def config_ok_def find_account_def split: if_splits dest: find_index_lt)

lemma config_ok_update_account:
  assumes law: "entropy_law P" and ok: "auth_ok s" and i: "i < AUTH_MAX_ACCOUNTS"
    and j: "j < AUTH_MAX_ACCOUNTS" "j \<noteq> i" "admin_account (ac_accounts (auth_config s) ! j)"
  shows "auth_ok (snd (update_account P i name role enabled password s))"
proof -
  let ?f = "\<lambda>a. a\<lparr>ar_enabled := (if enabled then 1 else 0), ar_role := ucast role\<rparr>"
  let ?c = "edit_account i ?f (auth_config s)" let ?s = "s\<lparr>auth_config := ?c\<rparr>"
  have c: "config_ok (auth_config s)" and len: "length (ac_accounts (auth_config s)) = AUTH_MAX_ACCOUNTS"
    using ok by (auto simp: auth_ok_def config_ok_def)
  have c': "config_ok ?c" by (rule config_ok_keep_name [OF c i j]) (simp_all add: account_ok_def)
  then have s: "auth_ok ?s" using ok by (simp add: ok_config)
  have j': "admin_account (ac_accounts ?c ! j)" using j len by simp
  have pw: "config_ok (edit_account i (password_edit P p ?s) ?c)" for p
    by (rule config_ok_keep_name [OF c' i j(1,2) j']) (simp_all add: password_edit_ok [OF law])
  have "auth_ok (set_password P i p ?s)" for p
    using s pw [of p] by (simp add: auth_ok_def set_password_config)
  then have "auth_ok (auth_invalidate_sessions_for_account i (set_password P i p ?s))" for p by (rule ok_invalidate)
  with s show ?thesis using c
    by (auto simp: update_account_def Let_def intro: ok_save_or_restore split: option.split)
qed

lemma ok_create_account:
  assumes law: "entropy_law P" and ok: "auth_ok s" and admin: "has_admin (auth_config s)"
    and name: "auth_username_normalize u (AUTH_USERNAME_LEN + 1) True = Some name"
    and new: "auth_find_account_index name (auth_config s) = None"
  shows "auth_ok (snd (create_account P name role enabled password s))"
proof (cases "auth_password_is_strong password \<and> auth_find_free_account_index (auth_config s) \<noteq> None")
  case False
  then show ?thesis using ok by (auto simp: create_account_def)
next
  case True
  then obtain i where i: "auth_find_free_account_index (auth_config s) = Some i" by auto
  let ?xs = "ac_accounts (auth_config s)" let ?salt = "fst (auth_generate_salt P s)" let ?s = "snd (auth_generate_salt P s)"
  let ?f = "\<lambda>a. (auth_account_clear a)\<lparr>ar_in_use := 1, ar_enabled := (if enabled then 1 else 0),
     ar_role := ucast role, ar_username := c_snprintf (AUTH_USERNAME_LEN + 1) name,
     ar_salt := ?salt, ar_hash := auth_hash_password P ?s (the password) ?salt\<rparr>"
  have c: "config_ok (auth_config s)" using ok by (simp add: auth_ok_def)
  then have len: "length ?xs = AUTH_MAX_ACCOUNTS"
    and d: "keys_distinct auth_account_in_use (\<lambda>a. c_str (ar_username a)) ?xs" by (auto simp: config_ok_def)
  have free: "i < AUTH_MAX_ACCOUNTS" "\<not> auth_account_in_use (?xs ! i)"
    using i accounts.alloc_Some [of ?xs i] len by (auto simp: auth_find_free_account_index_def)
  have seek: "find_account name ?xs = None"
    using new normalized_name(1) [OF name] by (simp add: auth_find_account_index_def split: if_splits)
  then have slot: "slot find_account find_free_account name ?xs = Some i"
    using i by (simp add: slot_def auth_find_free_account_index_def)
  have key: "c_str (ar_username (?f a)) = name" for a using c_str_stored_name [OF name] by simp
  have dist: "keys_distinct auth_account_in_use (\<lambda>a. c_str (ar_username a)) (?xs[i := ?f (?xs ! i)])"
    by (rule accounts.store_distinct [OF d slot]) (simp_all only: key)
  obtain j where j: "j < length ?xs" "admin_account (?xs ! j)" using admin by (auto simp: has_admin_def list_ex_length)
  then have "j \<noteq> i" using free by (auto simp: admin_account_def auth_account_enabled_def)
  with j have "has_admin (edit_account i ?f (auth_config s))" by (intro admin_survives_edit)
  moreover have "ac_configured (auth_config s) \<noteq> 0"
    using c admin has_admin_has_any by (auto simp: config_ok_def split: if_splits)
  moreover have "account_ok (?f a)" for a
    by (simp add: account_ok_def salt_length [OF law] hash_length [OF law] auth_sizes)
  ultimately have "config_ok ((edit_account i ?f (auth_config s))\<lparr>ac_configured := ac_configured (auth_config s)\<rparr>)"
    using c free(1) dist by (intro config_ok_edit)
  then have "config_ok (edit_account i ?f (auth_config s))" by (simp add: edit_account_def)
  then have "auth_ok (?s\<lparr>auth_config := edit_account i ?f (auth_config s)\<rparr>)"
    using ok by (simp add: auth_ok_def)
  then have "auth_ok (snd (save_or_restore P (auth_config s) name d (?s\<lparr>auth_config := edit_account i ?f (auth_config s)\<rparr>)))" for d
    using c by (rule ok_save_or_restore)
  then show ?thesis using True i by (simp add: create_account_def case_prod_beta)
qed

text \<open>A session token is 64 hexadecimal digits.\<close>

lemma token_digit_in: "token_digit (x AND 0x0F) \<in> set (str_bytes ''0123456789abcdef'')"
proof -
  have "x AND 0x0F \<le> 0x0F" by (rule word_and_le1)
  then have "unat (x AND 0x0F) < 16" by (simp add: word_le_nat_alt)
  then have "unat (x AND 0x0F) < length (str_bytes ''0123456789abcdef'')" by (simp add: str_bytes_def)
  then show ?thesis unfolding token_digit_def by (rule nth_mem)
qed

lemma token_hex:
  assumes "entropy_law P"
  shows "length (c_str (fst (auth_generate_token P s))) = AUTH_SESSION_TOKEN_LEN"
    and "set (c_str (fst (auth_generate_token P s))) \<subseteq> set (str_bytes ''0123456789abcdef'')"
proof -
  let ?raw = "fst (esp_fill_random P (AUTH_SESSION_TOKEN_LEN div 2) (auth_world s))"
  let ?digits = "concat (map (\<lambda>r. [token_digit (drop_bit 4 r AND 0x0F), token_digit (r AND 0x0F)]) ?raw)"
  have sub: "set ?digits \<subseteq> set (str_bytes ''0123456789abcdef'')" using token_digit_in by auto
  have "0 \<notin> set (str_bytes ''0123456789abcdef'')" by (simp add: str_bytes_def)
  with sub have "\<forall>b \<in> set ?digits. b \<noteq> 0" by blast
  then have c: "c_str (fst (auth_generate_token P s)) = ?digits"
    by (simp add: auth_generate_token_def case_prod_beta c_str_snoc c_str_id)
  have "length (concat (map (\<lambda>r. [token_digit (drop_bit 4 r AND 0x0F), token_digit (r AND 0x0F)]) raw)) = 2 * length raw" for raw
    by (induction raw) simp_all
  then have "length ?digits = AUTH_SESSION_TOKEN_LEN" using assms by (simp add: entropy_law_def auth_sizes)
  with c sub show "length (c_str (fst (auth_generate_token P s))) = AUTH_SESSION_TOKEN_LEN"
    "set (c_str (fst (auth_generate_token P s))) \<subseteq> set (str_bytes ''0123456789abcdef'')" by simp_all
qed

definition auth_keeps :: "'w auth \<Rightarrow> 'w auth \<Rightarrow> bool" where
  "auth_keeps s s' \<longleftrightarrow> (auth_ok s \<longrightarrow> auth_ok s' \<and>
     (ac_configured (auth_config s) \<noteq> 0 \<longrightarrow> ac_configured (auth_config s') \<noteq> 0))"

lemma auth_keepsI:
  assumes "auth_ok s \<Longrightarrow> auth_ok s'"
    and "auth_ok s \<Longrightarrow> ac_configured (auth_config s) \<noteq> 0 \<Longrightarrow> ac_configured (auth_config s') \<noteq> 0"
  shows "auth_keeps s s'"
  using assms by (auto simp: auth_keeps_def)

lemma auth_keeps_refl [simp]: "auth_keeps s s"
  by (simp add: auth_keeps_def)

lemma auth_keeps_trans: "auth_keeps s s' \<Longrightarrow> auth_keeps s' s'' \<Longrightarrow> auth_keeps s s''"
  by (auto simp: auth_keeps_def)

lemma keeps_init: "auth_keeps s (auth_init P s)"
  by (rule auth_keepsI) (simp_all add: auth_ok_def)

lemma keeps_same_config:
  assumes "auth_ok s \<Longrightarrow> auth_ok s'" "auth_config s' = auth_config s"
  shows "auth_keeps s s'"
  using assms by (auto simp: auth_keeps_def)

lemma keeps_prune: "auth_keeps s (auth_prune_expired_sessions P s)"
  by (rule keeps_same_config) (simp_all add: ok_prune)

lemma keeps_audit: "auth_keeps s s' \<Longrightarrow> auth_keeps s (auth_audit_log P a d s')"
  by (simp add: auth_keeps_def)

lemma keeps_world: "auth_keeps s (s\<lparr>auth_world := w\<rparr>)"
  by (simp add: auth_keeps_def auth_ok_def)

lemma configured_save_or_restore [simp]:
  "ac_configured previous_config = ac_configured (auth_config s) \<Longrightarrow>
   ac_configured (auth_config (snd (save_or_restore P previous_config name detail s))) = ac_configured (auth_config s)"
  by (simp add: save_or_restore_def case_prod_beta)

lemma configured_update [simp]:
  "ac_configured (auth_config (snd (update_account P i name role enabled password s))) = ac_configured (auth_config s)"
  by (simp add: update_account_def Let_def set_password_config split: option.split)

lemma configured_create [simp]:
  "ac_configured (auth_config (snd (create_account P name role enabled password s))) = ac_configured (auth_config s)"
  by (simp add: create_account_def case_prod_beta split: option.split)

lemma keeps_save_account:
  assumes "entropy_law P"
  shows "auth_keeps s (snd (auth_save_account P token u role enabled password s))"
proof -
  let ?s = "auth_prune_expired_sessions P (auth_init P s)"
  let ?k = "fst (auth_session_account_index_from_token P token (auth_init P s))"
  have pre: "auth_keeps s ?s" by (rule auth_keeps_trans [OF keeps_init keeps_prune])
  have post: "auth_keeps ?s (snd (update_account P i name role enabled password ?s))"
    if "admin_index ?k ?s" "auth_find_account_index name (auth_config ?s) = Some i" "int i \<noteq> ?k" for name i
    using that find_account_index_lt [of "auth_config ?s" name i] admin_index_admin [of ?s ?k]
    by (intro auth_keepsI config_ok_update_account [OF assms, of _ _ "nat ?k"]) (auto simp: auth_ok_def admin_index_def)
  have create: "auth_keeps ?s (snd (create_account P name role enabled password ?s))"
    if "admin_index ?k ?s" "auth_username_normalize u (AUTH_USERNAME_LEN + 1) True = Some name"
      "auth_find_account_index name (auth_config ?s) = None" for name
  proof (rule auth_keepsI)
    assume ok: "auth_ok ?s"
    then have "length (ac_accounts (auth_config ?s)) = AUTH_MAX_ACCOUNTS" by (simp add: auth_ok_def config_ok_def)
    then have "has_admin (auth_config ?s)"
      using admin_index_admin [OF ok that(1)] by (auto simp: has_admin_def list_ex_length)
    then show "auth_ok (snd (create_account P name role enabled password ?s))"
      by (rule ok_create_account [OF assms ok _ that(2,3)])
  qed simp
  show ?thesis
    unfolding auth_save_account_def Let_def case_prod_beta account_from_token_state
    using pre auth_keeps_trans [OF pre post] auth_keeps_trans [OF pre create] keeps_init [of s P]
    by (auto split: option.split)
qed

lemma keeps_save_or_roll_back:
  assumes "auth_keeps s t" "auth_ok s \<Longrightarrow> config_ok previous_config"
    "auth_ok s \<Longrightarrow> ac_configured (auth_config s) \<noteq> 0 \<Longrightarrow> ac_configured previous_config \<noteq> 0"
  shows "auth_keeps s ((snd (auth_save_config P t))\<lparr>auth_config := previous_config\<rparr>)"
  using assms by (auto simp: auth_keeps_def auth_ok_def)

lemma keeps_saved: "auth_keeps s t \<Longrightarrow> auth_keeps s (snd (auth_save_config P t))"
  by (simp add: auth_keeps_def)

lemma keeps_delete_account: "auth_keeps s (snd (auth_delete_account P token u s))"
proof -
  let ?s = "auth_prune_expired_sessions P (auth_init P s)"
  let ?k = "fst (auth_session_account_index_from_token P token (auth_init P s))"
  let ?t = "\<lambda>i. auth_invalidate_sessions_for_account i (?s\<lparr>auth_config := edit_account i auth_account_clear (auth_config ?s)\<rparr>)"
  have pre: "auth_keeps s ?s" by (rule auth_keeps_trans [OF keeps_init keeps_prune])
  have post: "auth_keeps ?s (?t i)"
    if "admin_index ?k ?s" "auth_find_account_index name (auth_config ?s) = Some i" "int i \<noteq> ?k" for name i
  proof (rule auth_keepsI)
    assume ok: "auth_ok ?s"
    let ?c = "auth_config ?s"
    have c: "config_ok ?c" and len: "length (ac_accounts ?c) = AUTH_MAX_ACCOUNTS"
      using ok by (auto simp: auth_ok_def config_ok_def)
    have i: "i < AUTH_MAX_ACCOUNTS" by (rule find_account_index_lt [OF c that(2)])
    have "nat ?k \<noteq> i" using that(1,3) by (auto simp: admin_index_def)
    then have "has_admin (edit_account i auth_account_clear ?c)"
      using admin_survives_edit [of "nat ?k" ?c i] admin_index_admin [OF ok that(1)] len by simp
    moreover have "keys_distinct auth_account_in_use (\<lambda>a. c_str (ar_username a)) ((ac_accounts ?c)[i := auth_account_clear (ac_accounts ?c ! i)])"
      using c i by (intro keys_distinct_update) (auto simp: config_ok_def auth_account_clear_def)
    moreover have "has_admin ?c" using admin_index_admin [OF ok that(1)] len by (auto simp: has_admin_def list_ex_length)
    then have "ac_configured ?c \<noteq> 0" using c has_admin_has_any by (auto simp: config_ok_def split: if_splits)
    ultimately have "config_ok ((edit_account i auth_account_clear ?c)\<lparr>ac_configured := ac_configured ?c\<rparr>)"
      using c i by (intro config_ok_edit) (auto simp: auth_account_clear_def)
    then have "config_ok (edit_account i auth_account_clear ?c)" by (simp add: edit_account_def)
    then show "auth_ok (?t i)" using ok by (intro ok_invalidate ok_config)
  qed simp
  have saved: "auth_keeps s (snd (auth_save_config P (?t i)))" "auth_keeps s ((snd (auth_save_config P (?t i)))\<lparr>auth_config := auth_config ?s\<rparr>)"
    if "admin_index ?k ?s" "auth_find_account_index name (auth_config ?s) = Some i" "int i \<noteq> ?k" for name i
    using pre auth_keeps_trans [OF pre post [OF that]]
    by (auto intro!: keeps_saved keeps_save_or_roll_back simp del: prune_keeps simp: auth_keeps_def auth_ok_def)
  show ?thesis
    unfolding auth_delete_account_def Let_def case_prod_beta account_from_token_state
    using pre saved keeps_init [of s P] by (auto simp del: prune_keeps split: option.split intro: keeps_audit)
qed

lemma keeps_session_update:
  assumes "auth_keeps s t" "session_ok e"
  shows "auth_keeps s (t\<lparr>auth_sessions := (auth_sessions t)[i := e]\<rparr>)"
  using assms by (auto simp: auth_keeps_def auth_ok_def intro: list_all_update)

text \<open>A new password on an enabled account.\<close>

lemma keeps_set_password:
  assumes "entropy_law P" "auth_account_enabled (ac_accounts (auth_config s) ! i)" "i < AUTH_MAX_ACCOUNTS"
  shows "auth_keeps s ((set_password P i p s)\<lparr>auth_config := (auth_config (set_password P i p s))\<lparr>ac_configured := 1\<rparr>\<rparr>)"
proof (rule auth_keepsI)
  assume ok: "auth_ok s"
  let ?c = "auth_config s" let ?f = "password_edit P p s"
  have c: "config_ok ?c" and len: "length (ac_accounts ?c) = AUTH_MAX_ACCOUNTS"
    using ok by (auto simp: auth_ok_def config_ok_def)
  have "auth_has_any_account ?c"
    using assms(2,3) len by (auto simp: auth_has_any_account_def list_ex_length auth_account_enabled_def)
  then have "has_admin ?c" using c by (auto simp: config_ok_def split: if_splits)
  then obtain j where j: "j < length (ac_accounts ?c)" "admin_account (ac_accounts ?c ! j)"
    by (auto simp: has_admin_def list_ex_length)
  then have "admin_account ((ac_accounts ?c)[i := ?f (ac_accounts ?c ! i)] ! j)"
    by (cases "j = i") (auto simp: admin_account_def auth_account_enabled_def auth_account_in_use_def)
  with j have "has_admin (edit_account i ?f ?c)" by (auto simp: has_admin_def list_ex_length intro!: exI [of _ j])
  moreover have "account_ok (?f (ac_accounts ?c ! i))"
    using c assms(3) by (intro password_edit_ok [OF assms(1)]) (auto simp: config_ok_def list_all_length)
  ultimately have "config_ok ((edit_account i ?f ?c)\<lparr>ac_configured := 1\<rparr>)"
    using c assms(3) len by (intro config_ok_edit distinct_edit_same_name) (auto simp: config_ok_def)
  then show "auth_ok ((set_password P i p s)\<lparr>auth_config := (auth_config (set_password P i p s))\<lparr>ac_configured := 1\<rparr>\<rparr>)"
    using ok by (simp add: auth_ok_def set_password_config)
qed simp

lemma find_index_session_lt:
  "fst (auth_find_session_index P token s) = Some i \<Longrightarrow> i < length (auth_sessions s)"
  by (auto simp: auth_find_session_index_def Let_def split: option.splits if_splits dest!: find_index_lt)

lemma keeps_change_password:
  assumes "entropy_law P"
  shows "auth_keeps s (snd (auth_change_password P token current new s))"
proof (cases "fst (auth_find_session_index P token (auth_init P s))")
  case None
  then show ?thesis
    by (simp add: auth_change_password_def case_prod_beta auth_keeps_trans [OF keeps_init keeps_prune] del: prune_keeps)
next
  case (Some n)
  let ?s = "auth_prune_expired_sessions P (auth_init P s)"
  let ?k = "se_account_index (auth_sessions ?s ! n)" let ?i = "nat ?k" let ?a = "ac_accounts (auth_config ?s) ! ?i"
  let ?t = "(set_password P ?i (the new) ?s)\<lparr>auth_config := (auth_config (set_password P ?i (the new) ?s))\<lparr>ac_configured := 1\<rparr>\<rparr>"
  let ?u = "snd (auth_save_config P ?t)" let ?v = "snd (auth_now_ms P ?u)"
  let ?w = "?v\<lparr>auth_sessions := (auth_sessions ?v)[n := (auth_sessions ?v ! n)
     \<lparr>se_expires_at_ms := fst (auth_now_ms P ?u) + ucast (auth_session_timeout_seconds_value ?v) * 1000\<rparr>]\<rparr>"
  have pre: "auth_keeps s ?s" by (rule auth_keeps_trans [OF keeps_init keeps_prune])
  have t: "auth_keeps s ?t" if "\<not> (?k < 0 \<or> int AUTH_MAX_ACCOUNTS \<le> ?k)" "auth_account_enabled ?a"
    using that by (intro auth_keeps_trans [OF pre keeps_set_password] assms) auto
  have roll: "auth_keeps s ((snd (auth_save_config P ?t))\<lparr>auth_config := auth_config ?s\<rparr>)"
    if "\<not> (?k < 0 \<or> int AUTH_MAX_ACCOUNTS \<le> ?k)" "auth_account_enabled ?a"
    using pre by (intro keeps_save_or_roll_back t that) (auto simp: auth_keeps_def auth_ok_def simp del: prune_keeps)
  have w: "auth_keeps s ?w" if en: "\<not> (?k < 0 \<or> int AUTH_MAX_ACCOUNTS \<le> ?k)" "auth_account_enabled ?a"
  proof -
    have v: "auth_keeps s ?v" using t [OF en] by (auto simp: auth_keeps_def auth_ok_def)
    have n: "n < length (auth_sessions s)" if "auth_ok s"
      using find_index_session_lt [OF Some] that by (simp add: auth_ok_def)
    show ?thesis
    proof (rule auth_keepsI)
      assume ok: "auth_ok s"
      then have "auth_ok ?v" using v by (simp add: auth_keeps_def)
      moreover have "n < length (auth_sessions ?v)" using n [OF ok] ok by (simp add: auth_ok_def)
      ultimately have "session_ok (auth_sessions ?v ! n)" by (auto simp: auth_ok_def list_all_length)
      with \<open>auth_ok ?v\<close> show "auth_ok ?w" by (auto simp: auth_ok_def session_ok_def intro!: list_all_update)
    qed (use v in \<open>auto simp: auth_keeps_def\<close>)
  qed
  show ?thesis
    unfolding auth_change_password_def case_prod_beta find_session_state Some Let_def option.case
    using pre t roll w by (auto intro!: keeps_audit simp del: prune_keeps now_keeps save_keeps set_password_keeps)
qed

text \<open>The first administrator: the table was empty, so the new record has a free name.\<close>

lemma ok_first_admin:
  assumes law: "entropy_law P" and ok: "auth_ok s" and bo: "auth_bootstrap_open_state s"
    and name: "auth_username_normalize u (AUTH_USERNAME_LEN + 1) True = Some name"
  shows "config_ok ((edit_account 0 (\<lambda>a. (auth_account_clear a)\<lparr>ar_in_use := 1, ar_enabled := 1,
     ar_role := ucast AUTH_ROLE_ADMIN, ar_flags := 0, ar_username := c_snprintf (AUTH_USERNAME_LEN + 1) name,
     ar_salt := fst (auth_generate_salt P s), ar_hash := auth_hash_password P t p (fst (auth_generate_salt P s))\<rparr>)
     (auth_config s))\<lparr>ac_configured := 1\<rparr>)" (is "config_ok ((edit_account 0 ?f ?c)\<lparr>ac_configured := 1\<rparr>)")
proof -
  have c: "config_ok ?c" and len: "length (ac_accounts ?c) = AUTH_MAX_ACCOUNTS"
    using ok by (auto simp: auth_ok_def config_ok_def)
  have key: "c_str (ar_username (?f a)) = name" for a using c_str_stored_name [OF name] by simp
  then have "auth_account_in_use (?f a)" for a
    using normalized_name(1) [OF name] unfolding auth_account_in_use_def by simp
  then have "admin_account (?f a)" for a by (simp add: admin_account_def auth_account_enabled_def)
  then have "has_admin (edit_account 0 ?f ?c)"
    using len by (auto simp: has_admin_def list_ex_length auth_sizes intro!: exI [of _ 0])
  moreover have "account_ok (?f a)" for a
    by (simp add: account_ok_def salt_length [OF law] hash_length [OF law] auth_sizes)
  moreover have "keys_distinct auth_account_in_use (\<lambda>a. c_str (ar_username a)) ((ac_accounts ?c)[0 := ?f (ac_accounts ?c ! 0)])"
    using c bo len by (intro keys_distinct_update)
      (auto simp: config_ok_def auth_sizes auth_bootstrap_open_state_def auth_has_any_account_def list_ex_length)
  ultimately show ?thesis using c by (intro config_ok_edit) (auto simp: auth_sizes)
qed

lemma keeps_create_session:
  assumes "entropy_law P" "0 \<le> k" "k < int AUTH_MAX_ACCOUNTS"
  shows "auth_keeps s (snd (auth_create_session_for_account P k out s))"
proof -
  let ?s = "auth_prune_expired_sessions P (snd (auth_now_ms P s))"
  have pre: "auth_keeps s ?s"
    by (rule auth_keeps_trans [OF keeps_same_config keeps_prune]) (auto simp: auth_ok_def)
  have "auth_keeps s (snd (auth_generate_token P ?s))"
    using pre by (auto simp: auth_keeps_def auth_ok_def simp del: prune_keeps)
  then have "auth_keeps s ((snd (auth_generate_token P ?s))\<lparr>auth_sessions := (auth_sessions (snd (auth_generate_token P ?s)))[i :=
      \<lparr>se_active = True, se_token = fst (auth_generate_token P ?s), se_expires_at_ms = x, se_issued_at_ms = y,
       se_account_index = k\<rparr>]\<rparr>)" for i x y
    using assms by (intro keeps_session_update) (simp_all add: session_ok_def token_hex(1) [OF assms(1)])
  with pre show ?thesis
    by (simp add: auth_create_session_for_account_def case_prod_beta Let_def del: prune_keeps token_keeps split: option.split)
qed

lemma keeps_login_success: "auth_keeps s (auth_record_login_success P u b s)"
proof -
  have "auth_keeps s (s\<lparr>auth_failed_attempts := 0, auth_block_until_ms := 0\<rparr>)" by (simp add: auth_keeps_def auth_ok_def)
  then show ?thesis unfolding auth_record_login_success_def Let_def by (rule keeps_audit)
qed

lemma keeps_bootstrap:
  assumes "entropy_law P"
  shows "auth_keeps s (snd (snd (snd (auth_bootstrap_create_first_admin P u p out s))))"
proof (cases "auth_bootstrap_open_state (auth_init P s) \<and> auth_password_is_strong p \<and>
    auth_username_normalize u (AUTH_USERNAME_LEN + 1) True \<noteq> None")
  case False
  then show ?thesis
    using keeps_init [of s P] by (auto simp: auth_bootstrap_create_first_admin_def Let_def split: option.splits)
next
  case True
  then obtain name where name: "auth_username_normalize u (AUTH_USERNAME_LEN + 1) True = Some name" by auto
  let ?s = "auth_init P s" let ?salt = "fst (auth_generate_salt P ?s)" let ?g = "snd (auth_generate_salt P ?s)"
  let ?c = "(edit_account 0 (\<lambda>a. (auth_account_clear a)\<lparr>ar_in_use := 1, ar_enabled := 1,
     ar_role := ucast AUTH_ROLE_ADMIN, ar_flags := 0, ar_username := c_snprintf (AUTH_USERNAME_LEN + 1) name,
     ar_salt := ?salt, ar_hash := auth_hash_password P ?g (the p) ?salt\<rparr>) (auth_config ?g))\<lparr>ac_configured := 1\<rparr>"
  let ?t = "?g\<lparr>auth_config := ?c\<rparr>" let ?u = "snd (auth_save_config P ?t)"
  have t: "auth_keeps s ?t"
  proof (rule auth_keepsI)
    assume ok: "auth_ok s"
    then have i: "auth_init P s = s" by (simp add: auth_ok_def)
    have "auth_bootstrap_open_state s" using True i by simp
    then have "config_ok ?c" using ok_first_admin [OF assms ok _ name] by (simp only: i salt_keeps)
    then show "auth_ok ?t" using ok i by (simp add: auth_ok_def)
  qed simp
  have u: "auth_keeps s ?u" by (rule keeps_saved [OF t])
  have roll: "auth_keeps s (?u\<lparr>auth_config := auth_config ?s\<rparr>)"
    by (rule keeps_save_or_roll_back [OF t]) (simp_all add: auth_ok_def)
  let ?n = "snd (auth_create_session_for_account P 0 out ?u)"
  have session: "auth_keeps s ?n"
    by (rule auth_keeps_trans [OF u keeps_create_session]) (simp_all add: assms auth_sizes)
  have done1: "auth_keeps s (auth_init P ?n)" by (rule auth_keeps_trans [OF session keeps_init])
  have done2: "auth_keeps s (auth_init P (auth_audit_log P a d (auth_record_login_success P x b ?n)))" for a d x b
    by (rule auth_keeps_trans [OF keeps_audit keeps_init]) (rule auth_keeps_trans [OF session keeps_login_success])
  show ?thesis
    unfolding auth_bootstrap_create_first_admin_def Let_def case_prod_beta auth_get_status_def name option.case
    using True keeps_audit [OF roll] done1 done2
    by (auto simp del: init_idle salt_keeps save_keeps edit_simps split: option.split)
qed

section \<open>Reachable states\<close>

text \<open>
  Every operation of the interface with any arguments, and any change of the world between two calls
  (the other components and the passing of time).
\<close>

inductive auth_step :: "'w platform \<Rightarrow> 'w auth \<Rightarrow> 'w auth \<Rightarrow> bool" for P where
  world: "auth_step P s (s\<lparr>auth_world := w\<rparr>)"
| init: "auth_step P s (auth_init P s)"
| login: "auth_login P u p out s = (r, token, status, s') \<Longrightarrow> auth_step P s s'"
| validate: "auth_validate_session P t s = (r, status, s') \<Longrightarrow> auth_step P s s'"
| status: "auth_get_status P t s = (status, s') \<Longrightarrow> auth_step P s s'"
| destroy: "auth_step P s (auth_destroy_session P t s)"
| bootstrap: "auth_bootstrap_create_first_admin P u p out s = (r, token, status, s') \<Longrightarrow> auth_step P s s'"
| change: "auth_change_password P t cur new s = (r, s') \<Longrightarrow> auth_step P s s'"
| save: "auth_save_account P t u role enabled p s = (r, s') \<Longrightarrow> auth_step P s s'"
| delete: "auth_delete_account P t u s = (r, s') \<Longrightarrow> auth_step P s s'"
| list: "auth_list_accounts P n s = (infos, s') \<Longrightarrow> auth_step P s s'"
| export: "auth_export_audit P n s = (entries, s') \<Longrightarrow> auth_step P s s'"
| log: "auth_step P s (auth_audit_log P a d s)"
| limit: "auth_rate_limit_check P s = (r, secs, s') \<Longrightarrow> auth_step P s s'"

lemma keeps_now: "auth_keeps s (snd (auth_now_ms P s))"
  by (simp add: auth_keeps_def auth_ok_def)

lemma keeps_destroy: "auth_keeps s (auth_destroy_session P t s)"
proof -
  have "auth_keeps s (auth_prune_expired_sessions P (auth_init P s))" by (rule auth_keeps_trans [OF keeps_init keeps_prune])
  moreover have "auth_keeps s (auth_reset_sessions (auth_init P s))"
    using keeps_init [of s P] by (auto simp: auth_keeps_def auth_ok_def auth_reset_sessions_def list_all_iff)
  ultimately show ?thesis
    by (auto simp: auth_destroy_session_def Let_def case_prod_beta simp del: prune_keeps intro: keeps_session_update split: option.split)
qed

lemma step_keeps:
  assumes "entropy_law P" "auth_step P s s'"
  shows "auth_keeps s s'"
  using assms(2)
proof cases
  case (bootstrap u p out r token status)
  then show ?thesis using keeps_bootstrap [OF assms(1), of s u p out] by simp
next
  case (change t cur new r)
  then show ?thesis using keeps_change_password [OF assms(1), of s t cur new] by simp
next
  case (save t u role enabled p r)
  then show ?thesis using keeps_save_account [OF assms(1), of s t u role enabled p] by simp
next
  case (delete t u r)
  then show ?thesis using keeps_delete_account [of s P t u] by simp
next
  case (list n infos)
  then show ?thesis using auth_keeps_trans [OF keeps_init keeps_prune, of s P P]
    by (auto simp: auth_list_accounts_def Let_def)
next
  case (limit r secs)
  then show ?thesis using auth_keeps_trans [OF keeps_now keeps_init, of s P P]
    by (auto simp: auth_rate_limit_check_def Let_def case_prod_beta split: if_splits)
qed (auto simp: auth_login_def auth_validate_session_def auth_get_status_def auth_export_audit_def Let_def
      intro: keeps_init keeps_world keeps_destroy keeps_audit)

lemma run_keeps:
  assumes "entropy_law P" "(auth_step P)\<^sup>*\<^sup>* s s'"
  shows "auth_keeps s s'"
  using assms(2) by (induction) (auto intro: auth_keeps_trans step_keeps [OF assms(1)])

lemma configured_iff_admin: "config_ok c \<Longrightarrow> ac_configured c \<noteq> 0 \<longleftrightarrow> has_admin c"
  using has_admin_has_any by (auto simp: config_ok_def split: if_splits)

section \<open>Persistence\<close>

lemma length_account_bytes: "account_ok a \<Longrightarrow> length (account_bytes a) = 77"
  by (simp add: account_ok_def account_bytes_def)

lemma account_of_bytes: "account_ok a \<Longrightarrow> account_of (account_bytes a) = a"
  by (simp add: account_ok_def account_bytes_def account_of_def)

lemma length_config_bytes: "config_ok c \<Longrightarrow> length (auth_config_bytes c) = sizeof_auth_config_blob_t"
  using length_concat_same [of "map account_bytes (ac_accounts c)" 77]
  by (simp add: config_ok_def list_all_iff length_account_bytes auth_config_bytes_def sizeof_auth_config_blob_t_def auth_sizes)

lemma config_of_bytes:
  assumes "config_ok c"
  shows "auth_config_of (auth_config_bytes c) = c"
proof -
  have len: "length (ac_accounts c) = AUTH_MAX_ACCOUNTS" and rest: "length (ac_reserved c) = 3"
    and acc: "\<forall>a \<in> set (ac_accounts c). account_ok a"
    using assms by (auto simp: config_ok_def list_all_iff)
  have split: "drop (8 + 77 * i) (auth_config_bytes c) =
      drop (77 * i) (concat (map account_bytes (ac_accounts c)) @ [0, 0])" for i
  proof -
    have "drop 8 (auth_config_bytes c) = concat (map account_bytes (ac_accounts c)) @ [0, 0]"
      using rest by (simp add: auth_config_bytes_def)
    then show ?thesis by (metis drop_drop add.commute)
  qed
  have "account_of (take 77 (drop (8 + 77 * i) (auth_config_bytes c))) = ac_accounts c ! i" if "i < AUTH_MAX_ACCOUNTS" for i
    using take_drop_concat [of "map account_bytes (ac_accounts c)" 77 i "[0, 0]"] acc that len
    by (simp add: split length_account_bytes account_of_bytes)
  then have "map (\<lambda>i. account_of (take 77 (drop (8 + 77 * i) (auth_config_bytes c)))) [0..<AUTH_MAX_ACCOUNTS] = ac_accounts c"
    using len by (intro nth_equalityI) simp_all
  then show ?thesis using rest by (simp add: auth_config_of_def auth_config_bytes_def nth_append)
qed

text \<open>The storage has the current configuration.\<close>

definition stored :: "'w platform \<Rightarrow> 'w auth \<Rightarrow> bool" where
  "stored P s \<longleftrightarrow> nvs_holds P AUTH_NAMESPACE AUTH_CONFIG_KEY (auth_config_bytes (auth_config s)) (auth_world s)"

lemma stored_save: "nvs_durable P \<Longrightarrow> fst (auth_save_config P s) \<Longrightarrow> stored P (snd (auth_save_config P s))"
  using nvs_store_holds [of P AUTH_NAMESPACE AUTH_CONFIG_KEY]
  by (auto simp: stored_def auth_save_config_def case_prod_beta prod_eq_iff)

lemma stored_now: "nvs_undisturbed P \<Longrightarrow> stored P s \<Longrightarrow> stored P (snd (auth_now_ms P s))"
  by (simp add: stored_def auth_now_ms_def case_prod_beta nvs_undisturbed_def)

lemma stored_fields [simp]:
  "stored P (s\<lparr>auth_sessions := x\<rparr>) = stored P s" "stored P (s\<lparr>auth_audit_ring := r, auth_audit_index := k\<rparr>) = stored P s"
  "stored P (s\<lparr>auth_failed_attempts := f, auth_block_until_ms := b\<rparr>) = stored P s"
  by (simp_all add: stored_def)

lemma stored_audit: "nvs_undisturbed P \<Longrightarrow> stored P s \<Longrightarrow> stored P (auth_audit_log P a d s)"
  by (simp add: auth_audit_log_def case_prod_beta stored_now)

lemma stored_prune: "nvs_undisturbed P \<Longrightarrow> stored P s \<Longrightarrow> stored P (auth_prune_expired_sessions P s)"
  by (simp add: auth_prune_expired_sessions_def case_prod_beta stored_now)

lemma stored_token: "nvs_undisturbed P \<Longrightarrow> stored P s \<Longrightarrow> stored P (snd (auth_generate_token P s))"
  by (simp add: stored_def auth_generate_token_def case_prod_beta nvs_undisturbed_def)

lemma stored_save_or_restore:
  assumes "nvs_durable P" "nvs_undisturbed P" "save_or_restore P c n d s = (AUTH_ACCOUNT_SAVE_OK, s')"
  shows "stored P s'"
  using assms stored_save [of P s] by (auto simp: save_or_restore_def case_prod_beta split: if_splits intro!: stored_audit)

lemma reboot_loads:
  assumes "nvs_undisturbed P" "config_ok (auth_config s)" "stored P s"
  shows "auth_config (auth_init P (auth_boot (auth_world s))) = auth_config s"
    and "auth_ok (auth_init P (auth_boot (auth_world s)))"
proof -
  let ?w = "snd (snd (esp_read_mac P (auth_world s)))" let ?bs = "auth_config_bytes (auth_config s)"
  let ?s = "(auth_reset_sessions ((auth_boot (auth_world s))\<lparr>auth_config := auth_config_zero\<rparr>))
    \<lparr>auth_device_mac := fst (snd (esp_read_mac P (auth_world s))), auth_world := ?w\<rparr>"
  have "nvs_holds P AUTH_NAMESPACE AUTH_CONFIG_KEY ?bs ?w"
    using assms(1,3) by (simp add: stored_def nvs_undisturbed_def)
  then obtain h w1 w2 w3 where nvs: "nvs_open P AUTH_NAMESPACE NVS_READONLY ?w = (ESP_OK, h, w1)"
      "nvs_blob_size P h AUTH_CONFIG_KEY w1 = (ESP_OK, length ?bs, w2)"
      "nvs_get_blob P h AUTH_CONFIG_KEY (length ?bs) w2 = (ESP_OK, ?bs, w3)"
    unfolding nvs_holds_def by blast
  let ?t = "?s\<lparr>auth_config := auth_config s, auth_world := nvs_close P h w3\<rparr>"
  have "auth_sanitize_loaded_config ?t = (False, False, ?t)"
    using assms(2) has_admin_has_any by (auto simp: auth_sanitize_loaded_config_def config_ok_def)
  then have "auth_load_config P ?s = (True, ?t)"
    using nvs assms(2) length_config_bytes [OF assms(2)] config_of_bytes [OF assms(2)]
    by (simp add: auth_load_config_def sizeof_auth_config_blob_t_def config_ok_def)
  then have i: "auth_init P (auth_boot (auth_world s)) = ?t\<lparr>auth_initialized := True\<rparr>"
    by (simp add: auth_init_def case_prod_beta auth_boot_def auth_reset_sessions_def)
  then show "auth_config (auth_init P (auth_boot (auth_world s))) = auth_config s" by simp
  show "auth_ok (auth_init P (auth_boot (auth_world s)))"
    unfolding i using assms(2) by (simp add: auth_ok_def auth_reset_sessions_def list_all_iff)
qed

section \<open>Properties\<close>

text \<open>A device with one administrator, one operator and an open session of the administrator.\<close>

definition demo_account :: "string \<Rightarrow> auth_role_t \<Rightarrow> auth_account_record_t" where
  "demo_account name role = auth_account_zero\<lparr>ar_in_use := 1, ar_enabled := 1, ar_role := ucast role,
     ar_username := c_snprintf 25 (str_bytes name)\<rparr>"

definition demo_auth :: "sim_world auth" where
  "demo_auth = (auth_boot sim_init)\<lparr>auth_initialized := True,
     auth_config := auth_config_zero\<lparr>ac_version := AUTH_CONFIG_VERSION, ac_configured := 1,
       ac_accounts := [demo_account ''admin'' AUTH_ROLE_ADMIN, demo_account ''ana'' AUTH_ROLE_OPERATOR] @
         replicate 4 auth_account_zero\<rparr>,
     auth_sessions := auth_session_zero\<lparr>se_active := True, se_token := replicate 64 97 @ [0], se_expires_at_ms := 9000\<rparr> #
       replicate 3 auth_session_zero\<rparr>"

lemma demo_account_simps [simp]:
  "ar_username (demo_account name role) = c_snprintf 25 (str_bytes name)" "ar_in_use (demo_account name role) = 1"
  "ar_enabled (demo_account name role) = 1" "ar_role (demo_account name role) = ucast role"
  "account_ok (demo_account name role)"
  by (simp_all add: demo_account_def account_ok_def auth_account_zero_def auth_sizes)

lemma demo_ok: "auth_ok demo_auth" "has_admin (auth_config demo_auth)"
proof -
  have names: "c_str (str_bytes ''admin'') = str_bytes ''admin''" "c_str (str_bytes ''ana'') = str_bytes ''ana''"
    "str_bytes ''admin'' \<noteq> []" "take 24 (str_bytes ''ana'') \<noteq> take 24 (str_bytes ''admin'')"
    by (simp_all add: str_bytes_def c_str_def)
  have admin: "admin_account (demo_account ''admin'' AUTH_ROLE_ADMIN)"
    by (simp add: admin_account_def auth_account_enabled_def auth_account_in_use_def names)
  then show has: "has_admin (auth_config demo_auth)" by (simp add: demo_auth_def has_admin_def)
  have "keys_distinct auth_account_in_use (\<lambda>a. c_str (ar_username a)) ([demo_account ''admin'' AUTH_ROLE_ADMIN,
      demo_account ''ana'' AUTH_ROLE_OPERATOR] @ replicate 4 auth_account_zero)"
    by (subst keys_distinct_free) (simp_all add: keys_distinct_Cons names)
  then have "config_ok (auth_config demo_auth)"
    using has by (simp add: demo_auth_def config_ok_def auth_config_zero_def auth_sizes AUTH_CONFIG_VERSION_def list_all_iff)
  moreover have "session_ok (auth_session_zero\<lparr>se_active := True, se_token := replicate 64 97 @ [0], se_expires_at_ms := 9000\<rparr>)"
    by (simp add: session_ok_def auth_session_zero_def auth_sizes c_str_snoc c_str_id)
  ultimately show "auth_ok demo_auth" by (simp add: auth_ok_def demo_auth_def auth_sizes list_all_iff)
qed

text \<open>
  C5: from a well-formed state, whatever sequence of operations runs with whatever arguments and
  whatever the other components do to the world between them, the account table stays well formed
  (distinct user names, fields of their size, sessions with a full token and an account of the table),
  and a device that has an enabled administrator never loses the last one.
\<close>

theorem auth_admin_never_lost:
  assumes "entropy_law P" "auth_ok s" "(auth_step P)\<^sup>*\<^sup>* s s'"
  shows "auth_ok s' \<and> (has_admin (auth_config s) \<longrightarrow> has_admin (auth_config s'))"
  using run_keeps [OF assms(1,3)] assms(2) configured_iff_admin
  by (auto simp: auth_keeps_def auth_ok_def)

theorem auth_admin_never_lost_witness:
  "has_admin (auth_config (snd (auth_delete_account sim_platform (Some (replicate 64 97)) (Some (str_bytes ''ana'')) demo_auth)))"
proof -
  let ?s = "snd (auth_delete_account sim_platform (Some (replicate 64 97)) (Some (str_bytes ''ana'')) demo_auth)"
  have "(auth_step sim_platform)\<^sup>*\<^sup>* demo_auth ?s" 
    by (rule r_into_rtranclp) (rule auth_step.delete [OF prod.collapse [symmetric]])
  from auth_admin_never_lost [OF sim_entropy demo_ok(1) this] demo_ok(2) show ?thesis by blast
qed

text \<open>The caller's token names an active session that has not expired, of an enabled administrator.\<close>

definition authorised :: "'w platform \<Rightarrow> bytes option \<Rightarrow> 'w auth \<Rightarrow> bool" where
  "authorised P token s \<longleftrightarrow> (\<exists>t. token = Some t \<and> c_str t \<noteq> [] \<and>
     (\<exists>e \<in> set (auth_sessions s). se_active e \<and> fst (auth_now_ms P s) < se_expires_at_ms e \<and>
        c_str (se_token e) = c_str t \<and> 0 \<le> se_account_index e \<and> se_account_index e < int AUTH_MAX_ACCOUNTS \<and>
        admin_account (ac_accounts (auth_config s) ! nat (se_account_index e))))"

lemma admin_index_authorised:
  assumes "admin_index (fst (auth_session_account_index_from_token P token s)) (auth_prune_expired_sessions P s)"
  shows "authorised P token s"
proof -
  let ?xs = "auth_sessions (auth_prune_expired_sessions P s)"
  obtain i where i: "fst (auth_find_session_index P token s) = Some i"
      "fst (auth_session_account_index_from_token P token s) = se_account_index (?xs ! i)"
    using assms by (auto simp: auth_session_account_index_from_token_def case_prod_beta admin_index_def split: option.splits)
  then obtain t where t: "token = Some t" "c_str t \<noteq> []" "i < length ?xs" "se_active (?xs ! i)" "c_str (se_token (?xs ! i)) = c_str t"
    by (auto simp: auth_find_session_index_def Let_def simp del: prune_keeps split: option.splits if_splits dest!: find_index_SomeD)
  then have e: "?xs ! i = auth_sessions s ! i" "i < length (auth_sessions s)" "fst (auth_now_ms P s) < se_expires_at_ms (auth_sessions s ! i)"
    by (auto split: if_splits)
  then have "auth_sessions s ! i \<in> set (auth_sessions s)" by simp
  then show ?thesis using t e assms unfolding authorised_def i(2)
    by (auto simp: admin_index_def admin_account_def simp del: prune_keeps(4) intro!: bexI [of _ "auth_sessions s ! i"])
qed

text \<open>
  C20: without a token of a live session of an enabled administrator, creating, changing and deleting
  accounts is refused and the accounts stay as they are.
\<close>

theorem auth_changes_need_admin:
  assumes "auth_initialized s" "\<not> authorised P token s"
  shows "fst (auth_save_account P token u role enabled p s) \<in>
      {AUTH_ACCOUNT_SAVE_FORBIDDEN, AUTH_ACCOUNT_SAVE_INVALID_USERNAME, AUTH_ACCOUNT_SAVE_INVALID_ROLE} \<and>
    auth_config (snd (auth_save_account P token u role enabled p s)) = auth_config s \<and>
    fst (auth_delete_account P token u s) \<in> {AUTH_ACCOUNT_DELETE_FORBIDDEN, AUTH_ACCOUNT_DELETE_NOT_FOUND} \<and>
    auth_config (snd (auth_delete_account P token u s)) = auth_config s"
proof -
  have "\<not> admin_index (fst (auth_session_account_index_from_token P token s)) (auth_prune_expired_sessions P s)"
    using admin_index_authorised assms(2) by blast
  then show ?thesis using assms(1)
    by (auto simp: auth_save_account_def auth_delete_account_def Let_def case_prod_beta split: option.split)
qed

theorem auth_changes_need_admin_witness:
  "auth_config (snd (auth_delete_account sim_platform None (Some (str_bytes ''ana'')) demo_auth)) = auth_config demo_auth"
proof -
  have "auth_initialized demo_auth" "\<not> authorised sim_platform None demo_auth" by (simp_all add: demo_auth_def authorised_def)
  from auth_changes_need_admin [OF this] show ?thesis by blast
qed

text \<open>
  The login succeeds with any user name and password, in any state, and every token, even none, is
  validated as a session of an administrator with all capabilities; after a refused creation of the first
  administrator the reported status is that of an authenticated administrator too.
\<close>

theorem auth_admits_everyone:
  "fst (auth_login P u p out s) = AUTH_LOGIN_OK \<and>
   fst (auth_validate_session P token s) \<and>
   (\<forall>st \<in> {fst (snd (snd (auth_login P u p out s))), fst (snd (auth_validate_session P token s)),
        fst (auth_get_status P token s), fst (snd (snd (auth_bootstrap_create_first_admin P u p out s)))}.
      as_authenticated st \<and> as_role st = AUTH_ROLE_ADMIN \<and>
      as_capabilities st = auth_role_capability_mask AUTH_ROLE_ADMIN)"
  by (simp add: auth_login_def auth_validate_session_def auth_get_status_def auth_fill_status_def Let_def
      auth_bootstrap_create_first_admin_def case_prod_beta split: option.split)

theorem auth_admits_everyone_witness:
  "as_role (fst (snd (auth_validate_session sim_platform None demo_auth))) = AUTH_ROLE_ADMIN"
  using auth_admits_everyone [of sim_platform None None None demo_auth None] by simp

text \<open>No session is found for a token that is not 64 characters long.\<close>

lemma no_session_for_short_token:
  assumes "auth_ok s" "length (c_str t) \<noteq> AUTH_SESSION_TOKEN_LEN"
  shows "fst (auth_find_session_index P (Some t) s) = None"
proof -
  have "\<forall>e \<in> set (auth_sessions s). se_active e \<longrightarrow> c_str (se_token e) \<noteq> c_str t"
    using assms by (auto simp: auth_ok_def list_all_iff session_ok_def)
  then show ?thesis by (auto simp: auth_find_session_index_def Let_def find_index_None)
qed

text \<open>
  The token that a login returns is never the token of a session. In every state that is reachable from
  a well-formed one, the caller who just logged in can neither change the password nor manage accounts with it.
\<close>

theorem auth_login_token_is_useless:
  assumes "entropy_law P" "auth_ok s0" "(auth_step P)\<^sup>*\<^sup>* s0 s" "auth_login P u p out s = (r, Some token, st, s')"
  shows "fst (auth_change_password P (Some token) cur new s') = AUTH_CHANGE_PASSWORD_INTERNAL_ERROR \<and>
    fst (auth_save_account P (Some token) name role enabled pw s') \<in>
      {AUTH_ACCOUNT_SAVE_FORBIDDEN, AUTH_ACCOUNT_SAVE_INVALID_USERNAME, AUTH_ACCOUNT_SAVE_INVALID_ROLE} \<and>
    fst (auth_delete_account P (Some token) name s') \<in> {AUTH_ACCOUNT_DELETE_FORBIDDEN, AUTH_ACCOUNT_DELETE_NOT_FOUND}"
proof -
  have ok: "auth_ok s" using run_keeps [OF assms(1,3)] assms(2) by (simp add: auth_keeps_def)
  then have i: "auth_initialized s" by (simp add: auth_ok_def)
  then have s': "s' = s" "length token \<le> 26"
    using assms(4) by (auto simp: auth_login_def Let_def str_bytes_def split: option.splits if_splits)
  moreover have "length (c_str token) \<le> length token" by (simp add: c_str_def length_takeWhile_le)
  ultimately have none: "fst (auth_find_session_index P (Some token) s) = None"
    using ok by (intro no_session_for_short_token) (simp_all add: auth_sizes)
  then have "\<not> admin_index (fst (auth_session_account_index_from_token P (Some token) s)) x" for x :: "'w auth"
    by (simp add: auth_session_account_index_from_token_def case_prod_beta admin_index_def)
  then show ?thesis using none i unfolding s'
    by (auto simp: auth_change_password_def auth_save_account_def auth_delete_account_def Let_def case_prod_beta split: option.split)
qed

theorem auth_login_token_is_useless_witness:
  "fst (auth_change_password sim_platform (Some (str_bytes ''master_admin_session_token'')) (Some (str_bytes ''12345678''))
     (Some (str_bytes ''abcdefgh'')) demo_auth) = AUTH_CHANGE_PASSWORD_INTERNAL_ERROR"
proof -
  have "auth_login sim_platform None None (Some 65) demo_auth =
      (AUTH_LOGIN_OK, Some (str_bytes ''master_admin_session_token''), auth_fill_status True 0 0, demo_auth)"
    by (simp add: auth_login_def demo_auth_def str_bytes_def)
  from auth_login_token_is_useless [OF sim_entropy demo_ok(1) rtranclp.rtrancl_refl this] show ?thesis by blast
qed

lemma stored_create_session:
  assumes "nvs_undisturbed P" "stored P s"
  shows "stored P (snd (auth_create_session_for_account P k out s))"
  using stored_token [OF assms(1) stored_prune [OF assms(1) stored_now [OF assms]]] stored_prune [OF assms(1) stored_now [OF assms]]
  by (simp add: auth_create_session_for_account_def case_prod_beta Let_def del: prune_keeps split: option.split)

lemma stored_change_password:
  assumes "nvs_durable P" "nvs_undisturbed P" "auth_change_password P t cur new s = (AUTH_CHANGE_PASSWORD_OK, s')"
  shows "stored P s'"
  using assms stored_save [OF assms(1)]
  by (auto simp: auth_change_password_def case_prod_beta Let_def simp del: prune_keeps split: option.splits if_splits
      intro!: stored_audit stored_now)

lemma stored_save_account:
  assumes "nvs_durable P" "nvs_undisturbed P" "auth_save_account P t u role enabled p s = (AUTH_ACCOUNT_SAVE_OK, s')"
  shows "stored P s'"
  using assms stored_save_or_restore [OF assms(1,2)]
  by (auto simp: auth_save_account_def update_account_def create_account_def case_prod_beta Let_def
      simp del: prune_keeps split: option.splits if_splits)

lemma stored_delete_account:
  assumes "nvs_durable P" "nvs_undisturbed P" "auth_delete_account P t u s = (AUTH_ACCOUNT_DELETE_OK, s')"
  shows "stored P s'"
  using assms stored_save [OF assms(1)]
  by (auto simp: auth_delete_account_def case_prod_beta Let_def simp del: prune_keeps split: option.splits if_splits
      intro!: stored_audit)

lemma stored_bootstrap:
  assumes "nvs_durable P" "nvs_undisturbed P" "auth_initialized s"
    "auth_bootstrap_create_first_admin P u p out s = (AUTH_BOOTSTRAP_CREATE_OK, token, st, s')"
  shows "stored P s'"
proof -
  have login: "stored P t \<Longrightarrow> stored P (auth_audit_log P a d (auth_record_login_success P x b t))" for t a d x b
    unfolding auth_record_login_success_def Let_def by (intro stored_audit assms(2)) simp_all
  have idle: "auth_initialized (snd (auth_create_session_for_account P k out t)) = auth_initialized t" for k t
    by (simp add: auth_create_session_for_account_def case_prod_beta Let_def split: option.split)
  have idle': "auth_initialized (auth_record_login_success P x b t) = auth_initialized t" for t x b
    by (simp add: auth_record_login_success_def Let_def)
  show ?thesis
    using assms(3,4) stored_save [OF assms(1)] unfolding auth_bootstrap_create_first_admin_def Let_def case_prod_beta auth_get_status_def
    by (auto simp: idle idle' split: option.splits if_splits intro!: login stored_create_session assms(2))
qed

text \<open>
  C22: a successful change of a password, of an account or of the account list, and a successful creation of
  the first administrator, survives a reboot: on durable storage the next initialisation finds exactly
  the accounts that the operation left, in a well-formed state.
\<close>

theorem auth_changes_survive_reboot:
  assumes "nvs_durable P" "nvs_undisturbed P" "entropy_law P" "auth_ok s"
    and "auth_save_account P t u role enabled p s = (AUTH_ACCOUNT_SAVE_OK, s') \<or>
         auth_delete_account P t u s = (AUTH_ACCOUNT_DELETE_OK, s') \<or>
         auth_change_password P t cur new s = (AUTH_CHANGE_PASSWORD_OK, s') \<or>
         auth_bootstrap_create_first_admin P u p out s = (AUTH_BOOTSTRAP_CREATE_OK, token, st, s')"
  shows "auth_config (auth_init P (auth_boot (auth_world s'))) = auth_config s' \<and>
    auth_ok (auth_init P (auth_boot (auth_world s')))"
proof -
  have "auth_step P s s'" using assms(5) by (blast intro: auth_step.intros)
  then have "config_ok (auth_config s')" using step_keeps [OF assms(3)] assms(4) by (auto simp: auth_keeps_def auth_ok_def)
  moreover have "auth_initialized s" using assms(4) by (simp add: auth_ok_def)
  then have "stored P s'"
    using assms(1,2,5) stored_save_account stored_delete_account stored_change_password stored_bootstrap by metis
  ultimately show ?thesis using reboot_loads [OF assms(2)] by blast
qed

lemma demo_pruned: "auth_prune_expired_sessions sim_platform demo_auth = demo_auth"
  by (simp add: auth_prune_expired_sessions_def auth_now_ms_def demo_auth_def auth_boot_def sim_init_def auth_session_zero_def)

lemma demo_session:
  "auth_find_session_index sim_platform (Some (replicate 64 97)) demo_auth = (Some 0, demo_auth)"
  "auth_session_account_index_from_token sim_platform (Some (replicate 64 97)) demo_auth = (0, demo_auth)"
proof -
  have "c_str (replicate 64 97) = replicate 64 97" by (rule c_str_id) simp
  moreover have "c_str (replicate 64 97 @ [0]) = replicate 64 97" using c_str_id [of "replicate 64 97"] by (simp add: c_str_snoc)
  moreover have "auth_sessions demo_auth = auth_session_zero\<lparr>se_active := True, se_token := replicate 64 97 @ [0], se_expires_at_ms := 9000\<rparr> #
      replicate 3 auth_session_zero" by (simp add: demo_auth_def)
  ultimately show f: "auth_find_session_index sim_platform (Some (replicate 64 97)) demo_auth = (Some 0, demo_auth)"
    by (simp add: auth_find_session_index_def demo_pruned del: prune_keeps)
  show "auth_session_account_index_from_token sim_platform (Some (replicate 64 97)) demo_auth = (0, demo_auth)"
    by (simp add: auth_session_account_index_from_token_def f) (simp add: demo_auth_def auth_session_zero_def)
qed

lemma demo_facts:
  "auth_init sim_platform demo_auth = demo_auth" "admin_index 0 demo_auth"
  "auth_username_normalize (Some (str_bytes ''ana'')) (AUTH_USERNAME_LEN + 1) True = Some (str_bytes ''ana'')"
  "auth_find_account_index (str_bytes ''ana'') (auth_config demo_auth) = Some 1"
proof -
  show "auth_init sim_platform demo_auth = demo_auth" by (simp add: demo_auth_def)
  have names: "c_str (str_bytes ''admin'') = str_bytes ''admin''" "c_str (str_bytes ''ana'') = str_bytes ''ana''"
    "str_bytes ''admin'' \<noteq> []" "str_bytes ''ana'' \<noteq> []" "take 24 (str_bytes ''ana'') = str_bytes ''ana''"
    "take 24 (str_bytes ''admin'') \<noteq> str_bytes ''ana''"
    by (simp_all add: str_bytes_def c_str_def)
  show "admin_index 0 demo_auth"
    by (simp add: admin_index_def demo_auth_def auth_sizes auth_account_enabled_def auth_account_in_use_def names)
  show "auth_username_normalize (Some (str_bytes ''ana'')) (AUTH_USERNAME_LEN + 1) True = Some (str_bytes ''ana'')"
    by (simp add: auth_username_normalize_def auth_sizes str_bytes_def c_str_def c_isspace_def c_isalnum_def c_islower_def
        c_isupper_def c_isdigit_def c_tolower_def)
  show "auth_find_account_index (str_bytes ''ana'') (auth_config demo_auth) = Some 1"
    by (simp add: auth_find_account_index_def find_account_def demo_auth_def auth_account_in_use_def names)
qed

lemma demo_operator: "ar_role (ac_accounts (auth_config demo_auth) ! 1) \<noteq> ucast AUTH_ROLE_ADMIN"
  by (simp add: demo_auth_def auth_roles)

lemma demo_saves: "fst (auth_save_config sim_platform s)" if "auth_world s = sim_init"
  using sim_store [of sim_init AUTH_NAMESPACE AUTH_CONFIG_KEY "auth_config_bytes (auth_config s)"] that
  by (auto simp: auth_save_config_def sim_init_def case_prod_beta)

theorem auth_changes_survive_reboot_witness:
  "\<exists>s'. auth_delete_account sim_platform (Some (replicate 64 97)) (Some (str_bytes ''ana'')) demo_auth = (AUTH_ACCOUNT_DELETE_OK, s') \<and>
     auth_config (auth_init sim_platform (auth_boot (auth_world s'))) = auth_config s'"
proof -
  let ?r = "auth_delete_account sim_platform (Some (replicate 64 97)) (Some (str_bytes ''ana'')) demo_auth"
  have w: "auth_world demo_auth = sim_init" by (simp add: demo_auth_def auth_boot_def)
  have "fst ?r = AUTH_ACCOUNT_DELETE_OK"
    using demo_saves [of "auth_invalidate_sessions_for_account 1 (demo_auth\<lparr>auth_config := edit_account 1 auth_account_clear (auth_config demo_auth)\<rparr>)"] w
      demo_operator demo_facts(2)
    unfolding auth_delete_account_def Let_def demo_facts(1,3) option.case demo_session prod.case demo_facts(4)
    by (simp add: case_prod_beta auth_invalidate_sessions_for_account_def)
  then have ok: "?r = (AUTH_ACCOUNT_DELETE_OK, snd ?r)" by (simp add: prod_eq_iff)
  then show ?thesis using auth_changes_survive_reboot [OF sim_durable sim_undisturbed sim_entropy demo_ok(1)] by metis
qed

text \<open>
  A password that is too short is reported as an error, but when it comes with the change of an existing
  account that is not an administrator, the new role and the new enabled flag are applied all the same (in memory, without a save),
  so the refused request can make the account an administrator.
\<close>

theorem auth_weak_password_still_applies:
  assumes "auth_initialized s" "auth_username_normalize u (AUTH_USERNAME_LEN + 1) True = Some name"
    and "role \<in> {AUTH_ROLE_ADMIN, AUTH_ROLE_INSTALLER, AUTH_ROLE_OPERATOR, AUTH_ROLE_VIEWER}"
    and "auth_session_account_index_from_token P token s = (k, s1)" "admin_index k s1"
    and "auth_find_account_index name (auth_config s) = Some i" "int i \<noteq> k"
    and "ar_role (ac_accounts (auth_config s) ! i) \<noteq> ucast AUTH_ROLE_ADMIN"
    and "c_str p \<noteq> []" "length (c_str p) < AUTH_PASSWORD_MIN_LEN"
  shows "\<exists>s'. auth_save_account P token u role enabled (Some p) s = (AUTH_ACCOUNT_SAVE_WEAK_PASSWORD, s') \<and>
    auth_config s' = edit_account i (\<lambda>a. a\<lparr>ar_enabled := (if enabled then 1 else 0), ar_role := ucast role\<rparr>) (auth_config s)"
proof -
  have "s1 = auth_prune_expired_sessions P s" using account_from_token_state [of P token s] assms(4) by simp
  then have "auth_config s1 = auth_config s" by simp
  then show ?thesis using assms
    by (auto simp: auth_save_account_def update_account_def auth_password_is_strong_def Let_def)
qed

theorem auth_weak_password_still_applies_witness:
  "\<exists>s'. auth_save_account sim_platform (Some (replicate 64 97)) (Some (str_bytes ''ana'')) AUTH_ROLE_ADMIN True (Some [49]) demo_auth =
      (AUTH_ACCOUNT_SAVE_WEAK_PASSWORD, s') \<and>
    auth_config s' = edit_account 1 (\<lambda>a. a\<lparr>ar_enabled := (if True then 1 else 0), ar_role := ucast AUTH_ROLE_ADMIN\<rparr>) (auth_config demo_auth)"
  by (rule auth_weak_password_still_applies [OF _ demo_facts(3) _ demo_session(2) demo_facts(2,4) _ demo_operator])
    (simp_all add: demo_auth_def c_str_def auth_sizes)

end
