(* ===== verification/Automation.thy ===== *)
theory Automation
  imports Failsafe Cluster_Io Pve Protocol
begin

text \<open>
  The automation engine (\<open>runtime/automation/automation_engine.c\<close>): up to 16 rules that compare an input
  with a threshold and drive an output, each with an optional interlock, evaluated on every change of
  a variable and on a 1 ms tick.

  The static arrays keep their 16 entries; \<open>node_count\<close> says how many are in use. What the engine reads of
  other components and never changes (cluster membership, ownership of the outputs, process
  variables, the device profile) is the record \<open>automation_env\<close>; what it changes (the failsafe latches
  and the system with its variables) is part of its state. The FreeRTOS queue for remote commands is the list of its
  elements, \<open>None\<close> before it exists; the task that drains it is one step. The two bytes of padding of a stored rule are zero.
\<close>

section \<open>Model\<close>

definition AUTOMATION_NAMESPACE :: string where "AUTOMATION_NAMESPACE = ''automation''"
definition AUTOMATION_KEY_RULES :: string where "AUTOMATION_KEY_RULES = ''rules''"
definition AUTOMATION_MAGIC :: u32 where "AUTOMATION_MAGIC = 0x4155544F"
definition AUTOMATION_VERSION :: u16 where "AUTOMATION_VERSION = 4"
definition AUTOMATION_VERSION_V3 :: u16 where "AUTOMATION_VERSION_V3 = 3"
definition AUTOMATION_VERSION_V2 :: u16 where "AUTOMATION_VERSION_V2 = 2"
definition AUTOMATION_VERSION_V1 :: u16 where "AUTOMATION_VERSION_V1 = 1"
definition AUTOMATION_ENGINE_MAX_NODES :: nat where "AUTOMATION_ENGINE_MAX_NODES = 16"
definition AUTOMATION_MAX_INTERLOCK_COND :: nat where "AUTOMATION_MAX_INTERLOCK_COND = 2"

definition AUTOMATION_OP_GT :: u8 where "AUTOMATION_OP_GT = 0"
definition AUTOMATION_OP_GE :: u8 where "AUTOMATION_OP_GE = 1"
definition AUTOMATION_OP_EQ :: u8 where "AUTOMATION_OP_EQ = 2"
definition AUTOMATION_OP_NE :: u8 where "AUTOMATION_OP_NE = 3"
definition AUTOMATION_OP_LE :: u8 where "AUTOMATION_OP_LE = 4"
definition AUTOMATION_OP_LT :: u8 where "AUTOMATION_OP_LT = 5"
definition AUTOMATION_OP_MAX :: u8 where "AUTOMATION_OP_MAX = 6"

definition AUTOMATION_MODE_FOLLOW :: u8 where "AUTOMATION_MODE_FOLLOW = 0"
definition AUTOMATION_MODE_PULSE_MS :: u8 where "AUTOMATION_MODE_PULSE_MS = 1"
definition AUTOMATION_MODE_ON_DELAY_MS :: u8 where "AUTOMATION_MODE_ON_DELAY_MS = 2"
definition AUTOMATION_MODE_OFF_DELAY_MS :: u8 where "AUTOMATION_MODE_OFF_DELAY_MS = 3"
definition AUTOMATION_MODE_TOGGLE :: u8 where "AUTOMATION_MODE_TOGGLE = 4"
definition AUTOMATION_MODE_FORCE_ON :: u8 where "AUTOMATION_MODE_FORCE_ON = 5"
definition AUTOMATION_MODE_FORCE_OFF :: u8 where "AUTOMATION_MODE_FORCE_OFF = 6"
definition AUTOMATION_MODE_MAX :: u8 where "AUTOMATION_MODE_MAX = 7"

lemmas automation_ops = AUTOMATION_OP_GT_def AUTOMATION_OP_GE_def AUTOMATION_OP_EQ_def AUTOMATION_OP_NE_def
  AUTOMATION_OP_LE_def AUTOMATION_OP_LT_def AUTOMATION_OP_MAX_def

lemmas automation_modes = AUTOMATION_MODE_FOLLOW_def AUTOMATION_MODE_PULSE_MS_def AUTOMATION_MODE_ON_DELAY_MS_def
  AUTOMATION_MODE_OFF_DELAY_MS_def AUTOMATION_MODE_TOGGLE_def AUTOMATION_MODE_FORCE_ON_def
  AUTOMATION_MODE_FORCE_OFF_def AUTOMATION_MODE_MAX_def

datatype automation_result_t = AUTOMATION_RESULT_OK | AUTOMATION_RESULT_DUPLICATE | AUTOMATION_RESULT_FULL
  | AUTOMATION_RESULT_INVALID | AUTOMATION_RESULT_CONFLICT

datatype automation_action_result_t = AUTOMATION_ACTION_IDLE | AUTOMATION_ACTION_APPLIED_LOCAL
  | AUTOMATION_ACTION_DISPATCHED_REMOTE | AUTOMATION_ACTION_DISPATCH_FAILED | AUTOMATION_ACTION_REMOTE_OWNER_OFFLINE
  | AUTOMATION_ACTION_TARGET_UNRESOLVED | AUTOMATION_ACTION_BLOCKED_FAILSAFE

record automation_condition_t =
  acn_channel :: u16
  acn_op :: u8
  acn_target_val :: u8

record automation_interlock_t =
  il_enabled :: u8
  il_logic_op :: u8
  il_cond_count :: u8
  il_reserved :: u8
  il_conditions :: "automation_condition_t list"

record automation_node_t =
  an_input :: u16
  an_output :: u16
  an_threshold :: i32
  an_op :: u8
  an_mode :: u8
  an_duration_ms :: u16
  an_on_true :: u8
  an_on_false :: u8

record automation_runtime_t =
  rn_condition :: u8
  rn_timer_active :: u8
  rn_pulse_active :: u8
  rn_latched_true :: u8
  rn_deadline_ms :: u32

record automation_rule_diag_t =
  dg_last_trigger_ms :: u32
  dg_last_eval_ms :: u32
  dg_last_action_ms :: u32
  dg_last_condition :: u8
  dg_last_action_value :: u8
  dg_last_action_result :: automation_action_result_t
  dg_last_target_local :: u8
  dg_last_target_owner :: u32
  dg_last_target_original_owner :: u32

record automation_remote_cmd_t =
  rc_target_node :: u32
  rc_requester_node :: u32
  rc_output_id :: u16
  rc_value :: i32

record ('c, 'x, 'p) automation_env =
  env_cluster :: "'c cluster"
  env_io :: "'x cluster_io"
  env_pve :: "'p pve"
  env_valid_input :: "u16 \<Rightarrow> bool"
  env_valid_output :: "u16 \<Rightarrow> bool"

record 'w automation =
  at_nodes :: "automation_node_t list"
  at_interlocks :: "automation_interlock_t list"
  at_node_count :: nat
  at_persisted_config :: bool
  at_tick_ms :: u32
  at_rule_diags :: "automation_rule_diag_t list"
  at_runtime_nodes :: "automation_runtime_t list"
  at_remote_queue :: "automation_remote_cmd_t list option"
  at_failsafe :: failsafe
  at_system :: "'w system"

definition zero_rule :: automation_node_t where
  "zero_rule = \<lparr>an_input = 0, an_output = 0, an_threshold = 0, an_op = 0, an_mode = 0, an_duration_ms = 0,
     an_on_true = 0, an_on_false = 0\<rparr>"

definition zero_condition :: automation_condition_t where
  "zero_condition = \<lparr>acn_channel = 0, acn_op = 0, acn_target_val = 0\<rparr>"

definition zero_interlock :: automation_interlock_t where
  "zero_interlock = \<lparr>il_enabled = 0, il_logic_op = 0, il_cond_count = 0, il_reserved = 0,
     il_conditions = replicate AUTOMATION_MAX_INTERLOCK_COND zero_condition\<rparr>"

definition zero_runtime :: automation_runtime_t where
  "zero_runtime = \<lparr>rn_condition = 0, rn_timer_active = 0, rn_pulse_active = 0, rn_latched_true = 0, rn_deadline_ms = 0\<rparr>"

definition zero_diag :: automation_rule_diag_t where
  "zero_diag = \<lparr>dg_last_trigger_ms = 0, dg_last_eval_ms = 0, dg_last_action_ms = 0, dg_last_condition = 0,
     dg_last_action_value = 0, dg_last_action_result = AUTOMATION_ACTION_IDLE, dg_last_target_local = 0,
     dg_last_target_owner = 0, dg_last_target_original_owner = 0\<rparr>"

subsection \<open>Rules\<close>

definition automation_crc32 :: "bytes \<Rightarrow> u32" where
  "automation_crc32 data = fnv1a data"

definition automation_valid_input :: "('c, 'x, 'p) automation_env \<Rightarrow> i32 \<Rightarrow> bool" where
  "automation_valid_input env input = env_valid_input env (ucast input)"

definition automation_valid_output :: "('c, 'x, 'p) automation_env \<Rightarrow> i32 \<Rightarrow> bool" where
  "automation_valid_output env output = env_valid_output env (ucast output)"

definition automation_valid_action :: "i32 \<Rightarrow> bool" where
  "automation_valid_action v \<longleftrightarrow> v = 0 \<or> v = 1"

definition automation_valid_operator :: "u8 \<Rightarrow> bool" where
  "automation_valid_operator opr \<longleftrightarrow> opr < AUTOMATION_OP_MAX"

definition automation_valid_mode :: "u8 \<Rightarrow> bool" where
  "automation_valid_mode mode \<longleftrightarrow> mode < AUTOMATION_MODE_MAX"

definition automation_rules_equal :: "automation_node_t \<Rightarrow> automation_node_t \<Rightarrow> bool" where
  "automation_rules_equal a b \<longleftrightarrow> an_input a = an_input b \<and> an_output a = an_output b \<and>
     an_threshold a = an_threshold b \<and> an_op a = an_op b \<and> an_mode a = an_mode b \<and>
     an_duration_ms a = an_duration_ms b \<and> an_on_true a = an_on_true b \<and> an_on_false a = an_on_false b"

text \<open>The modes that need a duration.\<close>

definition timed_mode :: "u8 \<Rightarrow> bool" where
  "timed_mode mode \<longleftrightarrow> mode = AUTOMATION_MODE_PULSE_MS \<or> mode = AUTOMATION_MODE_ON_DELAY_MS \<or> mode = AUTOMATION_MODE_OFF_DELAY_MS"

definition automation_rule_is_valid :: "('c, 'x, 'p) automation_env \<Rightarrow> automation_node_t \<Rightarrow> bool" where
  "automation_rule_is_valid env node \<longleftrightarrow>
     automation_valid_input env (ucast (an_input node)) \<and> automation_valid_output env (ucast (an_output node)) \<and>
     automation_valid_operator (an_op node) \<and> automation_valid_mode (an_mode node) \<and>
     automation_valid_action (scast (an_on_true node)) \<and> automation_valid_action (scast (an_on_false node)) \<and>
     (if timed_mode (an_mode node) then 0 < an_duration_ms node else True)"

definition automation_mode_is_force_pair :: "u8 \<Rightarrow> bool" where
  "automation_mode_is_force_pair mode \<longleftrightarrow> mode = AUTOMATION_MODE_FORCE_ON \<or> mode = AUTOMATION_MODE_FORCE_OFF"

definition automation_rule_conflicts :: "automation_node_t \<Rightarrow> automation_node_t \<Rightarrow> bool" where
  "automation_rule_conflicts existing candidate =
     (if an_output existing \<noteq> an_output candidate \<or> automation_rules_equal existing candidate then False
      else if automation_mode_is_force_pair (an_mode existing) \<and> automation_mode_is_force_pair (an_mode candidate)
      then an_mode existing = an_mode candidate
      else True)"

subsection \<open>Codes\<close>

definition operator_table :: "(u8 \<times> string \<times> string) list" where
  "operator_table =
     [(AUTOMATION_OP_GT, ''gt'', ''>''), (AUTOMATION_OP_GE, ''ge'', ''>=''), (AUTOMATION_OP_EQ, ''eq'', ''==''),
      (AUTOMATION_OP_NE, ''ne'', ''!=''), (AUTOMATION_OP_LE, ''le'', ''<=''), (AUTOMATION_OP_LT, ''lt'', ''<'')]"

definition mode_table :: "(u8 \<times> string \<times> string) list" where
  "mode_table =
     [(AUTOMATION_MODE_FOLLOW, ''follow'', ''FOLLOW''), (AUTOMATION_MODE_PULSE_MS, ''pulse_ms'', ''PULSE_MS''),
      (AUTOMATION_MODE_ON_DELAY_MS, ''on_delay_ms'', ''ON_DELAY_MS''),
      (AUTOMATION_MODE_OFF_DELAY_MS, ''off_delay_ms'', ''OFF_DELAY_MS''),
      (AUTOMATION_MODE_TOGGLE, ''toggle'', ''TOGGLE''), (AUTOMATION_MODE_FORCE_ON, ''force_on'', ''FORCE_ON''),
      (AUTOMATION_MODE_FORCE_OFF, ''force_off'', ''FORCE_OFF'')]"

text \<open>The scans of both tables: by either text, and by the number with the first row as default.\<close>

definition table_from_code :: "(u8 \<times> string \<times> string) list \<Rightarrow> string option \<Rightarrow> u8 option" where
  "table_from_code table text =
     (case text of None \<Rightarrow> None | Some t \<Rightarrow> map_option fst (List.find (\<lambda>(_, code, label). t = code \<or> t = label) table))"

definition table_row :: "(u8 \<times> string \<times> string) list \<Rightarrow> u8 \<Rightarrow> string \<times> string" where
  "table_row table n = (case List.find (\<lambda>(k, _). k = n) table of Some (_, r) \<Rightarrow> r | None \<Rightarrow> snd (hd table))"

definition automation_engine_operator_from_code :: "string option \<Rightarrow> u8 option" where
  "automation_engine_operator_from_code text = table_from_code operator_table text"

definition automation_engine_mode_from_code :: "string option \<Rightarrow> u8 option" where
  "automation_engine_mode_from_code text = table_from_code mode_table text"

definition automation_engine_operator_to_code :: "u8 \<Rightarrow> string" where
  "automation_engine_operator_to_code opr = fst (table_row operator_table opr)"

definition automation_engine_operator_to_symbol :: "u8 \<Rightarrow> string" where
  "automation_engine_operator_to_symbol opr = snd (table_row operator_table opr)"

definition automation_engine_mode_to_code :: "u8 \<Rightarrow> string" where
  "automation_engine_mode_to_code mode = fst (table_row mode_table mode)"

definition automation_engine_mode_to_label :: "u8 \<Rightarrow> string" where
  "automation_engine_mode_to_label mode = snd (table_row mode_table mode)"

definition automation_engine_action_result_name :: "automation_action_result_t \<Rightarrow> string" where
  "automation_engine_action_result_name result =
     (case result of
        AUTOMATION_ACTION_APPLIED_LOCAL \<Rightarrow> ''applied-local''
      | AUTOMATION_ACTION_DISPATCHED_REMOTE \<Rightarrow> ''dispatched-remote''
      | AUTOMATION_ACTION_DISPATCH_FAILED \<Rightarrow> ''dispatch-failed''
      | AUTOMATION_ACTION_REMOTE_OWNER_OFFLINE \<Rightarrow> ''remote-owner-offline''
      | AUTOMATION_ACTION_TARGET_UNRESOLVED \<Rightarrow> ''target-unresolved''
      | AUTOMATION_ACTION_BLOCKED_FAILSAFE \<Rightarrow> ''blocked-failsafe''
      | AUTOMATION_ACTION_IDLE \<Rightarrow> ''idle'')"

subsection \<open>Evaluation\<close>

definition automation_eval_rule :: "automation_node_t \<Rightarrow> i32 \<Rightarrow> bool" where
  "automation_eval_rule node v =
     (if an_op node = AUTOMATION_OP_GT then sint v > sint (an_threshold node)
      else if an_op node = AUTOMATION_OP_GE then sint v \<ge> sint (an_threshold node)
      else if an_op node = AUTOMATION_OP_EQ then v = an_threshold node
      else if an_op node = AUTOMATION_OP_NE then v \<noteq> an_threshold node
      else if an_op node = AUTOMATION_OP_LE then sint v \<le> sint (an_threshold node)
      else if an_op node = AUTOMATION_OP_LT then sint v < sint (an_threshold node)
      else False)"

definition automation_eval_condition :: "state_store \<Rightarrow> automation_condition_t \<Rightarrow> bool" where
  "automation_eval_condition st cond =
     (case state_get_int st (acn_channel cond) of None \<Rightarrow> False
      | Some v \<Rightarrow>
          let t = sint (acn_target_val cond) in
          if acn_op cond = AUTOMATION_OP_EQ then sint v = t
          else if acn_op cond = AUTOMATION_OP_NE then sint v \<noteq> t
          else if acn_op cond = AUTOMATION_OP_GT then sint v > t
          else if acn_op cond = AUTOMATION_OP_GE then sint v \<ge> t
          else if acn_op cond = AUTOMATION_OP_LE then sint v \<le> t
          else if acn_op cond = AUTOMATION_OP_LT then sint v < t
          else sint v = t)"

definition automation_eval_interlock :: "state_store \<Rightarrow> automation_interlock_t \<Rightarrow> bool" where
  "automation_eval_interlock st il =
     (if il_enabled il = 0 \<or> il_cond_count il = 0 then True
      else if il_cond_count il = 1 then automation_eval_condition st (il_conditions il ! 0)
      else
        let c0 = automation_eval_condition st (il_conditions il ! 0);
            c1 = automation_eval_condition st (il_conditions il ! 1)
        in if il_logic_op il = 1 then c0 \<or> c1 else c0 \<and> c1)"

definition automation_deadline_after :: "u16 \<Rightarrow> 'w automation \<Rightarrow> u32" where
  "automation_deadline_after duration_ms s = at_tick_ms s + ucast duration_ms"

definition automation_time_reached :: "u32 \<Rightarrow> 'w automation \<Rightarrow> bool" where
  "automation_time_reached deadline_ms s \<longleftrightarrow> sint (at_tick_ms s - deadline_ms) \<ge> 0"

definition automation_now_ms :: "'w platform \<Rightarrow> 'w automation \<Rightarrow> u32 \<times> 'w automation" where
  "automation_now_ms P s =
     (case esp_timer_get_time P (sys_world (at_system s)) of (t, w) \<Rightarrow>
        (ucast (t div 1000), s\<lparr>at_system := (at_system s)\<lparr>sys_world := w\<rparr>\<rparr>))"

definition automation_owner_state :: "('c, 'x, 'p) automation_env \<Rightarrow> u32 \<Rightarrow> cluster_node_state_t" where
  "automation_owner_state env node_id =
     (if node_id = 0 then CLUSTER_NODE_OFFLINE
      else case List.find (\<lambda>n. cn_node_id n = node_id) (cluster_manager_export_nodes True (int MAX_NODES) (env_cluster env)) of
          Some n \<Rightarrow> cn_state n
        | None \<Rightarrow> CLUSTER_NODE_OFFLINE)"

subsection \<open>Outputs\<close>

text \<open>Writing entry \<open>i\<close> of the runtime array and of the diagnosis array.\<close>

definition edit_runtime :: "nat \<Rightarrow> (automation_runtime_t \<Rightarrow> automation_runtime_t) \<Rightarrow> 'w automation \<Rightarrow> 'w automation" where
  "edit_runtime i f s = s\<lparr>at_runtime_nodes := (at_runtime_nodes s)[i := f (at_runtime_nodes s ! i)]\<rparr>"

definition edit_diag :: "nat \<Rightarrow> (automation_rule_diag_t \<Rightarrow> automation_rule_diag_t) \<Rightarrow> 'w automation \<Rightarrow> 'w automation" where
  "edit_diag i f s = s\<lparr>at_rule_diags := (at_rule_diags s)[i := f (at_rule_diags s ! i)]\<rparr>"

definition automation_diag_mark_eval :: "nat \<Rightarrow> bool \<Rightarrow> u32 \<Rightarrow> 'w automation \<Rightarrow> 'w automation" where
  "automation_diag_mark_eval i condition_now trigger_ms s =
     (if AUTOMATION_ENGINE_MAX_NODES \<le> i then s
      else edit_diag i (\<lambda>d. d\<lparr>dg_last_trigger_ms := trigger_ms, dg_last_eval_ms := trigger_ms,
        dg_last_condition := (if condition_now then 1 else 0)\<rparr>) s)"

definition automation_diag_mark_action ::
    "'w platform \<Rightarrow> nat \<Rightarrow> i32 \<Rightarrow> automation_action_result_t \<Rightarrow> bool \<Rightarrow> u32 \<Rightarrow> u32 \<Rightarrow> 'w automation \<Rightarrow> 'w automation" where
  "automation_diag_mark_action P i v result target_local owner original_owner s =
     (if AUTOMATION_ENGINE_MAX_NODES \<le> i then s
      else case automation_now_ms P s of (now, s) \<Rightarrow>
        edit_diag i (\<lambda>d. d\<lparr>dg_last_action_ms := now, dg_last_action_value := (if v \<noteq> 0 then 1 else 0),
          dg_last_action_result := result, dg_last_target_local := (if target_local then 1 else 0),
          dg_last_target_owner := owner, dg_last_target_original_owner := original_owner\<rparr>) s)"

definition AUTOMATION_QUEUE_LENGTH :: nat where "AUTOMATION_QUEUE_LENGTH = 16"

definition automation_dispatch_output ::
    "'w platform \<Rightarrow> ('c, 'x, 'p) automation_env \<Rightarrow> u16 \<Rightarrow> i32 \<Rightarrow> nat \<Rightarrow> 'w automation \<Rightarrow> automation_action_result_t \<times> 'w automation" where
  "automation_dispatch_output P env output v i s =
     (let self_node = mt_self_node (cluster_get_metrics (env_cluster env));
          owner = cluster_io_get_owner (ucast output) (env_io env);
          original_owner = cluster_io_get_original_owner (ucast output) (env_io env);
          mark = (\<lambda>v result target_local s.
            (result, automation_diag_mark_action P i v result target_local owner original_owner s))
      in if cluster_io_is_local (ucast output) (env_io env) then
           case failsafe_guard_command output v (at_failsafe s) of (permitted, out, f) \<Rightarrow>
             let s = s\<lparr>at_failsafe := f\<rparr>; effective_value = (case out of Some (x, _) \<Rightarrow> x | None \<Rightarrow> v) in
             if \<not> permitted then mark v AUTOMATION_ACTION_BLOCKED_FAILSAFE True s
             else mark effective_value AUTOMATION_ACTION_APPLIED_LOCAL True
                    (s\<lparr>at_system := snd (state_set_int P output effective_value (at_system s))\<rparr>)
         else if self_node = 0 \<or> owner = 0 then mark v AUTOMATION_ACTION_TARGET_UNRESOLVED False s
         else if automation_owner_state env owner = CLUSTER_NODE_OFFLINE
         then mark v AUTOMATION_ACTION_REMOTE_OWNER_OFFLINE False s
         else case at_remote_queue s of
             None \<Rightarrow> mark v AUTOMATION_ACTION_DISPATCH_FAILED False s
           | Some q \<Rightarrow>
               if AUTOMATION_QUEUE_LENGTH \<le> length q then mark v AUTOMATION_ACTION_DISPATCH_FAILED False s
               else mark v AUTOMATION_ACTION_DISPATCHED_REMOTE False
                      (s\<lparr>at_remote_queue := Some (q @ [\<lparr>rc_target_node = owner, rc_requester_node = self_node,
                         rc_output_id = output, rc_value = v\<rparr>])\<rparr>))"

definition automation_apply_output ::
    "'w platform \<Rightarrow> ('c, 'x, 'p) automation_env \<Rightarrow> automation_node_t \<Rightarrow> nat \<Rightarrow> bool \<Rightarrow> 'w automation \<Rightarrow> 'w automation" where
  "automation_apply_output P env node i condition_true s =
     snd (automation_dispatch_output P env (an_output node)
       (scast (if condition_true then an_on_true node else an_on_false node)) i s)"

definition automation_toggle_output ::
    "'w platform \<Rightarrow> ('c, 'x, 'p) automation_env \<Rightarrow> u16 \<Rightarrow> nat \<Rightarrow> 'w automation \<Rightarrow> 'w automation" where
  "automation_toggle_output P env output i s =
     (let current = (case state_get_int (sys_state (at_system s)) output of None \<Rightarrow> 0 | Some v \<Rightarrow> v)
      in snd (automation_dispatch_output P env output (if current \<noteq> 0 then 0 else 1) i s))"

subsection \<open>Remote commands\<close>

definition automation_handle_output_command ::
    "'w platform \<Rightarrow> ('c, 'x, 'p) automation_env \<Rightarrow> 'r registry \<Rightarrow> protocol_output_command_t \<Rightarrow> 'w automation \<Rightarrow> 'w automation" where
  "automation_handle_output_command P env reg msg s =
     (let self_node = mt_self_node (cluster_get_metrics (env_cluster env)) in
      if self_node = 0 \<or> cmd_target_node msg \<noteq> self_node then s
      else if cmd_requester_node msg \<noteq> 0 \<and> cmd_requester_node msg \<noteq> self_node \<and>
              \<not> node_registry_is_known (cmd_requester_node msg) reg then s
      else if \<not> env_valid_output env (cmd_output_id msg) then s
      else case failsafe_guard_command (cmd_output_id msg) (cmd_value msg) (at_failsafe s) of (permitted, out, f) \<Rightarrow>
        let s = s\<lparr>at_failsafe := f\<rparr>; effective_value = (case out of Some (x, _) \<Rightarrow> x | None \<Rightarrow> cmd_value msg) in
        if \<not> permitted then s
        else s\<lparr>at_system := snd (state_set_int P (cmd_output_id msg) effective_value (at_system s))\<rparr>)"

text \<open>One round of the task that sends queued commands; \<open>ready\<close> is \<open>cluster_transport_is_ready\<close>.\<close>

definition automation_dispatcher_task :: "bool \<Rightarrow> 'w broadcast \<Rightarrow> 'w automation \<Rightarrow> 'w automation" where
  "automation_dispatcher_task ready bcast s =
     (case at_remote_queue s of
        Some (cmd # q) \<Rightarrow>
          let s = s\<lparr>at_remote_queue := Some q\<rparr> in
          if \<not> ready then s
          else s\<lparr>at_system := (at_system s)\<lparr>sys_world := snd (bcast
                 (output_command_frame \<lparr>cmd_target_node = rc_target_node cmd, cmd_requester_node = rc_requester_node cmd,
                    cmd_output_id = rc_output_id cmd, cmd_value = rc_value cmd\<rparr>) (sys_world (at_system s)))\<rparr>\<rparr>
      | _ \<Rightarrow> s)"

subsection \<open>Storage\<close>

definition rule_bytes :: "automation_node_t \<Rightarrow> bytes" where
  "rule_bytes n = le16 (an_input n) @ le16 (an_output n) @ le32 (an_threshold n) @ [an_op n, an_mode n] @
     le16 (an_duration_ms n) @ [an_on_true n, an_on_false n, 0, 0]"

definition rule_of :: "bytes \<Rightarrow> automation_node_t" where
  "rule_of bs = \<lparr>an_input = of_le16 bs, an_output = of_le16 (drop 2 bs), an_threshold = of_le32 (drop 4 bs),
     an_op = bs ! 8, an_mode = bs ! 9, an_duration_ms = of_le16 (drop 10 bs), an_on_true = bs ! 12, an_on_false = bs ! 13\<rparr>"

definition condition_bytes :: "automation_condition_t \<Rightarrow> bytes" where
  "condition_bytes c = le16 (acn_channel c) @ [acn_op c, acn_target_val c]"

definition condition_of :: "bytes \<Rightarrow> automation_condition_t" where
  "condition_of bs = \<lparr>acn_channel = of_le16 bs, acn_op = bs ! 2, acn_target_val = bs ! 3\<rparr>"

definition interlock_bytes :: "automation_interlock_t \<Rightarrow> bytes" where
  "interlock_bytes il = [il_enabled il, il_logic_op il, il_cond_count il, il_reserved il] @
     concat (map condition_bytes (il_conditions il))"

definition interlock_of :: "bytes \<Rightarrow> automation_interlock_t" where
  "interlock_of bs = \<lparr>il_enabled = bs ! 0, il_logic_op = bs ! 1, il_cond_count = bs ! 2, il_reserved = bs ! 3,
     il_conditions = [condition_of (drop 4 bs), condition_of (drop 8 bs)]\<rparr>"

text \<open>The rules of the older versions, filled in with the defaults of the migration.\<close>

definition rule_of_v2 :: "bytes \<Rightarrow> automation_node_t" where
  "rule_of_v2 bs = \<lparr>an_input = of_le16 bs, an_output = of_le16 (drop 2 bs), an_threshold = of_le32 (drop 4 bs),
     an_op = bs ! 8, an_mode = AUTOMATION_MODE_FOLLOW, an_duration_ms = 0, an_on_true = bs ! 9, an_on_false = bs ! 10\<rparr>"

definition rule_of_v1 :: "bytes \<Rightarrow> automation_node_t" where
  "rule_of_v1 bs = \<lparr>an_input = of_le16 bs, an_output = of_le16 (drop 2 bs), an_threshold = of_le32 (drop 4 bs),
     an_op = AUTOMATION_OP_GT, an_mode = AUTOMATION_MODE_FOLLOW, an_duration_ms = 0, an_on_true = 1, an_on_false = 0\<rparr>"

definition automation_body :: "'w automation \<Rightarrow> bytes" where
  "automation_body s = le32 AUTOMATION_MAGIC @ le16 AUTOMATION_VERSION @ le16 (of_nat (at_node_count s)) @
     concat (map rule_bytes (take (at_node_count s) (at_nodes s) @ replicate (AUTOMATION_ENGINE_MAX_NODES - at_node_count s) zero_rule)) @
     concat (map interlock_bytes (take (at_node_count s) (at_interlocks s) @ replicate (AUTOMATION_ENGINE_MAX_NODES - at_node_count s) zero_interlock))"

definition automation_blob :: "'w automation \<Rightarrow> bytes" where
  "automation_blob s = automation_body s @ le32 (automation_crc32 (automation_body s))"

definition SIZEOF_AUTOMATION_BLOB :: nat where "SIZEOF_AUTOMATION_BLOB = 460"
definition SIZEOF_AUTOMATION_BLOB_V3 :: nat where "SIZEOF_AUTOMATION_BLOB_V3 = 268"
definition SIZEOF_AUTOMATION_BLOB_V2 :: nat where "SIZEOF_AUTOMATION_BLOB_V2 = 204"
definition SIZEOF_AUTOMATION_BLOB_V1 :: nat where "SIZEOF_AUTOMATION_BLOB_V1 = 140"

definition automation_persist :: "'w platform \<Rightarrow> 'w automation \<Rightarrow> 'w automation" where
  "automation_persist P s =
     (case nvs_store P AUTOMATION_NAMESPACE AUTOMATION_KEY_RULES (automation_blob s) (sys_world (at_system s)) of (ok, w) \<Rightarrow>
        let s = s\<lparr>at_system := (at_system s)\<lparr>sys_world := w\<rparr>\<rparr> in
        if ok then s\<lparr>at_persisted_config := True\<rparr> else s)"

text \<open>The checks every version makes of the blob: magic, version, count and checksum.\<close>

definition blob_count :: "bytes \<Rightarrow> nat" where
  "blob_count bs = unat (of_le16 (drop 6 bs))"

definition blob_header_ok :: "u16 \<Rightarrow> bytes \<Rightarrow> bool" where
  "blob_header_ok version bs \<longleftrightarrow> of_le32 bs = AUTOMATION_MAGIC \<and> of_le16 (drop 4 bs) = version \<and>
     blob_count bs \<le> AUTOMATION_ENGINE_MAX_NODES \<and>
     of_le32 (drop (length bs - 4) bs) = automation_crc32 (take (length bs - 4) bs)"

definition blob_rules :: "nat \<Rightarrow> (bytes \<Rightarrow> automation_node_t) \<Rightarrow> bytes \<Rightarrow> automation_node_t list" where
  "blob_rules sz decode bs = map (\<lambda>i. decode (take sz (drop (8 + sz * i) bs))) [0..<blob_count bs]"

definition blob_interlocks :: "bytes \<Rightarrow> automation_interlock_t list" where
  "blob_interlocks bs = map (\<lambda>i. interlock_of (take 12 (drop (264 + 12 * i) bs))) [0..<blob_count bs]"

text \<open>The loop over the rules of versions 4 and 3, which leaves the table alone when a rule is not acceptable.\<close>

definition acceptable_rules :: "('c, 'x, 'p) automation_env \<Rightarrow> automation_node_t list \<Rightarrow> bool" where
  "acceptable_rules env rules \<longleftrightarrow>
     list_all (\<lambda>i. automation_rule_is_valid env (rules ! i) \<and>
       list_all (\<lambda>j. \<not> automation_rule_conflicts (rules ! j) (rules ! i)) [0..<i]) [0..<length rules]"

text \<open>The loop of versions 2 and 1, which writes each rule as it goes.\<close>

fun migrate_rules ::
    "('c, 'x, 'p) automation_env \<Rightarrow> nat \<Rightarrow> automation_node_t list \<Rightarrow> 'w automation \<Rightarrow> bool \<times> 'w automation" where
  "migrate_rules env i [] s = (True, s)"
| "migrate_rules env i (migrated # rules) s =
     (if \<not> automation_rule_is_valid env migrated then (False, s)
      else if list_ex (\<lambda>j. automation_rule_conflicts (at_nodes s ! j) migrated) [0..<i] then (False, s)
      else migrate_rules env (Suc i) rules
        (s\<lparr>at_nodes := (at_nodes s)[i := migrated], at_interlocks := (at_interlocks s)[i := zero_interlock]\<rparr>))"

definition load_migrated ::
    "'w platform \<Rightarrow> ('c, 'x, 'p) automation_env \<Rightarrow> automation_node_t list \<Rightarrow> 'w automation \<Rightarrow> 'w automation" where
  "load_migrated P env rules s =
     (case migrate_rules env 0 rules s of (ok, s) \<Rightarrow>
        if \<not> ok then s
        else automation_persist P (s\<lparr>at_node_count := length rules, at_persisted_config := True\<rparr>))"

definition load_automation_blob ::
    "'w platform \<Rightarrow> ('c, 'x, 'p) automation_env \<Rightarrow> nat \<Rightarrow> bytes \<Rightarrow> 'w automation \<Rightarrow> 'w automation" where
  "load_automation_blob P env len bs s =
     (if len = SIZEOF_AUTOMATION_BLOB then
        let rules = blob_rules 16 rule_of bs in
        if \<not> blob_header_ok AUTOMATION_VERSION bs \<or> \<not> acceptable_rules env rules then s
        else s\<lparr>at_nodes := rules @ drop (length rules) (at_nodes s),
               at_interlocks := blob_interlocks bs @ drop (length rules) (at_interlocks s),
               at_node_count := length rules, at_persisted_config := True\<rparr>
      else if len = SIZEOF_AUTOMATION_BLOB_V3 then
        let rules = blob_rules 16 rule_of bs in
        if \<not> blob_header_ok AUTOMATION_VERSION_V3 bs \<or> \<not> acceptable_rules env rules then s
        else automation_persist P
          (s\<lparr>at_nodes := rules @ drop (length rules) (at_nodes s),
             at_interlocks := replicate (length rules) zero_interlock @ drop (length rules) (at_interlocks s),
             at_node_count := length rules, at_persisted_config := True\<rparr>)
      else if len = SIZEOF_AUTOMATION_BLOB_V2 then
        if \<not> blob_header_ok AUTOMATION_VERSION_V2 bs then s else load_migrated P env (blob_rules 12 rule_of_v2 bs) s
      else if \<not> blob_header_ok AUTOMATION_VERSION_V1 bs then s else load_migrated P env (blob_rules 8 rule_of_v1 bs) s)"

definition automation_load :: "'w platform \<Rightarrow> ('c, 'x, 'p) automation_env \<Rightarrow> 'w automation \<Rightarrow> 'w automation" where
  "automation_load P env s =
     (case nvs_fetch P AUTOMATION_NAMESPACE AUTOMATION_KEY_RULES
        (\<lambda>len. len \<in> {SIZEOF_AUTOMATION_BLOB, SIZEOF_AUTOMATION_BLOB_V3, SIZEOF_AUTOMATION_BLOB_V2, SIZEOF_AUTOMATION_BLOB_V1})
        (sys_world (at_system s)) of (blob, w) \<Rightarrow>
      let s = s\<lparr>at_system := (at_system s)\<lparr>sys_world := w\<rparr>\<rparr> in
      case blob of None \<Rightarrow> s | Some (len, bs) \<Rightarrow> load_automation_blob P env len bs s)"

subsection \<open>Events\<close>

text \<open>What the mode of rule \<open>i\<close> does when its input changes.\<close>

definition trigger_mode ::
    "'w platform \<Rightarrow> ('c, 'x, 'p) automation_env \<Rightarrow> nat \<Rightarrow> bool \<Rightarrow> bool \<Rightarrow> 'w automation \<Rightarrow> 'w automation" where
  "trigger_mode P env i condition_now rising_edge s =
     (let n = at_nodes s ! i; mode = an_mode n; due = automation_deadline_after (an_duration_ms n) s in
      if mode = AUTOMATION_MODE_FOLLOW then
        edit_runtime i (\<lambda>rt. rt\<lparr>rn_timer_active := 0, rn_pulse_active := 0, rn_latched_true := (if condition_now then 1 else 0)\<rparr>)
          (automation_apply_output P env n i condition_now s)
      else if mode = AUTOMATION_MODE_PULSE_MS then
        if rising_edge
        then edit_runtime i (\<lambda>rt. rt\<lparr>rn_pulse_active := 1, rn_timer_active := 1, rn_deadline_ms := due\<rparr>)
               (automation_apply_output P env n i True s)
        else s
      else if mode = AUTOMATION_MODE_ON_DELAY_MS then
        if condition_now
        then automation_apply_output P env n i False
               (edit_runtime i (\<lambda>rt. rt\<lparr>rn_latched_true := 0, rn_timer_active := 1, rn_deadline_ms := due\<rparr>) s)
        else automation_apply_output P env n i False
               (edit_runtime i (\<lambda>rt. rt\<lparr>rn_timer_active := 0, rn_latched_true := 0\<rparr>) s)
      else if mode = AUTOMATION_MODE_OFF_DELAY_MS then
        if condition_now
        then automation_apply_output P env n i True
               (edit_runtime i (\<lambda>rt. rt\<lparr>rn_timer_active := 0, rn_latched_true := 1\<rparr>) s)
        else edit_runtime i (\<lambda>rt. rt\<lparr>rn_timer_active := 1, rn_deadline_ms := due\<rparr>) s
      else if mode = AUTOMATION_MODE_TOGGLE then
        if rising_edge then automation_toggle_output P env (an_output n) i s else s
      else if mode = AUTOMATION_MODE_FORCE_ON then
        if rising_edge then snd (automation_dispatch_output P env (an_output n) 1 i s) else s
      else if mode = AUTOMATION_MODE_FORCE_OFF then
        if rising_edge then snd (automation_dispatch_output P env (an_output n) 0 i s) else s
      else s)"

text \<open>The first loop of the handler, for rule \<open>i\<close>.\<close>

definition trigger_rule ::
    "'w platform \<Rightarrow> ('c, 'x, 'p) automation_env \<Rightarrow> endap_event_t \<Rightarrow> u32 \<Rightarrow> nat \<Rightarrow> 'w automation \<Rightarrow> 'w automation" where
  "trigger_rule P env ev trigger_ms i s =
     (let n = at_nodes s ! i in
      if an_input n \<noteq> ev_source ev then s
      else
        let condition_now = automation_eval_rule n (pve_get_scaled_value (env_pve env) (ev_source ev) (ev_data ev));
            rising_edge = (condition_now \<and> rn_condition (at_runtime_nodes s ! i) = 0);
            s = edit_runtime i (\<lambda>rt. rt\<lparr>rn_condition := (if condition_now then 1 else 0)\<rparr>) s;
            s = automation_diag_mark_eval i condition_now trigger_ms s
        in if (condition_now \<or> rising_edge) \<and> \<not> automation_eval_interlock (sys_state (at_system s)) (at_interlocks s ! i)
           then automation_diag_mark_action P i (scast (an_on_true n)) AUTOMATION_ACTION_BLOCKED_FAILSAFE
                  (cluster_io_is_local (ucast (an_output n)) (env_io env))
                  (cluster_io_get_owner (ucast (an_output n)) (env_io env))
                  (cluster_io_get_original_owner (ucast (an_output n)) (env_io env)) s
           else trigger_mode P env i condition_now rising_edge s)"

text \<open>
  The second loop: an output that is on while the interlock of its rule fails is switched. Interlocks
  have at most two conditions; the scan of the channels stops there.
\<close>

definition guard_rule ::
    "'w platform \<Rightarrow> ('c, 'x, 'p) automation_env \<Rightarrow> endap_event_t \<Rightarrow> nat \<Rightarrow> 'w automation \<Rightarrow> 'w automation" where
  "guard_rule P env ev i s =
     (let n = at_nodes s ! i; il = at_interlocks s ! i in
      if il_enabled il = 0 \<or> il_cond_count il = 0 then s
      else if \<not> list_ex (\<lambda>c. acn_channel c = ev_source ev) (take (unat (il_cond_count il)) (il_conditions il)) then s
      else case state_get_int (sys_state (at_system s)) (an_output n) of
          None \<Rightarrow> s
        | Some out_val \<Rightarrow>
            if out_val \<noteq> 0 \<and> \<not> automation_eval_interlock (sys_state (at_system s)) il
            then snd (automation_dispatch_output P env (an_output n) (scast (an_on_false n)) i
                   (edit_runtime i (\<lambda>rt. rt\<lparr>rn_timer_active := 0, rn_pulse_active := 0, rn_latched_true := 0\<rparr>) s))
            else s)"

definition automation_event_handler ::
    "'w platform \<Rightarrow> ('c, 'x, 'p) automation_env \<Rightarrow> endap_event_t \<Rightarrow> 'w automation \<Rightarrow> 'w automation" where
  "automation_event_handler P env ev s =
     (if ev_type ev \<noteq> EVENT_STATE_CHANGE then s
      else case automation_now_ms P s of (trigger_ms, s) \<Rightarrow>
        fold (guard_rule P env ev) [0..<at_node_count s] (fold (trigger_rule P env ev trigger_ms) [0..<at_node_count s] s))"

text \<open>The tick, for rule \<open>i\<close>.\<close>

definition tick_rule :: "'w platform \<Rightarrow> ('c, 'x, 'p) automation_env \<Rightarrow> nat \<Rightarrow> 'w automation \<Rightarrow> 'w automation" where
  "tick_rule P env i s =
     (let n = at_nodes s ! i; rt = at_runtime_nodes s ! i; mode = an_mode n in
      if rn_timer_active rt = 0 then s
      else if \<not> automation_time_reached (rn_deadline_ms rt) s then s
      else
        let s = edit_runtime i (\<lambda>rt. rt\<lparr>rn_timer_active := 0\<rparr>) s in
        if mode = AUTOMATION_MODE_PULSE_MS then
          if rn_pulse_active rt \<noteq> 0
          then automation_apply_output P env n i False (edit_runtime i (\<lambda>rt. rt\<lparr>rn_pulse_active := 0\<rparr>) s)
          else s
        else if mode = AUTOMATION_MODE_ON_DELAY_MS then
          if rn_condition rt \<noteq> 0
          then automation_apply_output P env n i True (edit_runtime i (\<lambda>rt. rt\<lparr>rn_latched_true := 1\<rparr>) s)
          else s
        else if mode = AUTOMATION_MODE_OFF_DELAY_MS then
          if rn_condition rt = 0
          then automation_apply_output P env n i False (edit_runtime i (\<lambda>rt. rt\<lparr>rn_latched_true := 0\<rparr>) s)
          else s
        else s)"

definition automation_engine_tick_1ms :: "'w platform \<Rightarrow> ('c, 'x, 'p) automation_env \<Rightarrow> 'w automation \<Rightarrow> 'w automation" where
  "automation_engine_tick_1ms P env s =
     (let s = s\<lparr>at_tick_ms := at_tick_ms s + 1\<rparr> in fold (tick_rule P env) [0..<at_node_count s] s)"

subsection \<open>Registration\<close>

definition automation_engine_add_rule ::
    "'w platform \<Rightarrow> ('c, 'x, 'p) automation_env \<Rightarrow> i32 \<Rightarrow> u8 \<Rightarrow> u8 \<Rightarrow> i32 \<Rightarrow> u16 \<Rightarrow> i32 \<Rightarrow> i32 \<Rightarrow> i32 \<Rightarrow> 'w automation \<Rightarrow>
     automation_result_t \<times> 'w automation" where
  "automation_engine_add_rule P env input opr mode threshold duration_ms output on_true on_false s =
     (if \<not> automation_valid_input env input \<or> \<not> automation_valid_output env output \<or>
         \<not> automation_valid_operator opr \<or> \<not> automation_valid_mode mode \<or>
         \<not> automation_valid_action on_true \<or> \<not> automation_valid_action on_false \<or>
         timed_mode mode \<and> duration_ms = 0
      then (AUTOMATION_RESULT_INVALID, s)
      else
        let candidate = \<lparr>an_input = ucast input, an_output = ucast output, an_threshold = threshold, an_op = opr,
              an_mode = mode, an_duration_ms = duration_ms, an_on_true = ucast on_true, an_on_false = ucast on_false\<rparr>;
            count = at_node_count s
        in case List.find (\<lambda>n. automation_rules_equal n candidate \<or> automation_rule_conflicts n candidate)
               (take count (at_nodes s)) of
             Some n \<Rightarrow> (if automation_rules_equal n candidate then AUTOMATION_RESULT_DUPLICATE else AUTOMATION_RESULT_CONFLICT, s)
           | None \<Rightarrow>
               if AUTOMATION_ENGINE_MAX_NODES \<le> count then (AUTOMATION_RESULT_FULL, s)
               else
                 let s = automation_persist P
                       (s\<lparr>at_nodes := (at_nodes s)[count := candidate],
                          at_interlocks := (at_interlocks s)[count := zero_interlock],
                          at_runtime_nodes := (at_runtime_nodes s)[count := zero_runtime],
                          at_rule_diags := (at_rule_diags s)[count := zero_diag],
                          at_node_count := count + 1\<rparr>)
                 in (AUTOMATION_RESULT_OK,
                     case state_get_int (sys_state (at_system s)) (ucast input) of
                       None \<Rightarrow> s
                     | Some v \<Rightarrow> automation_event_handler P env
                         \<lparr>ev_type = EVENT_STATE_CHANGE, ev_source = ucast input, ev_data = v\<rparr> s))"

definition automation_engine_set_interlock_at ::
    "'w platform \<Rightarrow> int \<Rightarrow> automation_interlock_t option \<Rightarrow> 'w automation \<Rightarrow> bool \<times> 'w automation" where
  "automation_engine_set_interlock_at P index interlock s =
     (if index < 0 \<or> int (at_node_count s) \<le> index then (False, s)
      else (True, automation_persist P (s\<lparr>at_interlocks := (at_interlocks s)[nat index :=
             (case interlock of Some il \<Rightarrow> il | None \<Rightarrow> zero_interlock)]\<rparr>)))"

definition automation_engine_get_interlock_at :: "int \<Rightarrow> 'w automation \<Rightarrow> automation_interlock_t option" where
  "automation_engine_get_interlock_at index s =
     (if index < 0 \<or> int (at_node_count s) \<le> index then None else Some (at_interlocks s ! nat index))"

definition automation_engine_add_node ::
    "'w platform \<Rightarrow> ('c, 'x, 'p) automation_env \<Rightarrow> i32 \<Rightarrow> i32 \<Rightarrow> i32 \<Rightarrow> 'w automation \<Rightarrow> bool \<times> 'w automation" where
  "automation_engine_add_node P env input threshold output s =
     (case automation_engine_add_rule P env input AUTOMATION_OP_GT AUTOMATION_MODE_FOLLOW threshold 0 output 1 0 s of
        (result, s) \<Rightarrow> (result = AUTOMATION_RESULT_OK \<or> result = AUTOMATION_RESULT_DUPLICATE, s))"

definition automation_engine_get_node_count :: "'w automation \<Rightarrow> nat" where
  "automation_engine_get_node_count s = at_node_count s"

text \<open>A null buffer (\<open>out\<close> false) only asks for the count.\<close>

definition automation_engine_export_nodes :: "bool \<Rightarrow> int \<Rightarrow> 'w automation \<Rightarrow> nat \<times> automation_node_t list" where
  "automation_engine_export_nodes out max_nodes s =
     (if \<not> out \<or> max_nodes \<le> 0 then (at_node_count s, [])
      else let copy_count = min (at_node_count s) (nat max_nodes) in (copy_count, take copy_count (at_nodes s)))"

definition automation_engine_export_diags :: "bool \<Rightarrow> int \<Rightarrow> 'w automation \<Rightarrow> nat \<times> automation_rule_diag_t list" where
  "automation_engine_export_diags out max_nodes s =
     (if \<not> out \<or> max_nodes \<le> 0 then (at_node_count s, [])
      else let copy_count = min (at_node_count s) (nat max_nodes) in (copy_count, take copy_count (at_rule_diags s)))"

text \<open>The shift of one array: entries after \<open>i\<close> move down, the last one in use is zeroed.\<close>

definition shift_out :: "nat \<Rightarrow> nat \<Rightarrow> 'a \<Rightarrow> 'a list \<Rightarrow> 'a list" where
  "shift_out i k z xs = take i xs @ take (k - Suc i) (drop (Suc i) xs) @ z # drop k xs"

definition automation_engine_remove_node_at :: "'w platform \<Rightarrow> int \<Rightarrow> 'w automation \<Rightarrow> bool \<times> 'w automation" where
  "automation_engine_remove_node_at P index s =
     (if index < 0 \<or> int (at_node_count s) \<le> index then (False, s)
      else let i = nat index; count = at_node_count s in
        (True, automation_persist P
          (s\<lparr>at_nodes := shift_out i count zero_rule (at_nodes s),
             at_interlocks := shift_out i count zero_interlock (at_interlocks s),
             at_runtime_nodes := shift_out i count zero_runtime (at_runtime_nodes s),
             at_rule_diags := shift_out i count zero_diag (at_rule_diags s),
             at_node_count := count - 1\<rparr>)))"

definition automation_engine_clear :: "'w platform \<Rightarrow> 'w automation \<Rightarrow> 'w automation" where
  "automation_engine_clear P s =
     automation_persist P
       (s\<lparr>at_nodes := replicate AUTOMATION_ENGINE_MAX_NODES zero_rule,
          at_interlocks := replicate AUTOMATION_ENGINE_MAX_NODES zero_interlock,
          at_runtime_nodes := replicate AUTOMATION_ENGINE_MAX_NODES zero_runtime,
          at_rule_diags := replicate AUTOMATION_ENGINE_MAX_NODES zero_diag, at_node_count := 0\<rparr>)"

definition automation_engine_has_persisted_config :: "'w automation \<Rightarrow> bool" where
  "automation_engine_has_persisted_config s = at_persisted_config s"

text \<open>
  \<open>created\<close>: the queue could be created. The task, the callback of the protocol and the subscription of the
  event bus, which the code registers here, are the functions above.
\<close>

definition automation_engine_init ::
    "'w platform \<Rightarrow> ('c, 'x, 'p) automation_env \<Rightarrow> bool \<Rightarrow> nat \<Rightarrow> 'w automation \<Rightarrow> 'w automation" where
  "automation_engine_init P env created handler s =
     (let s = s\<lparr>at_nodes := replicate AUTOMATION_ENGINE_MAX_NODES zero_rule,
                at_runtime_nodes := replicate AUTOMATION_ENGINE_MAX_NODES zero_runtime,
                at_rule_diags := replicate AUTOMATION_ENGINE_MAX_NODES zero_diag,
                at_node_count := 0, at_persisted_config := False, at_tick_ms := 0\<rparr>;
          s = (if at_remote_queue s = None \<and> created then s\<lparr>at_remote_queue := Some []\<rparr> else s);
          s = automation_load P env s
      in s\<lparr>at_system := (at_system s)\<lparr>sys_bus := event_bus_subscribe (unat EVENT_STATE_CHANGE) (Some handler) (sys_bus (at_system s))\<rparr>\<rparr>)"

section \<open>What an action changes\<close>

lemma now_frame [simp]:
  "at_nodes (snd (automation_now_ms P s)) = at_nodes s" "at_interlocks (snd (automation_now_ms P s)) = at_interlocks s"
  "at_node_count (snd (automation_now_ms P s)) = at_node_count s"
  "at_runtime_nodes (snd (automation_now_ms P s)) = at_runtime_nodes s"
  "at_rule_diags (snd (automation_now_ms P s)) = at_rule_diags s" "at_tick_ms (snd (automation_now_ms P s)) = at_tick_ms s"
  "at_failsafe (snd (automation_now_ms P s)) = at_failsafe s" "at_remote_queue (snd (automation_now_ms P s)) = at_remote_queue s"
  "sys_state (at_system (snd (automation_now_ms P s))) = sys_state (at_system s)"
  by (simp_all add: automation_now_ms_def case_prod_beta)

lemma edit_frame [simp]:
  "at_nodes (edit_runtime i f s) = at_nodes s" "at_interlocks (edit_runtime i f s) = at_interlocks s"
  "at_node_count (edit_runtime i f s) = at_node_count s" "at_rule_diags (edit_runtime i f s) = at_rule_diags s"
  "at_tick_ms (edit_runtime i f s) = at_tick_ms s" "at_failsafe (edit_runtime i f s) = at_failsafe s"
  "at_system (edit_runtime i f s) = at_system s" "at_remote_queue (edit_runtime i f s) = at_remote_queue s"
  "at_runtime_nodes (edit_runtime i f s) = (at_runtime_nodes s)[i := f (at_runtime_nodes s ! i)]"
  "at_nodes (edit_diag i g s) = at_nodes s" "at_interlocks (edit_diag i g s) = at_interlocks s"
  "at_node_count (edit_diag i g s) = at_node_count s" "at_runtime_nodes (edit_diag i g s) = at_runtime_nodes s"
  "at_tick_ms (edit_diag i g s) = at_tick_ms s" "at_failsafe (edit_diag i g s) = at_failsafe s"
  "at_system (edit_diag i g s) = at_system s" "at_remote_queue (edit_diag i g s) = at_remote_queue s"
  "at_rule_diags (edit_diag i g s) = (at_rule_diags s)[i := g (at_rule_diags s ! i)]"
  by (simp_all add: edit_runtime_def edit_diag_def)

lemma mark_frame [simp]:
  "at_nodes (automation_diag_mark_action P i v r l ow oo s) = at_nodes s"
  "at_interlocks (automation_diag_mark_action P i v r l ow oo s) = at_interlocks s"
  "at_node_count (automation_diag_mark_action P i v r l ow oo s) = at_node_count s"
  "at_runtime_nodes (automation_diag_mark_action P i v r l ow oo s) = at_runtime_nodes s"
  "at_tick_ms (automation_diag_mark_action P i v r l ow oo s) = at_tick_ms s"
  "at_failsafe (automation_diag_mark_action P i v r l ow oo s) = at_failsafe s"
  "at_remote_queue (automation_diag_mark_action P i v r l ow oo s) = at_remote_queue s"
  "sys_state (at_system (automation_diag_mark_action P i v r l ow oo s)) = sys_state (at_system s)"
  "length (at_rule_diags (automation_diag_mark_action P i v r l ow oo s)) = length (at_rule_diags s)"
  by (simp_all add: automation_diag_mark_action_def case_prod_beta)

lemma mark_eval_frame [simp]:
  "at_nodes (automation_diag_mark_eval i c t s) = at_nodes s" "at_interlocks (automation_diag_mark_eval i c t s) = at_interlocks s"
  "at_node_count (automation_diag_mark_eval i c t s) = at_node_count s"
  "at_runtime_nodes (automation_diag_mark_eval i c t s) = at_runtime_nodes s"
  "at_tick_ms (automation_diag_mark_eval i c t s) = at_tick_ms s" "at_failsafe (automation_diag_mark_eval i c t s) = at_failsafe s"
  "at_system (automation_diag_mark_eval i c t s) = at_system s"
  "length (at_rule_diags (automation_diag_mark_eval i c t s)) = length (at_rule_diags s)"
  by (simp_all add: automation_diag_mark_eval_def)

lemma dispatch_frame [simp]:
  "at_nodes (snd (automation_dispatch_output P env o' v i s)) = at_nodes s"
  "at_interlocks (snd (automation_dispatch_output P env o' v i s)) = at_interlocks s"
  "at_node_count (snd (automation_dispatch_output P env o' v i s)) = at_node_count s"
  "at_runtime_nodes (snd (automation_dispatch_output P env o' v i s)) = at_runtime_nodes s"
  "at_tick_ms (snd (automation_dispatch_output P env o' v i s)) = at_tick_ms s"
  "length (at_rule_diags (snd (automation_dispatch_output P env o' v i s))) = length (at_rule_diags s)"
  by (simp_all add: automation_dispatch_output_def Let_def case_prod_beta split: option.split)

lemma persist_frame [simp]:
  "at_nodes (automation_persist P s) = at_nodes s" "at_interlocks (automation_persist P s) = at_interlocks s"
  "at_node_count (automation_persist P s) = at_node_count s" "at_runtime_nodes (automation_persist P s) = at_runtime_nodes s"
  "at_rule_diags (automation_persist P s) = at_rule_diags s" "at_tick_ms (automation_persist P s) = at_tick_ms s"
  "at_failsafe (automation_persist P s) = at_failsafe s" "sys_state (at_system (automation_persist P s)) = sys_state (at_system s)"
  by (simp_all add: automation_persist_def case_prod_beta Let_def)

text \<open>The rules, their interlocks and the sizes of the arrays, which evaluation never changes.\<close>

definition same_rules :: "'w automation \<Rightarrow> 'w automation \<Rightarrow> bool" where
  "same_rules s s' \<longleftrightarrow> at_nodes s' = at_nodes s \<and> at_interlocks s' = at_interlocks s \<and> at_node_count s' = at_node_count s \<and>
     length (at_runtime_nodes s') = length (at_runtime_nodes s) \<and> length (at_rule_diags s') = length (at_rule_diags s) \<and>
     at_tick_ms s' = at_tick_ms s"

lemma same_rules_trans: "same_rules s s' \<Longrightarrow> same_rules s' s'' \<Longrightarrow> same_rules s s''"
  by (simp add: same_rules_def)

lemma same_rules_fold: "(\<And>i s. same_rules s (f i s)) \<Longrightarrow> same_rules s (fold f xs s)"
  by (rule fold_preorder [of same_rules]) (simp_all add: same_rules_def)

lemma same_rules_steps:
  "same_rules s (trigger_rule P env ev t i s)" "same_rules s (guard_rule P env ev i s)" "same_rules s (tick_rule P env i s)"
  by (simp_all add: same_rules_def trigger_rule_def trigger_mode_def guard_rule_def tick_rule_def Let_def
      automation_apply_output_def automation_toggle_output_def split: option.split)

lemma same_rules_handler: "same_rules s (automation_event_handler P env ev s)"
proof -
  have "same_rules s (snd (automation_now_ms P s))" by (simp add: same_rules_def)
  then show ?thesis
    by (auto simp: automation_event_handler_def case_prod_beta same_rules_def [of s s]
        intro!: same_rules_trans [OF _ same_rules_fold] same_rules_steps)
qed

section \<open>Runs\<close>

text \<open>
  Everything that reaches the engine after its initialisation: changes of variables, ticks, commands of other
  nodes, rounds of the sending task, and changes of the rules. An interlock is a C structure with two conditions.
\<close>

inductive automation_step :: "'w platform \<Rightarrow> ('c, 'x, 'p) automation_env \<Rightarrow> 'w automation \<Rightarrow> 'w automation \<Rightarrow> bool" for P env where
  event: "automation_step P env s (automation_event_handler P env ev s)"
| tick: "automation_step P env s (automation_engine_tick_1ms P env s)"
| command: "automation_step P env s (automation_handle_output_command P env (reg :: unit registry) msg s)"
| send: "automation_step P env s (automation_dispatcher_task ready bcast s)"
| add: "automation_engine_add_rule P env input opr mode threshold duration output on_true on_false s = (r, s') \<Longrightarrow> automation_step P env s s'"
| interlock: "automation_engine_set_interlock_at P index il s = (r, s') \<Longrightarrow>
    (\<And>x. il = Some x \<Longrightarrow> length (il_conditions x) = AUTOMATION_MAX_INTERLOCK_COND) \<Longrightarrow> automation_step P env s s'"
| remove: "automation_engine_remove_node_at P index s = (r, s') \<Longrightarrow> automation_step P env s s'"
| clear: "automation_step P env s (automation_engine_clear P s)"

subsection \<open>The failsafe latch\<close>

text \<open>The output is in the failsafe state and waits for a manual rearm.\<close>

definition latched :: "u16 \<Rightarrow> failsafe \<Rightarrow> bool" where
  "latched out f \<longleftrightarrow> (case failsafe_find out f of None \<Rightarrow> False
     | Some i \<Rightarrow> fp_enabled (fe_policy (fs_entries f ! i)) \<noteq> 0 \<and> fe_active (fs_entries f ! i) \<and>
         fp_recovery_mode (fe_policy (fs_entries f ! i)) = FAILSAFE_RECOVERY_MANUAL)"

definition keeps_latch :: "u16 \<Rightarrow> 'w automation \<Rightarrow> 'w automation \<Rightarrow> bool" where
  "keeps_latch out s s' \<longleftrightarrow> (latched out (at_failsafe s) \<longrightarrow> latched out (at_failsafe s') \<and>
     state_get_int (sys_state (at_system s')) out = state_get_int (sys_state (at_system s)) out)"

lemma latch_refl: "keeps_latch out s s"
  by (simp add: keeps_latch_def)

lemma latch_trans: "keeps_latch out s s' \<Longrightarrow> keeps_latch out s' s'' \<Longrightarrow> keeps_latch out s s''"
  by (auto simp: keeps_latch_def)

lemma latch_fold: "(\<And>i s. keeps_latch out s (f i s)) \<Longrightarrow> keeps_latch out s (fold f xs s)"
  by (rule fold_preorder [of "keeps_latch out"]) (auto intro: latch_refl latch_trans)

lemma latch_same: "at_failsafe s' = at_failsafe s \<Longrightarrow> sys_state (at_system s') = sys_state (at_system s) \<Longrightarrow> keeps_latch out s s'"
  by (simp add: keeps_latch_def)

lemma set_int_other:
  "out \<noteq> sid \<Longrightarrow> state_get_int (sys_state (snd (state_set_int P sid v s))) out = state_get_int (sys_state s) out"
  by (simp add: state_set_int_def state_get_int_def Let_def)

text \<open>The guard keeps every latch and refuses a latched output.\<close>

lemma guard_latched: "latched out (snd (snd (failsafe_guard_command out' v f))) = latched out f"
proof (cases "failsafe_find out' f")
  case None
  then show ?thesis by (simp add: failsafe_guard_command_def)
next
  case (Some i)
  let ?e = "fs_entries f ! i"
  let ?f = "f\<lparr>fs_entries := (fs_entries f)[i := ?e\<lparr>fe_last_applied_value := failsafe_binary_value v\<rparr>]\<rparr>"
  have i: "i < length (fs_entries f)" using Some by (auto simp: failsafe_find_def dest: find_index_lt)
  then have "failsafe_find out ?f = failsafe_find out f" by (simp add: failsafe_find_def find_index_update_same_test)
  then have "latched out ?f = latched out f" using i by (auto simp: latched_def nth_list_update split: option.split)
  then show ?thesis using Some by (simp add: failsafe_guard_command_def Let_def)
qed

lemma guard_refuses: "latched out f \<Longrightarrow> \<not> fst (failsafe_guard_command out v f)"
  by (auto simp: latched_def failsafe_guard_command_def Let_def split: option.splits)

lemma guard_other: "fst (failsafe_guard_command out' v f) \<Longrightarrow> latched out f \<Longrightarrow> out \<noteq> out'"
  using guard_refuses by blast

lemma latch_dispatch: "keeps_latch out s (snd (automation_dispatch_output P env out' v i s))"
proof (cases "cluster_io_is_local (ucast out') (env_io env)")
  case True
  then show ?thesis
    using guard_latched [of out out' v "at_failsafe s"] guard_other [of out' v "at_failsafe s" out]
    by (auto simp: keeps_latch_def automation_dispatch_output_def Let_def case_prod_beta intro!: set_int_other)
next
  case False
  then show ?thesis
    by (intro latch_same) (simp_all add: automation_dispatch_output_def Let_def split: option.split)
qed

lemma latch_edit [simp]: "keeps_latch out (edit_runtime i f s) s' = keeps_latch out s s'" "keeps_latch out s (edit_runtime i f s') = keeps_latch out s s'"
  by (simp_all add: keeps_latch_def)

lemma latch_dispatch_edit: "keeps_latch out s (snd (automation_dispatch_output P env out' v i (edit_runtime j f s)))"
  using latch_dispatch [of out "edit_runtime j f s"] by simp

lemma latch_mode: "keeps_latch out s (trigger_mode P env i c r s)"
  by (simp add: trigger_mode_def Let_def automation_apply_output_def automation_toggle_output_def latch_refl
      latch_dispatch latch_dispatch_edit)

lemma latch_trigger: "keeps_latch out s (trigger_rule P env ev t i s)"
proof -
  have edit: "keeps_latch out s (automation_diag_mark_eval i c t (edit_runtime i f s))" for c f by (rule latch_same) simp_all
  then show ?thesis
    using latch_trans [OF edit latch_mode]
    by (auto simp: trigger_rule_def Let_def latch_refl intro: latch_same)
qed

lemma latch_guard: "keeps_latch out s (guard_rule P env ev i s)"
  by (simp add: guard_rule_def Let_def latch_refl latch_dispatch_edit split: option.split)

lemma latch_tick_rule: "keeps_latch out s (tick_rule P env i s)"
proof -
  have "keeps_latch out s (snd (automation_dispatch_output P env out' v k (edit_runtime i f (edit_runtime j g s))))" for out' v k f j g
    using latch_dispatch [of out "edit_runtime i f (edit_runtime j g s)"] by simp
  then show ?thesis by (simp add: tick_rule_def Let_def automation_apply_output_def latch_refl)
qed

lemma latch_handler: "keeps_latch out s (automation_event_handler P env ev s)"
proof -
  have "keeps_latch out s (snd (automation_now_ms P s))" by (rule latch_same) simp_all
  then show ?thesis
    by (auto simp: automation_event_handler_def case_prod_beta latch_refl
        intro!: latch_trans [OF _ latch_fold] latch_trigger latch_guard)
qed

lemma latch_command: "keeps_latch out s (automation_handle_output_command P env reg msg s)"
  using guard_latched [of out "cmd_output_id msg" "cmd_value msg" "at_failsafe s"]
    guard_other [of "cmd_output_id msg" "cmd_value msg" "at_failsafe s" out]
  by (auto simp: keeps_latch_def automation_handle_output_command_def Let_def case_prod_beta intro!: set_int_other)

lemma latch_step:
  assumes "automation_step P env s s'"
  shows "keeps_latch out s s'"
  using assms
proof cases
  case tick
  have "keeps_latch out s (s\<lparr>at_tick_ms := at_tick_ms s + 1\<rparr>)" by (rule latch_same) simp_all
  then show ?thesis unfolding tick automation_engine_tick_1ms_def Let_def
    by (rule latch_trans) (rule latch_fold, rule latch_tick_rule)
next
  case (add inp opr mode threshold duration outp on_true on_false r)
  have "keeps_latch out s (automation_event_handler P env ev (automation_persist P s1))"
    if "at_failsafe s1 = at_failsafe s" "at_system s1 = at_system s" for ev s1
    using that by (intro latch_trans [OF latch_same latch_handler]) simp_all
  then show ?thesis using add
    by (auto simp: automation_engine_add_rule_def Let_def latch_refl split: if_splits option.splits intro: latch_same)
next
  case (send ready bcast)
  then show ?thesis
    by (intro latch_same) (auto simp: automation_dispatcher_task_def Let_def split: option.split list.split)
qed (auto simp: automation_engine_set_interlock_at_def automation_engine_remove_node_at_def automation_engine_clear_def Let_def
      latch_refl split: if_splits intro: latch_handler latch_command latch_same)

lemma latch_run: "(automation_step P env)\<^sup>*\<^sup>* s s' \<Longrightarrow> keeps_latch out s s'"
  by (induction rule: rtranclp_induct) (auto intro: latch_refl latch_trans latch_step)

subsection \<open>The rule table\<close>

definition rules :: "'w automation \<Rightarrow> automation_node_t list" where
  "rules s = take (at_node_count s) (at_nodes s)"

definition rules_ok :: "('c, 'x, 'p) automation_env \<Rightarrow> 'w automation \<Rightarrow> bool" where
  "rules_ok env s \<longleftrightarrow> length (at_nodes s) = AUTOMATION_ENGINE_MAX_NODES \<and>
     length (at_interlocks s) = AUTOMATION_ENGINE_MAX_NODES \<and> length (at_runtime_nodes s) = AUTOMATION_ENGINE_MAX_NODES \<and>
     length (at_rule_diags s) = AUTOMATION_ENGINE_MAX_NODES \<and> at_node_count s \<le> AUTOMATION_ENGINE_MAX_NODES \<and>
     acceptable_rules env (rules s) \<and>
     (\<forall>il \<in> set (at_interlocks s). length (il_conditions il) = AUTOMATION_MAX_INTERLOCK_COND)"

text \<open>The nested loops of the loader check that no rule conflicts with a later one.\<close>

lemma acceptable_iff:
  "acceptable_rules env rs \<longleftrightarrow> list_all (automation_rule_is_valid env) rs \<and> sorted_wrt (\<lambda>a b. \<not> automation_rule_conflicts a b) rs"
  by (auto simp: acceptable_rules_def list_all_length sorted_wrt_iff_nth_less)

lemma acceptable_snoc:
  "acceptable_rules env (rs @ [r]) \<longleftrightarrow>
     acceptable_rules env rs \<and> automation_rule_is_valid env r \<and> (\<forall>x \<in> set rs. \<not> automation_rule_conflicts x r)"
  by (auto simp: acceptable_iff sorted_wrt_append)

lemma acceptable_drop_one:
  assumes "acceptable_rules env rs"
  shows "acceptable_rules env (take i rs @ drop (Suc i) rs)"
proof (cases "i < length rs")
  case True
  then have "rs = take i rs @ rs ! i # drop (Suc i) rs" by (rule id_take_nth_drop)
  with assms have "acceptable_rules env (take i rs @ rs ! i # drop (Suc i) rs)" by simp
  then show ?thesis by (auto simp: acceptable_iff sorted_wrt_append)
qed (simp add: assms)

lemma length_shift_out: "i < k \<Longrightarrow> k \<le> length xs \<Longrightarrow> length (shift_out i k z xs) = length xs"
  by (simp add: shift_out_def)

lemma take_shift_out: "i < k \<Longrightarrow> k \<le> length xs \<Longrightarrow>
    take (k - 1) (shift_out i k z xs) = take i (take k xs) @ drop (Suc i) (take k xs)"
  by (simp add: shift_out_def drop_take)

lemma set_shift_out: "set (shift_out i k z xs) \<subseteq> insert z (set xs)"
  by (auto simp: shift_out_def dest: in_set_takeD in_set_dropD)

lemma ucast_u16_i32: "(ucast (ucast (x :: u16) :: i32) :: u16) = x"
  by (rule bit_word_eqI) (simp add: bit_simps)

lemma candidate_valid:
  assumes "automation_valid_input env input" "automation_valid_output env outp" "automation_valid_operator opr"
    "automation_valid_mode mode" "automation_valid_action on_true" "automation_valid_action on_false"
    "\<not> (timed_mode mode \<and> duration = 0)"
  shows "automation_rule_is_valid env \<lparr>an_input = ucast input, an_output = ucast outp, an_threshold = threshold, an_op = opr,
    an_mode = mode, an_duration_ms = duration, an_on_true = ucast on_true, an_on_false = ucast on_false\<rparr>"
  using assms
  by (auto simp: automation_rule_is_valid_def automation_valid_input_def automation_valid_output_def
      automation_valid_action_def ucast_u16_i32 word_gt_0)

lemma rules_ok_same: "rules_ok env s \<Longrightarrow> same_rules s s' \<Longrightarrow> rules_ok env s'"
  by (simp add: rules_ok_def same_rules_def rules_def)

lemma zero_interlock_conditions [simp]: "length (il_conditions zero_interlock) = AUTOMATION_MAX_INTERLOCK_COND"
  by (simp add: zero_interlock_def)

lemma rules_ok_add:
  assumes ok: "rules_ok env s" and add: "automation_engine_add_rule P env inp opr mode threshold duration outp on_true on_false s = (r, s')"
  shows "rules_ok env s'"
proof -
  let ?c = "\<lparr>an_input = ucast inp, an_output = ucast outp, an_threshold = threshold, an_op = opr,
    an_mode = mode, an_duration_ms = duration, an_on_true = ucast on_true, an_on_false = ucast on_false\<rparr>"
  let ?k = "at_node_count s"
  let ?s = "automation_persist P
     (s\<lparr>at_nodes := (at_nodes s)[?k := ?c], at_interlocks := (at_interlocks s)[?k := zero_interlock],
        at_runtime_nodes := (at_runtime_nodes s)[?k := zero_runtime],
        at_rule_diags := (at_rule_diags s)[?k := zero_diag], at_node_count := ?k + 1\<rparr>)"
  have new: "rules_ok env ?s"
    if "automation_rule_is_valid env ?c" "?k < AUTOMATION_ENGINE_MAX_NODES" "\<forall>x \<in> set (rules s). \<not> automation_rule_conflicts x ?c"
  proof -
    have "rules ?s = rules s @ [?c]" using ok that(2) by (simp add: rules_def rules_ok_def take_Suc_conv_app_nth)
    then show ?thesis using ok that
      by (auto simp: rules_ok_def acceptable_snoc dest!: set_update_subset_insert [THEN subsetD])
  qed
  show ?thesis
  proof (cases "r = AUTOMATION_RESULT_OK")
    case False
    then have "s' = s" using add by (auto simp: automation_engine_add_rule_def Let_def split: if_splits option.splits)
    then show ?thesis using ok by simp
  next
    case True
    then have "rules_ok env ?s" using add
      by (intro new candidate_valid)
        (auto simp: automation_engine_add_rule_def Let_def find_None_iff rules_def split: if_splits option.splits)
    moreover have "s' = ?s \<or> (\<exists>ev. s' = automation_event_handler P env ev ?s)"
      using add True by (auto simp: automation_engine_add_rule_def Let_def split: if_splits option.splits)
    ultimately show ?thesis using rules_ok_same same_rules_handler by blast
  qed
qed

lemma rules_ok_step:
  assumes "rules_ok env s" "automation_step P env s s'"
  shows "rules_ok env s'"
  using assms(2)
proof cases
  case tick
  have "same_rules (s\<lparr>at_tick_ms := at_tick_ms s + 1\<rparr>) (fold (tick_rule P env) xs (s\<lparr>at_tick_ms := at_tick_ms s + 1\<rparr>))" for xs
    by (rule same_rules_fold) (rule same_rules_steps)
  then show ?thesis using assms(1) tick
    by (auto simp: automation_engine_tick_1ms_def Let_def rules_ok_def same_rules_def rules_def)
next
  case (add inp opr mode threshold duration outp on_true on_false r)
  then show ?thesis using rules_ok_add [OF assms(1)] by blast
next
  case (remove index r)
  show ?thesis
  proof (cases r)
    case True
    then have i: "nat index < at_node_count s" and s': "s' = automation_persist P
        (s\<lparr>at_nodes := shift_out (nat index) (at_node_count s) zero_rule (at_nodes s),
           at_interlocks := shift_out (nat index) (at_node_count s) zero_interlock (at_interlocks s),
           at_runtime_nodes := shift_out (nat index) (at_node_count s) zero_runtime (at_runtime_nodes s),
           at_rule_diags := shift_out (nat index) (at_node_count s) zero_diag (at_rule_diags s),
           at_node_count := at_node_count s - 1\<rparr>)"
      using remove by (auto simp: automation_engine_remove_node_at_def Let_def split: if_splits)
    have "rules s' = take (nat index) (rules s) @ drop (Suc (nat index)) (rules s)"
      using take_shift_out [OF i, of "at_nodes s" zero_rule] assms(1) unfolding s' by (simp add: rules_def rules_ok_def)
    then have "acceptable_rules env (rules s')" using acceptable_drop_one [of env "rules s" "nat index"] assms(1) by (simp add: rules_ok_def)
    then show ?thesis using assms(1) i set_shift_out [of "nat index" "at_node_count s" zero_interlock "at_interlocks s"]
      by (auto simp: rules_ok_def s' length_shift_out)
  next
    case False
    then show ?thesis using remove assms(1) by (auto simp: automation_engine_remove_node_at_def Let_def split: if_splits)
  qed
next
  case (interlock index il r)
  then show ?thesis using assms(1)
    by (auto simp: automation_engine_set_interlock_at_def rules_ok_def rules_def split: if_splits option.splits
        dest!: set_update_subset_insert [THEN subsetD])
next
  case (event ev)
  then show ?thesis using rules_ok_same [OF assms(1)] same_rules_handler by blast
next
  case (command reg msg)
  then show ?thesis using assms(1)
    by (auto simp: automation_handle_output_command_def Let_def case_prod_beta rules_ok_def rules_def)
next
  case (send ready bcast)
  then show ?thesis using assms(1)
    by (auto simp: automation_dispatcher_task_def Let_def rules_ok_def rules_def split: option.split list.split)
next
  case clear
  then show ?thesis by (simp add: automation_engine_clear_def rules_ok_def rules_def acceptable_rules_def)
qed

lemma rules_equal_iff: "automation_rules_equal a b \<longleftrightarrow> a = b"
  by (cases a; cases b) (simp add: automation_rules_equal_def)

lemma no_conflict_pair:
  assumes "\<not> automation_rule_conflicts a b" "an_output a = an_output b"
  shows "a = b \<or> {an_mode a, an_mode b} = {AUTOMATION_MODE_FORCE_ON, AUTOMATION_MODE_FORCE_OFF}"
proof (cases "a = b")
  case False
  then have "automation_mode_is_force_pair (an_mode a)" "automation_mode_is_force_pair (an_mode b)" "an_mode a \<noteq> an_mode b"
    using assms by (auto simp: automation_rule_conflicts_def rules_equal_iff split: if_splits)
  then show ?thesis unfolding automation_mode_is_force_pair_def by (metis insert_commute)
qed simp

lemma rules_ok_run: "(automation_step P env)\<^sup>*\<^sup>* s s' \<Longrightarrow> rules_ok env s \<Longrightarrow> rules_ok env s'"
  by (induction rule: rtranclp_induct) (auto intro: rules_ok_step)

section \<open>Storage\<close>

lemma length_rule_bytes [simp]: "length (rule_bytes n) = 16"
  by (simp add: rule_bytes_def)

lemma rule_of_bytes [simp]: "rule_of (rule_bytes n) = n"
  by (simp add: rule_of_def rule_bytes_def nth_append)

lemma length_condition_bytes [simp]: "length (condition_bytes c) = 4"
  by (simp add: condition_bytes_def)

lemma condition_of_bytes [simp]: "condition_of (condition_bytes c @ ys) = c"
  by (simp add: condition_of_def condition_bytes_def nth_append)

lemma interlock_of_bytes:
  assumes "length (il_conditions il) = AUTOMATION_MAX_INTERLOCK_COND"
  shows "length (interlock_bytes il) = 12" "interlock_of (interlock_bytes il) = il"
proof -
  obtain a b where ab: "il_conditions il = [a, b]"
    using assms by (auto simp: AUTOMATION_MAX_INTERLOCK_COND_def length_Suc_conv numeral_2_eq_2)
  then show "length (interlock_bytes il) = 12" by (simp add: interlock_bytes_def)
  have "condition_of (condition_bytes b) = b" using condition_of_bytes [of b "[]"] by simp
  then show "interlock_of (interlock_bytes il) = il" using ab by (simp add: interlock_of_def interlock_bytes_def)
qed

lemma length_automation_body:
  assumes "rules_ok env s"
  shows "length (automation_body s) = 456" "length (automation_blob s) = SIZEOF_AUTOMATION_BLOB"
proof -
  let ?k = "at_node_count s"
  let ?rs = "map rule_bytes (take ?k (at_nodes s) @ replicate (AUTOMATION_ENGINE_MAX_NODES - ?k) zero_rule)"
  let ?is = "map interlock_bytes (take ?k (at_interlocks s) @ replicate (AUTOMATION_ENGINE_MAX_NODES - ?k) zero_interlock)"
  have k: "?k \<le> 16" "length (at_nodes s) = 16" "length (at_interlocks s) = 16"
    using assms by (simp_all add: rules_ok_def AUTOMATION_ENGINE_MAX_NODES_def)
  have "length (concat ?rs) = 16 * length ?rs" by (rule length_concat_same) auto
  moreover have "length ?rs = 16" using k by (simp add: AUTOMATION_ENGINE_MAX_NODES_def)
  ultimately have r: "length (concat ?rs) = 256" by presburger
  have "length (concat ?is) = 12 * length ?is"
    using assms by (intro length_concat_same) (auto simp: rules_ok_def interlock_of_bytes dest!: in_set_takeD)
  moreover have "length ?is = 16" using k by (simp add: AUTOMATION_ENGINE_MAX_NODES_def)
  ultimately have i: "length (concat ?is) = 192" by presburger
  show "length (automation_body s) = 456"
    unfolding automation_body_def length_append length_le32 length_le16 r i by simp
  then show "length (automation_blob s) = SIZEOF_AUTOMATION_BLOB"
    by (simp add: automation_blob_def SIZEOF_AUTOMATION_BLOB_def)
qed

text \<open>What the loader reads back from a blob that was written.\<close>

lemma blob_fields:
  assumes ok: "rules_ok env s"
  shows "blob_count (automation_blob s) = at_node_count s" "blob_header_ok AUTOMATION_VERSION (automation_blob s)"
    "blob_rules 16 rule_of (automation_blob s) = rules s"
    "blob_interlocks (automation_blob s) = take (at_node_count s) (at_interlocks s)"
proof -
  let ?k = "at_node_count s" let ?z = "AUTOMATION_ENGINE_MAX_NODES - ?k" let ?bs = "automation_blob s"
  let ?rs = "map rule_bytes (take ?k (at_nodes s) @ replicate ?z zero_rule)"
  let ?is = "map interlock_bytes (take ?k (at_interlocks s) @ replicate ?z zero_interlock)"
  let ?crc = "le32 (automation_crc32 (automation_body s))"
  have k: "?k \<le> 16" "length (at_nodes s) = 16" "length (at_interlocks s) = 16"
    using ok by (simp_all add: rules_ok_def AUTOMATION_ENGINE_MAX_NODES_def)
  have bs: "?bs = le32 AUTOMATION_MAGIC @ le16 AUTOMATION_VERSION @ le16 (of_nat ?k) @ concat ?rs @ concat ?is @ ?crc"
    by (simp add: automation_blob_def automation_body_def)
  show count: "blob_count ?bs = ?k" unfolding blob_count_def bs using k by simp
  have len: "length ?bs = 460" "length (automation_body s) = 456"
    using length_automation_body [OF ok] by (simp_all add: SIZEOF_AUTOMATION_BLOB_def)
  have "of_le32 (drop 456 ?bs) = automation_crc32 (automation_body s)" "take 456 ?bs = automation_body s"
    using len(2) by (simp_all add: automation_blob_def)
  then show "blob_header_ok AUTOMATION_VERSION ?bs"
    unfolding blob_header_ok_def count len(1) using k by (simp add: bs AUTOMATION_ENGINE_MAX_NODES_def)
  have r16: "\<forall>x \<in> set ?rs. length x = 16" by auto
  moreover have "length ?rs = 16" using k by (simp add: AUTOMATION_ENGINE_MAX_NODES_def)
  ultimately have r256: "length (concat ?rs) = 256" using length_concat_same [of ?rs 16] by presburger
  have ilen: "\<forall>x \<in> set ?is. length x = 12"
    using ok by (auto simp: rules_ok_def interlock_of_bytes dest!: in_set_takeD)
  have d8: "drop 8 ?bs = concat ?rs @ concat ?is @ ?crc" by (simp add: bs)
  have "take 16 (drop (8 + 16 * i) ?bs) = ?rs ! i" if "i < ?k" for i
  proof -
    have d: "drop (8 + 16 * i) ?bs = drop (16 * i) (concat ?rs @ concat ?is @ ?crc)" by (metis d8 drop_drop add.commute)
    have "i < length ?rs" using that k by simp
    then show ?thesis unfolding d by (rule take_drop_concat [OF r16])
  qed
  then show "blob_rules 16 rule_of ?bs = rules s"
    unfolding blob_rules_def count rules_def using k by (intro nth_equalityI) (simp_all add: nth_append)
  have d264: "drop 264 ?bs = concat ?is @ ?crc"
  proof -
    have "drop 264 ?bs = drop 256 (drop 8 ?bs)" by simp
    also have "\<dots> = concat ?is @ ?crc" unfolding d8 using r256 by (simp only: drop_append) simp
    finally show ?thesis .
  qed
  have "take 12 (drop (264 + 12 * i) ?bs) = ?is ! i" if "i < ?k" for i
  proof -
    have d: "drop (264 + 12 * i) ?bs = drop (12 * i) (concat ?is @ ?crc)" by (metis d264 drop_drop add.commute)
    have "i < length ?is" using that k by simp
    then show ?thesis unfolding d by (rule take_drop_concat [OF ilen])
  qed
  then show "blob_interlocks ?bs = take ?k (at_interlocks s)"
    unfolding blob_interlocks_def count using k ok
    by (intro nth_equalityI) (simp_all add: nth_append rules_ok_def interlock_of_bytes)
qed

subsection \<open>The storage during evaluation\<close>

definition keeps_nvs :: "'w platform \<Rightarrow> string \<Rightarrow> string \<Rightarrow> bytes \<Rightarrow> 'w automation \<Rightarrow> 'w automation \<Rightarrow> bool" where
  "keeps_nvs P ns key bs s s' \<longleftrightarrow>
     (nvs_holds P ns key bs (sys_world (at_system s)) \<longrightarrow> nvs_holds P ns key bs (sys_world (at_system s')))"

lemma nvs_now: "timer_keeps_nvs P \<Longrightarrow> keeps_nvs P ns key bs s (snd (automation_now_ms P s))"
  by (simp add: keeps_nvs_def automation_now_ms_def case_prod_beta timer_keeps_nvs_def)

lemma nvs_mark: "timer_keeps_nvs P \<Longrightarrow> keeps_nvs P ns key bs s (automation_diag_mark_action P i v r l ow oo s)"
  using nvs_now [of P ns key bs s] by (simp add: keeps_nvs_def automation_diag_mark_action_def case_prod_beta)

lemma nvs_dispatch: "timer_keeps_nvs P \<Longrightarrow> keeps_nvs P ns key bs s (snd (automation_dispatch_output P env out v i s))"
  using nvs_mark [of P ns key bs] set_int_keeps [of P ns key bs "at_system s" out]
  by (auto simp: keeps_nvs_def automation_dispatch_output_def Let_def case_prod_beta split: option.split)

lemma nvs_dispatch_edit:
  "timer_keeps_nvs P \<Longrightarrow> keeps_nvs P ns key bs s (snd (automation_dispatch_output P env out v i (edit_runtime j f s)))"
  using nvs_dispatch [of P ns key bs "edit_runtime j f s"] by (simp add: keeps_nvs_def)

lemma nvs_edit [simp]: "keeps_nvs P ns key bs s (edit_runtime i f s') = keeps_nvs P ns key bs s s'"
  by (simp add: keeps_nvs_def)

lemma nvs_refl: "keeps_nvs P ns key bs s s"
  by (simp add: keeps_nvs_def)

lemma nvs_trans: "keeps_nvs P ns key bs s t \<Longrightarrow> keeps_nvs P ns key bs t u \<Longrightarrow> keeps_nvs P ns key bs s u"
  by (simp add: keeps_nvs_def)

lemma nvs_mode: "timer_keeps_nvs P \<Longrightarrow> keeps_nvs P ns key bs s (trigger_mode P env i c r s)"
  by (simp add: trigger_mode_def Let_def automation_apply_output_def automation_toggle_output_def nvs_refl
      nvs_dispatch nvs_dispatch_edit)

lemma nvs_trigger:
  assumes "timer_keeps_nvs P"
  shows "keeps_nvs P ns key bs s (trigger_rule P env ev t i s)"
proof -
  have edit: "keeps_nvs P ns key bs s (automation_diag_mark_eval i c t (edit_runtime i f s))" for c f
    by (simp add: keeps_nvs_def)
  show ?thesis
    using nvs_trans [OF edit nvs_mode [OF assms]] nvs_trans [OF edit nvs_mark [OF assms]]
    by (auto simp: trigger_rule_def Let_def nvs_refl)
qed

lemma nvs_guard: "timer_keeps_nvs P \<Longrightarrow> keeps_nvs P ns key bs s (guard_rule P env ev i s)"
  by (simp add: guard_rule_def Let_def nvs_refl nvs_dispatch_edit split: option.split)

lemma nvs_handler:
  assumes "timer_keeps_nvs P"
  shows "keeps_nvs P ns key bs s (automation_event_handler P env ev s)"
proof -
  have "keeps_nvs P ns key bs s (fold (trigger_rule P env ev t) xs s)" "keeps_nvs P ns key bs s (fold (guard_rule P env ev) xs s)" for t xs s
    by (rule fold_preorder [of "keeps_nvs P ns key bs"]; (rule nvs_refl nvs_trigger [OF assms] nvs_guard [OF assms] | erule (1) nvs_trans))+
  from nvs_trans [OF nvs_trans [OF nvs_now [OF assms] this(1)] this(2)] show ?thesis
    by (simp add: automation_event_handler_def case_prod_beta nvs_refl)
qed

lemma blob_same: "same_rules t t' \<Longrightarrow> automation_blob t' = automation_blob t"
  by (simp add: automation_blob_def automation_body_def same_rules_def)

lemma blob_persist: "automation_blob (automation_persist P t) = automation_blob t"
  by (simp add: automation_blob_def automation_body_def)

lemma persist_holds:
  assumes "nvs_durable P" "\<And>bs. nvs_accepts P AUTOMATION_NAMESPACE AUTOMATION_KEY_RULES bs (sys_world (at_system s))"
  shows "nvs_holds P AUTOMATION_NAMESPACE AUTOMATION_KEY_RULES (automation_blob s) (sys_world (at_system (automation_persist P s)))"
proof -
  have "fst (nvs_store P AUTOMATION_NAMESPACE AUTOMATION_KEY_RULES (automation_blob s) (sys_world (at_system s)))"
    by (rule nvs_store_accepts [OF assms(2)])
  then show ?thesis
    using nvs_store_holds [OF assms(1), of AUTOMATION_NAMESPACE AUTOMATION_KEY_RULES "automation_blob s" "sys_world (at_system s)"]
    by (cases "nvs_store P AUTOMATION_NAMESPACE AUTOMATION_KEY_RULES (automation_blob s) (sys_world (at_system s))")
      (simp add: automation_persist_def Let_def)
qed

text \<open>The state before the initialisation at power-on.\<close>

definition power_on :: "failsafe \<Rightarrow> 'w system \<Rightarrow> 'w automation" where
  "power_on f sys = \<lparr>at_nodes = replicate AUTOMATION_ENGINE_MAX_NODES zero_rule,
     at_interlocks = replicate AUTOMATION_ENGINE_MAX_NODES zero_interlock, at_node_count = 0,
     at_persisted_config = False, at_tick_ms = 0, at_rule_diags = replicate AUTOMATION_ENGINE_MAX_NODES zero_diag,
     at_runtime_nodes = replicate AUTOMATION_ENGINE_MAX_NODES zero_runtime, at_remote_queue = None,
     at_failsafe = f, at_system = sys\<rparr>"

lemma automation_init_restores:
  assumes ok: "rules_ok env s" and holds: "nvs_holds P AUTOMATION_NAMESPACE AUTOMATION_KEY_RULES (automation_blob s) (sys_world sys)"
  shows "rules (automation_engine_init P env created handler (power_on f sys)) = rules s \<and>
    take (at_node_count s) (at_interlocks (automation_engine_init P env created handler (power_on f sys))) = take (at_node_count s) (at_interlocks s) \<and>
    at_persisted_config (automation_engine_init P env created handler (power_on f sys)) \<and>
    rules_ok env (automation_engine_init P env created handler (power_on f sys))"
proof -
  let ?b = "(power_on f sys)\<lparr>at_remote_queue := (if created then Some [] else None)\<rparr>"
  have k: "length (rules s) = at_node_count s" "at_node_count s \<le> 16" "length (at_interlocks s) = 16"
    using ok by (auto simp: rules_ok_def rules_def AUTOMATION_ENGINE_MAX_NODES_def)
  have il: "\<forall>il \<in> set (take (at_node_count s) (at_interlocks s)). length (il_conditions il) = AUTOMATION_MAX_INTERLOCK_COND"
    using ok by (auto simp: rules_ok_def dest: in_set_takeD)
  have "fst (nvs_fetch P AUTOMATION_NAMESPACE AUTOMATION_KEY_RULES
      (\<lambda>len. len \<in> {SIZEOF_AUTOMATION_BLOB, SIZEOF_AUTOMATION_BLOB_V3, SIZEOF_AUTOMATION_BLOB_V2, SIZEOF_AUTOMATION_BLOB_V1})
      (sys_world sys)) = Some (SIZEOF_AUTOMATION_BLOB, automation_blob s)"
    using nvs_fetch_holds [OF holds] length_automation_body(2) [OF ok] by simp
  then have load: "automation_load P env ?b = (let t = ?b\<lparr>at_system := sys\<lparr>sys_world := snd (nvs_fetch P AUTOMATION_NAMESPACE AUTOMATION_KEY_RULES
      (\<lambda>len. len \<in> {SIZEOF_AUTOMATION_BLOB, SIZEOF_AUTOMATION_BLOB_V3, SIZEOF_AUTOMATION_BLOB_V2, SIZEOF_AUTOMATION_BLOB_V1}) (sys_world sys))\<rparr>\<rparr>
      in t\<lparr>at_nodes := rules s @ drop (length (rules s)) (at_nodes t),
           at_interlocks := take (at_node_count s) (at_interlocks s) @ drop (length (rules s)) (at_interlocks t),
           at_node_count := length (rules s), at_persisted_config := True\<rparr>)"
    using blob_fields [OF ok] ok
    by (simp add: automation_load_def case_prod_beta load_automation_blob_def Let_def rules_ok_def power_on_def)
  have init: "automation_engine_init P env created handler (power_on f sys) = (let s' = automation_load P env ?b in
      s'\<lparr>at_system := (at_system s')\<lparr>sys_bus := event_bus_subscribe (unat EVENT_STATE_CHANGE) (Some handler) (sys_bus (at_system s'))\<rparr>\<rparr>)"
    by (simp add: automation_engine_init_def power_on_def)
  have acc: "acceptable_rules env (rules s)" using ok by (simp add: rules_ok_def)
  define R where "R = rules s"
  show ?thesis unfolding init load R_def [symmetric] using k [folded R_def] il acc [folded R_def]
    by (auto simp: Let_def power_on_def rules_def rules_ok_def AUTOMATION_ENGINE_MAX_NODES_def)
qed

section \<open>Timers\<close>

text \<open>A command to the output is accepted by the failsafe guard.\<close>

definition armed :: "u16 \<Rightarrow> failsafe \<Rightarrow> bool" where
  "armed out f \<longleftrightarrow> failsafe_find out f \<noteq> None \<and> \<not> latched out f"

lemma guard_permits: "fst (failsafe_guard_command out v f) = armed out f"
  by (auto simp: armed_def latched_def failsafe_guard_command_def Let_def split: option.splits)

lemma guard_value: "armed out f \<Longrightarrow> fst (snd (failsafe_guard_command out v f)) = Some (failsafe_binary_value v, ''command_allowed'')"
  by (auto simp: armed_def latched_def failsafe_guard_command_def Let_def split: option.splits)

lemma guard_find: "failsafe_find out (snd (snd (failsafe_guard_command out' v f))) = failsafe_find out f"
proof (cases "failsafe_find out' f")
  case (Some i)
  then have "i < length (fs_entries f)" by (auto simp: failsafe_find_def dest: find_index_lt)
  then show ?thesis using Some by (simp add: failsafe_guard_command_def Let_def failsafe_find_def find_index_update_same_test)
qed (simp add: failsafe_guard_command_def)

lemma guard_armed: "armed out (snd (snd (failsafe_guard_command out' v f))) = armed out f"
  by (simp add: armed_def guard_find guard_latched)

lemma mark_system_ok [simp]: "system_ok (at_system (automation_diag_mark_action P i v r l ow oo s)) = system_ok (at_system s)"
  by (simp add: automation_diag_mark_action_def automation_now_ms_def case_prod_beta system_ok_def)

text \<open>A command of another rule to another output.\<close>

definition untouched :: "nat \<Rightarrow> u16 \<Rightarrow> 'w automation \<Rightarrow> 'w automation \<Rightarrow> bool" where
  "untouched i out s s' \<longleftrightarrow> same_rules s s' \<and> at_runtime_nodes s' ! i = at_runtime_nodes s ! i \<and>
     state_get_int (sys_state (at_system s')) out = state_get_int (sys_state (at_system s)) out \<and>
     armed out (at_failsafe s') = armed out (at_failsafe s) \<and> (system_ok (at_system s) \<longrightarrow> system_ok (at_system s'))"

lemma untouched_refl: "untouched i out s s"
  by (simp add: untouched_def same_rules_def)

lemma untouched_trans: "untouched i out s t \<Longrightarrow> untouched i out t u \<Longrightarrow> untouched i out s u"
  by (simp add: untouched_def same_rules_def)

lemma untouched_dispatch:
  assumes "out \<noteq> out'"
  shows "untouched i out s (snd (automation_dispatch_output P env out' v j s))"
  using assms guard_armed set_int_ok
  by (auto simp: untouched_def same_rules_def automation_dispatch_output_def Let_def case_prod_beta set_int_other split: option.split)

lemma untouched_edit: "j \<noteq> i \<Longrightarrow> untouched i out s (edit_runtime j f s)"
  by (simp add: untouched_def same_rules_def)

lemma untouched_tick_rule:
  assumes "j \<noteq> i" "an_output (at_nodes s ! j) \<noteq> out"
  shows "untouched i out s (tick_rule P env j s)"
proof -
  note edit = untouched_edit [OF assms(1)]
  have "untouched i out s (snd (automation_dispatch_output P env (an_output (at_nodes s ! j)) v j (edit_runtime j f (edit_runtime j g s))))" for v f g
    using assms(2) by (intro untouched_trans [OF untouched_trans [OF edit edit] untouched_dispatch]) simp
  moreover have "untouched i out s (edit_runtime j g s)" for g by (rule edit)
  ultimately show ?thesis by (simp add: tick_rule_def Let_def automation_apply_output_def untouched_refl)
qed

lemma untouched_ticks:
  "\<forall>j \<in> set js. j \<noteq> i \<and> an_output (at_nodes s ! j) \<noteq> out \<Longrightarrow> untouched i out s (fold (tick_rule P env) js s)"
proof (induction js arbitrary: s)
  case (Cons j js)
  then have first: "untouched i out s (tick_rule P env j s)" by (intro untouched_tick_rule) simp_all
  then have "\<forall>k \<in> set js. k \<noteq> i \<and> an_output (at_nodes (tick_rule P env j s) ! k) \<noteq> out"
    using Cons.prems by (simp add: untouched_def same_rules_def)
  from Cons.IH [OF this] first show ?case by (auto intro: untouched_trans)
qed (simp add: untouched_refl)

text \<open>One tick, seen by the only rule of an output.\<close>

definition sole_rule :: "nat \<Rightarrow> u16 \<Rightarrow> 'w automation \<Rightarrow> bool" where
  "sole_rule i out s \<longleftrightarrow> i < at_node_count s \<and> at_node_count s \<le> length (at_runtime_nodes s) \<and>
     an_output (at_nodes s ! i) = out \<and> (\<forall>j < at_node_count s. j \<noteq> i \<longrightarrow> an_output (at_nodes s ! j) \<noteq> out)"

lemma tick_split:
  assumes "sole_rule i out s"
  shows "\<exists>t. untouched i out (s\<lparr>at_tick_ms := at_tick_ms s + 1\<rparr>) t \<and>
    untouched i out (tick_rule P env i t) (automation_engine_tick_1ms P env s)"
proof -
  let ?s = "s\<lparr>at_tick_ms := at_tick_ms s + 1\<rparr>" let ?k = "at_node_count s"
  let ?t = "fold (tick_rule P env) [0..<i] ?s" let ?u = "tick_rule P env i ?t"
  have i: "i < ?k" and others: "\<And>j. j < ?k \<Longrightarrow> j \<noteq> i \<Longrightarrow> an_output (at_nodes s ! j) \<noteq> out"
    using assms by (auto simp: sole_rule_def)
  have "[0..<?k] = [0..<i] @ i # [Suc i..<?k]"
    using i upt_add_eq_append [of 0 i "?k - i"] by (simp add: upt_conv_Cons)
  then have tick: "automation_engine_tick_1ms P env s = fold (tick_rule P env) [Suc i..<?k] ?u"
    by (simp add: automation_engine_tick_1ms_def)
  have t: "untouched i out ?s ?t" using i others by (intro untouched_ticks) auto
  have "same_rules ?t ?u" by (rule same_rules_steps)
  then have "at_nodes ?u = at_nodes s" using t by (simp add: untouched_def same_rules_def)
  then have "untouched i out ?u (fold (tick_rule P env) [Suc i..<?k] ?u)" using others by (intro untouched_ticks) auto
  with t tick show ?thesis by auto
qed

lemma sole_rule_tick: "sole_rule i out s \<Longrightarrow> sole_rule i out (automation_engine_tick_1ms P env s)"
proof -
  assume a: "sole_rule i out s"
  have "same_rules (s\<lparr>at_tick_ms := at_tick_ms s + 1\<rparr>) (automation_engine_tick_1ms P env s)"
    unfolding automation_engine_tick_1ms_def Let_def by (rule same_rules_fold) (rule same_rules_steps)
  then show ?thesis using a by (simp add: same_rules_def sole_rule_def)
qed

lemma tick_ms_tick: "at_tick_ms (automation_engine_tick_1ms P env s) = at_tick_ms s + 1"
proof -
  have "same_rules (s\<lparr>at_tick_ms := at_tick_ms s + 1\<rparr>) (automation_engine_tick_1ms P env s)"
    unfolding automation_engine_tick_1ms_def Let_def by (rule same_rules_fold) (rule same_rules_steps)
  then show ?thesis by (simp add: same_rules_def)
qed

lemma dispatch_local:
  assumes "cluster_io_is_local (ucast out) (env_io env)" "armed out (at_failsafe s)" "system_ok (at_system s)" "state_valid_id out"
  shows "state_get_int (sys_state (at_system (snd (automation_dispatch_output P env out v i s)))) out = Some (failsafe_binary_value v)"
  using assms guard_value [of out "at_failsafe s" v] guard_permits [of out v "at_failsafe s"]
    set_int_get [of "at_system s" P out "failsafe_binary_value v"]
  by (simp add: automation_dispatch_output_def Let_def case_prod_beta)

lemma time_reached:
  assumes "k \<le> 65535" "d \<le> 65535"
  shows "sint ((x + of_nat k) - (x + of_nat d) :: u32) \<ge> 0 \<longleftrightarrow> d \<le> k"
proof -
  have "(x + of_nat k) - (x + of_nat d) = (word_of_int (int k - int d) :: u32)" by simp
  moreover have "sint (word_of_int (int k - int d) :: u32) = int k - int d"
    unfolding sint_sbintrunc' by (rule signed_take_bit_int_eq_self) (use assms in simp_all)
  ultimately show ?thesis by simp
qed

text \<open>Before its deadline a timer runs on; the tick that reaches it stops the timer and acts.\<close>

lemma tick_waits:
  assumes "sole_rule i out s" "rn_deadline_ms (at_runtime_nodes s ! i) = at_tick_ms s + of_nat d" "1 < d" "d \<le> 65535"
  shows "untouched i out (s\<lparr>at_tick_ms := at_tick_ms s + 1\<rparr>) (automation_engine_tick_1ms P env s)"
proof -
  from tick_split [OF assms(1)] obtain t where
    t: "untouched i out (s\<lparr>at_tick_ms := at_tick_ms s + 1\<rparr>) t" "untouched i out (tick_rule P env i t) (automation_engine_tick_1ms P env s)"
    by blast
  have "at_tick_ms t = at_tick_ms s + of_nat 1" "at_runtime_nodes t ! i = at_runtime_nodes s ! i"
    using t(1) by (simp_all add: untouched_def same_rules_def)
  then have "\<not> automation_time_reached (rn_deadline_ms (at_runtime_nodes t ! i)) t"
    using assms(2-4) time_reached [of 1 d "at_tick_ms s"] by (simp add: automation_time_reached_def)
  then have "tick_rule P env i t = t" by (simp add: tick_rule_def Let_def)
  with t show ?thesis by (auto intro: untouched_trans)
qed

lemma tick_acts:
  assumes "sole_rule i out s" "rn_deadline_ms (at_runtime_nodes s ! i) = at_tick_ms s + 1" "rn_timer_active (at_runtime_nodes s ! i) \<noteq> 0"
    and "cluster_io_is_local (ucast out) (env_io env)" "armed out (at_failsafe s)" "system_ok (at_system s)" "state_valid_id out"
    and "an_mode (at_nodes s ! i) = AUTOMATION_MODE_PULSE_MS \<and> rn_pulse_active (at_runtime_nodes s ! i) \<noteq> 0 \<and> b = an_on_false (at_nodes s ! i) \<or>
      an_mode (at_nodes s ! i) = AUTOMATION_MODE_ON_DELAY_MS \<and> rn_condition (at_runtime_nodes s ! i) \<noteq> 0 \<and> b = an_on_true (at_nodes s ! i) \<or>
      an_mode (at_nodes s ! i) = AUTOMATION_MODE_OFF_DELAY_MS \<and> rn_condition (at_runtime_nodes s ! i) = 0 \<and> b = an_on_false (at_nodes s ! i)"
  shows "state_get_int (sys_state (at_system (automation_engine_tick_1ms P env s))) out = Some (failsafe_binary_value (scast b)) \<and>
    rn_timer_active (at_runtime_nodes (automation_engine_tick_1ms P env s) ! i) = 0"
proof -
  from tick_split [OF assms(1)] obtain t where
    t: "untouched i out (s\<lparr>at_tick_ms := at_tick_ms s + 1\<rparr>) t" "untouched i out (tick_rule P env i t) (automation_engine_tick_1ms P env s)"
    by blast
  have eq: "at_tick_ms t = at_tick_ms s + 1" "at_runtime_nodes t ! i = at_runtime_nodes s ! i" "at_nodes t = at_nodes s"
      "armed out (at_failsafe t)" "system_ok (at_system t)" "i < length (at_runtime_nodes t)"
    using t(1) assms(1,5,6) by (auto simp: untouched_def same_rules_def sole_rule_def)
  have reached: "automation_time_reached (at_tick_ms s + 1) t"
    using eq(1) by (simp add: automation_time_reached_def)
  have out: "an_output (at_nodes s ! i) = out" using assms(1) by (simp add: sole_rule_def)
  have "\<exists>f g. tick_rule P env i t = snd (automation_dispatch_output P env out (scast b) i (edit_runtime i f (edit_runtime i g t))) \<and>
      (\<forall>rt. rn_timer_active (f (g rt)) = 0)"
    using assms(2,3,8) reached eq(2,3) out
    by (elim disjE) (simp_all add: tick_rule_def Let_def automation_apply_output_def automation_modes, (rule exI, rule exI, rule conjI, rule refl, simp)+)
  then obtain f g where r: "tick_rule P env i t = snd (automation_dispatch_output P env out (scast b) i (edit_runtime i f (edit_runtime i g t)))"
    "\<And>rt. rn_timer_active (f (g rt)) = 0" by blast
  have "state_get_int (sys_state (at_system (tick_rule P env i t))) out = Some (failsafe_binary_value (scast b))"
    unfolding r(1) using assms(4,7) eq by (intro dispatch_local) simp_all
  moreover have "rn_timer_active (at_runtime_nodes (tick_rule P env i t) ! i) = 0" using eq(6) unfolding r(1) by (simp add: r(2))
  ultimately show ?thesis using t(2) by (simp add: untouched_def)
qed

lemma ticks_wait:
  assumes "sole_rule i out s" "rn_deadline_ms (at_runtime_nodes s ! i) = at_tick_ms s + of_nat d" "k < d" "d \<le> 65535"
  shows "let t = (automation_engine_tick_1ms P env ^^ k) s in
    sole_rule i out t \<and> at_tick_ms t = at_tick_ms s + of_nat k \<and> at_nodes t = at_nodes s \<and>
    at_runtime_nodes t ! i = at_runtime_nodes s ! i \<and> armed out (at_failsafe t) = armed out (at_failsafe s) \<and>
    state_get_int (sys_state (at_system t)) out = state_get_int (sys_state (at_system s)) out \<and>
    (system_ok (at_system s) \<longrightarrow> system_ok (at_system t))"
  using assms(3)
proof (induction k)
  case 0
  then show ?case using assms(1) by (simp add: Let_def)
next
  case (Suc k)
  define t where "t = (automation_engine_tick_1ms P env ^^ k) s"
  have IH: "sole_rule i out t" "at_tick_ms t = at_tick_ms s + of_nat k" "at_nodes t = at_nodes s"
    "at_runtime_nodes t ! i = at_runtime_nodes s ! i" "armed out (at_failsafe t) = armed out (at_failsafe s)"
    "state_get_int (sys_state (at_system t)) out = state_get_int (sys_state (at_system s)) out"
    "system_ok (at_system s) \<longrightarrow> system_ok (at_system t)"
    using Suc by (simp_all add: t_def [symmetric] Let_def)
  have "rn_deadline_ms (at_runtime_nodes t ! i) = at_tick_ms t + of_nat (d - k)"
    using IH(2,4) assms(2) Suc.prems by (simp add: of_nat_diff)
  then have "untouched i out (t\<lparr>at_tick_ms := at_tick_ms t + 1\<rparr>) (automation_engine_tick_1ms P env t)"
    using Suc.prems assms(4) by (intro tick_waits [OF IH(1), of "d - k"]) simp_all
  then show ?case using IH sole_rule_tick [OF IH(1), of P env] tick_ms_tick [of P env t]
    by (simp add: t_def [symmetric] Let_def untouched_def same_rules_def algebra_simps)
qed

section \<open>Properties\<close>

text \<open>
  C6: an output that the failsafe has latched stays at its value whatever the automation receives: changes of
  variables, ticks, commands of other nodes, new rules and interlocks, in any number and order.
  The latch itself stays too; only the failsafe interface can rearm the output.
\<close>

theorem automation_respects_failsafe_latch:
  assumes "latched out (at_failsafe s)" "(automation_step P env)\<^sup>*\<^sup>* s s'"
  shows "state_get_int (sys_state (at_system s')) out = state_get_int (sys_state (at_system s)) out \<and> latched out (at_failsafe s')"
  using latch_run [OF assms(2), of out] assms(1) by (simp add: keeps_latch_def)


text \<open>
  A pulse has its exact length. When the input of a pulse rule rises, its output, if this node owns it and the
  failsafe permits commands, takes the active value at once, keeps it for every tick before the
  configured duration and takes the inactive value with the tick that completes it, also when the
  tick counter wraps around.
\<close>

theorem automation_pulse_exact:
  assumes "sole_rule i out s" "an_mode (at_nodes s ! i) = AUTOMATION_MODE_PULSE_MS" "an_duration_ms (at_nodes s ! i) \<noteq> 0"
    and "cluster_io_is_local (ucast out) (env_io env)" "armed out (at_failsafe s)" "system_ok (at_system s)" "state_valid_id out"
    and "s1 = trigger_mode P env i True True s" "d = unat (an_duration_ms (at_nodes s ! i))"
  shows "(\<forall>k < d. state_get_int (sys_state (at_system ((automation_engine_tick_1ms P env ^^ k) s1))) out =
      Some (failsafe_binary_value (scast (an_on_true (at_nodes s ! i))))) \<and>
    state_get_int (sys_state (at_system ((automation_engine_tick_1ms P env ^^ d) s1))) out =
      Some (failsafe_binary_value (scast (an_on_false (at_nodes s ! i))))"
proof -
  let ?n = "at_nodes s ! i" let ?u = "snd (automation_dispatch_output P env out (scast (an_on_true ?n)) i s)"
  have out: "an_output ?n = out" "i < length (at_runtime_nodes s)" using assms(1) by (auto simp: sole_rule_def)
  have s1: "s1 = edit_runtime i (\<lambda>rt. rt\<lparr>rn_pulse_active := 1, rn_timer_active := 1, rn_deadline_ms := automation_deadline_after (an_duration_ms ?n) s\<rparr>) ?u"
    using assms(2,8) out(1) by (simp add: trigger_mode_def Let_def automation_apply_output_def automation_modes)
  have on: "state_get_int (sys_state (at_system s1)) out = Some (failsafe_binary_value (scast (an_on_true ?n)))"
    unfolding s1 using dispatch_local [OF assms(4-7)] by simp
  have ok: "system_ok (at_system s1)" "armed out (at_failsafe s1)"
    unfolding s1 using assms(4-6) guard_armed [of out out] set_int_ok
    by (auto simp: automation_dispatch_output_def Let_def case_prod_beta)
  have same: "sole_rule i out s1" "at_nodes s1 = at_nodes s" using assms(1) unfolding s1 by (simp_all add: sole_rule_def)
  have d: "0 < d" "d \<le> 65535" using assms(3,9) unat_u16_lt [of "an_duration_ms ?n"] by (simp_all add: unat_gt_0 del: unat_u16_lt)
  have rt: "rn_deadline_ms (at_runtime_nodes s1 ! i) = at_tick_ms s1 + of_nat d" "rn_timer_active (at_runtime_nodes s1 ! i) \<noteq> 0"
      "rn_pulse_active (at_runtime_nodes s1 ! i) \<noteq> 0"
    using out(2) unfolding s1 assms(9) by (simp_all add: automation_deadline_after_def)
  note wait = ticks_wait [OF same(1) rt(1) _ d(2), of _ P env, unfolded Let_def]
  have before: "\<forall>k < d. state_get_int (sys_state (at_system ((automation_engine_tick_1ms P env ^^ k) s1))) out =
      Some (failsafe_binary_value (scast (an_on_true ?n)))" using wait on by simp
  define t where "t = (automation_engine_tick_1ms P env ^^ (d - 1)) s1"
  have w: "sole_rule i out t" "at_tick_ms t = at_tick_ms s1 + of_nat (d - 1)" "at_nodes t = at_nodes s1"
      "at_runtime_nodes t ! i = at_runtime_nodes s1 ! i" "armed out (at_failsafe t)" "system_ok (at_system t)"
    using wait [of "d - 1"] d ok by (simp_all add: t_def)
  have "rn_deadline_ms (at_runtime_nodes t ! i) = at_tick_ms t + 1" using w(2,4) rt(1) d by (simp add: of_nat_diff)
  from tick_acts [OF w(1) this _ assms(4) w(5,6) assms(7), of "an_on_false ?n" P] w(3,4) same(2) rt(2,3) assms(2)
  have "state_get_int (sys_state (at_system (automation_engine_tick_1ms P env t))) out = Some (failsafe_binary_value (scast (an_on_false ?n)))"
    by simp
  moreover have "(automation_engine_tick_1ms P env ^^ d) s1 = automation_engine_tick_1ms P env t"
    using d by (cases d) (simp_all add: t_def)
  ultimately show ?thesis using before by simp
qed

text \<open>
  C32: the interlock does not hold back an on-delay rule whose timer is running. While the output is off the
  continuous guard leaves the rule alone, whatever event it sees, and the tick that ends the delay switches the
  output on without looking at the interlock.
\<close>

theorem automation_delay_bypasses_interlock:
  assumes "sole_rule i out s" "an_mode (at_nodes s ! i) = AUTOMATION_MODE_ON_DELAY_MS"
    and "rn_condition (at_runtime_nodes s ! i) \<noteq> 0" "rn_timer_active (at_runtime_nodes s ! i) \<noteq> 0"
    and "rn_deadline_ms (at_runtime_nodes s ! i) = at_tick_ms s + 1"
    and "cluster_io_is_local (ucast out) (env_io env)" "armed out (at_failsafe s)" "system_ok (at_system s)" "state_valid_id out"
    and "state_get_int (sys_state (at_system s)) out = Some 0"
    and "\<not> automation_eval_interlock (sys_state (at_system s)) (at_interlocks s ! i)"
  shows "guard_rule P env ev i s = s \<and>
    state_get_int (sys_state (at_system (automation_engine_tick_1ms P env s))) out =
      Some (failsafe_binary_value (scast (an_on_true (at_nodes s ! i))))"
proof -
  have "an_output (at_nodes s ! i) = out" using assms(1) by (simp add: sole_rule_def)
  then have "guard_rule P env ev i s = s" using assms(10) by (simp add: guard_rule_def Let_def)
  moreover have "state_get_int (sys_state (at_system (automation_engine_tick_1ms P env s))) out =
      Some (failsafe_binary_value (scast (an_on_true (at_nodes s ! i))))"
    using tick_acts [OF assms(1,5,4,6-9), of "an_on_true (at_nodes s ! i)" P] assms(2,3) by blast
  ultimately show ?thesis ..
qed

text \<open>
  C21: rules survive a reboot. When the storage accepts writes, the initialisation after any change of the rules
  (a new rule, an interlock, a removal, the removal of all) finds the same rules with the same interlocks.
\<close>

theorem automation_rules_survive_reboot:
  assumes "rules_ok env s" "nvs_durable P" "nvs_undisturbed P"
    and "\<And>bs. nvs_accepts P AUTOMATION_NAMESPACE AUTOMATION_KEY_RULES bs (sys_world (at_system s))"
    and "automation_engine_add_rule P env inp opr mode threshold duration outp on_true on_false s = (AUTOMATION_RESULT_OK, s') \<or>
      automation_engine_set_interlock_at P index il s = (True, s') \<and> (\<forall>x. il = Some x \<longrightarrow> length (il_conditions x) = AUTOMATION_MAX_INTERLOCK_COND) \<or>
      automation_engine_remove_node_at P index s = (True, s') \<or> s' = automation_engine_clear P s"
    and "sys_world sys = sys_world (at_system s')" "b = automation_engine_init P env created handler (power_on f sys)"
  shows "rules b = rules s' \<and> take (at_node_count s') (at_interlocks b) = take (at_node_count s') (at_interlocks s') \<and>
    at_persisted_config b \<and> rules_ok env b"
proof -
  have "automation_step P env s s'" using assms(5) by (auto intro: automation_step.intros)
  then have ok: "rules_ok env s'" by (rule rules_ok_step [OF assms(1)])
  consider t where "s' = automation_persist P t" "at_system t = at_system s"
    | t ev where "s' = automation_event_handler P env ev (automation_persist P t)" "at_system t = at_system s"
    using assms(5) by (force simp: automation_engine_add_rule_def automation_engine_set_interlock_at_def
        automation_engine_remove_node_at_def automation_engine_clear_def Let_def split: if_splits option.splits)
  then have "nvs_holds P AUTOMATION_NAMESPACE AUTOMATION_KEY_RULES (automation_blob s') (sys_world (at_system s'))"
  proof cases
    case (1 t)
    then show ?thesis using persist_holds [OF assms(2), of t] assms(4) blob_persist [of P t] by simp
  next
    case (2 t ev)
    have "automation_blob s' = automation_blob t" unfolding 2(1) blob_same [OF same_rules_handler] by (rule blob_persist)
    then show ?thesis
      using persist_holds [OF assms(2), of t] assms(4) nvs_handler [OF undisturbed_timer [OF assms(3)], of _ _ _ "automation_persist P t" env ev]
      by (simp add: keeps_nvs_def 2)
  qed
  then show ?thesis using automation_init_restores [OF ok, of P sys created handler f] assms(6,7) by simp
qed

subsection \<open>Concrete runs\<close>

text \<open>Output 100 is local and follows rule 0; output 101 is latched.\<close>

definition demo_env :: "(sim_world, unit, sim_world) automation_env" where
  "demo_env = \<lparr>env_cluster = stopped_cluster, env_io = \<lparr>ci_table = [], ci_self_node = 0, ci_world = ()\<rparr>,
     env_pve = demo_pve, env_valid_input = (\<lambda>_. True), env_valid_output = (\<lambda>_. True)\<rparr>"

definition demo_rule :: "u8 \<Rightarrow> automation_node_t" where
  "demo_rule mode = \<lparr>an_input = 10, an_output = 100, an_threshold = 0, an_op = AUTOMATION_OP_GT, an_mode = mode,
     an_duration_ms = 3, an_on_true = 1, an_on_false = 0\<rparr>"

definition demo_automation :: "u8 \<Rightarrow> sim_world automation" where
  "demo_automation mode = (power_on (demo_failsafe\<lparr>fs_entries := (fs_entries demo_failsafe)[1 := (fs_entries demo_failsafe ! 1)\<lparr>fe_active := True\<rparr>]\<rparr>) boot_system)
     \<lparr>at_nodes := (replicate 16 zero_rule)[0 := demo_rule mode], at_node_count := 1,
      at_interlocks := (replicate 16 zero_interlock)[0 := zero_interlock\<lparr>il_enabled := 1, il_cond_count := 1,
        il_conditions := [\<lparr>acn_channel = 11, acn_op = AUTOMATION_OP_EQ, acn_target_val = 1\<rparr>, zero_condition]\<rparr>],
      at_runtime_nodes := (replicate 16 zero_runtime)[0 := zero_runtime\<lparr>rn_condition := 1, rn_timer_active := 1, rn_deadline_ms := 1\<rparr>]\<rparr>"

lemma demo_latches: "latched 101 (at_failsafe (demo_automation mode))" "armed 100 (at_failsafe (demo_automation mode))"
  by (simp_all add: latched_def armed_def demo_automation_def power_on_def failsafe_find_def demo_failsafe_def failsafe_default_entry_def)

lemma demo_env_local: "cluster_io_is_local x (env_io demo_env)"
  by (simp add: demo_env_def cluster_io_is_local_def)

lemma demo_sole: "sole_rule 0 100 (demo_automation mode)"
  by (simp add: sole_rule_def demo_automation_def demo_rule_def)

lemma demo_system [simp]: "at_system (demo_automation mode) = boot_system"
  by (simp add: demo_automation_def power_on_def)

lemma demo_node [simp]: "at_nodes (demo_automation mode) ! 0 = demo_rule mode" "at_node_count (demo_automation mode) = 1"
  "at_tick_ms (demo_automation mode) = 0"
  by (simp_all add: demo_automation_def power_on_def)

lemma valid_100: "state_valid_id 100" "state_valid_id 11"
  by (simp_all add: state_valid_id_def STATE_MAX_ENTRIES_def)

lemma demo_rules_ok: "rules_ok demo_env (demo_automation AUTOMATION_MODE_PULSE_MS)"
proof -
  let ?s = "demo_automation AUTOMATION_MODE_PULSE_MS"
  have "rules ?s = [demo_rule AUTOMATION_MODE_PULSE_MS]"
    by (simp add: rules_def) (simp add: demo_automation_def take_Suc_conv_app_nth)
  moreover have "automation_rule_is_valid demo_env (demo_rule AUTOMATION_MODE_PULSE_MS)"
    by (simp add: automation_rule_is_valid_def demo_env_def demo_rule_def automation_valid_input_def automation_valid_output_def
      automation_valid_operator_def automation_valid_mode_def automation_valid_action_def automation_ops automation_modes)
  ultimately have "acceptable_rules demo_env (rules ?s)" by (simp add: acceptable_rules_def)
  moreover have "\<forall>il \<in> set (at_interlocks ?s). length (il_conditions il) = AUTOMATION_MAX_INTERLOCK_COND"
    unfolding demo_automation_def by (simp, rule all_update) (simp_all add: AUTOMATION_MAX_INTERLOCK_COND_def)
  ultimately show ?thesis
    unfolding rules_ok_def by (simp add: demo_automation_def power_on_def AUTOMATION_ENGINE_MAX_NODES_def)
qed

text \<open>A new rule that would switch output 101 on.\<close>

theorem automation_respects_failsafe_latch_witness:
  "state_get_int (sys_state (at_system (snd (automation_engine_add_rule sim_platform demo_env 10 AUTOMATION_OP_GE
     AUTOMATION_MODE_FOLLOW 0 0 101 1 0 (demo_automation AUTOMATION_MODE_PULSE_MS))))) 101 = state_get_int (sys_state boot_system) 101"
proof -
  let ?s = "demo_automation AUTOMATION_MODE_PULSE_MS"
  let ?r = "automation_engine_add_rule sim_platform demo_env 10 AUTOMATION_OP_GE AUTOMATION_MODE_FOLLOW 0 0 101 1 0 ?s"
  have "(automation_step sim_platform demo_env)\<^sup>*\<^sup>* ?s (snd ?r)"
    by (rule r_into_rtranclp) (rule automation_step.add [OF prod.collapse [symmetric]])
  from automation_respects_failsafe_latch [OF demo_latches(1) this] show ?thesis by simp
qed


text \<open>A pulse of three ticks on output 100.\<close>

theorem automation_pulse_exact_witness:
  "let s1 = trigger_mode sim_platform demo_env 0 True True (demo_automation AUTOMATION_MODE_PULSE_MS) in
   state_get_int (sys_state (at_system ((automation_engine_tick_1ms sim_platform demo_env ^^ 2) s1))) 100 = Some 1 \<and>
   state_get_int (sys_state (at_system ((automation_engine_tick_1ms sim_platform demo_env ^^ 3) s1))) 100 = Some 0"
proof -
  let ?s = "demo_automation AUTOMATION_MODE_PULSE_MS"
  have "an_mode (at_nodes ?s ! 0) = AUTOMATION_MODE_PULSE_MS" "an_duration_ms (at_nodes ?s ! 0) \<noteq> 0" "system_ok (at_system ?s)"
    "unat (an_duration_ms (at_nodes ?s ! 0)) = 3" by (simp_all add: demo_rule_def boot_system_ok)
  from automation_pulse_exact [OF demo_sole this(1,2) demo_env_local demo_latches(2) this(3) valid_100(1) refl this(4) [symmetric], of sim_platform]
  show ?thesis by (simp add: Let_def demo_rule_def failsafe_binary_value_def)
qed

theorem automation_delay_bypasses_interlock_witness:
  "\<not> automation_eval_interlock (sys_state (at_system (demo_automation AUTOMATION_MODE_ON_DELAY_MS))) (at_interlocks (demo_automation AUTOMATION_MODE_ON_DELAY_MS) ! 0) \<and>
   state_get_int (sys_state (at_system (automation_engine_tick_1ms sim_platform demo_env (demo_automation AUTOMATION_MODE_ON_DELAY_MS)))) 100 = Some 1"
proof -
  let ?s = "demo_automation AUTOMATION_MODE_ON_DELAY_MS"
  have fails: "\<not> automation_eval_interlock (sys_state (at_system ?s)) (at_interlocks ?s ! 0)"
    using valid_100 by (simp add: demo_automation_def power_on_def automation_eval_interlock_def automation_eval_condition_def state_get_int_def state_init_def
        state_valid_id_def automation_ops)
  have "an_mode (at_nodes ?s ! 0) = AUTOMATION_MODE_ON_DELAY_MS" "rn_condition (at_runtime_nodes ?s ! 0) \<noteq> 0"
    "rn_timer_active (at_runtime_nodes ?s ! 0) \<noteq> 0" "rn_deadline_ms (at_runtime_nodes ?s ! 0) = at_tick_ms ?s + 1" "system_ok (at_system ?s)"
    "state_get_int (sys_state (at_system ?s)) 100 = Some 0"
    using valid_100 by (simp_all add: demo_rule_def boot_system_ok demo_automation_def power_on_def state_get_int_def state_init_def STATE_MAX_ENTRIES_def)
  from automation_delay_bypasses_interlock [OF demo_sole this(1-4) demo_env_local demo_latches(2) this(5) valid_100(1) this(6) fails, of sim_platform undefined]
  show ?thesis using fails by (simp add: demo_rule_def failsafe_binary_value_def)
qed

text \<open>Removing the interlock of the only rule.\<close>

theorem automation_rules_survive_reboot_witness:
  "let s' = snd (automation_engine_set_interlock_at sim_platform 0 None (demo_automation AUTOMATION_MODE_PULSE_MS)) in
   rules (automation_engine_init sim_platform demo_env True 0 (power_on demo_failsafe (at_system s'))) = [demo_rule AUTOMATION_MODE_PULSE_MS]"
proof -
  let ?s = "demo_automation AUTOMATION_MODE_PULSE_MS" let ?r = "automation_engine_set_interlock_at sim_platform 0 None ?s"
  have r: "?r = (True, snd ?r)" by (simp add: automation_engine_set_interlock_at_def)
  have acc: "nvs_accepts sim_platform AUTOMATION_NAMESPACE AUTOMATION_KEY_RULES bs (sys_world (at_system ?s))" for bs
    by (rule sim_accepts) (simp add: boot_system_def sim_init_def)
  have "rules (snd ?r) = rules ?s" by (simp add: automation_engine_set_interlock_at_def rules_def)
  also have "\<dots> = [demo_rule AUTOMATION_MODE_PULSE_MS]"
    by (simp add: rules_def) (simp add: demo_automation_def take_Suc_conv_app_nth)
  finally show ?thesis
    using automation_rules_survive_reboot [OF demo_rules_ok sim_durable sim_undisturbed acc, of 0 0 0 0 0 0 0 0 "snd ?r" 0 None "at_system (snd ?r)" _ True 0 demo_failsafe] r
    by (simp add: Let_def)
qed

end
