(* ===== verification/Device_Profile.thy ===== *)
theory Device_Profile
  imports Nvs_Blob
begin

text \<open>
  The device profile: the channels and pins of the board, the network policy with its storage, the
  templates of the node profiles and the sensors (\<open>device_profile/device_profile.c\<close>,
  \<open>device_profile_templates.c\<close>, \<open>device_profile_sensors.c\<close>).

  The static variables are the record \<open>device_profile\<close> with the platform's world as its last field.
  The \<open>CONFIG_ENDAP_*\<close> values of the build are the record \<open>build_config\<close>, a parameter. Pins
  are integers, \<open>GPIO_NUM_NC\<close> is -1; transports, Wi-Fi modes and node profiles are the numbers of their
  enumerations, because the code casts stored bytes to them. A null pointer is \<open>None\<close>. Most queries call
  \<open>device_profile_network\<close>, which initialises the profile at the first call, so they return the
  state too. The two bytes of padding in the blob of version 4 are zero, as the initialiser leaves them.
\<close>

section \<open>Model\<close>

subsection \<open>Constants and data\<close>

definition ENDAP_INPUT_BASE_ID :: u16 where "ENDAP_INPUT_BASE_ID = 10"
definition ENDAP_OUTPUT_BASE_ID :: u16 where "ENDAP_OUTPUT_BASE_ID = 100"
definition ENDAP_DEFAULT_ACTIVE_INPUTS :: nat where "ENDAP_DEFAULT_ACTIVE_INPUTS = 6"
definition ENDAP_DEFAULT_ACTIVE_OUTPUTS :: nat where "ENDAP_DEFAULT_ACTIVE_OUTPUTS = 6"

definition ENDAP_INPUT_ID :: "u16 \<Rightarrow> u16" where
  "ENDAP_INPUT_ID slot = ENDAP_INPUT_BASE_ID + slot"

definition ENDAP_OUTPUT_ID :: "u16 \<Rightarrow> u16" where
  "ENDAP_OUTPUT_ID slot = ENDAP_OUTPUT_BASE_ID + slot"

definition DEVICE_PROFILE_NETWORK_NAMESPACE :: string where "DEVICE_PROFILE_NETWORK_NAMESPACE = ''dev_profile''"
definition DEVICE_PROFILE_NETWORK_KEY :: string where "DEVICE_PROFILE_NETWORK_KEY = ''net_cfg_v2''"
definition DEVICE_PROFILE_NODE_KEY :: string where "DEVICE_PROFILE_NODE_KEY = ''node_profile''"
definition DEVICE_PROFILE_NETWORK_MAGIC :: u32 where "DEVICE_PROFILE_NETWORK_MAGIC = 0x454E4450"
definition DEVICE_PROFILE_NETWORK_VERSION :: u16 where "DEVICE_PROFILE_NETWORK_VERSION = 4"
definition DEVICE_PROFILE_FAILOVER_DELAY_DEFAULT_MS :: u32 where "DEVICE_PROFILE_FAILOVER_DELAY_DEFAULT_MS = 5000"
definition DEVICE_PROFILE_RECOVERY_HYST_DEFAULT_MS :: u32 where "DEVICE_PROFILE_RECOVERY_HYST_DEFAULT_MS = 15000"
definition SENSOR_PROFILE_NAMESPACE :: string where "SENSOR_PROFILE_NAMESPACE = ''endap_sensors''"
definition SENSOR_PROFILE_KEY :: string where "SENSOR_PROFILE_KEY = ''config_v1''"
definition SENSOR_PROFILE_MAGIC :: u32 where "SENSOR_PROFILE_MAGIC = 0x5E455301"
definition SENSOR_PROFILE_VERSION :: u16 where "SENSOR_PROFILE_VERSION = 1"

type_synonym device_profile_transport_t = u32

definition DEVICE_PROFILE_TRANSPORT_NONE :: device_profile_transport_t where "DEVICE_PROFILE_TRANSPORT_NONE = 0"
definition DEVICE_PROFILE_TRANSPORT_WIFI :: device_profile_transport_t where "DEVICE_PROFILE_TRANSPORT_WIFI = 1"
definition DEVICE_PROFILE_TRANSPORT_ETHERNET :: device_profile_transport_t where "DEVICE_PROFILE_TRANSPORT_ETHERNET = 2"
definition DEVICE_PROFILE_TRANSPORT_RS485 :: device_profile_transport_t where "DEVICE_PROFILE_TRANSPORT_RS485 = 3"
definition DEVICE_PROFILE_TRANSPORT_ESPNOW :: device_profile_transport_t where "DEVICE_PROFILE_TRANSPORT_ESPNOW = 4"
definition DEVICE_PROFILE_TRANSPORT_MESH :: device_profile_transport_t where "DEVICE_PROFILE_TRANSPORT_MESH = 5"

lemmas transports = DEVICE_PROFILE_TRANSPORT_NONE_def DEVICE_PROFILE_TRANSPORT_WIFI_def
  DEVICE_PROFILE_TRANSPORT_ETHERNET_def DEVICE_PROFILE_TRANSPORT_RS485_def DEVICE_PROFILE_TRANSPORT_ESPNOW_def
  DEVICE_PROFILE_TRANSPORT_MESH_def

type_synonym device_profile_wifi_mode_t = u32

definition DEVICE_PROFILE_WIFI_MODE_INFRA :: device_profile_wifi_mode_t where "DEVICE_PROFILE_WIFI_MODE_INFRA = 0"

type_synonym node_profile_t = u32

definition NODE_PROFILE_GATEWAY :: node_profile_t where "NODE_PROFILE_GATEWAY = 0"
definition NODE_PROFILE_FIELD :: node_profile_t where "NODE_PROFILE_FIELD = 1"
definition NODE_PROFILE_RELAY :: node_profile_t where "NODE_PROFILE_RELAY = 2"
definition NODE_PROFILE_SENSOR :: node_profile_t where "NODE_PROFILE_SENSOR = 3"
definition NODE_PROFILE_CUSTOM :: node_profile_t where "NODE_PROFILE_CUSTOM = 4"
definition NODE_PROFILE_MAX :: node_profile_t where "NODE_PROFILE_MAX = 5"

datatype device_profile_ethernet_mode_t =
  DEVICE_PROFILE_ETH_NONE | DEVICE_PROFILE_ETH_INTERNAL_LAN8720 | DEVICE_PROFILE_ETH_SPI_W5500

datatype device_profile_network_config_result_t =
  DEVICE_PROFILE_NETWORK_CONFIG_OK | DEVICE_PROFILE_NETWORK_CONFIG_UNSUPPORTED
  | DEVICE_PROFILE_NETWORK_CONFIG_PERSIST_FAILED

datatype device_channel_class_t =
  DEVICE_CHANNEL_CLASS_DIGITAL_INPUT | DEVICE_CHANNEL_CLASS_DIGITAL_OUTPUT
  | DEVICE_CHANNEL_CLASS_ANALOG_INPUT | DEVICE_CHANNEL_CLASS_ANALOG_OUTPUT

record device_input_profile_t =
  dip_id :: u16
  dip_name :: bytes
  dip_description :: bytes
  dip_gpio :: int
  dip_active_low :: bool
  dip_debounce_samples :: u8

record device_output_profile_t =
  dop_id :: u16
  dop_name :: bytes
  dop_description :: bytes
  dop_gpio :: int
  dop_active_low :: bool

type_synonym device_gpio_option_t = "int \<times> bytes"

record device_network_w5500_profile_t =
  w5_spi_host_id :: int
  w5_mosi_gpio :: int
  w5_miso_gpio :: int
  w5_sclk_gpio :: int
  w5_cs_gpio :: int
  w5_int_gpio :: int
  w5_reset_gpio :: int
  w5_phy_addr :: int
  w5_clock_mhz :: u8

record device_network_profile_t =
  np_wifi_supported :: bool
  np_ethernet_supported :: bool
  np_rs485_supported :: bool
  np_wifi_enabled :: bool
  np_ethernet_enabled :: bool
  np_rs485_enabled :: bool
  np_wifi_mode :: device_profile_wifi_mode_t
  np_onboarding_pending :: bool
  np_primary_transport :: device_profile_transport_t
  np_fallback_transport :: device_profile_transport_t
  np_failover_delay_ms :: u32
  np_recovery_hysteresis_ms :: u32
  np_ethernet_mode :: device_profile_ethernet_mode_t
  np_allow_local_ap :: bool
  np_allow_dashboard :: bool
  np_allow_ota :: bool
  np_label :: string
  np_w5500 :: device_network_w5500_profile_t

record device_sensor_profile_t =
  sp_dht11_enabled :: bool
  sp_dht11_gpio :: int
  sp_ds18b20_enabled :: bool
  sp_ds18b20_gpio :: int
  sp_aht10_enabled :: bool
  sp_aht10_sda_gpio :: int
  sp_aht10_scl_gpio :: int

record plc_channel_desc_t =
  pc_plc_code :: bytes
  pc_channel_class :: device_channel_class_t
  pc_channel_index :: u16
  pc_gpio :: int
  pc_default_name :: bytes
  pc_available :: bool
  pc_role :: bytes

record device_expansion_capabilities_t =
  ec_supports_mcp23x17 :: bool
  ec_recommended_mcp_instances :: u8
  ec_channels_per_mcp :: u8

record build_config =
  CONFIG_ENDAP_WIFI_ENABLED :: bool
  CONFIG_ENDAP_ETHERNET_ENABLED :: bool
  CONFIG_ENDAP_RS485_ENABLED :: bool
  CONFIG_ENDAP_ETH_BACKEND_W5500 :: bool
  CONFIG_ENDAP_ETH_BACKEND_LAN8720 :: bool
  CONFIG_ENDAP_W5500_SPI_HOST :: int
  CONFIG_ENDAP_W5500_MOSI_GPIO :: int
  CONFIG_ENDAP_W5500_MISO_GPIO :: int
  CONFIG_ENDAP_W5500_SCLK_GPIO :: int
  CONFIG_ENDAP_W5500_CS_GPIO :: int
  CONFIG_ENDAP_W5500_INT_GPIO :: int
  CONFIG_ENDAP_W5500_RESET_GPIO :: int
  CONFIG_ENDAP_W5500_PHY_ADDR :: int
  CONFIG_ENDAP_W5500_CLOCK_MHZ :: u8

record 'w device_profile =
  dp_network :: device_network_profile_t
  dp_initialized :: bool
  dp_initializing :: bool
  dp_node_profile :: node_profile_t
  dp_sensors :: device_sensor_profile_t
  dp_world :: 'w

definition expansion_capabilities :: device_expansion_capabilities_t where
  "expansion_capabilities = \<lparr>ec_supports_mcp23x17 = True, ec_recommended_mcp_instances = 2, ec_channels_per_mcp = 16\<rparr>"

definition input_profile :: "device_input_profile_t list" where
  "input_profile = map (\<lambda>(slot, name, descr, gpio).
     \<lparr>dip_id = ENDAP_INPUT_ID slot, dip_name = str_bytes name, dip_description = descr, dip_gpio = gpio,
       dip_active_low = False, dip_debounce_samples = 5\<rparr>)
   [(0, ''GPIO16'', str_bytes ''Entrada Digital GPIO 16'', 16),
    (1, ''GPIO17'', str_bytes ''Entrada Digital GPIO 17'', 17),
    (2, ''GPIO21'', str_bytes ''Entrada Digital GPIO 21'', 21),
    (3, ''GPIO22'', str_bytes ''Entrada Desativada (Reservado Output Q0.0 / GPIO 22)'', GPIO_NUM_NC),
    (4, ''GPIO27'', str_bytes ''Entrada Digital GPIO 27'', 27),
    (5, ''GPIO26'', str_bytes ''Entrada Digital GPIO 26'', 26),
    (6, ''GPIO18'', str_bytes ''Entrada Digital GPIO 18'', 18),
    (7, ''GPIO19'', str_bytes ''Entrada Digital GPIO 19'', 19),
    (8, ''GPIO23'', str_bytes ''Entrada Digital GPIO 23'', 23),
    (9, ''GPIO32'', str_bytes ''Entrada Digital / ADC1 GPIO 32'', 32),
    (10, ''GPIO33'', str_bytes ''Entrada Digital / ADC1 GPIO 33'', 33),
    (11, ''GPIO25'', str_bytes ''Entrada Digital / ADC2 GPIO 25'', 25),
    (12, ''GPIO34'', str_bytes ''Entrada Apenas / ADC1 GPIO 34'', 34),
    (13, ''GPIO35'', str_bytes ''Entrada Apenas / ADC1 GPIO 35'', 35),
    (14, ''GPIO36'', str_bytes ''Entrada Apenas / ADC1 GPIO 36 (VP)'', 36),
    (15, ''GPIO39'', str_bytes ''Entrada Apenas / ADC1 GPIO 39 (VN)'', 39)]"

definition output_profile :: "device_output_profile_t list" where
  "output_profile = map (\<lambda>(slot, name, descr, gpio, active_low).
     \<lparr>dop_id = ENDAP_OUTPUT_ID slot, dop_name = str_bytes name, dop_description = descr, dop_gpio = gpio,
       dop_active_low = active_low\<rparr>)
   [(0, ''GPIO22'', str_bytes ''Sa'' @ [195, 173] @ str_bytes ''da / Rel'' @ [195, 169] @ str_bytes '' 0 GPIO 22'',
      22, True),
    (1, ''GPIO4'', str_bytes ''Sa'' @ [195, 173] @ str_bytes ''da / Rel'' @ [195, 169] @ str_bytes '' 1 GPIO 4'',
      4, True),
    (2, ''GPIO5'', str_bytes ''Sa'' @ [195, 173] @ str_bytes ''da / Rel'' @ [195, 169] @ str_bytes '' 2 GPIO 5'',
      5, True),
    (3, ''GPIO14'', str_bytes ''Sa'' @ [195, 173] @ str_bytes ''da / Rel'' @ [195, 169] @ str_bytes '' 3 GPIO 14'',
      14, True),
    (4, ''GPIO25'', str_bytes ''Sa'' @ [195, 173] @ str_bytes ''da Desativada (Reservado Input GPIO 25)'',
      GPIO_NUM_NC, False),
    (5, ''GPIO33'', str_bytes ''Sa'' @ [195, 173] @ str_bytes ''da / Rel'' @ [195, 169] @ str_bytes '' 5 GPIO 33'',
      33, True),
    (6, ''GPIO13'', str_bytes ''Sa'' @ [195, 173] @ str_bytes ''da / Rel'' @ [195, 169] @ str_bytes '' GPIO 13'',
      13, True),
    (7, ''GPIO16'', str_bytes ''Sa'' @ [195, 173] @ str_bytes ''da / Rel'' @ [195, 169] @ str_bytes '' GPIO 16'',
      16, True),
    (8, ''GPIO17'', str_bytes ''Sa'' @ [195, 173] @ str_bytes ''da / Rel'' @ [195, 169] @ str_bytes '' GPIO 17'',
      17, True),
    (9, ''GPIO18'', str_bytes ''Sa'' @ [195, 173] @ str_bytes ''da / Rel'' @ [195, 169] @ str_bytes '' GPIO 18'',
      18, True),
    (10, ''GPIO19'', str_bytes ''Sa'' @ [195, 173] @ str_bytes ''da / Rel'' @ [195, 169] @ str_bytes '' GPIO 19'',
      19, True),
    (11, ''GPIO21'', str_bytes ''Sa'' @ [195, 173] @ str_bytes ''da / Rel'' @ [195, 169] @ str_bytes '' GPIO 21'',
      21, True),
    (12, ''GPIO22'', str_bytes ''Sa'' @ [195, 173] @ str_bytes ''da / Rel'' @ [195, 169] @ str_bytes '' GPIO 22'',
      22, True),
    (13, ''GPIO23'', str_bytes ''Sa'' @ [195, 173] @ str_bytes ''da / Rel'' @ [195, 169] @ str_bytes '' GPIO 23'',
      23, True),
    (14, ''GPIO26'', str_bytes ''Sa'' @ [195, 173] @ str_bytes ''da Desativada (Reservado Input GPIO 26)'',
      GPIO_NUM_NC, False),
    (15, ''GPIO32'', str_bytes ''Sa'' @ [195, 173] @ str_bytes ''da / Rel'' @ [195, 169] @ str_bytes '' GPIO 32'',
      32, True)]"

definition input_gpio_options :: "device_gpio_option_t list" where
  "input_gpio_options = [(16, str_bytes ''GPIO16''),
     (17, str_bytes ''GPIO17''),
     (18, str_bytes ''GPIO18''),
     (19, str_bytes ''GPIO19''),
     (21, str_bytes ''GPIO21''),
     (22, str_bytes ''GPIO22''),
     (23, str_bytes ''GPIO23''),
     (25, str_bytes ''GPIO25''),
     (26, str_bytes ''GPIO26''),
     (27, str_bytes ''GPIO27''),
     (32, str_bytes ''GPIO32''),
     (33, str_bytes ''GPIO33''),
     (34, str_bytes ''GPIO34 (entrada apenas)''),
     (35, str_bytes ''GPIO35 (entrada apenas)''),
     (36, str_bytes ''GPIO36 / VP (entrada apenas)''),
     (39, str_bytes ''GPIO39 / VN (entrada apenas)'')]"

definition output_gpio_options :: "device_gpio_option_t list" where
  "output_gpio_options = [(4, str_bytes ''GPIO4''),
     (5, str_bytes ''GPIO5''),
     (13, str_bytes ''GPIO13''),
     (14, str_bytes ''GPIO14''),
     (16, str_bytes ''GPIO16''),
     (17, str_bytes ''GPIO17''),
     (18, str_bytes ''GPIO18''),
     (19, str_bytes ''GPIO19''),
     (21, str_bytes ''GPIO21''),
     (22, str_bytes ''GPIO22''),
     (23, str_bytes ''GPIO23''),
     (25, str_bytes ''GPIO25''),
     (26, str_bytes ''GPIO26''),
     (27, str_bytes ''GPIO27''),
     (32, str_bytes ''GPIO32''),
     (33, str_bytes ''GPIO33'')]"

subsection \<open>Channels and pins\<close>

definition device_profile_input_count :: int where
  "device_profile_input_count = int (length input_profile)"

definition device_profile_input_at :: "int \<Rightarrow> device_input_profile_t option" where
  "device_profile_input_at index =
     (if index < 0 \<or> index \<ge> int (length input_profile) then None else Some (input_profile ! nat index))"

definition device_profile_input_id_at :: "int \<Rightarrow> u16" where
  "device_profile_input_id_at index = (case device_profile_input_at index of None \<Rightarrow> 0 | Some i \<Rightarrow> dip_id i)"

definition device_profile_find_input :: "u16 \<Rightarrow> device_input_profile_t option" where
  "device_profile_find_input ident = map_option ((!) input_profile) (find_index (\<lambda>p. dip_id p = ident) input_profile)"

definition device_profile_is_valid_input :: "u16 \<Rightarrow> bool" where
  "device_profile_is_valid_input ident \<longleftrightarrow> device_profile_find_input ident \<noteq> None"

definition device_profile_output_count :: int where
  "device_profile_output_count = int (length output_profile)"

definition device_profile_output_at :: "int \<Rightarrow> device_output_profile_t option" where
  "device_profile_output_at index =
     (if index < 0 \<or> index \<ge> int (length output_profile) then None else Some (output_profile ! nat index))"

definition device_profile_output_id_at :: "int \<Rightarrow> u16" where
  "device_profile_output_id_at index = (case device_profile_output_at index of None \<Rightarrow> 0 | Some i \<Rightarrow> dop_id i)"

definition device_profile_find_output :: "u16 \<Rightarrow> device_output_profile_t option" where
  "device_profile_find_output ident = map_option ((!) output_profile) (find_index (\<lambda>p. dop_id p = ident) output_profile)"

definition device_profile_is_valid_output :: "u16 \<Rightarrow> bool" where
  "device_profile_is_valid_output ident \<longleftrightarrow> device_profile_find_output ident \<noteq> None"

fun preferred_output :: "nat \<Rightarrow> u16" where
  "preferred_output 0 = 0"
| "preferred_output (Suc i) = (case device_profile_output_at (int i) of
     Some preferred \<Rightarrow> if dop_id preferred \<noteq> 0 then dop_id preferred else preferred_output i
   | None \<Rightarrow> preferred_output i)"

definition device_profile_preferred_self_test_output_id :: u16 where
  "device_profile_preferred_self_test_output_id = preferred_output ENDAP_DEFAULT_ACTIVE_OUTPUTS"

definition device_profile_is_default_input_id :: "u16 \<Rightarrow> bool" where
  "device_profile_is_default_input_id ident \<longleftrightarrow>
     (\<exists>p \<in> set (take ENDAP_DEFAULT_ACTIVE_INPUTS input_profile). dip_id p = ident)"

definition device_profile_is_extra_input_id :: "u16 \<Rightarrow> bool" where
  "device_profile_is_extra_input_id ident \<longleftrightarrow>
     device_profile_is_valid_input ident \<and> \<not> device_profile_is_default_input_id ident"

definition device_profile_is_default_output_id :: "u16 \<Rightarrow> bool" where
  "device_profile_is_default_output_id ident \<longleftrightarrow>
     (\<exists>p \<in> set (take ENDAP_DEFAULT_ACTIVE_OUTPUTS output_profile). dop_id p = ident)"

definition device_profile_is_extra_output_id :: "u16 \<Rightarrow> bool" where
  "device_profile_is_extra_output_id ident \<longleftrightarrow>
     device_profile_is_valid_output ident \<and> \<not> device_profile_is_default_output_id ident"

text \<open>The number of channels, and the identifiers written to a buffer for \<open>max_ids\<close> of them.\<close>

definition device_profile_copy_local_io_ids :: "bool \<Rightarrow> int \<Rightarrow> int \<times> u16 list" where
  "device_profile_copy_local_io_ids out_ids max_ids =
     (int (length input_profile + length output_profile),
      if \<not> out_ids \<or> max_ids \<le> 0 then [] else take (nat max_ids) (map dip_id input_profile @ map dop_id output_profile))"

definition device_profile_gpio_is_listed :: "device_gpio_option_t list \<Rightarrow> int \<Rightarrow> bool" where
  "device_profile_gpio_is_listed options gpio \<longleftrightarrow> (\<exists>opt \<in> set options. fst opt = gpio)"

definition device_profile_gpio_is_input_only :: "int \<Rightarrow> bool" where
  "device_profile_gpio_is_input_only gpio \<longleftrightarrow> gpio \<in> {34, 35, 36, 39}"

subsection \<open>The network policy\<close>

definition gpio_from_config :: "int \<Rightarrow> int" where
  "gpio_from_config v = (if v < 0 then GPIO_NUM_NC else v)"

definition device_profile_detect_ethernet_mode :: "build_config \<Rightarrow> device_profile_ethernet_mode_t" where
  "device_profile_detect_ethernet_mode cfg =
     (if CONFIG_ENDAP_ETH_BACKEND_W5500 cfg then DEVICE_PROFILE_ETH_SPI_W5500
      else if CONFIG_ENDAP_ETH_BACKEND_LAN8720 cfg then DEVICE_PROFILE_ETH_INTERNAL_LAN8720
      else DEVICE_PROFILE_ETH_NONE)"

definition device_profile_transport_allowed_in_network ::
    "device_profile_transport_t \<Rightarrow> device_network_profile_t \<Rightarrow> bool" where
  "device_profile_transport_allowed_in_network transport n =
     (if transport = DEVICE_PROFILE_TRANSPORT_WIFI then np_wifi_supported n
      else if transport = DEVICE_PROFILE_TRANSPORT_ETHERNET then np_ethernet_supported n
      else if transport = DEVICE_PROFILE_TRANSPORT_RS485 then np_rs485_supported n \<and> np_rs485_enabled n
      else True)"

definition device_profile_w5500_is_configured_from_profile :: "device_network_profile_t \<Rightarrow> bool" where
  "device_profile_w5500_is_configured_from_profile n \<longleftrightarrow>
     np_ethernet_mode n = DEVICE_PROFILE_ETH_SPI_W5500 \<and>
     w5_mosi_gpio (np_w5500 n) \<noteq> GPIO_NUM_NC \<and> w5_miso_gpio (np_w5500 n) \<noteq> GPIO_NUM_NC \<and>
     w5_sclk_gpio (np_w5500 n) \<noteq> GPIO_NUM_NC \<and> w5_cs_gpio (np_w5500 n) \<noteq> GPIO_NUM_NC"

definition device_profile_apply_legacy_transport_policy ::
    "bool \<Rightarrow> bool \<Rightarrow> device_network_profile_t \<Rightarrow> device_network_profile_t" where
  "device_profile_apply_legacy_transport_policy wifi_enabled ethernet_enabled n =
     (let n = n\<lparr>np_onboarding_pending := False, np_rs485_enabled := False\<rparr> in
      if wifi_enabled \<and> ethernet_enabled
      then n\<lparr>np_primary_transport := DEVICE_PROFILE_TRANSPORT_ETHERNET, np_fallback_transport := DEVICE_PROFILE_TRANSPORT_WIFI\<rparr>
      else if ethernet_enabled
      then n\<lparr>np_primary_transport := DEVICE_PROFILE_TRANSPORT_ETHERNET, np_fallback_transport := DEVICE_PROFILE_TRANSPORT_NONE\<rparr>
      else if wifi_enabled
      then n\<lparr>np_primary_transport := DEVICE_PROFILE_TRANSPORT_WIFI, np_fallback_transport := DEVICE_PROFILE_TRANSPORT_NONE\<rparr>
      else n\<lparr>np_primary_transport := DEVICE_PROFILE_TRANSPORT_NONE, np_fallback_transport := DEVICE_PROFILE_TRANSPORT_NONE\<rparr>)"

definition device_profile_apply_manual_network_selection ::
    "bool \<Rightarrow> bool \<Rightarrow> bool \<Rightarrow> device_profile_wifi_mode_t \<Rightarrow> device_network_profile_t \<Rightarrow> device_network_profile_t" where
  "device_profile_apply_manual_network_selection wifi_enabled ethernet_enabled rs485_enabled wifi_mode n =
     (let wifi_allowed = np_wifi_supported n \<and> wifi_enabled;
          ethernet_allowed = np_ethernet_supported n \<and> ethernet_enabled;
          rs485_allowed = np_rs485_supported n \<and> rs485_enabled;
          primary = (if ethernet_allowed then DEVICE_PROFILE_TRANSPORT_ETHERNET
             else if wifi_allowed then DEVICE_PROFILE_TRANSPORT_WIFI
             else if rs485_allowed then DEVICE_PROFILE_TRANSPORT_RS485
             else DEVICE_PROFILE_TRANSPORT_NONE);
          fallback = (if primary \<noteq> DEVICE_PROFILE_TRANSPORT_ETHERNET \<and> ethernet_allowed then DEVICE_PROFILE_TRANSPORT_ETHERNET
             else if primary \<noteq> DEVICE_PROFILE_TRANSPORT_WIFI \<and> wifi_allowed then DEVICE_PROFILE_TRANSPORT_WIFI
             else if primary \<noteq> DEVICE_PROFILE_TRANSPORT_RS485 \<and> rs485_allowed then DEVICE_PROFILE_TRANSPORT_RS485
             else DEVICE_PROFILE_TRANSPORT_NONE)
      in n\<lparr>np_onboarding_pending := False, np_wifi_enabled := wifi_allowed, np_ethernet_enabled := ethernet_allowed,
           np_rs485_enabled := rs485_allowed, np_wifi_mode := wifi_mode, np_primary_transport := primary,
           np_fallback_transport := fallback\<rparr>)"

text \<open>The parts of \<open>device_profile_normalize_transport_policy\<close>, in their order.\<close>

definition default_delays :: "device_network_profile_t \<Rightarrow> device_network_profile_t" where
  "default_delays n =
     (let n = (if np_failover_delay_ms n = 0 then n\<lparr>np_failover_delay_ms := DEVICE_PROFILE_FAILOVER_DELAY_DEFAULT_MS\<rparr> else n)
      in if np_recovery_hysteresis_ms n = 0 then n\<lparr>np_recovery_hysteresis_ms := DEVICE_PROFILE_RECOVERY_HYST_DEFAULT_MS\<rparr> else n)"

definition onboarding_transport :: "device_network_profile_t \<Rightarrow> device_profile_transport_t" where
  "onboarding_transport n =
     (if np_wifi_supported n then DEVICE_PROFILE_TRANSPORT_WIFI
      else if np_ethernet_supported n then DEVICE_PROFILE_TRANSPORT_ETHERNET
      else DEVICE_PROFILE_TRANSPORT_NONE)"

definition onboarding_policy :: "device_network_profile_t \<Rightarrow> device_network_profile_t" where
  "onboarding_policy n = n\<lparr>np_primary_transport := onboarding_transport n,
     np_fallback_transport := DEVICE_PROFILE_TRANSPORT_NONE, np_wifi_enabled := np_wifi_supported n,
     np_ethernet_enabled := False, np_rs485_enabled := False\<rparr>"

definition choose_primary :: "device_network_profile_t \<Rightarrow> device_network_profile_t" where
  "choose_primary n =
     (if device_profile_transport_allowed_in_network (np_primary_transport n) n then n
      else if np_ethernet_supported n then n\<lparr>np_primary_transport := DEVICE_PROFILE_TRANSPORT_ETHERNET\<rparr>
      else if np_wifi_supported n then n\<lparr>np_primary_transport := DEVICE_PROFILE_TRANSPORT_WIFI\<rparr>
      else if np_rs485_supported n \<and> np_rs485_enabled n then n\<lparr>np_primary_transport := DEVICE_PROFILE_TRANSPORT_RS485\<rparr>
      else n\<lparr>np_primary_transport := DEVICE_PROFILE_TRANSPORT_NONE\<rparr>)"

definition choose_fallback :: "device_network_profile_t \<Rightarrow> device_network_profile_t" where
  "choose_fallback n =
     (if \<not> device_profile_transport_allowed_in_network (np_fallback_transport n) n \<or>
         np_fallback_transport n = np_primary_transport n
      then n\<lparr>np_fallback_transport := DEVICE_PROFILE_TRANSPORT_NONE\<rparr> else n)"

definition enable_transports :: "device_network_profile_t \<Rightarrow> device_network_profile_t" where
  "enable_transports n =
     (if np_primary_transport n = DEVICE_PROFILE_TRANSPORT_ETHERNET
      then n\<lparr>np_ethernet_enabled := np_ethernet_supported n,
             np_wifi_enabled := (np_fallback_transport n = DEVICE_PROFILE_TRANSPORT_WIFI)\<rparr>
      else if np_primary_transport n = DEVICE_PROFILE_TRANSPORT_WIFI
      then n\<lparr>np_wifi_enabled := np_wifi_supported n,
             np_ethernet_enabled := (np_fallback_transport n = DEVICE_PROFILE_TRANSPORT_ETHERNET)\<rparr>
      else n\<lparr>np_wifi_enabled := False, np_ethernet_enabled := False\<rparr>)"

definition enable_rs485 :: "device_network_profile_t \<Rightarrow> device_network_profile_t" where
  "enable_rs485 n =
     (if \<not> np_rs485_supported n then n\<lparr>np_rs485_enabled := False\<rparr>
      else if np_primary_transport n = DEVICE_PROFILE_TRANSPORT_RS485 \<or>
              np_fallback_transport n = DEVICE_PROFILE_TRANSPORT_RS485
      then n\<lparr>np_rs485_enabled := True\<rparr> else n)"

definition device_profile_normalize_transport_policy :: "device_network_profile_t \<Rightarrow> device_network_profile_t" where
  "device_profile_normalize_transport_policy n =
     (let n = default_delays n in
      if np_onboarding_pending n then onboarding_policy n
      else enable_rs485 (enable_transports (choose_fallback (choose_primary n))))"

definition device_profile_network_label_from_profile :: "device_network_profile_t \<Rightarrow> string" where
  "device_profile_network_label_from_profile n =
     (let primary = np_primary_transport n; fallback = np_fallback_transport n in
      if np_onboarding_pending n then ''wifi-onboarding''
      else if primary = DEVICE_PROFILE_TRANSPORT_ETHERNET \<and> fallback = DEVICE_PROFILE_TRANSPORT_WIFI
      then ''ethernet-primary / wifi-fallback''
      else if primary = DEVICE_PROFILE_TRANSPORT_ETHERNET \<and> fallback = DEVICE_PROFILE_TRANSPORT_RS485
      then ''ethernet-primary / rs485-fallback''
      else if primary = DEVICE_PROFILE_TRANSPORT_WIFI \<and> fallback = DEVICE_PROFILE_TRANSPORT_ETHERNET
      then ''wifi-primary / ethernet-fallback''
      else if primary = DEVICE_PROFILE_TRANSPORT_WIFI \<and> fallback = DEVICE_PROFILE_TRANSPORT_RS485
      then ''wifi-primary / rs485-fallback''
      else if primary = DEVICE_PROFILE_TRANSPORT_ETHERNET
      then if device_profile_w5500_is_configured_from_profile n then ''ethernet-primary'' else ''ethernet-setup''
      else if primary = DEVICE_PROFILE_TRANSPORT_WIFI then ''wifi-primary''
      else if primary = DEVICE_PROFILE_TRANSPORT_ESPNOW then ''espnow-primary''
      else if primary = DEVICE_PROFILE_TRANSPORT_MESH then ''mesh-primary''
      else if primary = DEVICE_PROFILE_TRANSPORT_RS485 then ''rs485-primary''
      else if np_rs485_enabled n then ''rs485-runtime''
      else ''network-disabled'')"

text \<open>Normalising and labelling, as every change of the policy ends.\<close>

definition settle_policy :: "device_network_profile_t \<Rightarrow> device_network_profile_t" where
  "settle_policy n =
     (let n = device_profile_normalize_transport_policy n
      in n\<lparr>np_label := device_profile_network_label_from_profile n\<rparr>)"

subsection \<open>Storage of the network policy\<close>

definition flag_byte :: "bool \<Rightarrow> u8" where
  "flag_byte b = (if b then 1 else 0)"

definition SIZEOF_NETWORK_BLOB_V4 :: nat where "SIZEOF_NETWORK_BLOB_V4 = 32"
definition SIZEOF_NETWORK_BLOB_V3 :: nat where "SIZEOF_NETWORK_BLOB_V3 = 28"
definition SIZEOF_NETWORK_BLOB_V2 :: nat where "SIZEOF_NETWORK_BLOB_V2 = 24"
definition SIZEOF_NETWORK_BLOB_V1 :: nat where "SIZEOF_NETWORK_BLOB_V1 = 12"

lemmas network_blob_sizes = SIZEOF_NETWORK_BLOB_V4_def SIZEOF_NETWORK_BLOB_V3_def SIZEOF_NETWORK_BLOB_V2_def
  SIZEOF_NETWORK_BLOB_V1_def

definition network_body :: "device_network_profile_t \<Rightarrow> bytes" where
  "network_body n = le32 DEVICE_PROFILE_NETWORK_MAGIC @ le16 DEVICE_PROFILE_NETWORK_VERSION @
     [flag_byte (np_wifi_enabled n), flag_byte (np_ethernet_enabled n), flag_byte (np_rs485_enabled n),
      flag_byte (np_onboarding_pending n), ucast (np_primary_transport n), ucast (np_fallback_transport n),
      ucast (np_wifi_mode n), flag_byte (np_allow_local_ap n), flag_byte (np_allow_dashboard n),
      flag_byte (np_allow_ota n), 0, 0, 0, 0] @
     le32 (np_failover_delay_ms n) @ le32 (np_recovery_hysteresis_ms n)"

definition network_blob :: "device_network_profile_t \<Rightarrow> bytes" where
  "network_blob n = network_body n @ le32 (crc32 (network_body n))"

text \<open>Magic number, version and checksum, which is in the last four bytes.\<close>

definition network_header_ok :: "u16 \<Rightarrow> bytes \<Rightarrow> bool" where
  "network_header_ok version raw \<longleftrightarrow>
     of_le32 raw = DEVICE_PROFILE_NETWORK_MAGIC \<and> of_le16 (drop 4 raw) = version \<and>
     of_le32 (drop (length raw - 4) raw) = crc32 (take (length raw - 4) raw)"

definition wifi_mode_of :: "u8 \<Rightarrow> device_profile_wifi_mode_t" where
  "wifi_mode_of b = (if b \<le> 2 then ucast b else DEVICE_PROFILE_WIFI_MODE_INFRA)"

text \<open>The fields that versions 3 and 4 share; the two delays are at an offset of the version.\<close>

definition apply_blob_v3_v4 :: "nat \<Rightarrow> bytes \<Rightarrow> device_network_profile_t \<Rightarrow> device_network_profile_t" where
  "apply_blob_v3_v4 delays raw n = n\<lparr>
     np_wifi_enabled := np_wifi_supported n \<and> raw ! 6 \<noteq> 0,
     np_ethernet_enabled := np_ethernet_supported n \<and> raw ! 7 \<noteq> 0,
     np_rs485_enabled := np_rs485_supported n \<and> raw ! 8 \<noteq> 0,
     np_wifi_mode := wifi_mode_of (raw ! 12),
     np_onboarding_pending := raw ! 9 \<noteq> 0,
     np_primary_transport := ucast (raw ! 10),
     np_fallback_transport := ucast (raw ! 11),
     np_failover_delay_ms := of_le32 (drop delays raw),
     np_recovery_hysteresis_ms := of_le32 (drop (delays + 4) raw)\<rparr>"

definition apply_network_blob_v4 :: "bytes \<Rightarrow> device_network_profile_t \<Rightarrow> device_network_profile_t" where
  "apply_network_blob_v4 raw n =
     (if \<not> network_header_ok DEVICE_PROFILE_NETWORK_VERSION raw then n
      else (apply_blob_v3_v4 20 raw n)\<lparr>np_allow_local_ap := raw ! 13 \<noteq> 0, np_allow_dashboard := raw ! 14 \<noteq> 0,
             np_allow_ota := raw ! 15 \<noteq> 0\<rparr>)"

definition apply_network_blob_v3 :: "bytes \<Rightarrow> device_network_profile_t \<Rightarrow> device_network_profile_t" where
  "apply_network_blob_v3 raw n =
     (if \<not> network_header_ok 3 raw then n
      else (apply_blob_v3_v4 16 raw n)\<lparr>np_allow_local_ap := True, np_allow_dashboard := True, np_allow_ota := True\<rparr>)"

definition apply_network_blob_v2 :: "bytes \<Rightarrow> device_network_profile_t \<Rightarrow> device_network_profile_t" where
  "apply_network_blob_v2 raw n =
     (if \<not> network_header_ok 2 raw then n
      else n\<lparr>np_wifi_enabled := np_wifi_supported n \<and> raw ! 6 \<noteq> 0,
             np_ethernet_enabled := np_ethernet_supported n \<and> raw ! 7 \<noteq> 0,
             np_rs485_enabled := False,
             np_onboarding_pending := raw ! 8 \<noteq> 0,
             np_primary_transport := ucast (raw ! 9),
             np_fallback_transport := ucast (raw ! 10),
             np_failover_delay_ms := of_le32 (drop 12 raw),
             np_recovery_hysteresis_ms := of_le32 (drop 16 raw)\<rparr>)"

definition apply_network_blob_v1 :: "bytes \<Rightarrow> device_network_profile_t \<Rightarrow> device_network_profile_t" where
  "apply_network_blob_v1 raw n =
     (if \<not> network_header_ok 1 raw \<or> raw ! 6 > 1 \<or> raw ! 7 > 1 then n
      else
        let n = n\<lparr>np_wifi_enabled := np_wifi_supported n \<and> raw ! 6 \<noteq> 0,
                  np_ethernet_enabled := np_ethernet_supported n \<and> raw ! 7 \<noteq> 0,
                  np_rs485_enabled := False\<rparr>
        in device_profile_apply_legacy_transport_policy (np_wifi_enabled n) (np_ethernet_enabled n) n)"

definition apply_network_blob :: "bytes \<Rightarrow> device_network_profile_t \<Rightarrow> device_network_profile_t" where
  "apply_network_blob raw n =
     (if length raw = SIZEOF_NETWORK_BLOB_V4 then apply_network_blob_v4 raw n
      else if length raw = SIZEOF_NETWORK_BLOB_V3 then apply_network_blob_v3 raw n
      else if length raw = SIZEOF_NETWORK_BLOB_V2 then apply_network_blob_v2 raw n
      else if length raw = SIZEOF_NETWORK_BLOB_V1 then apply_network_blob_v1 raw n
      else n)"

definition load_node_profile :: "esp_err_t \<Rightarrow> u8 \<Rightarrow> 'w device_profile \<Rightarrow> 'w device_profile" where
  "load_node_profile err prof_val s =
     (if err = ESP_OK
      then if ucast prof_val < NODE_PROFILE_MAX then s\<lparr>dp_node_profile := ucast prof_val\<rparr> else s
      else s\<lparr>dp_node_profile := NODE_PROFILE_FIELD, dp_network := dp_network s\<lparr>np_onboarding_pending := True\<rparr>\<rparr>)"

definition device_profile_load_network_config :: "'w platform \<Rightarrow> 'w device_profile \<Rightarrow> 'w device_profile" where
  "device_profile_load_network_config P s =
     (case nvs_open P DEVICE_PROFILE_NETWORK_NAMESPACE NVS_READONLY (dp_world s) of (err, h, w) \<Rightarrow>
      if err \<noteq> ESP_OK then s\<lparr>dp_world := w\<rparr>
      else case nvs_get_u8 P h DEVICE_PROFILE_NODE_KEY w of (err, prof_val, w) \<Rightarrow>
        let s = load_node_profile err prof_val s in
        case nvs_get_blob P h DEVICE_PROFILE_NETWORK_KEY SIZEOF_NETWORK_BLOB_V4 w of (err, raw, w) \<Rightarrow>
        let s = s\<lparr>dp_world := nvs_close P h w\<rparr> in
        if err \<noteq> ESP_OK then s
        else s\<lparr>dp_network := apply_network_blob raw (dp_network s)\<rparr>)"

definition build_network_profile :: "build_config \<Rightarrow> device_network_profile_t" where
  "build_network_profile cfg = \<lparr>
     np_wifi_supported = CONFIG_ENDAP_WIFI_ENABLED cfg,
     np_ethernet_supported = CONFIG_ENDAP_ETHERNET_ENABLED cfg,
     np_rs485_supported = CONFIG_ENDAP_RS485_ENABLED cfg,
     np_wifi_enabled = CONFIG_ENDAP_WIFI_ENABLED cfg,
     np_ethernet_enabled = False,
     np_rs485_enabled = False,
     np_wifi_mode = DEVICE_PROFILE_WIFI_MODE_INFRA,
     np_onboarding_pending = True,
     np_primary_transport = (if CONFIG_ENDAP_WIFI_ENABLED cfg then DEVICE_PROFILE_TRANSPORT_WIFI
        else if CONFIG_ENDAP_ETHERNET_ENABLED cfg then DEVICE_PROFILE_TRANSPORT_ETHERNET
        else DEVICE_PROFILE_TRANSPORT_NONE),
     np_fallback_transport = DEVICE_PROFILE_TRANSPORT_NONE,
     np_failover_delay_ms = DEVICE_PROFILE_FAILOVER_DELAY_DEFAULT_MS,
     np_recovery_hysteresis_ms = DEVICE_PROFILE_RECOVERY_HYST_DEFAULT_MS,
     np_ethernet_mode = device_profile_detect_ethernet_mode cfg,
     np_allow_local_ap = True, np_allow_dashboard = True, np_allow_ota = True,
     np_label = [],
     np_w5500 = \<lparr>w5_spi_host_id = CONFIG_ENDAP_W5500_SPI_HOST cfg,
        w5_mosi_gpio = gpio_from_config (CONFIG_ENDAP_W5500_MOSI_GPIO cfg),
        w5_miso_gpio = gpio_from_config (CONFIG_ENDAP_W5500_MISO_GPIO cfg),
        w5_sclk_gpio = gpio_from_config (CONFIG_ENDAP_W5500_SCLK_GPIO cfg),
        w5_cs_gpio = gpio_from_config (CONFIG_ENDAP_W5500_CS_GPIO cfg),
        w5_int_gpio = gpio_from_config (CONFIG_ENDAP_W5500_INT_GPIO cfg),
        w5_reset_gpio = gpio_from_config (CONFIG_ENDAP_W5500_RESET_GPIO cfg),
        w5_phy_addr = CONFIG_ENDAP_W5500_PHY_ADDR cfg,
        w5_clock_mhz = CONFIG_ENDAP_W5500_CLOCK_MHZ cfg\<rparr>\<rparr>"

definition device_profile_init_network_profile :: "'w platform \<Rightarrow> build_config \<Rightarrow> 'w device_profile \<Rightarrow> 'w device_profile" where
  "device_profile_init_network_profile P cfg s =
     (if dp_initialized s \<or> dp_initializing s then s
      else
        let s = s\<lparr>dp_initializing := True, dp_network := build_network_profile cfg\<rparr>;
            s = device_profile_load_network_config P s
        in s\<lparr>dp_network := settle_policy (dp_network s), dp_initialized := True, dp_initializing := False\<rparr>)"

definition device_profile_persist_network_config ::
    "'w platform \<Rightarrow> 'w device_profile \<Rightarrow> device_profile_network_config_result_t \<times> 'w device_profile" where
  "device_profile_persist_network_config P s =
     (case nvs_store P DEVICE_PROFILE_NETWORK_NAMESPACE DEVICE_PROFILE_NETWORK_KEY (network_blob (dp_network s)) (dp_world s) of
        (stored, w) \<Rightarrow>
      (if stored then DEVICE_PROFILE_NETWORK_CONFIG_OK else DEVICE_PROFILE_NETWORK_CONFIG_PERSIST_FAILED, s\<lparr>dp_world := w\<rparr>))"

subsection \<open>Queries and changes of the network policy\<close>

definition device_profile_network :: "'w platform \<Rightarrow> build_config \<Rightarrow> 'w device_profile \<Rightarrow> device_network_profile_t \<times> 'w device_profile" where
  "device_profile_network P cfg s = (let s = device_profile_init_network_profile P cfg s in (dp_network s, s))"

definition device_profile_w5500_is_configured :: "'w platform \<Rightarrow> build_config \<Rightarrow> 'w device_profile \<Rightarrow> bool \<times> 'w device_profile" where
  "device_profile_w5500_is_configured P cfg s =
     (let s = device_profile_init_network_profile P cfg s
      in (device_profile_w5500_is_configured_from_profile (dp_network s), s))"

definition transport_enabled_in :: "device_profile_transport_t \<Rightarrow> device_network_profile_t \<Rightarrow> bool" where
  "transport_enabled_in transport n =
     (if \<not> device_profile_transport_allowed_in_network transport n then False
      else if transport = DEVICE_PROFILE_TRANSPORT_WIFI then np_wifi_enabled n
      else if transport = DEVICE_PROFILE_TRANSPORT_ETHERNET then np_ethernet_enabled n
      else if transport = DEVICE_PROFILE_TRANSPORT_RS485 then np_rs485_enabled n
      else True)"

definition device_profile_transport_enabled ::
    "'w platform \<Rightarrow> build_config \<Rightarrow> device_profile_transport_t \<Rightarrow> 'w device_profile \<Rightarrow> bool \<times> 'w device_profile" where
  "device_profile_transport_enabled P cfg transport s =
     (case device_profile_network P cfg s of (n, s) \<Rightarrow> (transport_enabled_in transport n, s))"

definition device_profile_supports_wifi :: "'w platform \<Rightarrow> build_config \<Rightarrow> 'w device_profile \<Rightarrow> bool \<times> 'w device_profile" where
  "device_profile_supports_wifi P cfg s =
     (case device_profile_network P cfg s of (n, s) \<Rightarrow> (np_wifi_supported n \<and> np_wifi_enabled n, s))"

definition device_profile_supports_ethernet :: "'w platform \<Rightarrow> build_config \<Rightarrow> 'w device_profile \<Rightarrow> bool \<times> 'w device_profile" where
  "device_profile_supports_ethernet P cfg s =
     (case device_profile_network P cfg s of (n, s) \<Rightarrow> (np_ethernet_supported n \<and> np_ethernet_enabled n, s))"

definition device_profile_supports_rs485 :: "'w platform \<Rightarrow> build_config \<Rightarrow> 'w device_profile \<Rightarrow> bool \<times> 'w device_profile" where
  "device_profile_supports_rs485 P cfg s = device_profile_transport_enabled P cfg DEVICE_PROFILE_TRANSPORT_RS485 s"

definition device_profile_transport_supported ::
    "'w platform \<Rightarrow> build_config \<Rightarrow> device_profile_transport_t \<Rightarrow> 'w device_profile \<Rightarrow> bool \<times> 'w device_profile" where
  "device_profile_transport_supported P cfg transport s =
     (case device_profile_network P cfg s of (n, s) \<Rightarrow>
      (if transport = DEVICE_PROFILE_TRANSPORT_WIFI then np_wifi_supported n
       else if transport = DEVICE_PROFILE_TRANSPORT_ETHERNET then np_ethernet_supported n
       else if transport = DEVICE_PROFILE_TRANSPORT_RS485 then np_rs485_supported n
       else True, s))"

definition device_profile_transport_visible ::
    "'w platform \<Rightarrow> build_config \<Rightarrow> device_profile_transport_t \<Rightarrow> 'w device_profile \<Rightarrow> bool \<times> 'w device_profile" where
  "device_profile_transport_visible P cfg transport s =
     (if transport = DEVICE_PROFILE_TRANSPORT_NONE then (True, s)
      else device_profile_transport_enabled P cfg transport s)"

definition device_profile_should_start_wifi_on_boot ::
    "'w platform \<Rightarrow> build_config \<Rightarrow> 'w device_profile \<Rightarrow> bool \<times> 'w device_profile" where
  "device_profile_should_start_wifi_on_boot P cfg s =
     (case device_profile_network P cfg s of (n, s) \<Rightarrow>
      if np_onboarding_pending n then device_profile_transport_supported P cfg DEVICE_PROFILE_TRANSPORT_WIFI s
      else case device_profile_transport_enabled P cfg DEVICE_PROFILE_TRANSPORT_WIFI s of (enabled, s) \<Rightarrow>
        (enabled \<and> np_primary_transport n = DEVICE_PROFILE_TRANSPORT_WIFI, s))"

definition device_profile_should_start_ethernet_on_boot ::
    "'w platform \<Rightarrow> build_config \<Rightarrow> 'w device_profile \<Rightarrow> bool \<times> 'w device_profile" where
  "device_profile_should_start_ethernet_on_boot P cfg s =
     (case device_profile_network P cfg s of (n, s) \<Rightarrow>
      if np_onboarding_pending n then (False, s)
      else case device_profile_transport_enabled P cfg DEVICE_PROFILE_TRANSPORT_ETHERNET s of (enabled, s) \<Rightarrow>
        (enabled \<and> np_primary_transport n = DEVICE_PROFILE_TRANSPORT_ETHERNET, s))"

definition device_profile_should_start_rs485_on_boot ::
    "'w platform \<Rightarrow> build_config \<Rightarrow> 'w device_profile \<Rightarrow> bool \<times> 'w device_profile" where
  "device_profile_should_start_rs485_on_boot P cfg s =
     (case device_profile_network P cfg s of (n, s) \<Rightarrow> (np_rs485_supported n \<and> np_rs485_enabled n, s))"

definition device_profile_set_network_enabled ::
    "'w platform \<Rightarrow> build_config \<Rightarrow> bool \<Rightarrow> bool \<Rightarrow> bool \<Rightarrow> device_profile_wifi_mode_t \<Rightarrow> 'w device_profile \<Rightarrow>
     device_profile_network_config_result_t \<times> 'w device_profile" where
  "device_profile_set_network_enabled P cfg wifi_enabled ethernet_enabled rs485_enabled wifi_mode s =
     (let s = device_profile_init_network_profile P cfg s; n = dp_network s in
      if wifi_enabled \<and> \<not> np_wifi_supported n then (DEVICE_PROFILE_NETWORK_CONFIG_UNSUPPORTED, s)
      else if ethernet_enabled \<and> \<not> np_ethernet_supported n then (DEVICE_PROFILE_NETWORK_CONFIG_UNSUPPORTED, s)
      else if rs485_enabled \<and> \<not> np_rs485_supported n then (DEVICE_PROFILE_NETWORK_CONFIG_UNSUPPORTED, s)
      else device_profile_persist_network_config P
        (s\<lparr>dp_network := settle_policy
              (device_profile_apply_manual_network_selection wifi_enabled ethernet_enabled rs485_enabled wifi_mode n)\<rparr>))"

definition device_profile_set_transport_policy ::
    "'w platform \<Rightarrow> build_config \<Rightarrow> bool \<Rightarrow> device_profile_transport_t \<Rightarrow> device_profile_transport_t \<Rightarrow> u32 \<Rightarrow> u32 \<Rightarrow>
     'w device_profile \<Rightarrow> device_profile_network_config_result_t \<times> 'w device_profile" where
  "device_profile_set_transport_policy P cfg onboarding_pending primary_transport fallback_transport
       failover_delay_ms recovery_hysteresis_ms s =
     (let s = device_profile_init_network_profile P cfg s
      in device_profile_persist_network_config P
        (s\<lparr>dp_network := settle_policy (dp_network s\<lparr>np_onboarding_pending := onboarding_pending,
              np_primary_transport := primary_transport, np_fallback_transport := fallback_transport,
              np_failover_delay_ms := failover_delay_ms, np_recovery_hysteresis_ms := recovery_hysteresis_ms\<rparr>)\<rparr>))"

subsection \<open>Reserved pins\<close>

definition reserved_for_platform :: "device_sensor_profile_t \<Rightarrow> device_network_profile_t \<Rightarrow> int \<Rightarrow> bool" where
  "reserved_for_platform sensors n gpio \<longleftrightarrow>
     gpio = 1 \<or> gpio = 3 \<or>
     sp_dht11_enabled sensors \<and> gpio = sp_dht11_gpio sensors \<or>
     sp_ds18b20_enabled sensors \<and> gpio = sp_ds18b20_gpio sensors \<or>
     np_rs485_supported n \<and> np_rs485_enabled n \<and> gpio \<in> {25, 26, 27}"

definition w5500_pin :: "device_network_profile_t \<Rightarrow> int \<Rightarrow> bool" where
  "w5500_pin n gpio \<longleftrightarrow>
     gpio = w5_mosi_gpio (np_w5500 n) \<or> gpio = w5_miso_gpio (np_w5500 n) \<or> gpio = w5_sclk_gpio (np_w5500 n) \<or>
     gpio = w5_cs_gpio (np_w5500 n) \<or> gpio = w5_int_gpio (np_w5500 n) \<or> gpio = w5_reset_gpio (np_w5500 n)"

definition reserved_for_network :: "device_network_profile_t \<Rightarrow> int \<Rightarrow> bool" where
  "reserved_for_network n gpio \<longleftrightarrow>
     np_ethernet_supported n \<and> np_ethernet_enabled n \<and> device_profile_w5500_is_configured_from_profile n \<and>
     w5500_pin n gpio"

definition pin_allowed :: "device_gpio_option_t list \<Rightarrow> device_sensor_profile_t \<Rightarrow> device_network_profile_t \<Rightarrow> int \<Rightarrow> bool" where
  "pin_allowed options sensors n gpio \<longleftrightarrow>
     device_profile_gpio_is_listed options gpio \<and> \<not> reserved_for_platform sensors n gpio \<and>
     \<not> reserved_for_network n gpio"

definition device_profile_gpio_reserved_for_platform ::
    "'w platform \<Rightarrow> build_config \<Rightarrow> int \<Rightarrow> 'w device_profile \<Rightarrow> bool \<times> 'w device_profile" where
  "device_profile_gpio_reserved_for_platform P cfg gpio s =
     (if gpio = 1 \<or> gpio = 3 \<or>
         sp_dht11_enabled (dp_sensors s) \<and> gpio = sp_dht11_gpio (dp_sensors s) \<or>
         sp_ds18b20_enabled (dp_sensors s) \<and> gpio = sp_ds18b20_gpio (dp_sensors s)
      then (True, s)
      else case device_profile_network P cfg s of (n, s) \<Rightarrow>
        (np_rs485_supported n \<and> np_rs485_enabled n \<and> gpio \<in> {25, 26, 27}, s))"

definition device_profile_gpio_reserved_for_network ::
    "'w platform \<Rightarrow> build_config \<Rightarrow> int \<Rightarrow> 'w device_profile \<Rightarrow> bool \<times> 'w device_profile" where
  "device_profile_gpio_reserved_for_network P cfg gpio s =
     (case device_profile_network P cfg s of (n, s) \<Rightarrow> (reserved_for_network n gpio, s))"

definition gpio_allowed ::
    "'w platform \<Rightarrow> build_config \<Rightarrow> device_gpio_option_t list \<Rightarrow> int \<Rightarrow> 'w device_profile \<Rightarrow> bool \<times> 'w device_profile" where
  "gpio_allowed P cfg options gpio s =
     (if \<not> device_profile_gpio_is_listed options gpio then (False, s)
      else case device_profile_gpio_reserved_for_platform P cfg gpio s of (reserved, s) \<Rightarrow>
        if reserved then (False, s)
        else case device_profile_gpio_reserved_for_network P cfg gpio s of (reserved, s) \<Rightarrow> (\<not> reserved, s))"

definition device_profile_input_gpio_allowed ::
    "'w platform \<Rightarrow> build_config \<Rightarrow> int \<Rightarrow> 'w device_profile \<Rightarrow> bool \<times> 'w device_profile" where
  "device_profile_input_gpio_allowed P cfg = gpio_allowed P cfg input_gpio_options"

definition device_profile_output_gpio_allowed ::
    "'w platform \<Rightarrow> build_config \<Rightarrow> int \<Rightarrow> 'w device_profile \<Rightarrow> bool \<times> 'w device_profile" where
  "device_profile_output_gpio_allowed P cfg = gpio_allowed P cfg output_gpio_options"

definition reserved_by :: "device_sensor_profile_t \<Rightarrow> device_network_profile_t \<Rightarrow> int \<Rightarrow> string option" where
  "reserved_by sensors n gpio =
     (if gpio = 1 \<or> gpio = 3 then Some ''UART/Console''
      else if gpio = 0 \<or> gpio = 12 \<or> gpio = 15 then Some ''Strapping/Boot''
      else if 6 \<le> gpio \<and> gpio \<le> 11 then Some ''Flash SPI''
      else if sp_aht10_enabled sensors \<and> (gpio = sp_aht10_sda_gpio sensors \<or> gpio = sp_aht10_scl_gpio sensors)
      then Some ''I2C/AHT10''
      else if sp_dht11_enabled sensors \<and> gpio = sp_dht11_gpio sensors then Some ''DHT11''
      else if sp_ds18b20_enabled sensors \<and> gpio = sp_ds18b20_gpio sensors then Some ''DS18B20''
      else if np_rs485_supported n \<and> np_rs485_enabled n \<and> gpio \<in> {14, 25, 26, 27} then Some ''RS-485''
      else if reserved_for_network n gpio then Some ''W5500''
      else None)"

text \<open>
  \<open>device_profile_gpio_reserved_by\<close> returns before it looks at the network for the first five answers.
\<close>

definition device_profile_gpio_reserved_by ::
    "'w platform \<Rightarrow> build_config \<Rightarrow> int \<Rightarrow> 'w device_profile \<Rightarrow> string option \<times> 'w device_profile" where
  "device_profile_gpio_reserved_by P cfg gpio s =
     (if gpio \<in> {0, 1, 3, 12, 15} \<or> 6 \<le> gpio \<and> gpio \<le> 11 \<or>
         sp_aht10_enabled (dp_sensors s) \<and> (gpio = sp_aht10_sda_gpio (dp_sensors s) \<or> gpio = sp_aht10_scl_gpio (dp_sensors s)) \<or>
         sp_dht11_enabled (dp_sensors s) \<and> gpio = sp_dht11_gpio (dp_sensors s) \<or>
         sp_ds18b20_enabled (dp_sensors s) \<and> gpio = sp_ds18b20_gpio (dp_sensors s)
      then (reserved_by (dp_sensors s) (dp_network s) gpio, s)
      else case device_profile_network P cfg s of (n, s) \<Rightarrow> (reserved_by (dp_sensors s) n gpio, s))"

datatype device_gpio_resource_state_t =
  DEVICE_GPIO_STATE_AVAILABLE | DEVICE_GPIO_STATE_IN_USE_INPUT | DEVICE_GPIO_STATE_IN_USE_OUTPUT
  | DEVICE_GPIO_STATE_RESERVED | DEVICE_GPIO_STATE_DISABLED_BY_PROFILE

record device_gpio_inventory_item_t =
  gi_gpio :: int
  gi_input_capable :: bool
  gi_output_capable :: bool
  gi_analog_capable :: bool
  gi_state :: device_gpio_resource_state_t
  gi_state_str :: string
  gi_reserved_by :: "string option"
  gi_bound_id :: u16
  gi_bound_name :: "bytes option"
  gi_bound_role :: "bytes option"
  gi_plc_channel :: bytes

definition hardware_monitored_gpios :: "int list" where
  "hardware_monitored_gpios = [4, 5, 13, 14, 16, 17, 18, 19, 21, 22, 23, 25, 26, 27, 32, 33, 34, 35, 36, 39]"

definition inventory_item :: "device_sensor_profile_t \<Rightarrow> device_network_profile_t \<Rightarrow> int \<Rightarrow> device_gpio_inventory_item_t" where
  "inventory_item sensors n g = \<lparr>gi_gpio = g,
     gi_input_capable = g \<in> {34, 35, 36, 39} \<or> device_profile_gpio_is_listed input_gpio_options g,
     gi_output_capable = \<not> device_profile_gpio_is_input_only g \<and> device_profile_gpio_is_listed output_gpio_options g,
     gi_analog_capable = g \<in> {32, 33, 34, 35, 36, 39},
     gi_state = (case reserved_by sensors n g of Some _ \<Rightarrow> DEVICE_GPIO_STATE_RESERVED | None \<Rightarrow> DEVICE_GPIO_STATE_AVAILABLE),
     gi_state_str = (case reserved_by sensors n g of Some _ \<Rightarrow> ''RESERVED'' | None \<Rightarrow> ''AVAILABLE''),
     gi_reserved_by = reserved_by sensors n g,
     gi_bound_id = 0, gi_bound_name = None, gi_bound_role = None, gi_plc_channel = replicate 8 0\<rparr>"

text \<open>
  The items whose answer does not depend on the network do not look at it, so the profile that
  \<open>inventory_item\<close> is given is the initialised one wherever it matters.
\<close>

definition device_profile_export_gpio_inventory ::
    "'w platform \<Rightarrow> build_config \<Rightarrow> int \<Rightarrow> 'w device_profile \<Rightarrow> device_gpio_inventory_item_t list \<times> 'w device_profile" where
  "device_profile_export_gpio_inventory P cfg max_items s =
     fold (\<lambda>g (items, s). case device_profile_gpio_reserved_by P cfg g s of (_, s) \<Rightarrow>
             (items @ [inventory_item (dp_sensors s) (dp_network s) g], s))
       (take (nat max_items) hardware_monitored_gpios) ([], s)"

subsection \<open>Sensors\<close>

text \<open>A pin is stored in a signed byte.\<close>

definition sensor_body :: "device_sensor_profile_t \<Rightarrow> bytes" where
  "sensor_body c = le32 SENSOR_PROFILE_MAGIC @ le16 SENSOR_PROFILE_VERSION @
     [flag_byte (sp_dht11_enabled c), of_int (sp_dht11_gpio c), flag_byte (sp_ds18b20_enabled c), of_int (sp_ds18b20_gpio c),
      flag_byte (sp_aht10_enabled c), of_int (sp_aht10_sda_gpio c), of_int (sp_aht10_scl_gpio c)]"

definition sensor_blob :: "device_sensor_profile_t \<Rightarrow> bytes" where
  "sensor_blob c = sensor_body c @ le32 (crc32 (sensor_body c))"

definition SIZEOF_SENSOR_BLOB :: nat where "SIZEOF_SENSOR_BLOB = 17"

definition sensors_of :: "bytes \<Rightarrow> device_sensor_profile_t" where
  "sensors_of raw = \<lparr>sp_dht11_enabled = raw ! 6 \<noteq> 0, sp_dht11_gpio = sint (raw ! 7),
     sp_ds18b20_enabled = raw ! 8 \<noteq> 0, sp_ds18b20_gpio = sint (raw ! 9),
     sp_aht10_enabled = raw ! 10 \<noteq> 0, sp_aht10_sda_gpio = sint (raw ! 11), sp_aht10_scl_gpio = sint (raw ! 12)\<rparr>"

definition device_profile_sensors_init :: "'w platform \<Rightarrow> 'w device_profile \<Rightarrow> 'w device_profile" where
  "device_profile_sensors_init P s =
     (case nvs_open P SENSOR_PROFILE_NAMESPACE NVS_READONLY (dp_world s) of (err, h, w) \<Rightarrow>
      if err \<noteq> ESP_OK then s\<lparr>dp_world := w\<rparr>
      else case nvs_get_blob P h SENSOR_PROFILE_KEY SIZEOF_SENSOR_BLOB w of (err, raw, w) \<Rightarrow>
        let s = s\<lparr>dp_world := nvs_close P h w\<rparr> in
        if err = ESP_OK \<and> length raw = SIZEOF_SENSOR_BLOB \<and> of_le32 raw = SENSOR_PROFILE_MAGIC \<and>
           of_le16 (drop 4 raw) = SENSOR_PROFILE_VERSION \<and> of_le32 (drop 13 raw) = crc32 (take 13 raw)
        then s\<lparr>dp_sensors := sensors_of raw\<rparr> else s)"

text \<open>The result of the commit is ignored.\<close>

definition device_profile_set_sensors ::
    "'w platform \<Rightarrow> device_sensor_profile_t option \<Rightarrow> 'w device_profile \<Rightarrow> bool \<times> 'w device_profile" where
  "device_profile_set_sensors P config s =
     (case config of None \<Rightarrow> (False, s)
      | Some c \<Rightarrow>
          case nvs_open P SENSOR_PROFILE_NAMESPACE NVS_READWRITE (dp_world s) of (err, h, w) \<Rightarrow>
          if err \<noteq> ESP_OK then (False, s\<lparr>dp_world := w\<rparr>)
          else case nvs_set_blob P h SENSOR_PROFILE_KEY (sensor_blob c) w of (err, w) \<Rightarrow>
            if err \<noteq> ESP_OK then (False, s\<lparr>dp_world := nvs_close P h w\<rparr>)
            else case nvs_commit P h w of (_, w) \<Rightarrow>
              (True, s\<lparr>dp_world := nvs_close P h w, dp_sensors := c\<rparr>))"

subsection \<open>Node profiles\<close>

definition plc_channel :: "string \<Rightarrow> device_channel_class_t \<Rightarrow> u16 \<Rightarrow> int \<Rightarrow> bytes \<Rightarrow> bool \<Rightarrow> string \<Rightarrow> plc_channel_desc_t" where
  "plc_channel code cls index gpio name available role =
     \<lparr>pc_plc_code = str_bytes code, pc_channel_class = cls, pc_channel_index = index, pc_gpio = gpio,
      pc_default_name = name, pc_available = available, pc_role = str_bytes role\<rparr>"

definition gateway_plc_channels :: "plc_channel_desc_t list" where
  "gateway_plc_channels = [plc_channel ''DI00'' DEVICE_CHANNEL_CLASS_DIGITAL_INPUT 0 18 (str_bytes ''Bot'' @ [195,
      163] @ str_bytes ''o de Emerg'' @ [195, 170] @ str_bytes ''ncia Geral'') True ''emergency_stop'',
    plc_channel ''DI01'' DEVICE_CHANNEL_CLASS_DIGITAL_INPUT 1 19 (str_bytes ''Bot'' @ [195, 163] @ str_bytes
      ''o de Reset/Start'') True ''start_reset'',
    plc_channel ''DO00'' DEVICE_CHANNEL_CLASS_DIGITAL_OUTPUT 0 4 (str_bytes ''Sinalizador de Alarme Geral'') True
      ''alarm'',
    plc_channel ''DO01'' DEVICE_CHANNEL_CLASS_DIGITAL_OUTPUT 1 5 (str_bytes ''Sinalizador de Sistema em Execu'' @
      [195, 167] @ [195, 163] @ str_bytes ''o'') True ''running'',
    plc_channel ''AI00'' DEVICE_CHANNEL_CLASS_ANALOG_INPUT 0 34 (str_bytes ''Sensor de Tens'' @ [195, 163] @
      str_bytes ''o de Linha'') True ''voltage_sensor'',
    plc_channel ''AO00'' DEVICE_CHANNEL_CLASS_ANALOG_OUTPUT 0 GPIO_NUM_NC (str_bytes ''Sa'' @ [195, 173] @
      str_bytes ''da Anal'' @ [195, 179] @ str_bytes ''gica (N'' @ [195, 163] @ str_bytes ''o Dispon'' @ [195, 173]
      @ str_bytes ''vel)'') False ''disabled'']"

definition field_plc_channels :: "plc_channel_desc_t list" where
  "field_plc_channels = [plc_channel ''DI00'' DEVICE_CHANNEL_CLASS_DIGITAL_INPUT 0 16 (str_bytes
      ''Sensor da Porta'') True ''door_sensor'',
    plc_channel ''DI01'' DEVICE_CHANNEL_CLASS_DIGITAL_INPUT 1 17 (str_bytes ''V'' @ [195, 161] @ str_bytes
      ''lvula de Entrada'') True ''valve'',
    plc_channel ''DI02'' DEVICE_CHANNEL_CLASS_DIGITAL_INPUT 2 21 (str_bytes ''Chave de Habilita'' @ [195, 167] @
      [195, 163] @ str_bytes ''o Geral'') True ''enable_switch'',
    plc_channel ''DI03'' DEVICE_CHANNEL_CLASS_DIGITAL_INPUT 3 22 (str_bytes ''Reset de Failsafe Local'') True
      ''reset_switch'',
    plc_channel ''DI04'' DEVICE_CHANNEL_CLASS_DIGITAL_INPUT 4 27 (str_bytes ''Boia de N'' @ [195, 173] @ str_bytes
      ''vel M'' @ [195, 173] @ str_bytes ''nimo'') True ''level_switch'',
    plc_channel ''DI05'' DEVICE_CHANNEL_CLASS_DIGITAL_INPUT 5 26 (str_bytes ''Entrada Digital 05'') True ''input'',
    plc_channel ''DI06'' DEVICE_CHANNEL_CLASS_DIGITAL_INPUT 6 GPIO_NUM_NC (str_bytes ''Modo Auto/Manual'') False
      ''auto_manual_switch'',
    plc_channel ''DI07'' DEVICE_CHANNEL_CLASS_DIGITAL_INPUT 7 GPIO_NUM_NC (str_bytes ''Pressostato de Alta'') False
      ''high_pressure_switch'',
    plc_channel ''DI08'' DEVICE_CHANNEL_CLASS_DIGITAL_INPUT 8 GPIO_NUM_NC (str_bytes ''Pressostato de Baixa'')
      False ''low_pressure_switch'',
    plc_channel ''DI09'' DEVICE_CHANNEL_CLASS_DIGITAL_INPUT 9 GPIO_NUM_NC (str_bytes ''Fluxo de Retorno'') False
      ''flow_switch'',
    plc_channel ''DO00'' DEVICE_CHANNEL_CLASS_DIGITAL_OUTPUT 0 22 (str_bytes ''Bomba Principal'') True ''pump'',
    plc_channel ''DO01'' DEVICE_CHANNEL_CLASS_DIGITAL_OUTPUT 1 4 (str_bytes ''V'' @ [195, 161] @ str_bytes
      ''lvula de Dreno'') True ''drain_valve'',
    plc_channel ''DO02'' DEVICE_CHANNEL_CLASS_DIGITAL_OUTPUT 2 5 (str_bytes ''V'' @ [195, 161] @ str_bytes
      ''lvula de Alimenta'' @ [195, 167] @ [195, 163] @ str_bytes ''o'') True ''feed_valve'',
    plc_channel ''DO03'' DEVICE_CHANNEL_CLASS_DIGITAL_OUTPUT 3 14 (str_bytes ''Sinalizador de Opera'' @ [195, 167]
      @ [195, 163] @ str_bytes ''o'') True ''running'',
    plc_channel ''DO04'' DEVICE_CHANNEL_CLASS_DIGITAL_OUTPUT 4 25 (str_bytes ''Alarme Sonoro Local'') True ''alarm'',
    plc_channel ''DO05'' DEVICE_CHANNEL_CLASS_DIGITAL_OUTPUT 5 33 (str_bytes ''Sa'' @ [195, 173] @ str_bytes
      ''da Digital 05'') True ''output'',
    plc_channel ''DO06'' DEVICE_CHANNEL_CLASS_DIGITAL_OUTPUT 6 GPIO_NUM_NC (str_bytes ''V'' @ [195, 161] @
      str_bytes ''lvula de Recircula'' @ [195, 167] @ [195, 163] @ str_bytes ''o'') False ''recirc_valve'',
    plc_channel ''DO07'' DEVICE_CHANNEL_CLASS_DIGITAL_OUTPUT 7 GPIO_NUM_NC (str_bytes ''Aquecedor'') False ''heater'',
    plc_channel ''DO08'' DEVICE_CHANNEL_CLASS_DIGITAL_OUTPUT 8 GPIO_NUM_NC (str_bytes ''V'' @ [195, 161] @
      str_bytes ''lvula de Purga'') False ''purge_valve'',
    plc_channel ''DO09'' DEVICE_CHANNEL_CLASS_DIGITAL_OUTPUT 9 GPIO_NUM_NC (str_bytes
      ''Sinalizador Remoto de Interlock'') False ''remote_signal'',
    plc_channel ''AI00'' DEVICE_CHANNEL_CLASS_ANALOG_INPUT 0 34 (str_bytes ''Transdutor de Press'' @ [195, 163] @
      str_bytes ''o'') True ''pressure_sensor'',
    plc_channel ''AI01'' DEVICE_CHANNEL_CLASS_ANALOG_INPUT 1 35 (str_bytes ''Sensor de N'' @ [195, 173] @ str_bytes
      ''vel Anal'' @ [195, 179] @ str_bytes ''gico'') True ''level_sensor'',
    plc_channel ''AI02'' DEVICE_CHANNEL_CLASS_ANALOG_INPUT 2 36 (str_bytes ''Sensor de Temperatura'') True
      ''temperature_sensor'',
    plc_channel ''AI03'' DEVICE_CHANNEL_CLASS_ANALOG_INPUT 3 39 (str_bytes ''Sensor de Vaz'' @ [195, 163] @
      str_bytes ''o'') True ''flow_sensor'',
    plc_channel ''AO00'' DEVICE_CHANNEL_CLASS_ANALOG_OUTPUT 0 GPIO_NUM_NC (str_bytes ''Refer'' @ [195, 170] @
      str_bytes ''ncia VFD'') False ''vfd_ref'']"

definition relay_plc_channels :: "plc_channel_desc_t list" where
  "relay_plc_channels = [plc_channel ''DI00'' DEVICE_CHANNEL_CLASS_DIGITAL_INPUT 0 18 (str_bytes
      ''Entrada Digital 1'') True ''input'',
    plc_channel ''DI01'' DEVICE_CHANNEL_CLASS_DIGITAL_INPUT 1 19 (str_bytes ''Entrada Digital 2'') True ''input'',
    plc_channel ''DO00'' DEVICE_CHANNEL_CLASS_DIGITAL_OUTPUT 0 22 (str_bytes ''Rel'' @ [195, 169] @ str_bytes
      '' 1'') True ''relay'',
    plc_channel ''DO01'' DEVICE_CHANNEL_CLASS_DIGITAL_OUTPUT 1 4 (str_bytes ''Rel'' @ [195, 169] @ str_bytes
      '' 2'') True ''relay'',
    plc_channel ''AI00'' DEVICE_CHANNEL_CLASS_ANALOG_INPUT 0 GPIO_NUM_NC (str_bytes ''Entrada Anal'' @ [195, 179] @
      str_bytes ''gica (Desabilitada)'') False ''disabled'',
    plc_channel ''AO00'' DEVICE_CHANNEL_CLASS_ANALOG_OUTPUT 0 GPIO_NUM_NC (str_bytes ''Sa'' @ [195, 173] @
      str_bytes ''da Anal'' @ [195, 179] @ str_bytes ''gica (Desabilitada)'') False ''disabled'']"

definition sensor_plc_channels :: "plc_channel_desc_t list" where
  "sensor_plc_channels = [plc_channel ''DI00'' DEVICE_CHANNEL_CLASS_DIGITAL_INPUT 0 16 (str_bytes
      ''Sensor Digital 1'') True ''sensor'',
    plc_channel ''DI01'' DEVICE_CHANNEL_CLASS_DIGITAL_INPUT 1 17 (str_bytes ''Sensor Digital 2'') True ''sensor'',
    plc_channel ''DO00'' DEVICE_CHANNEL_CLASS_DIGITAL_OUTPUT 0 22 (str_bytes ''Status LED / Atuador'') True
      ''status'',
    plc_channel ''DO01'' DEVICE_CHANNEL_CLASS_DIGITAL_OUTPUT 1 4 (str_bytes ''Alarme Local'') True ''alarm'',
    plc_channel ''AI00'' DEVICE_CHANNEL_CLASS_ANALOG_INPUT 0 34 (str_bytes ''Sensor Anal'' @ [195, 179] @ str_bytes
      ''gico 1'') True ''analog_sensor'',
    plc_channel ''AO00'' DEVICE_CHANNEL_CLASS_ANALOG_OUTPUT 0 GPIO_NUM_NC (str_bytes ''Sa'' @ [195, 173] @
      str_bytes ''da Anal'' @ [195, 179] @ str_bytes ''gica (Desabilitada)'') False ''disabled'']"

text \<open>
  The network part of a template. The template of a custom node is that of a field node. The build has one
  switch for RS485, which the templates use too.
\<close>

record template_network =
  tn_wifi_enabled :: bool
  tn_ethernet_enabled :: bool
  tn_rs485_enabled :: bool
  tn_wifi_mode :: device_profile_wifi_mode_t
  tn_onboarding_pending :: bool
  tn_primary_transport :: device_profile_transport_t
  tn_fallback_transport :: device_profile_transport_t
  tn_failover_delay_ms :: u32
  tn_recovery_hysteresis_ms :: u32

definition gateway_net_profile :: "build_config \<Rightarrow> template_network" where
  "gateway_net_profile cfg = \<lparr>tn_wifi_enabled = True, tn_ethernet_enabled = False,
     tn_rs485_enabled = CONFIG_ENDAP_RS485_ENABLED cfg, tn_wifi_mode = DEVICE_PROFILE_WIFI_MODE_INFRA,
     tn_onboarding_pending = False, tn_primary_transport = DEVICE_PROFILE_TRANSPORT_WIFI,
     tn_fallback_transport =
       (if CONFIG_ENDAP_RS485_ENABLED cfg then DEVICE_PROFILE_TRANSPORT_RS485 else DEVICE_PROFILE_TRANSPORT_NONE),
     tn_failover_delay_ms = 5000, tn_recovery_hysteresis_ms = 15000\<rparr>"

definition field_net_profile :: "build_config \<Rightarrow> template_network" where
  "field_net_profile cfg = \<lparr>tn_wifi_enabled = True, tn_ethernet_enabled = False,
     tn_rs485_enabled = CONFIG_ENDAP_RS485_ENABLED cfg, tn_wifi_mode = DEVICE_PROFILE_WIFI_MODE_INFRA,
     tn_onboarding_pending = True,
     tn_primary_transport =
       (if CONFIG_ENDAP_RS485_ENABLED cfg then DEVICE_PROFILE_TRANSPORT_RS485 else DEVICE_PROFILE_TRANSPORT_WIFI),
     tn_fallback_transport =
       (if CONFIG_ENDAP_RS485_ENABLED cfg then DEVICE_PROFILE_TRANSPORT_WIFI else DEVICE_PROFILE_TRANSPORT_NONE),
     tn_failover_delay_ms = 5000, tn_recovery_hysteresis_ms = 15000\<rparr>"

definition relay_net_profile :: "build_config \<Rightarrow> template_network" where
  "relay_net_profile cfg = \<lparr>tn_wifi_enabled = True, tn_ethernet_enabled = False,
     tn_rs485_enabled = CONFIG_ENDAP_RS485_ENABLED cfg, tn_wifi_mode = DEVICE_PROFILE_WIFI_MODE_INFRA,
     tn_onboarding_pending = True,
     tn_primary_transport =
       (if CONFIG_ENDAP_RS485_ENABLED cfg then DEVICE_PROFILE_TRANSPORT_RS485 else DEVICE_PROFILE_TRANSPORT_WIFI),
     tn_fallback_transport = DEVICE_PROFILE_TRANSPORT_NONE,
     tn_failover_delay_ms = 5000, tn_recovery_hysteresis_ms = 15000\<rparr>"

definition sensor_net_profile :: "build_config \<Rightarrow> template_network" where
  "sensor_net_profile cfg = \<lparr>tn_wifi_enabled = True, tn_ethernet_enabled = False,
     tn_rs485_enabled = CONFIG_ENDAP_RS485_ENABLED cfg, tn_wifi_mode = DEVICE_PROFILE_WIFI_MODE_INFRA,
     tn_onboarding_pending = True, tn_primary_transport = DEVICE_PROFILE_TRANSPORT_WIFI,
     tn_fallback_transport =
       (if CONFIG_ENDAP_RS485_ENABLED cfg then DEVICE_PROFILE_TRANSPORT_RS485 else DEVICE_PROFILE_TRANSPORT_NONE),
     tn_failover_delay_ms = 5000, tn_recovery_hysteresis_ms = 15000\<rparr>"

record node_profile_desc_t =
  nd_type :: node_profile_t
  nd_label :: string
  nd_network :: template_network
  nd_plc_channels :: "plc_channel_desc_t list"

definition node_profile_templates :: "build_config \<Rightarrow> node_profile_desc_t list" where
  "node_profile_templates cfg = [
     \<lparr>nd_type = NODE_PROFILE_GATEWAY, nd_label = ''Gateway'', nd_network = gateway_net_profile cfg,
      nd_plc_channels = gateway_plc_channels\<rparr>,
     \<lparr>nd_type = NODE_PROFILE_FIELD, nd_label = ''Field Node'', nd_network = field_net_profile cfg,
      nd_plc_channels = field_plc_channels\<rparr>,
     \<lparr>nd_type = NODE_PROFILE_RELAY, nd_label = ''Relay Node'', nd_network = relay_net_profile cfg,
      nd_plc_channels = relay_plc_channels\<rparr>,
     \<lparr>nd_type = NODE_PROFILE_SENSOR, nd_label = ''Sensor Node'', nd_network = sensor_net_profile cfg,
      nd_plc_channels = sensor_plc_channels\<rparr>,
     \<lparr>nd_type = NODE_PROFILE_CUSTOM, nd_label = ''Custom Node'', nd_network = field_net_profile cfg,
      nd_plc_channels = field_plc_channels\<rparr>]"

definition device_profile_is_valid :: "node_profile_t \<Rightarrow> bool" where
  "device_profile_is_valid type \<longleftrightarrow> type < NODE_PROFILE_MAX"

definition device_profile_get_template :: "build_config \<Rightarrow> node_profile_t \<Rightarrow> node_profile_desc_t option" where
  "device_profile_get_template cfg type =
     (if \<not> device_profile_is_valid type then None else Some (node_profile_templates cfg ! unat type))"

definition device_profile_get_current :: "build_config \<Rightarrow> 'w device_profile \<Rightarrow> node_profile_desc_t option" where
  "device_profile_get_current cfg s =
     (case device_profile_get_template cfg (dp_node_profile s) of
        Some d \<Rightarrow> Some d | None \<Rightarrow> device_profile_get_template cfg NODE_PROFILE_FIELD)"

text \<open>The results of storing the profile are ignored.\<close>

definition device_profile_set_current ::
    "'w platform \<Rightarrow> node_profile_t \<Rightarrow> 'w device_profile \<Rightarrow> esp_err_t \<times> 'w device_profile" where
  "device_profile_set_current P type s =
     (if \<not> device_profile_is_valid type then (ESP_ERR_INVALID_ARG, s)
      else
        let s = s\<lparr>dp_node_profile := type\<rparr> in
        case nvs_open P DEVICE_PROFILE_NETWORK_NAMESPACE NVS_READWRITE (dp_world s) of (err, h, w) \<Rightarrow>
        if err = ESP_OK
        then
          case nvs_set_u8 P h DEVICE_PROFILE_NODE_KEY (ucast type) w of (_, w) \<Rightarrow>
          case nvs_commit P h w of (_, w) \<Rightarrow> (ESP_OK, s\<lparr>dp_world := nvs_close P h w\<rparr>)
        else (ESP_OK, s\<lparr>dp_world := w\<rparr>))"

definition device_profile_apply_template ::
    "'w platform \<Rightarrow> build_config \<Rightarrow> node_profile_t \<Rightarrow> 'w device_profile \<Rightarrow> esp_err_t \<times> 'w device_profile" where
  "device_profile_apply_template P cfg type s =
     (if \<not> device_profile_is_valid type then (ESP_ERR_INVALID_ARG, s)
      else case device_profile_get_template cfg type of
        None \<Rightarrow> (ESP_ERR_NOT_FOUND, s)
      | Some tpl \<Rightarrow>
          let s = device_profile_init_network_profile P cfg s; net = nd_network tpl;
              s = snd (device_profile_set_network_enabled P cfg (tn_wifi_enabled net) (tn_ethernet_enabled net)
                         (tn_rs485_enabled net) (tn_wifi_mode net) s);
              s = snd (device_profile_set_transport_policy P cfg (tn_onboarding_pending net) (tn_primary_transport net)
                         (tn_fallback_transport net) (tn_failover_delay_ms net) (tn_recovery_hysteresis_ms net) s)
          in device_profile_set_current P type s)"

definition device_profile_plc_channel_count :: "build_config \<Rightarrow> node_profile_t \<Rightarrow> int" where
  "device_profile_plc_channel_count cfg type =
     (case device_profile_get_template cfg type of None \<Rightarrow> 0 | Some tpl \<Rightarrow> int (length (nd_plc_channels tpl)))"

definition device_profile_plc_channel_at :: "build_config \<Rightarrow> node_profile_t \<Rightarrow> int \<Rightarrow> plc_channel_desc_t option" where
  "device_profile_plc_channel_at cfg type index =
     (case device_profile_get_template cfg type of None \<Rightarrow> None
      | Some tpl \<Rightarrow> if index < 0 \<or> index \<ge> int (length (nd_plc_channels tpl)) then None
                    else Some (nd_plc_channels tpl ! nat index))"

definition device_profile_get_plc_channel :: "build_config \<Rightarrow> node_profile_t \<Rightarrow> bytes option \<Rightarrow> plc_channel_desc_t option" where
  "device_profile_get_plc_channel cfg type plc_code =
     (case plc_code of None \<Rightarrow> None
      | Some code \<Rightarrow> case device_profile_get_template cfg type of None \<Rightarrow> None
        | Some tpl \<Rightarrow> map_option ((!) (nd_plc_channels tpl)) (find_index (\<lambda>c. pc_plc_code c = code) (nd_plc_channels tpl)))"

section \<open>The policy is settled\<close>

subsection \<open>The steps of the normalisation as updates of single fields\<close>

definition primary_of :: "device_network_profile_t \<Rightarrow> device_profile_transport_t" where
  "primary_of n =
     (if device_profile_transport_allowed_in_network (np_primary_transport n) n then np_primary_transport n
      else if np_ethernet_supported n then DEVICE_PROFILE_TRANSPORT_ETHERNET
      else if np_wifi_supported n then DEVICE_PROFILE_TRANSPORT_WIFI
      else if np_rs485_supported n \<and> np_rs485_enabled n then DEVICE_PROFILE_TRANSPORT_RS485
      else DEVICE_PROFILE_TRANSPORT_NONE)"

definition fallback_of :: "device_network_profile_t \<Rightarrow> device_profile_transport_t" where
  "fallback_of n =
     (if device_profile_transport_allowed_in_network (np_fallback_transport n) n \<and> np_fallback_transport n \<noteq> np_primary_transport n
      then np_fallback_transport n else DEVICE_PROFILE_TRANSPORT_NONE)"

text \<open>Wi-Fi (or Ethernet) is enabled when it is the primary transport, or the fallback of the other.\<close>

definition enabled_of :: "device_profile_transport_t \<Rightarrow> device_profile_transport_t \<Rightarrow> bool \<Rightarrow> device_network_profile_t \<Rightarrow> bool" where
  "enabled_of this that supported n \<longleftrightarrow>
     np_primary_transport n = this \<and> supported \<or> np_primary_transport n = that \<and> np_fallback_transport n = this"

lemma default_delays_eq:
  "default_delays n = n\<lparr>
     np_failover_delay_ms := if np_failover_delay_ms n = 0 then DEVICE_PROFILE_FAILOVER_DELAY_DEFAULT_MS else np_failover_delay_ms n,
     np_recovery_hysteresis_ms :=
       if np_recovery_hysteresis_ms n = 0 then DEVICE_PROFILE_RECOVERY_HYST_DEFAULT_MS else np_recovery_hysteresis_ms n\<rparr>"
  by (simp add: default_delays_def Let_def)

lemma choose_primary_eq: "choose_primary n = n\<lparr>np_primary_transport := primary_of n\<rparr>"
  by (simp add: choose_primary_def primary_of_def)

lemma choose_fallback_eq: "choose_fallback n = n\<lparr>np_fallback_transport := fallback_of n\<rparr>"
  by (simp add: choose_fallback_def fallback_of_def)

lemma enable_transports_eq:
  "enable_transports n = n\<lparr>
     np_wifi_enabled := enabled_of DEVICE_PROFILE_TRANSPORT_WIFI DEVICE_PROFILE_TRANSPORT_ETHERNET (np_wifi_supported n) n,
     np_ethernet_enabled := enabled_of DEVICE_PROFILE_TRANSPORT_ETHERNET DEVICE_PROFILE_TRANSPORT_WIFI (np_ethernet_supported n) n\<rparr>"
  by (simp add: enable_transports_def enabled_of_def transports)

lemma enable_rs485_eq:
  "enable_rs485 n = n\<lparr>np_rs485_enabled := np_rs485_supported n \<and>
     (DEVICE_PROFILE_TRANSPORT_RS485 \<in> {np_primary_transport n, np_fallback_transport n} \<or> np_rs485_enabled n)\<rparr>"
  by (cases n) (auto simp: enable_rs485_def)

lemmas policy_eqs = default_delays_eq choose_primary_eq choose_fallback_eq enable_transports_eq enable_rs485_eq
  onboarding_policy_def

text \<open>What the policy does not touch.\<close>

lemma normalize_keeps [simp]:
  "np_wifi_supported (device_profile_normalize_transport_policy n) = np_wifi_supported n"
  "np_ethernet_supported (device_profile_normalize_transport_policy n) = np_ethernet_supported n"
  "np_rs485_supported (device_profile_normalize_transport_policy n) = np_rs485_supported n"
  "np_wifi_mode (device_profile_normalize_transport_policy n) = np_wifi_mode n"
  "np_onboarding_pending (device_profile_normalize_transport_policy n) = np_onboarding_pending n"
  "np_ethernet_mode (device_profile_normalize_transport_policy n) = np_ethernet_mode n"
  "np_w5500 (device_profile_normalize_transport_policy n) = np_w5500 n"
  by (simp_all add: device_profile_normalize_transport_policy_def policy_eqs Let_def)

subsection \<open>Settled profiles\<close>

text \<open>
  A settled profile: the delays are set; the primary transport is enabled; a fallback is allowed and
  different; Wi-Fi and Ethernet are enabled only when supported and chosen; RS485 only when supported.
\<close>

definition network_policy_ok :: "device_network_profile_t \<Rightarrow> bool" where
  "network_policy_ok n \<longleftrightarrow>
     np_failover_delay_ms n \<noteq> 0 \<and> np_recovery_hysteresis_ms n \<noteq> 0 \<and>
     (np_onboarding_pending n \<longrightarrow> np_primary_transport n = onboarding_transport n \<and>
        np_fallback_transport n = DEVICE_PROFILE_TRANSPORT_NONE \<and> np_wifi_enabled n = np_wifi_supported n \<and>
        \<not> np_ethernet_enabled n \<and> \<not> np_rs485_enabled n) \<and>
     (\<not> np_onboarding_pending n \<longrightarrow>
        device_profile_transport_allowed_in_network (np_primary_transport n) n \<and> fallback_of n = np_fallback_transport n \<and>
        np_wifi_enabled n = enabled_of DEVICE_PROFILE_TRANSPORT_WIFI DEVICE_PROFILE_TRANSPORT_ETHERNET (np_wifi_supported n) n \<and>
        np_ethernet_enabled n =
          enabled_of DEVICE_PROFILE_TRANSPORT_ETHERNET DEVICE_PROFILE_TRANSPORT_WIFI (np_ethernet_supported n) n \<and>
        (np_rs485_enabled n \<longrightarrow> np_rs485_supported n))"

lemmas allowed_def = device_profile_transport_allowed_in_network_def

lemma chosen_primary: "device_profile_transport_allowed_in_network (np_primary_transport (choose_primary n)) (choose_primary n)"
  by (simp add: choose_primary_eq primary_of_def allowed_def transports)

lemma chosen_fallback:
  "fallback_of (choose_fallback n) = np_fallback_transport (choose_fallback n)"
  "device_profile_transport_allowed_in_network t (choose_fallback n) = device_profile_transport_allowed_in_network t n"
  "np_primary_transport (choose_fallback n) = np_primary_transport n"
  by (auto simp: choose_fallback_eq fallback_of_def allowed_def)

lemma enabled_keeps:
  defines "m \<equiv> \<lambda>n. enable_rs485 (enable_transports n)"
  shows "np_primary_transport (m n) = np_primary_transport n" "np_fallback_transport (m n) = np_fallback_transport n"
    and "np_onboarding_pending (m n) = np_onboarding_pending n"
    and "np_failover_delay_ms (m n) = np_failover_delay_ms n" "np_recovery_hysteresis_ms (m n) = np_recovery_hysteresis_ms n"
    and "np_wifi_supported (m n) = np_wifi_supported n" "np_ethernet_supported (m n) = np_ethernet_supported n"
    and "np_wifi_enabled (m n) = enabled_of DEVICE_PROFILE_TRANSPORT_WIFI DEVICE_PROFILE_TRANSPORT_ETHERNET (np_wifi_supported n) n"
    and "np_ethernet_enabled (m n) =
      enabled_of DEVICE_PROFILE_TRANSPORT_ETHERNET DEVICE_PROFILE_TRANSPORT_WIFI (np_ethernet_supported n) n"
    and "np_rs485_enabled (m n) \<Longrightarrow> np_rs485_supported (m n)"
    and "device_profile_transport_allowed_in_network t n \<Longrightarrow> device_profile_transport_allowed_in_network t (m n)"
  by (simp_all add: m_def enable_rs485_eq enable_transports_eq allowed_def split: if_splits)

lemma fallback_of_none: "fallback_of n = DEVICE_PROFILE_TRANSPORT_NONE \<or>
    fallback_of n = np_fallback_transport n \<and> device_profile_transport_allowed_in_network (np_fallback_transport n) n \<and>
    np_fallback_transport n \<noteq> np_primary_transport n"
  by (simp add: fallback_of_def)

lemma enabled_policy_ok:
  assumes "device_profile_transport_allowed_in_network (np_primary_transport n) n" "fallback_of n = np_fallback_transport n"
    and "np_failover_delay_ms n \<noteq> 0" "np_recovery_hysteresis_ms n \<noteq> 0" "\<not> np_onboarding_pending n"
  shows "network_policy_ok (enable_rs485 (enable_transports n))"
proof -
  let ?m = "enable_rs485 (enable_transports n)"
  have "fallback_of ?m = np_fallback_transport ?m"
    using fallback_of_none [of n] fallback_of_none [of ?m] assms(2)
    by (auto simp: enabled_keeps fallback_of_def [of ?m])
  then show ?thesis
    using assms unfolding network_policy_ok_def by (simp add: enabled_keeps) (simp add: enabled_of_def enabled_keeps)
qed

lemma default_delays_set: "np_failover_delay_ms (default_delays n) \<noteq> 0" "np_recovery_hysteresis_ms (default_delays n) \<noteq> 0"
  by (simp_all add: default_delays_eq DEVICE_PROFILE_FAILOVER_DELAY_DEFAULT_MS_def DEVICE_PROFILE_RECOVERY_HYST_DEFAULT_MS_def)

lemma normalize_policy_ok: "network_policy_ok (device_profile_normalize_transport_policy n)"
proof (cases "np_onboarding_pending (default_delays n)")
  case True
  then show ?thesis using default_delays_set [of n]
    by (simp add: network_policy_ok_def device_profile_normalize_transport_policy_def onboarding_policy_def Let_def onboarding_transport_def)
next
  case False
  have "network_policy_ok (enable_rs485 (enable_transports (choose_fallback (choose_primary (default_delays n)))))"
  proof (rule enabled_policy_ok)
    show "device_profile_transport_allowed_in_network (np_primary_transport (choose_fallback (choose_primary (default_delays n))))
       (choose_fallback (choose_primary (default_delays n)))"
      by (simp only: chosen_fallback chosen_primary)
  qed (use False default_delays_set [of n] in \<open>simp_all only: chosen_fallback(1), simp_all add: choose_fallback_eq choose_primary_eq\<close>)
  with False show ?thesis by (simp add: device_profile_normalize_transport_policy_def Let_def)
qed

lemma normalize_fixes:
  assumes "network_policy_ok n"
  shows "device_profile_normalize_transport_policy n = n"
proof -
  have d: "default_delays n = n" using assms by (simp add: default_delays_def network_policy_ok_def)
  show ?thesis
  proof (cases "np_onboarding_pending n")
    case True
    with assms have "onboarding_policy n = n\<lparr>np_primary_transport := np_primary_transport n,
       np_fallback_transport := np_fallback_transport n, np_wifi_enabled := np_wifi_enabled n,
       np_ethernet_enabled := np_ethernet_enabled n, np_rs485_enabled := np_rs485_enabled n\<rparr>"
      by (simp add: onboarding_policy_def network_policy_ok_def)
    then have "onboarding_policy n = n" by simp
    with True d show ?thesis by (simp add: device_profile_normalize_transport_policy_def)
  next
    case False
    then have a: "device_profile_transport_allowed_in_network (np_primary_transport n) n"
      and f: "fallback_of n = np_fallback_transport n" using assms by (auto simp: network_policy_ok_def)
    have "choose_primary n = n" using a by (simp add: choose_primary_def)
    moreover have "choose_fallback n = n" unfolding choose_fallback_eq f by simp
    moreover have "enable_transports n = n"
      using assms False unfolding enable_transports_eq by (simp add: network_policy_ok_def)
    moreover have "DEVICE_PROFILE_TRANSPORT_RS485 \<in> {np_primary_transport n, np_fallback_transport n} \<longrightarrow> np_rs485_enabled n"
      using a f by (auto simp: allowed_def fallback_of_def transports split: if_splits)
    then have "(np_rs485_supported n \<and> (DEVICE_PROFILE_TRANSPORT_RS485 \<in> {np_primary_transport n, np_fallback_transport n} \<or>
        np_rs485_enabled n)) = np_rs485_enabled n"
      using assms False by (auto simp: network_policy_ok_def)
    then have "enable_rs485 n = n" unfolding enable_rs485_eq by simp
    ultimately show ?thesis using False d by (simp add: device_profile_normalize_transport_policy_def)
  qed
qed

text \<open>A settled profile has its label too; settling is idempotent and does not read the old label.\<close>

definition settled :: "device_network_profile_t \<Rightarrow> bool" where
  "settled n \<longleftrightarrow> network_policy_ok n \<and> np_label n = device_profile_network_label_from_profile n"

lemma label_update:
  "device_profile_network_label_from_profile (n\<lparr>np_label := l\<rparr>) = device_profile_network_label_from_profile n"
  "network_policy_ok (n\<lparr>np_label := l\<rparr>) = network_policy_ok n"
  by (simp_all add: device_profile_network_label_from_profile_def device_profile_w5500_is_configured_from_profile_def
      network_policy_ok_def onboarding_transport_def allowed_def fallback_of_def enabled_of_def Let_def)

lemma settle_settled: "settled (settle_policy n)"
  by (simp add: settled_def settle_policy_def Let_def label_update normalize_policy_ok)

lemma settle_fixes: "settled n \<Longrightarrow> settle_policy (n\<lparr>np_label := l\<rparr>) = n"
  by (simp add: settled_def settle_policy_def Let_def label_update normalize_fixes)

lemma settle_keeps [simp]:
  "np_wifi_supported (settle_policy n) = np_wifi_supported n"
  "np_ethernet_supported (settle_policy n) = np_ethernet_supported n"
  "np_rs485_supported (settle_policy n) = np_rs485_supported n"
  "np_wifi_mode (settle_policy n) = np_wifi_mode n"
  "np_onboarding_pending (settle_policy n) = np_onboarding_pending n"
  "np_ethernet_mode (settle_policy n) = np_ethernet_mode n"
  "np_w5500 (settle_policy n) = np_w5500 n"
  by (simp_all add: settle_policy_def Let_def)

text \<open>
  The primary transport of a settled profile is enabled, except in the onboarding of a build without Wi-Fi.
\<close>

lemma settled_primary_enabled:
  "settled n \<Longrightarrow> \<not> np_onboarding_pending n \<or> np_wifi_supported n \<Longrightarrow> transport_enabled_in (np_primary_transport n) n"
  by (auto simp: settled_def network_policy_ok_def transport_enabled_in_def allowed_def enabled_of_def onboarding_transport_def transports
      split: if_splits)

subsection \<open>The fields of the build\<close>

definition built :: "build_config \<Rightarrow> device_network_profile_t \<Rightarrow> bool" where
  "built cfg n \<longleftrightarrow>
     np_wifi_supported n = CONFIG_ENDAP_WIFI_ENABLED cfg \<and> np_ethernet_supported n = CONFIG_ENDAP_ETHERNET_ENABLED cfg \<and>
     np_rs485_supported n = CONFIG_ENDAP_RS485_ENABLED cfg \<and> np_ethernet_mode n = device_profile_detect_ethernet_mode cfg \<and>
     np_w5500 n = np_w5500 (build_network_profile cfg)"

lemma built_build: "built cfg (build_network_profile cfg)"
  by (simp add: built_def build_network_profile_def)

lemma built_settle [simp]: "built cfg (settle_policy n) = built cfg n"
  by (simp add: built_def)

lemma built_onboarding [simp]: "built cfg (n\<lparr>np_onboarding_pending := b\<rparr>) = built cfg n"
  by (simp add: built_def)

lemma built_blob [simp]: "built cfg (apply_network_blob raw n) = built cfg n"
  by (simp add: built_def apply_network_blob_def apply_network_blob_v4_def apply_network_blob_v3_def apply_network_blob_v2_def
      apply_network_blob_v1_def apply_blob_v3_v4_def device_profile_apply_legacy_transport_policy_def Let_def)

section \<open>Reading back a stored policy\<close>

text \<open>The fields of the blob are bytes: modes above 2 and transports above 255 are not representable.\<close>

definition storable :: "device_network_profile_t \<Rightarrow> bool" where
  "storable n \<longleftrightarrow> np_wifi_mode n \<le> 2 \<and> np_primary_transport n < 256 \<and> np_fallback_transport n < 256"

lemma length_network_body: "length (network_body n) = 28"
  by (simp add: network_body_def)

lemma length_network_blob: "length (network_blob n) = SIZEOF_NETWORK_BLOB_V4"
  by (simp add: network_blob_def length_network_body network_blob_sizes)

lemma flag_byte_0 [simp]: "flag_byte b \<noteq> 0 \<longleftrightarrow> b" "flag_byte b = 0 \<longleftrightarrow> \<not> b"
  by (simp_all add: flag_byte_def)

lemma ucast_byte: "x < 256 \<Longrightarrow> ucast (ucast x :: u8) = (x :: u32)"
  by transfer (simp add: take_bit_eq_mod)

lemma network_blob_fields:
  "network_blob n ! 6 = flag_byte (np_wifi_enabled n)" "network_blob n ! 7 = flag_byte (np_ethernet_enabled n)"
  "network_blob n ! 8 = flag_byte (np_rs485_enabled n)" "network_blob n ! 9 = flag_byte (np_onboarding_pending n)"
  "network_blob n ! 10 = ucast (np_primary_transport n)" "network_blob n ! 11 = ucast (np_fallback_transport n)"
  "network_blob n ! 12 = ucast (np_wifi_mode n)" "network_blob n ! 13 = flag_byte (np_allow_local_ap n)"
  "network_blob n ! 14 = flag_byte (np_allow_dashboard n)" "network_blob n ! 15 = flag_byte (np_allow_ota n)"
  by (simp_all add: network_blob_def network_body_def le16_def le32_def)

lemma network_blob_words:
  "of_le32 (drop 20 (network_blob n)) = np_failover_delay_ms n"
  "of_le32 (drop 24 (network_blob n)) = np_recovery_hysteresis_ms n"
  "of_le32 (network_blob n) = DEVICE_PROFILE_NETWORK_MAGIC"
  "of_le16 (drop 4 (network_blob n)) = DEVICE_PROFILE_NETWORK_VERSION"
  by (simp_all add: network_blob_def network_body_def)

lemma network_blob_header: "network_header_ok DEVICE_PROFILE_NETWORK_VERSION (network_blob n)"
  by (simp add: network_header_ok_def network_blob_words length_network_blob network_blob_sizes)
    (simp add: network_blob_def length_network_body)

lemma policy_ok_supported:
  assumes "network_policy_ok n"
  shows "np_wifi_enabled n \<Longrightarrow> np_wifi_supported n" "np_ethernet_enabled n \<Longrightarrow> np_ethernet_supported n"
    "np_rs485_enabled n \<Longrightarrow> np_rs485_supported n"
proof -
  have f: "\<not> np_onboarding_pending n \<Longrightarrow> np_fallback_transport n = DEVICE_PROFILE_TRANSPORT_NONE \<or>
      device_profile_transport_allowed_in_network (np_fallback_transport n) n"
    using assms fallback_of_none [of n] by (auto simp: network_policy_ok_def)
  show "np_rs485_enabled n \<Longrightarrow> np_rs485_supported n" using assms by (auto simp: network_policy_ok_def)
  show "np_wifi_enabled n \<Longrightarrow> np_wifi_supported n" "np_ethernet_enabled n \<Longrightarrow> np_ethernet_supported n"
    using assms f by (auto simp: network_policy_ok_def enabled_of_def allowed_def transports)
qed

text \<open>A stored policy, read over another profile of the same build, differs only in the label.\<close>

lemma restore_network_blob:
  assumes "built cfg n" "built cfg n0" "network_policy_ok n" "storable n"
  shows "apply_network_blob (network_blob n) n0 = n\<lparr>np_label := np_label n0\<rparr>"
proof -
  have "(np_wifi_supported n \<and> np_wifi_enabled n) = np_wifi_enabled n"
    "(np_ethernet_supported n \<and> np_ethernet_enabled n) = np_ethernet_enabled n"
    "(np_rs485_supported n \<and> np_rs485_enabled n) = np_rs485_enabled n"
    using policy_ok_supported [OF assms(3)] by auto
  moreover have "wifi_mode_of (ucast (np_wifi_mode n)) = np_wifi_mode n"
  proof -
    have "unat (np_wifi_mode n) \<in> {0, 1, 2}" using assms(4) by (auto simp: storable_def word_le_nat_alt)
    then have "np_wifi_mode n \<in> {0, 1, 2}"
      by (auto simp del: unat_eq_unat_iff simp: unat_eq_unat_iff [symmetric])
    then show ?thesis by (auto simp: wifi_mode_of_def)
  qed
  moreover have "np_wifi_supported n0 = np_wifi_supported n" "np_ethernet_supported n0 = np_ethernet_supported n"
    "np_rs485_supported n0 = np_rs485_supported n" "np_ethernet_mode n0 = np_ethernet_mode n" "np_w5500 n0 = np_w5500 n"
    using assms(1,2) by (simp_all add: built_def)
  ultimately show ?thesis using assms(4)
    by (intro device_network_profile_t.equality)
      (simp_all add: apply_network_blob_def length_network_blob apply_network_blob_v4_def network_blob_header apply_blob_v3_v4_def
        network_blob_fields network_blob_words ucast_byte storable_def)
qed

section \<open>Invariant of the profile\<close>

definition profile_ok :: "build_config \<Rightarrow> 'w device_profile \<Rightarrow> bool" where
  "profile_ok cfg s \<longleftrightarrow> \<not> dp_initializing s \<and>
     (dp_initialized s \<longrightarrow> built cfg (dp_network s) \<and> settled (dp_network s))"

lemma load_keeps [simp]:
  "built cfg (dp_network (device_profile_load_network_config P s)) = built cfg (dp_network s)"
  "dp_sensors (device_profile_load_network_config P s) = dp_sensors s"
  by (simp_all add: device_profile_load_network_config_def load_node_profile_def Let_def split: prod.split)

lemma profile_init_ok:
  assumes "profile_ok cfg s"
  shows "profile_ok cfg (device_profile_init_network_profile P cfg s)" "dp_initialized (device_profile_init_network_profile P cfg s)"
  using assms by (simp_all add: profile_ok_def device_profile_init_network_profile_def Let_def settle_settled built_build)

lemma init_initialized [simp]: "dp_initialized s \<Longrightarrow> device_profile_init_network_profile P cfg s = s"
  by (simp add: device_profile_init_network_profile_def)

lemma init_built:
  assumes "profile_ok cfg s"
  shows "built cfg (dp_network (device_profile_init_network_profile P cfg s))"
    "settled (dp_network (device_profile_init_network_profile P cfg s))"
    "\<not> dp_initializing (device_profile_init_network_profile P cfg s)"
  using profile_init_ok [OF assms] by (simp_all add: profile_ok_def)

lemma persist_keeps [simp]:
  "dp_network (snd (device_profile_persist_network_config P s)) = dp_network s"
  "dp_initialized (snd (device_profile_persist_network_config P s)) = dp_initialized s"
  "dp_initializing (snd (device_profile_persist_network_config P s)) = dp_initializing s"
  by (simp_all add: device_profile_persist_network_config_def split: prod.split)

lemma manual_keeps [simp]: "built cfg (device_profile_apply_manual_network_selection a b c m n) = built cfg n"
  by (simp add: built_def device_profile_apply_manual_network_selection_def Let_def)

lemma set_network_ok:
  "profile_ok cfg s \<Longrightarrow> profile_ok cfg (snd (device_profile_set_network_enabled P cfg a b c m s))"
  using profile_init_ok [of cfg s P] init_built [of cfg s P]
  by (simp add: device_profile_set_network_enabled_def Let_def profile_ok_def settle_settled)

lemma profile_set_policy_ok:
  "profile_ok cfg s \<Longrightarrow> profile_ok cfg (snd (device_profile_set_transport_policy P cfg o1 p f d r s))"
  using init_built [of cfg s P]
  by (simp add: device_profile_set_transport_policy_def Let_def profile_ok_def settle_settled) (simp add: built_def)

lemma set_current_ok: "profile_ok cfg s \<Longrightarrow> profile_ok cfg (snd (device_profile_set_current P type s))"
  by (simp add: device_profile_set_current_def profile_ok_def Let_def split: prod.split)

lemma apply_template_ok: "profile_ok cfg s \<Longrightarrow> profile_ok cfg (snd (device_profile_apply_template P cfg type s))"
  by (simp add: device_profile_apply_template_def Let_def set_current_ok profile_set_policy_ok set_network_ok profile_init_ok split: option.split)

text \<open>The operations, and the changes that other components make to the world.\<close>

inductive profile_step :: "'w platform \<Rightarrow> build_config \<Rightarrow> 'w device_profile \<Rightarrow> 'w device_profile \<Rightarrow> bool"
  for P :: "'w platform" and cfg :: build_config where
  query: "profile_step P cfg s (device_profile_init_network_profile P cfg s)"
| set_network: "profile_step P cfg s (snd (device_profile_set_network_enabled P cfg a b c m s))"
| set_policy: "profile_step P cfg s (snd (device_profile_set_transport_policy P cfg ob p f d r s))"
| set_current: "profile_step P cfg s (snd (device_profile_set_current P type s))"
| apply_template: "profile_step P cfg s (snd (device_profile_apply_template P cfg type s))"
| sensors_init: "profile_step P cfg s (device_profile_sensors_init P s)"
| set_sensors: "profile_step P cfg s (snd (device_profile_set_sensors P config s))"
| world: "profile_step P cfg s (s\<lparr>dp_world := w\<rparr>)"

lemma step_ok: "profile_step P cfg s s' \<Longrightarrow> profile_ok cfg s \<Longrightarrow> profile_ok cfg s'"
proof (induction rule: profile_step.induct)
  case (sensors_init s)
  then show ?case by (simp add: device_profile_sensors_init_def profile_ok_def Let_def split: prod.split)
next
  case (set_sensors s config)
  then show ?case by (simp add: device_profile_set_sensors_def profile_ok_def split: option.split prod.split)
qed (simp_all add: profile_init_ok set_network_ok profile_set_policy_ok set_current_ok apply_template_ok, simp add: profile_ok_def)

lemma run_ok: "(profile_step P cfg)\<^sup>*\<^sup>* s s' \<Longrightarrow> profile_ok cfg s \<Longrightarrow> profile_ok cfg s'"
  by (induction rule: rtranclp_induct) (auto intro: step_ok)

text \<open>The state before the first call: the static variables are zero, the sensors have their defaults.\<close>

definition sensor_defaults :: device_sensor_profile_t where
  "sensor_defaults = \<lparr>sp_dht11_enabled = False, sp_dht11_gpio = - 1, sp_ds18b20_enabled = False, sp_ds18b20_gpio = - 1,
     sp_aht10_enabled = False, sp_aht10_sda_gpio = 21, sp_aht10_scl_gpio = 22\<rparr>"

definition profile_boot :: "device_network_profile_t \<Rightarrow> 'w \<Rightarrow> 'w device_profile" where
  "profile_boot n w = \<lparr>dp_network = n, dp_initialized = False, dp_initializing = False, dp_node_profile = NODE_PROFILE_FIELD,
     dp_sensors = sensor_defaults, dp_world = w\<rparr>"

lemma boot_ok: "profile_ok cfg (profile_boot n w)"
  by (simp add: profile_ok_def profile_boot_def)


text \<open>The build of the repository, with RS485 switched on.\<close>

definition demo_build :: build_config where
  "demo_build = \<lparr>CONFIG_ENDAP_WIFI_ENABLED = True, CONFIG_ENDAP_ETHERNET_ENABLED = True, CONFIG_ENDAP_RS485_ENABLED = True,
     CONFIG_ENDAP_ETH_BACKEND_W5500 = True, CONFIG_ENDAP_ETH_BACKEND_LAN8720 = False, CONFIG_ENDAP_W5500_SPI_HOST = 2,
     CONFIG_ENDAP_W5500_MOSI_GPIO = 23, CONFIG_ENDAP_W5500_MISO_GPIO = 19, CONFIG_ENDAP_W5500_SCLK_GPIO = 18,
     CONFIG_ENDAP_W5500_CS_GPIO = 32, CONFIG_ENDAP_W5500_INT_GPIO = 34, CONFIG_ENDAP_W5500_RESET_GPIO = 13,
     CONFIG_ENDAP_W5500_PHY_ADDR = 1, CONFIG_ENDAP_W5500_CLOCK_MHZ = 20\<rparr>"

definition demo_profile :: "sim_world device_profile" where
  "demo_profile = device_profile_init_network_profile sim_platform demo_build (profile_boot (build_network_profile demo_build) sim_init)"

lemma demo_profile_reached:
  "(profile_step sim_platform demo_build)\<^sup>*\<^sup>* (profile_boot (build_network_profile demo_build) sim_init) demo_profile"
  unfolding demo_profile_def by (rule r_into_rtranclp) (rule profile_step.query)

lemma demo_profile_ok: "profile_ok demo_build demo_profile" "dp_initialized demo_profile"
  unfolding demo_profile_def by (rule profile_init_ok [OF boot_ok])+


section \<open>Storage\<close>

lemma load_restores:
  assumes "nvs_read_law P" "nvs_holds P DEVICE_PROFILE_NETWORK_NAMESPACE DEVICE_PROFILE_NETWORK_KEY (network_blob n) (dp_world s)"
    and "built cfg n" "built cfg (dp_network s)" "settled n" "storable n"
  shows "settle_policy (dp_network (device_profile_load_network_config P s)) = n"
proof -
  obtain h w1 where o: "nvs_open P DEVICE_PROFILE_NETWORK_NAMESPACE NVS_READONLY (dp_world s) = (ESP_OK, h, w1)"
    using assms(2) by (auto simp: nvs_holds_def)
  obtain err v w2 where u: "nvs_get_u8 P h DEVICE_PROFILE_NODE_KEY w1 = (err, v, w2)" by (metis prod_cases3)
  have "length (network_blob n) \<le> SIZEOF_NETWORK_BLOB_V4" by (simp add: length_network_blob)
  with assms(1,2) o obtain w3 where
    "nvs_get_blob P h DEVICE_PROFILE_NETWORK_KEY SIZEOF_NETWORK_BLOB_V4 w2 = (ESP_OK, network_blob n, w3)"
    using u unfolding nvs_read_law_def by (metis snd_conv)
  then have "dp_network (device_profile_load_network_config P s) =
      apply_network_blob (network_blob n) (dp_network (load_node_profile err v s))"
    by (simp add: device_profile_load_network_config_def o u Let_def)
  also have "\<dots> = n\<lparr>np_label := np_label (dp_network (load_node_profile err v s))\<rparr>"
    using assms(3-6) by (intro restore_network_blob [of cfg]) (simp_all add: settled_def load_node_profile_def)
  finally show ?thesis using settle_fixes [OF assms(5)] by simp
qed

lemma persist_restores:
  assumes "nvs_durable P" "nvs_read_law P" "device_profile_persist_network_config P s = (DEVICE_PROFILE_NETWORK_CONFIG_OK, s')"
    and "built cfg (dp_network s)" "settled (dp_network s)" "storable (dp_network s)"
  shows "dp_network (device_profile_init_network_profile P cfg (profile_boot n0 (dp_world s'))) = dp_network s'"
proof -
  have n: "dp_network s' = dp_network s" using persist_keeps(1) [of P s] assms(3) by simp
  have "nvs_store P DEVICE_PROFILE_NETWORK_NAMESPACE DEVICE_PROFILE_NETWORK_KEY (network_blob (dp_network s)) (dp_world s) =
      (True, dp_world s')"
    using assms(3) by (auto simp: device_profile_persist_network_config_def split: prod.splits if_splits)
  then have "nvs_holds P DEVICE_PROFILE_NETWORK_NAMESPACE DEVICE_PROFILE_NETWORK_KEY (network_blob (dp_network s)) (dp_world s')"
    by (rule nvs_store_holds [OF assms(1)])
  then show ?thesis
    using assms(4-6) n
    by (simp add: device_profile_init_network_profile_def profile_boot_def Let_def
        load_restores [OF assms(2), where cfg = cfg] built_build)
qed

lemma set_network_persists:
  assumes "profile_ok cfg s" "device_profile_set_network_enabled P cfg wifi eth rs485 mode s = (DEVICE_PROFILE_NETWORK_CONFIG_OK, s')"
  shows "\<exists>t. device_profile_persist_network_config P t = (DEVICE_PROFILE_NETWORK_CONFIG_OK, s') \<and>
    built cfg (dp_network t) \<and> settled (dp_network t)"
proof -
  let ?i = "device_profile_init_network_profile P cfg s"
  let ?t = "?i\<lparr>dp_network := settle_policy (device_profile_apply_manual_network_selection wifi eth rs485 mode (dp_network ?i))\<rparr>"
  have "device_profile_persist_network_config P ?t = (DEVICE_PROFILE_NETWORK_CONFIG_OK, s')"
    using assms(2) unfolding device_profile_set_network_enabled_def Let_def by (simp split: if_splits)
  moreover have "built cfg (dp_network ?t) \<and> settled (dp_network ?t)"
    using init_built(1) [OF assms(1)] by (simp add: settle_settled)
  ultimately show ?thesis by blast
qed

lemma set_policy_persists:
  assumes "profile_ok cfg s"
    and "device_profile_set_transport_policy P cfg ob p f d h s = (DEVICE_PROFILE_NETWORK_CONFIG_OK, s')"
  shows "\<exists>t. device_profile_persist_network_config P t = (DEVICE_PROFILE_NETWORK_CONFIG_OK, s') \<and>
    built cfg (dp_network t) \<and> settled (dp_network t)"
proof -
  let ?i = "device_profile_init_network_profile P cfg s"
  let ?n = "dp_network ?i\<lparr>np_onboarding_pending := ob, np_primary_transport := p, np_fallback_transport := f,
     np_failover_delay_ms := d, np_recovery_hysteresis_ms := h\<rparr>"
  have "built cfg ?n" using init_built(1) [OF assms(1), of P] by (simp add: built_def)
  then have "built cfg (dp_network (?i\<lparr>dp_network := settle_policy ?n\<rparr>)) \<and> settled (dp_network (?i\<lparr>dp_network := settle_policy ?n\<rparr>))"
    by (simp add: settle_settled)
  then show ?thesis using assms(2) unfolding device_profile_set_transport_policy_def Let_def by blast
qed


text \<open>Ethernet with Wi-Fi as its fallback, selected on the demonstration device.\<close>

lemma demo_selection:
  "fst (device_profile_set_network_enabled sim_platform demo_build True True False 0 demo_profile) = DEVICE_PROFILE_NETWORK_CONFIG_OK"
proof -
  have "built demo_build (dp_network demo_profile)" using demo_profile_ok by (simp add: profile_ok_def)
  moreover have "sim_nvs_ok (dp_world demo_profile)"
    by (simp add: demo_profile_def device_profile_init_network_profile_def profile_boot_def Let_def sim_init_def
        device_profile_load_network_config_def load_node_profile_def)
  ultimately show ?thesis using nvs_store_accepts [OF sim_accepts] demo_profile_ok(2)
    by (simp add: device_profile_set_network_enabled_def Let_def built_def demo_build_def
        device_profile_persist_network_config_def case_prod_beta)
qed


section \<open>Transports that never start\<close>

text \<open>
  A fallback transport behind RS485 is never enabled. A policy with RS485 as its primary and Wi-Fi or Ethernet as its
  fallback is accepted as it is, but the normalisation switches both off, so the fallback cannot be used.
\<close>

theorem rs485_fallback_never_enabled:
  assumes "profile_ok cfg s" "dp_initialized s" "np_rs485_supported (dp_network s)" "np_rs485_enabled (dp_network s)"
    and "fallback = DEVICE_PROFILE_TRANSPORT_WIFI \<and> np_wifi_supported (dp_network s) \<or>
      fallback = DEVICE_PROFILE_TRANSPORT_ETHERNET \<and> np_ethernet_supported (dp_network s)"
    and "s' = snd (device_profile_set_transport_policy P cfg False DEVICE_PROFILE_TRANSPORT_RS485 fallback delay hyst s)"
  shows "np_primary_transport (dp_network s') = DEVICE_PROFILE_TRANSPORT_RS485 \<and>
    np_fallback_transport (dp_network s') = fallback \<and> \<not> fst (device_profile_transport_enabled P cfg fallback s')"
proof -
  let ?n = "dp_network s\<lparr>np_onboarding_pending := False, np_primary_transport := DEVICE_PROFILE_TRANSPORT_RS485,
    np_fallback_transport := fallback, np_failover_delay_ms := delay, np_recovery_hysteresis_ms := hyst\<rparr>"
  have n: "dp_network s' = settle_policy ?n" and i: "dp_initialized s'"
    using assms(2,6) by (simp_all add: device_profile_set_transport_policy_def Let_def)
  have a: "device_profile_transport_allowed_in_network DEVICE_PROFILE_TRANSPORT_RS485 (default_delays ?n)"
    "device_profile_transport_allowed_in_network fallback (default_delays ?n)" "fallback \<noteq> DEVICE_PROFILE_TRANSPORT_RS485"
    using assms(3-5) by (auto simp: allowed_def default_delays_eq transports)
  have d: "np_primary_transport (default_delays ?n) = DEVICE_PROFILE_TRANSPORT_RS485" "np_fallback_transport (default_delays ?n) = fallback"
    "\<not> np_onboarding_pending (default_delays ?n)" by (simp_all add: default_delays_eq)
  have "choose_fallback (choose_primary (default_delays ?n)) = default_delays ?n"
    using a d by (simp add: choose_primary_def choose_fallback_def)
  then have "device_profile_normalize_transport_policy ?n = enable_rs485 (enable_transports (default_delays ?n))"
    using d by (simp add: device_profile_normalize_transport_policy_def Let_def)
  then have "np_primary_transport (settle_policy ?n) = DEVICE_PROFILE_TRANSPORT_RS485 \<and> np_fallback_transport (settle_policy ?n) = fallback \<and>
      \<not> np_wifi_enabled (settle_policy ?n) \<and> \<not> np_ethernet_enabled (settle_policy ?n)"
    using d by (simp add: settle_policy_def Let_def enabled_keeps enabled_of_def) (simp add: transports)
  then have m: "np_primary_transport (dp_network s') = DEVICE_PROFILE_TRANSPORT_RS485" "np_fallback_transport (dp_network s') = fallback"
    "\<not> np_wifi_enabled (dp_network s')" "\<not> np_ethernet_enabled (dp_network s')" unfolding n by blast+
  moreover have "fallback = DEVICE_PROFILE_TRANSPORT_WIFI \<or> fallback = DEVICE_PROFILE_TRANSPORT_ETHERNET" using assms(5) by blast
  then have "\<not> transport_enabled_in fallback (dp_network s')"
    using m(3,4) by (elim disjE) (simp_all add: transport_enabled_in_def transports)
  ultimately show ?thesis using i by (simp add: device_profile_transport_enabled_def device_profile_network_def)
qed

definition demo_rs485_profile :: "sim_world device_profile" where
  "demo_rs485_profile = demo_profile\<lparr>dp_network := settle_policy
     (device_profile_apply_manual_network_selection True False True 0 (dp_network demo_profile))\<rparr>"

lemma demo_rs485_ok:
  "profile_ok demo_build demo_rs485_profile" "dp_initialized demo_rs485_profile" "np_rs485_supported (dp_network demo_rs485_profile)"
  "np_rs485_enabled (dp_network demo_rs485_profile)" "np_wifi_supported (dp_network demo_rs485_profile)"
proof -
  have b: "built demo_build (dp_network demo_profile)" using demo_profile_ok by (simp add: profile_ok_def)
  show "profile_ok demo_build demo_rs485_profile" "dp_initialized demo_rs485_profile" using demo_profile_ok b
    by (simp_all add: demo_rs485_profile_def profile_ok_def settle_settled)
  show "np_rs485_supported (dp_network demo_rs485_profile)" "np_wifi_supported (dp_network demo_rs485_profile)"
    "np_rs485_enabled (dp_network demo_rs485_profile)" using b
    by (simp_all add: demo_rs485_profile_def built_def demo_build_def settle_policy_def Let_def device_profile_normalize_transport_policy_def
        policy_eqs primary_of_def fallback_of_def device_profile_apply_manual_network_selection_def allowed_def transports)
qed

theorem rs485_fallback_never_enabled_witness:
  "np_fallback_transport (dp_network (snd (device_profile_set_transport_policy sim_platform demo_build False
     DEVICE_PROFILE_TRANSPORT_RS485 DEVICE_PROFILE_TRANSPORT_WIFI 5000 15000 demo_rs485_profile))) = DEVICE_PROFILE_TRANSPORT_WIFI \<and>
   \<not> fst (device_profile_transport_enabled sim_platform demo_build DEVICE_PROFILE_TRANSPORT_WIFI
     (snd (device_profile_set_transport_policy sim_platform demo_build False
        DEVICE_PROFILE_TRANSPORT_RS485 DEVICE_PROFILE_TRANSPORT_WIFI 5000 15000 demo_rs485_profile)))"
  using rs485_fallback_never_enabled [OF demo_rs485_ok(1-4) disjI1 refl] demo_rs485_ok(5) by simp

text \<open>
  A build without Wi-Fi starts nothing while the onboarding is pending, although the
  policy names Ethernet as its primary transport.
\<close>

theorem onboarding_without_wifi_starts_nothing:
  assumes "profile_ok cfg s" "dp_initialized s" "np_onboarding_pending (dp_network s)" "\<not> CONFIG_ENDAP_WIFI_ENABLED cfg"
  shows "\<not> fst (device_profile_should_start_wifi_on_boot P cfg s) \<and> \<not> fst (device_profile_should_start_ethernet_on_boot P cfg s) \<and>
    \<not> fst (device_profile_should_start_rs485_on_boot P cfg s) \<and>
    (CONFIG_ENDAP_ETHERNET_ENABLED cfg \<longrightarrow> np_primary_transport (dp_network s) = DEVICE_PROFILE_TRANSPORT_ETHERNET)"
proof -
  have "built cfg (dp_network s)" "network_policy_ok (dp_network s)" using assms(1,2) by (simp_all add: profile_ok_def settled_def)
  then show ?thesis using assms(2-4)
    by (simp add: device_profile_should_start_wifi_on_boot_def device_profile_should_start_ethernet_on_boot_def
        device_profile_should_start_rs485_on_boot_def device_profile_network_def device_profile_transport_supported_def Let_def
        network_policy_ok_def built_def onboarding_transport_def)
qed

section \<open>Pins\<close>

text \<open>Once the profile is initialised, the pin queries are functions of the sensors and the network profile.\<close>

lemma gpio_allowed_initialized:
  "dp_initialized s \<Longrightarrow> gpio_allowed P cfg options g s = (pin_allowed options (dp_sensors s) (dp_network s) g, s)"
  by (auto simp: gpio_allowed_def pin_allowed_def device_profile_gpio_reserved_for_platform_def reserved_for_platform_def
      device_profile_gpio_reserved_for_network_def device_profile_network_def Let_def)

lemma gpio_reserved_by_initialized:
  "dp_initialized s \<Longrightarrow> device_profile_gpio_reserved_by P cfg g s = (reserved_by (dp_sensors s) (dp_network s) g, s)"
  by (simp add: device_profile_gpio_reserved_by_def device_profile_network_def Let_def)

text \<open>A pin that is reserved for the platform or the network is reported as reserved in the inventory.\<close>

lemma reserved_reported:
  "reserved_for_platform sensors n g \<or> reserved_for_network n g \<Longrightarrow> reserved_by sensors n g \<noteq> None"
  by (auto simp: reserved_for_platform_def reserved_by_def)

text \<open>
  The converse fails: the inventory reserves pin 14 for RS485 and the pins of the AHT10, but they may be bound.
\<close>

lemma rs485_pin_bindable:
  assumes "np_rs485_supported n" "np_rs485_enabled n" "\<not> reserved_for_network n 14"
    "\<not> sp_dht11_enabled sensors" "\<not> sp_ds18b20_enabled sensors" "\<not> sp_aht10_enabled sensors"
  shows "reserved_by sensors n 14 = Some ''RS-485'' \<and> pin_allowed output_gpio_options sensors n 14"
  using assms by (simp add: reserved_by_def pin_allowed_def reserved_for_platform_def device_profile_gpio_is_listed_def
      output_gpio_options_def)

end
