(* ===== verification/Io_Binding.thy ===== *)
theory Io_Binding
  imports Device_Profile
begin

text \<open>
  The binding of logical channels to pins and expander ports (\<open>runtime/io_binding/io_binding.c\<close>).

  The active part of the two tables is a list of entries each; an entry keeps the 16 bit fields as words,
  read as signed numbers. Backends and channel classes are the bytes of their enumerations. Arguments of type
  \<open>int\<close> are integers, a text argument is optional (\<open>None\<close> is the null pointer). The file has every operation twice,
  once for inputs and once for outputs, with the same code up to the table and, for inputs, the native analog
  backend: such a pair is one definition with a flag \<open>inp\<close> and two instances.

  The sensors and the network profile, which decide what pins are allowed, are a parameter \<open>D\<close>: after the first query
  of the device profile they are those of its state (\<open>gpio_allowed_initialized\<close>).
\<close>

section \<open>Model\<close>

subsection \<open>Constants and data\<close>

definition IO_BINDING_NAMESPACE :: string where "IO_BINDING_NAMESPACE = ''io_binding''"
definition IO_BINDING_KEY_INPUTS :: string where "IO_BINDING_KEY_INPUTS = ''input_v1''"
definition IO_BINDING_KEY_OUTPUTS :: string where "IO_BINDING_KEY_OUTPUTS = ''output_v1''"
definition IO_BINDING_MAGIC_INPUTS :: u32 where "IO_BINDING_MAGIC_INPUTS = 0x4942494E"
definition IO_BINDING_MAGIC_OUTPUTS :: u32 where "IO_BINDING_MAGIC_OUTPUTS = 0x49424F55"
definition IO_BINDING_VERSION :: u16 where "IO_BINDING_VERSION = 4"
definition IO_BINDING_VERSION_V3 :: u16 where "IO_BINDING_VERSION_V3 = 3"
definition IO_BINDING_VERSION_V2 :: u16 where "IO_BINDING_VERSION_V2 = 2"
definition IO_BINDING_VERSION_V1 :: u16 where "IO_BINDING_VERSION_V1 = 1"
definition IO_BINDING_NAME_LEN :: nat where "IO_BINDING_NAME_LEN = 24"
definition IO_BINDING_ROLE_LEN :: nat where "IO_BINDING_ROLE_LEN = 24"
definition IO_BINDING_DESC_LEN :: nat where "IO_BINDING_DESC_LEN = 128"
definition IO_BINDING_ADDR_LEN :: nat where "IO_BINDING_ADDR_LEN = 32"
definition IO_BINDING_BACKEND_LABEL_LEN :: nat where "IO_BINDING_BACKEND_LABEL_LEN = 24"
definition IO_BINDING_MAX_INPUTS :: nat where "IO_BINDING_MAX_INPUTS = 16"
definition IO_BINDING_MAX_OUTPUTS :: nat where "IO_BINDING_MAX_OUTPUTS = 16"

lemmas binding_sizes = IO_BINDING_NAME_LEN_def IO_BINDING_ROLE_LEN_def IO_BINDING_DESC_LEN_def IO_BINDING_ADDR_LEN_def
  IO_BINDING_BACKEND_LABEL_LEN_def IO_BINDING_MAX_INPUTS_def IO_BINDING_MAX_OUTPUTS_def

definition backend_GPIO :: u8 where "backend_GPIO = 0"
definition backend_MCP23X17 :: u8 where "backend_MCP23X17 = 1"
definition backend_ADC_NATIVE :: u8 where "backend_ADC_NATIVE = 2"
definition backend_ADC_EXTERNAL :: u8 where "backend_ADC_EXTERNAL = 3"

lemmas backends = backend_GPIO_def backend_MCP23X17_def backend_ADC_NATIVE_def backend_ADC_EXTERNAL_def

definition class_DIGITAL_INPUT :: u8 where "class_DIGITAL_INPUT = 0"
definition class_DIGITAL_OUTPUT :: u8 where "class_DIGITAL_OUTPUT = 1"
definition class_ANALOG_INPUT :: u8 where "class_ANALOG_INPUT = 2"

datatype io_binding_result_t =
  IO_BINDING_RESULT_OK | IO_BINDING_RESULT_NOT_FOUND | IO_BINDING_RESULT_INVALID_GPIO | IO_BINDING_RESULT_GPIO_CONFLICT
  | IO_BINDING_RESULT_ALREADY_ACTIVE | IO_BINDING_RESULT_LIMIT_REACHED | IO_BINDING_RESULT_PROTECTED
  | IO_BINDING_RESULT_INVALID_BACKEND | IO_BINDING_RESULT_UNSUPPORTED_BACKEND | IO_BINDING_RESULT_INVALID_ENDPOINT
  | IO_BINDING_RESULT_ADDRESS_CONFLICT

type_synonym i16 = "16 word"

record io_binding_entry_t =
  be_id :: u16
  be_gpio :: i16
  be_backend_instance :: i16
  be_endpoint_index :: i16
  be_backend :: u8
  be_channel_class :: u8
  be_reserved0 :: u16
  be_name :: bytes
  be_role :: bytes

type_synonym pin_env = "device_sensor_profile_t \<times> device_network_profile_t"

record 'w io_binding =
  ib_inputs :: "io_binding_entry_t list"
  ib_outputs :: "io_binding_entry_t list"
  ib_gpio_restart_required :: bool
  ib_world :: 'w

definition table_of :: "bool \<Rightarrow> 'w io_binding \<Rightarrow> io_binding_entry_t list" where
  "table_of inp s = (if inp then ib_inputs s else ib_outputs s)"

definition set_table :: "bool \<Rightarrow> io_binding_entry_t list \<Rightarrow> 'w io_binding \<Rightarrow> 'w io_binding" where
  "set_table inp es s = (if inp then s\<lparr>ib_inputs := es\<rparr> else s\<lparr>ib_outputs := es\<rparr>)"

text \<open>Name and pin of a channel of the board.\<close>

definition channel_profile :: "bool \<Rightarrow> u16 \<Rightarrow> (bytes \<times> int) option" where
  "channel_profile inp ident =
     (if inp then map_option (\<lambda>p. (dip_name p, dip_gpio p)) (device_profile_find_input ident)
      else map_option (\<lambda>p. (dop_name p, dop_gpio p)) (device_profile_find_output ident))"

subsection \<open>Backends and addresses\<close>

definition io_binding_copy_text :: "nat \<Rightarrow> bytes option \<Rightarrow> bytes" where
  "io_binding_copy_text dst_size src = c_snprintf dst_size (case src of None \<Rightarrow> [] | Some t \<Rightarrow> t)"

definition io_binding_backend_code :: "u8 \<Rightarrow> string" where
  "io_binding_backend_code backend =
     (if backend = backend_GPIO then ''gpio'' else if backend = backend_MCP23X17 then ''mcp23x17''
      else if backend = backend_ADC_NATIVE then ''adc-native'' else if backend = backend_ADC_EXTERNAL then ''adc-external''
      else ''unknown'')"

definition io_binding_backend_label :: "u8 \<Rightarrow> string" where
  "io_binding_backend_label backend =
     (if backend = backend_GPIO then ''GPIO nativo'' else if backend = backend_MCP23X17 then ''MCP23x17''
      else if backend = backend_ADC_NATIVE then ''ADC nativo'' else if backend = backend_ADC_EXTERNAL then ''ADC externo''
      else ''Desconhecido'')"

definition io_binding_backend_allows_input :: "u8 \<Rightarrow> bool" where
  "io_binding_backend_allows_input backend =
     (if backend = backend_GPIO then True
      else if backend = backend_MCP23X17 then ec_supports_mcp23x17 expansion_capabilities
      else backend = backend_ADC_NATIVE)"

definition io_binding_backend_allows_output :: "u8 \<Rightarrow> bool" where
  "io_binding_backend_allows_output backend =
     (if backend = backend_GPIO then True
      else if backend = backend_MCP23X17 then ec_supports_mcp23x17 expansion_capabilities
      else False)"

definition io_binding_backend_selectable_now :: "u8 \<Rightarrow> bool \<Rightarrow> bool" where
  "io_binding_backend_selectable_now backend for_input =
     (if for_input then io_binding_backend_allows_input backend else io_binding_backend_allows_output backend)"

definition io_binding_mcp_endpoint_label :: "int \<Rightarrow> string" where
  "io_binding_mcp_endpoint_label endpoint_index =
     (if endpoint_index < 0 \<or> endpoint_index \<ge> 16 then ''?''
      else [''A0'', ''A1'', ''A2'', ''A3'', ''A4'', ''A5'', ''A6'', ''A7'',
            ''B0'', ''B1'', ''B2'', ''B3'', ''B4'', ''B5'', ''B6'', ''B7''] ! nat endpoint_index)"

definition io_binding_mcp_address_valid :: "int \<Rightarrow> int \<Rightarrow> bool" where
  "io_binding_mcp_address_valid backend_instance endpoint_index =
     (let instance_count = int (unat (ec_recommended_mcp_instances expansion_capabilities));
          channel_count = int (unat (ec_channels_per_mcp expansion_capabilities)) in
      if \<not> ec_supports_mcp23x17 expansion_capabilities then False
      else
        let instance_count = (if instance_count \<le> 0 then 1 else instance_count);
            channel_count = (if channel_count \<le> 0 then 16 else channel_count)
        in 0 \<le> backend_instance \<and> backend_instance < instance_count \<and> 0 \<le> endpoint_index \<and> endpoint_index < channel_count)"

definition binding_pin_allowed :: "pin_env \<Rightarrow> bool \<Rightarrow> int \<Rightarrow> bool" where
  "binding_pin_allowed D for_input gpio =
     pin_allowed (if for_input then input_gpio_options else output_gpio_options) (fst D) (snd D) gpio"

definition io_binding_backend_address_valid :: "pin_env \<Rightarrow> u8 \<Rightarrow> bool \<Rightarrow> int \<Rightarrow> int \<Rightarrow> int \<Rightarrow> bool" where
  "io_binding_backend_address_valid D backend for_input gpio backend_instance endpoint_index =
     (if backend = backend_GPIO then binding_pin_allowed D for_input gpio
      else if backend = backend_MCP23X17
      then io_binding_backend_selectable_now backend for_input \<and> io_binding_mcp_address_valid backend_instance endpoint_index
      else if backend = backend_ADC_NATIVE
      then for_input \<and> io_binding_backend_selectable_now backend for_input \<and>
        (gpio = 34 \<and> endpoint_index = 6 \<or> gpio = 35 \<and> endpoint_index = 7 \<or>
         gpio = 36 \<and> endpoint_index = 0 \<or> gpio = 39 \<and> endpoint_index = 3)
      else False)"

definition io_binding_address_in_use :: "io_binding_entry_t list \<Rightarrow> u8 \<Rightarrow> int \<Rightarrow> int \<Rightarrow> u16 \<Rightarrow> bool" where
  "io_binding_address_in_use es backend backend_instance endpoint_index ignore_id \<longleftrightarrow>
     (\<exists>e \<in> set es. be_id e \<noteq> ignore_id \<and> be_backend e = backend \<and> sint (be_backend_instance e) = backend_instance \<and>
        sint (be_endpoint_index e) = endpoint_index)"

definition io_binding_address_in_use_by_input :: "'w io_binding \<Rightarrow> u8 \<Rightarrow> int \<Rightarrow> int \<Rightarrow> u16 \<Rightarrow> bool" where
  "io_binding_address_in_use_by_input s = io_binding_address_in_use (ib_inputs s)"

definition io_binding_address_in_use_by_output :: "'w io_binding \<Rightarrow> u8 \<Rightarrow> int \<Rightarrow> int \<Rightarrow> u16 \<Rightarrow> bool" where
  "io_binding_address_in_use_by_output s = io_binding_address_in_use (ib_outputs s)"

definition validate_address :: "bool \<Rightarrow> pin_env \<Rightarrow> 'w io_binding \<Rightarrow> u16 \<Rightarrow> u8 \<Rightarrow> int \<Rightarrow> int \<Rightarrow> int \<Rightarrow> io_binding_result_t" where
  "validate_address inp D s ident backend gpio backend_instance endpoint_index =
     (if \<not> io_binding_backend_selectable_now backend inp
      then if backend = backend_MCP23X17 then IO_BINDING_RESULT_UNSUPPORTED_BACKEND else IO_BINDING_RESULT_INVALID_BACKEND
      else if \<not> io_binding_backend_address_valid D backend inp gpio backend_instance endpoint_index
      then if backend = backend_GPIO then IO_BINDING_RESULT_INVALID_GPIO else IO_BINDING_RESULT_INVALID_ENDPOINT
      else if io_binding_address_in_use (table_of inp s) backend backend_instance endpoint_index ident \<or>
              io_binding_address_in_use (table_of (\<not> inp) s) backend backend_instance endpoint_index 0
      then if backend = backend_GPIO then IO_BINDING_RESULT_GPIO_CONFLICT else IO_BINDING_RESULT_ADDRESS_CONFLICT
      else IO_BINDING_RESULT_OK)"

definition io_binding_validate_input_address :: "pin_env \<Rightarrow> 'w io_binding \<Rightarrow> u16 \<Rightarrow> u8 \<Rightarrow> int \<Rightarrow> int \<Rightarrow> int \<Rightarrow> io_binding_result_t" where
  "io_binding_validate_input_address = validate_address True"

definition io_binding_validate_output_address :: "pin_env \<Rightarrow> 'w io_binding \<Rightarrow> u16 \<Rightarrow> u8 \<Rightarrow> int \<Rightarrow> int \<Rightarrow> int \<Rightarrow> io_binding_result_t" where
  "io_binding_validate_output_address = validate_address False"

text \<open>Another entry of a loaded table with the same identifier or the same address.\<close>

definition blob_has_duplicate :: "io_binding_entry_t list \<Rightarrow> nat \<Rightarrow> bool" where
  "blob_has_duplicate es index \<longleftrightarrow> (\<exists>i < length es. i \<noteq> index \<and>
     (be_id (es ! i) = be_id (es ! index) \<or>
      be_backend (es ! i) = be_backend (es ! index) \<and> be_backend_instance (es ! i) = be_backend_instance (es ! index) \<and>
      be_endpoint_index (es ! i) = be_endpoint_index (es ! index) \<and> be_endpoint_index (es ! index) \<noteq> of_int GPIO_NUM_NC))"

subsection \<open>Entries\<close>

definition given_text :: "bytes option \<Rightarrow> bytes \<Rightarrow> bytes" where
  "given_text t fallback = (case t of None \<Rightarrow> fallback | Some t \<Rightarrow> if c_str t \<noteq> [] then t else fallback)"

definition default_role :: "bool \<Rightarrow> bytes" where
  "default_role inp = (if inp then str_bytes ''Input'' else str_bytes ''Actuator'')"

definition channel_class_of :: "bool \<Rightarrow> u8 \<Rightarrow> u8" where
  "channel_class_of inp backend =
     (if \<not> inp then class_DIGITAL_OUTPUT
      else if backend = backend_ADC_NATIVE \<or> backend = backend_ADC_EXTERNAL then class_ANALOG_INPUT
      else class_DIGITAL_INPUT)"

definition prepare_entry ::
    "bool \<Rightarrow> u16 \<Rightarrow> bytes option \<Rightarrow> bytes option \<Rightarrow> u8 \<Rightarrow> int \<Rightarrow> int \<Rightarrow> int \<Rightarrow> bytes \<Rightarrow> io_binding_entry_t" where
  "prepare_entry inp ident name role backend gpio backend_instance endpoint_index profile_name =
     \<lparr>be_id = ident, be_gpio = of_int gpio, be_backend_instance = of_int backend_instance,
      be_endpoint_index = of_int endpoint_index, be_backend = backend, be_channel_class = channel_class_of inp backend,
      be_reserved0 = 0,
      be_name = io_binding_copy_text IO_BINDING_NAME_LEN (Some (given_text name profile_name)),
      be_role = io_binding_copy_text IO_BINDING_ROLE_LEN (Some (given_text role (default_role inp)))\<rparr>"

subsection \<open>Storage\<close>

definition binding_entry_bytes :: "io_binding_entry_t \<Rightarrow> bytes" where
  "binding_entry_bytes e = le16 (be_id e) @ le16 (be_gpio e) @ le16 (be_backend_instance e) @ le16 (be_endpoint_index e) @
     [be_backend e, be_channel_class e] @ le16 (be_reserved0 e) @ be_name e @ be_role e"

definition binding_entry_of :: "bytes \<Rightarrow> io_binding_entry_t" where
  "binding_entry_of bs = \<lparr>be_id = of_le16 bs, be_gpio = of_le16 (drop 2 bs), be_backend_instance = of_le16 (drop 4 bs),
     be_endpoint_index = of_le16 (drop 6 bs), be_backend = bs ! 8, be_channel_class = bs ! 9,
     be_reserved0 = of_le16 (drop 10 bs), be_name = take 24 (drop 12 bs), be_role = take 24 (drop 36 bs)\<rparr>"

definition SIZEOF_BINDING_ENTRY :: nat where "SIZEOF_BINDING_ENTRY = 60"
definition SIZEOF_BINDING_BLOB :: nat where "SIZEOF_BINDING_BLOB = 972"
definition SIZEOF_BINDING_BLOB_V2 :: nat where "SIZEOF_BINDING_BLOB_V2 = 844"
definition SIZEOF_BINDING_BLOB_V1 :: nat where "SIZEOF_BINDING_BLOB_V1 = 812"

lemmas binding_blob_sizes = SIZEOF_BINDING_ENTRY_def SIZEOF_BINDING_BLOB_def SIZEOF_BINDING_BLOB_V2_def SIZEOF_BINDING_BLOB_V1_def

definition binding_magic :: "bool \<Rightarrow> u32" where
  "binding_magic inp = (if inp then IO_BINDING_MAGIC_INPUTS else IO_BINDING_MAGIC_OUTPUTS)"

definition binding_key :: "bool \<Rightarrow> string" where
  "binding_key inp = (if inp then IO_BINDING_KEY_INPUTS else IO_BINDING_KEY_OUTPUTS)"

definition binding_body :: "bool \<Rightarrow> io_binding_entry_t list \<Rightarrow> bytes" where
  "binding_body inp es = le32 (binding_magic inp) @ le16 IO_BINDING_VERSION @ le16 (of_nat (length es)) @
     concat (map binding_entry_bytes es) @ replicate ((IO_BINDING_MAX_INPUTS - length es) * SIZEOF_BINDING_ENTRY) 0"

definition binding_blob :: "bool \<Rightarrow> io_binding_entry_t list \<Rightarrow> bytes" where
  "binding_blob inp es = binding_body inp es @ le32 (crc32 (binding_body inp es))"

definition persist_table :: "'w platform \<Rightarrow> bool \<Rightarrow> 'w io_binding \<Rightarrow> 'w io_binding" where
  "persist_table P inp s =
     s\<lparr>ib_world := snd (nvs_store P IO_BINDING_NAMESPACE (binding_key inp) (binding_blob inp (table_of inp s)) (ib_world s))\<rparr>"

definition io_binding_persist_inputs :: "'w platform \<Rightarrow> 'w io_binding \<Rightarrow> 'w io_binding" where
  "io_binding_persist_inputs P = persist_table P True"

definition io_binding_persist_outputs :: "'w platform \<Rightarrow> 'w io_binding \<Rightarrow> 'w io_binding" where
  "io_binding_persist_outputs P = persist_table P False"

definition blob_entries :: "nat \<Rightarrow> nat \<Rightarrow> bytes \<Rightarrow> bytes list" where
  "blob_entries n count raw = map (\<lambda>i. take n (drop (n * i) (drop 8 raw))) [0..<count]"

definition binding_header_ok :: "bool \<Rightarrow> u16 set \<Rightarrow> bytes \<Rightarrow> bool" where
  "binding_header_ok inp versions raw \<longleftrightarrow>
     of_le32 raw = binding_magic inp \<and> of_le16 (drop 4 raw) \<in> versions \<and>
     unat (of_le16 (drop 6 raw)) \<le> IO_BINDING_MAX_INPUTS"

definition loaded_entry_ok :: "bool \<Rightarrow> pin_env \<Rightarrow> io_binding_entry_t list \<Rightarrow> nat \<Rightarrow> bool" where
  "loaded_entry_ok inp D es i =
     (let e = es ! i;
          addr_valid = be_backend e = backend_GPIO \<and> be_gpio e = of_int GPIO_NUM_NC \<or>
            io_binding_backend_address_valid D (be_backend e) inp (sint (be_gpio e)) (sint (be_backend_instance e))
              (sint (be_endpoint_index e))
      in channel_profile inp (be_id e) \<noteq> None \<and> addr_valid \<and> \<not> blob_has_duplicate es i)"

definition load_v3 :: "bool \<Rightarrow> pin_env \<Rightarrow> bytes \<Rightarrow> 'w io_binding \<Rightarrow> bool \<times> 'w io_binding" where
  "load_v3 inp D raw s =
     (if \<not> binding_header_ok inp {IO_BINDING_VERSION, IO_BINDING_VERSION_V3} raw then (False, s)
      else
        let es = map binding_entry_of (blob_entries SIZEOF_BINDING_ENTRY (unat (of_le16 (drop 6 raw))) raw) in
        if \<forall>i < length es. loaded_entry_ok inp D es i then (True, set_table inp es s) else (False, s))"

text \<open>
  The loops that migrate older tables stop at the first entry that is not accepted and leave the table
  filled up to there.
\<close>

fun migrate :: "(bytes \<Rightarrow> io_binding_entry_t option) \<Rightarrow> bytes list \<Rightarrow> io_binding_entry_t list \<Rightarrow> bool \<times> io_binding_entry_t list" where
  "migrate accept [] es = (True, es)"
| "migrate accept (b # bs) es = (case accept b of None \<Rightarrow> (False, es) | Some e \<Rightarrow> migrate accept bs (es @ [e]))"

definition load_older ::
    "'w platform \<Rightarrow> bool \<Rightarrow> u16 \<Rightarrow> nat \<Rightarrow> (bytes \<Rightarrow> io_binding_entry_t option) \<Rightarrow> bytes \<Rightarrow> 'w io_binding \<Rightarrow> bool \<times> 'w io_binding" where
  "load_older P inp version n accept raw s =
     (let s = set_table inp [] s in
      if \<not> binding_header_ok inp {version} raw then (False, s)
      else case migrate accept (blob_entries n (unat (of_le16 (drop 6 raw))) raw) [] of (ok, es) \<Rightarrow>
        let s = set_table inp es s in
        if ok then (True, persist_table P inp s) else (False, s))"

definition accept_v2 :: "bool \<Rightarrow> pin_env \<Rightarrow> bytes \<Rightarrow> io_binding_entry_t option" where
  "accept_v2 inp D bs =
     (let ident = of_le16 bs; gpio = sint (of_le16 (drop 2 bs)) in
      case channel_profile inp ident of None \<Rightarrow> None
      | Some (pname, _) \<Rightarrow>
          if (inp \<and> gpio = GPIO_NUM_NC) \<or> binding_pin_allowed D inp gpio
          then Some (prepare_entry inp ident (Some (take 24 (drop 4 bs))) (Some (take 24 (drop 28 bs))) backend_GPIO gpio 0 gpio pname)
          else None)"

definition accept_v1 :: "bool \<Rightarrow> bytes \<Rightarrow> io_binding_entry_t option" where
  "accept_v1 inp bs =
     (let ident = of_le16 bs in
      case channel_profile inp ident of None \<Rightarrow> None
      | Some (pname, pgpio) \<Rightarrow>
          Some (prepare_entry inp ident (Some (take 24 (drop 2 bs))) (Some (take 24 (drop 26 bs))) backend_GPIO pgpio 0 pgpio pname))"

definition load_v2 :: "'w platform \<Rightarrow> bool \<Rightarrow> pin_env \<Rightarrow> bytes \<Rightarrow> 'w io_binding \<Rightarrow> bool \<times> 'w io_binding" where
  "load_v2 P inp D = load_older P inp IO_BINDING_VERSION_V2 52 (accept_v2 inp D)"

definition load_v1 :: "'w platform \<Rightarrow> bool \<Rightarrow> bytes \<Rightarrow> 'w io_binding \<Rightarrow> bool \<times> 'w io_binding" where
  "load_v1 P inp = load_older P inp IO_BINDING_VERSION_V1 50 (accept_v1 inp)"

definition binding_crc_ok :: "bytes \<Rightarrow> bool" where
  "binding_crc_ok raw \<longleftrightarrow> of_le32 (drop (length raw - 4) raw) = crc32 (take (length raw - 4) raw)"

definition io_binding_load_inputs_v3 :: "pin_env \<Rightarrow> bytes \<Rightarrow> 'w io_binding \<Rightarrow> bool \<times> 'w io_binding" where
  "io_binding_load_inputs_v3 = load_v3 True"

definition io_binding_load_inputs_v2 :: "'w platform \<Rightarrow> pin_env \<Rightarrow> bytes \<Rightarrow> 'w io_binding \<Rightarrow> bool \<times> 'w io_binding" where
  "io_binding_load_inputs_v2 P = load_v2 P True"

definition io_binding_load_inputs_v1 :: "'w platform \<Rightarrow> bytes \<Rightarrow> 'w io_binding \<Rightarrow> bool \<times> 'w io_binding" where
  "io_binding_load_inputs_v1 P = load_v1 P True"

definition io_binding_load_outputs_v3 :: "pin_env \<Rightarrow> bytes \<Rightarrow> 'w io_binding \<Rightarrow> bool \<times> 'w io_binding" where
  "io_binding_load_outputs_v3 = load_v3 False"

definition io_binding_load_outputs_v2 :: "'w platform \<Rightarrow> pin_env \<Rightarrow> bytes \<Rightarrow> 'w io_binding \<Rightarrow> bool \<times> 'w io_binding" where
  "io_binding_load_outputs_v2 P = load_v2 P False"

definition io_binding_load_outputs_v1 :: "'w platform \<Rightarrow> bytes \<Rightarrow> 'w io_binding \<Rightarrow> bool \<times> 'w io_binding" where
  "io_binding_load_outputs_v1 P = load_v1 P False"

lemmas load_versions = io_binding_load_inputs_v3_def io_binding_load_inputs_v2_def io_binding_load_inputs_v1_def
  io_binding_load_outputs_v3_def io_binding_load_outputs_v2_def io_binding_load_outputs_v1_def

text \<open>The common part: the length of the blob selects the version.\<close>

definition load_table ::
    "'w platform \<Rightarrow> bool \<Rightarrow> (bytes \<Rightarrow> 'w io_binding \<Rightarrow> bool \<times> 'w io_binding) \<Rightarrow> (bytes \<Rightarrow> 'w io_binding \<Rightarrow> bool \<times> 'w io_binding) \<Rightarrow>
     (bytes \<Rightarrow> 'w io_binding \<Rightarrow> bool \<times> 'w io_binding) \<Rightarrow> 'w io_binding \<Rightarrow> 'w io_binding" where
  "load_table P inp v3 v2 v1 s =
     (case nvs_open P IO_BINDING_NAMESPACE NVS_READONLY (ib_world s) of (err, h, w) \<Rightarrow>
      if err \<noteq> ESP_OK then s\<lparr>ib_world := w\<rparr>
      else case nvs_get_blob P h (binding_key inp) SIZEOF_BINDING_BLOB w of (err, raw, w) \<Rightarrow>
        let s = s\<lparr>ib_world := nvs_close P h w\<rparr> in
        if err \<noteq> ESP_OK \<or> \<not> binding_crc_ok raw then s
        else if length raw = SIZEOF_BINDING_BLOB then snd (v3 raw s)
        else if length raw = SIZEOF_BINDING_BLOB_V2 then snd (v2 raw s)
        else if length raw = SIZEOF_BINDING_BLOB_V1 then snd (v1 raw s)
        else s)"

definition io_binding_load_inputs :: "'w platform \<Rightarrow> pin_env \<Rightarrow> 'w io_binding \<Rightarrow> 'w io_binding" where
  "io_binding_load_inputs P D =
     load_table P True (io_binding_load_inputs_v3 D) (io_binding_load_inputs_v2 P D) (io_binding_load_inputs_v1 P)"

definition io_binding_load_outputs :: "'w platform \<Rightarrow> pin_env \<Rightarrow> 'w io_binding \<Rightarrow> 'w io_binding" where
  "io_binding_load_outputs P D =
     load_table P False (io_binding_load_outputs_v3 D) (io_binding_load_outputs_v2 P D) (io_binding_load_outputs_v1 P)"

subsection \<open>Operations\<close>

definition io_binding_find_entry :: "u16 \<Rightarrow> io_binding_entry_t list \<Rightarrow> nat option" where
  "io_binding_find_entry ident es = find_index (\<lambda>e. be_id e = ident) es"

definition io_binding_has_input :: "u16 \<Rightarrow> 'w io_binding \<Rightarrow> bool" where
  "io_binding_has_input ident s \<longleftrightarrow> io_binding_find_entry ident (ib_inputs s) \<noteq> None"

definition io_binding_has_output :: "u16 \<Rightarrow> 'w io_binding \<Rightarrow> bool" where
  "io_binding_has_output ident s \<longleftrightarrow> io_binding_find_entry ident (ib_outputs s) \<noteq> None"

text \<open>The number of free channels, and the identifiers written to a buffer for \<open>max_ids\<close> of them.\<close>

definition io_binding_available_inputs :: "bool \<Rightarrow> int \<Rightarrow> 'w io_binding \<Rightarrow> int \<times> u16 list" where
  "io_binding_available_inputs out_ids max_ids s =
     (let free = filter (\<lambda>i. \<not> io_binding_has_input i s) (map dip_id input_profile)
      in (int (length free), if out_ids then take (nat max_ids) free else []))"

definition io_binding_available_outputs :: "bool \<Rightarrow> int \<Rightarrow> 'w io_binding \<Rightarrow> int \<times> u16 list" where
  "io_binding_available_outputs out_ids max_ids s =
     (let free = filter (\<lambda>i. \<not> io_binding_has_output i s) (map dop_id output_profile)
      in (int (length free), if out_ids then take (nat max_ids) free else []))"

definition is_protected :: "bool \<Rightarrow> u16 \<Rightarrow> bool" where
  "is_protected inp ident =
     (if inp then device_profile_is_default_input_id ident else device_profile_is_default_output_id ident)"

text \<open>A change of a table asks for a restart and is stored.\<close>

definition change_table :: "'w platform \<Rightarrow> bool \<Rightarrow> bool \<Rightarrow> io_binding_entry_t list \<Rightarrow> 'w io_binding \<Rightarrow> 'w io_binding" where
  "change_table P inp restart es s =
     persist_table P inp ((set_table inp es s)\<lparr>ib_gpio_restart_required := ib_gpio_restart_required s \<or> restart\<rparr>)"

text \<open>Pin, instance and endpoint that a new channel asks for.\<close>

definition new_address :: "u8 \<Rightarrow> int \<Rightarrow> int \<Rightarrow> int \<Rightarrow> io_binding_result_t + (int \<times> int \<times> int)" where
  "new_address backend gpio backend_instance endpoint_index =
     (if backend = backend_GPIO
      then if gpio < 0 then Inl IO_BINDING_RESULT_INVALID_GPIO else Inr (gpio, 0, gpio)
      else if backend = backend_MCP23X17 then Inr (GPIO_NUM_NC, backend_instance, endpoint_index)
      else Inl IO_BINDING_RESULT_INVALID_BACKEND)"

definition add_channel ::
    "'w platform \<Rightarrow> bool \<Rightarrow> pin_env \<Rightarrow> u16 \<Rightarrow> bytes option \<Rightarrow> bytes option \<Rightarrow> u8 \<Rightarrow> int \<Rightarrow> int \<Rightarrow> int \<Rightarrow> 'w io_binding \<Rightarrow>
     io_binding_result_t \<times> 'w io_binding" where
  "add_channel P inp D ident name role backend gpio backend_instance endpoint_index s =
     (let es = table_of inp s in
      case channel_profile inp ident of None \<Rightarrow> (IO_BINDING_RESULT_NOT_FOUND, s)
      | Some (pname, _) \<Rightarrow>
          if io_binding_find_entry ident es \<noteq> None then (IO_BINDING_RESULT_ALREADY_ACTIVE, s)
          else if length es \<ge> IO_BINDING_MAX_INPUTS then (IO_BINDING_RESULT_LIMIT_REACHED, s)
          else case new_address backend gpio backend_instance endpoint_index of Inl r \<Rightarrow> (r, s)
          | Inr (resolved_gpio, backend_instance, endpoint_index) \<Rightarrow>
              let addr_result = validate_address inp D s ident backend resolved_gpio backend_instance endpoint_index in
              if addr_result \<noteq> IO_BINDING_RESULT_OK then (addr_result, s)
              else (IO_BINDING_RESULT_OK, change_table P inp True
                (es @ [prepare_entry inp ident name role backend resolved_gpio backend_instance endpoint_index pname]) s))"

definition io_binding_add_input_ex ::
    "'w platform \<Rightarrow> pin_env \<Rightarrow> u16 \<Rightarrow> bytes option \<Rightarrow> bytes option \<Rightarrow> u8 \<Rightarrow> int \<Rightarrow> int \<Rightarrow> int \<Rightarrow> 'w io_binding \<Rightarrow>
     io_binding_result_t \<times> 'w io_binding" where
  "io_binding_add_input_ex P = add_channel P True"

definition io_binding_add_input ::
    "'w platform \<Rightarrow> pin_env \<Rightarrow> u16 \<Rightarrow> bytes option \<Rightarrow> bytes option \<Rightarrow> int \<Rightarrow> 'w io_binding \<Rightarrow> io_binding_result_t \<times> 'w io_binding" where
  "io_binding_add_input P D ident name role gpio = io_binding_add_input_ex P D ident name role backend_GPIO gpio 0 gpio"

definition io_binding_add_output_ex ::
    "'w platform \<Rightarrow> pin_env \<Rightarrow> u16 \<Rightarrow> bytes option \<Rightarrow> bytes option \<Rightarrow> u8 \<Rightarrow> int \<Rightarrow> int \<Rightarrow> int \<Rightarrow> 'w io_binding \<Rightarrow>
     io_binding_result_t \<times> 'w io_binding" where
  "io_binding_add_output_ex P = add_channel P False"

definition io_binding_add_output ::
    "'w platform \<Rightarrow> pin_env \<Rightarrow> u16 \<Rightarrow> bytes option \<Rightarrow> bytes option \<Rightarrow> int \<Rightarrow> 'w io_binding \<Rightarrow> io_binding_result_t \<times> 'w io_binding" where
  "io_binding_add_output P D ident name role gpio = io_binding_add_output_ex P D ident name role backend_GPIO gpio 0 gpio"

definition remove_channel :: "'w platform \<Rightarrow> bool \<Rightarrow> u16 \<Rightarrow> 'w io_binding \<Rightarrow> io_binding_result_t \<times> 'w io_binding" where
  "remove_channel P inp ident s =
     (let es = table_of inp s in
      if is_protected inp ident then (IO_BINDING_RESULT_PROTECTED, s)
      else case io_binding_find_entry ident es of None \<Rightarrow> (IO_BINDING_RESULT_NOT_FOUND, s)
      | Some i \<Rightarrow> (IO_BINDING_RESULT_OK, change_table P inp True (take i es @ drop (Suc i) es) s))"

definition io_binding_remove_input :: "'w platform \<Rightarrow> u16 \<Rightarrow> 'w io_binding \<Rightarrow> io_binding_result_t \<times> 'w io_binding" where
  "io_binding_remove_input P = remove_channel P True"

definition io_binding_remove_output :: "'w platform \<Rightarrow> u16 \<Rightarrow> 'w io_binding \<Rightarrow> io_binding_result_t \<times> 'w io_binding" where
  "io_binding_remove_output P = remove_channel P False"

text \<open>The endpoint of a pin of the native converter; for other pins the argument stays.\<close>

definition adc_endpoint :: "int \<Rightarrow> int \<Rightarrow> int" where
  "adc_endpoint gpio endpoint_index =
     (if gpio = 34 then 6 else if gpio = 35 then 7 else if gpio = 36 then 0 else if gpio = 39 then 3 else endpoint_index)"

text \<open>Pin, instance and endpoint that a changed channel asks for; negative arguments keep what the entry has.\<close>

definition changed_address :: "bool \<Rightarrow> io_binding_entry_t \<Rightarrow> u8 \<Rightarrow> int \<Rightarrow> int \<Rightarrow> int \<Rightarrow> (int \<times> int \<times> int) option" where
  "changed_address inp e backend gpio backend_instance endpoint_index =
     (let resolved = (if gpio \<ge> 0 then gpio else sint (be_gpio e)) in
      if backend = backend_GPIO then Some (resolved, 0, resolved)
      else if backend = backend_MCP23X17
      then Some (GPIO_NUM_NC, if backend_instance < 0 then sint (be_backend_instance e) else backend_instance,
                 if endpoint_index < 0 then sint (be_endpoint_index e) else endpoint_index)
      else if backend = backend_ADC_NATIVE \<and> inp
      then Some (resolved, if backend_instance < 0 then 0 else backend_instance, adc_endpoint resolved endpoint_index)
      else None)"

definition io_binding_set_channel ::
    "'w platform \<Rightarrow> bool \<Rightarrow> pin_env \<Rightarrow> u16 \<Rightarrow> bytes option \<Rightarrow> bytes option \<Rightarrow> u8 \<Rightarrow> int \<Rightarrow> int \<Rightarrow> int \<Rightarrow> 'w io_binding \<Rightarrow>
     io_binding_result_t \<times> 'w io_binding" where
  "io_binding_set_channel P inp D ident name role backend gpio backend_instance endpoint_index s =
     (let es = table_of inp s in
      case io_binding_find_entry ident es of None \<Rightarrow> (IO_BINDING_RESULT_NOT_FOUND, s)
      | Some i \<Rightarrow>
        case channel_profile inp ident of None \<Rightarrow> (IO_BINDING_RESULT_NOT_FOUND, s)
        | Some (pname, _) \<Rightarrow>
          let e = es ! i in
          case changed_address inp e backend gpio backend_instance endpoint_index of None \<Rightarrow> (IO_BINDING_RESULT_INVALID_BACKEND, s)
          | Some (resolved_gpio, backend_instance, endpoint_index) \<Rightarrow>
              let addr_result = validate_address inp D s ident backend resolved_gpio backend_instance endpoint_index in
              if addr_result \<noteq> IO_BINDING_RESULT_OK then (addr_result, s)
              else
                let restart = be_gpio e \<noteq> of_int resolved_gpio \<or> be_backend e \<noteq> backend \<or>
                      be_backend_instance e \<noteq> of_int backend_instance \<or> be_endpoint_index e \<noteq> of_int endpoint_index;
                    e = e\<lparr>be_gpio := of_int resolved_gpio, be_backend := backend, be_channel_class := channel_class_of inp backend,
                          be_backend_instance := of_int backend_instance, be_endpoint_index := of_int endpoint_index,
                          be_name := io_binding_copy_text IO_BINDING_NAME_LEN (Some (given_text name pname)),
                          be_role := io_binding_copy_text IO_BINDING_ROLE_LEN (Some (given_text role (default_role inp)))\<rparr>
                in (IO_BINDING_RESULT_OK, change_table P inp restart (es[i := e]) s))"

definition io_binding_set_input_ex ::
    "'w platform \<Rightarrow> pin_env \<Rightarrow> u16 \<Rightarrow> bytes option \<Rightarrow> bytes option \<Rightarrow> u8 \<Rightarrow> int \<Rightarrow> int \<Rightarrow> int \<Rightarrow> 'w io_binding \<Rightarrow>
     io_binding_result_t \<times> 'w io_binding" where
  "io_binding_set_input_ex P = io_binding_set_channel P True"

definition io_binding_set_input ::
    "'w platform \<Rightarrow> pin_env \<Rightarrow> u16 \<Rightarrow> bytes option \<Rightarrow> bytes option \<Rightarrow> int \<Rightarrow> 'w io_binding \<Rightarrow> io_binding_result_t \<times> 'w io_binding" where
  "io_binding_set_input P D ident name role gpio = io_binding_set_input_ex P D ident name role backend_GPIO gpio 0 gpio"

definition io_binding_set_output_ex ::
    "'w platform \<Rightarrow> pin_env \<Rightarrow> u16 \<Rightarrow> bytes option \<Rightarrow> bytes option \<Rightarrow> u8 \<Rightarrow> int \<Rightarrow> int \<Rightarrow> int \<Rightarrow> 'w io_binding \<Rightarrow>
     io_binding_result_t \<times> 'w io_binding" where
  "io_binding_set_output_ex P = io_binding_set_channel P False"

definition io_binding_set_output ::
    "'w platform \<Rightarrow> pin_env \<Rightarrow> u16 \<Rightarrow> bytes option \<Rightarrow> bytes option \<Rightarrow> int \<Rightarrow> 'w io_binding \<Rightarrow> io_binding_result_t \<times> 'w io_binding" where
  "io_binding_set_output P D ident name role gpio = io_binding_set_output_ex P D ident name role backend_GPIO gpio 0 gpio"

definition reset_channel :: "'w platform \<Rightarrow> bool \<Rightarrow> pin_env \<Rightarrow> u16 \<Rightarrow> 'w io_binding \<Rightarrow> io_binding_result_t \<times> 'w io_binding" where
  "reset_channel P inp D ident s =
     (case channel_profile inp ident of None \<Rightarrow> (IO_BINDING_RESULT_NOT_FOUND, s)
      | Some (pname, pgpio) \<Rightarrow> io_binding_set_channel P inp D ident (Some pname) (Some (default_role inp)) backend_GPIO pgpio 0 pgpio s)"

definition io_binding_reset_input :: "'w platform \<Rightarrow> pin_env \<Rightarrow> u16 \<Rightarrow> 'w io_binding \<Rightarrow> io_binding_result_t \<times> 'w io_binding" where
  "io_binding_reset_input P = reset_channel P True"

definition io_binding_reset_output :: "'w platform \<Rightarrow> pin_env \<Rightarrow> u16 \<Rightarrow> 'w io_binding \<Rightarrow> io_binding_result_t \<times> 'w io_binding" where
  "io_binding_reset_output P = reset_channel P False"

subsection \<open>Initialisation\<close>

definition analog_slots :: "(u16 \<times> int \<times> int) list" where
  "analog_slots = [(ENDAP_INPUT_ID 12, 34, 6), (ENDAP_INPUT_ID 13, 35, 7), (ENDAP_INPUT_ID 14, 36, 0), (ENDAP_INPUT_ID 15, 39, 3)]"

text \<open>One slot of \<open>io_binding_ensure_analog_inputs\<close>; a full table ends the loop, which adds nothing either way.\<close>

definition ensure_slot :: "u16 \<times> int \<times> int \<Rightarrow> io_binding_entry_t list \<times> bool \<Rightarrow> io_binding_entry_t list \<times> bool" where
  "ensure_slot slot st =
     (case slot of (ident, gpio, endpoint) \<Rightarrow> case st of (es, changed) \<Rightarrow>
      case channel_profile True ident of None \<Rightarrow> st
      | Some (pname, pgpio) \<Rightarrow>
          if pgpio = GPIO_NUM_NC then st
          else if \<exists>e \<in> set es. be_id e = ident \<or> be_backend e = backend_GPIO \<and> be_gpio e = of_int gpio then st
          else if length es \<ge> IO_BINDING_MAX_INPUTS then st
          else (es @ [prepare_entry True ident (Some pname) (Some (default_role True)) backend_ADC_NATIVE gpio 0 endpoint pname], True))"

definition io_binding_ensure_analog_inputs :: "'w platform \<Rightarrow> 'w io_binding \<Rightarrow> 'w io_binding" where
  "io_binding_ensure_analog_inputs P s =
     (if length (ib_inputs s) \<ge> IO_BINDING_MAX_INPUTS then s
      else case fold ensure_slot analog_slots (ib_inputs s, False) of (es, changed) \<Rightarrow>
        let s = s\<lparr>ib_inputs := es\<rparr> in if changed then io_binding_persist_inputs P s else s)"

definition default_input :: "device_input_profile_t \<Rightarrow> io_binding_entry_t" where
  "default_input p =
     (let analog = dip_gpio p \<in> {34, 35, 36, 39};
          endpoint = adc_endpoint (dip_gpio p) (dip_gpio p)
      in prepare_entry True (dip_id p) (Some (dip_name p)) (Some (default_role True))
           (if analog then backend_ADC_NATIVE else backend_GPIO) (dip_gpio p) 0 endpoint (dip_name p))"

definition io_binding_apply_input_defaults :: "'w platform \<Rightarrow> 'w io_binding \<Rightarrow> 'w io_binding" where
  "io_binding_apply_input_defaults P s =
     io_binding_ensure_analog_inputs P
       (s\<lparr>ib_inputs := map default_input (take ENDAP_DEFAULT_ACTIVE_INPUTS input_profile)\<rparr>)"

definition default_output :: "device_output_profile_t \<Rightarrow> io_binding_entry_t" where
  "default_output p = prepare_entry False (dop_id p) (Some (dop_name p)) (Some (default_role False)) backend_GPIO
     (dop_gpio p) 0 (dop_gpio p) (dop_name p)"

definition io_binding_apply_output_defaults :: "'w io_binding \<Rightarrow> 'w io_binding" where
  "io_binding_apply_output_defaults s =
     s\<lparr>ib_outputs := map default_output (take ENDAP_DEFAULT_ACTIVE_OUTPUTS output_profile)\<rparr>"

text \<open>
  A GPIO entry whose address is in use in the other table takes the pin of its profile. The loop over a table reads only the
  other one.
\<close>

definition cross_conflict :: "bool \<Rightarrow> io_binding_entry_t list \<Rightarrow> io_binding_entry_t \<Rightarrow> bool" where
  "cross_conflict inp other e \<longleftrightarrow>
     channel_profile inp (be_id e) \<noteq> None \<and> be_backend e = backend_GPIO \<and>
     io_binding_address_in_use other backend_GPIO 0 (sint (be_gpio e)) 0"

definition revert_entry :: "bool \<Rightarrow> io_binding_entry_t list \<Rightarrow> io_binding_entry_t \<Rightarrow> io_binding_entry_t" where
  "revert_entry inp other e =
     (if cross_conflict inp other e
      then case channel_profile inp (be_id e) of
        Some (_, pgpio) \<Rightarrow> e\<lparr>be_gpio := of_int pgpio, be_endpoint_index := of_int pgpio\<rparr> | None \<Rightarrow> e
      else e)"

definition io_binding_resolve_cross_conflicts_after_load :: "'w platform \<Rightarrow> 'w io_binding \<Rightarrow> 'w io_binding" where
  "io_binding_resolve_cross_conflicts_after_load P s =
     (let ins = ib_inputs s; outs = map (revert_entry False ins) (ib_outputs s); ins' = map (revert_entry True outs) ins;
          changed = (\<exists>e \<in> set (ib_outputs s). cross_conflict False ins e) \<or> (\<exists>e \<in> set ins. cross_conflict True outs e);
          s = s\<lparr>ib_outputs := outs, ib_inputs := ins'\<rparr>
      in if changed then io_binding_persist_outputs P (io_binding_persist_inputs P s) else s)"

definition default_pin_kept :: "u16 \<Rightarrow> int \<Rightarrow> io_binding_entry_t list \<Rightarrow> bool" where
  "default_pin_kept ident gpio es =
     (case io_binding_find_entry ident es of None \<Rightarrow> False
      | Some i \<Rightarrow> be_backend (es ! i) = backend_GPIO \<and> be_gpio (es ! i) = of_int gpio)"

definition migration_needed :: "io_binding_entry_t list \<Rightarrow> io_binding_entry_t list \<Rightarrow> bool" where
  "migration_needed ins outs \<longleftrightarrow>
     length ins < ENDAP_DEFAULT_ACTIVE_INPUTS \<or> length outs < ENDAP_DEFAULT_ACTIVE_OUTPUTS \<or>
     (\<exists>p \<in> set (take ENDAP_DEFAULT_ACTIVE_INPUTS input_profile). \<not> default_pin_kept (dip_id p) (dip_gpio p) ins) \<or>
     (\<exists>p \<in> set (take ENDAP_DEFAULT_ACTIVE_OUTPUTS output_profile). \<not> default_pin_kept (dop_id p) (dop_gpio p) outs) \<or>
     (\<exists>e \<in> set ins. be_backend e = backend_GPIO \<and> (be_gpio e = 33 \<or>
        (\<exists>o' \<in> set outs. be_backend o' = backend_GPIO \<and> be_gpio o' = be_gpio e \<and> be_gpio e \<noteq> of_int GPIO_NUM_NC))) \<or>
     (\<exists>o' \<in> set outs. be_backend o' = backend_GPIO \<and> be_gpio o' = 26)"

definition io_binding_validate_and_migrate_nvs :: "'w platform \<Rightarrow> 'w io_binding \<Rightarrow> 'w io_binding" where
  "io_binding_validate_and_migrate_nvs P s =
     (if \<not> migration_needed (ib_inputs s) (ib_outputs s) then s
      else io_binding_persist_outputs P (io_binding_persist_inputs P
             (io_binding_apply_output_defaults (io_binding_apply_input_defaults P s))))"

definition io_binding_init :: "'w platform \<Rightarrow> pin_env \<Rightarrow> 'w io_binding \<Rightarrow> 'w io_binding" where
  "io_binding_init P D s =
     (let s = s\<lparr>ib_gpio_restart_required := False\<rparr>;
          s = io_binding_apply_input_defaults P s;
          s = io_binding_apply_output_defaults s;
          s = io_binding_load_inputs P D s;
          s = io_binding_ensure_analog_inputs P s;
          s = io_binding_load_outputs P D s;
          s = io_binding_resolve_cross_conflicts_after_load P s
      in io_binding_validate_and_migrate_nvs P s)"

subsection \<open>Views\<close>

text \<open>Signed and two-digit decimal numbers as \<open>printf\<close> writes them.\<close>

definition c_dec :: "int \<Rightarrow> bytes" where
  "c_dec i = (if i < 0 then 45 # c_udec (nat (- i)) else c_udec (nat i))"

definition c_udec2 :: "u32 \<Rightarrow> bytes" where
  "c_udec2 n = (if n < 10 then 48 # c_udec (unat n) else c_udec (unat n))"

definition io_binding_channel_address_text :: "u8 \<Rightarrow> int \<Rightarrow> int \<Rightarrow> int \<Rightarrow> bytes" where
  "io_binding_channel_address_text backend backend_instance endpoint_index gpio = c_snprintf IO_BINDING_ADDR_LEN
     (if backend = backend_GPIO then str_bytes ''GPIO'' @ c_dec gpio
      else if backend = backend_MCP23X17
      then str_bytes ''MCP'' @ c_dec backend_instance @ str_bytes '':'' @ str_bytes (io_binding_mcp_endpoint_label endpoint_index)
      else if backend = backend_ADC_NATIVE then str_bytes ''ADC'' @ c_dec endpoint_index
      else if backend = backend_ADC_EXTERNAL
      then str_bytes ''ADCX'' @ c_dec backend_instance @ str_bytes '':'' @ c_dec endpoint_index
      else str_bytes ''N/A'')"

text \<open>The view of a channel, without the prose of its description.\<close>

record io_binding_view_t =
  bv_id :: u16
  bv_gpio :: int
  bv_default_gpio :: int
  bv_backend_instance :: int
  bv_endpoint_index :: int
  bv_backend :: u8
  bv_channel_class :: u8
  bv_configurable_now :: bool
  bv_expansion_path :: bool
  bv_backend_name :: bytes
  bv_address :: bytes
  bv_name :: bytes
  bv_role :: bytes

definition get_channel :: "bool \<Rightarrow> u16 \<Rightarrow> 'w io_binding \<Rightarrow> io_binding_view_t option" where
  "get_channel inp ident s =
     (let es = table_of inp s in
      case io_binding_find_entry ident es of None \<Rightarrow> None
      | Some i \<Rightarrow> case channel_profile inp ident of None \<Rightarrow> None
        | Some (_, pgpio) \<Rightarrow> let e = es ! i in Some
            \<lparr>bv_id = ident, bv_gpio = sint (be_gpio e), bv_default_gpio = pgpio,
             bv_backend_instance = sint (be_backend_instance e), bv_endpoint_index = sint (be_endpoint_index e),
             bv_backend = be_backend e, bv_channel_class = be_channel_class e,
             bv_configurable_now = be_backend e = backend_GPIO \<or> be_backend e = backend_MCP23X17,
             bv_expansion_path = be_backend e \<noteq> backend_GPIO,
             bv_backend_name = io_binding_copy_text IO_BINDING_BACKEND_LABEL_LEN
               (Some (str_bytes (io_binding_backend_label (be_backend e)))),
             bv_address = io_binding_channel_address_text (be_backend e) (sint (be_backend_instance e))
               (sint (be_endpoint_index e)) (sint (be_gpio e)),
             bv_name = io_binding_copy_text IO_BINDING_NAME_LEN (Some (be_name e)),
             bv_role = io_binding_copy_text IO_BINDING_ROLE_LEN (Some (be_role e))\<rparr>)"

definition io_binding_get_input :: "u16 \<Rightarrow> 'w io_binding \<Rightarrow> io_binding_view_t option" where
  "io_binding_get_input = get_channel True"

definition io_binding_get_output :: "u16 \<Rightarrow> 'w io_binding \<Rightarrow> io_binding_view_t option" where
  "io_binding_get_output = get_channel False"

text \<open>
  The returned number, and the views written to the buffer. A channel that is not found leaves its place as it was (\<open>None\<close>).
\<close>

definition io_binding_export_inputs :: "bool \<Rightarrow> int \<Rightarrow> 'w io_binding \<Rightarrow> int \<times> io_binding_view_t option list" where
  "io_binding_export_inputs out max_inputs s =
     (if \<not> out \<or> max_inputs \<le> 0 then (int (length (ib_inputs s)), [])
      else (min (int (length (ib_inputs s))) max_inputs,
            map (\<lambda>e. io_binding_get_input (be_id e) s) (take (nat max_inputs) (ib_inputs s))))"

definition io_binding_export_outputs :: "bool \<Rightarrow> int \<Rightarrow> 'w io_binding \<Rightarrow> int \<times> io_binding_view_t option list" where
  "io_binding_export_outputs out max_outputs s =
     (if \<not> out \<or> max_outputs \<le> 0 then (int (length (ib_outputs s)), [])
      else (min (int (length (ib_outputs s))) max_outputs,
            map (\<lambda>e. io_binding_get_output (be_id e) s) (take (nat max_outputs) (ib_outputs s))))"

definition io_binding_mcp_instance_count :: int where
  "io_binding_mcp_instance_count =
     (let count = int (unat (ec_recommended_mcp_instances expansion_capabilities)) in
      if \<not> ec_supports_mcp23x17 expansion_capabilities then 0 else if count \<le> 0 then 1 else count)"

record io_binding_mcp_instance_view_t =
  mi_instance :: int
  mi_channel_capacity :: int
  mi_active_inputs :: nat
  mi_active_outputs :: nat
  mi_active_total :: nat
  mi_configurable_now :: bool
  mi_runtime_contract_ready :: bool
  mi_hardware_runtime_ready :: bool
  mi_label :: bytes

definition mcp_count :: "int \<Rightarrow> io_binding_entry_t list \<Rightarrow> nat" where
  "mcp_count inst es = length (filter (\<lambda>e. be_backend e = backend_MCP23X17 \<and> sint (be_backend_instance e) = inst) es)"

definition io_binding_export_mcp_instances :: "bool \<Rightarrow> int \<Rightarrow> 'w io_binding \<Rightarrow> int \<times> io_binding_mcp_instance_view_t list" where
  "io_binding_export_mcp_instances out max_instances s =
     (let total = io_binding_mcp_instance_count in
      (total, if \<not> out \<or> max_instances \<le> 0 then []
       else map (\<lambda>inst. let ins = mcp_count inst (ib_inputs s); outs = mcp_count inst (ib_outputs s) in
          \<lparr>mi_instance = inst, mi_channel_capacity = 16, mi_active_inputs = ins, mi_active_outputs = outs,
           mi_active_total = ins + outs, mi_configurable_now = io_binding_backend_selectable_now backend_MCP23X17 True,
           mi_runtime_contract_ready = True, mi_hardware_runtime_ready = False,
           mi_label = c_snprintf IO_BINDING_BACKEND_LABEL_LEN (str_bytes ''MCP'' @ c_dec inst)\<rparr>)
         (map int [0..<nat (min total max_instances)])))"

record io_binding_mcp_endpoint_view_t =
  me_instance :: int
  me_endpoint_index :: int
  me_occupied :: bool
  me_configurable_now :: bool
  me_runtime_contract_ready :: bool
  me_hardware_runtime_ready :: bool
  me_input_bound :: bool
  me_output_bound :: bool
  me_bound_id :: u16
  me_endpoint_label :: bytes
  me_address :: bytes
  me_direction :: bytes
  me_name :: bytes
  me_role :: bytes

definition mcp_bound :: "int \<Rightarrow> int \<Rightarrow> io_binding_entry_t list \<Rightarrow> io_binding_entry_t option" where
  "mcp_bound inst endpoint es = map_option ((!) es) (find_index (\<lambda>e. be_backend e = backend_MCP23X17 \<and>
     sint (be_backend_instance e) = inst \<and> sint (be_endpoint_index e) = endpoint) es)"

definition mcp_endpoint_view :: "int \<Rightarrow> int \<Rightarrow> 'w io_binding \<Rightarrow> io_binding_mcp_endpoint_view_t" where
  "mcp_endpoint_view inst endpoint s =
     (let i = mcp_bound inst endpoint (ib_inputs s); o' = mcp_bound inst endpoint (ib_outputs s);
          bound = (case i of Some e \<Rightarrow> Some e | None \<Rightarrow> o')
      in \<lparr>me_instance = inst, me_endpoint_index = endpoint, me_occupied = i \<noteq> None \<or> o' \<noteq> None,
          me_configurable_now = io_binding_backend_selectable_now backend_MCP23X17 True,
          me_runtime_contract_ready = True, me_hardware_runtime_ready = False,
          me_input_bound = i \<noteq> None, me_output_bound = o' \<noteq> None,
          me_bound_id = (case bound of Some e \<Rightarrow> be_id e | None \<Rightarrow> 0),
          me_endpoint_label = io_binding_copy_text 8 (Some (str_bytes (io_binding_mcp_endpoint_label endpoint))),
          me_address = io_binding_channel_address_text backend_MCP23X17 inst endpoint GPIO_NUM_NC,
          me_direction = io_binding_copy_text 16
            (Some (str_bytes (if i \<noteq> None then ''input'' else if o' \<noteq> None then ''output'' else ''free''))),
          me_name = (case bound of Some e \<Rightarrow> io_binding_copy_text IO_BINDING_NAME_LEN (Some (be_name e))
                     | None \<Rightarrow> replicate IO_BINDING_NAME_LEN 0),
          me_role = (case bound of Some e \<Rightarrow> io_binding_copy_text IO_BINDING_ROLE_LEN (Some (be_role e))
                     | None \<Rightarrow> replicate IO_BINDING_ROLE_LEN 0)\<rparr>)"

definition io_binding_export_mcp_endpoints ::
    "int \<Rightarrow> bool \<Rightarrow> int \<Rightarrow> 'w io_binding \<Rightarrow> int \<times> io_binding_mcp_endpoint_view_t list" where
  "io_binding_export_mcp_endpoints inst out max_endpoints s =
     (let total = int (unat (ec_channels_per_mcp expansion_capabilities)); total = (if total \<le> 0 then 16 else total) in
      if \<not> io_binding_mcp_address_valid inst 0 then (0, [])
      else if \<not> out \<or> max_endpoints \<le> 0 then (total, [])
      else (total, map (\<lambda>endpoint. mcp_endpoint_view inst (int endpoint) s) [0..<nat (min total max_endpoints)]))"

definition input_plc_channel :: "io_binding_entry_t \<Rightarrow> bytes \<Rightarrow> bytes" where
  "input_plc_channel e old =
     (if be_channel_class e = class_ANALOG_INPUT
      then c_snprintf 8 (str_bytes ''AI'' @ c_udec2 (of_int (uint (be_id e) - uint (ENDAP_INPUT_ID 12))))
      else if be_id e \<ge> ENDAP_INPUT_BASE_ID \<and> be_id e < ENDAP_INPUT_BASE_ID + 16
      then c_snprintf 8 (str_bytes ''DI'' @ c_udec2 (ucast (be_id e) - ucast ENDAP_INPUT_BASE_ID))
      else old)"

definition output_plc_channel :: "io_binding_entry_t \<Rightarrow> bytes \<Rightarrow> bytes" where
  "output_plc_channel e old =
     (if be_id e \<ge> ENDAP_OUTPUT_BASE_ID \<and> be_id e < ENDAP_OUTPUT_BASE_ID + 16
      then c_snprintf 8 (str_bytes ''DO'' @ c_udec2 (ucast (be_id e) - ucast ENDAP_OUTPUT_BASE_ID))
      else old)"

text \<open>The occupation of one pin of the inventory by the first input, or else the first output, that is bound to it.\<close>

definition occupy_pin :: "'w io_binding \<Rightarrow> device_gpio_inventory_item_t \<Rightarrow> device_gpio_inventory_item_t" where
  "occupy_pin s item =
     (if gi_state item = DEVICE_GPIO_STATE_RESERVED then item
      else case find_index (\<lambda>e. (be_backend e = backend_GPIO \<or> be_backend e = backend_ADC_NATIVE) \<and>
                  sint (be_gpio e) = gi_gpio item) (ib_inputs s) of
        Some i \<Rightarrow> let e = ib_inputs s ! i in
          item\<lparr>gi_state := DEVICE_GPIO_STATE_IN_USE_INPUT, gi_state_str := ''IN_USE_INPUT'', gi_bound_id := be_id e,
               gi_bound_name := Some (be_name e), gi_bound_role := Some (be_role e),
               gi_plc_channel := input_plc_channel e (gi_plc_channel item)\<rparr>
      | None \<Rightarrow>
          case find_index (\<lambda>e. be_backend e = backend_GPIO \<and> sint (be_gpio e) = gi_gpio item) (ib_outputs s) of
            Some i \<Rightarrow> let e = ib_outputs s ! i in
              item\<lparr>gi_state := DEVICE_GPIO_STATE_IN_USE_OUTPUT, gi_state_str := ''IN_USE_OUTPUT'', gi_bound_id := be_id e,
                   gi_bound_name := Some (be_name e), gi_bound_role := Some (be_role e),
                   gi_plc_channel := output_plc_channel e (gi_plc_channel item)\<rparr>
          | None \<Rightarrow> item)"

definition io_binding_export_gpio_inventory :: "pin_env \<Rightarrow> bool \<Rightarrow> int \<Rightarrow> 'w io_binding \<Rightarrow> device_gpio_inventory_item_t list" where
  "io_binding_export_gpio_inventory D out max_items s =
     (if \<not> out \<or> max_items \<le> 0 then []
      else map (\<lambda>g. occupy_pin s (inventory_item (fst D) (snd D) g)) (take (nat max_items) hardware_monitored_gpios))"

definition io_binding_gpio_restart_required :: "'w io_binding \<Rightarrow> bool" where
  "io_binding_gpio_restart_required s = ib_gpio_restart_required s"

section \<open>Storage of a table\<close>

definition entry_wf :: "io_binding_entry_t \<Rightarrow> bool" where
  "entry_wf e \<longleftrightarrow> length (be_name e) = 24 \<and> length (be_role e) = 24"

lemma prepare_entry_wf [simp]: "entry_wf (prepare_entry inp i n r b g k p pn)"
  by (simp add: entry_wf_def prepare_entry_def io_binding_copy_text_def binding_sizes)

lemma length_binding_entry_bytes: "entry_wf e \<Longrightarrow> length (binding_entry_bytes e) = SIZEOF_BINDING_ENTRY"
  by (simp add: binding_entry_bytes_def entry_wf_def binding_blob_sizes)

lemma binding_entry_of_bytes: "entry_wf e \<Longrightarrow> binding_entry_of (binding_entry_bytes e) = e"
proof -
  assume "entry_wf e"
  moreover have "binding_entry_bytes e = (le16 (be_id e) @ le16 (be_gpio e) @ le16 (be_backend_instance e) @ le16 (be_endpoint_index e) @
      [be_backend e, be_channel_class e] @ le16 (be_reserved0 e)) @ be_name e @ be_role e" by (simp add: binding_entry_bytes_def)
  moreover have "length (le16 (be_id e) @ le16 (be_gpio e) @ le16 (be_backend_instance e) @ le16 (be_endpoint_index e) @
      [be_backend e, be_channel_class e] @ le16 (be_reserved0 e)) = 12" by simp
  ultimately have "take 24 (drop 12 (binding_entry_bytes e)) = be_name e" "take 24 (drop 36 (binding_entry_bytes e)) = be_role e"
    by (simp_all add: entry_wf_def)
  moreover have "of_le16 (binding_entry_bytes e) = be_id e" "of_le16 (drop 2 (binding_entry_bytes e)) = be_gpio e"
    "of_le16 (drop 4 (binding_entry_bytes e)) = be_backend_instance e" "of_le16 (drop 6 (binding_entry_bytes e)) = be_endpoint_index e"
    "of_le16 (drop 10 (binding_entry_bytes e)) = be_reserved0 e"
    by (simp_all add: binding_entry_bytes_def)
  moreover have "binding_entry_bytes e ! 8 = be_backend e" "binding_entry_bytes e ! 9 = be_channel_class e"
    by (simp_all add: binding_entry_bytes_def le16_def)
  ultimately show ?thesis by (cases e) (simp add: binding_entry_of_def)
qed

lemma length_binding_body:
  assumes "\<forall>e \<in> set es. entry_wf e" "length es \<le> IO_BINDING_MAX_INPUTS"
  shows "length (binding_body inp es) = 968"
proof -
  have "length (concat (map binding_entry_bytes es)) = 60 * length es"
    using assms(1) by (induction es) (simp_all add: length_binding_entry_bytes binding_blob_sizes)
  then show ?thesis using assms(2) by (simp add: binding_body_def binding_sizes binding_blob_sizes)
qed

text \<open>A stored table passes the checks of the header and the checksum, and its entries are those of the table.\<close>

lemma binding_blob_decodes:
  assumes "\<forall>e \<in> set es. entry_wf e" "length es \<le> IO_BINDING_MAX_INPUTS"
  shows "length (binding_blob inp es) = SIZEOF_BINDING_BLOB" "binding_crc_ok (binding_blob inp es)"
    "unat (of_le16 (drop 6 (binding_blob inp es))) = length es"
    "map binding_entry_of (blob_entries SIZEOF_BINDING_ENTRY (length es) (binding_blob inp es)) = es"
proof -
  show l: "length (binding_blob inp es) = SIZEOF_BINDING_BLOB"
    by (simp add: binding_blob_def length_binding_body [OF assms] binding_blob_sizes)
  then show "binding_crc_ok (binding_blob inp es)"
    by (simp add: binding_crc_ok_def binding_blob_sizes) (simp add: binding_blob_def length_binding_body [OF assms])
  show "unat (of_le16 (drop 6 (binding_blob inp es))) = length es"
    using assms(2) by (simp add: binding_blob_def binding_body_def binding_sizes)
  obtain rest where r: "drop 8 (binding_blob inp es) = concat (map binding_entry_bytes es) @ rest"
    by (simp add: binding_blob_def binding_body_def)
  have "take SIZEOF_BINDING_ENTRY (drop (SIZEOF_BINDING_ENTRY * i) (drop 8 (binding_blob inp es))) = binding_entry_bytes (es ! i)"
    if "i < length es" for i
    using take_drop_concat [of "map binding_entry_bytes es" SIZEOF_BINDING_ENTRY i rest] assms(1) that
    unfolding r by (simp add: length_binding_entry_bytes)
  then have "blob_entries SIZEOF_BINDING_ENTRY (length es) (binding_blob inp es) = map binding_entry_bytes es"
    by (intro nth_equalityI) (simp_all add: blob_entries_def)
  then show "map binding_entry_of (blob_entries SIZEOF_BINDING_ENTRY (length es) (binding_blob inp es)) = es"
    using assms(1) by (simp add: binding_entry_of_bytes map_idI)
qed

lemma binding_table_simps [simp]:
  "table_of inp (set_table inp es s) = es" "table_of (\<not> inp) (set_table inp es s) = table_of (\<not> inp) s"
  "table_of True s = ib_inputs s" "table_of False s = ib_outputs s"
  "table_of inp (s\<lparr>ib_world := w\<rparr>) = table_of inp s" "table_of inp (s\<lparr>ib_gpio_restart_required := b\<rparr>) = table_of inp s"
  "ib_world (set_table inp es s) = ib_world s"
  by (simp_all add: table_of_def set_table_def)

lemma persist_keeps_tables [simp]:
  "table_of i (persist_table P inp s) = table_of i s" "ib_inputs (persist_table P inp s) = ib_inputs s"
  "ib_outputs (persist_table P inp s) = ib_outputs s"
  by (simp_all add: persist_table_def table_of_def)

text \<open>Reading a table that was stored gives the table, or leaves the one in memory when it is not accepted.\<close>

lemma load_stored_table:
  assumes "nvs_read_law P" "nvs_holds P IO_BINDING_NAMESPACE (binding_key inp) (binding_blob inp es) (ib_world s)"
    and "\<forall>e \<in> set es. entry_wf e" "length es \<le> IO_BINDING_MAX_INPUTS"
  shows "table_of inp (load_table P inp (load_v3 inp D) (load_v2 P inp D) (load_v1 P inp) s) \<in> {es, table_of inp s}"
    "(\<forall>i < length es. loaded_entry_ok inp D es i) \<Longrightarrow> table_of inp (load_table P inp (load_v3 inp D) (load_v2 P inp D) (load_v1 P inp) s) = es"
    "table_of (\<not> inp) (load_table P inp (load_v3 inp D) (load_v2 P inp D) (load_v1 P inp) s) = table_of (\<not> inp) s"
proof -
  note blob = binding_blob_decodes [OF assms(3,4), of inp]
  obtain h w1 where o: "nvs_open P IO_BINDING_NAMESPACE NVS_READONLY (ib_world s) = (ESP_OK, h, w1)"
    using assms(2) by (auto simp: nvs_holds_def)
  then obtain w2 where g: "nvs_get_blob P h (binding_key inp) SIZEOF_BINDING_BLOB w1 = (ESP_OK, binding_blob inp es, w2)"
    using assms(1,2) blob(1) unfolding nvs_read_law_def by (metis order_refl)
  have hd: "binding_header_ok inp {IO_BINDING_VERSION, IO_BINDING_VERSION_V3} (binding_blob inp es)"
    using blob(3) assms(4) by (simp add: binding_header_ok_def) (simp add: binding_blob_def binding_body_def)
  have "load_table P inp (load_v3 inp D) (load_v2 P inp D) (load_v1 P inp) s = snd (load_v3 inp D (binding_blob inp es) (s\<lparr>ib_world := nvs_close P h w2\<rparr>))"
    by (simp add: load_table_def o g blob(1,2))
  then have eq: "load_table P inp (load_v3 inp D) (load_v2 P inp D) (load_v1 P inp) s =
      (if \<forall>i < length es. loaded_entry_ok inp D es i then set_table inp es (s\<lparr>ib_world := nvs_close P h w2\<rparr>)
       else s\<lparr>ib_world := nvs_close P h w2\<rparr>)"
    by (auto simp: load_v3_def hd blob(3,4) Let_def)
  then show "table_of inp (load_table P inp (load_v3 inp D) (load_v2 P inp D) (load_v1 P inp) s) \<in> {es, table_of inp s}"
    "(\<forall>i < length es. loaded_entry_ok inp D es i) \<Longrightarrow> table_of inp (load_table P inp (load_v3 inp D) (load_v2 P inp D) (load_v1 P inp) s) = es"
    "table_of (\<not> inp) (load_table P inp (load_v3 inp D) (load_v2 P inp D) (load_v1 P inp) s) = table_of (\<not> inp) s" by simp_all
qed

lemma load_other_table [simp]: "table_of (\<not> inp) (load_table P inp (load_v3 inp D) (load_v2 P inp D) (load_v1 P inp) s) = table_of (\<not> inp) s"
  by (simp add: load_table_def load_v3_def load_v2_def load_v1_def load_older_def Let_def split: prod.split)

lemma load_outputs_inputs [simp]: "ib_inputs (io_binding_load_outputs P D s) = ib_inputs s"
  using load_other_table [of False P D s] by (simp add: io_binding_load_outputs_def load_versions)

section \<open>What a boot restores\<close>

lemma input_ids:
  "map dip_id input_profile = [10, 11, 12, 13, 14, 15, 16, 17, 18, 19, 20, 21, 22, 23, 24, 25]"
  "map dip_gpio input_profile = [16, 17, 21, -1, 27, 26, 18, 19, 23, 32, 33, 25, 34, 35, 36, 39]"
  by (simp_all add: input_profile_def ENDAP_INPUT_ID_def ENDAP_INPUT_BASE_ID_def GPIO_NUM_NC_def)

lemma output_ids:
  "map dop_id output_profile = [100, 101, 102, 103, 104, 105, 106, 107, 108, 109, 110, 111, 112, 113, 114, 115]"
  "map dop_gpio output_profile = [22, 4, 5, 14, -1, 33, 13, 16, 17, 18, 19, 21, 22, 23, -1, 32]"
  by (simp_all add: output_profile_def ENDAP_OUTPUT_ID_def ENDAP_OUTPUT_BASE_ID_def GPIO_NUM_NC_def)

text \<open>Identifier, pin, endpoint and backend of the default inputs.\<close>

definition entry_key :: "io_binding_entry_t \<Rightarrow> u16 \<times> i16 \<times> i16 \<times> i16 \<times> u8" where
  "entry_key e = (be_id e, be_gpio e, be_backend_instance e, be_endpoint_index e, be_backend e)"

lemma prepare_entry_sel [simp]:
  "be_id (prepare_entry inp i n r b g k p pn) = i" "be_gpio (prepare_entry inp i n r b g k p pn) = of_int g"
  "be_backend_instance (prepare_entry inp i n r b g k p pn) = of_int k"
  "be_endpoint_index (prepare_entry inp i n r b g k p pn) = of_int p" "be_backend (prepare_entry inp i n r b g k p pn) = b"
  "be_channel_class (prepare_entry inp i n r b g k p pn) = channel_class_of inp b"
  by (simp_all add: prepare_entry_def)

lemma find_by_key:
  "distinct (map f xs) \<Longrightarrow> x \<in> set xs \<Longrightarrow> map_option ((!) xs) (find_index (\<lambda>y. f y = f x) xs) = Some x"
proof (induction xs)
  case (Cons a xs)
  show ?case
  proof (cases "f a = f x")
    case True
    with Cons.prems have "a = x" by (auto simp: image_iff)
    then show ?thesis by simp
  next
    case False
    with Cons have "map_option ((!) xs) (find_index (\<lambda>y. f y = f x) xs) = Some x" by auto
    with False show ?thesis by (auto simp: option.map_comp comp_def)
  qed
qed simp

lemma find_in_profile:
  "p \<in> set input_profile \<Longrightarrow> device_profile_find_input (dip_id p) = Some p"
  "q \<in> set output_profile \<Longrightarrow> device_profile_find_output (dop_id q) = Some q"
  unfolding device_profile_find_input_def device_profile_find_output_def
  by (rule find_by_key; simp add: input_ids output_ids)+

lemma channel_profile_table:
  "p \<in> set input_profile \<Longrightarrow> channel_profile True (dip_id p) = Some (dip_name p, dip_gpio p)"
  "q \<in> set output_profile \<Longrightarrow> channel_profile False (dop_id q) = Some (dop_name q, dop_gpio q)"
  by (simp_all add: channel_profile_def find_in_profile)

lemma analog_slots_eq: "analog_slots = [(22, 34, 6), (23, 35, 7), (24, 36, 0), (25, 39, 3)]"
  by (simp add: analog_slots_def ENDAP_INPUT_ID_def ENDAP_INPUT_BASE_ID_def)

lemma analog_profiles:
  "channel_profile True 22 = Some (str_bytes ''GPIO34'', 34)" "channel_profile True 23 = Some (str_bytes ''GPIO35'', 35)"
  "channel_profile True 24 = Some (str_bytes ''GPIO36'', 36)" "channel_profile True 25 = Some (str_bytes ''GPIO39'', 39)"
  by (simp_all add: channel_profile_def device_profile_find_input_def input_profile_def ENDAP_INPUT_ID_def ENDAP_INPUT_BASE_ID_def)

definition analog_entry :: "u16 \<times> int \<times> int \<Rightarrow> io_binding_entry_t" where
  "analog_entry slot = (case slot of (ident, gpio, endpoint) \<Rightarrow>
     let pname = (case channel_profile True ident of Some (n, _) \<Rightarrow> n | None \<Rightarrow> [])
     in prepare_entry True ident (Some pname) (Some (default_role True)) backend_ADC_NATIVE gpio 0 endpoint pname)"

lemma bound_key:
  "(\<exists>e \<in> set es. be_id e = ident \<or> be_backend e = backend_GPIO \<and> be_gpio e = g) \<longleftrightarrow>
   (\<exists>k \<in> set (map entry_key es). case k of (i, p, n, m, b) \<Rightarrow> i = ident \<or> b = backend_GPIO \<and> p = g)"
  by (auto simp: entry_key_def)

lemma ensure_slot_free:
  assumes "channel_profile True ident = Some (pname, gpio)" "gpio \<noteq> GPIO_NUM_NC" "length es < IO_BINDING_MAX_INPUTS"
    and "\<forall>k \<in> set (map entry_key es). case k of (i, p, n, m, b) \<Rightarrow> i \<noteq> ident \<and> (b = backend_GPIO \<longrightarrow> p \<noteq> of_int gpio)"
  shows "ensure_slot (ident, gpio, endpoint) (es, c) = (es @ [analog_entry (ident, gpio, endpoint)], True)"
proof -
  have "\<not> (\<exists>e \<in> set es. be_id e = ident \<or> be_backend e = backend_GPIO \<and> be_gpio e = of_int gpio)"
    using assms(4) unfolding bound_key by auto
  then show ?thesis using assms(1-3) by (auto simp: ensure_slot_def analog_entry_def)
qed

lemma ensure_slot_bound:
  assumes "\<exists>e \<in> set es. be_id e = fst slot"
  shows "ensure_slot slot (es, c) = (es, c)"
  using assms by (auto simp: ensure_slot_def split: prod.split option.split)

definition digital_inputs :: "io_binding_entry_t list" where
  "digital_inputs = map default_input (take ENDAP_DEFAULT_ACTIVE_INPUTS input_profile)"

lemma digital_keys:
  "map entry_key digital_inputs = [(10, 16, 0, 16, 0), (11, 17, 0, 17, 0), (12, 21, 0, 21, 0), (13, - 1, 0, - 1, 0),
     (14, 27, 0, 27, 0), (15, 26, 0, 26, 0)]"
  by (simp add: digital_inputs_def input_profile_def ENDAP_DEFAULT_ACTIVE_INPUTS_def default_input_def entry_key_def Let_def
      adc_endpoint_def ENDAP_INPUT_ID_def ENDAP_INPUT_BASE_ID_def GPIO_NUM_NC_def backends)

lemma analog_key: "entry_key (analog_entry (i, g, e)) = (i, of_int g, 0, of_int e, 2)"
  by (simp add: analog_entry_def entry_key_def Let_def backends)

lemma fold_analog:
  "fold ensure_slot analog_slots (digital_inputs, c) = (digital_inputs @ map analog_entry analog_slots, True)"
proof -
  have l: "length digital_inputs = 6" using arg_cong [OF digital_keys, of length] by simp
  show ?thesis
    unfolding analog_slots_eq
    by (simp add: ensure_slot_free [OF analog_profiles(1)] ensure_slot_free [OF analog_profiles(2)]
        ensure_slot_free [OF analog_profiles(3)] ensure_slot_free [OF analog_profiles(4)]
        digital_keys analog_key l GPIO_NUM_NC_def IO_BINDING_MAX_INPUTS_def backends del: set_map)
qed

text \<open>The inputs after \<open>io_binding_apply_input_defaults\<close>: the six digital defaults and the four analog channels.\<close>

definition default_inputs :: "io_binding_entry_t list" where
  "default_inputs = digital_inputs @ map analog_entry analog_slots"

definition default_outputs :: "io_binding_entry_t list" where
  "default_outputs = map default_output (take ENDAP_DEFAULT_ACTIVE_OUTPUTS output_profile)"

lemma length_defaults: "length digital_inputs = 6" "length default_inputs = 10" "length default_outputs = 6"
proof -
  show d: "length digital_inputs = 6" using arg_cong [OF digital_keys, of length] by simp
  then show "length default_inputs = 10" by (simp add: default_inputs_def analog_slots_eq)
  show "length default_outputs = 6"
    using arg_cong [OF output_ids(1), of length] by (simp add: default_outputs_def ENDAP_DEFAULT_ACTIVE_OUTPUTS_def)
qed

lemma defaults_wf: "\<forall>e \<in> set default_inputs. entry_wf e" "\<forall>e \<in> set default_outputs. entry_wf e"
  by (auto simp: default_inputs_def digital_inputs_def default_input_def Let_def analog_entry_def default_outputs_def default_output_def
      split: prod.split)

lemma apply_input_defaults_eq:
  "io_binding_apply_input_defaults P s = io_binding_persist_inputs P (s\<lparr>ib_inputs := default_inputs\<rparr>)"
  by (simp add: io_binding_apply_input_defaults_def io_binding_ensure_analog_inputs_def digital_inputs_def [symmetric]
      fold_analog length_defaults IO_BINDING_MAX_INPUTS_def default_inputs_def)

text \<open>A table that has the four analog channels is left as it is.\<close>

lemma ensure_defaults:
  assumes "ib_inputs s = default_inputs"
  shows "io_binding_ensure_analog_inputs P s = s"
proof -
  have "\<exists>e \<in> set default_inputs. be_id e = fst slot" if "slot \<in> set analog_slots" for slot
    using that by (intro bexI [of _ "analog_entry slot"]) (auto simp: default_inputs_def analog_entry_def Let_def split: prod.split)
  then have "\<forall>slot \<in> set analog_slots. ensure_slot slot (default_inputs, False) = (default_inputs, False)"
    by (blast intro: ensure_slot_bound)
  moreover have "fold f xs st = st" if "\<forall>x \<in> set xs. f x st = st"
    for f :: "u16 \<times> int \<times> int \<Rightarrow> io_binding_entry_t list \<times> bool \<Rightarrow> io_binding_entry_t list \<times> bool" and xs st
    using that by (induction xs) simp_all
  ultimately have "fold ensure_slot analog_slots (default_inputs, False) = (default_inputs, False)" by blast
  then show ?thesis by (simp add: io_binding_ensure_analog_inputs_def assms)
qed

text \<open>Reverting a default input to the pin of its profile changes nothing.\<close>

lemma revert_default_input:
  assumes "e \<in> set default_inputs"
  shows "revert_entry True other e = e"
proof (cases "e \<in> set digital_inputs")
  case True
  then obtain p where p: "p \<in> set (take ENDAP_DEFAULT_ACTIVE_INPUTS input_profile)" "e = default_input p"
    by (auto simp: digital_inputs_def)
  then have "channel_profile True (be_id e) = Some (dip_name p, dip_gpio p)"
    using channel_profile_table(1) [OF in_set_takeD [OF p(1)]] by (simp add: default_input_def Let_def)
  moreover have "dip_gpio p \<in> {16, 17, 21, - 1, 27, 26}"
    using p(1) arg_cong [OF input_ids(2), of "take 6"] by (force simp: ENDAP_DEFAULT_ACTIVE_INPUTS_def take_map)
  ultimately show ?thesis
    by (auto simp: revert_entry_def p(2) default_input_def Let_def adc_endpoint_def intro!: io_binding_entry_t.equality)
next
  case False
  then have "be_backend e = backend_ADC_NATIVE"
    using assms by (auto simp: default_inputs_def analog_entry_def Let_def split: prod.splits)
  then show ?thesis by (simp add: revert_entry_def cross_conflict_def backends)
qed

lemma resolve_keeps_default_inputs:
  "ib_inputs s = default_inputs \<Longrightarrow> ib_inputs (io_binding_resolve_cross_conflicts_after_load P s) = default_inputs"
  by (simp add: io_binding_resolve_cross_conflicts_after_load_def Let_def io_binding_persist_inputs_def io_binding_persist_outputs_def
      revert_default_input map_idI)

lemma migrate_keeps_default_inputs:
  "ib_inputs s = default_inputs \<Longrightarrow> ib_inputs (io_binding_validate_and_migrate_nvs P s) = default_inputs"
  by (simp add: io_binding_validate_and_migrate_nvs_def apply_input_defaults_eq io_binding_apply_output_defaults_def
      io_binding_persist_inputs_def io_binding_persist_outputs_def)

text \<open>
  C30: no input binding survives a reboot. The initialisation stores the default inputs before it reads the stored
  ones, so with a storage that works every boot ends with the default inputs, whatever was bound and stored before.
\<close>

theorem io_binding_inputs_lost_at_boot:
  assumes "nvs_durable P" "nvs_read_law P"
    and "nvs_accepts P IO_BINDING_NAMESPACE IO_BINDING_KEY_INPUTS (binding_blob True default_inputs) (ib_world s)"
  shows "ib_inputs (io_binding_init P D s) = default_inputs"
proof -
  define s1 where "s1 = io_binding_apply_output_defaults (io_binding_apply_input_defaults P (s\<lparr>ib_gpio_restart_required := False\<rparr>))"
  have in1: "ib_inputs s1 = default_inputs"
    by (simp add: s1_def apply_input_defaults_eq io_binding_apply_output_defaults_def io_binding_persist_inputs_def)
  have "fst (nvs_store P IO_BINDING_NAMESPACE (binding_key True) (binding_blob True default_inputs) (ib_world s))"
    using nvs_store_accepts [OF assms(3)] by (simp add: binding_key_def)
  then have "nvs_holds P IO_BINDING_NAMESPACE (binding_key True) (binding_blob True default_inputs)
      (snd (nvs_store P IO_BINDING_NAMESPACE (binding_key True) (binding_blob True default_inputs) (ib_world s)))"
    by (intro nvs_store_holds [OF assms(1)]) (simp add: prod_eq_iff)
  then have "nvs_holds P IO_BINDING_NAMESPACE (binding_key True) (binding_blob True default_inputs) (ib_world s1)"
    by (simp add: s1_def apply_input_defaults_eq io_binding_apply_output_defaults_def io_binding_persist_inputs_def persist_table_def)
  then have "ib_inputs (io_binding_load_inputs P D s1) = default_inputs"
    using load_stored_table(1) [OF assms(2) _ defaults_wf(1), of True s1 D] in1
    by (simp add: io_binding_load_inputs_def load_versions length_defaults IO_BINDING_MAX_INPUTS_def)
  then show ?thesis
    by (simp add: io_binding_init_def Let_def s1_def [symmetric] ensure_defaults resolve_keeps_default_inputs
        migrate_keeps_default_inputs)
qed

text \<open>The default bindings, and a world with working storage.\<close>

definition demo_binding :: "sim_world io_binding" where
  "demo_binding = \<lparr>ib_inputs = default_inputs, ib_outputs = default_outputs, ib_gpio_restart_required = False, ib_world = sim_init\<rparr>"

definition demo_pins :: pin_env where
  "demo_pins = (sensor_defaults, settle_policy (build_network_profile demo_build))"

theorem io_binding_inputs_lost_at_boot_witness:
  "ib_inputs (io_binding_init sim_platform demo_pins (snd (io_binding_set_input sim_platform demo_pins 10 None None 23 demo_binding))) =
   default_inputs"
proof (rule io_binding_inputs_lost_at_boot [OF sim_durable sim_reads])
  have w: "sim_nvs_ok (snd (nvs_store sim_platform ns k bs w)) = sim_nvs_ok w" for ns k bs and w :: sim_world
    by (simp add: nvs_store_def endap_nvs_commit_def)
  show "nvs_accepts sim_platform IO_BINDING_NAMESPACE IO_BINDING_KEY_INPUTS (binding_blob True default_inputs)
      (ib_world (snd (io_binding_set_input sim_platform demo_pins 10 None None 23 demo_binding)))"
    by (rule sim_accepts)
      (auto simp: io_binding_set_input_def io_binding_set_input_ex_def io_binding_set_channel_def Let_def change_table_def persist_table_def
        demo_binding_def sim_init_def w split: option.splits)
qed

section \<open>The default outputs\<close>

lemma default_output_kept:
  assumes "p \<in> set (take ENDAP_DEFAULT_ACTIVE_OUTPUTS output_profile)"
  shows "default_pin_kept (dop_id p) (dop_gpio p) default_outputs"
proof -
  have d: "distinct (map be_id default_outputs)"
    using arg_cong [OF output_ids(1), of "take 6"]
    by (simp add: default_outputs_def default_output_def comp_def take_map [symmetric] ENDAP_DEFAULT_ACTIVE_OUTPUTS_def)
  have "default_output p \<in> set default_outputs" using assms by (simp add: default_outputs_def)
  from find_by_key [OF d this] obtain i where "io_binding_find_entry (dop_id p) default_outputs = Some i" "default_outputs ! i = default_output p"
    by (auto simp: io_binding_find_entry_def default_output_def)
  then show ?thesis by (simp add: default_pin_kept_def default_output_def)
qed

text \<open>
  C40: after every boot each default output is bound to the pin of the board profile, whatever was stored: the validation
  takes another pin or backend of a default channel for an incompatible table and replaces both tables by the defaults.
\<close>

theorem io_binding_default_outputs_reverted:
  assumes "p \<in> set (take ENDAP_DEFAULT_ACTIVE_OUTPUTS output_profile)"
  shows "\<exists>i < length (ib_outputs (io_binding_init P D s)). let e = ib_outputs (io_binding_init P D s) ! i in
    be_id e = dop_id p \<and> be_backend e = backend_GPIO \<and> be_gpio e = of_int (dop_gpio p)"
proof -
  obtain t where t: "io_binding_init P D s = io_binding_validate_and_migrate_nvs P t" by (simp add: io_binding_init_def Let_def)
  have "default_pin_kept (dop_id p) (dop_gpio p) (ib_outputs (io_binding_validate_and_migrate_nvs P t))"
  proof (cases "migration_needed (ib_inputs t) (ib_outputs t)")
    case True
    then show ?thesis using default_output_kept [OF assms]
      by (simp add: io_binding_validate_and_migrate_nvs_def io_binding_persist_inputs_def io_binding_persist_outputs_def
          io_binding_apply_output_defaults_def default_outputs_def)
  next
    case False
    then show ?thesis using assms by (auto simp: io_binding_validate_and_migrate_nvs_def migration_needed_def)
  qed
  then show ?thesis unfolding t default_pin_kept_def Let_def
    by (auto simp: io_binding_find_entry_def find_index_Some split: option.splits)
qed

theorem io_binding_default_outputs_reverted_witness:
  "\<exists>e \<in> set (ib_outputs (io_binding_init sim_platform demo_pins
      (snd (io_binding_set_output sim_platform demo_pins 101 None None 13 demo_binding)))). be_id e = 101 \<and> be_gpio e = 4"
proof -
  have p: "output_profile ! 1 \<in> set (take ENDAP_DEFAULT_ACTIVE_OUTPUTS output_profile)"
    by (simp add: output_profile_def ENDAP_DEFAULT_ACTIVE_OUTPUTS_def)
  have "dop_id (output_profile ! 1) = 101" "dop_gpio (output_profile ! 1) = 4"
    by (simp_all add: output_profile_def ENDAP_OUTPUT_ID_def ENDAP_OUTPUT_BASE_ID_def)
  then show ?thesis
    using io_binding_default_outputs_reverted [OF p, of sim_platform demo_pins
        "snd (io_binding_set_output sim_platform demo_pins 101 None None 13 demo_binding)"]
    unfolding Let_def by (force simp: in_set_conv_nth)
qed

section \<open>No two channels share a pin or an expander port\<close>

text \<open>
  A connected digital channel: not on the converter and not at the endpoint -1, which the disabled channels of the board share.
\<close>

definition connected :: "io_binding_entry_t \<Rightarrow> bool" where
  "connected e \<longleftrightarrow> be_backend e \<noteq> backend_ADC_NATIVE \<and> be_endpoint_index e \<noteq> of_int GPIO_NUM_NC"

definition address :: "io_binding_entry_t \<Rightarrow> u8 \<times> i16 \<times> i16" where
  "address e = (be_backend e, be_backend_instance e, be_endpoint_index e)"

definition binding_entry_ok :: "bool \<Rightarrow> io_binding_entry_t \<Rightarrow> bool" where
  "binding_entry_ok inp e \<longleftrightarrow> entry_wf e \<and> channel_profile inp (be_id e) \<noteq> None \<and>
     (be_backend e = backend_GPIO \<longrightarrow> be_endpoint_index e = be_gpio e \<and> be_backend_instance e = 0)"

definition table_ok :: "bool \<Rightarrow> io_binding_entry_t list \<Rightarrow> bool" where
  "table_ok inp es \<longleftrightarrow> length es \<le> IO_BINDING_MAX_INPUTS \<and> distinct (map be_id es) \<and> (\<forall>e \<in> set es. binding_entry_ok inp e) \<and>
     keys_distinct connected address es"

definition apart :: "io_binding_entry_t list \<Rightarrow> io_binding_entry_t list \<Rightarrow> bool" where
  "apart xs ys \<longleftrightarrow> (\<forall>x \<in> set xs. \<forall>y \<in> set ys. connected x \<and> connected y \<longrightarrow> address x \<noteq> address y)"

definition bindings_ok :: "'w io_binding \<Rightarrow> bool" where
  "bindings_ok s \<longleftrightarrow> table_ok True (ib_inputs s) \<and> table_ok False (ib_outputs s) \<and> apart (ib_inputs s) (ib_outputs s)"

lemma apart_sym: "apart xs ys = apart ys xs"
  by (force simp: apart_def)

lemma bindings_ok_side:
  "bindings_ok s \<longleftrightarrow> table_ok inp (table_of inp s) \<and> table_ok (\<not> inp) (table_of (\<not> inp) s) \<and>
     apart (table_of inp s) (table_of (\<not> inp) s)"
  using apart_sym [of "ib_inputs s"] by (cases inp) (auto simp: bindings_ok_def)

lemma change_table_ok:
  assumes "bindings_ok s" "table_ok inp es" "apart es (table_of (\<not> inp) s)"
  shows "bindings_ok (change_table P inp r es s)"
  using assms by (simp add: change_table_def bindings_ok_side [of _ inp])

text \<open>Adding, replacing and removing an entry.\<close>

lemma keys_distinct_snoc:
  "keys_distinct used key (xs @ [x]) \<longleftrightarrow>
     keys_distinct used key xs \<and> (used x \<longrightarrow> (\<forall>y \<in> set xs. used y \<longrightarrow> key y \<noteq> key x))"
  by (induction xs) (auto simp: keys_distinct_Cons)

lemma keys_distinct_remove: "keys_distinct used key xs \<Longrightarrow> keys_distinct used key (take i xs @ drop (Suc i) xs)"
proof (induction xs arbitrary: i)
  case (Cons x xs)
  then show ?case by (cases i) (auto simp: keys_distinct_Cons dest: in_set_takeD in_set_dropD)
qed simp

lemma add_entry_ok:
  assumes "table_ok inp es" "binding_entry_ok inp e" "length es < IO_BINDING_MAX_INPUTS" "be_id e \<notin> be_id ` set es"
    and "\<forall>x \<in> set es. connected x \<and> connected e \<longrightarrow> address x \<noteq> address e"
  shows "table_ok inp (es @ [e])"
  using assms by (auto simp: table_ok_def keys_distinct_snoc)

lemma set_entry_ok:
  assumes "table_ok inp es" "binding_entry_ok inp e" "i < length es" "be_id e = be_id (es ! i)"
    and "\<forall>x \<in> set es. be_id x \<noteq> be_id e \<longrightarrow> connected x \<and> connected e \<longrightarrow> address x \<noteq> address e"
  shows "table_ok inp (es[i := e])"
proof -
  have d: "distinct (map be_id es)" using assms(1) by (simp add: table_ok_def)
  have "be_id (es ! j) \<noteq> be_id e" if "j < length es" "j \<noteq> i" for j
    using d that assms(3,4) by (simp add: distinct_conv_nth)
  then have "keys_distinct connected address (es[i := e])"
    using assms by (intro keys_distinct_update) (auto simp: table_ok_def)
  moreover have "map be_id (es[i := e]) = map be_id es"
    using assms(3,4) by (simp add: map_update list_update_same_conv)
  moreover have "\<forall>x \<in> set (es[i := e]). binding_entry_ok inp x"
    using assms(1,2) by (intro all_update) (auto simp: table_ok_def)
  ultimately show ?thesis using assms(1) by (simp add: table_ok_def)
qed

lemma remove_entry_ok:
  assumes "table_ok inp es"
  shows "table_ok inp (take i es @ drop (Suc i) es)"
proof -
  have "distinct (take i (map be_id es) @ drop (Suc i) (map be_id es))"
    using assms by (simp add: table_ok_def distinct_take distinct_drop set_take_disj_set_drop_if_distinct del: take_map drop_map)
  then show ?thesis
    using assms by (auto simp: table_ok_def keys_distinct_remove take_map drop_map dest: in_set_takeD in_set_dropD)
qed

text \<open>What an accepted address promises.\<close>

lemma sint_i16: "- 32768 \<le> k \<Longrightarrow> k < 32768 \<Longrightarrow> sint (of_int k :: i16) = k"
  by (simp add: signed_of_int signed_take_bit_int_eq_self)

lemma pin_allowed_range: "binding_pin_allowed D inp g \<Longrightarrow> 0 \<le> g \<and> g < 40"
  by (auto simp: binding_pin_allowed_def pin_allowed_def device_profile_gpio_is_listed_def input_gpio_options_def
      output_gpio_options_def split: if_splits)

lemma mcp_range: "io_binding_mcp_address_valid k p \<Longrightarrow> 0 \<le> k \<and> k < 2 \<and> 0 \<le> p \<and> p < 16"
  by (simp add: io_binding_mcp_address_valid_def expansion_capabilities_def)

lemma valid_address_range:
  assumes "io_binding_backend_address_valid D b inp g k p" "b \<noteq> backend_ADC_NATIVE" "b = backend_GPIO \<Longrightarrow> k = 0 \<and> p = g"
  shows "sint (of_int k :: i16) = k" "sint (of_int p :: i16) = p" "0 \<le> p" "p < 40"
proof -
  have "0 \<le> k \<and> k < 2 \<and> 0 \<le> p \<and> p < 40"
    using assms pin_allowed_range [of D inp g] mcp_range [of k p]
    by (auto simp: io_binding_backend_address_valid_def split: if_splits)
  then show "sint (of_int k :: i16) = k" "sint (of_int p :: i16) = p" "0 \<le> p" "p < 40" by (auto intro!: sint_i16)
qed

lemma no_channel_0: "channel_profile inp 0 = None"
proof -
  have "0 \<notin> set (map dip_id input_profile)" "0 \<notin> set (map dop_id output_profile)" unfolding input_ids output_ids by simp_all
  then show ?thesis
    by (auto simp: channel_profile_def device_profile_find_input_def device_profile_find_output_def find_index_None)
qed

lemma validated_address_free:
  assumes "validate_address inp D s ident b g k p = IO_BINDING_RESULT_OK" "bindings_ok s" "b = backend_GPIO \<Longrightarrow> k = 0 \<and> p = g"
    and "be_backend e = b" "be_backend_instance e = of_int k" "be_endpoint_index e = of_int p"
  shows "\<forall>x \<in> set (table_of inp s). be_id x \<noteq> ident \<longrightarrow> connected x \<and> connected e \<longrightarrow> address x \<noteq> address e"
    "\<forall>x \<in> set (table_of (\<not> inp) s). connected x \<and> connected e \<longrightarrow> address x \<noteq> address e"
proof -
  have free: "\<not> io_binding_address_in_use (table_of inp s) b k p ident" "\<not> io_binding_address_in_use (table_of (\<not> inp) s) b k p 0"
    and valid: "io_binding_backend_address_valid D b inp g k p"
    using assms(1) by (auto simp: validate_address_def split: if_splits)
  have range: "connected e \<Longrightarrow> sint (be_backend_instance e) = k \<and> sint (be_endpoint_index e) = p"
    using valid_address_range [OF valid _ assms(3)] assms(4-6) by (auto simp: connected_def)
  then show "\<forall>x \<in> set (table_of inp s). be_id x \<noteq> ident \<longrightarrow> connected x \<and> connected e \<longrightarrow> address x \<noteq> address e"
    using free(1) assms(4) by (auto simp: io_binding_address_in_use_def address_def)
  have "\<forall>x \<in> set (table_of (\<not> inp) s). be_id x \<noteq> 0"
    using assms(2) no_channel_0 unfolding bindings_ok_side [of s inp] table_ok_def binding_entry_ok_def by metis
  then show "\<forall>x \<in> set (table_of (\<not> inp) s). connected x \<and> connected e \<longrightarrow> address x \<noteq> address e"
    using free(2) range assms(4) by (auto simp: io_binding_address_in_use_def address_def)
qed

lemma add_channel_ok:
  assumes "bindings_ok s"
  shows "bindings_ok (snd (add_channel P inp D ident name role b g k p s))"
proof (cases "fst (add_channel P inp D ident name role b g k p s) = IO_BINDING_RESULT_OK")
  case False
  then show ?thesis using assms
    by (auto simp: add_channel_def Let_def split: option.splits sum.splits prod.splits if_splits)
next
  case True
  let ?es = "table_of inp s"
  obtain pname pg where pr: "channel_profile inp ident = Some (pname, pg)"
    using True by (auto simp: add_channel_def Let_def split: option.splits)
  have new: "io_binding_find_entry ident ?es = None" "length ?es < IO_BINDING_MAX_INPUTS"
    using True pr by (auto simp: add_channel_def Let_def split: if_splits)
  obtain g' k' p' where a: "new_address b g k p = Inr (g', k', p')"
    using True pr new by (auto simp: add_channel_def Let_def new_address_def split: if_splits)
  have v: "validate_address inp D s ident b g' k' p' = IO_BINDING_RESULT_OK"
    using True pr new a by (auto simp: add_channel_def Let_def split: if_splits)
  have gp: "b = backend_GPIO \<Longrightarrow> k' = 0 \<and> p' = g'" using a by (auto simp: new_address_def split: if_splits)
  let ?e = "prepare_entry inp ident name role b g' k' p' pname"
  have eq: "add_channel P inp D ident name role b g k p s = (IO_BINDING_RESULT_OK, change_table P inp True (?es @ [?e]) s)"
    using pr new a v by (simp add: add_channel_def Let_def)
  note free = validated_address_free [OF v assms gp, of ?e]
  have "ident \<notin> be_id ` set ?es" using new(1) by (auto simp: io_binding_find_entry_def find_index_None)
  moreover have "binding_entry_ok inp ?e" using gp pr by (auto simp: binding_entry_ok_def)
  ultimately have "table_ok inp (?es @ [?e])"
    using assms free(1) new(2) unfolding bindings_ok_side [of s inp] by (intro add_entry_ok) (auto simp: image_iff)
  moreover have "apart (?es @ [?e]) (table_of (\<not> inp) s)"
    using assms free(2) unfolding bindings_ok_side [of s inp] apart_def by auto
  ultimately show ?thesis unfolding eq by (simp add: change_table_ok [OF assms])
qed

lemma changed_address_gpio: "changed_address inp e b g k p = Some (g', k', p') \<Longrightarrow> b = backend_GPIO \<Longrightarrow> k' = 0 \<and> p' = g'"
  by (auto simp: changed_address_def Let_def)

lemma io_binding_set_channel_ok:
  assumes "bindings_ok s"
  shows "bindings_ok (snd (io_binding_set_channel P inp D ident name role b g k p s))"
proof (cases "fst (io_binding_set_channel P inp D ident name role b g k p s) = IO_BINDING_RESULT_OK")
  case False
  then show ?thesis using assms
    by (auto simp: io_binding_set_channel_def Let_def split: option.splits prod.splits if_splits)
next
  case True
  let ?es = "table_of inp s"
  obtain i where i: "io_binding_find_entry ident ?es = Some i" "i < length ?es" "be_id (?es ! i) = ident"
    using True by (auto simp: io_binding_set_channel_def io_binding_find_entry_def Let_def dest: find_index_SomeD split: option.splits)
  obtain pname pg where pr: "channel_profile inp ident = Some (pname, pg)"
    using True i by (auto simp: io_binding_set_channel_def Let_def split: option.splits)
  obtain g' k' p' where a: "changed_address inp (?es ! i) b g k p = Some (g', k', p')"
    using True i pr by (auto simp: io_binding_set_channel_def Let_def split: option.splits)
  have v: "validate_address inp D s ident b g' k' p' = IO_BINDING_RESULT_OK"
    using True pr i a by (auto simp: io_binding_set_channel_def Let_def split: if_splits)
  obtain e r where eq: "io_binding_set_channel P inp D ident name role b g k p s = (IO_BINDING_RESULT_OK, change_table P inp r (?es[i := e]) s)"
    and e: "be_id e = ident" "be_gpio e = of_int g'" "be_backend e = b" "be_backend_instance e = of_int k'"
      "be_endpoint_index e = of_int p'" "length (be_name e) = 24" "length (be_role e) = 24"
    using pr i a v by (simp add: io_binding_set_channel_def Let_def io_binding_copy_text_def binding_sizes)
  note gp = changed_address_gpio [OF a]
  note free = validated_address_free [OF v assms gp e(3-5)]
  have "binding_entry_ok inp e" using gp pr e by (auto simp: binding_entry_ok_def entry_wf_def)
  then have "table_ok inp (?es[i := e])"
    using assms free(1) i e(1) unfolding bindings_ok_side [of s inp] by (intro set_entry_ok) auto
  moreover have "apart (?es[i := e]) (table_of (\<not> inp) s)"
    using assms free(2) unfolding bindings_ok_side [of s inp] apart_def by (intro all_update) auto
  ultimately show ?thesis unfolding eq by (simp add: change_table_ok [OF assms])
qed

lemma remove_channel_ok:
  assumes "bindings_ok s"
  shows "bindings_ok (snd (remove_channel P inp ident s))"
proof -
  have "apart (take i xs @ drop j xs) ys" if "apart xs ys" for i j xs ys
    using that by (auto simp: apart_def dest: in_set_takeD in_set_dropD)
  then show ?thesis
    using assms bindings_ok_side [of s inp]
    by (auto simp: remove_channel_def Let_def split: option.split intro!: change_table_ok remove_entry_ok)
qed

lemma reset_channel_ok: "bindings_ok s \<Longrightarrow> bindings_ok (snd (reset_channel P inp D ident s))"
  by (auto simp: reset_channel_def io_binding_set_channel_ok split: option.split)

text \<open>The operations of the interface; the pins that are allowed may change between them.\<close>

inductive binding_step :: "'w platform \<Rightarrow> 'w io_binding \<Rightarrow> 'w io_binding \<Rightarrow> bool" for P :: "'w platform" where
  add_input: "binding_step P s (snd (io_binding_add_input_ex P D ident name role b g k p s))"
| add_output: "binding_step P s (snd (io_binding_add_output_ex P D ident name role b g k p s))"
| set_input: "binding_step P s (snd (io_binding_set_input_ex P D ident name role b g k p s))"
| set_output: "binding_step P s (snd (io_binding_set_output_ex P D ident name role b g k p s))"
| remove_input: "binding_step P s (snd (io_binding_remove_input P ident s))"
| remove_output: "binding_step P s (snd (io_binding_remove_output P ident s))"
| reset_input: "binding_step P s (snd (io_binding_reset_input P D ident s))"
| reset_output: "binding_step P s (snd (io_binding_reset_output P D ident s))"
| world: "binding_step P s (s\<lparr>ib_world := w\<rparr>)"

lemma binding_step_ok: "binding_step P s s' \<Longrightarrow> bindings_ok s \<Longrightarrow> bindings_ok s'"
  by (induction rule: binding_step.induct)
    (simp_all add: io_binding_add_input_ex_def io_binding_add_output_ex_def io_binding_set_input_ex_def io_binding_set_output_ex_def
      io_binding_remove_input_def io_binding_remove_output_def io_binding_reset_input_def io_binding_reset_output_def
      add_channel_ok io_binding_set_channel_ok remove_channel_ok reset_channel_ok, simp add: bindings_ok_def)

lemma binding_run_ok: "(binding_step P)\<^sup>*\<^sup>* s s' \<Longrightarrow> bindings_ok s \<Longrightarrow> bindings_ok s'"
  by (induction rule: rtranclp_induct) (auto intro: binding_step_ok)

lemma bindings_ok_distinct:
  assumes "bindings_ok s"
  shows "keys_distinct connected address (ib_inputs s @ ib_outputs s)"
proof -
  have "keys_distinct connected address (xs @ ys)"
    if "keys_distinct connected address xs" "keys_distinct connected address ys" "apart xs ys" for xs ys
    using that by (induction xs) (auto simp: keys_distinct_Cons apart_def)
  then show ?thesis using assms by (simp add: bindings_ok_def table_ok_def)
qed

lemma default_outputs_keys:
  "map entry_key default_outputs = [(100, 22, 0, 22, 0), (101, 4, 0, 4, 0), (102, 5, 0, 5, 0), (103, 14, 0, 14, 0),
     (104, - 1, 0, - 1, 0), (105, 33, 0, 33, 0)]"
  by (simp add: default_outputs_def output_profile_def ENDAP_DEFAULT_ACTIVE_OUTPUTS_def default_output_def entry_key_def
      ENDAP_OUTPUT_ID_def ENDAP_OUTPUT_BASE_ID_def GPIO_NUM_NC_def backends)

lemma default_inputs_keys:
  "map entry_key default_inputs = [(10, 16, 0, 16, 0), (11, 17, 0, 17, 0), (12, 21, 0, 21, 0), (13, - 1, 0, - 1, 0),
     (14, 27, 0, 27, 0), (15, 26, 0, 26, 0), (22, 34, 0, 6, 2), (23, 35, 0, 7, 2), (24, 36, 0, 0, 2), (25, 39, 0, 3, 2)]"
  by (simp add: default_inputs_def digital_keys analog_slots_eq analog_key)

text \<open>Conditions on the entries of a table as conditions on their keys.\<close>

definition key_connected :: "u16 \<times> i16 \<times> i16 \<times> i16 \<times> u8 \<Rightarrow> bool" where
  "key_connected x = (case x of (i, g, k, p, b) \<Rightarrow> b \<noteq> backend_ADC_NATIVE \<and> p \<noteq> of_int GPIO_NUM_NC)"

definition key_address :: "u16 \<times> i16 \<times> i16 \<times> i16 \<times> u8 \<Rightarrow> u8 \<times> i16 \<times> i16" where
  "key_address x = (case x of (i, g, k, p, b) \<Rightarrow> (b, k, p))"

lemma keys_of_entries:
  "keys_distinct connected address es = keys_distinct key_connected key_address (map entry_key es)"
  "apart es es' \<longleftrightarrow> (\<forall>x \<in> set (map entry_key es). \<forall>y \<in> set (map entry_key es').
     key_connected x \<and> key_connected y \<longrightarrow> key_address x \<noteq> key_address y)"
  "map be_id es = map fst (map entry_key es)"
  by (simp_all add: keys_distinct_def apart_def connected_def address_def key_connected_def key_address_def entry_key_def)

lemma channel_exists:
  "channel_profile True i \<noteq> None \<longleftrightarrow> i \<in> set (map dip_id input_profile)"
  "channel_profile False i \<noteq> None \<longleftrightarrow> i \<in> set (map dop_id output_profile)"
  by (auto simp: channel_profile_def device_profile_find_input_def device_profile_find_output_def find_index_None)

lemma entries_ok_keys:
  "(\<forall>e \<in> set es. binding_entry_ok inp e) \<longleftrightarrow> (\<forall>e \<in> set es. entry_wf e) \<and> (\<forall>x \<in> set (map entry_key es). case x of (i, g, k, p, b) \<Rightarrow>
     channel_profile inp i \<noteq> None \<and> (b = backend_GPIO \<longrightarrow> p = g \<and> k = 0))"
  by (auto simp: binding_entry_ok_def entry_key_def)

lemma default_bindings_ok:
  assumes "ib_inputs s = default_inputs" "ib_outputs s = default_outputs"
  shows "bindings_ok s"
proof -
  have "table_ok True default_inputs"
    unfolding table_ok_def entries_ok_keys keys_of_entries channel_exists default_inputs_keys
    using defaults_wf(1)
    by (simp add: length_defaults IO_BINDING_MAX_INPUTS_def input_ids keys_distinct_Cons key_connected_def key_address_def
        backends GPIO_NUM_NC_def del: set_map)
  moreover have "table_ok False default_outputs"
    unfolding table_ok_def entries_ok_keys keys_of_entries channel_exists default_outputs_keys
    using defaults_wf(2)
    by (simp add: length_defaults IO_BINDING_MAX_INPUTS_def output_ids keys_distinct_Cons key_connected_def key_address_def
        backends GPIO_NUM_NC_def del: set_map)
  moreover have "apart default_inputs default_outputs"
    unfolding keys_of_entries default_inputs_keys default_outputs_keys
    by (simp add: key_connected_def key_address_def backends GPIO_NUM_NC_def)
  ultimately show ?thesis using assms by (simp add: bindings_ok_def)
qed



section \<open>Pins that are bound twice\<close>

text \<open>
  A pin of the native converter can be bound a second time as a digital input. The digital channel and the analog channel of
  the pin have different addresses, so the new channel is accepted, and both then use the pin.
\<close>

theorem io_binding_analog_pin_bound_twice:
  assumes "bindings_ok s" "channel_profile True ident = Some (pname, pg)" "\<not> io_binding_has_input ident s"
    and "length (ib_inputs s) < IO_BINDING_MAX_INPUTS" "e \<in> set (ib_inputs s)" "be_backend e = backend_ADC_NATIVE"
    and "g \<in> {34, 35, 36, 39}" "be_gpio e = of_int g" "binding_pin_allowed D True g"
    and "\<forall>x \<in> set (ib_inputs s @ ib_outputs s). be_backend x = backend_GPIO \<longrightarrow> be_gpio x \<noteq> of_int g"
  shows "fst (io_binding_add_input P D ident name role g s) = IO_BINDING_RESULT_OK \<and>
    (\<exists>x \<in> set (ib_inputs (snd (io_binding_add_input P D ident name role g s))). \<exists>y \<in> set (ib_inputs (snd (io_binding_add_input P D ident name role g s))).
       be_id x \<noteq> be_id y \<and> be_gpio x = be_gpio y \<and> be_gpio x = of_int g)"
proof -
  have n: "io_binding_find_entry ident (ib_inputs s) = None" using assms(3) by (simp add: io_binding_has_input_def)
  have "be_endpoint_index x = be_gpio x" if "x \<in> set (ib_inputs s @ ib_outputs s)" "be_backend x = backend_GPIO" for x
    using that assms(1) by (auto simp: bindings_ok_def table_ok_def binding_entry_ok_def)
  then have "be_backend x = backend_GPIO \<longrightarrow> be_endpoint_index x \<noteq> of_int g" if "x \<in> set (ib_inputs s @ ib_outputs s)" for x
    using that assms(10) by metis
  then have free: "\<not> io_binding_address_in_use (ib_inputs s) backend_GPIO 0 g i" "\<not> io_binding_address_in_use (ib_outputs s) backend_GPIO 0 g i" for i
    unfolding io_binding_address_in_use_def by fastforce+
  have "0 \<le> g" using assms(7) by auto
  then have eq: "io_binding_add_input P D ident name role g s = (IO_BINDING_RESULT_OK, change_table P True True
      (ib_inputs s @ [prepare_entry True ident name role backend_GPIO g 0 g pname]) s)"
    using assms(2,4,9) n free
    by (simp add: io_binding_add_input_def io_binding_add_input_ex_def add_channel_def Let_def new_address_def validate_address_def
        io_binding_backend_selectable_now_def io_binding_backend_allows_input_def io_binding_backend_address_valid_def)
  have "be_id e \<noteq> ident" using n assms(5) by (auto simp: io_binding_find_entry_def find_index_None)
  then show ?thesis using assms(5,8)
    unfolding eq by (auto simp: change_table_def set_table_def intro!: bexI [of _ e])
qed

lemma gpio_free_keys:
  "(\<forall>x \<in> set es. be_backend x = backend_GPIO \<longrightarrow> be_gpio x \<noteq> v) \<longleftrightarrow>
   (\<forall>x \<in> set (map entry_key es). case x of (i, g, k, p, b) \<Rightarrow> b = backend_GPIO \<longrightarrow> g \<noteq> v)"
  by (simp add: entry_key_def)

lemma demo_pin_34: "binding_pin_allowed demo_pins True 34"
  by (simp add: binding_pin_allowed_def demo_pins_def pin_allowed_def device_profile_gpio_is_listed_def input_gpio_options_def
      reserved_for_platform_def sensor_defaults_def reserved_for_network_def settle_policy_def Let_def
      device_profile_normalize_transport_policy_def policy_eqs build_network_profile_def)

theorem io_binding_analog_pin_bound_twice_witness:
  "fst (io_binding_add_input sim_platform demo_pins 16 None None 34 demo_binding) = IO_BINDING_RESULT_OK \<and>
   (\<exists>x \<in> set (ib_inputs (snd (io_binding_add_input sim_platform demo_pins 16 None None 34 demo_binding))).
    \<exists>y \<in> set (ib_inputs (snd (io_binding_add_input sim_platform demo_pins 16 None None 34 demo_binding))).
      be_id x \<noteq> be_id y \<and> be_gpio x = be_gpio y \<and> be_gpio x = 34)"
proof -
  have ok: "bindings_ok demo_binding" by (rule default_bindings_ok) (simp_all add: demo_binding_def)
  have pr: "channel_profile True 16 = Some (str_bytes ''GPIO18'', 18)"
    by (simp add: channel_profile_def device_profile_find_input_def input_profile_def ENDAP_INPUT_ID_def ENDAP_INPUT_BASE_ID_def)
  have "(16 :: u16) \<notin> set (map fst (map entry_key default_inputs))" unfolding default_inputs_keys by simp
  then have no: "\<not> io_binding_has_input 16 demo_binding"
    by (auto simp: io_binding_has_input_def io_binding_find_entry_def find_index_None demo_binding_def entry_key_def)
  have e: "analog_entry (22, 34, 6) \<in> set (ib_inputs demo_binding)" "be_backend (analog_entry (22, 34, 6)) = backend_ADC_NATIVE"
    "be_gpio (analog_entry (22, 34, 6)) = of_int 34"
    by (simp_all add: demo_binding_def default_inputs_def analog_slots_eq analog_entry_def Let_def)
  have "\<forall>x \<in> set (default_inputs @ default_outputs). be_backend x = backend_GPIO \<longrightarrow> be_gpio x \<noteq> of_int 34"
    unfolding gpio_free_keys map_append default_inputs_keys default_outputs_keys by (simp add: backends)
  then have free: "\<forall>x \<in> set (ib_inputs demo_binding @ ib_outputs demo_binding). be_backend x = backend_GPIO \<longrightarrow> be_gpio x \<noteq> of_int 34"
    by (simp add: demo_binding_def)
  show ?thesis
    using io_binding_analog_pin_bound_twice [OF ok pr no _ e(1,2) _ e(3) demo_pin_34 free, of sim_platform None None]
    by (simp add: demo_binding_def length_defaults IO_BINDING_MAX_INPUTS_def)
qed

text \<open>The resolution of conflicts does not touch the default outputs, and the default inputs pass the validation.\<close>

lemma revert_default_output:
  assumes "e \<in> set default_outputs"
  shows "revert_entry False other e = e"
proof -
  obtain p where p: "p \<in> set output_profile" "e = default_output p"
    using assms by (auto simp: default_outputs_def dest: in_set_takeD)
  then have "channel_profile False (be_id e) = Some (dop_name p, dop_gpio p)"
    using channel_profile_table(2) by (simp add: default_output_def)
  then show ?thesis by (auto simp: revert_entry_def p(2) default_output_def intro!: io_binding_entry_t.equality)
qed

lemma find_index_append: "find_index Q xs = Some i \<Longrightarrow> find_index Q (xs @ ys) = Some i"
  by (auto simp: find_index_Some nth_append)

lemma default_pin_kept_append: "default_pin_kept i g xs \<Longrightarrow> default_pin_kept i g (xs @ ys)"
  by (auto simp: default_pin_kept_def io_binding_find_entry_def find_index_append nth_append dest: find_index_lt split: option.splits)

lemma default_input_kept:
  assumes "p \<in> set (take ENDAP_DEFAULT_ACTIVE_INPUTS input_profile)"
  shows "default_pin_kept (dip_id p) (dip_gpio p) default_inputs"
proof -
  have d: "distinct (map be_id digital_inputs)" unfolding keys_of_entries digital_keys by simp
  have "default_input p \<in> set digital_inputs" using assms by (simp add: digital_inputs_def)
  from find_by_key [OF d this] obtain i where "io_binding_find_entry (dip_id p) digital_inputs = Some i" "digital_inputs ! i = default_input p"
    by (auto simp: io_binding_find_entry_def default_input_def Let_def)
  moreover have "dip_gpio p \<in> {16, 17, 21, - 1, 27, 26}"
    using assms arg_cong [OF input_ids(2), of "take 6"] by (force simp: ENDAP_DEFAULT_ACTIVE_INPUTS_def take_map)
  ultimately have "default_pin_kept (dip_id p) (dip_gpio p) digital_inputs"
    by (auto simp: default_pin_kept_def default_input_def Let_def)
  then show ?thesis unfolding default_inputs_def by (rule default_pin_kept_append)
qed

lemma migration_keys:
  "(\<exists>e \<in> set ins. be_backend e = backend_GPIO \<and> (be_gpio e = 33 \<or>
      (\<exists>o' \<in> set outs. be_backend o' = backend_GPIO \<and> be_gpio o' = be_gpio e \<and> be_gpio e \<noteq> of_int GPIO_NUM_NC))) \<longleftrightarrow>
   (\<exists>x \<in> set (map entry_key ins). case x of (i, g, k, p, b) \<Rightarrow> b = backend_GPIO \<and> (g = 33 \<or>
      (\<exists>y \<in> set (map entry_key outs). case y of (i', g', k', p', b') \<Rightarrow> b' = backend_GPIO \<and> g' = g \<and> g \<noteq> of_int GPIO_NUM_NC)))"
  "(\<exists>o' \<in> set outs. be_backend o' = backend_GPIO \<and> be_gpio o' = 26) \<longleftrightarrow>
   (\<exists>y \<in> set (map entry_key outs). case y of (i', g', k', p', b') \<Rightarrow> b' = backend_GPIO \<and> g' = 26)"
  by (simp_all add: entry_key_def)

text \<open>
  The boot can bind two outputs to one pin. When output 112 was moved to pin 21 and the inputs come back with their defaults, the resolution
  of conflicts reverts it to the pin of its profile, 22, without looking at the other outputs; output 100 has the same pin, and
  the validation accepts the tables.
\<close>

theorem io_binding_boot_shares_output_pin:
  assumes "ib_inputs s = default_inputs"
    and "ib_outputs s = default_outputs @ [prepare_entry False 112 name role backend_GPIO 21 0 21 pname]"
    and "s' = io_binding_validate_and_migrate_nvs P (io_binding_resolve_cross_conflicts_after_load P s)"
  shows "\<exists>x \<in> set (ib_outputs s'). \<exists>y \<in> set (ib_outputs s'). be_id x = 100 \<and> be_id y = 112 \<and>
    be_backend x = backend_GPIO \<and> be_backend y = backend_GPIO \<and> be_gpio x = 22 \<and> be_gpio y = 22"
proof -
  let ?n = "prepare_entry False 112 name role backend_GPIO 21 0 21 pname"
  define n where "n = ?n\<lparr>be_gpio := 22, be_endpoint_index := 22\<rparr>"
  have key: "entry_key n = (112, 22, 0, 22, 0)" by (simp add: n_def entry_key_def backends)
  have "default_input (input_profile ! 2) \<in> set default_inputs"
    by (simp add: default_inputs_def digital_inputs_def input_profile_def ENDAP_DEFAULT_ACTIVE_INPUTS_def)
  moreover have "entry_key (default_input (input_profile ! 2)) = (12, 21, 0, 21, 0)"
    using arg_cong [OF digital_keys, of "\<lambda>x. x ! 2"] by (simp add: digital_inputs_def input_profile_def ENDAP_DEFAULT_ACTIVE_INPUTS_def)
  ultimately have used: "io_binding_address_in_use default_inputs backend_GPIO 0 21 0"
    unfolding io_binding_address_in_use_def
    by (intro bexI [of _ "default_input (input_profile ! 2)"]) (simp_all add: entry_key_def backends)
  have "channel_profile False 112 = Some (str_bytes ''GPIO22'', 22)"
    by (simp add: channel_profile_def device_profile_find_output_def output_profile_def ENDAP_OUTPUT_ID_def ENDAP_OUTPUT_BASE_ID_def)
  then have "revert_entry False default_inputs ?n = n"
    using used by (simp add: revert_entry_def cross_conflict_def n_def)
  then have outs: "map (revert_entry False default_inputs) (default_outputs @ [?n]) = default_outputs @ [n]"
    by (simp add: revert_default_output map_idI)
  define t where "t = io_binding_resolve_cross_conflicts_after_load P s"
  have t: "ib_inputs t = default_inputs" "ib_outputs t = default_outputs @ [n]"
    using outs resolve_keeps_default_inputs [OF assms(1)] assms(1,2)
    by (simp_all add: t_def io_binding_resolve_cross_conflicts_after_load_def Let_def io_binding_persist_inputs_def
        io_binding_persist_outputs_def)
  have "\<not> migration_needed default_inputs (default_outputs @ [n])"
    unfolding migration_needed_def migration_keys map_append default_inputs_keys default_outputs_keys
    using default_input_kept default_pin_kept_append [OF default_output_kept]
    by (simp add: key length_defaults ENDAP_DEFAULT_ACTIVE_INPUTS_def ENDAP_DEFAULT_ACTIVE_OUTPUTS_def backends GPIO_NUM_NC_def
        del: set_map)
  then have s': "ib_outputs s' = default_outputs @ [n]"
    using assms(3) t by (simp add: io_binding_validate_and_migrate_nvs_def t_def [symmetric])
  have "(100, 22, 0, 22, 0) \<in> set (map entry_key default_outputs)" unfolding default_outputs_keys by simp
  then obtain x where "x \<in> set default_outputs" "entry_key x = (100, 22, 0, 22, 0)" by auto
  then show ?thesis unfolding s'
    using key by (intro bexI [of _ x] bexI [of _ n]) (simp_all add: entry_key_def backends)
qed

theorem io_binding_boot_shares_output_pin_witness:
  "\<exists>s' :: sim_world io_binding. \<exists>x \<in> set (ib_outputs s'). \<exists>y \<in> set (ib_outputs s'). be_id x \<noteq> be_id y \<and> be_gpio x = 22 \<and> be_gpio y = 22"
proof -
  let ?s = "demo_binding\<lparr>ib_outputs := default_outputs @ [prepare_entry False 112 None None backend_GPIO 21 0 21 []]\<rparr>"
  show ?thesis
    using io_binding_boot_shares_output_pin [of ?s None None "[]", OF _ _ refl, of sim_platform] by (force simp: demo_binding_def)
qed

end
