(* ===== verification/Catalog.thy ===== *)
theory Catalog
  imports Platform
begin

text \<open>
  The third generation of the resource model, \<open>components/v3\<close>: the catalogue of resources
  (\<open>v3_catalog.c\<close>, a sorted array searched by bisection) with the interface table its clients call,
  the desired and reported states (\<open>v3_automation.c\<close>), the paged listing (\<open>v3_api.c\<close>), the event queue
  that drops its oldest events (\<open>v3_events.c\<close>), the discovery of nodes (\<open>v3_discovery.c\<close>) and
  the journal of changed records (\<open>v3_persistence.c\<close>).

  The catalogue refines a finite map (\<open>catalog_refines_map\<close>); its interface is the locale
  \<open>resource_backend\<close>, on which the listing is proved.
\<close>

section \<open>v3\_catalog.c\<close>

definition V3_CATALOG_MAX_RESOURCES :: nat where "V3_CATALOG_MAX_RESOURCES = 1024"

type_synonym resource_id_t = u64

text \<open>The key is a union; \<open>raw\<close> is its 64-bit view.\<close>

record resource_record_t =
  rr_id :: resource_id_t
  rr_key :: u64
  rr_last_seen_tick :: u32
  rr_status :: u16
  rr_sync_flags :: u16
  rr_desired_state :: u32
  rr_reported_state :: u32

text \<open>\<open>s_pool\<close>, an array of 1024 records, and \<open>s_count\<close>.\<close>

record catalog =
  s_pool :: "resource_record_t list"
  s_count :: nat

text \<open>
  The bisection of \<open>find_index\<close>, \<open>find_insertion_index\<close> and the listing: the index of the record with
  the identifier, or where it would have to be inserted.
\<close>

function bisect :: "(nat \<Rightarrow> resource_id_t) \<Rightarrow> resource_id_t \<Rightarrow> int \<Rightarrow> int \<Rightarrow> bool \<times> int" where
  "bisect ids ident low high =
     (if low \<le> high
      then let mid = low + (high - low) div 2 in
        if ids (nat mid) = ident then (True, mid)
        else if ids (nat mid) < ident then bisect ids ident (mid + 1) high
        else bisect ids ident low (mid - 1)
      else (False, low))"
  by pat_completeness auto
termination
  by (relation "measure (\<lambda>(_, _, low, high). nat (high - low + 1))") auto

declare bisect.simps [simp del]

definition catalog_find_index :: "resource_id_t \<Rightarrow> catalog \<Rightarrow> int" where
  "catalog_find_index ident c =
     (case bisect (\<lambda>i. rr_id (s_pool c ! i)) ident 0 (int (s_count c) - 1) of (True, mid) \<Rightarrow> mid | (False, _) \<Rightarrow> - 1)"

definition find_insertion_index :: "resource_id_t \<Rightarrow> catalog \<Rightarrow> int" where
  "find_insertion_index ident c = snd (bisect (\<lambda>i. rr_id (s_pool c ! i)) ident 0 (int (s_count c) - 1))"

text \<open>\<open>memmove\<close> within the pool: \<open>n\<close> records from \<open>src\<close> to \<open>dst\<close>.\<close>

definition pool_move :: "nat \<Rightarrow> nat \<Rightarrow> nat \<Rightarrow> 'a list \<Rightarrow> 'a list" where
  "pool_move dst src n xs = take dst xs @ take n (drop src xs) @ drop (dst + n) xs"

definition catalog_insert :: "resource_record_t \<Rightarrow> catalog \<Rightarrow> bool \<times> catalog" where
  "catalog_insert record c =
     (let idx = find_insertion_index (rr_id record) c in
      if idx < int (s_count c) \<and> rr_id (s_pool c ! nat idx) = rr_id record
      then (True, c\<lparr>s_pool := (s_pool c)[nat idx := record]\<rparr>)
      else if V3_CATALOG_MAX_RESOURCES \<le> s_count c then (False, c)
      else let pool = (if idx < int (s_count c)
                then pool_move (nat idx + 1) (nat idx) (s_count c - nat idx) (s_pool c) else s_pool c)
        in (True, c\<lparr>s_pool := pool[nat idx := record], s_count := s_count c + 1\<rparr>))"

definition catalog_find :: "resource_id_t \<Rightarrow> catalog \<Rightarrow> resource_record_t option" where
  "catalog_find ident c =
     (let idx = catalog_find_index ident c in if idx = - 1 then None else Some (s_pool c ! nat idx))"

definition get_by_index :: "nat \<Rightarrow> catalog \<Rightarrow> resource_record_t option" where
  "get_by_index i c = (if s_count c \<le> i then None else Some (s_pool c ! i))"

definition update_desired :: "resource_id_t \<Rightarrow> u32 \<Rightarrow> catalog \<Rightarrow> bool \<times> catalog" where
  "update_desired ident desired c =
     (let idx = catalog_find_index ident c in
      if idx = - 1 then (False, c)
      else (True, c\<lparr>s_pool := (s_pool c)[nat idx := (s_pool c ! nat idx)\<lparr>rr_desired_state := desired\<rparr>]\<rparr>))"

definition update_reported :: "resource_id_t \<Rightarrow> u32 \<Rightarrow> catalog \<Rightarrow> bool \<times> catalog" where
  "update_reported ident reported c =
     (let idx = catalog_find_index ident c in
      if idx = - 1 then (False, c)
      else (True, c\<lparr>s_pool := (s_pool c)[nat idx := (s_pool c ! nat idx)\<lparr>rr_reported_state := reported\<rparr>]\<rparr>))"

definition remove_record :: "resource_id_t \<Rightarrow> catalog \<Rightarrow> bool \<times> catalog" where
  "remove_record ident c =
     (let idx = catalog_find_index ident c in
      if idx = - 1 then (False, c)
      else let pool = (if idx < int (s_count c) - 1
                then pool_move (nat idx) (nat idx + 1) (s_count c - nat idx - 1) (s_pool c) else s_pool c)
        in (True, c\<lparr>s_pool := pool, s_count := s_count c - 1\<rparr>))"

definition catalog_size :: "catalog \<Rightarrow> nat" where
  "catalog_size c = s_count c"

text \<open>\<open>snapshot\<close> into an array with room for \<open>n\<close> records.\<close>

definition catalog_snapshot :: "nat \<Rightarrow> catalog \<Rightarrow> resource_record_t list" where
  "catalog_snapshot n c = (let to_copy = (if n < s_count c then n else s_count c) in take to_copy (s_pool c))"

section \<open>v3\_automation.c\<close>

definition v3_automation_write_desired :: "resource_id_t \<Rightarrow> u32 \<Rightarrow> catalog \<Rightarrow> bool \<times> catalog" where
  "v3_automation_write_desired target_id desired_state = update_desired target_id desired_state"

definition v3_automation_update_reported :: "resource_id_t \<Rightarrow> u32 \<Rightarrow> catalog \<Rightarrow> bool \<times> catalog" where
  "v3_automation_update_reported target_id reported_state = update_reported target_id reported_state"

section \<open>The catalogue is a map\<close>

text \<open>The records in use are sorted by their identifiers, without repetition.\<close>

definition catalog_ok :: "catalog \<Rightarrow> bool" where
  "catalog_ok c \<longleftrightarrow> length (s_pool c) = V3_CATALOG_MAX_RESOURCES \<and> s_count c \<le> V3_CATALOG_MAX_RESOURCES \<and>
     sorted_wrt (<) (map rr_id (take (s_count c) (s_pool c)))"

definition records :: "catalog \<Rightarrow> resource_record_t list" where
  "records c = take (s_count c) (s_pool c)"

definition catalog_map :: "catalog \<Rightarrow> resource_id_t \<Rightarrow> resource_record_t option" where
  "catalog_map c = map_of (map (\<lambda>r. (rr_id r, r)) (records c))"

text \<open>
  What the bisection promises: between the bounds it finds the identifier, or the place that keeps the order.
\<close>

lemma bisect_spec:
  assumes "\<forall>j < n. \<forall>i < j. ids i < ids j" "0 \<le> low" "high < int n" "low \<le> high + 1"
    and "\<forall>j < nat low. ids j < ident" "\<forall>j. high < int j \<and> j < n \<longrightarrow> ident < ids j"
  shows "case bisect ids ident low high of
      (True, mid) \<Rightarrow> 0 \<le> mid \<and> mid < int n \<and> ids (nat mid) = ident
    | (False, k) \<Rightarrow> 0 \<le> k \<and> k \<le> int n \<and> (\<forall>j < nat k. ids j < ident) \<and>
        (\<forall>j. nat k \<le> j \<and> j < n \<longrightarrow> ident < ids j)"
  using assms
proof (induction ids ident low high rule: bisect.induct)
  case (1 ids ident low high)
  show ?case
  proof (cases "low \<le> high")
    case False
    then have "bisect ids ident low high = (False, low)" by (subst bisect.simps) simp
    moreover have "low = high + 1" using False "1.prems"(4) by simp
    ultimately show ?thesis using "1.prems" by (auto simp: le_nat_iff)
  next
    case True
    define mid where "mid = low + (high - low) div 2"
    have mid: "low \<le> mid" "mid \<le> high" using True by (auto simp: mid_def)
    then have m: "nat mid < n" "int (nat mid) = mid" using "1.prems"(2,3) by auto
    consider (eq) "ids (nat mid) = ident" | (lt) "ids (nat mid) < ident" | (gt) "ident < ids (nat mid)"
      by (meson linorder_cases)
    then show ?thesis
    proof cases
      case eq
      then have "bisect ids ident low high = (True, mid)" using True by (subst bisect.simps) (simp add: mid_def)
      then show ?thesis using eq mid "1.prems"(2,3) by simp
    next
      case lt
      then have b: "bisect ids ident low high = bisect ids ident (mid + 1) high"
        using True less_imp_neq [OF lt] by (subst bisect.simps) (simp add: mid_def [symmetric] Let_def)
      have "ids j < ident" if "j < nat (mid + 1)" for j
        using "1.prems"(1) m lt that by (metis Suc_eq_plus1 int_nat_eq less_Suc_eq less_trans nat_int_comparison(1) nat_int_add of_nat_1 of_nat_eq_iff)
      then show ?thesis unfolding b
        using True lt less_imp_neq [OF lt] mid "1.prems"(1-4,6) by (intro "1.IH"(1) [OF True mid_def]) simp_all
    next
      case gt
      then have b: "bisect ids ident low high = bisect ids ident low (mid - 1)"
        using True less_imp_neq [OF gt, symmetric] less_not_sym [OF gt] by (subst bisect.simps) (simp add: mid_def [symmetric] Let_def)
      have "ident < ids j" if "mid - 1 < int j" "j < n" for j
      proof (cases "j = nat mid")
        case False
        then have "nat mid < j" using that m by linarith
        then show ?thesis using "1.prems"(1) that(2) gt by (meson less_trans)
      qed (use gt in simp)
      then show ?thesis unfolding b
        using True less_imp_neq [OF gt, symmetric] less_not_sym [OF gt] mid "1.prems"(1-5) by (intro "1.IH"(2) [OF True mid_def]) simp_all
    qed
  qed
qed

lemma catalog_ok_mono: "catalog_ok c \<Longrightarrow> \<forall>j < s_count c. \<forall>i < j. rr_id (s_pool c ! i) < rr_id (s_pool c ! j)"
  by (simp add: catalog_ok_def sorted_wrt_iff_nth_less)

lemma length_records [simp]: "catalog_ok c \<Longrightarrow> length (records c) = s_count c"
  by (simp add: catalog_ok_def records_def)

lemma nth_records [simp]: "i < s_count c \<Longrightarrow> records c ! i = s_pool c ! i"
  by (simp add: records_def)

lemma sorted_records: "catalog_ok c \<Longrightarrow> sorted_wrt (<) (map rr_id (records c))"
  by (simp add: catalog_ok_def records_def)

lemma distinct_records: "catalog_ok c \<Longrightarrow> distinct (map rr_id (records c))"
  using sorted_records strict_sorted_iff by blast

lemma bisect_pool:
  assumes "catalog_ok c"
  shows "case bisect (\<lambda>i. rr_id (s_pool c ! i)) ident 0 (int (s_count c) - 1) of
      (True, mid) \<Rightarrow> \<exists>i < s_count c. mid = int i \<and> rr_id (s_pool c ! i) = ident
    | (False, k) \<Rightarrow> \<exists>i \<le> s_count c. k = int i \<and> (\<forall>j < i. rr_id (s_pool c ! j) < ident) \<and>
        (\<forall>j. i \<le> j \<and> j < s_count c \<longrightarrow> ident < rr_id (s_pool c ! j))"
proof -
  have "case bisect (\<lambda>i. rr_id (s_pool c ! i)) ident 0 (int (s_count c) - 1) of
      (True, mid) \<Rightarrow> 0 \<le> mid \<and> mid < int (s_count c) \<and> rr_id (s_pool c ! nat mid) = ident
    | (False, k) \<Rightarrow> 0 \<le> k \<and> k \<le> int (s_count c) \<and> (\<forall>j < nat k. rr_id (s_pool c ! j) < ident) \<and>
        (\<forall>j. nat k \<le> j \<and> j < s_count c \<longrightarrow> ident < rr_id (s_pool c ! j))"
    by (rule bisect_spec [OF catalog_ok_mono [OF assms]]) auto
  moreover obtain b k where bk: "bisect (\<lambda>i. rr_id (s_pool c ! i)) ident 0 (int (s_count c) - 1) = (b, k)" by fastforce
  ultimately show ?thesis by (cases b) (auto intro!: exI [of _ "nat k"])
qed

text \<open>The search finds the record of an identifier in use and nothing else.\<close>

lemma find_index_cases:
  assumes "catalog_ok c"
  obtains (absent) "catalog_find_index ident c = - 1" "ident \<notin> rr_id ` set (records c)"
  | (found) i where "catalog_find_index ident c = int i" "i < s_count c" "rr_id (records c ! i) = ident"
proof (cases "bisect (\<lambda>i. rr_id (s_pool c ! i)) ident 0 (int (s_count c) - 1)")
  case (Pair b k)
  have d: "rr_id r \<noteq> ident" if "\<forall>j < i. rr_id (s_pool c ! j) < ident" "\<forall>j. i \<le> j \<and> j < s_count c \<longrightarrow> ident < rr_id (s_pool c ! j)"
      "r \<in> set (records c)" for r i
  proof -
    from that(3) assms obtain j where "j < s_count c" "r = s_pool c ! j" by (auto simp: in_set_conv_nth)
    then show ?thesis using that(1,2) by (metis linorder_not_le order_less_irrefl)
  qed
  show ?thesis
  proof (cases b)
    case True
    then show ?thesis using Pair bisect_pool [OF assms, of ident] found by (auto simp: catalog_find_index_def)
  next
    case False
    then show ?thesis using Pair bisect_pool [OF assms, of ident] d
      by (intro absent) (auto simp: catalog_find_index_def)
  qed
qed

lemma insertion_cases:
  assumes "catalog_ok c"
  obtains (found) i where "find_insertion_index ident c = int i" "i < s_count c" "rr_id (records c ! i) = ident"
  | (absent) i where "find_insertion_index ident c = int i" "i \<le> s_count c" "\<forall>r \<in> set (take i (records c)). rr_id r < ident"
      "\<forall>r \<in> set (drop i (records c)). ident < rr_id r"
proof (cases "bisect (\<lambda>i. rr_id (s_pool c ! i)) ident 0 (int (s_count c) - 1)")
  case (Pair b k)
  show ?thesis
  proof (cases b)
    case True
    then show ?thesis using Pair bisect_pool [OF assms, of ident] found by (auto simp: find_insertion_index_def)
  next
    case False
    then obtain i where i: "k = int i" "i \<le> s_count c" "\<forall>j < i. rr_id (s_pool c ! j) < ident"
        "\<forall>j. i \<le> j \<and> j < s_count c \<longrightarrow> ident < rr_id (s_pool c ! j)"
      using Pair bisect_pool [OF assms, of ident] by auto
    show ?thesis
      using False Pair i assms by (intro absent [of i]) (auto simp: find_insertion_index_def in_set_conv_nth)
  qed
qed

lemma catalog_find_map:
  assumes "catalog_ok c"
  shows "catalog_find ident c = catalog_map c ident"
proof -
  have d: "distinct (map fst (map (\<lambda>r. (rr_id r, r)) (records c)))"
    using distinct_records [OF assms] by (simp add: comp_def)
  show ?thesis
  proof (cases rule: find_index_cases [OF assms, of ident, case_names absent found])
    case absent
    then have "catalog_map c ident = None" by (auto simp: catalog_map_def map_of_eq_None_iff)
    then show ?thesis using absent by (simp add: catalog_find_def)
  next
    case (found i)
    then have "(ident, records c ! i) \<in> set (map (\<lambda>r. (rr_id r, r)) (records c))"
      using assms by (force simp: in_set_conv_nth)
    then have "catalog_map c ident = Some (records c ! i)" unfolding catalog_map_def using d by simp
    then show ?thesis using found by (simp add: catalog_find_def)
  qed
qed

text \<open>What the operations do to the list of records and to the map.\<close>

lemma sorted_insert:
  assumes "sorted_wrt (<) (map f xs)" "\<forall>x \<in> set (take i xs). f x < f y" "\<forall>x \<in> set (drop i xs). f y < (f x :: 'a :: linorder)"
  shows "sorted_wrt (<) (map f (take i xs @ y # drop i xs))"
proof -
  have "sorted_wrt (<) (map f (take i xs) @ map f (drop i xs))" using assms(1) by (metis append_take_drop_id map_append)
  then show ?thesis using assms(2,3) by (simp add: sorted_wrt_append)
qed

lemma sorted_remove: "sorted_wrt R (map f xs) \<Longrightarrow> sorted_wrt R (map f (take i xs @ drop (Suc i) xs))"
proof (induction xs arbitrary: i)
  case (Cons x xs)
  then show ?case by (cases i) (auto dest: in_set_takeD in_set_dropD)
qed simp

lemma map_of_insert_at:
  assumes "k \<notin> f ` set xs" "f y = k"
  shows "map_of (map (\<lambda>r. (f r, r)) (take i xs @ y # drop i xs)) = (map_of (map (\<lambda>r. (f r, r)) xs))(f y \<mapsto> y)"
proof -
  have "map_of (map (\<lambda>r. (f r, r)) xs) = map_of (map (\<lambda>r. (f r, r)) (take i xs) @ map (\<lambda>r. (f r, r)) (drop i xs))"
    by (metis append_take_drop_id map_append)
  moreover have "k \<notin> dom (map_of (map (\<lambda>r. (f r, r)) (take i xs)))"
    using assms by (auto simp: dom_map_of_conv_image_fst dest: in_set_takeD)
  ultimately show ?thesis using assms(2) by (auto simp: map_add_def fun_eq_iff domIff split: option.split)
qed

lemma map_of_remove_at:
  assumes "distinct (map f xs)" "i < length xs"
  shows "map_of (map (\<lambda>r. (f r, r)) (take i xs @ drop (Suc i) xs)) = (map_of (map (\<lambda>r. (f r, r)) xs))(f (xs ! i) := None)"
  using assms
proof (induction xs arbitrary: i)
  case (Cons x xs)
  show ?case
  proof (cases i)
    case 0
    then have "map_of (map (\<lambda>r. (f r, r)) xs) (f x) = None" using Cons.prems(1) by (auto simp: map_of_eq_None_iff)
    then show ?thesis using 0 by (auto simp: fun_eq_iff)
  next
    case (Suc j)
    then have "f x \<noteq> f (xs ! j)" using Cons.prems by auto
    then show ?thesis using Suc Cons by (auto simp: fun_eq_iff)
  qed
qed simp

lemma map_of_replace_at:
  assumes "distinct (map f xs)" "i < length xs" "f y = f (xs ! i)"
  shows "map_of (map (\<lambda>r. (f r, r)) (xs[i := y])) = (map_of (map (\<lambda>r. (f r, r)) xs))(f y \<mapsto> y)"
  using assms
proof (induction xs arbitrary: i)
  case (Cons x xs)
  have "f x \<noteq> f (xs ! j)" if "j < length xs" for j using Cons.prems(1) that by auto
  then show ?case using Cons by (cases i) (fastforce simp: fun_eq_iff)+
qed simp

lemma take_pool_move_up:
  assumes "i \<le> n" "n < length xs"
  shows "take (Suc n) ((pool_move (Suc i) i (n - i) xs)[i := y]) = take i (take n xs) @ y # drop i (take n xs)"
    and "length (pool_move (Suc i) i (n - i) xs) = length xs"
proof -
  show "length (pool_move (Suc i) i (n - i) xs) = length xs" using assms by (simp add: pool_move_def)
  have "take (Suc i) xs = take i xs @ [xs ! i]" using assms by (simp add: take_Suc_conv_app_nth)
  then have "pool_move (Suc i) i (n - i) xs = take i xs @ xs ! i # take (n - i) (drop i xs) @ drop (Suc n) xs"
    using assms by (simp add: pool_move_def)
  moreover obtain k where "n = i + k" using assms(1) le_Suc_ex by blast
  ultimately show "take (Suc n) ((pool_move (Suc i) i (n - i) xs)[i := y]) = take i (take n xs) @ y # drop i (take n xs)"
    using assms by (simp add: list_update_append drop_take)
qed

lemma take_pool_move_down:
  assumes "i < n" "n \<le> length xs"
  shows "take (n - 1) (pool_move i (Suc i) (n - i - 1) xs) = take i (take n xs) @ drop (Suc i) (take n xs)"
    and "length (pool_move i (Suc i) (n - i - 1) xs) = length xs"
proof -
  obtain k where "n = Suc (i + k)" using assms(1) less_imp_Suc_add by blast
  then show "take (n - 1) (pool_move i (Suc i) (n - i - 1) xs) = take i (take n xs) @ drop (Suc i) (take n xs)"
    "length (pool_move i (Suc i) (n - i - 1) xs) = length xs"
    using assms(2) by (simp_all add: pool_move_def drop_take)
qed

lemma catalog_insert_spec:
  assumes "catalog_ok c"
  shows "catalog_ok (snd (catalog_insert r c))"
    and "fst (catalog_insert r c) \<longleftrightarrow> catalog_map c (rr_id r) \<noteq> None \<or> s_count c < V3_CATALOG_MAX_RESOURCES"
    and "catalog_map (snd (catalog_insert r c)) =
      (if fst (catalog_insert r c) then (catalog_map c)(rr_id r \<mapsto> r) else catalog_map c)"
proof -
  have len: "length (s_pool c) = V3_CATALOG_MAX_RESOURCES" "s_count c \<le> V3_CATALOG_MAX_RESOURCES"
    using assms by (simp_all add: catalog_ok_def)
  have "catalog_ok (snd (catalog_insert r c)) \<and>
    (fst (catalog_insert r c) \<longleftrightarrow> catalog_map c (rr_id r) \<noteq> None \<or> s_count c < V3_CATALOG_MAX_RESOURCES) \<and>
    catalog_map (snd (catalog_insert r c)) = (if fst (catalog_insert r c) then (catalog_map c)(rr_id r \<mapsto> r) else catalog_map c)"
  proof (cases rule: insertion_cases [OF assms, of "rr_id r", case_names found absent])
    case (found i)
    then have c': "catalog_insert r c = (True, c\<lparr>s_pool := (s_pool c)[i := r]\<rparr>)" by (simp add: catalog_insert_def)
    have rs: "records (c\<lparr>s_pool := (s_pool c)[i := r]\<rparr>) = (records c)[i := r]" by (simp add: records_def take_update_swap)
    have "map rr_id ((records c)[i := r]) = map rr_id (records c)"
      using found by (simp add: map_update list_update_same_conv assms)
    then have "catalog_ok (c\<lparr>s_pool := (s_pool c)[i := r]\<rparr>)" using assms rs by (simp add: catalog_ok_def records_def)
    moreover have "catalog_map (c\<lparr>s_pool := (s_pool c)[i := r]\<rparr>) = (catalog_map c)(rr_id r \<mapsto> r)"
      unfolding catalog_map_def rs using found distinct_records [OF assms] assms by (simp add: map_of_replace_at)
    moreover have "catalog_map c (rr_id r) \<noteq> None"
    proof -
      have "records c ! i \<in> set (records c)" using nth_mem [of i "records c"] found(2) assms by simp
      then have "rr_id r \<in> rr_id ` set (records c)" using found(3) by (metis image_eqI)
      then show ?thesis by (auto simp: catalog_map_def map_of_eq_None_iff image_image)
    qed
    ultimately show ?thesis by (simp add: c')
  next
    case (absent i)
    have "rr_id x \<noteq> rr_id r" if "x \<in> set (records c)" for x
      using absent(3,4) that by (metis Un_iff append_take_drop_id less_irrefl set_append)
    then have ni: "rr_id r \<notin> rr_id ` set (records c)" by (metis imageE)
    then have none: "catalog_map c (rr_id r) = None" by (auto simp: catalog_map_def map_of_eq_None_iff)
    have nf: "\<not> (i < s_count c \<and> rr_id (s_pool c ! i) = rr_id r)"
      using ni assms by (metis image_eqI length_records nth_mem nth_records)
    show ?thesis
    proof (cases "s_count c < V3_CATALOG_MAX_RESOURCES")
      case False
      then have "catalog_insert r c = (False, c)" using absent nf by (auto simp: catalog_insert_def Let_def)
      then show ?thesis using False none assms by simp
    next
      case True
      define c' where "c' = c\<lparr>s_pool := (if i < s_count c then pool_move (Suc i) i (s_count c - i) (s_pool c) else s_pool c)[i := r],
        s_count := Suc (s_count c)\<rparr>"
      have c': "catalog_insert r c = (True, c')" using True absent nf by (auto simp: catalog_insert_def c'_def Let_def)
      have "records c' = take i (records c) @ r # drop i (records c)" "length (s_pool c') = length (s_pool c)"
        using True absent(2) len take_pool_move_up(1) [of i "s_count c" "s_pool c" r] take_pool_move_up(2) [of i "s_count c" "s_pool c"]
        by (auto simp: c'_def records_def take_Suc_conv_app_nth)
      moreover have "sorted_wrt (<) (map rr_id (take i (records c) @ r # drop i (records c)))"
        by (rule sorted_insert [OF sorted_records [OF assms] absent(3,4)])
      ultimately have "catalog_ok c'" "catalog_map c' = (catalog_map c)(rr_id r \<mapsto> r)"
        using True len map_of_insert_at [OF ni refl, of i] by (simp_all add: catalog_ok_def catalog_map_def records_def c'_def)
      then show ?thesis using c' True by simp
    qed
  qed
  then show "catalog_ok (snd (catalog_insert r c))"
    "fst (catalog_insert r c) \<longleftrightarrow> catalog_map c (rr_id r) \<noteq> None \<or> s_count c < V3_CATALOG_MAX_RESOURCES"
    "catalog_map (snd (catalog_insert r c)) = (if fst (catalog_insert r c) then (catalog_map c)(rr_id r \<mapsto> r) else catalog_map c)"
    by blast+
qed

lemma catalog_remove_spec:
  assumes "catalog_ok c"
  shows "catalog_ok (snd (remove_record ident c))"
    and "fst (remove_record ident c) \<longleftrightarrow> catalog_map c ident \<noteq> None"
    and "catalog_map (snd (remove_record ident c)) = (catalog_map c)(ident := None)"
proof -
  have len: "length (s_pool c) = V3_CATALOG_MAX_RESOURCES" "s_count c \<le> V3_CATALOG_MAX_RESOURCES"
    using assms by (simp_all add: catalog_ok_def)
  have "catalog_ok (snd (remove_record ident c)) \<and> (fst (remove_record ident c) \<longleftrightarrow> catalog_map c ident \<noteq> None) \<and>
    catalog_map (snd (remove_record ident c)) = (catalog_map c)(ident := None)"
  proof (cases rule: find_index_cases [OF assms, of ident, case_names absent found])
    case absent
    then have "catalog_map c ident = None" by (auto simp: catalog_map_def map_of_eq_None_iff)
    then show ?thesis using absent assms by (auto simp: remove_record_def fun_eq_iff)
  next
    case (found i)
    define c' where "c' = c\<lparr>s_pool := (if Suc i < s_count c then pool_move i (Suc i) (s_count c - i - 1) (s_pool c) else s_pool c),
      s_count := s_count c - 1\<rparr>"
    have c': "remove_record ident c = (True, c')" using found by (auto simp: remove_record_def c'_def Let_def)
    have rs: "records c' = take i (records c) @ drop (Suc i) (records c)" "length (s_pool c') = length (s_pool c)"
    proof -
      have p: "take (s_count c - 1) (pool_move i (Suc i) (s_count c - i - 1) (s_pool c)) = take i (records c) @ drop (Suc i) (records c)"
        "length (pool_move i (Suc i) (s_count c - i - 1) (s_pool c)) = length (s_pool c)"
        unfolding records_def by (rule take_pool_move_down [OF found(2)]; simp add: len)+
      show "records c' = take i (records c) @ drop (Suc i) (records c)"
        using p(1) found(2) by (cases "s_count c = Suc i") (simp_all add: c'_def records_def)
      show "length (s_pool c') = length (s_pool c)" using p(2) by (simp add: c'_def)
    qed
    have "catalog_ok c'" using rs len sorted_remove [OF sorted_records [OF assms], of i] by (simp add: catalog_ok_def records_def c'_def)
    moreover have "catalog_map c' = (catalog_map c)(ident := None)"
      using rs(1) map_of_remove_at [OF distinct_records [OF assms], of i] found assms by (simp add: catalog_map_def)
    moreover have "catalog_map c ident = Some (s_pool c ! i)"
      using found catalog_find_map [OF assms, of ident] by (simp add: catalog_find_def)
    ultimately show ?thesis using c' by simp
  qed
  then show "catalog_ok (snd (remove_record ident c))" "fst (remove_record ident c) \<longleftrightarrow> catalog_map c ident \<noteq> None"
    "catalog_map (snd (remove_record ident c)) = (catalog_map c)(ident := None)" by blast+
qed

text \<open>Both updates change a field of the record that the search finds, which keeps its identifier.\<close>

lemma catalog_update_spec:
  assumes "catalog_ok c" "\<And>r. rr_id (f r) = rr_id r"
    and u: "u = (let idx = catalog_find_index ident c in
      if idx = - 1 then (False, c) else (True, c\<lparr>s_pool := (s_pool c)[nat idx := f (s_pool c ! nat idx)]\<rparr>))"
  shows "catalog_ok (snd u)" "fst u \<longleftrightarrow> catalog_map c ident \<noteq> None"
    and "catalog_map (snd u) = (catalog_map c)(ident := map_option f (catalog_map c ident))"
proof -
  have "catalog_ok (snd u) \<and> (fst u \<longleftrightarrow> catalog_map c ident \<noteq> None) \<and>
    catalog_map (snd u) = (catalog_map c)(ident := map_option f (catalog_map c ident))"
  proof (cases rule: find_index_cases [OF assms(1), of ident, case_names absent found])
    case absent
    then have "catalog_map c ident = None" by (auto simp: catalog_map_def map_of_eq_None_iff)
    then show ?thesis using absent assms(1) by (auto simp: u fun_eq_iff)
  next
    case (found i)
    let ?r = "f (s_pool c ! i)"
    have m: "catalog_map c ident = Some (s_pool c ! i)"
      using found catalog_find_map [OF assms(1), of ident] by (simp add: catalog_find_def)
    have u': "u = (True, c\<lparr>s_pool := (s_pool c)[i := ?r]\<rparr>)" using found by (simp add: u)
    have rs: "records (c\<lparr>s_pool := (s_pool c)[i := ?r]\<rparr>) = (records c)[i := ?r]" by (simp add: records_def take_update_swap)
    have "map rr_id ((records c)[i := ?r]) = map rr_id (records c)"
      using found by (simp add: map_update list_update_same_conv assms)
    then have "catalog_ok (c\<lparr>s_pool := (s_pool c)[i := ?r]\<rparr>)" using assms(1) rs by (simp add: catalog_ok_def records_def)
    moreover have "catalog_map (c\<lparr>s_pool := (s_pool c)[i := ?r]\<rparr>) = (catalog_map c)(ident \<mapsto> ?r)"
      unfolding catalog_map_def rs using found distinct_records [OF assms(1)] assms by (simp add: map_of_replace_at)
    ultimately show ?thesis using m by (simp add: u')
  qed
  then show "catalog_ok (snd u)" "fst u \<longleftrightarrow> catalog_map c ident \<noteq> None"
    "catalog_map (snd u) = (catalog_map c)(ident := map_option f (catalog_map c ident))" by blast+
qed

lemmas update_desired_spec = catalog_update_spec [OF _ _ update_desired_def, simplified]
lemmas update_reported_spec = catalog_update_spec [OF _ _ update_reported_def, simplified]

lemma dom_catalog_map: "dom (catalog_map c) = rr_id ` set (records c)"
  by (auto simp: catalog_map_def dom_map_of_conv_image_fst image_image)

lemma card_catalog_map: "catalog_ok c \<Longrightarrow> card (dom (catalog_map c)) = s_count c"
  using distinct_card [OF distinct_records] by (simp add: dom_catalog_map)

text \<open>The calls of the interface table, and what they answer on a map with room for 1024 resources.\<close>

datatype catalog_op = Insert resource_record_t | Find resource_id_t | Update_desired resource_id_t u32
  | Update_reported resource_id_t u32 | Remove resource_id_t

datatype catalog_result = Done bool | Found "resource_record_t option"

fun catalog_call :: "catalog_op \<Rightarrow> catalog \<Rightarrow> catalog_result \<times> catalog" where
  "catalog_call (Insert r) c = apfst Done (catalog_insert r c)"
| "catalog_call (Find k) c = (Found (catalog_find k c), c)"
| "catalog_call (Update_desired k v) c = apfst Done (v3_automation_write_desired k v c)"
| "catalog_call (Update_reported k v) c = apfst Done (v3_automation_update_reported k v c)"
| "catalog_call (Remove k) c = apfst Done (remove_record k c)"

fun map_call :: "catalog_op \<Rightarrow> (resource_id_t \<rightharpoonup> resource_record_t) \<Rightarrow> catalog_result \<times> (resource_id_t \<rightharpoonup> resource_record_t)" where
  "map_call (Insert r) m =
     (if m (rr_id r) \<noteq> None \<or> card (dom m) < V3_CATALOG_MAX_RESOURCES then (Done True, m(rr_id r \<mapsto> r)) else (Done False, m))"
| "map_call (Find k) m = (Found (m k), m)"
| "map_call (Update_desired k v) m = (Done (m k \<noteq> None), m(k := map_option (\<lambda>r. r\<lparr>rr_desired_state := v\<rparr>) (m k)))"
| "map_call (Update_reported k v) m = (Done (m k \<noteq> None), m(k := map_option (\<lambda>r. r\<lparr>rr_reported_state := v\<rparr>) (m k)))"
| "map_call (Remove k) m = (Done (m k \<noteq> None), m(k := None))"

fun run_calls :: "('op \<Rightarrow> 's \<Rightarrow> 'r \<times> 's) \<Rightarrow> 'op list \<Rightarrow> 's \<Rightarrow> 'r list \<times> 's" where
  "run_calls f [] s = ([], s)"
| "run_calls f (x # xs) s = (let (r, s) = f x s; (rs, s) = run_calls f xs s in (r # rs, s))"

lemma catalog_call_refines:
  assumes "catalog_ok c"
  shows "catalog_ok (snd (catalog_call x c))" "apsnd catalog_map (catalog_call x c) = map_call x (catalog_map c)"
proof -
  show "catalog_ok (snd (catalog_call x c))"
    by (cases x) (simp_all add: assms catalog_insert_spec update_desired_spec update_reported_spec catalog_remove_spec
        v3_automation_write_desired_def v3_automation_update_reported_def)
  show "apsnd catalog_map (catalog_call x c) = map_call x (catalog_map c)"
    using assms by (cases x) (simp_all add: prod_eq_iff catalog_insert_spec update_desired_spec update_reported_spec
        catalog_remove_spec catalog_find_map card_catalog_map v3_automation_write_desired_def v3_automation_update_reported_def)
qed

lemma catalog_run_refines:
  "catalog_ok c \<Longrightarrow> catalog_ok (snd (run_calls catalog_call xs c)) \<and>
     apsnd catalog_map (run_calls catalog_call xs c) = run_calls map_call xs (catalog_map c)"
proof (induction xs arbitrary: c)
  case (Cons x xs)
  obtain r c' where c': "catalog_call x c = (r, c')" by fastforce
  have "map_call x (catalog_map c) = (r, catalog_map c')" "catalog_ok c'"
    using catalog_call_refines [OF Cons.prems, of x] c' by simp_all
  then show ?case using Cons.IH [of c'] c' by (auto simp: prod_eq_iff split: prod.split)
qed simp

text \<open>
  C27: the catalogue is a map. Whatever calls of its interface run from a catalogue with sorted identifiers on, the
  bisection, the insertions and the removals by \<open>memmove\<close> answer every call as a finite map with room for 1024 resources does, and
  the array stays sorted.
\<close>

theorem catalog_refines_map:
  assumes "catalog_ok c"
  shows "fst (run_calls catalog_call xs c) = fst (run_calls map_call xs (catalog_map c)) \<and>
    catalog_map (snd (run_calls catalog_call xs c)) = snd (run_calls map_call xs (catalog_map c)) \<and>
    catalog_ok (snd (run_calls catalog_call xs c))"
  using catalog_run_refines [OF assms, of xs] by (auto simp: prod_eq_iff)

text \<open>Two resources are entered in the wrong order, found, updated and removed.\<close>

definition zero_record :: resource_record_t where
  "zero_record = \<lparr>rr_id = 0, rr_key = 0, rr_last_seen_tick = 0, rr_status = 0, rr_sync_flags = 0, rr_desired_state = 0, rr_reported_state = 0\<rparr>"

definition empty_catalog :: catalog where
  "empty_catalog = \<lparr>s_pool = replicate V3_CATALOG_MAX_RESOURCES zero_record, s_count = 0\<rparr>"

lemma empty_catalog_ok [simp]: "catalog_ok empty_catalog"
  by (simp add: catalog_ok_def empty_catalog_def)

lemma empty_catalog_map [simp]: "catalog_map empty_catalog = Map.empty"
  by (simp add: catalog_map_def records_def empty_catalog_def)

theorem catalog_refines_map_witness:
  "fst (run_calls catalog_call [Insert (zero_record\<lparr>rr_id := 7\<rparr>), Insert (zero_record\<lparr>rr_id := 3\<rparr>), Update_desired 7 1, Find 7, Remove 3, Find 3] empty_catalog) =
     [Done True, Done True, Done True, Found (Some (zero_record\<lparr>rr_id := 7, rr_desired_state := 1\<rparr>)), Done True, Found None]"
  using catalog_refines_map [OF empty_catalog_ok, of "[Insert (zero_record\<lparr>rr_id := 7\<rparr>), Insert (zero_record\<lparr>rr_id := 3\<rparr>), Update_desired 7 1, Find 7, Remove 3, Find 3]"]
  by (simp add: V3_CATALOG_MAX_RESOURCES_def)

section \<open>v3\_api.c\<close>

definition V3_API_STREAM_BUFFER_SIZE :: nat where "V3_API_STREAM_BUFFER_SIZE = 512"

text \<open>The text that \<open>snprintf\<close> writes for a record; it always fits the line of 128 bytes.\<close>

definition ndjson_line :: "resource_record_t \<Rightarrow> bytes" where
  "ndjson_line r = str_bytes ''{\"id\":\"'' @ c_udec (unat (rr_id r)) @ str_bytes ''\",\"k\":\"'' @ c_udec (unat (rr_key r)) @
     str_bytes ''\",\"s\":'' @ c_udec (unat (rr_status r)) @ str_bytes '',\"t\":'' @ c_udec (unat (rr_last_seen_tick r)) @
     str_bytes '',\"d\":'' @ c_udec (unat (rr_desired_state r)) @ str_bytes '',\"r\":'' @ c_udec (unat (rr_reported_state r)) @
     str_bytes ''}'' @ [10]"

text \<open>One round of the loop: the buffer is passed to the sink when the line does not fit any more.\<close>

definition stream_record :: "resource_record_t \<Rightarrow> bytes \<times> bytes list \<times> resource_id_t \<Rightarrow> bytes \<times> bytes list \<times> resource_id_t" where
  "stream_record rec x =
     (case x of (buf, out, last_id) \<Rightarrow>
      let line = ndjson_line rec;
          (buf, out) = (if V3_API_STREAM_BUFFER_SIZE \<le> length buf + length line then ([], out @ [buf]) else (buf, out))
      in (buf @ line, out, rr_id rec))"

definition stream_start :: "resource_id_t \<Rightarrow> catalog \<Rightarrow> nat" where
  "stream_start after_id c =
     (if after_id \<noteq> 0
      then case bisect (\<lambda>i. rr_id (the (get_by_index i c))) after_id 0 (int (catalog_size c) - 1) of
          (True, found_idx) \<Rightarrow> nat found_idx + 1
        | (False, _) \<Rightarrow> 0
      else 0)"

text \<open>
  \<open>v3_api_stream_catalog_ndjson\<close> with the cursor \<open>after_id\<close> and \<open>limit\<close>: the identifier it returns and the chunks that
  the sink receives. Without sink or cursor it does nothing.
\<close>

definition v3_api_stream_catalog_ndjson :: "bool \<Rightarrow> (resource_id_t \<times> u16) option \<Rightarrow> catalog \<Rightarrow> resource_id_t \<times> bytes list" where
  "v3_api_stream_catalog_ndjson sink cursor c =
     (case cursor of
        None \<Rightarrow> (0, [])
      | Some (after_id, limit) \<Rightarrow>
          if \<not> sink then (0, [])
          else let total = catalog_size c; start_index = stream_start after_id c;
              (buf, out, last_id) = fold (\<lambda>i. stream_record (the (get_by_index i c)))
                [start_index..<min total (start_index + unat limit)] ([], [], 0)
            in (last_id, if buf = [] then out else out @ [buf]))"

lemma ndjson_line_fits: "0 < length (ndjson_line r) \<and> length (ndjson_line r) < 128"
proof -
  have "unat x < 2 ^ LENGTH(64)" for x :: u64 by (rule unsigned_less)
  then have "unat x < 10 ^ 20" for x :: u64 using less_trans [of "unat x" "2 ^ 64" "10 ^ 20"] by simp
  moreover have "unat (rr_status r) < 10 ^ 5" by (rule less_trans [OF unat_u16_lt]) simp
  moreover have "unat x < 10 ^ 10" for x :: u32
  proof -
    have "unat x < 2 ^ LENGTH(32)" by (rule unsigned_less)
    then show ?thesis by simp
  qed
  ultimately show ?thesis
    using length_c_udec [of "unat (rr_id r)" 20] length_c_udec [of "unat (rr_key r)" 20] length_c_udec [of "unat (rr_status r)" 5]
      length_c_udec [of "unat (rr_last_seen_tick r)" 10] length_c_udec [of "unat (rr_desired_state r)" 10]
      length_c_udec [of "unat (rr_reported_state r)" 10]
    by (simp add: ndjson_line_def str_bytes_def)
qed

section \<open>The interface of the catalogue\<close>

text \<open>
  What the listing needs of \<open>resource_backend_interface\<close>: the records have the places from 0 up to the size, in
  the order of their identifiers.
\<close>

locale resource_backend =
  fixes get :: "nat \<Rightarrow> 'c \<Rightarrow> resource_record_t option" and number :: "'c \<Rightarrow> nat" and ok :: "'c \<Rightarrow> bool"
  assumes get_iff: "ok c \<Longrightarrow> get i c \<noteq> None \<longleftrightarrow> i < number c"
    and get_less: "ok c \<Longrightarrow> i < j \<Longrightarrow> get i c = Some r \<Longrightarrow> get j c = Some r' \<Longrightarrow> rr_id r < rr_id r'"
begin

definition listing :: "'c \<Rightarrow> resource_record_t list" where
  "listing c = map (\<lambda>i. the (get i c)) [0..<number c]"

lemma listing_less: "ok c \<Longrightarrow> i < j \<Longrightarrow> j < number c \<Longrightarrow> rr_id (the (get i c)) < rr_id (the (get j c))"
  using get_iff [of c i] get_iff [of c j] get_less [of c i j] by fastforce

lemma listing_after:
  assumes "ok c" "k < number c" "rr_id (the (get k c)) = ident"
  shows "filter (\<lambda>r. ident < rr_id r) (listing c) = drop (Suc k) (listing c)"
proof -
  have l: "ident < rr_id (listing c ! i) \<longleftrightarrow> k < i" if "i < number c" for i
  proof -
    have "listing c ! i = the (get i c)" using that by (simp add: listing_def)
    then show ?thesis using that assms listing_less [of c k i] listing_less [of c i k]
      by (cases i k rule: linorder_cases) (simp_all add: less_not_sym)
  qed
  have "length (listing c) = number c" by (simp add: listing_def)
  then have "filter (\<lambda>r. ident < rr_id r) (take (Suc k) (listing c)) = []"
    "filter (\<lambda>r. ident < rr_id r) (drop (Suc k) (listing c)) = drop (Suc k) (listing c)"
    using l assms(2) by (auto simp: filter_empty_conv filter_id_conv in_set_conv_nth)
  then show ?thesis by (metis append_Nil append_take_drop_id filter_append)
qed

lemma search_listing:
  assumes "ok c"
  shows "case bisect (\<lambda>i. rr_id (the (get i c))) ident 0 (int (number c) - 1) of
      (True, mid) \<Rightarrow> filter (\<lambda>r. ident < rr_id r) (listing c) = drop (nat mid + 1) (listing c) \<and> ident \<in> rr_id ` set (listing c)
    | (False, _) \<Rightarrow> ident \<notin> rr_id ` set (listing c)"
proof -
  obtain b k where bk: "bisect (\<lambda>i. rr_id (the (get i c))) ident 0 (int (number c) - 1) = (b, k)" by fastforce
  have s: "case bisect (\<lambda>i. rr_id (the (get i c))) ident 0 (int (number c) - 1) of
      (True, mid) \<Rightarrow> 0 \<le> mid \<and> mid < int (number c) \<and> rr_id (the (get (nat mid) c)) = ident
    | (False, k) \<Rightarrow> 0 \<le> k \<and> k \<le> int (number c) \<and> (\<forall>j < nat k. rr_id (the (get j c)) < ident) \<and>
        (\<forall>j. nat k \<le> j \<and> j < number c \<longrightarrow> ident < rr_id (the (get j c)))"
    using listing_less [OF assms] by (intro bisect_spec) auto
  show ?thesis
  proof (cases b)
    case True
    then have "nat k < number c" "rr_id (the (get (nat k) c)) = ident" using s bk by auto
    moreover from this have "ident \<in> rr_id ` set (listing c)" by (force simp: listing_def)
    ultimately show ?thesis using True bk listing_after [OF assms, of "nat k" ident] by simp
  next
    case False
    have "rr_id (the (get j c)) \<noteq> ident" if "j < number c" for j
    proof -
      have "\<forall>j < nat k. rr_id (the (get j c)) < ident" "\<forall>j. nat k \<le> j \<and> j < number c \<longrightarrow> ident < rr_id (the (get j c))"
        using s bk False by auto
      then show ?thesis using that by (metis linorder_not_le order_less_irrefl)
    qed
    then have "ident \<notin> rr_id ` set (listing c)" by (simp add: listing_def image_iff) (metis atLeastLessThan_iff)
    then show ?thesis using False bk by simp
  qed
qed

end

interpretation backend: resource_backend get_by_index catalog_size catalog_ok
  by unfold_locales (auto simp: get_by_index_def catalog_size_def dest: catalog_ok_mono split: if_splits)

lemma backend_listing: "catalog_ok c \<Longrightarrow> backend.listing c = records c"
  by (intro nth_equalityI) (simp_all add: backend.listing_def catalog_size_def get_by_index_def)

text \<open>The loop passes the lines of its records to the sink, in chunks that fit the buffer.\<close>

lemma stream_loop:
  assumes "length buf < 512" "\<forall>x \<in> set out. 0 < length x \<and> length x < 512"
  shows "case fold stream_record rs (buf, out, last_id) of (buf', out', last') \<Rightarrow>
    concat out' @ buf' = concat out @ buf @ concat (map ndjson_line rs) \<and> length buf' < 512 \<and>
    (\<forall>x \<in> set out'. 0 < length x \<and> length x < 512) \<and> last' = (if rs = [] then last_id else rr_id (last rs))"
  using assms
proof (induction rs arbitrary: buf out last_id)
  case (Cons r rs)
  define b o' where "b = (if 512 \<le> length buf + length (ndjson_line r) then [] else buf)"
    and "o' = (if 512 \<le> length buf + length (ndjson_line r) then out @ [buf] else out)"
  have st: "stream_record r (buf, out, last_id) = (b @ ndjson_line r, o', rr_id r)"
    by (simp add: stream_record_def V3_API_STREAM_BUFFER_SIZE_def b_def o'_def)
  have "length (b @ ndjson_line r) < 512" "\<forall>x \<in> set o'. 0 < length x \<and> length x < 512"
    using ndjson_line_fits [of r] Cons.prems by (auto simp: b_def o'_def)
  moreover have "concat o' @ b @ xs = concat out @ buf @ xs" for xs by (simp add: b_def o'_def)
  ultimately show ?case unfolding fold_simps comp_apply st
    using Cons.IH [of "b @ ndjson_line r" o' "rr_id r"] by (cases "fold stream_record rs (b @ ndjson_line r, o', rr_id r)") simp
qed simp

lemma stream_start_drop:
  assumes "catalog_ok c"
  shows "drop (stream_start after_id c) (records c) =
    (if after_id = 0 \<or> after_id \<notin> rr_id ` set (records c) then records c else filter (\<lambda>r. after_id < rr_id r) (records c))"
  using backend.search_listing [OF assms, of after_id]
  by (auto simp: stream_start_def backend_listing [OF assms] split: prod.splits bool.splits)

text \<open>
  A page of the listing. The chunks that the sink receives are the lines of the first \<open>limit\<close> records behind the cursor,
  in the order of their identifiers; each chunk fits the buffer of 512 bytes, and the identifier that is returned is that of the last record, the
  cursor of the next page, or 0 when there is none. When the resource of the cursor has been removed, the listing starts over.
\<close>

theorem catalog_page:
  assumes "catalog_ok c"
    and "page = take (unat limit) (if after_id = 0 \<or> catalog_map c after_id = None then records c
      else filter (\<lambda>r. after_id < rr_id r) (records c))"
    and "v3_api_stream_catalog_ndjson True (Some (after_id, limit)) c = (last_id, chunks)"
  shows "concat chunks = concat (map ndjson_line page) \<and> (\<forall>x \<in> set chunks. 0 < length x \<and> length x < V3_API_STREAM_BUFFER_SIZE) \<and>
    last_id = (if page = [] then 0 else rr_id (last page))"
proof -
  let ?st = "stream_start after_id c"
  have "catalog_map c after_id = None \<longleftrightarrow> after_id \<notin> rr_id ` set (records c)" by (metis dom_catalog_map domIff)
  then have p: "page = take (unat limit) (drop ?st (records c))" using assms(2) stream_start_drop [OF assms(1)] by simp
  also have "\<dots> = map (\<lambda>i. records c ! i) [?st..<min (s_count c) (?st + unat limit)]"
  proof -
    have "take (unat limit) (drop ?st [0..<s_count c]) = [?st..<min (s_count c) (?st + unat limit)]"
      by (cases "?st + unat limit \<le> s_count c") (simp_all add: min_def)
    moreover have "records c = map (\<lambda>i. records c ! i) [0..<s_count c]" using assms(1) map_nth [of "records c"] by simp
    ultimately show ?thesis by (metis drop_map take_map)
  qed
  also have "\<dots> = map (\<lambda>i. the (get_by_index i c)) [?st..<min (s_count c) (?st + unat limit)]"
    by (simp add: get_by_index_def)
  finally have f: "fold (\<lambda>i. stream_record (the (get_by_index i c))) [?st..<min (s_count c) (?st + unat limit)] x = fold stream_record page x" for x
    by (simp add: fold_map comp_def)
  obtain buf out l where r: "fold stream_record page ([], [], 0) = (buf, out, l)" by (metis prod_cases3)
  then have "last_id = l" "chunks = (if buf = [] then out else out @ [buf])"
    using assms(3) f by (simp_all add: v3_api_stream_catalog_ndjson_def catalog_size_def)
  then show ?thesis using stream_loop [of "[]" "[]" page 0] r by (auto simp: V3_API_STREAM_BUFFER_SIZE_def)
qed

text \<open>The second page of three resources.\<close>

definition demo_catalog :: catalog where
  "demo_catalog = \<lparr>s_pool = map (\<lambda>i. zero_record\<lparr>rr_id := i\<rparr>) [3, 7, 9] @ replicate 1021 zero_record, s_count = 3\<rparr>"

theorem catalog_page_witness:
  "fst (v3_api_stream_catalog_ndjson True (Some (3, 2)) demo_catalog) = 9 \<and>
   concat (snd (v3_api_stream_catalog_ndjson True (Some (3, 2)) demo_catalog)) =
     ndjson_line (zero_record\<lparr>rr_id := 7\<rparr>) @ ndjson_line (zero_record\<lparr>rr_id := 9\<rparr>)"
proof -
  have ok: "catalog_ok demo_catalog" by (simp add: catalog_ok_def demo_catalog_def V3_CATALOG_MAX_RESOURCES_def)
  have p: "take (unat (2 :: u16)) (if (3 :: u64) = 0 \<or> catalog_map demo_catalog 3 = None then records demo_catalog
      else filter (\<lambda>r. 3 < rr_id r) (records demo_catalog)) = [zero_record\<lparr>rr_id := 7\<rparr>, zero_record\<lparr>rr_id := 9\<rparr>]"
    by (simp add: catalog_map_def records_def demo_catalog_def)
  show ?thesis
    using catalog_page [OF ok p [symmetric] prod.collapse [symmetric]] by (simp add: zero_record_def)
qed

section \<open>v3\_events.c\<close>

definition V3_EVENTS_QUEUE_SIZE :: nat where "V3_EVENTS_QUEUE_SIZE = 256"

definition V3_EVENTS_MASK :: nat where "V3_EVENTS_MASK = V3_EVENTS_QUEUE_SIZE - 1"

datatype v3_event_type_t = RESOURCE_EVT_CREATED | RESOURCE_EVT_ONLINE | RESOURCE_EVT_OFFLINE | RESOURCE_EVT_LOST | RESOURCE_EVT_REMOVED

record v3_event_t =
  ve_resource_id :: resource_id_t
  ve_timestamp_epoch :: u32
  ve_type :: v3_event_type_t

record event_queue =
  eq_queue :: "v3_event_t list"
  eq_head :: nat
  eq_tail :: nat
  eq_count :: nat
  eq_drop_count :: u32

text \<open>\<open>v3_events_post\<close> at the tick \<open>now\<close>: a full queue drops its oldest event.\<close>

definition v3_events_post :: "u32 \<Rightarrow> resource_id_t \<Rightarrow> v3_event_type_t \<Rightarrow> event_queue \<Rightarrow> event_queue" where
  "v3_events_post now ident type q =
     (let q = (if eq_count q = V3_EVENTS_QUEUE_SIZE
            then q\<lparr>eq_tail := (eq_tail q + 1) AND V3_EVENTS_MASK, eq_drop_count := eq_drop_count q + 1\<rparr>
            else q\<lparr>eq_count := eq_count q + 1\<rparr>)
      in q\<lparr>eq_queue := (eq_queue q)[eq_head q := \<lparr>ve_resource_id = ident, ve_timestamp_epoch = now, ve_type = type\<rparr>],
           eq_head := (eq_head q + 1) AND V3_EVENTS_MASK\<rparr>)"

text \<open>The loop of \<open>v3_events_poll\<close> that copies \<open>n\<close> events.\<close>

fun poll_loop :: "nat \<Rightarrow> event_queue \<Rightarrow> v3_event_t list \<times> event_queue" where
  "poll_loop 0 q = ([], q)"
| "poll_loop (Suc n) q =
     (let e = eq_queue q ! eq_tail q; (es, q) = poll_loop n (q\<lparr>eq_tail := (eq_tail q + 1) AND V3_EVENTS_MASK\<rparr>) in (e # es, q))"

text \<open>A batch of \<open>max_count\<close> places, or no batch (\<open>NULL\<close>).\<close>

definition v3_events_poll :: "bool \<Rightarrow> nat \<Rightarrow> event_queue \<Rightarrow> v3_event_t list \<times> event_queue" where
  "v3_events_poll out_batch max_count q =
     (if \<not> out_batch \<or> max_count = 0 then ([], q)
      else let to_read = (if eq_count q < max_count then eq_count q else max_count); (es, q) = poll_loop to_read q
        in (es, q\<lparr>eq_count := eq_count q - to_read\<rparr>))"

definition v3_events_get_drop_count :: "event_queue \<Rightarrow> u32" where
  "v3_events_get_drop_count q = eq_drop_count q"

definition event_queue_ok :: "event_queue \<Rightarrow> bool" where
  "event_queue_ok q \<longleftrightarrow> length (eq_queue q) = 256 \<and> eq_tail q < 256 \<and> eq_count q \<le> 256 \<and> eq_head q = (eq_tail q + eq_count q) mod 256"

definition queued :: "event_queue \<Rightarrow> v3_event_t list" where
  "queued q = map (\<lambda>i. eq_queue q ! ((eq_tail q + i) mod 256)) [0..<eq_count q]"

lemma and_events_mask: "n AND V3_EVENTS_MASK = n mod 256"
proof -
  have "V3_EVENTS_MASK = mask 8" by (simp add: V3_EVENTS_MASK_def V3_EVENTS_QUEUE_SIZE_def mask_eq_exp_minus_1)
  then have "n AND V3_EVENTS_MASK = take_bit 8 n" by (simp only: take_bit_eq_mask)
  then show ?thesis by (simp add: take_bit_eq_mod)
qed

lemma mod_add_inject:
  assumes "i < n" "j < n"
  shows "(t + i) mod n = (t + j) mod n \<longleftrightarrow> i = (j :: nat)"
proof
  assume "(t + i) mod n = (t + j) mod n"
  then obtain p q where "t + i + n * p = t + j + n * q" unfolding nat_mod_eq_iff by blast
  then have "(i + n * p) mod n = (j + n * q) mod n" by simp
  then show "i = j" using assms by simp
qed simp

lemma v3_events_post_queued:
  assumes "event_queue_ok q"
  shows "event_queue_ok (v3_events_post now ident type q)"
    and "queued (v3_events_post now ident type q) = (if eq_count q = 256 then tl (queued q) else queued q) @
      [\<lparr>ve_resource_id = ident, ve_timestamp_epoch = now, ve_type = type\<rparr>]"
proof -
  let ?e = "\<lparr>ve_resource_id = ident, ve_timestamp_epoch = now, ve_type = type\<rparr>" and ?q = "v3_events_post now ident type q"
  define n where "n = (if eq_count q = 256 then 255 else eq_count q)"
  have q: "length (eq_queue q) = 256" "eq_tail q < 256" "eq_count q \<le> 256" "eq_head q = (eq_tail q + eq_count q) mod 256"
    using assms by (simp_all add: event_queue_ok_def)
  have c: "eq_count ?q = Suc n" "eq_tail ?q = (if eq_count q = 256 then (eq_tail q + 1) mod 256 else eq_tail q)"
    "eq_queue ?q = (eq_queue q)[eq_head q := ?e]" "eq_head ?q = (eq_head q + 1) mod 256"
    by (simp_all add: v3_events_post_def Let_def V3_EVENTS_QUEUE_SIZE_def and_events_mask n_def)
  have h: "eq_head q = (eq_tail ?q + n) mod 256" using q(2,4) by (auto simp: c(2) n_def mod_simps)
  have n: "n < 256" using q(3) by (simp add: n_def)
  have "eq_head ?q = (eq_tail ?q + Suc n) mod 256" unfolding c(4) h by (simp add: mod_simps)
  moreover have "eq_tail ?q < 256" using q(2) by (simp add: c(2))
  ultimately show "event_queue_ok ?q" using q(1) n by (simp add: event_queue_ok_def c(1,3))
  have "queued ?q = map (\<lambda>i. (eq_queue q)[eq_head q := ?e] ! ((eq_tail ?q + i) mod 256)) [0..<n] @ [?e]"
    using h q(1) by (simp add: queued_def c(1,3))
  also have "map (\<lambda>i. (eq_queue q)[eq_head q := ?e] ! ((eq_tail ?q + i) mod 256)) [0..<n] =
      map (\<lambda>i. eq_queue q ! ((eq_tail ?q + i) mod 256)) [0..<n]"
    using n by (auto simp: h mod_add_inject)
  also have "\<dots> = (if eq_count q = 256 then tl (queued q) else queued q)"
    by (intro nth_equalityI) (auto simp: queued_def c(2) n_def nth_tl mod_simps)
  finally show "queued ?q = (if eq_count q = 256 then tl (queued q) else queued q) @ [?e]" .
qed

lemma poll_loop_eq:
  "eq_tail q < 256 \<Longrightarrow> poll_loop n q =
     (map (\<lambda>i. eq_queue q ! ((eq_tail q + i) mod 256)) [0..<n], q\<lparr>eq_tail := (eq_tail q + n) mod 256\<rparr>)"
proof (induction n arbitrary: q)
  case (Suc n)
  have "[0..<Suc n] = 0 # map Suc [0..<n]" by (simp add: map_Suc_upt upt_conv_Cons)
  then show ?case using Suc.IH [of "q\<lparr>eq_tail := (eq_tail q + 1) AND V3_EVENTS_MASK\<rparr>"] Suc.prems
    by (simp add: and_events_mask comp_def mod_simps)
qed simp

lemma v3_events_poll_queued:
  assumes "event_queue_ok q"
  shows "event_queue_ok (snd (v3_events_poll True n q))" "fst (v3_events_poll True n q) = take n (queued q)"
    and "queued (snd (v3_events_poll True n q)) = drop n (queued q)"
proof -
  define m where "m = min (eq_count q) n"
  have q: "length (eq_queue q) = 256" "eq_tail q < 256" "eq_count q \<le> 256" "eq_head q = (eq_tail q + eq_count q) mod 256"
    using assms by (simp_all add: event_queue_ok_def)
  have p: "v3_events_poll True n q = (map (\<lambda>i. eq_queue q ! ((eq_tail q + i) mod 256)) [0..<m],
      q\<lparr>eq_tail := (eq_tail q + m) mod 256, eq_count := eq_count q - m\<rparr>)"
    using q(2) by (auto simp: v3_events_poll_def Let_def poll_loop_eq m_def min_def)
  have "m \<le> eq_count q" by (simp add: m_def)
  then have "((eq_tail q + m) mod 256 + (eq_count q - m)) mod 256 = (eq_tail q + eq_count q) mod 256"
    using mod_add_left_eq [of "eq_tail q + m" 256 "eq_count q - m"] by simp
  then show "event_queue_ok (snd (v3_events_poll True n q))" using q by (simp add: p event_queue_ok_def)
  have l: "length (queued q) = eq_count q" by (simp add: queued_def)
  have "fst (v3_events_poll True n q) = take m (queued q)" by (simp add: p queued_def take_map m_def take_upt)
  then show "fst (v3_events_poll True n q) = take n (queued q)" by (simp add: m_def l [symmetric] min_def)
  have "queued (snd (v3_events_poll True n q)) = drop m (queued q)"
    by (intro nth_equalityI) (simp_all add: p queued_def mod_simps add.assoc)
  then show "queued (snd (v3_events_poll True n q)) = drop n (queued q)" by (simp add: m_def l [symmetric] min_def)
qed

text \<open>Posts and polls, and what they do to the list of the last 256 events.\<close>

datatype queue_op = Post u32 resource_id_t v3_event_type_t | Poll nat

fun queue_call :: "queue_op \<Rightarrow> event_queue \<Rightarrow> v3_event_t list \<times> event_queue" where
  "queue_call (Post now ident type) q = ([], v3_events_post now ident type q)"
| "queue_call (Poll n) q = v3_events_poll True n q"

fun list_call :: "queue_op \<Rightarrow> v3_event_t list \<Rightarrow> v3_event_t list \<times> v3_event_t list" where
  "list_call (Post now ident type) es =
     ([], (if length es = V3_EVENTS_QUEUE_SIZE then tl es else es) @ [\<lparr>ve_resource_id = ident, ve_timestamp_epoch = now, ve_type = type\<rparr>])"
| "list_call (Poll n) es = (take n es, drop n es)"

lemma queue_run_refines:
  "event_queue_ok q \<Longrightarrow> event_queue_ok (snd (run_calls queue_call xs q)) \<and>
     apsnd queued (run_calls queue_call xs q) = run_calls list_call xs (queued q)"
proof (induction xs arbitrary: q)
  case (Cons x xs)
  obtain r q' where q': "queue_call x q = (r, q')" by fastforce
  have "event_queue_ok q' \<and> list_call x (queued q) = (r, queued q')"
  proof (cases x)
    case (Post now ident type)
    then show ?thesis using q' v3_events_post_queued [OF Cons.prems, of now ident type]
      by (auto simp: V3_EVENTS_QUEUE_SIZE_def queued_def)
  next
    case (Poll n)
    then show ?thesis using q' v3_events_poll_queued [OF Cons.prems, of n] by auto
  qed
  then show ?case using Cons.IH [of q'] q' by (auto simp: prod_eq_iff split: prod.split)
qed simp

text \<open>
  The event queue keeps the last 256 events: whatever is posted and polled, the events are delivered in the order
  of the posts, and only the oldest ones are dropped when the queue is full.
\<close>

lemma event_queue_refines_list:
  assumes "event_queue_ok q"
  shows "fst (run_calls queue_call xs q) = fst (run_calls list_call xs (queued q))"
    "queued (snd (run_calls queue_call xs q)) = snd (run_calls list_call xs (queued q))"
  using queue_run_refines [OF assms, of xs] by (auto simp: prod_eq_iff)

section \<open>v3\_discovery.c\<close>

text \<open>\<open>__builtin_ffs(x) - 1\<close>, the number of the lowest bit that is set.\<close>

definition lowest_bit :: "u32 \<Rightarrow> nat" where
  "lowest_bit x = (case find_index (\<lambda>b. bit x b) [0..<32] of None \<Rightarrow> 0 | Some b \<Rightarrow> b)"

datatype v3_node_state_t = NODE_STATE_UNKNOWN | NODE_STATE_PROBE | NODE_STATE_ACTIVE | NODE_STATE_LOST

record discovery =
  s_probe_mask :: "u32 list"
  s_node_states :: "v3_node_state_t list"

definition v3_discovery_report_node :: "u16 \<Rightarrow> discovery \<Rightarrow> discovery" where
  "v3_discovery_report_node physical_slot d =
     (if 1024 \<le> physical_slot then d
      else let i = unat physical_slot div 32 in
        d\<lparr>s_probe_mask := (s_probe_mask d)[i := (s_probe_mask d ! i) OR push_bit (unat physical_slot mod 32) 1]\<rparr>)"

definition v3_discovery_pulse_100ms :: "discovery \<Rightarrow> discovery" where
  "v3_discovery_pulse_100ms d =
     (case find_index (\<lambda>m. m \<noteq> 0) (s_probe_mask d) of
        None \<Rightarrow> d
      | Some i \<Rightarrow> let bit_idx = lowest_bit (s_probe_mask d ! i);
            d = d\<lparr>s_probe_mask := (s_probe_mask d)[i := (s_probe_mask d ! i) AND NOT (push_bit bit_idx 1)]\<rparr>;
            physical_slot = i * 32 + bit_idx
          in d\<lparr>s_node_states := (s_node_states d)[physical_slot := NODE_STATE_PROBE]\<rparr>)"

definition v3_discovery_inject_identity ::
  "u32 \<Rightarrow> u16 \<Rightarrow> u64 option \<Rightarrow> discovery \<times> event_queue \<Rightarrow> bool \<times> discovery \<times> event_queue" where
  "v3_discovery_inject_identity now physical_slot key x =
     (case key of
        None \<Rightarrow> (False, x)
      | Some raw \<Rightarrow> if 1024 \<le> physical_slot then (False, x)
          else case x of (d, q) \<Rightarrow>
            (True, d\<lparr>s_node_states := (s_node_states d)[unat physical_slot := NODE_STATE_ACTIVE]\<rparr>,
             v3_events_post now raw RESOURCE_EVT_ONLINE q))"

text \<open>The slots that have been reported and not yet probed.\<close>

definition reported :: "discovery \<Rightarrow> nat set" where
  "reported d = {k. k < 1024 \<and> bit (s_probe_mask d ! (k div 32)) (k mod 32)}"

lemma lowest_bit_set:
  assumes "x \<noteq> 0"
  shows "lowest_bit x < 32" "bit x (lowest_bit x)" "\<And>b. b < lowest_bit x \<Longrightarrow> \<not> bit x b"
proof -
  obtain b where "bit x b" using assms by (metis bit_eq_iff bit_0_eq bot_apply bot_bool_def)
  then have "b < 32" using bit_imp_le_length by fastforce
  with \<open>bit x b\<close> obtain i where i: "find_index (\<lambda>b. bit x b) [0..<32] = Some i"
    by (metis (no_types, lifting) atLeastLessThan_iff atLeast_upt find_index_isSome le0 lessThan_iff)
  then have "i < 32" "bit x i" "\<forall>j < i. \<not> bit x j" by (auto simp: find_index_Some)
  then show "lowest_bit x < 32" "bit x (lowest_bit x)" "\<And>b. b < lowest_bit x \<Longrightarrow> \<not> bit x b"
    using i by (simp_all add: lowest_bit_def)
qed

lemma bit_cleared: "bit (x AND NOT (push_bit b 1)) k \<longleftrightarrow> bit x k \<and> k \<noteq> b" for x :: "'a::len word"
  using bit_imp_le_length [of x k] by (auto simp: bit_simps)

lemma bit_added: "b < 32 \<Longrightarrow> bit (x OR push_bit b 1) k \<longleftrightarrow> bit x k \<or> k = b" for x :: u32
  by (auto simp: bit_simps)

lemma reported_report:
  assumes "length (s_probe_mask d) = 32" "slot < 1024"
  shows "reported (v3_discovery_report_node slot d) = insert (unat slot) (reported d)"
proof -
  let ?j = "unat slot div 32" and ?m = "s_probe_mask d"
  have s: "unat slot < 1024" using assms(2) by (simp add: word_less_nat_alt)
  then have j: "?j < 32" by (simp add: less_mult_imp_div_less)
  have m: "s_probe_mask (v3_discovery_report_node slot d) = ?m[?j := ?m ! ?j OR push_bit (unat slot mod 32) 1]"
    using leD [of 1024 slot] assms(2) by (auto simp: v3_discovery_report_node_def Let_def)
  have "k div 32 = ?j \<and> k mod 32 = unat slot mod 32 \<longleftrightarrow> k = unat slot" for k by (metis div_mult_mod_eq)
  then have k: "k div 32 = ?j \<Longrightarrow> k mod 32 = unat slot mod 32 \<longleftrightarrow> k = unat slot" "k div 32 \<noteq> ?j \<Longrightarrow> k \<noteq> unat slot" for k by blast+
  have b: "unat slot mod 32 < 32" by simp
  have "bit (s_probe_mask (v3_discovery_report_node slot d) ! (k div 32)) (k mod 32) \<longleftrightarrow> bit (?m ! (k div 32)) (k mod 32) \<or> k = unat slot" for k
  proof (cases "k div 32 = ?j")
    case True
    then show ?thesis unfolding m True using j assms(1) bit_added [OF b] k(1) [OF True] by (simp only: nth_list_update_eq)
  next
    case False
    then show ?thesis unfolding m using k(2) [OF False] by (simp only: nth_list_update_neq simp_thms)
  qed
  then show ?thesis using s by (auto simp: reported_def)
qed

text \<open>
  Every pulse serves the lowest slot that waits: it is marked as being probed and does not wait any more, the others keep waiting. Without
  a report the pulse does nothing.
\<close>

lemma pulse_serves_lowest:
  assumes "length (s_probe_mask d) = 32" "length (s_node_states d) = 1024"
  shows "reported d = {} \<Longrightarrow> v3_discovery_pulse_100ms d = d"
    and "reported d \<noteq> {} \<Longrightarrow> reported (v3_discovery_pulse_100ms d) = reported d - {Min (reported d)} \<and>
      s_node_states (v3_discovery_pulse_100ms d) = (s_node_states d)[Min (reported d) := NODE_STATE_PROBE]"
proof -
  have wait: "\<exists>k \<in> reported d. k div 32 = i" if "i < 32" "s_probe_mask d ! i \<noteq> 0" for i
  proof -
    have "lowest_bit (s_probe_mask d ! i) < 32" "bit (s_probe_mask d ! i) (lowest_bit (s_probe_mask d ! i))"
      by (rule lowest_bit_set [OF that(2)])+
    then have "i * 32 + lowest_bit (s_probe_mask d ! i) \<in> reported d \<and> (i * 32 + lowest_bit (s_probe_mask d ! i)) div 32 = i"
      using that(1) by (simp add: reported_def)
    then show ?thesis by blast
  qed
  show "v3_discovery_pulse_100ms d = d" if "reported d = {}"
  proof -
    have "find_index (\<lambda>m. m \<noteq> 0) (s_probe_mask d) = None"
    proof -
      have "s_probe_mask d ! i = 0" if "i < 32" for i using wait [OF that] \<open>reported d = {}\<close> by blast
      then show ?thesis using assms(1) by (auto simp: find_index_None in_set_conv_nth)
    qed
    then show ?thesis by (simp add: v3_discovery_pulse_100ms_def)
  qed
  show "reported (v3_discovery_pulse_100ms d) = reported d - {Min (reported d)} \<and>
      s_node_states (v3_discovery_pulse_100ms d) = (s_node_states d)[Min (reported d) := NODE_STATE_PROBE]" if "reported d \<noteq> {}"
  proof -
    obtain k where "k < 1024" "bit (s_probe_mask d ! (k div 32)) (k mod 32)" using \<open>reported d \<noteq> {}\<close> by (auto simp: reported_def)
    then have "s_probe_mask d ! (k div 32) \<noteq> 0" "k div 32 < length (s_probe_mask d)" using assms(1) by (auto simp: less_mult_imp_div_less)
    then have "\<exists>m \<in> set (s_probe_mask d). m \<noteq> 0" by (meson nth_mem)
    then obtain i where i: "find_index (\<lambda>m. m \<noteq> 0) (s_probe_mask d) = Some i"
      using find_index_isSome [of "\<lambda>m. m \<noteq> 0" "s_probe_mask d"] by blast
    define b where "b = lowest_bit (s_probe_mask d ! i)"
    have i': "i < 32" "s_probe_mask d ! i \<noteq> 0" "\<forall>j < i. s_probe_mask d ! j = 0" using i assms(1) by (auto simp: find_index_Some)
    have b: "b < 32" "bit (s_probe_mask d ! i) b" "\<And>k. k < b \<Longrightarrow> \<not> bit (s_probe_mask d ! i) k"
      unfolding b_def by (rule lowest_bit_set [OF i'(2)]; assumption?)+
    have le: "i * 32 + b \<le> k" if "k \<in> reported d" for k
    proof -
      have k: "bit (s_probe_mask d ! (k div 32)) (k mod 32)" using that by (simp add: reported_def)
      have "i \<le> k div 32"
      proof (rule ccontr)
        assume "\<not> i \<le> k div 32"
        then have "s_probe_mask d ! (k div 32) = 0" using i'(3) by simp
        then show False using k by simp
      qed
      moreover have "b \<le> k mod 32" if "i = k div 32"
      proof (rule ccontr)
        assume "\<not> b \<le> k mod 32"
        then show False using b(3) [of "k mod 32"] k that by simp
      qed
      ultimately show ?thesis using b(1) div_mult_mod_eq [of k 32] by linarith
    qed
    have "finite (reported d)" by (rule finite_subset [of _ "{..<1024}"]) (auto simp: reported_def)
    moreover have "i * 32 + b \<in> reported d" using i'(1) b by (simp add: reported_def)
    ultimately have m: "Min (reported d) = i * 32 + b" using le by (intro Min_eqI) auto
    have p: "s_probe_mask (v3_discovery_pulse_100ms d) = (s_probe_mask d)[i := (s_probe_mask d ! i) AND NOT (push_bit b 1)]"
      using i by (simp add: v3_discovery_pulse_100ms_def Let_def b_def)
    have "bit (s_probe_mask (v3_discovery_pulse_100ms d) ! (k div 32)) (k mod 32) \<longleftrightarrow>
        bit (s_probe_mask d ! (k div 32)) (k mod 32) \<and> k \<noteq> i * 32 + b" for k
    proof (cases "k div 32 = i")
      case True
      then have "k mod 32 \<noteq> b \<longleftrightarrow> k \<noteq> i * 32 + b" using b(1) by (metis div_mult_mod_eq add_left_cancel)
      then show ?thesis using True i'(1) assms(1) bit_cleared [of "s_probe_mask d ! i" b "k mod 32"]
        unfolding p True by (simp only: nth_list_update_eq)
    next
      case False
      then have "k \<noteq> i * 32 + b" using b(1) by auto
      then show ?thesis using False unfolding p by simp
    qed
    then have "reported (v3_discovery_pulse_100ms d) = reported d - {i * 32 + b}" by (auto simp: reported_def)
    then show ?thesis using m i by (simp add: v3_discovery_pulse_100ms_def Let_def b_def)
  qed
qed

section \<open>v3\_persistence.c\<close>

record journal =
  dirty_mask :: "u32 list"
  s_nvs_handle :: nat

definition NVS_NAMESPACE :: string where "NVS_NAMESPACE = ''v3_cat''"

text \<open>
  \<open>get_nvs_key\<close>: the identifier in base 36, written from the last digit on into a buffer with 15 places.
\<close>

definition base36_digit :: "u64 \<Rightarrow> char" where
  "base36_digit rem = char_of (unat (if rem < 10 then 48 + rem else 65 + (rem - 10)))"

fun key_loop :: "nat \<Rightarrow> u64 \<Rightarrow> string \<Rightarrow> string" where
  "key_loop 0 val buf = buf"
| "key_loop (Suc pos) val buf = (if 0 < val then key_loop pos (val div 36) (base36_digit (val mod 36) # buf) else buf)"

definition get_nvs_key :: "resource_id_t \<Rightarrow> string" where
  "get_nvs_key ident = (if ident = 0 then ''0'' else key_loop 15 ident [])"

definition v3_persistence_mark_dirty :: "nat \<Rightarrow> journal \<Rightarrow> journal" where
  "v3_persistence_mark_dirty idx j =
     (if V3_CATALOG_MAX_RESOURCES \<le> idx then j
      else j\<lparr>dirty_mask := (dirty_mask j)[idx div 32 := (dirty_mask j ! (idx div 32)) OR push_bit (idx mod 32) 1]\<rparr>)"

text \<open>The 32 bytes of a record, and the record that a buffer of 32 bytes holds.\<close>

definition le64 :: "u64 \<Rightarrow> bytes" where
  "le64 x = le32 (ucast x) @ le32 (ucast (drop_bit 32 x))"

definition of_le64 :: "bytes \<Rightarrow> u64" where
  "of_le64 bs = ucast (of_le32 bs) OR push_bit 32 (ucast (of_le32 (drop 4 bs)))"

definition record_bytes :: "resource_record_t \<Rightarrow> bytes" where
  "record_bytes r = le64 (rr_id r) @ le64 (rr_key r) @ le32 (rr_last_seen_tick r) @ le16 (rr_status r) @ le16 (rr_sync_flags r) @
     le32 (rr_desired_state r) @ le32 (rr_reported_state r)"

definition record_of_bytes :: "bytes \<Rightarrow> resource_record_t" where
  "record_of_bytes bs = \<lparr>rr_id = of_le64 bs, rr_key = of_le64 (drop 8 bs), rr_last_seen_tick = of_le32 (drop 16 bs),
     rr_status = of_le16 (drop 20 bs), rr_sync_flags = of_le16 (drop 22 bs), rr_desired_state = of_le32 (drop 24 bs),
     rr_reported_state = of_le32 (drop 28 bs)\<rparr>"

definition SIZEOF_RECORD :: nat where "SIZEOF_RECORD = 32"

text \<open>
  The inner loop of the flush over one word of the mask: the record of the lowest set bit is written when there is one at this
  place, and the bit is cleared whether the write succeeded or not.
\<close>

lemma cleared_less: "(x :: u32) \<noteq> 0 \<Longrightarrow> x AND NOT (push_bit (lowest_bit x) 1) < x"
proof -
  assume "x \<noteq> 0"
  then have b: "bit x (lowest_bit x)" by (rule lowest_bit_set)
  have "x AND NOT (push_bit (lowest_bit x) 1) \<le> x" by (rule word_and_le2)
  moreover have "x AND NOT (push_bit (lowest_bit x) 1) \<noteq> x" using b bit_cleared [of x "lowest_bit x" "lowest_bit x"] by metis
  ultimately show ?thesis by simp
qed

function flush_word :: "'w platform \<Rightarrow> nat \<Rightarrow> catalog \<Rightarrow> nat \<Rightarrow> u32 \<Rightarrow> nat \<times> 'w \<Rightarrow> nat \<times> 'w" where
  "flush_word P h c i m x =
     (if m = 0 then x
      else let bit_idx = lowest_bit m; (write_count, w) = x;
          x = (case get_by_index (i * 32 + bit_idx) c of
                 None \<Rightarrow> (write_count, w)
               | Some rec \<Rightarrow> (case nvs_set_blob P h (get_nvs_key (rr_id rec)) (record_bytes rec) w of
                     (err, w) \<Rightarrow> (if err = ESP_OK then write_count + 1 else write_count, w)))
        in flush_word P h c i (m AND NOT (push_bit bit_idx 1)) x)"
  by pat_completeness auto
termination
  by (relation "measure (\<lambda>(_, _, _, _, m, _). unat m)") (auto simp: word_less_nat_alt [symmetric] cleared_less [simplified])

declare flush_word.simps [simp del]

definition v3_persistence_flush_dirty_records :: "'w platform \<Rightarrow> catalog \<Rightarrow> journal \<times> 'w \<Rightarrow> nat \<times> journal \<times> 'w" where
  "v3_persistence_flush_dirty_records P c x =
     (let (j, w) = x;
          (opened, j, w) = (if s_nvs_handle j = 0
            then case nvs_open P NVS_NAMESPACE NVS_READWRITE w of
                (err, h, w) \<Rightarrow> if err \<noteq> ESP_OK then (False, j, w) else (True, j\<lparr>s_nvs_handle := h\<rparr>, w)
            else (True, j, w))
      in if \<not> opened then (0, j, w)
         else let (write_count, w) = fold (\<lambda>i. flush_word P (s_nvs_handle j) c i (dirty_mask j ! i)) [0..<32] (0, w);
             w = (if 0 < write_count then snd (endap_nvs_commit P (s_nvs_handle j) w) else w)
           in (write_count, j\<lparr>dirty_mask := map (\<lambda>_. 0) (dirty_mask j)\<rparr>, w))"

text \<open>
  One entry that the iterator visits: a blob shorter than a record leaves the rest of the uninitialised record, \<open>stack\<close>, as it was.
\<close>

definition restore_entry :: "'w platform \<Rightarrow> nat \<Rightarrow> bytes \<Rightarrow> string \<Rightarrow> catalog \<times> 'w \<Rightarrow> catalog \<times> 'w" where
  "restore_entry P h stack key x =
     (case x of (c, w) \<Rightarrow> case nvs_get_blob P h key SIZEOF_RECORD w of
        (err, bs, w) \<Rightarrow> if err = ESP_OK then (snd (catalog_insert (record_of_bytes (bs @ drop (length bs) stack)) c), w) else (c, w))"

text \<open>\<open>entries\<close> are the keys that \<open>nvs_entry_find\<close> and \<open>nvs_entry_next\<close> visit in the namespace.\<close>

definition v3_persistence_restore_catalog ::
  "'w platform \<Rightarrow> ('w \<Rightarrow> string list) \<Rightarrow> bytes \<Rightarrow> catalog \<times> journal \<times> 'w \<Rightarrow> bool \<times> catalog \<times> journal \<times> 'w" where
  "v3_persistence_restore_catalog P entries stack x =
     (case x of (c, j, w) \<Rightarrow> case nvs_open P NVS_NAMESPACE NVS_READONLY w of
        (err, h, w) \<Rightarrow> if err \<noteq> ESP_OK then (False, c, j, w)
          else let (c, w) = fold (restore_entry P h stack) (entries w) (c, w) in (True, c, j\<lparr>s_nvs_handle := h\<rparr>, w))"

text \<open>Distinct identifiers have distinct keys: the 15 places hold every 64-bit number in base 36.\<close>

definition key_value :: "nat \<Rightarrow> string \<Rightarrow> nat" where
  "key_value = foldl (\<lambda>a ch. 36 * a + (if of_char ch < (58 :: nat) then of_char ch - 48 else of_char ch - 55))"

lemma key_value_digit:
  assumes "r < 36"
  shows "key_value a (base36_digit r # buf) = key_value (36 * a + unat r) buf"
proof -
  define n where "n = unat r"
  have n: "n < 36" "r = of_nat n" using assms by (simp_all add: n_def word_less_nat_alt)
  have u: "unat (of_nat k :: u64) = k" if "k < 256" for k using that by (simp add: unat_of_nat)
  have "unat (if r < 10 then 48 + r else 65 + (r - 10)) = (if n < 10 then 48 + n else 55 + n)"
  proof (cases "n < 10")
    case True
    then have "r < 10" by (simp add: n_def word_less_nat_alt)
    then show ?thesis using True n u [of "48 + n"] by simp
  next
    case False
    then have "\<not> r < 10" by (simp add: n_def word_less_nat_alt)
    moreover have "65 + (r - 10) = of_nat (55 + n)" using False by (simp add: n(2) of_nat_diff)
    ultimately show ?thesis using False n u [of "55 + n"] by simp
  qed
  then show ?thesis using n(1) by (simp add: key_value_def base36_digit_def n_def [symmetric])
qed

lemma key_loop_value: "unat v < 36 ^ p \<Longrightarrow> key_value 0 (key_loop p v buf) = key_value (unat v) buf"
proof (induction p arbitrary: v buf)
  case (Suc p)
  have "unat (v div 36) = unat v div 36" by (simp add: unat_div)
  moreover have "unat v div 36 < 36 ^ p" using Suc.prems by (simp add: less_mult_imp_div_less mult.commute)
  moreover have "v mod 36 < 36" "unat (v mod 36) = unat v mod 36" by (simp_all add: unat_mod word_mod_less_divisor word_less_nat_alt)
  ultimately show ?case using Suc.IH [of "v div 36" "base36_digit (v mod 36) # buf"]
    by (auto simp: key_value_digit word_gt_0)
qed simp

lemma get_nvs_key_inject: "get_nvs_key a = get_nvs_key b \<longleftrightarrow> a = b"
proof -
  have "key_value 0 (get_nvs_key x) = unat x" for x
  proof -
    have "unat x < 2 ^ LENGTH(64)" by (rule unsigned_less)
    then have "unat x < 36 ^ 15" using less_trans [of "unat x" "2 ^ 64" "36 ^ 15"] by simp
    from key_loop_value [OF this, of "[]"] show ?thesis by (simp add: get_nvs_key_def key_value_def)
  qed
  then show ?thesis by (metis unat_eq_unat_iff)
qed

lemma of_le64_append [simp]: "of_le64 (le64 x @ ys) = x"
proof -
  have "of_le64 (le64 x @ ys) = ucast (ucast x :: u32) OR push_bit 32 (ucast (ucast (drop_bit 32 x) :: u32))"
    by (simp add: of_le64_def le64_def)
  also have "\<dots> = x" by (rule bit_word_eqI) (auto simp: bit_simps)
  finally show ?thesis .
qed

lemma length_le64 [simp]: "length (le64 x) = 8"
  by (simp add: le64_def)

lemma record_of_record_bytes: "record_of_bytes (record_bytes r @ ys) = r"
  by (simp add: record_of_bytes_def record_bytes_def)

text \<open>
  \<open>nvs_readonly_law P\<close>: a handle is not 0, and one that was opened for reading refuses every write.
\<close>

definition nvs_readonly_law :: "'w platform \<Rightarrow> bool" where
  "nvs_readonly_law P \<longleftrightarrow> (\<forall>ns w h w1. nvs_open P ns NVS_READONLY w = (ESP_OK, h, w1) \<longrightarrow>
     h \<noteq> 0 \<and> (\<forall>key bs w'. fst (nvs_set_blob P h key bs w') \<noteq> ESP_OK))"

lemma flush_word_refused:
  "(\<And>key bs w. fst (nvs_set_blob P h key bs w) \<noteq> ESP_OK) \<Longrightarrow> fst (flush_word P h c i m x) = fst x"
proof (induction P h c i m x rule: flush_word.induct)
  case (1 P h c i m x)
  show ?case
  proof (cases "m = 0")
    case False
    have "nvs_set_blob P h key bs w \<noteq> (ESP_OK, w')" for key bs w w' using "1.prems" by (metis fst_conv)
    then show ?thesis using False "1.IH" "1.prems"
      by (subst flush_word.simps) (auto simp: Let_def split: option.splits prod.splits)
  qed (simp add: flush_word.simps)
qed

text \<open>
  C35: nothing is stored after a restore. The restore leaves its read-only handle in \<open>s_nvs_handle\<close>, so the flush does not open
  the storage for writing; every write is refused, the flush reports that it wrote nothing, and the marks of the changed records are
  cleared all the same.
\<close>

theorem v3_changes_lost_after_restore:
  assumes "nvs_readonly_law P" "v3_persistence_restore_catalog P entries stack (c0, j0, w0) = (True, c1, j1, w1)"
    and "j = fold v3_persistence_mark_dirty changed j1"
    and "v3_persistence_flush_dirty_records P c (j, w) = (n, j', w')"
  shows "n = 0 \<and> (\<forall>m \<in> set (dirty_mask j'). m = 0) \<and> s_nvs_handle j' = s_nvs_handle j1"
proof -
  obtain h w2 where o: "nvs_open P NVS_NAMESPACE NVS_READONLY w0 = (ESP_OK, h, w2)" "s_nvs_handle j1 = h"
    using assms(2) by (auto simp: v3_persistence_restore_catalog_def Let_def split: prod.splits if_splits)
  then have h: "h \<noteq> 0" "fst (nvs_set_blob P h key bs w) \<noteq> ESP_OK" for key bs w
    using assms(1) unfolding nvs_readonly_law_def by blast+
  have "s_nvs_handle (fold v3_persistence_mark_dirty xs j) = s_nvs_handle j" for xs j
    by (induction xs arbitrary: j) (simp_all add: v3_persistence_mark_dirty_def)
  then have j: "s_nvs_handle j = h" using assms(3) o(2) by simp
  have "fst (fold (\<lambda>i. flush_word P h c i (dirty_mask j ! i)) xs x) = fst x" for xs x
    by (induction xs arbitrary: x) (simp_all add: flush_word_refused [OF h(2)])
  then show ?thesis using assms(4) h(1) o(2)
    by (auto simp: v3_persistence_flush_dirty_records_def j Let_def split: prod.splits if_splits dest: arg_cong [of _ _ fst])
qed

text \<open>A storage whose odd handles are read-only: the first record is marked after a restore and flushed.\<close>

definition readonly_platform :: "sim_world platform" where
  "readonly_platform = sim_platform\<lparr>
     nvs_open := (\<lambda>ns m w. (ESP_OK, 2 * length (sim_open w) + (if m = NVS_READONLY then 1 else 2), w\<lparr>sim_open := sim_open w @ [ns]\<rparr>)),
     nvs_set_blob := (\<lambda>h k bs w. if odd h then (ESP_ERR_OTHER, w) else (ESP_OK,
       w\<lparr>sim_nvs := (sim_nvs w)(sim_open w ! (h div 2 - 1) := (sim_nvs w (sim_open w ! (h div 2 - 1)))(k := Some bs))\<rparr>))\<rparr>"

lemma readonly_platform_law: "nvs_readonly_law readonly_platform"
  by (auto simp: nvs_readonly_law_def readonly_platform_def)

definition demo_journal :: journal where
  "demo_journal = \<lparr>dirty_mask = replicate 32 0, s_nvs_handle = 0\<rparr>"

theorem v3_changes_lost_after_restore_witness:
  "fst (v3_persistence_flush_dirty_records readonly_platform demo_catalog
     (v3_persistence_mark_dirty 0 (demo_journal\<lparr>s_nvs_handle := 1\<rparr>), sim_init)) = 0"
proof -
  have "v3_persistence_restore_catalog readonly_platform (\<lambda>_. []) [] (empty_catalog, demo_journal, sim_init) =
      (True, empty_catalog, demo_journal\<lparr>s_nvs_handle := 1\<rparr>, sim_init\<lparr>sim_open := [NVS_NAMESPACE]\<rparr>)"
    by (simp add: v3_persistence_restore_catalog_def readonly_platform_def sim_init_def)
  moreover obtain n j w where "v3_persistence_flush_dirty_records readonly_platform demo_catalog
      (v3_persistence_mark_dirty 0 (demo_journal\<lparr>s_nvs_handle := 1\<rparr>), sim_init) = (n, j, w)" by (rule prod_cases3)
  moreover have "v3_persistence_mark_dirty 0 (demo_journal\<lparr>s_nvs_handle := 1\<rparr>) =
      fold v3_persistence_mark_dirty [0] (demo_journal\<lparr>s_nvs_handle := 1\<rparr>)" by simp
  ultimately have "n = 0 \<and> (\<forall>m \<in> set (dirty_mask j). m = 0) \<and> s_nvs_handle j = s_nvs_handle (demo_journal\<lparr>s_nvs_handle := 1\<rparr>)"
    by (intro v3_changes_lost_after_restore [OF readonly_platform_law])
  then show ?thesis using \<open>_ = (n, j, w)\<close> by (simp only: fst_conv)
qed

end
