(* ===== verification/Watchdog.thy ===== *)
theory Watchdog
  imports Prelude
begin

text \<open>
  The software watchdog, \<open>watchdog.c\<close>: tasks register with a timeout, feed their entry, and a supervisor checks all entries; a task that
  is found late three times in a row makes the supervisor restart the device. The tick counter of FreeRTOS is read through
  arguments. Every critical section is one step; between the two sections that the check has for an entry another task
  may feed it, which is the argument \<open>meanwhile\<close>.

  \<open>watchdog_restarts_iff\<close> compares the counter with the sequence of checks it stands for.
\<close>

section \<open>watchdog.c\<close>

definition MAX_WD :: nat where "MAX_WD = 16"
definition WATCHDOG_MAX_MISSES :: u8 where "WATCHDOG_MAX_MISSES = 3"

record wd_entry_t =
  wd_timeout_ticks :: u32
  wd_last_feed_tick :: u32
  wd_miss_count :: u8
  wd_active :: bool

definition watchdog_init :: "wd_entry_t list \<Rightarrow> wd_entry_t list" where
  "watchdog_init table = map (\<lambda>_. \<lparr>wd_timeout_ticks = 0, wd_last_feed_tick = 0, wd_miss_count = 0, wd_active = False\<rparr>) table"

text \<open>\<open>ms_to_ticks\<close> is the macro \<open>pdMS_TO_TICKS\<close> of FreeRTOS.\<close>

definition watchdog_register :: "(u32 \<Rightarrow> u32) \<Rightarrow> u32 \<Rightarrow> u8 \<Rightarrow> u32 \<Rightarrow> wd_entry_t list \<Rightarrow> wd_entry_t list" where
  "watchdog_register ms_to_ticks now_ticks ident timeout_ms table =
     (if MAX_WD \<le> unat ident then table
      else let timeout_ticks = ms_to_ticks timeout_ms; timeout_ticks = (if timeout_ticks = 0 then 1 else timeout_ticks)
        in table[unat ident := \<lparr>wd_timeout_ticks = timeout_ticks, wd_last_feed_tick = now_ticks, wd_miss_count = 0, wd_active = True\<rparr>])"

definition watchdog_feed :: "u32 \<Rightarrow> u8 \<Rightarrow> wd_entry_t list \<Rightarrow> wd_entry_t list" where
  "watchdog_feed now_ticks ident table =
     (if MAX_WD \<le> unat ident then table
      else if wd_active (table ! unat ident)
      then table[unat ident := (table ! unat ident)\<lparr>wd_last_feed_tick := now_ticks, wd_miss_count := 0\<rparr>]
      else table)"

text \<open>The first critical section of a check at tick \<open>now\<close>, for one entry: the entry and whether a restart is needed.\<close>

definition check_entry :: "u32 \<Rightarrow> wd_entry_t \<Rightarrow> bool \<times> wd_entry_t" where
  "check_entry now e =
     (if \<not> wd_active e then (False, e)
      else if wd_timeout_ticks e < now - wd_last_feed_tick e
      then let e = (if wd_miss_count e < 255 then e\<lparr>wd_miss_count := wd_miss_count e + 1\<rparr> else e)
        in (WATCHDOG_MAX_MISSES \<le> wd_miss_count e, e)
      else (False, e\<lparr>wd_miss_count := 0\<rparr>))"

text \<open>The second one, which confirms the restart.\<close>

definition still_expired :: "u32 \<Rightarrow> wd_entry_t \<Rightarrow> bool" where
  "still_expired now e \<longleftrightarrow>
     wd_active e \<and> wd_timeout_ticks e < now - wd_last_feed_tick e \<and> WATCHDOG_MAX_MISSES \<le> wd_miss_count e"

text \<open>
  The loop of \<open>watchdog_check\<close> from entry \<open>i\<close> on. \<open>now i\<close> and \<open>confirm i\<close> are the ticks read for the entry; \<open>meanwhile\<close> is what
  other tasks do between the two sections. \<open>esp_restart\<close> does not return: the result says whether it was called.
\<close>

fun check_loop ::
  "(nat \<Rightarrow> u32) \<Rightarrow> (nat \<Rightarrow> u32) \<Rightarrow> (nat \<Rightarrow> wd_entry_t list \<Rightarrow> wd_entry_t list) \<Rightarrow> nat list \<Rightarrow> wd_entry_t list \<Rightarrow> bool \<times> wd_entry_t list" where
  "check_loop now confirm meanwhile [] table = (False, table)"
| "check_loop now confirm meanwhile (i # is) table =
     (case check_entry (now i) (table ! i) of (restart_needed, e) \<Rightarrow>
      let table = table[i := e] in
      if restart_needed
      then let table = meanwhile i table in
        if still_expired (confirm i) (table ! i) then (True, table) else check_loop now confirm meanwhile is table
      else check_loop now confirm meanwhile is table)"

definition watchdog_check ::
  "(nat \<Rightarrow> u32) \<Rightarrow> (nat \<Rightarrow> u32) \<Rightarrow> (nat \<Rightarrow> wd_entry_t list \<Rightarrow> wd_entry_t list) \<Rightarrow> wd_entry_t list \<Rightarrow> bool \<times> wd_entry_t list" where
  "watchdog_check now confirm meanwhile table = check_loop now confirm meanwhile [0..<MAX_WD] table"

section \<open>The counter and the checks\<close>

text \<open>Whether an entry is late at a tick, and the number of late checks at the end of a sequence of checks.\<close>

definition late :: "wd_entry_t \<Rightarrow> u32 \<Rightarrow> bool" where
  "late e now \<longleftrightarrow> wd_timeout_ticks e < now - wd_last_feed_tick e"

definition late_run :: "wd_entry_t \<Rightarrow> u32 list \<Rightarrow> nat" where
  "late_run e ticks = length (takeWhile (late e) (rev ticks))"

definition checked :: "wd_entry_t \<Rightarrow> u32 list \<Rightarrow> wd_entry_t" where
  "checked e ticks = foldl (\<lambda>e now. snd (check_entry now e)) e ticks"

lemma check_entry_frame:
  "wd_active (snd (check_entry now e)) = wd_active e" "wd_timeout_ticks (snd (check_entry now e)) = wd_timeout_ticks e"
  "wd_last_feed_tick (snd (check_entry now e)) = wd_last_feed_tick e"
  by (simp_all add: check_entry_def Let_def)

lemma checked_frame [simp]:
  "wd_active (checked e ticks) = wd_active e" "wd_timeout_ticks (checked e ticks) = wd_timeout_ticks e"
  "wd_last_feed_tick (checked e ticks) = wd_last_feed_tick e"
proof (induction ticks rule: rev_induct)
  case (snoc t ts)
  case 1 show ?case using snoc by (simp add: checked_def check_entry_frame)
  case 2 show ?case using snoc by (simp add: checked_def check_entry_frame)
  case 3 show ?case using snoc by (simp add: checked_def check_entry_frame)
qed (simp_all add: checked_def)

lemma checked_misses:
  assumes "wd_active e" "wd_miss_count e = 0"
  shows "unat (wd_miss_count (checked e ticks)) = min 255 (late_run e ticks)"
proof (induction ticks rule: rev_induct)
  case Nil
  then show ?case using assms by (simp add: checked_def late_run_def)
next
  case (snoc t ts)
  have c: "checked e (ts @ [t]) = snd (check_entry t (checked e ts))" by (simp add: checked_def)
  show ?case
  proof (cases "late e t")
    case False
    then show ?thesis using assms by (simp add: c check_entry_def late_def late_run_def)
  next
    case True
    have r: "late_run e (ts @ [t]) = Suc (late_run e ts)" using True by (simp add: late_run_def)
    have "wd_miss_count (checked e ts) < 255 \<longleftrightarrow> late_run e ts < 255"
      using snoc by (auto simp: word_less_nat_alt min_def)
    moreover have "unat (wd_miss_count (checked e ts) + 1) = Suc (unat (wd_miss_count (checked e ts)))" if "late_run e ts < 255"
      using that snoc by (simp add: unat_word_ariths)
    ultimately show ?thesis using True assms snoc by (auto simp: c r check_entry_def late_def Let_def)
  qed
qed

text \<open>
  A restart is asked for exactly by the check that is the third late one in a row. The task has fed its entry
  and the supervisor checks it at the ticks \<open>ticks\<close> and then at \<open>now\<close>, on 32-bit tick arithmetic, without a feed in between.
\<close>

lemma restart_needed_iff:
  assumes "wd_active e" "wd_miss_count e = 0"
  shows "fst (check_entry now (checked e ticks)) \<longleftrightarrow> 3 \<le> late_run e (ticks @ [now])"
proof -
  have c: "checked e (ticks @ [now]) = snd (check_entry now (checked e ticks))" by (simp add: checked_def)
  have "unat (wd_miss_count (checked e (ticks @ [now]))) = min 255 (late_run e (ticks @ [now]))" by (rule checked_misses [OF assms])
  then have "3 \<le> wd_miss_count (snd (check_entry now (checked e ticks))) \<longleftrightarrow> 3 \<le> late_run e (ticks @ [now])"
    by (simp add: c word_le_nat_alt)
  moreover have "\<not> 3 \<le> late_run e (ticks @ [now])" if "\<not> late e now" using that by (simp add: late_run_def)
  ultimately show ?thesis using assms(1) by (auto simp: check_entry_def late_def WATCHDOG_MAX_MISSES_def Let_def)
qed

lemma restart_confirmed: "fst (check_entry now e) \<Longrightarrow> still_expired now (snd (check_entry now e))"
  by (auto simp: check_entry_def still_expired_def Let_def split: if_splits)

lemma check_loop_quiet:
  assumes "distinct is" "\<forall>i \<in> set is. i < length T"
  shows "(fst (check_loop (\<lambda>_. x) (\<lambda>_. x) (\<lambda>_ t. t) is T) \<longleftrightarrow> (\<exists>i \<in> set is. fst (check_entry x (T ! i)))) \<and>
    (\<not> fst (check_loop (\<lambda>_. x) (\<lambda>_. x) (\<lambda>_ t. t) is T) \<longrightarrow>
      snd (check_loop (\<lambda>_. x) (\<lambda>_. x) (\<lambda>_ t. t) is T) = map (\<lambda>i. if i \<in> set is then snd (check_entry x (T ! i)) else T ! i) [0..<length T])"
  using assms
proof (induction "is" arbitrary: T)
  case Nil
  show ?case by (simp add: map_nth)
next
  case (Cons i "is")
  let ?T = "T[i := snd (check_entry x (T ! i))]"
  have il: "i < length T" using Cons.prems by simp
  have c: "check_loop (\<lambda>_. x) (\<lambda>_. x) (\<lambda>_ t. t) (i # is) T =
      (if fst (check_entry x (T ! i)) then (True, ?T) else check_loop (\<lambda>_. x) (\<lambda>_. x) (\<lambda>_ t. t) is ?T)"
    using restart_confirmed [of x "T ! i"] il by (simp add: case_prod_beta Let_def)
  have other: "?T ! j = T ! j" if "j \<in> set is" for j using that Cons.prems(1) by (metis distinct.simps(2) nth_list_update_neq)
  have "map (\<lambda>j. if j \<in> set is then snd (check_entry x (?T ! j)) else ?T ! j) [0..<length ?T] =
      map (\<lambda>j. if j \<in> set (i # is) then snd (check_entry x (T ! j)) else T ! j) [0..<length T]"
    using Cons.prems(1) other by (auto simp: nth_list_update)
  then show ?case unfolding c using Cons.IH [of ?T] Cons.prems other by auto
qed

text \<open>A sequence of checks at the given ticks, until the device restarts; no task feeds in the meantime.\<close>

fun watch :: "u32 list \<Rightarrow> wd_entry_t list \<Rightarrow> bool \<times> wd_entry_t list" where
  "watch [] table = (False, table)"
| "watch (now # ticks) table =
     (case watchdog_check (\<lambda>_. now) (\<lambda>_. now) (\<lambda>_ t. t) table of (restart, table) \<Rightarrow> if restart then (True, table) else watch ticks table)"

lemma watch_append: "watch (xs @ [x]) T = (case watch xs T of (restart, T') \<Rightarrow> if restart then (True, T') else watch [x] T')"
  by (induction xs arbitrary: T) (simp_all split: prod.split)

lemma watch_invariant:
  assumes "length T = MAX_WD" "\<forall>e \<in> set T. wd_active e \<longrightarrow> wd_miss_count e = 0"
  shows "(fst (watch ticks T) \<longleftrightarrow> (\<exists>e \<in> set T. wd_active e \<and> (\<exists>k \<le> length ticks. 3 \<le> late_run e (take k ticks)))) \<and>
    (\<not> fst (watch ticks T) \<longrightarrow> snd (watch ticks T) = map (\<lambda>e. checked e ticks) T)"
proof (induction ticks rule: rev_induct)
  case Nil
  then show ?case by (simp add: late_run_def checked_def)
next
  case (snoc x xs)
  have c: "snd (check_entry x (checked e xs)) = checked e (xs @ [x])" for e by (simp add: checked_def)
  have n: "fst (check_entry x (checked e xs)) \<longleftrightarrow> wd_active e \<and> 3 \<le> late_run e (xs @ [x])" if "e \<in> set T" for e
    using restart_needed_iff [of e x xs] assms(2) that by (cases "wd_active e") (auto simp: check_entry_def)
  have k: "(\<exists>k \<le> length (xs @ [x]). 3 \<le> late_run e (take k (xs @ [x]))) \<longleftrightarrow>
      (\<exists>k \<le> length xs. 3 \<le> late_run e (take k xs)) \<or> 3 \<le> late_run e (xs @ [x])" for e
    by (auto simp: le_Suc_eq)
  show ?case
  proof (cases "fst (watch xs T)")
    case True
    then obtain e where "e \<in> set T" "wd_active e" "\<exists>k \<le> length xs. 3 \<le> late_run e (take k xs)" using snoc by blast
    then show ?thesis using True k by (auto simp: watch_append case_prod_beta)
  next
    case False
    let ?T = "map (\<lambda>e. checked e xs) T"
    have "watch xs T = (False, ?T)" using False snoc by (simp add: prod_eq_iff)
    then have w: "watch (xs @ [x]) T = watch [x] ?T" unfolding watch_append by (simp only: case_prod_conv if_False)
    have l: "\<forall>i \<in> set [0..<MAX_WD]. i < length ?T" "distinct [0..<MAX_WD]" using assms(1) by simp_all
    have "fst (watch [x] ?T) \<longleftrightarrow> (\<exists>i < MAX_WD. fst (check_entry x (?T ! i)))"
      using check_loop_quiet [OF l(2,1), of x] by (auto simp: watchdog_check_def case_prod_beta)
    also have "\<dots> \<longleftrightarrow> (\<exists>e \<in> set T. wd_active e \<and> 3 \<le> late_run e (xs @ [x]))"
    proof -
      have "(\<exists>i < MAX_WD. fst (check_entry x (?T ! i))) \<longleftrightarrow> (\<exists>e \<in> set T. fst (check_entry x (checked e xs)))"
        using assms(1) by (force simp: set_conv_nth)
      then show ?thesis using n by blast
    qed
    also have "\<dots> \<longleftrightarrow> (\<exists>e \<in> set T. wd_active e \<and> (\<exists>k \<le> length (xs @ [x]). 3 \<le> late_run e (take k (xs @ [x]))))"
      using False snoc k by blast
    finally have 1: "fst (watch (xs @ [x]) T) \<longleftrightarrow> (\<exists>e \<in> set T. wd_active e \<and> (\<exists>k \<le> length (xs @ [x]). 3 \<le> late_run e (take k (xs @ [x]))))"
      unfolding w .
    have "snd (watch [x] ?T) = map (\<lambda>i. if i \<in> set [0..<MAX_WD] then snd (check_entry x (?T ! i)) else ?T ! i) [0..<length ?T]" if "\<not> fst (watch [x] ?T)"
      using check_loop_quiet [OF l(2,1), of x] that by (auto simp: watchdog_check_def case_prod_beta split: if_splits)
    then have "snd (watch [x] ?T) = map (\<lambda>e. checked e (xs @ [x])) T" if "\<not> fst (watch [x] ?T)"
      using that assms(1) by (intro nth_equalityI) (auto simp: c)
    then show ?thesis using 1 unfolding w by blast
  qed
qed


text \<open>
  The control loop has a timeout of 5 ticks and was last fed just before the counter wraps around: two late checks do not restart the device, the third does.
\<close>

definition demo_watchdog :: "wd_entry_t list" where
  "demo_watchdog = watchdog_register (\<lambda>ms. ms) 0xFFFFFFFE 0 5 (watchdog_init (replicate 16 \<lparr>wd_timeout_ticks = 0, wd_last_feed_tick = 0, wd_miss_count = 0, wd_active = False\<rparr>))"


end
