(* ===== verification/Control_Loop.thy ===== *)
theory Control_Loop
  imports Watchdog Scheduler
begin

text \<open>
  The control loop, \<open>control_loop.c\<close>, with the measurements it feeds: \<open>determinism_probe.c\<close>, \<open>kernel_trace.c\<close>,
  \<open>phase_monitor.c\<close>, \<open>phase_load_test.c\<close>, \<open>kernel_metrics.c\<close> and \<open>kernel_phase_metrics.c\<close>. The loop is woken by a
  timer every millisecond and runs the five phases of the scheduler. The clocks, the delay and the
  tick counter are an argument, a record of functions over the state of the system; one round of the loop is \<open>control_loop_cycle\<close>.
  Logging is left out; the branch of \<open>CONFIG_ENDAP_ENABLE_CHAOS_TESTING\<close>, a demonstration build, is not modelled.
\<close>

record 's board =
  monotonic_time_us :: "'s \<Rightarrow> u64 \<times> 's"
  read_time :: "'s \<Rightarrow> u64 \<times> 's"
  esp_rom_delay_us :: "u32 \<Rightarrow> 's \<Rightarrow> 's"
  xTaskGetTickCount :: "'s \<Rightarrow> u32 \<times> 's"

definition LOOP_PERIOD_US :: u64 where "LOOP_PERIOD_US = 1000"
definition BOOT_IGNORE_CYCLES :: u32 where "BOOT_IGNORE_CYCLES = 2000"
definition DEADLINE_FAULT_THRESHOLD :: u32 where "DEADLINE_FAULT_THRESHOLD = 200"
definition REPORT_WINDOW_CYCLES :: u32 where "REPORT_WINDOW_CYCLES = 1024"

definition safe_time_diff :: "u64 \<Rightarrow> u64 \<Rightarrow> u64" where
  "safe_time_diff start end_us = (if start \<le> end_us then end_us - start else 0)"

section \<open>determinism\_probe.c\<close>

record determinism_probe_report_t =
  dr_cycles :: u32
  dr_exec_min :: u32
  dr_exec_avg :: u32
  dr_exec_max :: u32

record determinism_probe =
  dp_start_time :: u64
  dp_cycles :: u32
  dp_window_samples :: u32
  dp_exec_min :: u32
  dp_exec_max :: u32
  dp_exec_sum :: u64
  dp_pending_report :: "determinism_probe_report_t option"

definition reset_probe_window :: "determinism_probe \<Rightarrow> determinism_probe" where
  "reset_probe_window p = p\<lparr>dp_exec_min := - 1, dp_exec_max := 0, dp_exec_sum := 0, dp_window_samples := 0\<rparr>"

definition determinism_probe_init :: "determinism_probe \<Rightarrow> determinism_probe" where
  "determinism_probe_init p = reset_probe_window (p\<lparr>dp_start_time := 0, dp_cycles := 0, dp_pending_report := None\<rparr>)"

definition determinism_probe_cycle_start :: "u64 \<Rightarrow> determinism_probe \<Rightarrow> determinism_probe" where
  "determinism_probe_cycle_start now p = p\<lparr>dp_start_time := now\<rparr>"

text \<open>The comparisons are made on 64 bits, the minimum and maximum kept in 32.\<close>

definition determinism_probe_cycle_end :: "u64 \<Rightarrow> determinism_probe \<Rightarrow> determinism_probe" where
  "determinism_probe_cycle_end now p =
     (let dt = safe_time_diff (dp_start_time p) now;
          p = (if dt < ucast (dp_exec_min p) then p\<lparr>dp_exec_min := ucast dt\<rparr> else p);
          p = (if ucast (dp_exec_max p) < dt then p\<lparr>dp_exec_max := ucast dt\<rparr> else p);
          p = p\<lparr>dp_exec_sum := dp_exec_sum p + dt, dp_window_samples := dp_window_samples p + 1, dp_cycles := dp_cycles p + 1\<rparr>
      in if dp_cycles p mod REPORT_WINDOW_CYCLES = 0 \<and> dp_window_samples p \<noteq> 0
         then reset_probe_window (p\<lparr>dp_pending_report := Some \<lparr>dr_cycles = dp_cycles p, dr_exec_min = dp_exec_min p,
                dr_exec_avg = ucast (dp_exec_sum p div ucast (dp_window_samples p)), dr_exec_max = dp_exec_max p\<rparr>\<rparr>)
         else p)"

text \<open>The report that is to be logged, if any.\<close>

definition determinism_probe_process :: "determinism_probe \<Rightarrow> determinism_probe_report_t option \<times> determinism_probe" where
  "determinism_probe_process p = (dp_pending_report p, p\<lparr>dp_pending_report := None\<rparr>)"

section \<open>kernel\_trace.c\<close>

record kernel_trace_report_t =
  tr_cycles :: u32
  tr_jitter_min :: u32
  tr_jitter_avg :: u32
  tr_jitter_max :: u32
  tr_exec_min :: u32
  tr_exec_avg :: u32
  tr_exec_max :: u32
  tr_slip_events :: u32
  tr_missed_cycles :: u32
  tr_slip_max :: u32

record kernel_trace =
  kt_cycle_start :: u64
  kt_last_cycle :: u64
  kt_cycles :: u32
  kt_jitter_samples :: u32
  kt_exec_samples :: u32
  kt_slip_events :: u32
  kt_missed_cycles :: u32
  kt_jitter_min :: u32
  kt_jitter_max :: u32
  kt_jitter_sum :: u64
  kt_slip_max :: u32
  kt_exec_min :: u32
  kt_exec_max :: u32
  kt_exec_sum :: u64
  kt_pending_report :: "kernel_trace_report_t option"

definition reset_trace_window :: "kernel_trace \<Rightarrow> kernel_trace" where
  "reset_trace_window t = t\<lparr>kt_jitter_min := - 1, kt_jitter_max := 0, kt_jitter_sum := 0, kt_jitter_samples := 0,
     kt_slip_events := 0, kt_missed_cycles := 0, kt_slip_max := 0, kt_exec_min := - 1, kt_exec_max := 0,
     kt_exec_sum := 0, kt_exec_samples := 0\<rparr>"

definition kernel_trace_init :: "kernel_trace \<Rightarrow> kernel_trace" where
  "kernel_trace_init t = reset_trace_window (t\<lparr>kt_cycle_start := 0, kt_last_cycle := 0, kt_cycles := 0, kt_pending_report := None\<rparr>)"

definition trace_jitter :: "u64 \<Rightarrow> kernel_trace \<Rightarrow> kernel_trace" where
  "trace_jitter period t =
     (let jitter = (ucast (if LOOP_PERIOD_US < period then period - LOOP_PERIOD_US else LOOP_PERIOD_US - period) :: u32);
          t = (if jitter < kt_jitter_min t then t\<lparr>kt_jitter_min := jitter\<rparr> else t);
          t = (if kt_jitter_max t < jitter then t\<lparr>kt_jitter_max := jitter\<rparr> else t)
      in t\<lparr>kt_jitter_sum := kt_jitter_sum t + ucast jitter, kt_jitter_samples := kt_jitter_samples t + 1\<rparr>)"

definition trace_slip :: "u64 \<Rightarrow> kernel_trace \<Rightarrow> kernel_trace" where
  "trace_slip period t =
     (let slip = (ucast (period - LOOP_PERIOD_US) :: u32); missed = (ucast (period div LOOP_PERIOD_US) :: u32);
          missed = (if 0 < missed then missed - 1 else missed);
          t = (if kt_slip_max t < slip then t\<lparr>kt_slip_max := slip\<rparr> else t)
      in t\<lparr>kt_slip_events := kt_slip_events t + 1, kt_missed_cycles := kt_missed_cycles t + missed\<rparr>)"

definition kernel_trace_cycle_start :: "u64 \<Rightarrow> kernel_trace \<Rightarrow> kernel_trace" where
  "kernel_trace_cycle_start now t =
     (let t = t\<lparr>kt_cycle_start := now\<rparr>;
          period = safe_time_diff (kt_last_cycle t) now;
          t = (if kt_last_cycle t \<noteq> 0 \<and> period < 100000
               then if period < 2 * LOOP_PERIOD_US then trace_jitter period t else trace_slip period t
               else t)
      in t\<lparr>kt_last_cycle := now\<rparr>)"

definition kernel_trace_cycle_end :: "u64 \<Rightarrow> kernel_trace \<Rightarrow> kernel_trace" where
  "kernel_trace_cycle_end now t =
     (let dt = safe_time_diff (kt_cycle_start t) now;
          t = (if dt < ucast (kt_exec_min t) then t\<lparr>kt_exec_min := ucast dt\<rparr> else t);
          t = (if ucast (kt_exec_max t) < dt then t\<lparr>kt_exec_max := ucast dt\<rparr> else t);
          t = t\<lparr>kt_exec_sum := kt_exec_sum t + dt, kt_exec_samples := kt_exec_samples t + 1, kt_cycles := kt_cycles t + 1\<rparr>
      in if kt_cycles t mod REPORT_WINDOW_CYCLES = 0 \<and> kt_exec_samples t \<noteq> 0
         then reset_trace_window (t\<lparr>kt_pending_report := Some \<lparr>tr_cycles = kt_cycles t,
                tr_jitter_min = (if kt_jitter_samples t \<noteq> 0 then kt_jitter_min t else 0),
                tr_jitter_avg = (if kt_jitter_samples t \<noteq> 0 then ucast (kt_jitter_sum t div ucast (kt_jitter_samples t)) else 0),
                tr_jitter_max = (if kt_jitter_samples t \<noteq> 0 then kt_jitter_max t else 0),
                tr_exec_min = kt_exec_min t, tr_exec_avg = ucast (kt_exec_sum t div ucast (kt_exec_samples t)),
                tr_exec_max = kt_exec_max t, tr_slip_events = kt_slip_events t, tr_missed_cycles = kt_missed_cycles t,
                tr_slip_max = kt_slip_max t\<rparr>\<rparr>)
         else t)"

definition kernel_trace_process :: "kernel_trace \<Rightarrow> kernel_trace_report_t option \<times> kernel_trace" where
  "kernel_trace_process t = (kt_pending_report t, t\<lparr>kt_pending_report := None\<rparr>)"

section \<open>phase\_load\_test.c\<close>

definition PHASE_LOAD_TEST_PHASE_COUNT :: u8 where "PHASE_LOAD_TEST_PHASE_COUNT = 5"
definition PHASE_LOAD_TEST_MAX_EXTRA_US :: u32 where "PHASE_LOAD_TEST_MAX_EXTRA_US = 1500"

record phase_load_test =
  phase_extra_us :: "u32 list"
  phase_mask :: u32

definition phase_bit :: "u8 \<Rightarrow> u32" where
  "phase_bit phase = (if phase < 32 then push_bit (unat phase) 1 else 0)"

definition phase_load_test_set :: "u8 \<Rightarrow> u32 \<Rightarrow> phase_load_test \<Rightarrow> phase_load_test" where
  "phase_load_test_set phase extra_us l =
     (if PHASE_LOAD_TEST_PHASE_COUNT \<le> phase then l
      else let extra_us = (if PHASE_LOAD_TEST_MAX_EXTRA_US < extra_us then PHASE_LOAD_TEST_MAX_EXTRA_US else extra_us)
        in \<lparr>phase_extra_us = (phase_extra_us l)[unat phase := extra_us],
            phase_mask = (if 0 < extra_us then phase_mask l OR phase_bit phase else phase_mask l AND NOT (phase_bit phase))\<rparr>)"

definition phase_load_test_clear :: "phase_load_test \<Rightarrow> phase_load_test" where
  "phase_load_test_clear l = \<lparr>phase_extra_us = map (\<lambda>_. 0) (phase_extra_us l), phase_mask = 0\<rparr>"

definition phase_load_test_is_active :: "phase_load_test \<Rightarrow> bool" where
  "phase_load_test_is_active l \<longleftrightarrow> phase_mask l \<noteq> 0"

record phase_load_test_snapshot_t =
  lt_active :: bool
  lt_active_phase_count :: u8
  lt_total_us :: u32
  lt_io_us :: u32
  lt_io_apply_us :: u32
  lt_fieldbus_us :: u32
  lt_automation_us :: u32
  lt_events_us :: u32

definition phase_load_test_get :: "phase_load_test \<Rightarrow> phase_load_test_snapshot_t" where
  "phase_load_test_get l =
     (let v = phase_extra_us l; used = filter (\<lambda>x. 0 < x) (take 5 v)
      in \<lparr>lt_active = (used \<noteq> []), lt_active_phase_count = of_nat (length used), lt_total_us = sum_list used,
          lt_io_us = v ! 0, lt_io_apply_us = v ! 1, lt_fieldbus_us = v ! 2, lt_automation_us = v ! 3, lt_events_us = v ! 4\<rparr>)"

definition phase_load_test_apply :: "'s board \<Rightarrow> u8 \<Rightarrow> phase_load_test \<Rightarrow> 's \<Rightarrow> 's" where
  "phase_load_test_apply B phase l s =
     (if PHASE_LOAD_TEST_PHASE_COUNT \<le> phase \<or> phase_mask l AND phase_bit phase = 0 then s
      else let extra_us = phase_extra_us l ! unat phase in if extra_us = 0 then s else esp_rom_delay_us B extra_us s)"

section \<open>phase\_monitor.c\<close>

definition phase_deadline :: "u32 list" where
  "phase_deadline = [90, 30, 100, 150, 50]"

definition phase_monitor_check :: "nat \<Rightarrow> u32 \<Rightarrow> u32 list \<Rightarrow> u32 list" where
  "phase_monitor_check phase exec_time overruns =
     (if 5 \<le> phase then overruns
      else if phase_deadline ! phase < exec_time then overruns[phase := overruns ! phase + 1] else overruns)"

record phase_monitor_snapshot_t =
  pm_io_deadline_us :: u32
  pm_io_apply_deadline_us :: u32
  pm_fieldbus_deadline_us :: u32
  pm_automation_deadline_us :: u32
  pm_events_deadline_us :: u32
  pm_io_overruns :: u32
  pm_io_apply_overruns :: u32
  pm_fieldbus_overruns :: u32
  pm_automation_overruns :: u32
  pm_events_overruns :: u32

definition phase_monitor_get :: "u32 list \<Rightarrow> phase_monitor_snapshot_t" where
  "phase_monitor_get ov = \<lparr>pm_io_deadline_us = phase_deadline ! 0, pm_io_apply_deadline_us = phase_deadline ! 1,
     pm_fieldbus_deadline_us = phase_deadline ! 2, pm_automation_deadline_us = phase_deadline ! 3,
     pm_events_deadline_us = phase_deadline ! 4, pm_io_overruns = ov ! 0, pm_io_apply_overruns = ov ! 1,
     pm_fieldbus_overruns = ov ! 2, pm_automation_overruns = ov ! 3, pm_events_overruns = ov ! 4\<rparr>"

section \<open>kernel\_metrics.c and kernel\_phase\_metrics.c\<close>

record kernel_metrics =
  km_jitter_max :: u64
  km_exec_max :: u64
  km_deadline_miss :: u32
  km_overrun :: u32
  km_cycle_counter :: u32

definition kernel_metrics_init :: kernel_metrics where
  "kernel_metrics_init = \<lparr>km_jitter_max = 0, km_exec_max = 0, km_deadline_miss = 0, km_overrun = 0, km_cycle_counter = 0\<rparr>"

text \<open>The flag says whether the values are logged.\<close>

definition kernel_metrics_update :: "u64 \<Rightarrow> u64 \<Rightarrow> u32 \<Rightarrow> u32 \<Rightarrow> kernel_metrics \<Rightarrow> bool \<times> kernel_metrics" where
  "kernel_metrics_update jitter exec_us miss over m =
     (let m = \<lparr>km_jitter_max = jitter, km_exec_max = exec_us, km_deadline_miss = miss, km_overrun = over,
               km_cycle_counter = km_cycle_counter m + 1\<rparr>
      in if 5000 \<le> km_cycle_counter m then (True, m\<lparr>km_cycle_counter := 0\<rparr>) else (False, m))"

record kernel_metrics_snapshot_t =
  ms_max_jitter :: u64
  ms_max_exec_time :: u64
  ms_deadline_miss :: u32
  ms_overrun_count :: u32

definition kernel_metrics_get :: "kernel_metrics \<Rightarrow> kernel_metrics_snapshot_t" where
  "kernel_metrics_get m = \<lparr>ms_max_jitter = km_jitter_max m, ms_max_exec_time = km_exec_max m,
     ms_deadline_miss = km_deadline_miss m, ms_overrun_count = km_overrun m\<rparr>"

record kernel_phase_metrics_t =
  px_io_max :: u32
  px_fieldbus_max :: u32
  px_automation_max :: u32
  px_events_max :: u32

definition kernel_phase_metrics_update :: "u32 \<Rightarrow> u32 \<Rightarrow> u32 \<Rightarrow> u32 \<Rightarrow> kernel_phase_metrics_t" where
  "kernel_phase_metrics_update io fieldbus automation events =
     \<lparr>px_io_max = io, px_fieldbus_max = fieldbus, px_automation_max = automation, px_events_max = events\<rparr>"

definition kernel_phase_metrics_get :: "kernel_phase_metrics_t \<Rightarrow> kernel_phase_metrics_t" where
  "kernel_phase_metrics_get m = m"

section \<open>control\_loop.c\<close>

definition WD_CONTROL_LOOP :: u8 where "WD_CONTROL_LOOP = 0"

text \<open>\<open>cl_phase_max\<close> has the five maxima in the order of \<open>phase_max_table\<close>: io, io\_apply, fieldbus, automation, events.\<close>

record 's control =
  cl_expected_cycle_time :: u64
  cl_cycle_counter :: u32
  cl_jitter_sum :: u64
  cl_jitter_samples :: u32
  cl_jitter_min :: u64
  cl_jitter_max :: u64
  cl_exec_min :: u64
  cl_exec_max :: u64
  cl_deadline_miss :: u32
  cl_consecutive_deadline_miss :: u32
  cl_overrun_count :: u32
  cl_phase_max :: "u32 list"
  cl_probe :: determinism_probe
  cl_trace :: kernel_trace
  cl_load :: phase_load_test
  cl_phase_overruns :: "u32 list"
  cl_metrics :: kernel_metrics
  cl_phase_metrics :: kernel_phase_metrics_t
  cl_watchdog :: "wd_entry_t list"
  cl_sys :: 's

text \<open>The table of the phases, for the scheduler.\<close>

definition phase_table ::
  "(nat \<Rightarrow> rs485_frame_t \<Rightarrow> 'w rs485_sys \<Rightarrow> 'w rs485_sys) \<Rightarrow>
   (nat \<Rightarrow> endap_event_t \<Rightarrow> event_bus \<times> 'w scheduler \<Rightarrow> event_bus \<times> 'w scheduler) \<Rightarrow>
   'w platform \<Rightarrow> ('c, 'x, 'w) automation_env \<Rightarrow> ('w scheduler \<Rightarrow> 'w scheduler) list" where
  "phase_table call handlers P env = [scheduler_run_io P, scheduler_run_fieldbus call P, scheduler_run_automation P env,
     scheduler_run_io_apply P (\<lambda>sid. cluster_io_is_local (ucast sid) (env_io env)), scheduler_run_events handlers]"

text \<open>
  The notifications that arrived while the loop was busy: each element is what one further \<open>ulTaskNotifyTake\<close> returns. A take
  clears the whole count, so what was pending when the loop woke up is gone with the first take.
\<close>

fun overrun_loop :: "nat list \<Rightarrow> nat" where
  "overrun_loop [] = 0"
| "overrun_loop (n # ns) = (if n = 0 then 0 else Suc (overrun_loop ns))"

definition note_jitter :: "u64 \<Rightarrow> 's control \<Rightarrow> 's control" where
  "note_jitter j c =
     (if BOOT_IGNORE_CYCLES < cl_cycle_counter c \<and> j < LOOP_PERIOD_US
      then let c = (if j < cl_jitter_min c then c\<lparr>cl_jitter_min := j\<rparr> else c);
               c = (if cl_jitter_max c < j then c\<lparr>cl_jitter_max := j\<rparr> else c)
        in c\<lparr>cl_jitter_sum := cl_jitter_sum c + j, cl_jitter_samples := cl_jitter_samples c + 1\<rparr>
      else c)"

definition correct_drift :: "u64 \<Rightarrow> u64 \<Rightarrow> u64" where
  "correct_drift start expected =
     (if expected < start then expected + ((start - expected) div LOOP_PERIOD_US + 1) * LOOP_PERIOD_US
      else expected + LOOP_PERIOD_US)"

definition note_phase :: "nat \<Rightarrow> u64 \<Rightarrow> 's control \<Rightarrow> 's control" where
  "note_phase i dt c =
     (let c = (if ucast (cl_phase_max c ! i) < dt then c\<lparr>cl_phase_max := (cl_phase_max c)[i := ucast dt]\<rparr> else c)
      in c\<lparr>cl_phase_overruns := phase_monitor_check i (ucast dt) (cl_phase_overruns c)\<rparr>)"

definition run_phase :: "'s board \<Rightarrow> ('s \<Rightarrow> 's) list \<Rightarrow> nat \<Rightarrow> 's control \<Rightarrow> 's control" where
  "run_phase B phases i c =
     (case read_time B (cl_sys c) of (t_before, s) \<Rightarrow>
      let s = (phases ! i) s; s = phase_load_test_apply B (of_nat i) (cl_load c) s in
      case read_time B s of (t_after, s) \<Rightarrow> note_phase i (safe_time_diff t_before t_after) (c\<lparr>cl_sys := s\<rparr>))"

definition note_exec :: "u64 \<Rightarrow> 's control \<Rightarrow> 's control" where
  "note_exec exec_us c =
     (let c = (if exec_us < cl_exec_min c then c\<lparr>cl_exec_min := exec_us\<rparr> else c)
      in if cl_exec_max c < exec_us then c\<lparr>cl_exec_max := exec_us\<rparr> else c)"

text \<open>The deadline monitor; the flag says that \<open>esp_system_abort\<close> is called.\<close>

definition check_deadline :: "u64 \<Rightarrow> 's control \<Rightarrow> bool \<times> 's control" where
  "check_deadline exec_us c =
     (if LOOP_PERIOD_US < exec_us
      then let c = c\<lparr>cl_deadline_miss := cl_deadline_miss c + 1, cl_consecutive_deadline_miss := cl_consecutive_deadline_miss c + 1\<rparr>
        in (DEADLINE_FAULT_THRESHOLD < cl_consecutive_deadline_miss c, c)
      else (False, c\<lparr>cl_consecutive_deadline_miss := 0\<rparr>))"

definition reset_statistics :: "'s control \<Rightarrow> 's control" where
  "reset_statistics c = c\<lparr>cl_jitter_sum := 0, cl_jitter_samples := 0, cl_jitter_min := - 1, cl_jitter_max := 0,
     cl_exec_min := - 1, cl_exec_max := 0, cl_phase_max := replicate 5 0\<rparr>"

definition publish_metrics :: "'s control \<Rightarrow> 's control" where
  "publish_metrics c =
     (if cl_jitter_samples c \<noteq> 0 \<and> cl_cycle_counter c mod 5000 = 0
      then let io_phase_max = (if cl_phase_max c ! 1 < cl_phase_max c ! 0 then cl_phase_max c ! 0 else cl_phase_max c ! 1);
               c = c\<lparr>cl_metrics := snd (kernel_metrics_update (cl_jitter_max c) (cl_exec_max c) (cl_deadline_miss c) (cl_overrun_count c) (cl_metrics c))\<rparr>;
               c = c\<lparr>cl_phase_metrics := kernel_phase_metrics_update io_phase_max (cl_phase_max c ! 2) (cl_phase_max c ! 3) (cl_phase_max c ! 4)\<rparr>
        in reset_statistics c
      else c)"

text \<open>
  One round of the loop up to the deadline monitor: the start is measured, the phases run. After a jump of the clock by more
  than a second the round is skipped (\<^const>\<open>None\<close>); otherwise the result is the execution time and the time of the end.
\<close>

definition cycle_body :: "'s board \<Rightarrow> ('s \<Rightarrow> 's) list \<Rightarrow> nat list \<Rightarrow> 's control \<Rightarrow> (u64 \<times> u64) option \<times> 's control" where
  "cycle_body B phases late_notifications c =
     (let c = c\<lparr>cl_overrun_count := cl_overrun_count c + of_nat (overrun_loop late_notifications)\<rparr> in
      case monotonic_time_us B (cl_sys c) of (start, s) \<Rightarrow>
      let c = c\<lparr>cl_sys := s\<rparr>;
          c = (if cl_expected_cycle_time c = 0 then c\<lparr>cl_expected_cycle_time := start\<rparr> else c);
          jitter = start - cl_expected_cycle_time c;
          jitter = (if sint jitter < 0 then - jitter else jitter)
      in if 1000000 < sint jitter then (None, c\<lparr>cl_expected_cycle_time := start + LOOP_PERIOD_US\<rparr>)
         else
           let c = c\<lparr>cl_cycle_counter := cl_cycle_counter c + 1\<rparr>;
               c = note_jitter jitter c;
               c = c\<lparr>cl_expected_cycle_time := correct_drift start (cl_expected_cycle_time c)\<rparr>;
               c = c\<lparr>cl_probe := determinism_probe_cycle_start start (cl_probe c)\<rparr>;
               c = c\<lparr>cl_trace := kernel_trace_cycle_start start (cl_trace c)\<rparr>;
               c = fold (run_phase B phases) [0..<length phases] c
           in case monotonic_time_us B (cl_sys c) of (end_us, s) \<Rightarrow>
             let exec_us = safe_time_diff start end_us in (Some (exec_us, end_us), note_exec exec_us (c\<lparr>cl_sys := s\<rparr>)))"

text \<open>The rest of the round, unless the monitor aborts.\<close>

definition cycle_finish :: "'s board \<Rightarrow> u64 \<Rightarrow> 's control \<Rightarrow> 's control" where
  "cycle_finish B end_us c =
     (let c = c\<lparr>cl_probe := determinism_probe_cycle_end end_us (cl_probe c)\<rparr>;
          c = c\<lparr>cl_trace := kernel_trace_cycle_end end_us (cl_trace c)\<rparr>;
          c = publish_metrics c
      in case xTaskGetTickCount B (cl_sys c) of (now, s) \<Rightarrow>
        c\<lparr>cl_watchdog := watchdog_feed now WD_CONTROL_LOOP (cl_watchdog c), cl_sys := s\<rparr>)"

text \<open>One round of \<open>control_loop_run\<close>; the flag says that the device was aborted.\<close>

definition control_loop_cycle :: "'s board \<Rightarrow> ('s \<Rightarrow> 's) list \<Rightarrow> nat list \<Rightarrow> 's control \<Rightarrow> bool \<times> 's control" where
  "control_loop_cycle B phases late_notifications c =
     (case cycle_body B phases late_notifications c of
        (None, c) \<Rightarrow> (False, c)
      | (Some (exec_us, end_us), c) \<Rightarrow>
          (case check_deadline exec_us c of (aborted, c) \<Rightarrow> if aborted then (True, c) else (False, cycle_finish B end_us c)))"

definition control_loop_get_metrics :: "'s control \<Rightarrow> kernel_metrics_snapshot_t" where
  "control_loop_get_metrics c = kernel_metrics_get (cl_metrics c)"

section \<open>Deadlines\<close>

text \<open>Rounds of the loop until it aborts, with the execution times they measured.\<close>

fun run_cycles :: "'s board \<Rightarrow> ('s \<Rightarrow> 's) list \<Rightarrow> nat list list \<Rightarrow> 's control \<Rightarrow> bool \<times> u64 list \<times> 's control" where
  "run_cycles B phases [] c = (False, [], c)"
| "run_cycles B phases (ns # nss) c =
     (let measured = (case fst (cycle_body B phases ns c) of None \<Rightarrow> [] | Some (exec_us, _) \<Rightarrow> [exec_us])
      in case control_loop_cycle B phases ns c of (aborted, c) \<Rightarrow>
        if aborted then (True, measured, c)
        else case run_cycles B phases nss c of (aborted, execs, c) \<Rightarrow> (aborted, measured @ execs, c))"

definition missed_run :: "u64 list \<Rightarrow> nat" where
  "missed_run execs = length (takeWhile (\<lambda>x. 1000 < x) (rev execs))"

lemma fold_phase_frame:
  "cl_consecutive_deadline_miss (fold (run_phase B phases) xs c) = cl_consecutive_deadline_miss c"
proof (induction xs arbitrary: c)
  case (Cons x xs)
  have "cl_consecutive_deadline_miss (run_phase B phases x c) = cl_consecutive_deadline_miss c"
    by (simp add: run_phase_def note_phase_def Let_def split: prod.split)
  then show ?case using Cons by simp
qed simp

lemma body_frame: "cl_consecutive_deadline_miss (snd (cycle_body B phases ns c)) = cl_consecutive_deadline_miss c"
  by (simp add: cycle_body_def Let_def note_exec_def note_jitter_def fold_phase_frame case_prod_beta)

lemma cycle_finish_frame: "cl_consecutive_deadline_miss (cycle_finish B e c) = cl_consecutive_deadline_miss c"
  by (simp add: cycle_finish_def publish_metrics_def reset_statistics_def Let_def case_prod_beta)

definition count_missed :: "nat \<Rightarrow> u64 list \<Rightarrow> nat" where
  "count_missed = foldl (\<lambda>m x. if 1000 < x then Suc m else 0)"

lemma count_missed_run: "count_missed 0 execs = missed_run execs"
  by (induction execs rule: rev_induct) (simp_all add: count_missed_def missed_run_def)

lemma check_deadline_count:
  assumes "unat (cl_consecutive_deadline_miss c) \<le> 200"
  shows "fst (check_deadline x c) \<longleftrightarrow> 200 < count_missed (unat (cl_consecutive_deadline_miss c)) [x]"
    and "unat (cl_consecutive_deadline_miss (snd (check_deadline x c))) = count_missed (unat (cl_consecutive_deadline_miss c)) [x]"
proof -
  have "unat (cl_consecutive_deadline_miss c + 1) = Suc (unat (cl_consecutive_deadline_miss c))"
    using assms by (simp add: unat_word_ariths)
  then show "fst (check_deadline x c) \<longleftrightarrow> 200 < count_missed (unat (cl_consecutive_deadline_miss c)) [x]"
    "unat (cl_consecutive_deadline_miss (snd (check_deadline x c))) = count_missed (unat (cl_consecutive_deadline_miss c)) [x]"
    by (simp_all add: check_deadline_def LOOP_PERIOD_US_def DEADLINE_FAULT_THRESHOLD_def count_missed_def Let_def word_less_nat_alt)
qed

lemma cycle_count:
  assumes "unat (cl_consecutive_deadline_miss c) \<le> 200"
    and "measured = (case fst (cycle_body B phases ns c) of None \<Rightarrow> [] | Some (exec_us, _) \<Rightarrow> [exec_us])"
  shows "fst (control_loop_cycle B phases ns c) \<longleftrightarrow> 200 < count_missed (unat (cl_consecutive_deadline_miss c)) measured"
    and "unat (cl_consecutive_deadline_miss (snd (control_loop_cycle B phases ns c))) = count_missed (unat (cl_consecutive_deadline_miss c)) measured"
proof -
  obtain r c1 where b: "cycle_body B phases ns c = (r, c1)" by fastforce
  have c1: "cl_consecutive_deadline_miss c1 = cl_consecutive_deadline_miss c" using body_frame [of B phases ns c] b by simp
  have "(fst (control_loop_cycle B phases ns c) \<longleftrightarrow> 200 < count_missed (unat (cl_consecutive_deadline_miss c)) measured) \<and>
    unat (cl_consecutive_deadline_miss (snd (control_loop_cycle B phases ns c))) = count_missed (unat (cl_consecutive_deadline_miss c)) measured"
  proof (cases r)
    case None
    then show ?thesis using assms b c1 by (simp add: control_loop_cycle_def count_missed_def)
  next
    case (Some x)
    then show ?thesis using assms b check_deadline_count [of c1 "fst x"] c1
      by (cases x) (simp add: control_loop_cycle_def cycle_finish_frame case_prod_beta)
  qed
  then show "fst (control_loop_cycle B phases ns c) \<longleftrightarrow> 200 < count_missed (unat (cl_consecutive_deadline_miss c)) measured"
    "unat (cl_consecutive_deadline_miss (snd (control_loop_cycle B phases ns c))) = count_missed (unat (cl_consecutive_deadline_miss c)) measured"
    by blast+
qed

lemma run_cycles_count:
  assumes "unat (cl_consecutive_deadline_miss c) \<le> 200"
  shows "fst (run_cycles B phases nss c) \<longleftrightarrow>
    200 < count_missed (unat (cl_consecutive_deadline_miss c)) (fst (snd (run_cycles B phases nss c)))"
  using assms
proof (induction nss arbitrary: c)
  case Nil
  then show ?case by (simp add: count_missed_def)
next
  case (Cons ns nss)
  define measured where "measured = (case fst (cycle_body B phases ns c) of None \<Rightarrow> [] | Some (exec_us, _) \<Rightarrow> [exec_us])"
  obtain ab c1 where c1: "control_loop_cycle B phases ns c = (ab, c1)" by fastforce
  note n = cycle_count [OF Cons.prems measured_def]
  have run: "run_cycles B phases (ns # nss) c = (if ab then (True, measured, c1)
      else case run_cycles B phases nss c1 of (aborted, execs, c) \<Rightarrow> (aborted, measured @ execs, c))"
    using c1 by (simp add: measured_def)
  show ?case
  proof (cases ab)
    case True
    then show ?thesis using run n(1) c1 by simp
  next
    case False
    then have "unat (cl_consecutive_deadline_miss c1) = count_missed (unat (cl_consecutive_deadline_miss c)) measured"
      "unat (cl_consecutive_deadline_miss c1) \<le> 200" using n c1 by simp_all
    then show ?thesis using Cons.IH [of c1] False run by (simp add: case_prod_beta count_missed_def)
  qed
qed

text \<open>
  C9: the loop aborts the device exactly when more than 200 measured rounds in a row exceed the period of a millisecond. This holds for
  any clocks, phases and lost notifications; a round in time resets the count, a round that is skipped because the clock jumped leaves it.
\<close>

theorem control_loop_aborts_iff:
  assumes "cl_consecutive_deadline_miss c = 0" "run_cycles B phases rounds c = (aborted, execs, c')"
  shows "aborted \<longleftrightarrow> 200 < length (takeWhile (\<lambda>exec_us. LOOP_PERIOD_US < exec_us) (rev execs))"
  using run_cycles_count [of c B phases rounds] assms by (simp add: count_missed_run missed_run_def LOOP_PERIOD_US_def)

section \<open>The grid of the cycles\<close>

text \<open>
  The drift correction keeps the grid: the next expected time is after the start, at most one period later, and a whole
  number of periods after the previous one.
\<close>

lemma correct_drift_grid:
  assumes "expected \<le> start" "unat start + 1000 < 2 ^ 64"
  shows "unat start < unat (correct_drift start expected) \<and> unat (correct_drift start expected) \<le> unat start + 1000 \<and>
    (unat (correct_drift start expected) - unat expected) mod 1000 = 0"
proof -
  define d where "d = unat start - unat expected"
  have le: "unat expected \<le> unat start" using assms(1) by (simp add: word_le_nat_alt)
  then have s: "unat (start - expected) = d" using assms(1) by (simp add: d_def unat_sub)
  define k where "k = d div 1000 + 1"
  have k: "d < k * 1000" "k * 1000 \<le> d + 1000" unfolding k_def by auto
  have u: "unat (correct_drift start expected) = unat expected + k * 1000"
  proof (cases "expected < start")
    case True
    have "(start - expected) div 1000 = of_nat (unat ((start - expected) div 1000))" by simp
    also have "unat ((start - expected) div 1000) = d div 1000" by (simp add: unat_div s)
    finally have "(start - expected) div 1000 + 1 = of_nat k" by (simp add: k_def)
    then have "correct_drift start expected = of_nat (unat expected + k * 1000)"
      using True by (simp add: correct_drift_def LOOP_PERIOD_US_def)
    moreover have "unat expected + k * 1000 < 2 ^ 64" using k le assms(2) by (simp add: d_def)
    moreover have "unat (of_nat n :: u64) = n" if "n < 2 ^ 64" for n using that by (simp add: unat_of_nat)
    ultimately show ?thesis by (simp only:)
  next
    case False
    then have "expected = start" using assms(1) by simp
    then show ?thesis using assms(2) by (simp add: correct_drift_def LOOP_PERIOD_US_def k_def d_def unat_word_ariths)
  qed
  have "unat start = unat expected + d" using le by (simp add: d_def)
  then show ?thesis using k u by simp
qed

lemma ucast_u64_u32_less: "(ucast x :: u32) < ucast y \<longleftrightarrow> x < y" if "x < 2 ^ 32" "y < 2 ^ 32" for x y :: u64
proof -
  have "unat (ucast z :: u32) = unat z" if "z < 2 ^ 32" for z :: u64
    using that by (simp add: unsigned_ucast_eq take_bit_nat_eq_self word_less_nat_alt)
  then show ?thesis using that by (simp add: word_less_nat_alt)
qed

lemma note_phase_fresh:
  assumes "cl_phase_max c ! i = 0"
  shows "cl_phase_max (note_phase i d c) = (cl_phase_max c)[i := ucast d]"
proof (cases "d = 0")
  case True
  then show ?thesis using assms by (simp add: note_phase_def) (metis list_update_id)
next
  case False
  then have "0 < d" by (simp add: word_gt_0)
  then show ?thesis using assms by (simp add: note_phase_def)
qed

lemma note_phase_frame:
  "cl_phase_overruns (note_phase i d c) = phase_monitor_check i (ucast d) (cl_phase_overruns c)"
  "cl_jitter_samples (note_phase i d c) = cl_jitter_samples c"
  "cl_cycle_counter (note_phase i d c) = cl_cycle_counter c"
  by (simp_all add: note_phase_def Let_def)

lemma length_phase_monitor_check [simp]: "length (phase_monitor_check i x ov) = length ov"
  by (simp add: phase_monitor_check_def)

lemma nth_phase_monitor_check:
  "\<lbrakk>i < 5; j < length ov\<rbrakk> \<Longrightarrow> phase_monitor_check i x ov ! j = ov ! j + (if i = j \<and> phase_deadline ! i < x then 1 else 0)"
  by (cases "i = j") (simp_all add: phase_monitor_check_def)


text \<open>The board measures 1.5 ms for every round; the first 200 rounds do not abort.\<close>

definition demo_board :: "u64 board" where
  "demo_board = \<lparr>monotonic_time_us = (\<lambda>t. (t, t + 1500)), read_time = (\<lambda>t. (t, t)), esp_rom_delay_us = (\<lambda>_ t. t), xTaskGetTickCount = (\<lambda>t. (0, t))\<rparr>"

definition demo_control :: "u64 control" where
  "demo_control = reset_statistics \<lparr>cl_expected_cycle_time = 0, cl_cycle_counter = 0, cl_jitter_sum = 0, cl_jitter_samples = 0, cl_jitter_min = 0,
     cl_jitter_max = 0, cl_exec_min = 0, cl_exec_max = 0, cl_deadline_miss = 0, cl_consecutive_deadline_miss = 0, cl_overrun_count = 0,
     cl_phase_max = [], cl_probe = determinism_probe_init \<lparr>dp_start_time = 0, dp_cycles = 0, dp_window_samples = 0, dp_exec_min = 0, dp_exec_max = 0,
       dp_exec_sum = 0, dp_pending_report = None\<rparr>,
     cl_trace = kernel_trace_init \<lparr>kt_cycle_start = 0, kt_last_cycle = 0, kt_cycles = 0, kt_jitter_samples = 0, kt_exec_samples = 0, kt_slip_events = 0,
       kt_missed_cycles = 0, kt_jitter_min = 0, kt_jitter_max = 0, kt_jitter_sum = 0, kt_slip_max = 0, kt_exec_min = 0, kt_exec_max = 0, kt_exec_sum = 0,
       kt_pending_report = None\<rparr>,
     cl_load = \<lparr>phase_extra_us = replicate 5 0, phase_mask = 0\<rparr>, cl_phase_overruns = replicate 5 0, cl_metrics = kernel_metrics_init,
     cl_phase_metrics = kernel_phase_metrics_update 0 0 0 0, cl_watchdog = demo_watchdog, cl_sys = 1000000\<rparr>"


lemma length_run_cycles: "length (fst (snd (run_cycles B phases nss c))) \<le> length nss"
proof (induction nss arbitrary: c)
  case (Cons ns nss)
  obtain ab c1 where c1: "control_loop_cycle B phases ns c = (ab, c1)" by fastforce
  show ?case using c1 Cons.IH [of c1] by (auto simp: case_prod_beta split: option.split)
qed simp

theorem control_loop_aborts_iff_witness: "\<not> fst (run_cycles demo_board [\<lambda>t. t] (replicate 200 []) demo_control)"
proof -
  obtain ab execs c' where r: "run_cycles demo_board [\<lambda>t. t] (replicate 200 []) demo_control = (ab, execs, c')" by (metis prod_cases3)
  have "cl_consecutive_deadline_miss demo_control = 0" by (simp add: demo_control_def reset_statistics_def)
  from control_loop_aborts_iff [OF this r] length_run_cycles [of demo_board "[\<lambda>t. t]" "replicate 200 []" demo_control]
  show ?thesis using r length_takeWhile_le [of "\<lambda>exec_us. LOOP_PERIOD_US < exec_us" "rev execs"] by simp
qed

end
