(* ===== verification/Spec2Isabelle.thy ===== *)
theory Spec2Isabelle
  imports Snapshot Command_Queues Fieldbus Ladder Output_Path Auth Automation Io_Binding Catalog Control_Loop
begin

text \<open>
  Verification of the ENDAP firmware, a controller for distributed automation on the ESP32: each
  node reads inputs, runs automation rules and a ladder program, drives outputs, talks to field
  devices over RS485 and to the other nodes of a cluster, and survives reboots with what it keeps
  in non-volatile storage. Paths below are relative to \<open>src/components\<close>.

  \<^bold>\<open>The parts and how they meet.\<close> A timer wakes the control loop every millisecond
  (\<open>kernel/control_loop\<close>); it runs the five phases of \<open>kernel/scheduler\<close>: scan the inputs and take a
  pending command, run the field bus, run automation and ladder, update the outputs, dispatch an
  event. All logic meets in the state store (\<open>data/state\<close>): the driver, the commands, the rules and
  the ladder write variables there; a write marks the snapshot as stale, publishes an event and
  flags the output for the driver. The failsafe guards the writes of commands and rules. The
  cluster manager watches the other nodes; its events reach the failover, which moves the
  ownership of outputs and, when the gateway is lost, applies the failsafe. Device profile and io
  binding decide which pins the driver uses.

  \<^bold>\<open>Theories.\<close>
  \<^item> Foundations: \<open>Prelude\<close> (integer types, byte encodings, list and word lemmas, the collections of
    simplification rules), \<open>Ring\<close> (ring buffers; locale \<open>bounded_fifo\<close>, interpreted for the event bus, both
    command queues and the receive ring), \<open>Keyed_Table\<close> (tables with a key; locale \<open>keyed_table\<close>, interpreted
    for registry, io ownership and accounts), \<open>Platform\<close> (the ESP-IDF services as a record of functions over an
    abstract world, their laws, and a simulation \<open>sim_platform\<close> that satisfies them), \<open>Nvs_Blob\<close> (one stored blob).
  \<^item> Data: \<open>Event_Bus\<close> (\<open>runtime/event_bus\<close>), \<open>State_Store\<close> (\<open>data/state\<close>; locale \<open>state_interface\<close>, interpreted for the
    live and for the restored store), \<open>Snapshot\<close> (\<open>runtime/snapshot\<close>), \<open>Command_Queues\<close> (\<open>runtime/io_command\<close>, \<open>runtime/event_set\<close>),
    \<open>Io_Image\<close> (\<open>data/io_image\<close>), \<open>Pve\<close> (\<open>runtime/pve\<close>), \<open>Io_Driver\<close> (\<open>runtime/io_driver\<close>), \<open>Output_Path\<close> (from the store to the pins).
  \<^item> Field bus: \<open>Parser\<close> (\<open>comm/parser\<close>), \<open>Rs485_Frame\<close> and \<open>Rs485_Engine\<close> (\<open>runtime/rs485_engine\<close>), \<open>Rs485_Hal\<close> (\<open>hal/rs485\<close>),
    \<open>Rs485_Master\<close> (\<open>runtime/rs485_master\<close>), \<open>Fieldbus\<close> (\<open>runtime/fieldbus\<close>, \<open>runtime/latency_histogram\<close>).
  \<^item> Logic: \<open>Ladder\<close> (\<open>runtime/ladder\<close>), \<open>Failsafe\<close> (\<open>runtime/failsafe\<close>), \<open>Automation\<close> (\<open>runtime/automation\<close>).
  \<^item> Cluster: \<open>Protocol\<close> (\<open>comm/protocol\<close>), \<open>Node_Identity\<close>, \<open>Cluster_Manager\<close>, \<open>Node_Registry\<close>, \<open>Cluster_Io\<close> (files of the same name in
    \<open>cluster\<close>, with \<open>cluster_failover.c\<close>).
  \<^item> Configuration: \<open>Auth\<close> (\<open>security/auth\<close>), \<open>Device_Profile\<close> (\<open>device_profile\<close>), \<open>Io_Binding\<close> (\<open>runtime/io_binding\<close>), \<open>Catalog\<close> (\<open>v3\<close>; locale
    \<open>resource_backend\<close>, interpreted for the sorted array).
  \<^item> Kernel: \<open>Watchdog\<close>, \<open>Scheduler\<close> (with \<open>control_kernel\<close> and \<open>runtime_monitor\<close>), \<open>Control_Loop\<close> (with the measurements of \<open>observability\<close>).

  \<^bold>\<open>Conventions.\<close> The static variables of a C file are a record; a function of the file is a definition of
  the same name that takes and returns the record. Unsigned integers are words of their width and
  wrap; signed ones are the same words read by \<^const>\<open>sint\<close>. Arrays are lists of the declared length;
  text buffers and stored blobs are byte lists with the layout of the C structure. Error codes and
  failing calls are values. A critical section makes an operation atomic; logging and
  delays without effect on the state are left out. A NULL argument is an option or a flag. A call of ESP-IDF is a field of \<open>platform\<close>
  (or of \<open>board\<close> for the clocks of the control loop); a callback or a function of a part that is not modelled is an argument.

  \<^bold>\<open>Hypotheses on the platform.\<close> \<open>nvs_durable\<close>, \<open>nvs_accepts\<close>, \<open>nvs_read_law\<close>, \<open>nvs_undisturbed\<close> (a committed blob is read back until it is
  written again), \<open>nvs_readonly_law\<close> (a handle opened for reading refuses writes), \<open>entropy_law\<close> (lengths of random bytes and digests), \<open>pin_law\<close> and
  \<open>pin_read_law\<close> (setting a pin sets its level, nothing else changes it). They occur as named premises; each theorem with one has
  a witness on \<open>sim_platform\<close> or a variant of it.

  \<^bold>\<open>What is shown.\<close>
  \<^item> From events to pins: the loss of the gateway makes the outputs safe (below); a cycle drives every
    output to the level of its variable (\<open>Scheduler\<close>); a write to the store has exactly its documented effects; dispatch is first in, first out;
    the failsafe trips every enabled output, and no automation step changes a latched one.
  \<^item> Abstract specifications: the polling automaton refined by \<open>Rs485_Master\<close>; the program semantics refined by the ladder scan;
    the admission life cycle refined by \<open>Node_Registry\<close>; the finite map refined by \<open>Catalog\<close>; the debouncing reference of \<open>Io_Driver\<close>; bounded queues.
  \<^item> Invariants under every sequence of operations: administrators are never lost, rules never conflict, channels never share an
    address, the network policy stays consistent, membership table and bus statistics stay well formed.
  \<^item> Round trips: RS485 frames, and what is stored by snapshot, rules, accounts, registry and network profile is restored by
    the next boot.
  \<^item> Time: the loop aborts exactly after more than 200 missed deadlines in a row; the watchdog restarts
    exactly after three late checks; a request is sent at most three times; a poll is acknowledged.
  \<^item> Defects, proved as behaviour of the code: input bindings are lost at boot, changes of default outputs are reverted, a delay bypasses the
    interlock, the self test replaces the stored program, phase times are attributed to other phases, the catalogue is not
    stored after a restore.

  \<^bold>\<open>Loops and bounds.\<close> Loops over arrays are folds or structural recursion over the remaining indices. Where
  the source loops on data (bisection, validation and scan of a ladder program, the flush of the journal), the function is
  total with a termination proof by the data that shrinks. The drain of the set requests is a partial function, and
  that it returns is a theorem; the base-36 key has at most 15 digits as in the code, which is enough for 64 bits.

  \<^bold>\<open>Not modelled.\<close> \<open>runtime/http_server\<close> beyond the broadcast flag (parsing and printing JSON over the ESP-IDF server, static pages);
  \<open>runtime/network\<close> (the state lives in the ESP-IDF network stack); \<open>cluster/cluster_transport*.c\<close> and \<open>cluster_discovery.c\<close> (sockets, ESP-NOW, mesh);
  \<open>kernel/core\<close> (creation of tasks and start-up order); sensor drivers and \<open>hal/hal_layer\<close> (bit-banged and register access); \<open>cluster_io_map.c\<close> (not
  compiled); interleaving of tasks inside an operation that takes no lock. \<open>PROJECT.json\<close> lists every part with its status.
\<close>

section \<open>The loss of the gateway\<close>

text \<open>
  C1: the loss of the gateway makes the outputs of a field node safe, down to the pins. When the
  cluster manager reports that a node with the profile of a gateway is suspect or offline, the
  handler of the event applies the policies, and the next update of the outputs drives the pin of
  every enabled output that this node owns to the level the policy prescribes, whatever level the
  pin had and whatever writes were pending.
\<close>

theorem gateway_loss_makes_outputs_safe:
  assumes "pin_law P pin" "outputs_current pin (fo_system x)" "system_ok (fo_system x)" "failsafe_ok (fo_failsafe x)"
    and "entries_ok (nr_entries reg)" "fst (snd (record_of (nr_entries reg) (ce_node_id evt))) = str_bytes ''gateway''"
    and "ce_node_id evt \<noteq> 0" "ce_node_id evt \<noteq> self_node"
    and "ce_type evt = EVENT_NODE_OFFLINE \<and> reason = FAILSAFE_REASON_NODE_OFFLINE \<or>
      ce_type evt = EVENT_NODE_SUSPECT \<and> reason = FAILSAFE_REASON_COMM_LOSS"
    and "x' = cluster_failover_event_handler P bcast reg cm self_node evt x"
    and "is_local = (\<lambda>sid. cluster_io_is_local (ucast sid) (fo_io x'))"
    and "ch \<in> set (io_output_table (sys_io (fo_system x)))" "oc_gpio ch \<noteq> GPIO_NUM_NC" "0 \<le> oc_gpio ch"
    and "e \<in> set (fs_entries (fo_failsafe x))" "fp_enabled (fe_policy e) \<noteq> 0" "fp_output_id (fe_policy e) = oc_id ch"
    and "state_valid_id (oc_id ch)" "is_local (oc_id ch)"
  shows "pin (oc_gpio ch) (sys_world (io_driver_update P is_local (fo_system x'))) =
    io_driver_output_gpio_level ch (safe_output (sys_state (fo_system x)) reason e \<noteq> 0)"
proof -
  let ?s = "fo_system x" and ?es = "fs_entries (fo_failsafe x)"
  have "cluster_failover_node_is_registered_gateway reg (ce_node_id evt)"
    using registered_gateway_iff assms(5-7) by blast
  from gateway_loss [OF assms(9,8) this assms(4,3)]
  have x': "fo_system x' = store.write_all P (trip_writes (sys_state ?s) reason ?es) ?s" using assms(10) by simp
  have d: "distinct (map out_id ?es)" using assms(4) by (simp add: failsafe_ok_def)
  have "state_get_int (sys_state (fo_system x')) (oc_id ch) = Some (safe_output (sys_state ?s) reason e)"
    using trip_writes_get(1) [OF d assms(3,15,16)] assms(17,18) unfolding x' by simp
  then have "drive_level is_local (sys_state (fo_system x')) ch =
      Some (io_driver_output_gpio_level ch (safe_output (sys_state ?s) reason e \<noteq> 0))"
    using assms(13,14,19) by (simp add: drive_level_def)
  moreover have "outputs_current pin (fo_system x')" "io_output_table (sys_io (fo_system x')) = io_output_table (sys_io ?s)"
    using outputs_current_write_all [OF assms(1,2)] unfolding x' by blast+
  ultimately show ?thesis using update_sets_pins [OF assms(1)] assms(12) by (metis in_set_conv_nth)
qed

text \<open>Node 7 with output 100 on; its gateway 5 goes offline and output 100 is switched off.\<close>

definition gateway_registry :: "sim_world registry" where
  "gateway_registry = demo_registry\<lparr>nr_entries := (nr_entries demo_registry)[0 := (nr_entries demo_registry ! 0)
     \<lparr>ne_profile := node_registry_copy_text 24 (Some (str_bytes ''gateway''))\<rparr>]\<rparr>"

definition demo_failover :: "(sim_world, bytes list) failover" where
  "demo_failover = \<lparr>fo_io = cluster_io_init 7 \<lparr>ci_table = [], ci_self_node = 0, ci_world = []\<rparr>, fo_failsafe = demo_failsafe,
     fo_system = snd (state_set_int sim_platform 100 1 boot_system)\<rparr>"

lemma gateway_registry_ok:
  "entries_ok (nr_entries gateway_registry)"
  "fst (snd (record_of (nr_entries gateway_registry) 5)) = str_bytes ''gateway''"
proof -
  let ?e = "(nr_entries demo_registry ! 0)\<lparr>ne_profile := node_registry_copy_text 24 (Some (str_bytes ''gateway''))\<rparr>"
  have s: "slot node_registry_find node_registry_allocate 5 (nr_entries demo_registry) = Some 0"
    by (simp add: slot_def node_registry_find_def demo_registry_def)
  have "ne_node_id ?e = 5" "entry_ok ?e" by (simp_all add: demo_registry_def entry_ok_def zero_entry_def)
  from entries_ok_store [OF demo_registry_ok s this(1) _ this(2)]
  show "entries_ok (nr_entries gateway_registry)" "fst (snd (record_of (nr_entries gateway_registry) 5)) = str_bytes ''gateway''"
    by (simp_all add: gateway_registry_def entry_record_def node_registry_copy_text_def c_str_strncpy)
      (simp add: str_bytes_def c_str_def)
qed

lemma demo_failover_current: "outputs_current (\<lambda>p w. sim_gpio w p) (fo_system demo_failover)"
proof -
  have "outputs_current (\<lambda>p w. sim_gpio w p) boot_system"
    by (auto simp: outputs_current_def boot_system_def channels_ok_def IO_DRIVER_MAX_OUTPUTS_def keys_distinct_def
        drive_level_def io_driver_output_gpio_level_def state_get_int_def state_init_def state_valid_id_def sim_init_def)
  from outputs_current_set_int [OF sim_pin_law this] show ?thesis by (simp add: demo_failover_def)
qed

theorem gateway_loss_makes_outputs_safe_witness:
  "let x' = cluster_failover_event_handler sim_platform demo_bcast gateway_registry stopped_cluster 7
       \<lparr>ce_node_id = 5, ce_type = EVENT_NODE_OFFLINE\<rparr> demo_failover
   in sim_gpio (sys_world (io_driver_update sim_platform (\<lambda>sid. cluster_io_is_local (ucast sid) (fo_io x')) (fo_system x'))) 26 = 0"
proof -
  let ?x' = "cluster_failover_event_handler sim_platform demo_bcast gateway_registry stopped_cluster 7
    \<lparr>ce_node_id = 5, ce_type = EVENT_NODE_OFFLINE\<rparr> demo_failover"
  let ?ch = "\<lparr>oc_id = 100, oc_gpio = 26, oc_active_low = False\<rparr>"
  let ?e = "failsafe_default_entry 100"
  have ok: "system_ok (fo_system demo_failover)" "failsafe_ok (fo_failsafe demo_failover)"
    using set_int_ok [OF boot_system_ok] demo_failsafe_ok by (simp_all add: demo_failover_def)
  have ch: "?ch \<in> set (io_output_table (sys_io (fo_system demo_failover)))" by (simp add: demo_failover_def boot_system_def)
  have e: "?e \<in> set (fs_entries (fo_failsafe demo_failover))" "fp_enabled (fe_policy ?e) \<noteq> 0" "fp_output_id (fe_policy ?e) = oc_id ?ch"
    by (simp_all add: demo_failover_def demo_failsafe_def failsafe_default_entry_def)
  have "cluster_get_master_node stopped_cluster = 0"
    by (simp add: stopped_cluster_def cluster_get_master_node_def cluster_manager_get_master_from_snapshot_def)
  then have loc: "cluster_io_is_local (ucast (oc_id ?ch)) (fo_io ?x')"
    by (simp add: cluster_failover_event_handler_def cluster_failover_apply_local_failsafe_if_gateway_lost_def Let_def
        cluster_io_handle_node_offline_def case_prod_unfold demo_failover_def cluster_io_init_def cluster_io_is_local_def
        copy_by_id_lookup lookup_def cluster_io_find_def free_io_def)
  have "safe_output st FAILSAFE_REASON_NODE_OFFLINE ?e = 0" for st
    by (simp add: safe_output_def failsafe_action_for_reason_def failsafe_default_entry_def failsafe_apply_action_def failsafe_codes)
  then show ?thesis
    using gateway_loss_makes_outputs_safe [OF sim_pin_law demo_failover_current ok gateway_registry_ok(1) _ _ _ _ refl refl ch _ _ e,
        where evt = "\<lparr>ce_node_id = 5, ce_type = EVENT_NODE_OFFLINE\<rparr>" and self_node = 7 and reason = FAILSAFE_REASON_NODE_OFFLINE
          and bcast = demo_bcast and cm = stopped_cluster] gateway_registry_ok(2) loc
    by (simp add: GPIO_NUM_NC_def state_valid_id_def STATE_MAX_ENTRIES_def io_driver_output_gpio_level_def Let_def)
qed

end
